(* ===== verification/Prelude.thy ===== *)
theory Prelude
  imports Complex_Main "HOL-Library.Multiset" "HOL-Library.AList"
begin

text \<open>
  Shared vocabulary of the development: the collections of rewrite rules the component
  proofs draw on, generic facts on lists and options, and the two insertion-ordered
  containers of the program's language.  A JavaScript \<open>Map\<close> is an association list in
  insertion order, updated by \<open>AList.update\<close> (an existing key keeps its place); a
  JavaScript \<open>Set\<close> is a list without repetitions, extended at its end.  The interface of a
  keyed store is the locale \<open>keyed_store\<close>; its client lemma says what a loop that updates
  one entry per item leaves under each key.
\<close>

section \<open>Collections of rewrite rules\<close>

named_theorems js_eval \<open>definitions of the language runtime, for evaluating closed terms\<close>
named_theorems js_exact \<open>arithmetic on exactly represented integers\<close>
named_theorems flow_simps \<open>rewriting for the flow graph\<close>

section \<open>Options and lists\<close>

definition opt_or :: "'a option \<Rightarrow> 'a \<Rightarrow> 'a" where
  "opt_or x d = (case x of None \<Rightarrow> d | Some v \<Rightarrow> v)"

lemma opt_or_simps [simp]: "opt_or None d = d" "opt_or (Some v) d = v"
  by (simp_all add: opt_or_def)

definition list_head :: "'a list \<Rightarrow> 'a option" where
  "list_head xs = (case xs of [] \<Rightarrow> None | x # _ \<Rightarrow> Some x)"

lemma list_head_simps [simp]: "list_head [] = None" "list_head (x # xs) = Some x"
  by (simp_all add: list_head_def)

lemma list_head_None [simp]: "list_head xs = None \<longleftrightarrow> xs = []"
  by (cases xs) simp_all

fun adjacent :: "'a list \<Rightarrow> ('a \<times> 'a) list" where
  "adjacent (x # y # xs) = (x, y) # adjacent (y # xs)"
| "adjacent _ = []"

lemma adjacent_map: "adjacent (map f xs) = map (map_prod f f) (adjacent xs)"
  by (induction xs rule: adjacent.induct) simp_all

lemma length_adjacent [simp]: "length (adjacent xs) = length xs - 1"
  by (induction xs rule: adjacent.induct) simp_all

lemma map_fst_adjacent: "map fst (adjacent xs) = butlast xs"
  by (induction xs rule: adjacent.induct) simp_all

lemma map_snd_adjacent: "map snd (adjacent xs) = tl xs"
  by (induction xs rule: adjacent.induct) simp_all

lemma in_adjacent_set: "(x, y) \<in> set (adjacent xs) \<Longrightarrow> x \<in> set xs \<and> y \<in> set xs"
  by (induction xs rule: adjacent.induct) auto

lemma filter_concat_map: "filter P (concat (map f xs)) = concat (map (\<lambda>x. filter P (f x)) xs)"
  by (induction xs) simp_all

lemma map_concat_map: "map g (concat (map f xs)) = concat (map (\<lambda>x. map g (f x)) xs)"
  by (induction xs) simp_all

lemma sum_list_concat_map: "sum_list (concat (map f xs)) = (\<Sum>x\<leftarrow>xs. sum_list (f x))"
  for f :: "'a \<Rightarrow> 'b::monoid_add list"
  by (induction xs) simp_all

text \<open>Summing by key: the totals of all keys add up to the total of the items.\<close>

lemma sum_list_by_key:
  fixes w :: "'a \<Rightarrow> 'b::comm_monoid_add"
  assumes "distinct ks" "\<And>x. x \<in> set xs \<Longrightarrow> key x \<in> set ks"
  shows "(\<Sum>k\<leftarrow>ks. \<Sum>x\<leftarrow>filter (\<lambda>x. key x = k) xs. w x) = (\<Sum>x\<leftarrow>xs. w x)"
  using assms(2)
proof (induction xs)
  case Nil
  then show ?case by (induction ks) simp_all
next
  case (Cons x xs)
  have split: "(\<Sum>y\<leftarrow>filter (\<lambda>y. key y = k) (x # xs). w y)
      = (if key x = k then w x else 0) + (\<Sum>y\<leftarrow>filter (\<lambda>y. key y = k) xs. w y)" for k
    by simp
  have one: "(\<Sum>k\<leftarrow>ks. if key x = k then w x else 0) = w x"
  proof -
    have "(\<Sum>k\<leftarrow>ks. if key x = k then w x else 0) = (\<Sum>k\<in>set ks. if key x = k then w x else 0)"
      using assms(1) by (simp add: sum_list_distinct_conv_sum_set)
    also have "\<dots> = w x" using Cons.prems [of x] by simp
    finally show ?thesis .
  qed
  show ?case
    using Cons by (simp only: split sum_list_addf one list.map sum_list.Cons) simp
qed

section \<open>Sets in insertion order\<close>

definition set_add :: "'a \<Rightarrow> 'a list \<Rightarrow> 'a list" where
  "set_add x s = (if x \<in> set s then s else s @ [x])"

text \<open>\<open>Array.from(new Set(xs))\<close>: the first occurrence of each element, in order.\<close>

definition uniq :: "'a list \<Rightarrow> 'a list" where
  "uniq xs = fold set_add xs []"

lemma set_set_add [simp]: "set (set_add x s) = insert x (set s)"
  by (auto simp: set_add_def)

lemma distinct_set_add [simp]: "distinct (set_add x s) = distinct s"
  by (simp add: set_add_def)

lemma set_fold_set_add [simp]: "set (fold set_add xs s) = set xs \<union> set s"
  by (induction xs arbitrary: s) auto

lemma distinct_fold_set_add [simp]: "distinct (fold set_add xs s) = distinct s"
  by (induction xs arbitrary: s) auto

lemma set_uniq [simp]: "set (uniq xs) = set xs"
  by (simp add: uniq_def)

lemma distinct_uniq [simp]: "distinct (uniq xs)"
  by (simp add: uniq_def)

lemma fold_set_add_absorb: "set xs \<subseteq> set s \<Longrightarrow> fold set_add xs s = s"
  by (induction xs) (simp_all add: set_add_def)

lemma fold_set_add_distinct:
  "distinct xs \<Longrightarrow> set xs \<inter> set s = {} \<Longrightarrow> fold set_add xs s = s @ xs"
proof (induction xs arbitrary: s)
  case (Cons x xs)
  then have "fold set_add xs (s @ [x]) = (s @ [x]) @ xs" by (intro Cons.IH) auto
  moreover have "set_add x s = s @ [x]" using Cons.prems by (simp add: set_add_def)
  ultimately show ?case by simp
qed simp

lemma uniq_distinct: "distinct xs \<Longrightarrow> uniq xs = xs"
  by (simp add: uniq_def fold_set_add_distinct)

lemma uniq_idem [simp]: "uniq (uniq xs) = uniq xs"
  by (simp add: uniq_distinct)

lemma uniq_Nil [simp]: "uniq [] = []"
  by (simp add: uniq_def)

lemma uniq_eq_Nil [simp]: "uniq xs = [] \<longleftrightarrow> xs = []"
  by (metis set_empty set_uniq)

lemma length_uniq: "length (uniq xs) = card (set xs)"
  using distinct_card [OF distinct_uniq, of xs] by simp

section \<open>Keyed stores\<close>

locale keyed_store =
  fixes empty :: 'm
    and get :: "'m \<Rightarrow> 'k \<Rightarrow> 'v option"
    and put :: "'k \<Rightarrow> 'v \<Rightarrow> 'm \<Rightarrow> 'm"
    and invar :: "'m \<Rightarrow> bool"
  assumes get_empty: "get empty k = None"
    and get_put: "invar m \<Longrightarrow> get (put k v m) = (get m)(k \<mapsto> v)"
    and invar_empty: "invar empty"
    and invar_put: "invar m \<Longrightarrow> invar (put k v m)"
begin

lemma invar_fold_put:
  "invar m \<Longrightarrow> invar (fold (\<lambda>x m. put (key x) (f x (get m (key x))) m) xs m)"
  by (induction xs arbitrary: m) (simp_all add: invar_put)

text \<open>
  A loop that, for every item, replaces the entry of the item's key by a function of the
  old entry: the final entry of a key is the fold over the items that carry it.
\<close>

lemma get_fold_put:
  "invar m \<Longrightarrow>
   get (fold (\<lambda>x m. put (key x) (f x (get m (key x))) m) xs m) k
     = fold (\<lambda>x old. Some (f x old)) (filter (\<lambda>x. key x = k) xs) (get m k)"
proof (induction xs arbitrary: m)
  case (Cons x xs)
  have "invar (put (key x) (f x (get m (key x))) m)" using Cons.prems by (rule invar_put)
  from Cons.IH [OF this] Cons.prems show ?case by (simp add: get_put)
qed simp

lemma get_fold_put_empty:
  "get (fold (\<lambda>x m. put (key x) (f x (get m (key x))) m) xs empty) k
     = fold (\<lambda>x old. Some (f x old)) (filter (\<lambda>x. key x = k) xs) None"
  by (simp add: get_fold_put invar_empty get_empty)

end

interpretation js_map: keyed_store "[]" map_of AList.update "\<lambda>m. distinct (map fst m)"
  by unfold_locales (auto simp: update_conv' distinct_update)

lemma map_fst_update: "map fst (AList.update k v m) = set_add k (map fst m)"
  by (induction m) (auto simp: set_add_def)

lemma set_update_subset: "set (AList.update k v m) \<subseteq> insert (k, v) (set m)"
  by (induction m) auto

lemma map_fst_fold_update:
  "map fst (fold (\<lambda>x m. AList.update (key x) (f x m) m) xs m)
     = fold set_add (map key xs) (map fst m)"
  by (induction xs arbitrary: m) (simp_all add: map_fst_update)

lemma distinct_fold_update:
  "distinct (map fst m) \<Longrightarrow>
   distinct (map fst (fold (\<lambda>x m. AList.update (key x) (f x m) m) xs m))"
  by (simp add: map_fst_fold_update)

end
