(* ===== verification/JS_Number.thy ===== *)
theory JS_Number
  imports Prelude
begin

text \<open>
  The number type of the program's language: IEEE 754 binary64.  A number is NaN, an
  infinity or a finite value, held as the rational it stands for; every arithmetic result
  is the exact rational result rounded to nearest, ties to even, by \<open>rnd\<close>.  The two zeros
  are one value here: the modelled code never divides by a computed zero of unknown sign
  and never tells the zeros apart.  The lemmas show that integers up to $2^{53}$ are exact
  (\<open>rnd_of_int\<close>) and that their sums and comparisons are those of the integers (collection
  \<open>js_exact\<close>).
\<close>

section \<open>Values and rounding\<close>

datatype jsnum = NaN | PInf | NInf | Fin rat

function blen :: "int \<Rightarrow> nat" where
  "blen n = (if n \<le> 0 then 0 else Suc (blen (n div 2)))"
  by pat_completeness auto
termination
  by (relation "measure nat") auto

declare blen.simps [simp del]

text \<open>The binary exponent of a positive rational: \<open>2 powi expo2 q \<le> q < 2 powi (expo2 q + 1)\<close>.\<close>

definition expo2 :: "rat \<Rightarrow> int" where
  "expo2 q = (let (n, d) = quotient_of q; k = int (blen n) - int (blen d)
              in if 2 powi k \<le> q then k else k - 1)"

definition round_half_even :: "rat \<Rightarrow> int" where
  "round_half_even r =
     (let f = \<lfloor>r\<rfloor>; d = r - of_int f
      in if d < 1 / 2 then f else if 1 / 2 < d then f + 1 else if even f then f else f + 1)"

text \<open>
  53 significant bits, least exponent \<open>-1074\<close> (subnormals), overflow to an infinity.
\<close>

definition rnd :: "rat \<Rightarrow> jsnum" where
  "rnd q =
     (if q = 0 then Fin 0
      else let e = max (expo2 \<bar>q\<bar> - 52) (- 1074);
               v = of_int (round_half_even (\<bar>q\<bar> / 2 powi e)) * 2 powi e
           in if 2 ^ 1024 \<le> v then (if 0 < q then PInf else NInf)
              else Fin (if 0 < q then v else - v))"

section \<open>Operations\<close>

abbreviation jint :: "int \<Rightarrow> jsnum" where
  "jint k \<equiv> Fin (of_int k)"

fun js_neg :: "jsnum \<Rightarrow> jsnum" where
  "js_neg NaN = NaN"
| "js_neg PInf = NInf"
| "js_neg NInf = PInf"
| "js_neg (Fin a) = Fin (- a)"

fun js_abs :: "jsnum \<Rightarrow> jsnum" where
  "js_abs NaN = NaN"
| "js_abs PInf = PInf"
| "js_abs NInf = PInf"
| "js_abs (Fin a) = Fin \<bar>a\<bar>"

fun js_add :: "jsnum \<Rightarrow> jsnum \<Rightarrow> jsnum" where
  "js_add (Fin a) (Fin b) = rnd (a + b)"
| "js_add NaN _ = NaN"
| "js_add _ NaN = NaN"
| "js_add PInf NInf = NaN"
| "js_add NInf PInf = NaN"
| "js_add PInf _ = PInf"
| "js_add _ PInf = PInf"
| "js_add NInf _ = NInf"
| "js_add _ NInf = NInf"

definition js_sub :: "jsnum \<Rightarrow> jsnum \<Rightarrow> jsnum" where
  "js_sub a b = js_add a (js_neg b)"

definition inf_of_sign :: "rat \<Rightarrow> jsnum" where
  "inf_of_sign s = (if s = 0 then NaN else if 0 < s then PInf else NInf)"

fun js_sign :: "jsnum \<Rightarrow> rat" where
  "js_sign NaN = 0"
| "js_sign PInf = 1"
| "js_sign NInf = - 1"
| "js_sign (Fin a) = sgn a"

fun js_mul :: "jsnum \<Rightarrow> jsnum \<Rightarrow> jsnum" where
  "js_mul (Fin a) (Fin b) = rnd (a * b)"
| "js_mul a b = inf_of_sign (js_sign a * js_sign b)"

fun js_div :: "jsnum \<Rightarrow> jsnum \<Rightarrow> jsnum" where
  "js_div (Fin a) (Fin b) = (if b = 0 then inf_of_sign (sgn a) else rnd (a / b))"
| "js_div NaN _ = NaN"
| "js_div _ NaN = NaN"
| "js_div (Fin a) _ = Fin 0"
| "js_div a (Fin b) = inf_of_sign (js_sign a * (if b < 0 then - 1 else 1))"
| "js_div _ _ = NaN"

fun js_lt :: "jsnum \<Rightarrow> jsnum \<Rightarrow> bool" where
  "js_lt (Fin a) (Fin b) = (a < b)"
| "js_lt NaN _ = False"
| "js_lt _ NaN = False"
| "js_lt _ NInf = False"
| "js_lt PInf _ = False"
| "js_lt _ _ = True"

text \<open>\<open>===\<close> on numbers.\<close>

definition js_eq :: "jsnum \<Rightarrow> jsnum \<Rightarrow> bool" where
  "js_eq a b = (a \<noteq> NaN \<and> a = b)"

definition js_le :: "jsnum \<Rightarrow> jsnum \<Rightarrow> bool" where
  "js_le a b = (js_lt a b \<or> js_eq a b)"

definition is_finite :: "jsnum \<Rightarrow> bool" where
  "is_finite a = (case a of Fin _ \<Rightarrow> True | _ \<Rightarrow> False)"

definition is_integer :: "jsnum \<Rightarrow> bool" where
  "is_integer a = (case a of Fin q \<Rightarrow> of_int \<lfloor>q\<rfloor> = q | _ \<Rightarrow> False)"

definition is_safe_integer :: "jsnum \<Rightarrow> bool" where
  "is_safe_integer a =
     (is_integer a \<and> (case a of Fin q \<Rightarrow> \<bar>q\<bar> \<le> 9007199254740991 | _ \<Rightarrow> False))"

text \<open>\<open>Boolean(x)\<close>, and \<open>x || y\<close> on numbers.\<close>

definition num_truthy :: "jsnum \<Rightarrow> bool" where
  "num_truthy a = (a \<noteq> NaN \<and> a \<noteq> Fin 0)"

definition num_or :: "jsnum \<Rightarrow> jsnum \<Rightarrow> jsnum" where
  "num_or a b = (if num_truthy a then a else b)"

definition js_max :: "jsnum \<Rightarrow> jsnum \<Rightarrow> jsnum" where
  "js_max a b = (if a = NaN \<or> b = NaN then NaN else if js_lt a b then b else a)"

fun js_floor :: "jsnum \<Rightarrow> jsnum" where
  "js_floor (Fin q) = jint \<lfloor>q\<rfloor>"
| "js_floor a = a"

text \<open>\<open>Math.round\<close>: ties towards plus infinity.\<close>

fun js_round :: "jsnum \<Rightarrow> jsnum" where
  "js_round (Fin q) = jint \<lfloor>q + 1 / 2\<rfloor>"
| "js_round a = a"

section \<open>Rounding is exact on representable values\<close>

lemma blen_0 [simp]: "n \<le> 0 \<Longrightarrow> blen n = 0"
  by (simp add: blen.simps)

lemma blen_pos: "0 < n \<Longrightarrow> blen n = Suc (blen (n div 2))"
  by (subst blen.simps) simp

lemma blen_bounds: "0 < n \<Longrightarrow> 2 ^ blen n \<le> 2 * n \<and> n < 2 ^ blen n"
proof (induction n rule: blen.induct)
  case (1 n)
  show ?case
  proof (cases "n div 2 = 0")
    case True
    with 1(2) have "n = 1" by presburger
    then show ?thesis by (simp add: blen_pos)
  next
    case False
    with 1(2) have "0 < n div 2" by presburger
    with 1 have "2 ^ blen (n div 2) \<le> 2 * (n div 2) \<and> n div 2 < 2 ^ blen (n div 2)" by simp
    then have "2 * 2 ^ blen (n div 2) \<le> 2 * n \<and> n < 2 * 2 ^ blen (n div 2)" by presburger
    then show ?thesis by (simp only: blen_pos [OF 1(2)] power_Suc)
  qed
qed

lemma rat_pos_frac:
  assumes "0 < q" "quotient_of q = (n, d)"
  shows "0 < n" "0 < d" "q = of_int n / of_int d"
proof -
  show d: "0 < d" using assms(2) by (rule quotient_of_denom_pos)
  show q: "q = of_int n / of_int d" using assms(2) by (rule quotient_of_div)
  show "0 < n" using assms(1) d q by (simp add: zero_less_divide_iff)
qed

lemma expo2_bounds:
  assumes "0 < q"
  shows "2 powi expo2 q \<le> q" "q < 2 powi (expo2 q + 1)"
proof -
  obtain n d where nd: "quotient_of q = (n, d)" by fastforce
  note f = rat_pos_frac [OF assms nd]
  define a b where "a = blen n" and "b = blen d"
  have n: "(2::int) ^ a \<le> 2 * n" "n < 2 ^ a" and d: "(2::int) ^ b \<le> 2 * d" "d < 2 ^ b"
    using blen_bounds f(1,2) unfolding a_def b_def by blast+
  have n': "(2::rat) ^ a \<le> 2 * of_int n" "of_int n < (2::rat) ^ a"
    and d': "(2::rat) ^ b \<le> 2 * of_int d" "of_int d < (2::rat) ^ b"
    using n d by (metis of_int_le_iff of_int_less_iff of_int_mult of_int_numeral of_int_power)+
  have p: "(2::rat) powi (int a - int b) = 2 ^ a / 2 ^ b"
    by (simp add: power_int_diff)
  have up: "q < 2 powi (int a - int b + 1)"
  proof -
    have "q = of_int n / of_int d" by fact
    also have "\<dots> < 2 ^ a / of_int d" using n' f by (simp add: divide_strict_right_mono)
    also have "\<dots> \<le> 2 ^ a / (2 ^ b / 2)" using d' f by (intro divide_left_mono) auto
    also have "\<dots> = 2 powi (int a - int b + 1)" by (subst power_int_add) (simp_all add: p)
    finally show ?thesis .
  qed
  have lo: "2 powi (int a - int b - 1) \<le> q"
  proof -
    have "(2::rat) ^ a / 2 / 2 ^ b \<le> of_int n / 2 ^ b"
      using n' by (intro divide_right_mono) auto
    also have "\<dots> \<le> of_int n / of_int d" using d' f by (intro divide_left_mono) auto
    finally have "2 ^ a / 2 / 2 ^ b \<le> q" using f by simp
    moreover have "(2::rat) powi (int a - int b - 1) = 2 ^ a / 2 / 2 ^ b"
      by (simp add: power_int_diff)
    ultimately show ?thesis by simp
  qed
  show "2 powi expo2 q \<le> q" "q < 2 powi (expo2 q + 1)"
    using up lo unfolding expo2_def nd by (auto simp: Let_def a_def b_def)
qed

lemma expo2_le:
  assumes "0 < q" "q < 2 powi j"
  shows "expo2 q < j"
proof (rule ccontr)
  assume "\<not> expo2 q < j"
  then have "(2::rat) powi j \<le> 2 powi expo2 q" by (intro power_int_increasing) auto
  with expo2_bounds(1) [OF assms(1)] assms(2) show False by simp
qed

lemma round_half_even_int [simp]: "round_half_even (of_int k) = k"
  by (simp add: round_half_even_def)

lemma round_half_even_mono:
  assumes "r \<le> s"
  shows "round_half_even r \<le> round_half_even s"
proof (cases "\<lfloor>r\<rfloor> = \<lfloor>s\<rfloor>")
  case True
  with assms show ?thesis by (auto simp: round_half_even_def Let_def)
next
  case False
  with assms have "\<lfloor>r\<rfloor> + 1 \<le> \<lfloor>s\<rfloor>" using floor_mono [OF assms] by linarith
  moreover have "round_half_even r \<le> \<lfloor>r\<rfloor> + 1" "\<lfloor>s\<rfloor> \<le> round_half_even s"
    by (simp_all add: round_half_even_def Let_def)
  ultimately show ?thesis by linarith
qed

lemma rnd_0 [simp]: "rnd 0 = Fin 0"
  by (simp add: rnd_def)

lemma rnd_exact_scaled:
  assumes "q \<noteq> 0" "\<bar>q\<bar> = of_int m * 2 powi ex" "m < 2 ^ 53" "- 1074 \<le> ex" "\<bar>q\<bar> < 2 ^ 1024"
  shows "rnd q = Fin q"
proof -
  define e where "e = max (expo2 \<bar>q\<bar> - 52) (- 1074)"
  have pos: "0 < \<bar>q\<bar>" using assms(1) by simp
  have "of_int m < (2::rat) ^ 53" using assms(3) by (metis of_int_less_iff of_int_numeral of_int_power)
  then have "\<bar>q\<bar> < 2 ^ 53 * 2 powi ex" unfolding assms(2) by (intro mult_strict_right_mono) auto
  also have "(2::rat) ^ 53 * 2 powi ex = 2 powi (53 + ex)" by (subst power_int_add) simp_all
  finally have "expo2 \<bar>q\<bar> < 53 + ex" by (rule expo2_le [OF pos])
  with assms(4) have le: "e \<le> ex" unfolding e_def by simp
  have "\<bar>q\<bar> / 2 powi e = of_int m * 2 powi (ex - e)"
    by (simp add: assms(2) power_int_diff)
  also have "(2::rat) powi (ex - e) = of_int (2 ^ nat (ex - e))"
    using le by (simp add: power_int_def)
  finally have "\<bar>q\<bar> / 2 powi e = of_int (m * 2 ^ nat (ex - e))" by simp
  then have r: "of_int (round_half_even (\<bar>q\<bar> / 2 powi e)) = \<bar>q\<bar> / 2 powi e"
    by (simp only: round_half_even_int)
  then have "of_int (round_half_even (\<bar>q\<bar> / 2 powi e)) * 2 powi e = \<bar>q\<bar>" by simp
  with assms(1,5) show ?thesis
    unfolding rnd_def e_def [symmetric] Let_def by auto
qed

lemma two53: "(2::int) ^ 53 = 9007199254740992"
  by simp

text \<open>Every integer up to $2^{53}$ in absolute value is a number of the language.\<close>

lemma rnd_of_int:
  assumes "\<bar>k\<bar> \<le> 2 ^ 53"
  shows "rnd (of_int k) = jint k"
proof (cases "k = 0")
  case False
  have abs: "\<bar>rat_of_int k\<bar> = of_int \<bar>k\<bar>" by simp
  have "of_int \<bar>k\<bar> \<le> (2::rat) ^ 53"
    using assms by (metis of_int_le_iff of_int_numeral of_int_power)
  then have big: "\<bar>rat_of_int k\<bar> < 2 ^ 1024" unfolding abs by simp
  show ?thesis
  proof (cases "\<bar>k\<bar> = 2 ^ 53")
    case True
    have "\<bar>rat_of_int k\<bar> = of_int (2 ^ 52) * 2 powi 1" unfolding abs True by simp
    then show ?thesis by (rule rnd_exact_scaled [rotated]) (use False big in auto)
  next
    case ne: False
    have "\<bar>rat_of_int k\<bar> = of_int \<bar>k\<bar> * 2 powi 0" by simp
    then show ?thesis by (rule rnd_exact_scaled [rotated]) (use False ne assms big in auto)
  qed
qed simp

lemma rnd_le_pow2:
  assumes "0 \<le> q" "q \<le> 2 powi j" "0 \<le> j" "j < 1024"
  shows "\<exists>r. rnd q = Fin r \<and> 0 \<le> r \<and> r \<le> 2 powi j"
proof (cases "q = 0 \<or> q = 2 powi j")
  case True
  moreover have "rnd (2 powi j) = Fin (2 powi j)"
  proof (rule rnd_exact_scaled [where m = 1 and ex = j])
    have "(2::rat) powi j < 2 powi 1024" using assms by (intro power_int_strict_increasing) auto
    then show "\<bar>2 powi j\<bar> < (2::rat) ^ 1024" by simp
  qed (use assms in auto)
  ultimately show ?thesis by auto
next
  case False
  with assms have q: "0 < q" "q < 2 powi j" by auto
  define e where "e = max (expo2 q - 52) (- 1074)"
  have le: "e \<le> j" using expo2_le [OF q] assms(3) unfolding e_def by simp
  define m where "m = round_half_even (q / 2 powi e)"
  have "q / 2 powi e \<le> 2 powi (j - e)"
    using assms(2) by (simp add: power_int_diff divide_right_mono)
  also have "(2::rat) powi (j - e) = of_int (2 ^ nat (j - e))"
    using le by (simp add: power_int_def)
  finally have "m \<le> 2 ^ nat (j - e)"
    unfolding m_def using round_half_even_mono round_half_even_int by metis
  then have "(of_int m :: rat) \<le> 2 powi (j - e)"
    using le by (simp add: power_int_def)
  then have up: "of_int m * 2 powi e \<le> (2::rat) powi j"
    using power_int_add [of "2::rat" "j - e" e] by (simp add: mult_right_mono)
  have "0 \<le> q / 2 powi e" using q by simp
  then have "round_half_even (of_int 0) \<le> m"
    unfolding m_def by (intro round_half_even_mono) simp
  then have lo: "0 \<le> of_int m * (2::rat) powi e" by (simp del: of_int_0)
  have "(2::rat) powi j < 2 powi 1024" using assms by (intro power_int_strict_increasing) auto
  with up have "\<not> 2 ^ 1024 \<le> of_int m * (2::rat) powi e" by simp
  with up lo q show ?thesis by (simp add: rnd_def e_def [symmetric] m_def [symmetric] Let_def)
qed

text \<open>
  For evaluation: a result can only overflow when its last place is large, so the bound
  $2^{1024}$ is computed for those only.
\<close>

lemma rnd_no_overflow:
  assumes "0 < q" "e = max (expo2 q - 52) (- 1074)" "e \<le> 900"
  shows "of_int (round_half_even (q / 2 powi e)) * 2 powi e < (2::rat) ^ 1024"
proof -
  have "q < 2 powi (expo2 q + 1)" using expo2_bounds(2) [OF assms(1)] .
  also have "\<dots> \<le> 2 powi (53 + e)" using assms(2) by (intro power_int_increasing) auto
  also have "(2::rat) powi (53 + e) = of_int (2 ^ 53) * 2 powi e" by (simp add: power_int_add)
  finally have "q / 2 powi e \<le> of_int (2 ^ 53)" by (simp add: divide_le_eq)
  then have "round_half_even (q / 2 powi e) \<le> 2 ^ 53"
    using round_half_even_mono round_half_even_int by metis
  then have "of_int (round_half_even (q / 2 powi e)) \<le> (of_int (2 ^ 53) :: rat)"
    by (simp only: of_int_le_iff)
  then have "of_int (round_half_even (q / 2 powi e)) * (2::rat) powi e \<le> of_int (2 ^ 53) * 2 powi e"
    by (intro mult_right_mono) auto
  also have "of_int (2 ^ 53) * (2::rat) powi e = 2 powi (53 + e)" by (simp add: power_int_add)
  also have "\<dots> < 2 powi 1024" using assms(3) by (intro power_int_strict_increasing) auto
  finally show ?thesis by simp
qed

lemma rnd_overflow_late:
  "rnd q =
     (if q = 0 then Fin 0
      else let e = max (expo2 \<bar>q\<bar> - 52) (- 1074);
               v = of_int (round_half_even (\<bar>q\<bar> / 2 powi e)) * 2 powi e
           in if 900 < e
              then (if 2 ^ 1024 \<le> v then (if 0 < q then PInf else NInf)
                    else Fin (if 0 < q then v else - v))
              else Fin (if 0 < q then v else - v))"
proof (cases "q = 0")
  case False
  define e where "e = max (expo2 \<bar>q\<bar> - 52) (- 1074)"
  define v :: rat where "v = of_int (round_half_even (\<bar>q\<bar> / 2 powi e)) * 2 powi e"
  have lt: "v < 2 ^ 1024" if "\<not> 900 < e"
    unfolding v_def by (rule rnd_no_overflow) (use False that in \<open>auto simp: e_def\<close>)
  have "\<not> 2 ^ 1024 \<le> v" if "\<not> 900 < e" using lt [OF that] by (simp only: not_le)
  with False show ?thesis
    unfolding rnd_def Let_def e_def [symmetric] v_def [symmetric] by (simp only: if_False if_True split: if_split) blast
qed simp

lemma powi_split: "2 powi e = (if e < 0 then 1 / of_int (2 ^ nat (- e)) else (of_int (2 ^ nat e) :: rat))"
  by (simp add: power_int_def field_simps)

lemma rnd_code [code]:
  "rnd q =
     (if of_int \<lfloor>q\<rfloor> = q \<and> \<bar>\<lfloor>q\<rfloor>\<bar> \<le> 9007199254740992 then jint \<lfloor>q\<rfloor>
      else let e = max (expo2 \<bar>q\<bar> - 52) (- 1074);
               s = (if e < 0 then \<bar>q\<bar> * of_int (2 ^ nat (- e)) else \<bar>q\<bar> / of_int (2 ^ nat e));
               m = (if 0 < q then round_half_even s else - round_half_even s)
           in if 900 < e
              then (if 2 ^ 1024 \<le> \<bar>of_int m * 2 powi e :: rat\<bar> then (if 0 < q then PInf else NInf)
                    else jint (m * 2 ^ nat e))
              else if e < 0 then Fin (of_int m / of_int (2 ^ nat (- e))) else jint (m * 2 ^ nat e))"
proof (cases "of_int \<lfloor>q\<rfloor> = q \<and> \<bar>\<lfloor>q\<rfloor>\<bar> \<le> 9007199254740992")
  case True
  then have "rnd (of_int \<lfloor>q\<rfloor>) = jint \<lfloor>q\<rfloor>" by (intro rnd_of_int) simp
  with True show ?thesis by (simp only: if_True simp_thms)
next
  case False
  then have nz: "q \<noteq> 0" by auto
  define e where "e = max (expo2 \<bar>q\<bar> - 52) (- 1074)"
  define r where "r = round_half_even (\<bar>q\<bar> / 2 powi e)"
  define v :: rat where "v = of_int r * 2 powi e"
  define m where "m = (if 0 < q then r else - r)"
  have s: "(if e < 0 then \<bar>q\<bar> * of_int (2 ^ nat (- e)) else \<bar>q\<bar> / of_int (2 ^ nat e)) = \<bar>q\<bar> / 2 powi e"
    by (simp add: powi_split)
  have "round_half_even (of_int 0) \<le> r"
    unfolding r_def by (rule round_half_even_mono) simp
  then have v0: "0 \<le> v" by (simp del: of_int_0 add: v_def)
  have mv: "of_int m * 2 powi e = (if 0 < q then v else - v)" by (simp add: m_def v_def)
  then have abs: "\<bar>of_int m * 2 powi e\<bar> = v" using v0 by simp
  have scaled: "Fin (if 0 < q then v else - v)
      = (if e < 0 then Fin (of_int m / of_int (2 ^ nat (- e))) else jint (m * 2 ^ nat e))"
    unfolding mv [symmetric] by (simp add: powi_split)
  have big: "(if e < 0 then Fin (of_int m / of_int (2 ^ nat (- e))) else jint (m * 2 ^ nat e)) = jint (m * 2 ^ nat e)"
    if "900 < e"
  proof -
    have "\<not> e < 0" using that by linarith
    then show ?thesis by (rule if_not_P)
  qed
  have late: "rnd q = (if 900 < e
      then (if 2 ^ 1024 \<le> v then (if 0 < q then PInf else NInf) else jint (m * 2 ^ nat e))
      else if e < 0 then Fin (of_int m / of_int (2 ^ nat (- e))) else jint (m * 2 ^ nat e))"
    using rnd_overflow_late [of q] nz big
    unfolding Let_def e_def [symmetric] r_def [symmetric] v_def [symmetric] scaled
    by (cases "900 < e") (simp_all only: if_True if_False)
  show ?thesis
    unfolding if_not_P [OF False] Let_def e_def [symmetric] s r_def [symmetric] m_def [symmetric] abs
    by (rule late)
qed

text \<open>A quotient of non-negative numbers that does not exceed one rounds into \<open>[0, 1]\<close>.\<close>

lemma rnd_unit:
  assumes "0 \<le> q" "q \<le> 1"
  shows "\<exists>r. rnd q = Fin r \<and> 0 \<le> r \<and> r \<le> 1"
  using rnd_le_pow2 [of q 0] assms by simp

lemma rnd_ge_pow2:
  assumes "2 powi j \<le> q" "- 1074 \<le> j"
  shows "rnd q = PInf \<or> (\<exists>r. rnd q = Fin r \<and> 2 powi j \<le> r)"
proof -
  have q: "0 < q" using assms(1) by (rule less_le_trans [rotated]) simp
  have jE: "j \<le> expo2 q"
  proof (rule ccontr)
    assume "\<not> j \<le> expo2 q"
    then have "(2::rat) powi (expo2 q + 1) \<le> 2 powi j" by (intro power_int_increasing) auto
    with expo2_bounds(2) [OF q] assms(1) show False by simp
  qed
  define e where "e = max (expo2 q - 52) (- 1074)"
  have le: "e \<le> expo2 q" using jE assms(2) unfolding e_def by simp
  define m where "m = round_half_even (q / 2 powi e)"
  have "2 powi expo2 q / 2 powi e \<le> q / 2 powi e"
    using expo2_bounds(1) [OF q] by (simp add: divide_right_mono)
  moreover have "2 powi expo2 q / (2::rat) powi e = of_int (2 ^ nat (expo2 q - e))"
    using le by (simp add: power_int_diff [symmetric]) (simp add: power_int_def)
  ultimately have "2 ^ nat (expo2 q - e) \<le> m"
    unfolding m_def using round_half_even_mono round_half_even_int by metis
  then have "of_int (2 ^ nat (expo2 q - e)) \<le> (of_int m :: rat)" by (simp only: of_int_le_iff)
  then have "2 powi (expo2 q - e) \<le> (of_int m :: rat)" using le by (simp add: power_int_def)
  then have "2 powi expo2 q \<le> of_int m * (2::rat) powi e"
    using power_int_add [of "2::rat" "expo2 q - e" e] by (simp add: mult_right_mono)
  moreover have "(2::rat) powi j \<le> 2 powi expo2 q" using jE by (intro power_int_increasing) auto
  ultimately have "2 powi j \<le> of_int m * (2::rat) powi e" by simp
  with q show ?thesis by (simp add: rnd_def e_def [symmetric] m_def [symmetric] Let_def)
qed

text \<open>An integer whose number does not exceed a bound below $2^{53}$ is exact.\<close>

lemma rnd_of_int_bounded:
  assumes "0 \<le> n" "js_le (rnd (of_int n)) (jint b)" "b < 2 ^ 53"
  shows "n \<le> b" "rnd (of_int n) = jint n"
proof -
  have "n \<le> 2 ^ 53"
  proof (rule ccontr)
    assume "\<not> n \<le> 2 ^ 53"
    then have "(2::int) ^ 53 \<le> n" by simp
    then have "of_int (2 ^ 53) \<le> (of_int n :: rat)" by (simp only: of_int_le_iff)
    then have "2 powi 53 \<le> (of_int n :: rat)" by simp
    then have "rnd (of_int n) = PInf \<or> (\<exists>r. rnd (of_int n) = Fin r \<and> 2 powi 53 \<le> r)"
      by (rule rnd_ge_pow2) simp
    then show False
    proof (elim disjE exE conjE)
      assume "rnd (of_int n) = PInf"
      with assms(2) show False by (simp add: js_le_def js_eq_def)
    next
      fix r assume "rnd (of_int n) = Fin r" "2 powi 53 \<le> r"
      with assms(2) have "2 powi 53 \<le> (of_int b :: rat)" by (auto simp: js_le_def js_eq_def)
      then have "(of_int (2 ^ 53) :: rat) \<le> of_int b" by simp
      then have "2 ^ 53 \<le> b" by (simp only: of_int_le_iff)
      with assms(3) show False by simp
    qed
  qed
  with assms(1) show eq: "rnd (of_int n) = jint n" by (intro rnd_of_int) simp
  with assms(2) show "n \<le> b" by (auto simp: js_le_def js_eq_def)
qed

section \<open>Exact integer arithmetic\<close>

lemma js_add_jint [js_exact]: "\<bar>a + b\<bar> \<le> 2 ^ 53 \<Longrightarrow> js_add (jint a) (jint b) = jint (a + b)"
  using rnd_of_int [of "a + b"] by simp

lemma js_sub_jint [js_exact]: "\<bar>a - b\<bar> \<le> 2 ^ 53 \<Longrightarrow> js_sub (jint a) (jint b) = jint (a - b)"
  using rnd_of_int [of "a - b"] by (simp add: js_sub_def)

lemma js_mul_jint [js_exact]: "\<bar>a * b\<bar> \<le> 2 ^ 53 \<Longrightarrow> js_mul (jint a) (jint b) = jint (a * b)"
  using rnd_of_int [of "a * b"] by simp

lemma js_lt_jint [js_exact]: "js_lt (jint a) (jint b) \<longleftrightarrow> a < b"
  by simp

lemma js_le_jint [js_exact]: "js_le (jint a) (jint b) \<longleftrightarrow> a \<le> b"
  by (auto simp: js_le_def js_eq_def)

lemma js_le_Fin [simp]: "js_le (Fin a) (Fin b) \<longleftrightarrow> a \<le> b"
  by (auto simp: js_le_def js_eq_def)

lemma is_finite_simps [simp]:
  "is_finite (Fin q)" "\<not> is_finite NaN" "\<not> is_finite PInf" "\<not> is_finite NInf"
  by (simp_all add: is_finite_def)

lemma num_truthy_simps [simp]:
  "num_truthy (Fin q) \<longleftrightarrow> q \<noteq> 0" "\<not> num_truthy NaN" "num_truthy PInf" "num_truthy NInf"
  by (simp_all add: num_truthy_def)

lemma num_or_simps [simp]:
  "num_or (Fin q) b = (if q = 0 then b else Fin q)" "num_or NaN b = b"
  by (simp_all add: num_or_def)

text \<open>A running sum of integers is exact as long as the absolute values add up to at most $2^{53}$.\<close>

lemma fold_js_add_jint:
  "\<bar>a\<bar> + (\<Sum>x\<leftarrow>xs. \<bar>f x\<bar>) \<le> 2 ^ 53 \<Longrightarrow>
   fold (\<lambda>x s. js_add s (jint (f x))) xs (jint a) = jint (a + (\<Sum>x\<leftarrow>xs. f x))"
proof (induction xs arbitrary: a)
  case (Cons x xs)
  have "0 \<le> (\<Sum>x\<leftarrow>xs. \<bar>f x\<bar>)" by (rule sum_list_nonneg) auto
  with Cons.prems have "\<bar>a + f x\<bar> \<le> 2 ^ 53" and le: "\<bar>a + f x\<bar> + (\<Sum>x\<leftarrow>xs. \<bar>f x\<bar>) \<le> 2 ^ 53"
    by auto
  then have "js_add (jint a) (jint (f x)) = jint (a + f x)" by (intro js_add_jint)
  with Cons.IH [OF le] show ?case by (simp del: of_int_add add: add.assoc)
qed simp

end
