(* ===== verification/JS_String.thy ===== *)
theory JS_String
  imports JS_Number
begin

text \<open>
  Strings of the program's language: lists of UTF-16 code units, each an integer.  A literal
  of the source is written \<open>lit ''text''\<close>.  The operations are those the modelled code calls
  (\<open>trim\<close>, \<open>split\<close>, \<open>join\<close>, \<open>slice\<close>, \<open>includes\<close>, \<open>startsWith\<close>, \<open>indexOf\<close>), with the
  conversions between strings and numbers (\<open>Number\<close>, \<open>parseInt\<close>, \<open>parseFloat\<close>, \<open>String\<close>,
  \<open>toFixed\<close>).  The lemmas are the round trips of \<open>split\<close> and \<open>join\<close> and of decimal integers,
  and the algebra of \<open>trim\<close>.
\<close>

type_synonym jstr = "int list"

definition lit :: "string \<Rightarrow> jstr" where
  "lit s = map of_char s"

lemma lit_simps [js_eval]: "lit [] = []" "lit (c # s) = of_char c # lit s"
  by (simp_all add: lit_def)

lemma lit_append: "lit (s @ t) = lit s @ lit t"
  by (simp add: lit_def)

lemma lit_Nil [simp]: "lit [] = []"
  by (simp add: lit_def)

lemma length_lit [simp]: "length (lit s) = length s"
  by (simp add: lit_def)

lemma lit_eq_iff: "lit a = lit b \<longleftrightarrow> a = b"
  unfolding lit_def by (metis inj_map_eq_map inj_of_char)

section \<open>White space and trimming\<close>

text \<open>White space and line terminators: what \<open>trim\<close> removes and \<open>\s\<close> matches.\<close>

definition is_ws :: "int \<Rightarrow> bool" where
  "is_ws c = (9 \<le> c \<and> c \<le> 13 \<or> c = 32 \<or> c = 160 \<or> c = 5760 \<or> 8192 \<le> c \<and> c \<le> 8202
     \<or> c = 8232 \<or> c = 8233 \<or> c = 8239 \<or> c = 8287 \<or> c = 12288 \<or> c = 65279)"

definition trim_start :: "jstr \<Rightarrow> jstr" where
  "trim_start s = dropWhile is_ws s"

definition trim_end :: "jstr \<Rightarrow> jstr" where
  "trim_end s = rev (dropWhile is_ws (rev s))"

definition trim :: "jstr \<Rightarrow> jstr" where
  "trim s = trim_end (trim_start s)"

lemma trim_Nil [simp]: "trim [] = []"
  by (simp add: trim_def trim_start_def trim_end_def)

lemma set_trim_subset: "set (trim s) \<subseteq> set s"
  unfolding trim_def trim_start_def trim_end_def
  by (auto dest!: set_dropWhileD)

text \<open>A string is trimmed when neither end is white space.\<close>

definition trimmed :: "jstr \<Rightarrow> bool" where
  "trimmed s = (s = [] \<or> \<not> is_ws (hd s) \<and> \<not> is_ws (last s))"

lemma trimmed_trim_id: "trimmed s \<Longrightarrow> trim s = s"
proof -
  assume t: "trimmed s"
  have 1: "trim_start s = s"
    using t by (cases s) (auto simp: trim_start_def trimmed_def)
  have 2: "trim_end s = s"
    using t by (cases s rule: rev_cases) (auto simp: trim_end_def trimmed_def)
  from 1 2 show ?thesis by (simp add: trim_def)
qed

lemma trimmed_trim [simp]: "trimmed (trim s)"
proof (cases "trim s = []")
  case False
  let ?t = "dropWhile is_ws s"
  have ts: "trim s = rev (dropWhile is_ws (rev ?t))"
    by (simp add: trim_def trim_start_def trim_end_def)
  with False have ne: "dropWhile is_ws (rev ?t) \<noteq> []" by simp
  then have "\<not> is_ws (hd (dropWhile is_ws (rev ?t)))" by (rule hd_dropWhile)
  then have l: "\<not> is_ws (last (trim s))" using ne by (simp add: ts last_rev)
  have "?t = trim s @ rev (takeWhile is_ws (rev ?t))"
    unfolding ts by (metis rev_append rev_rev_ident takeWhile_dropWhile_id)
  with False have "hd ?t = hd (trim s)" and "?t \<noteq> []" by (metis hd_append, metis append_is_Nil_conv)
  then have "\<not> is_ws (hd (trim s))" using hd_dropWhile by metis
  with l show ?thesis by (simp add: trimmed_def)
qed (simp add: trimmed_def)

lemma trim_trim [simp]: "trim (trim s) = trim s"
  by (simp add: trimmed_trim_id)

lemma trim_no_ws: "\<forall>c\<in>set s. \<not> is_ws c \<Longrightarrow> trim s = s"
  by (cases "s = []") (auto intro!: trimmed_trim_id simp: trimmed_def)

lemma trim_eq_Nil: "trim s = [] \<longleftrightarrow> (\<forall>c\<in>set s. is_ws c)"
proof
  assume "\<forall>c\<in>set s. is_ws c"
  then have "dropWhile is_ws s = []" by simp
  then show "trim s = []" by (simp add: trim_def trim_start_def trim_end_def del: dropWhile_eq_Nil_conv)
next
  assume "trim s = []"
  then have "dropWhile is_ws (rev (dropWhile is_ws s)) = []"
    by (simp add: trim_def trim_start_def trim_end_def)
  then have all: "\<forall>c\<in>set (dropWhile is_ws s). is_ws c" by simp
  have "dropWhile is_ws s = []"
    using all hd_dropWhile [of is_ws s] by (cases "dropWhile is_ws s") auto
  then show "\<forall>c\<in>set s. is_ws c" by simp
qed

section \<open>Splitting and joining\<close>

text \<open>\<open>s.split(c)\<close> for a separator of one code unit.\<close>

fun split_char :: "int \<Rightarrow> jstr \<Rightarrow> jstr list" where
  "split_char c [] = [[]]"
| "split_char c (x # xs) =
     (if x = c then [] # split_char c xs
      else case split_char c xs of [] \<Rightarrow> [[x]] | y # ys \<Rightarrow> (x # y) # ys)"

fun join :: "jstr \<Rightarrow> jstr list \<Rightarrow> jstr" where
  "join sep [] = []"
| "join sep [x] = x"
| "join sep (x # y # xs) = x @ sep @ join sep (y # xs)"

lemma split_char_ne [simp]: "split_char c s \<noteq> []"
  by (induction s) (auto split: list.splits)

lemma join_Cons: "xs \<noteq> [] \<Longrightarrow> join sep (x # xs) = x @ sep @ join sep xs"
  by (cases xs) simp_all

lemma join_split_char: "join [c] (split_char c s) = s"
proof (induction s)
  case (Cons x s)
  then show ?case
    by (cases "split_char c s"; cases "tl (split_char c s)") (auto simp: join_Cons)
qed simp

lemma split_char_free: "c \<notin> set s \<Longrightarrow> split_char c s = [s]"
  by (induction s) auto

lemma split_char_append: "c \<notin> set s \<Longrightarrow> split_char c (s @ c # t) = s # split_char c t"
  by (induction s) auto

lemma split_char_join:
  "xs \<noteq> [] \<Longrightarrow> \<forall>x\<in>set xs. c \<notin> set x \<Longrightarrow> split_char c (join [c] xs) = xs"
proof (induction xs rule: induct_list012)
  case (3 x y zs)
  then show ?case by (simp add: split_char_append)
qed (auto simp: split_char_free)

lemma split_char_sep_free: "x \<in> set (split_char c s) \<Longrightarrow> c \<notin> set x"
  by (induction s arbitrary: x) (auto split: if_splits list.splits)

lemma set_split_char: "x \<in> set (split_char c s) \<Longrightarrow> set x \<subseteq> set s"
proof (induction s arbitrary: x)
  case (Cons a s)
  then show ?case by (auto split: if_splits list.splits) blast+
qed simp

section \<open>Positions and substrings\<close>

definition starts_with :: "jstr \<Rightarrow> jstr \<Rightarrow> bool" where
  "starts_with p s = (take (length p) s = p)"

definition ends_with :: "jstr \<Rightarrow> jstr \<Rightarrow> bool" where
  "ends_with p s = starts_with (rev p) (rev s)"

text \<open>\<open>s.indexOf(p)\<close>, with \<open>None\<close> for -1.\<close>

fun index_of :: "jstr \<Rightarrow> jstr \<Rightarrow> nat option" where
  "index_of p [] = (if p = [] then Some 0 else None)"
| "index_of p (x # xs) =
     (if starts_with p (x # xs) then Some 0 else map_option Suc (index_of p xs))"

definition str_includes :: "jstr \<Rightarrow> jstr \<Rightarrow> bool" where
  "str_includes p s = (index_of p s \<noteq> None)"

text \<open>\<open>s.substring(a, b)\<close> for \<open>a \<le> b\<close>, and \<open>s.slice(a, b)\<close> on non-negative positions.\<close>

definition substring :: "jstr \<Rightarrow> nat \<Rightarrow> nat \<Rightarrow> jstr" where
  "substring s a b = take (b - a) (drop a s)"

text \<open>\<open>s.slice(-n)\<close>.\<close>

definition slice_last :: "jstr \<Rightarrow> nat \<Rightarrow> jstr" where
  "slice_last s n = drop (length s - n) s"

text \<open>\<open>s.split(p).join(v)\<close> and \<open>s.replaceAll(p, v)\<close> for a non-empty \<open>p\<close>.\<close>

function replace_all :: "jstr \<Rightarrow> jstr \<Rightarrow> jstr \<Rightarrow> jstr" where
  "replace_all p v [] = []"
| "replace_all p v (x # xs) =
     (if p \<noteq> [] \<and> starts_with p (x # xs) then v @ replace_all p v (drop (length p) (x # xs))
      else x # replace_all p v xs)"
  by pat_completeness auto
termination
  by (relation "measure (\<lambda>(p, v, s). length s)") (auto simp: neq_Nil_conv)

lemma starts_with_iff: "starts_with p s \<longleftrightarrow> (\<exists>t. s = p @ t)"
  by (metis append_eq_conv_conj append_take_drop_id starts_with_def)

lemma starts_with_Nil [simp]: "starts_with [] s"
  by (simp add: starts_with_def)

lemma starts_with_append [simp]: "starts_with p (p @ s)"
  by (simp add: starts_with_def)

lemma index_of_Some:
  "index_of p s = Some n \<Longrightarrow> n + length p \<le> length s \<and> starts_with p (drop n s)"
proof (induction p s arbitrary: n rule: index_of.induct)
  case (2 p x xs)
  show ?case
  proof (cases "starts_with p (x # xs)")
    case True
    then obtain t where "x # xs = p @ t" by (auto simp: starts_with_iff)
    then have "length p \<le> length (x # xs)" by simp
    with True "2.prems" show ?thesis by simp
  next
    case False
    with 2 show ?thesis by auto
  qed
qed (auto split: if_splits)

lemma index_of_append: "\<exists>n\<le>length a. index_of p (a @ p @ b) = Some n"
proof (induction a)
  case Nil
  have "starts_with p (p @ b)" by simp
  then show ?case by (cases "p @ b") auto
next
  case (Cons x a)
  then show ?case by auto
qed

lemma str_includes_iff: "str_includes p s \<longleftrightarrow> (\<exists>a b. s = a @ p @ b)"
proof
  assume "str_includes p s"
  then obtain n where "index_of p s = Some n" by (auto simp: str_includes_def)
  then have "starts_with p (drop n s)" by (simp add: index_of_Some)
  then obtain b where "drop n s = p @ b" by (auto simp: starts_with_iff)
  then have "s = take n s @ p @ b" by (metis append_take_drop_id)
  then show "\<exists>a b. s = a @ p @ b" by blast
next
  assume "\<exists>a b. s = a @ p @ b"
  then show "str_includes p s" using index_of_append by (force simp: str_includes_def)
qed

text \<open>
  A pattern whose first character occurs only at its front cannot overlap itself, so its first
  occurrence after text that does not contain it is where it was put.
\<close>

lemma index_of_first:
  assumes "p \<noteq> []" "hd p \<notin> set (tl p)" "\<not> str_includes p a"
  shows "index_of p (a @ p @ b) = Some (length a)"
  using assms(3)
proof (induction a)
  case Nil
  have "starts_with p (p @ b)" by simp
  then show ?case using assms(1) by (cases "p @ b") auto
next
  case (Cons x a)
  have no: "\<not> str_includes p a"
  proof
    assume "str_includes p a"
    then obtain u v where "a = u @ p @ v" by (auto simp: str_includes_iff)
    then have "x # a = (x # u) @ p @ v" by simp
    with Cons.prems show False unfolding str_includes_iff by blast
  qed
  have "\<not> starts_with p ((x # a) @ p @ b)"
  proof
    assume "starts_with p ((x # a) @ p @ b)"
    then obtain t where t: "(x # a) @ p @ b = p @ t" by (auto simp: starts_with_iff)
    show False
    proof (cases "length p \<le> length (x # a)")
      case True
      then have "take (length p) ((x # a) @ p @ b) = take (length p) (x # a)"
        by (simp only: take_append) simp
      with t have "x # a = p @ drop (length p) (x # a)" by (metis append_eq_conv_conj append_take_drop_id)
      with Cons.prems show False unfolding str_includes_iff by (metis append_Nil)
    next
      case False
      then have i: "length (x # a) < length p" by simp
      have "p ! length (x # a) = ((x # a) @ p @ b) ! length (x # a)" 
        unfolding t using i by (simp only: nth_append if_True)
      also have "\<dots> = hd p" using assms(1) by (simp add: nth_append hd_conv_nth)
      finally have "tl p ! length a = hd p" using i by (simp add: nth_tl)
      moreover have "length a < length (tl p)" using i by simp
      ultimately show False using assms(2) nth_mem by metis
    qed
  qed
  with Cons.IH [OF no] show ?case by simp
qed

lemma replace_all_absent: "\<not> str_includes p s \<Longrightarrow> replace_all p v s = s"
proof (induction p v s rule: replace_all.induct)
  case (2 p v x xs)
  have "\<not> starts_with p (x # xs)"
    using "2.prems" unfolding str_includes_iff starts_with_iff by (metis append_Nil)
  moreover have "\<not> str_includes p xs"
  proof
    assume "str_includes p xs"
    then obtain a b where "xs = a @ p @ b" by (auto simp: str_includes_iff)
    then have "x # xs = (x # a) @ p @ b" by simp
    with "2.prems" show False unfolding str_includes_iff by blast
  qed
  ultimately show ?case using 2 by simp
qed simp

section \<open>Decimal digits\<close>

function dec_nat :: "int \<Rightarrow> jstr" where
  "dec_nat n = (if n < 10 then [48 + n] else dec_nat (n div 10) @ [48 + n mod 10])"
  by pat_completeness auto
termination
  by (relation "measure nat") auto

declare dec_nat.simps [simp del]

definition dec_int :: "int \<Rightarrow> jstr" where
  "dec_int n = (if n < 0 then 45 # dec_nat (- n) else dec_nat n)"

definition is_digit :: "int \<Rightarrow> bool" where
  "is_digit c = (48 \<le> c \<and> c \<le> 57)"

definition parse_dec :: "jstr \<Rightarrow> int" where
  "parse_dec s = foldl (\<lambda>a c. a * 10 + (c - 48)) 0 s"

lemma dec_nat_digits: "0 \<le> n \<Longrightarrow> c \<in> set (dec_nat n) \<Longrightarrow> is_digit c"
proof (induction n rule: dec_nat.induct)
  case (1 n)
  show ?case
  proof (cases "n < 10")
    case True
    with 1 show ?thesis by (subst (asm) dec_nat.simps) (auto simp: is_digit_def)
  next
    case False
    then have "c \<in> set (dec_nat (n div 10)) \<or> c = 48 + n mod 10"
      using 1(3) by (subst (asm) dec_nat.simps) auto
    moreover have "0 \<le> n mod 10" "n mod 10 \<le> 9" by (simp, presburger)
    ultimately show ?thesis using False 1 by (auto simp: is_digit_def)
  qed
qed

lemma dec_nat_ne [simp]: "dec_nat n \<noteq> []"
  by (subst dec_nat.simps) simp

lemma parse_dec_snoc: "parse_dec (s @ [c]) = parse_dec s * 10 + (c - 48)"
  by (simp add: parse_dec_def)

lemma parse_dec_dec_nat: "0 \<le> n \<Longrightarrow> parse_dec (dec_nat n) = n"
proof (induction n rule: dec_nat.induct)
  case (1 n)
  show ?case
  proof (cases "n < 10")
    case True
    then show ?thesis by (subst dec_nat.simps) (simp add: parse_dec_def)
  next
    case False
    then have "parse_dec (dec_nat (n div 10)) = n div 10" using 1 by simp
    then show ?thesis using False by (subst dec_nat.simps) (simp add: parse_dec_snoc)
  qed
qed

lemma dec_nat_inj: "0 \<le> m \<Longrightarrow> 0 \<le> n \<Longrightarrow> dec_nat m = dec_nat n \<Longrightarrow> m = n"
  by (metis parse_dec_dec_nat)

lemma digit_not_ws: "is_digit c \<Longrightarrow> \<not> is_ws c"
  by (auto simp: is_digit_def is_ws_def)

lemma parse_dec_nonneg: "\<forall>c\<in>set s. is_digit c \<Longrightarrow> 0 \<le> parse_dec s"
  by (induction s rule: rev_induct) (auto simp: parse_dec_snoc is_digit_def parse_dec_def)

section \<open>Numbers read from strings\<close>

definition span_digits :: "jstr \<Rightarrow> jstr \<times> jstr" where
  "span_digits s = (takeWhile is_digit s, dropWhile is_digit s)"

text \<open>An optional exponent part; when it is not well formed nothing is consumed.\<close>

definition read_exp :: "jstr \<Rightarrow> int \<times> jstr" where
  "read_exp s =
     (case s of
        [] \<Rightarrow> (0, s)
      | c # r \<Rightarrow>
          if c = 101 \<or> c = 69 then
            (let (neg, r') = (case r of [] \<Rightarrow> (False, r)
                              | d # t \<Rightarrow> if d = 45 then (True, t) else if d = 43 then (False, t)
                                        else (False, r));
                 (ds, r'') = span_digits r'
             in if ds = [] then (0, s)
                else (if neg then - parse_dec ds else parse_dec ds, r''))
          else (0, s))"

text \<open>The longest unsigned decimal literal at the front, with the exact value it denotes.\<close>

definition read_decimal :: "jstr \<Rightarrow> (rat \<times> jstr) option" where
  "read_decimal s =
     (let (ip, r1) = span_digits s;
          (fp, r2) = (case r1 of [] \<Rightarrow> ([], r1)
                      | c # t \<Rightarrow> if c = 46 \<and> (ip \<noteq> [] \<or> fst (span_digits t) \<noteq> [])
                                then span_digits t else ([], r1));
          (ex, r3) = read_exp r2
      in if ip = [] \<and> fp = [] then None
         else Some (of_int (parse_dec (ip @ fp)) * 10 powi (ex - int (length fp)), r3))"

definition read_signed :: "(jstr \<Rightarrow> (jsnum \<times> jstr) option) \<Rightarrow> jstr \<Rightarrow> (jsnum \<times> jstr) option" where
  "read_signed rd s =
     (case s of
        [] \<Rightarrow> rd s
      | c # t \<Rightarrow> if c = 45 then map_option (\<lambda>(x, r). (js_neg x, r)) (rd t)
                else if c = 43 then rd t else rd s)"

definition read_unsigned :: "jstr \<Rightarrow> (jsnum \<times> jstr) option" where
  "read_unsigned s =
     (if starts_with (lit ''Infinity'') s then Some (PInf, drop 8 s)
      else map_option (\<lambda>(q, r). (rnd q, r)) (read_decimal s))"

definition radix_digit :: "int \<Rightarrow> int option" where
  "radix_digit c =
     (if is_digit c then Some (c - 48)
      else if 97 \<le> c \<and> c \<le> 122 then Some (c - 87)
      else if 65 \<le> c \<and> c \<le> 90 then Some (c - 55) else None)"

definition read_radix :: "int \<Rightarrow> jstr \<Rightarrow> jsnum" where
  "read_radix b s =
     (if s = [] \<or> (\<exists>c\<in>set s. case radix_digit c of None \<Rightarrow> True | Some d \<Rightarrow> b \<le> d) then NaN
      else rnd (of_int (foldl (\<lambda>a c. a * b + (case radix_digit c of None \<Rightarrow> 0 | Some d \<Rightarrow> d)) 0 s)))"

text \<open>\<open>Number(s)\<close>.\<close>

definition to_number :: "jstr \<Rightarrow> jsnum" where
  "to_number s0 =
     (let s = trim s0 in
      if s = [] then Fin 0
      else if starts_with (lit ''0x'') s \<or> starts_with (lit ''0X'') s then read_radix 16 (drop 2 s)
      else if starts_with (lit ''0o'') s \<or> starts_with (lit ''0O'') s then read_radix 8 (drop 2 s)
      else if starts_with (lit ''0b'') s \<or> starts_with (lit ''0B'') s then read_radix 2 (drop 2 s)
      else case read_signed read_unsigned s of Some (x, []) \<Rightarrow> x | _ \<Rightarrow> NaN)"

text \<open>\<open>Number.parseFloat(s)\<close> and \<open>Number.parseInt(s, 10)\<close>: the longest numeric prefix.\<close>

definition parse_float :: "jstr \<Rightarrow> jsnum" where
  "parse_float s = (case read_signed read_unsigned (trim_start s) of Some (x, _) \<Rightarrow> x | None \<Rightarrow> NaN)"

definition parse_int10 :: "jstr \<Rightarrow> jsnum" where
  "parse_int10 s =
     (case read_signed (\<lambda>t. let (ds, r) = span_digits t
                           in if ds = [] then None else Some (rnd (of_int (parse_dec ds)), r))
             (trim_start s) of
        Some (x, _) \<Rightarrow> x
      | None \<Rightarrow> NaN)"

section \<open>Numbers written as strings\<close>

text \<open>The decimal exponent \<open>n\<close> of a positive value: \<open>10 powi (n - 1) \<le> x < 10 powi n\<close>.\<close>

definition expo10 :: "rat \<Rightarrow> int" where
  "expo10 x =
     (if 1 \<le> x then int (length (dec_nat \<lfloor>x\<rfloor>))
      else let l = int (length (dec_nat \<lfloor>1 / x\<rfloor>))
           in if x = 10 powi (1 - l) then 2 - l else 1 - l)"

text \<open>The nearest \<open>k\<close>-digit significand that reads back as \<open>x\<close>.\<close>

definition digits_try :: "rat \<Rightarrow> int \<Rightarrow> nat \<Rightarrow> int option" where
  "digits_try x n k =
     (let y = x * 10 powi (int k - n); f = \<lfloor>y\<rfloor>;
          ok = (\<lambda>s. 10 ^ (k - 1) \<le> s \<and> s < 10 ^ k \<and> rnd (of_int s * 10 powi (n - int k)) = Fin x)
      in if y - of_int f \<le> 1 / 2 then (if ok f then Some f else if ok (f + 1) then Some (f + 1) else None)
         else (if ok (f + 1) then Some (f + 1) else if ok f then Some f else None))"

fun digits_search :: "rat \<Rightarrow> int \<Rightarrow> nat \<Rightarrow> nat \<Rightarrow> int \<times> nat" where
  "digits_search x n k 0 = (\<lfloor>x * 10 powi (int k - n)\<rfloor>, k)"
| "digits_search x n k (Suc fuel) =
     (case digits_try x n k of Some s \<Rightarrow> (s, k) | None \<Rightarrow> digits_search x n (Suc k) fuel)"

definition num_str_pos :: "rat \<Rightarrow> jstr" where
  "num_str_pos x =
     (let n = expo10 x; (s, k) = digits_search x n 1 16; ds = dec_nat s;
          zeros = (\<lambda>m. replicate (nat m) 48); e = n - 1
      in if int k \<le> n \<and> n \<le> 21 then ds @ zeros (n - int k)
         else if 0 < n \<and> n \<le> 21 then take (nat n) ds @ [46] @ drop (nat n) ds
         else if - 6 < n \<and> n \<le> 0 then [48, 46] @ zeros (- n) @ ds
         else take 1 ds @ (if k = 1 then [] else 46 # drop 1 ds) @ [101]
              @ (if e < 0 then 45 # dec_nat (- e) else 43 # dec_nat e))"

text \<open>
  \<open>String(x)\<close>: the shortest decimal that reads back as \<open>x\<close>.  An integer up to $2^{53}$ is
  written in full (all such integers are distinct numbers, so no shorter digits read back).
\<close>

definition num_str :: "jsnum \<Rightarrow> jstr" where
  "num_str a =
     (case a of
        NaN \<Rightarrow> lit ''NaN''
      | PInf \<Rightarrow> lit ''Infinity''
      | NInf \<Rightarrow> lit ''-Infinity''
      | Fin q \<Rightarrow>
          if of_int \<lfloor>q\<rfloor> = q \<and> \<bar>\<lfloor>q\<rfloor>\<bar> \<le> 2 ^ 53 then dec_int \<lfloor>q\<rfloor>
          else if q < 0 then 45 # num_str_pos (- q) else num_str_pos q)"

text \<open>\<open>x.toFixed(d)\<close>.\<close>

definition to_fixed_pos :: "rat \<Rightarrow> nat \<Rightarrow> jstr" where
  "to_fixed_pos x d =
     (let n = \<lfloor>x * 10 ^ d + 1 / 2\<rfloor>; m = dec_nat n;
          m' = replicate (Suc d - length m) 48 @ m; k = length m' - d
      in if d = 0 then m else take k m' @ [46] @ drop k m')"

definition to_fixed :: "jsnum \<Rightarrow> nat \<Rightarrow> jstr" where
  "to_fixed a d =
     (case a of
        Fin q \<Rightarrow> if 10 ^ 21 \<le> \<bar>q\<bar> then num_str a
                 else if q < 0 then 45 # to_fixed_pos (- q) d else to_fixed_pos q d
      | _ \<Rightarrow> num_str a)"

lemma num_str_jint [simp]: "\<bar>k\<bar> \<le> 2 ^ 53 \<Longrightarrow> num_str (jint k) = dec_int k"
  by (simp add: num_str_def)

lemma takeWhile_all: "\<forall>x\<in>set xs. P x \<Longrightarrow> takeWhile P xs = xs"
  by simp

text \<open>A string of decimal digits reads as the integer it denotes.\<close>

lemma parse_int10_digits:
  assumes "s \<noteq> []" "\<forall>c\<in>set s. is_digit c"
  shows "parse_int10 s = rnd (of_int (parse_dec s))"
proof -
  obtain c t where s: "s = c # t" using assms(1) by (cases s) auto
  have c: "is_digit c" using assms(2) s by simp
  then have "c \<noteq> 45" "c \<noteq> 43" by (auto simp: is_digit_def)
  moreover have "trim_start s = s" using c by (simp add: trim_start_def s digit_not_ws)
  moreover have "span_digits s = (s, [])" using assms(2) by (simp add: span_digits_def)
  ultimately show ?thesis using assms(1) by (simp add: parse_int10_def read_signed_def s)
qed

end
