(* ===== verification/JS_Array.thy ===== *)
theory JS_Array
  imports JS_String
begin

text \<open>
  \<open>Array.prototype.sort\<close> with a comparison function: a stable sort, written as insertion
  from the right.  The locale \<open>js_order\<close> is the contract a comparison function has to meet
  on the elements it is used for (a total preorder); under it the result is sorted, and an
  already sorted array is left as it is.  \<open>Array.prototype.sort()\<close> without a comparison
  function compares code units (\<open>str_cmp\<close>).
\<close>

definition cmp_le :: "('a \<Rightarrow> 'a \<Rightarrow> jsnum) \<Rightarrow> 'a \<Rightarrow> 'a \<Rightarrow> bool" where
  "cmp_le cmp x y = (\<not> js_lt (Fin 0) (cmp x y))"

fun js_insert :: "('a \<Rightarrow> 'a \<Rightarrow> jsnum) \<Rightarrow> 'a \<Rightarrow> 'a list \<Rightarrow> 'a list" where
  "js_insert cmp x [] = [x]"
| "js_insert cmp x (y # ys) = (if cmp_le cmp x y then x # y # ys else y # js_insert cmp x ys)"

definition js_sort :: "('a \<Rightarrow> 'a \<Rightarrow> jsnum) \<Rightarrow> 'a list \<Rightarrow> 'a list" where
  "js_sort cmp xs = foldr (js_insert cmp) xs []"

lemma js_sort_simps [simp]:
  "js_sort cmp [] = []" "js_sort cmp (x # xs) = js_insert cmp x (js_sort cmp xs)"
  by (simp_all add: js_sort_def)

lemma mset_js_insert [simp]: "mset (js_insert cmp x xs) = add_mset x (mset xs)"
  by (induction xs) auto

lemma mset_js_sort [simp]: "mset (js_sort cmp xs) = mset xs"
  by (induction xs) auto

lemma set_js_sort [simp]: "set (js_sort cmp xs) = set xs"
  by (metis mset_js_sort set_mset_mset)

lemma set_js_insert [simp]: "set (js_insert cmp x xs) = insert x (set xs)"
  by (induction xs) auto

lemma length_js_sort [simp]: "length (js_sort cmp xs) = length xs"
  by (metis mset_js_sort size_mset)

lemma distinct_js_sort [simp]: "distinct (js_sort cmp xs) = distinct xs"
  by (metis mset_js_sort mset_eq_imp_distinct_iff)

lemma distinct_map_js_sort [simp]: "distinct (map f (js_sort cmp xs)) = distinct (map f xs)"
  by (metis mset_js_sort mset_map mset_eq_imp_distinct_iff)

lemma sum_list_js_sort [simp]:
  "(\<Sum>x\<leftarrow>js_sort cmp xs. f x) = (\<Sum>x\<leftarrow>xs. f x)" for f :: "'a \<Rightarrow> 'b::comm_monoid_add"
  by (metis mset_js_sort mset_map sum_mset_sum_list)

lemma js_sort_eq_Nil [simp]: "js_sort cmp xs = [] \<longleftrightarrow> xs = []"
  by (metis length_0_conv length_js_sort)

lemma js_insert_map:
  "(\<And>y. y \<in> set ys \<Longrightarrow> cmp (f x) (f y) = cmp' x y) \<Longrightarrow>
   js_insert cmp (f x) (map f ys) = map f (js_insert cmp' x ys)"
  by (induction ys) (auto simp: cmp_le_def)

lemma js_sort_map:
  "(\<And>x y. x \<in> set xs \<Longrightarrow> y \<in> set xs \<Longrightarrow> cmp (f x) (f y) = cmp' x y) \<Longrightarrow>
   js_sort cmp (map f xs) = map f (js_sort cmp' xs)"
proof (induction xs)
  case (Cons x xs)
  have "js_insert cmp (f x) (map f (js_sort cmp' xs)) = map f (js_insert cmp' x (js_sort cmp' xs))"
    by (rule js_insert_map) (use Cons.prems in auto)
  with Cons show ?case by simp
qed simp

locale js_order =
  fixes cmp :: "'a \<Rightarrow> 'a \<Rightarrow> jsnum"
    and carrier :: "'a set"
  assumes total: "x \<in> carrier \<Longrightarrow> y \<in> carrier \<Longrightarrow> cmp_le cmp x y \<or> cmp_le cmp y x"
    and trans: "x \<in> carrier \<Longrightarrow> y \<in> carrier \<Longrightarrow> z \<in> carrier \<Longrightarrow>
      cmp_le cmp x y \<Longrightarrow> cmp_le cmp y z \<Longrightarrow> cmp_le cmp x z"
begin

lemma sorted_insert:
  assumes "x \<in> carrier" "set xs \<subseteq> carrier" "sorted_wrt (cmp_le cmp) xs"
  shows "sorted_wrt (cmp_le cmp) (js_insert cmp x xs)"
  using assms(2,3)
proof (induction xs)
  case (Cons y ys)
  show ?case
  proof (cases "cmp_le cmp x y")
    case True
    with Cons.prems assms(1) show ?thesis by (auto intro: trans [of x y])
  next
    case False
    with assms(1) Cons.prems have "cmp_le cmp y x" using total [of x y] by simp
    with False Cons show ?thesis by simp
  qed
qed simp

lemma sorted_js_sort: "set xs \<subseteq> carrier \<Longrightarrow> sorted_wrt (cmp_le cmp) (js_sort cmp xs)"
  by (induction xs) (simp_all add: sorted_insert)

end

lemma js_insert_sorted: "\<forall>y\<in>set xs. cmp_le cmp x y \<Longrightarrow> js_insert cmp x xs = x # xs"
  by (cases xs) simp_all

text \<open>Sorting leaves an already sorted array unchanged.\<close>

lemma js_sort_sorted: "sorted_wrt (cmp_le cmp) xs \<Longrightarrow> js_sort cmp xs = xs"
  by (induction xs) (simp_all add: js_insert_sorted)

section \<open>The default order of strings\<close>

fun str_less :: "jstr \<Rightarrow> jstr \<Rightarrow> bool" where
  "str_less _ [] = False"
| "str_less [] (_ # _) = True"
| "str_less (x # xs) (y # ys) = (x < y \<or> x = y \<and> str_less xs ys)"

definition str_cmp :: "jstr \<Rightarrow> jstr \<Rightarrow> jsnum" where
  "str_cmp a b = (if str_less a b then Fin (- 1) else if a = b then Fin 0 else Fin 1)"

lemma str_less_irrefl [simp]: "\<not> str_less a a"
  by (induction a) simp_all

lemma str_less_trans: "str_less a b \<Longrightarrow> str_less b c \<Longrightarrow> str_less a c"
proof (induction a b arbitrary: c rule: str_less.induct)
  case (3 x xs y ys)
  then show ?case by (cases c) auto
next
  case (2 v va)
  then show ?case by (cases c) auto
qed simp

lemma str_less_total: "str_less a b \<or> a = b \<or> str_less b a"
proof (induction a b rule: str_less.induct)
  case (1 a)
  then show ?case by (cases a) auto
qed auto

lemma cmp_le_str_cmp: "cmp_le str_cmp a b \<longleftrightarrow> str_less a b \<or> a = b"
  by (simp add: cmp_le_def str_cmp_def)

interpretation str_order: js_order str_cmp UNIV
  by unfold_locales (use str_less_total in \<open>auto simp: cmp_le_str_cmp dest: str_less_trans\<close>)

lemma sorted_wrt_distinct_strict:
  "sorted_wrt (\<lambda>a b. P a b \<or> a = b) xs \<Longrightarrow> distinct xs \<Longrightarrow> sorted_wrt P xs"
  by (induction xs) auto

lemma js_sort_str_strict:
  assumes "distinct xs"
  shows "sorted_wrt str_less (js_sort str_cmp xs)"
proof (rule sorted_wrt_distinct_strict)
  have "cmp_le str_cmp = (\<lambda>a b. str_less a b \<or> a = b)"
    by (simp add: fun_eq_iff cmp_le_str_cmp)
  then show "sorted_wrt (\<lambda>a b. str_less a b \<or> a = b) (js_sort str_cmp xs)"
    using str_order.sorted_js_sort [of xs] by simp
qed (simp add: assms)

end
