(* ===== verification/Status_Code_Rules.thy ===== *)
theory Status_Code_Rules
  imports JS_Array
begin

text \<open>
  Rules on HTTP status codes (\<open>src/web/default/src/lib/http-status-code-rules.ts\<close>): an
  operator types a comma-separated list of codes and ranges such as \<open>500-502, 429\<close>, and the
  program checks it, merges overlapping and adjacent ranges and prints the normal form.
  The model follows the file function by function.  The lemmas show that merging keeps
  exactly the codes of the input, that the merged ranges are ordered and separated by a gap,
  and that the printed normal form parses back to itself.
\<close>

section \<open>Model\<close>

record StatusCodeRange =
  range_start :: jsnum
  range_end :: jsnum

record ParsedHttpStatusCodeRules =
  ok :: bool
  ranges :: "StatusCodeRange list"
  tokens :: "jstr list"
  normalized :: jstr
  invalidTokens :: "jstr list"

definition isNumber :: "jstr \<Rightarrow> bool" where
  "isNumber s = (s \<noteq> [] \<and> (\<forall>c\<in>set s. is_digit c))"

definition isValidCode :: "jsnum \<Rightarrow> bool" where
  "isValidCode code = (is_finite code \<and> js_le (Fin 100) code \<and> js_le code (Fin 599))"

text \<open>
  \<open>const [a, b] = cleaned.split('-')\<close> takes the first two parts and ignores any other.
\<close>

definition parseToken :: "jstr \<Rightarrow> StatusCodeRange option" where
  "parseToken token =
     (let cleaned = filter (\<lambda>c. \<not> is_ws c) (trim token) in
      if cleaned = [] then None
      else if 45 \<in> set cleaned then
        (case split_char 45 cleaned of
           a # b # _ \<Rightarrow>
             (if \<not> isNumber a \<or> \<not> isNumber b then None
              else let start = parse_int10 a; stop = parse_int10 b in
                if \<not> isValidCode start \<or> \<not> isValidCode stop \<or> js_lt stop start then None
                else Some \<lparr>range_start = start, range_end = stop\<rparr>)
         | _ \<Rightarrow> None)
      else if \<not> isNumber cleaned then None
      else let code = parse_int10 cleaned in
        if \<not> isValidCode code then None
        else Some \<lparr>range_start = code, range_end = code\<rparr>)"

definition compareRanges :: "StatusCodeRange \<Rightarrow> StatusCodeRange \<Rightarrow> jsnum" where
  "compareRanges a b =
     (if \<not> js_eq (range_start a) (range_start b) then js_sub (range_start a) (range_start b)
      else js_sub (range_end a) (range_end b))"

definition mergeStep :: "StatusCodeRange list \<Rightarrow> StatusCodeRange \<Rightarrow> StatusCodeRange list" where
  "mergeStep merged current =
     (if merged = [] \<or> js_lt (js_add (range_end (last merged)) (Fin 1)) (range_start current)
      then merged @ [current]
      else butlast merged @
           [(last merged)\<lparr>range_end := js_max (range_end (last merged)) (range_end current)\<rparr>])"

definition mergeRanges :: "StatusCodeRange list \<Rightarrow> StatusCodeRange list" where
  "mergeRanges rs = (if rs = [] then [] else foldl mergeStep [] (js_sort compareRanges rs))"

definition rangeToken :: "StatusCodeRange \<Rightarrow> jstr" where
  "rangeToken r =
     (if js_eq (range_start r) (range_end r) then num_str (range_start r)
      else num_str (range_start r) @ [45] @ num_str (range_end r))"

text \<open>The loop over the segments: the ranges read so far and the tokens refused so far.\<close>

fun parseSegments :: "jstr list \<Rightarrow> StatusCodeRange list \<times> jstr list" where
  "parseSegments [] = ([], [])"
| "parseSegments (segment # segments) =
     (let (rs, invalid) = parseSegments segments in
      case parseToken segment of
        None \<Rightarrow> (rs, segment # invalid)
      | Some parsed \<Rightarrow> (parsed # rs, invalid))"

text \<open>The argument is the input after \<open>(input ?? '').toString()\<close>; 65292 is the full-width comma.\<close>

definition segmentsOf :: "jstr \<Rightarrow> jstr list" where
  "segmentsOf raw =
     filter (\<lambda>s. s \<noteq> [])
       (map trim (split_char 44 (map (\<lambda>c. if c = 65292 then 44 else c) raw)))"

definition parseHttpStatusCodeRules :: "jstr \<Rightarrow> ParsedHttpStatusCodeRules" where
  "parseHttpStatusCodeRules input =
     (let raw = trim input in
      if raw = [] then
        \<lparr>ok = True, ranges = [], tokens = [], normalized = [], invalidTokens = []\<rparr>
      else let (rs, invalid) = parseSegments (segmentsOf raw) in
        if invalid \<noteq> [] then
          \<lparr>ok = False, ranges = [], tokens = [], normalized = raw, invalidTokens = invalid\<rparr>
        else let merged = mergeRanges rs; toks = map rangeToken merged in
          \<lparr>ok = True, ranges = merged, tokens = toks, normalized = join [44] toks,
           invalidTokens = []\<rparr>)"

section \<open>Ranges of integers\<close>

text \<open>
  The ranges the parser builds hold integers between 100 and 599.  On those the code's
  arithmetic is that of the integers, so merging refines the same loop over integer pairs.
\<close>

definition rng :: "int \<times> int \<Rightarrow> StatusCodeRange" where
  "rng p = \<lparr>range_start = jint (fst p), range_end = jint (snd p)\<rparr>"

definition valid_pair :: "int \<times> int \<Rightarrow> bool" where
  "valid_pair p = (100 \<le> fst p \<and> fst p \<le> snd p \<and> snd p \<le> 599)"

definition wf_range :: "StatusCodeRange \<Rightarrow> bool" where
  "wf_range r = (\<exists>p. r = rng p \<and> valid_pair p)"

definition codes :: "StatusCodeRange \<Rightarrow> int set" where
  "codes r = {k. js_le (range_start r) (jint k) \<and> js_le (jint k) (range_end r)}"

definition istep :: "(int \<times> int) list \<Rightarrow> int \<times> int \<Rightarrow> (int \<times> int) list" where
  "istep m p =
     (if m = [] \<or> snd (last m) + 1 < fst p then m @ [p]
      else butlast m @ [(fst (last m), max (snd (last m)) (snd p))])"

definition separated :: "(int \<times> int) list \<Rightarrow> bool" where
  "separated m = sorted_wrt (\<lambda>p q. snd p + 1 < fst q) m"

lemma rng_simps [simp]:
  "range_start (rng p) = jint (fst p)" "range_end (rng p) = jint (snd p)"
  by (simp_all add: rng_def)

lemma rng_inj [simp]: "rng p = rng q \<longleftrightarrow> p = q"
  by (auto simp: rng_def prod_eq_iff)

lemma codes_rng [simp]: "codes (rng p) = {fst p..snd p}"
  by (auto simp: codes_def)

lemma wf_range_rng [simp]: "wf_range (rng p) \<longleftrightarrow> valid_pair p"
  by (auto simp: wf_range_def)

lemma wf_ranges_image: "\<forall>r\<in>set rs. wf_range r \<Longrightarrow> \<exists>ps. rs = map rng ps \<and> (\<forall>p\<in>set ps. valid_pair p)"
proof (induction rs)
  case (Cons r rs)
  then obtain ps where ps: "rs = map rng ps" "\<forall>p\<in>set ps. valid_pair p" by auto
  obtain p where p: "r = rng p" "valid_pair p" using Cons.prems by (auto simp: wf_range_def)
  have "r # rs = map rng (p # ps) \<and> (\<forall>q\<in>set (p # ps). valid_pair q)" using ps p by simp
  then show ?case by (rule exI)
qed simp

lemma js_max_jint: "js_max (jint a) (jint b) = jint (max a b)"
  by (simp add: js_max_def max_def)

lemma mergeStep_rng:
  assumes "\<forall>q\<in>set m. valid_pair q" "valid_pair p"
  shows "mergeStep (map rng m) (rng p) = map rng (istep m p)"
proof (cases m rule: rev_cases)
  case (snoc m' q)
  have "js_add (jint (snd q)) (jint 1) = jint (snd q + 1)"
    by (rule js_add_jint) (use assms snoc in \<open>auto simp: valid_pair_def\<close>)
  then show ?thesis
    by (simp add: snoc mergeStep_def istep_def js_max_jint rng_def del: of_int_add)
qed (simp add: mergeStep_def istep_def)

lemma istep_valid: "\<forall>q\<in>set m. valid_pair q \<Longrightarrow> valid_pair p \<Longrightarrow> \<forall>q\<in>set (istep m p). valid_pair q"
  by (cases m rule: rev_cases) (auto simp: istep_def valid_pair_def)

lemma foldl_mergeStep_rng:
  "\<forall>q\<in>set m. valid_pair q \<Longrightarrow> \<forall>p\<in>set ps. valid_pair p \<Longrightarrow>
   foldl mergeStep (map rng m) (map rng ps) = map rng (foldl istep m ps)"
proof (induction ps arbitrary: m)
  case (Cons p ps)
  have p: "valid_pair p" using Cons.prems by simp
  show ?case
    using Cons.IH [OF istep_valid [OF Cons.prems(1) p]] Cons.prems(2) mergeStep_rng [OF Cons.prems(1) p]
    by simp
qed simp

lemma foldl_istep_valid:
  "\<forall>q\<in>set m. valid_pair q \<Longrightarrow> \<forall>p\<in>set ps. valid_pair p \<Longrightarrow> \<forall>q\<in>set (foldl istep m ps). valid_pair q"
proof (induction ps arbitrary: m)
  case (Cons p ps)
  have p: "valid_pair p" using Cons.prems by simp
  show ?case using Cons.IH [OF istep_valid [OF Cons.prems(1) p]] Cons.prems(2) by simp
qed simp

lemma istep_separated:
  assumes "separated m" "\<forall>q\<in>set m. fst q \<le> fst p"
  shows "separated (istep m p)"
proof (cases m rule: rev_cases)
  case (snoc m' q)
  with assms show ?thesis
    by (fastforce simp: separated_def istep_def sorted_wrt_append)
qed (simp add: separated_def istep_def)

lemma istep_fst: "q \<in> set (istep m p) \<Longrightarrow> \<exists>q'\<in>set (p # m). fst q = fst q'"
  by (cases m rule: rev_cases) (auto simp: istep_def split: if_splits)

lemma istep_cover:
  assumes "\<forall>q\<in>set m. fst q \<le> fst p"
    and "\<forall>q\<in>set m. fst q \<le> snd q"
  shows "(\<Union>q\<in>set (istep m p). {fst q..snd q}) = (\<Union>q\<in>set m. {fst q..snd q}) \<union> {fst p..snd p}"
proof (cases m rule: rev_cases)
  case (snoc m' q)
  show ?thesis
  proof (cases "snd q + 1 < fst p")
    case False
    have "{fst q..max (snd q) (snd p)} = {fst q..snd q} \<union> {fst p..snd p}"
      using False assms snoc by auto
    with False snoc show ?thesis by (auto simp: istep_def)
  qed (auto simp: snoc istep_def)
qed (simp add: istep_def)

lemma foldl_istep:
  assumes "sorted_wrt (\<lambda>p q. fst p \<le> fst q) ps" "\<forall>p\<in>set ps. valid_pair p"
    and "separated m" "\<forall>q\<in>set m. \<forall>p\<in>set ps. fst q \<le> fst p" "\<forall>q\<in>set m. valid_pair q"
  shows "separated (foldl istep m ps) \<and>
    (\<Union>q\<in>set (foldl istep m ps). {fst q..snd q})
      = (\<Union>q\<in>set m. {fst q..snd q}) \<union> (\<Union>p\<in>set ps. {fst p..snd p})"
  using assms
proof (induction ps arbitrary: m)
  case (Cons p ps)
  have m: "\<forall>q\<in>set (istep m p). \<forall>p'\<in>set ps. fst q \<le> fst p'"
  proof (intro ballI)
    fix q p' assume "q \<in> set (istep m p)" "p' \<in> set ps"
    then show "fst q \<le> fst p'" using istep_fst [of q m p] Cons.prems(1,4) by auto
  qed
  have s: "separated (istep m p)" using Cons.prems by (intro istep_separated) auto
  have v: "\<forall>q\<in>set (istep m p). valid_pair q" using Cons.prems by (intro istep_valid) auto
  have c: "(\<Union>q\<in>set (istep m p). {fst q..snd q}) = (\<Union>q\<in>set m. {fst q..snd q}) \<union> {fst p..snd p}"
    using Cons.prems by (intro istep_cover) (auto simp: valid_pair_def)
  show ?case using Cons.IH [OF _ _ s m v] Cons.prems c by auto
qed simp

section \<open>Order of ranges\<close>

lemma compareRanges_rng:
  assumes "valid_pair p" "valid_pair q"
  shows "cmp_le compareRanges (rng p) (rng q) \<longleftrightarrow> fst p < fst q \<or> fst p = fst q \<and> snd p \<le> snd q"
proof -
  have b: "\<bar>fst p - fst q\<bar> \<le> 2 ^ 53" "\<bar>snd p - snd q\<bar> \<le> 2 ^ 53"
    using assms by (auto simp: valid_pair_def)
  then show ?thesis
    using js_sub_jint [OF b(1)] js_sub_jint [OF b(2)]
    by (auto simp: cmp_le_def compareRanges_def js_eq_def simp del: of_int_diff)
qed

interpretation range_order: js_order compareRanges "Collect wf_range"
proof unfold_locales
  fix x y assume "x \<in> Collect wf_range" "y \<in> Collect wf_range"
  then show "cmp_le compareRanges x y \<or> cmp_le compareRanges y x"
    by (auto simp: wf_range_def compareRanges_rng)
next
  fix x y z
  assume "x \<in> Collect wf_range" "y \<in> Collect wf_range" "z \<in> Collect wf_range"
    and "cmp_le compareRanges x y" "cmp_le compareRanges y z"
  then show "cmp_le compareRanges x z"
    by (auto simp: wf_range_def compareRanges_rng)
qed

lemma js_sort_ranges:
  assumes "\<forall>r\<in>set rs. wf_range r"
  obtains ps where "js_sort compareRanges rs = map rng ps" "\<forall>p\<in>set ps. valid_pair p"
    "sorted_wrt (\<lambda>p q. fst p \<le> fst q) ps"
proof -
  have "\<forall>r\<in>set (js_sort compareRanges rs). wf_range r" using assms by simp
  then obtain ps where ps: "js_sort compareRanges rs = map rng ps" "\<forall>p\<in>set ps. valid_pair p"
    using wf_ranges_image by blast
  have "sorted_wrt (cmp_le compareRanges) (map rng ps)"
    using range_order.sorted_js_sort [of rs] assms ps(1) by auto
  then have "sorted_wrt (\<lambda>p q. cmp_le compareRanges (rng p) (rng q)) ps"
    by (simp add: sorted_wrt_map)
  then have "sorted_wrt (\<lambda>p q. fst p \<le> fst q) ps"
    by (rule sorted_wrt_mono_rel [rotated]) (use ps(2) in \<open>auto simp: compareRanges_rng\<close>)
  with ps that show thesis by blast
qed

lemma mergeRanges_form:
  assumes "\<forall>r\<in>set rs. wf_range r"
  obtains m where "mergeRanges rs = map rng m" "separated m" "\<forall>p\<in>set m. valid_pair p"
    "(\<Union>p\<in>set m. {fst p..snd p}) = (\<Union>r\<in>set rs. codes r)"
proof -
  obtain ps where ps: "js_sort compareRanges rs = map rng ps" "\<forall>p\<in>set ps. valid_pair p"
    "sorted_wrt (\<lambda>p q. fst p \<le> fst q) ps"
    using assms by (rule js_sort_ranges)
  have eq: "mergeRanges rs = map rng (foldl istep [] ps)"
    using foldl_mergeStep_rng [of "[]" ps] ps by (auto simp: mergeRanges_def)
  have set: "set rs = rng ` set ps" using ps(1) by (metis set_js_sort set_map)
  have f: "separated (foldl istep [] ps)"
    "(\<Union>q\<in>set (foldl istep [] ps). {fst q..snd q}) = (\<Union>p\<in>set ps. {fst p..snd p})"
    using foldl_istep [of ps "[]"] ps by (auto simp: separated_def)
  show thesis
    by (rule that [OF eq f(1)]) (use foldl_istep_valid [of "[]" ps] ps(2) f(2) set in auto)
qed

section \<open>Tokens\<close>

lemma isNumber_code:
  assumes "isNumber s" "isValidCode (parse_int10 s)"
  shows "\<exists>k. parse_int10 s = jint k \<and> 100 \<le> k \<and> k \<le> 599"
proof -
  have s: "s \<noteq> []" "\<forall>c\<in>set s. is_digit c" using assms(1) by (auto simp: isNumber_def)
  define n where "n = parse_dec s"
  have p: "parse_int10 s = rnd (of_int n)" using s by (simp add: parse_int10_digits n_def)
  have "0 \<le> n" using s(2) by (simp add: n_def parse_dec_nonneg)
  moreover have "js_le (rnd (of_int n)) (jint 599)" using assms(2) p by (simp add: isValidCode_def)
  ultimately have "n \<le> 599" "rnd (of_int n) = jint n" using rnd_of_int_bounded [of n 599] by simp_all
  moreover from this assms(2) p have "100 \<le> n" by (simp add: isValidCode_def)
  ultimately show ?thesis using p by auto
qed

lemma parseToken_wf: "parseToken t = Some r \<Longrightarrow> wf_range r"
proof -
  have wf: "wf_range \<lparr>range_start = parse_int10 a, range_end = parse_int10 b\<rparr>"
    if n: "isNumber a" "isNumber b" and v: "isValidCode (parse_int10 a)" "isValidCode (parse_int10 b)"
      and le: "\<not> js_lt (parse_int10 b) (parse_int10 a)" for a b
  proof -
    obtain k l where "parse_int10 a = jint k" "100 \<le> k" "k \<le> 599" "parse_int10 b = jint l" "l \<le> 599"
      using isNumber_code n v by blast
    with le show ?thesis
      by (auto simp: wf_range_def rng_def valid_pair_def intro!: exI [of _ "(k, l)"])
  qed
  assume "parseToken t = Some r"
  moreover have "\<not> js_lt (parse_int10 a) (parse_int10 a)" for a by (cases "parse_int10 a") simp_all
  ultimately show ?thesis
    by (auto simp: parseToken_def Let_def wf split: if_splits list.splits)
qed

lemma digits_free: "0 \<le> n \<Longrightarrow> c \<in> set (dec_nat n) \<Longrightarrow> c \<noteq> 45 \<and> c \<noteq> 44 \<and> c \<noteq> 65292 \<and> \<not> is_ws c"
  using dec_nat_digits [of n c] digit_not_ws by (auto simp: is_digit_def)

lemma rangeToken_rng:
  assumes "valid_pair p"
  shows "rangeToken (rng p) =
    (if fst p = snd p then dec_nat (fst p) else dec_nat (fst p) @ [45] @ dec_nat (snd p))"
  using assms by (auto simp: rangeToken_def js_eq_def valid_pair_def dec_int_def)

lemma rangeToken_chars:
  assumes "valid_pair p" "c \<in> set (rangeToken (rng p))"
  shows "c \<noteq> 44 \<and> c \<noteq> 65292 \<and> \<not> is_ws c"
proof -
  have "c = 45 \<or> c \<in> set (dec_nat (fst p)) \<or> c \<in> set (dec_nat (snd p))"
    using assms by (auto simp: rangeToken_rng split: if_splits)
  moreover have "0 \<le> fst p" "0 \<le> snd p" using assms(1) by (auto simp: valid_pair_def)
  moreover have "\<not> is_ws 45" by (simp add: is_ws_def)
  ultimately show ?thesis using digits_free [of "fst p" c] digits_free [of "snd p" c] by auto
qed

lemma dec_nat_code:
  assumes "100 \<le> k" "k \<le> 599"
  shows "isNumber (dec_nat k)" "parse_int10 (dec_nat k) = jint k" "isValidCode (jint k)"
proof -
  have d: "\<forall>c\<in>set (dec_nat k). is_digit c" using assms by (auto intro: dec_nat_digits [of k])
  then show "isNumber (dec_nat k)" by (simp add: isNumber_def)
  show "parse_int10 (dec_nat k) = jint k"
    using parse_int10_digits [OF dec_nat_ne d] assms by (simp add: parse_dec_dec_nat rnd_of_int)
  show "isValidCode (jint k)"
    using assms js_le_jint [of 100 k] js_le_jint [of k 599] by (simp add: isValidCode_def)
qed

lemma parseToken_rangeToken:
  assumes "valid_pair p"
  shows "parseToken (rangeToken (rng p)) = Some (rng p)"
proof -
  let ?t = "rangeToken (rng p)"
  have ab: "100 \<le> fst p" "fst p \<le> snd p" "snd p \<le> 599" using assms by (auto simp: valid_pair_def)
  have nws: "\<forall>c\<in>set ?t. \<not> is_ws c" using rangeToken_chars assms by blast
  then have clean: "filter (\<lambda>c. \<not> is_ws c) (trim ?t) = ?t"
    by (simp add: trim_no_ws)
  have free: "45 \<notin> set (dec_nat k)" if "0 \<le> k" for k using digits_free that by blast
  show ?thesis
  proof (cases "fst p = snd p")
    case True
    then have "?t = dec_nat (fst p)" using assms by (simp add: rangeToken_rng)
    then show ?thesis
      using clean free ab dec_nat_code [of "fst p"] True
      by (simp add: parseToken_def Let_def rng_def)
  next
    case False
    then have t: "?t = dec_nat (fst p) @ 45 # dec_nat (snd p)" using assms by (simp add: rangeToken_rng)
    then have "split_char 45 ?t = [dec_nat (fst p), dec_nat (snd p)]"
      using free ab by (simp add: split_char_append split_char_free)
    then show ?thesis
      using clean t ab dec_nat_code [of "fst p"] dec_nat_code [of "snd p"]
      by (simp add: parseToken_def Let_def rng_def)
  qed
qed

section \<open>The whole parser\<close>

lemma parseSegments_wf: "r \<in> set (fst (parseSegments segs)) \<Longrightarrow> wf_range r"
  by (induction segs) (auto simp: Let_def split: prod.splits option.splits dest: parseToken_wf)

lemma parseSegments_tokens:
  "\<forall>p\<in>set ps. valid_pair p \<Longrightarrow>
   parseSegments (map rangeToken (map rng ps)) = (map rng ps, [])"
  by (induction ps) (simp_all add: parseToken_rangeToken)

lemma rangeToken_ne: "valid_pair p \<Longrightarrow> rangeToken (rng p) \<noteq> []"
  by (simp add: rangeToken_rng)

lemma join_chars: "c \<in> set (join [44] xs) \<Longrightarrow> c = 44 \<or> (\<exists>x\<in>set xs. c \<in> set x)"
  by (induction xs rule: induct_list012) auto

lemma segmentsOf_tokens:
  assumes "\<forall>p\<in>set ps. valid_pair p" "ps \<noteq> []"
  shows "segmentsOf (join [44] (map rangeToken (map rng ps))) = map rangeToken (map rng ps)"
proof -
  let ?ts = "map rangeToken (map rng ps)"
  have chars: "c \<noteq> 44 \<and> c \<noteq> 65292 \<and> \<not> is_ws c" if "t \<in> set ?ts" "c \<in> set t" for t c
    using that assms(1) rangeToken_chars by auto
  then have "c \<noteq> 65292" if "c \<in> set (join [44] ?ts)" for c
    using join_chars [OF that] by auto
  then have "map (\<lambda>c. if c = 65292 then 44 else c) (join [44] ?ts) = join [44] ?ts"
    by (intro map_idI) auto
  moreover have "split_char 44 (join [44] ?ts) = ?ts"
    using assms(2) chars by (intro split_char_join) auto
  moreover have "map trim ?ts = ?ts" using chars by (intro map_idI trim_no_ws) blast
  moreover have "filter (\<lambda>s. s \<noteq> []) ?ts = ?ts"
    using assms(1) rangeToken_ne by (intro filter_True) auto
  ultimately show ?thesis by (simp only: segmentsOf_def)
qed

lemma join_tokens_trim:
  assumes "\<forall>p\<in>set ps. valid_pair p"
  shows "trim (join [44] (map rangeToken (map rng ps))) = join [44] (map rangeToken (map rng ps))"
proof (rule trim_no_ws, rule ballI)
  fix c assume "c \<in> set (join [44] (map rangeToken (map rng ps)))"
  from join_chars [OF this] have "c = 44 \<or> (\<exists>p\<in>set ps. c \<in> set (rangeToken (rng p)))" by auto
  then show "\<not> is_ws c" using rangeToken_chars assms by (auto simp: is_ws_def)
qed

lemma separated_sorted:
  assumes "separated m" "\<forall>p\<in>set m. valid_pair p"
  shows "js_sort compareRanges (map rng m) = map rng m"
proof (rule js_sort_sorted)
  have le: "cmp_le compareRanges (rng p) (rng q)"
    if "p \<in> set m" "q \<in> set m" "snd p + 1 < fst q" for p q
  proof -
    have v: "valid_pair p" "valid_pair q" using that assms(2) by auto
    with that(3) have "fst p < fst q" by (simp add: valid_pair_def)
    with v show ?thesis by (simp add: compareRanges_rng)
  qed
  have "sorted_wrt (\<lambda>p q. cmp_le compareRanges (rng p) (rng q)) m"
    using assms(1) unfolding separated_def by (rule sorted_wrt_mono_rel [rotated]) (rule le)
  then show "sorted_wrt (cmp_le compareRanges) (map rng m)" by (simp add: sorted_wrt_map)
qed

lemma foldl_istep_separated: "separated (m @ ps) \<Longrightarrow> foldl istep m ps = m @ ps"
proof (induction ps arbitrary: m)
  case (Cons p ps)
  then have "istep m p = m @ [p]"
    by (cases m rule: rev_cases) (auto simp: istep_def separated_def sorted_wrt_append)
  moreover have "foldl istep (m @ [p]) ps = (m @ [p]) @ ps" using Cons by (intro Cons.IH) simp
  ultimately show ?case by simp
qed simp

lemma mergeRanges_separated:
  assumes "separated m" "\<forall>p\<in>set m. valid_pair p"
  shows "mergeRanges (map rng m) = map rng m"
  using foldl_mergeStep_rng [of "[]" m] foldl_istep_separated [of "[]" m] assms
  by (simp add: mergeRanges_def separated_sorted)

text \<open>The normal form of a merged list of ranges parses back to it.\<close>

lemma parse_normal_form:
  assumes "separated m" "\<forall>p\<in>set m. valid_pair p" "m \<noteq> []"
  shows "parseHttpStatusCodeRules (join [44] (map rangeToken (map rng m))) =
    \<lparr>ok = True, ranges = map rng m, tokens = map rangeToken (map rng m),
     normalized = join [44] (map rangeToken (map rng m)), invalidTokens = []\<rparr>"
proof -
  let ?n = "join [44] (map rangeToken (map rng m))"
  obtain p ps where m: "m = p # ps" using assms(3) by (cases m) auto
  have "?n \<noteq> []" using assms(2) rangeToken_ne [of p] by (cases ps) (auto simp: m)
  then show ?thesis
    using segmentsOf_tokens [OF assms(2,3)] parseSegments_tokens [OF assms(2)]
      mergeRanges_separated [OF assms(1,2)]
    by (simp add: parseHttpStatusCodeRules_def join_tokens_trim [OF assms(2)] Let_def del: map_map)
qed

section \<open>Properties\<close>

text \<open>
  C1: merging keeps exactly the status codes of its input, and what it returns is a list of
  well-formed ranges in increasing order in which any two are separated by at least one code
  that no range covers (so no two of them overlap or touch).
\<close>

theorem mergeRanges_correct:
  assumes "\<forall>r\<in>set rs. wf_range r"
  shows "(\<Union>r\<in>set (mergeRanges rs). codes r) = (\<Union>r\<in>set rs. codes r)
    \<and> sorted_wrt (\<lambda>a b. \<forall>i\<in>codes a. \<forall>j\<in>codes b. i + 1 < j) (mergeRanges rs)
    \<and> (\<forall>r\<in>set (mergeRanges rs). wf_range r)"
proof -
  obtain m where m: "mergeRanges rs = map rng m" "separated m" "\<forall>p\<in>set m. valid_pair p"
    "(\<Union>p\<in>set m. {fst p..snd p}) = (\<Union>r\<in>set rs. codes r)"
    using assms by (rule mergeRanges_form)
  have "sorted_wrt (\<lambda>p q. \<forall>i\<in>codes (rng p). \<forall>j\<in>codes (rng q). i + 1 < j) m"
    using m(2) unfolding separated_def by (rule sorted_wrt_mono_rel [rotated]) auto
  then show ?thesis using m by (simp add: sorted_wrt_map)
qed

theorem mergeRanges_correct_witness:
  "(\<Union>r\<in>set (mergeRanges [rng (500, 502), rng (429, 429), rng (503, 504)]). codes r)
     = (\<Union>r\<in>set [rng (500, 502), rng (429, 429), rng (503, 504)]. codes r)"
  using mergeRanges_correct [of "[rng (500, 502), rng (429, 429), rng (503, 504)]"]
  by (simp add: valid_pair_def)

text \<open>
  C2: when the parser accepts an input, parsing the normal form it printed gives the same
  result again: the same ranges, the same tokens and the same normal form.
\<close>

theorem parse_normalized_roundtrip:
  assumes "ok (parseHttpStatusCodeRules input)"
  shows "parseHttpStatusCodeRules (normalized (parseHttpStatusCodeRules input))
    = parseHttpStatusCodeRules input"
proof (cases "trim input = []")
  case True
  then show ?thesis by (simp add: parseHttpStatusCodeRules_def)
next
  case False
  obtain rs inv where seg: "parseSegments (segmentsOf (trim input)) = (rs, inv)" by fastforce
  have inv: "inv = []" using assms False seg by (simp add: parseHttpStatusCodeRules_def split: if_splits)
  have "\<forall>r\<in>set rs. wf_range r" using parseSegments_wf [of _ "segmentsOf (trim input)"] seg by simp
  then obtain m where m: "mergeRanges rs = map rng m" "separated m" "\<forall>p\<in>set m. valid_pair p"
    by (rule mergeRanges_form)
  show ?thesis
  proof (cases "m = []")
    case True
    then show ?thesis using False seg inv m(1) by (simp add: parseHttpStatusCodeRules_def Let_def)
  next
    case ne: False
    have "parseHttpStatusCodeRules input =
        \<lparr>ok = True, ranges = map rng m, tokens = map rangeToken (map rng m),
         normalized = join [44] (map rangeToken (map rng m)), invalidTokens = []\<rparr>"
      using False seg inv m(1) by (simp add: parseHttpStatusCodeRules_def Let_def)
    with parse_normal_form [OF m(2,3) ne] show ?thesis by (simp del: map_map)
  qed
qed

theorem parse_normalized_roundtrip_witness:
  "parseHttpStatusCodeRules (normalized (parseHttpStatusCodeRules (lit ''500-502, 429,503'')))
     = parseHttpStatusCodeRules (lit ''500-502, 429,503'')"
proof -
  have "ok (parseHttpStatusCodeRules (lit ''500-502, 429,503''))" by code_simp
  then show ?thesis by (rule parse_normalized_roundtrip)
qed

text \<open>
   An input is refused exactly when one of its segments is not a code or a range of codes,
  and then every such segment is reported, in order, the input is kept as it was typed, and no
  range is returned; whatever the input, every range returned lies within 100 to 599.
\<close>

theorem parse_reports_invalid:
  "invalidTokens (parseHttpStatusCodeRules input)
     = (if trim input = [] then [] else filter (\<lambda>s. parseToken s = None) (segmentsOf (trim input)))
   \<and> ok (parseHttpStatusCodeRules input) = (invalidTokens (parseHttpStatusCodeRules input) = [])
   \<and> (\<not> ok (parseHttpStatusCodeRules input) \<longrightarrow>
        ranges (parseHttpStatusCodeRules input) = []
        \<and> normalized (parseHttpStatusCodeRules input) = trim input)
   \<and> (\<forall>r\<in>set (ranges (parseHttpStatusCodeRules input)). wf_range r)"
proof -
  obtain rs inv where seg: "parseSegments (segmentsOf (trim input)) = (rs, inv)" by fastforce
  have snd_seg: "snd (parseSegments segs) = filter (\<lambda>s. parseToken s = None) segs" for segs
    by (induction segs) (auto simp: Let_def split: prod.splits option.splits)
  have "\<forall>r\<in>set rs. wf_range r" using parseSegments_wf [of _ "segmentsOf (trim input)"] seg by simp
  then obtain m where "mergeRanges rs = map rng m" "\<forall>p\<in>set m. valid_pair p"
    by (rule mergeRanges_form)
  with seg snd_seg [of "segmentsOf (trim input)"] show ?thesis
    by (auto simp: parseHttpStatusCodeRules_def Let_def)
qed

theorem parse_reports_invalid_witness:
  "invalidTokens (parseHttpStatusCodeRules (lit ''500,abc,99'')) = [lit ''abc'', lit ''99'']"
proof -
  have "trim (lit ''500,abc,99'') \<noteq> []" by code_simp
  moreover have "filter (\<lambda>s. parseToken s = None) (segmentsOf (trim (lit ''500,abc,99'')))
      = [lit ''abc'', lit ''99'']"
    by code_simp
  ultimately show ?thesis using parse_reports_invalid [of "lit ''500,abc,99''"] by simp
qed

text \<open>
   A token with more than one dash is accepted and everything after its second number is
  ignored: \<open>500-502-abc\<close> reads as \<open>500-502\<close> and is not reported.
\<close>

theorem parseToken_ignores_rest:
  "parseHttpStatusCodeRules (lit ''500-502-abc'') = parseHttpStatusCodeRules (lit ''500-502'')
   \<and> ok (parseHttpStatusCodeRules (lit ''500-502-abc''))"
  by code_simp

end
