(* ===== verification/Flow_Model.thy ===== *)
theory Flow_Model
  imports JS_Array
begin

text \<open>
  The dashboard's flow graph (\<open>src/web/default/src/features/dashboard/lib/flow.ts\<close>): usage
  rows become paths through stages (user, node, token, group, model, channel), the paths are
  limited to the top nodes of each stage and added up into the nodes and links of a Sankey
  diagram, which are then masked, highlighted, sorted and coloured.  The definitions follow
  the file in its order.

  Code that is not in the repository is an argument: \<open>lc\<close> is \<open>String.prototype.localeCompare\<close>
  of the browser's locale, \<open>vs\<close> the colour table of the chart library (never empty: its
  schemes but the last, and the last), \<open>fmt\<close> the browser's \<open>Intl.NumberFormat\<close>.
\<close>

section \<open>Data\<close>

datatype FlowNodeKind = KUser | KNode | KToken | KGroup | KModel | KChannel

datatype FlowMetric = MQuota | MTokens | MRequests

datatype FlowOverflowMode = Aggregate | Hide

datatype FlowRole = RUser | RAdmin | RRoot

record FlowQuotaDataItem =
  user_id :: "jsnum option"
  username :: "jstr option"
  node_name :: "jstr option"
  use_group :: "jstr option"
  token_id :: "jsnum option"
  token_name :: "jstr option"
  channel_id :: "jsnum option"
  channel_name :: "jstr option"
  model_name :: "jstr option"
  token_used :: "jsnum option"
  count :: "jsnum option"
  quota :: "jsnum option"

record FlowMetrics =
  m_quota :: jsnum
  m_tokens :: jsnum
  m_requests :: jsnum

record FlowPathNode =
  pn_id :: jstr
  pn_label :: jstr
  pn_kind :: FlowNodeKind

record PreparedFlowPath =
  path :: "FlowPathNode list"
  metrics :: FlowMetrics

record FlowNodeFilter =
  nf_kind :: FlowNodeKind
  nf_id :: jstr

record FlowLinkSelection =
  ls_source :: jstr
  ls_target :: jstr

record DashboardFlowNode =
  n_id :: jstr
  n_label :: jstr
  n_kind :: FlowNodeKind
  n_value :: jsnum
  n_requests :: jsnum
  n_quota :: jsnum
  n_tokens :: jsnum
  n_color :: jstr
  n_colorKey :: jstr
  n_highlighted :: "bool option"
  n_dimmed :: "bool option"

record DashboardFlowLink =
  l_source :: jstr
  l_target :: jstr
  l_value :: jsnum
  l_requests :: jsnum
  l_quota :: jsnum
  l_tokens :: jsnum
  l_sourceLabel :: jstr
  l_targetLabel :: jstr
  l_color :: jstr
  l_linkColor :: jstr
  l_linkAlpha :: jsnum
  l_hoverColor :: jstr
  l_colorKey :: jstr
  l_share :: jsnum
  l_highlighted :: "bool option"
  l_dimmed :: "bool option"

record DashboardFlowGraph =
  g_nodes :: "DashboardFlowNode list"
  g_links :: "DashboardFlowLink list"

record FlowHighlightSets =
  h_nodes :: "jstr list"
  h_links :: "jstr list"

record FlowGraphOptions =
  go_topNodeLimit :: "jsnum option"
  go_overflowMode :: "FlowOverflowMode option"
  go_otherNodeLabel :: "(FlowNodeKind \<Rightarrow> jstr) option"
  go_activeNode :: "FlowNodeFilter option"
  go_activeLink :: "FlowLinkSelection option"
  go_maskSensitive :: bool

record DataScheme =
  maxDomainLength :: "nat option"
  scheme :: "jstr option list"

type_synonym color_table = "DataScheme list \<times> DataScheme"

type_synonym flow_ctx = "(jsnum \<Rightarrow> jstr) option"

text \<open>\<open>s || d\<close> on an optional string.\<close>

definition str_or :: "jstr option \<Rightarrow> jstr \<Rightarrow> jstr" where
  "str_or s d = (case s of None \<Rightarrow> d | Some t \<Rightarrow> if t = [] then d else t)"

section \<open>Constants\<close>

definition DEFAULT_FLOW_ROLE :: FlowRole where
  "DEFAULT_FLOW_ROLE = RUser"

definition DEFAULT_FLOW_OVERFLOW_MODE :: FlowOverflowMode where
  "DEFAULT_FLOW_OVERFLOW_MODE = Aggregate"

definition DEFAULT_FLOW_CHART_COLOR :: jstr where
  "DEFAULT_FLOW_CHART_COLOR = lit ''#1664FF''"

fun kind_str :: "FlowNodeKind \<Rightarrow> jstr" where
  "kind_str KUser = lit ''user''"
| "kind_str KNode = lit ''node''"
| "kind_str KToken = lit ''token''"
| "kind_str KGroup = lit ''group''"
| "kind_str KModel = lit ''model''"
| "kind_str KChannel = lit ''channel''"

fun OTHER_FLOW_NODE_IDS :: "FlowNodeKind \<Rightarrow> jstr" where
  "OTHER_FLOW_NODE_IDS KUser = lit ''user:__other__''"
| "OTHER_FLOW_NODE_IDS KNode = lit ''node:__other__''"
| "OTHER_FLOW_NODE_IDS KToken = lit ''token:__other__''"
| "OTHER_FLOW_NODE_IDS KGroup = lit ''group:__other__''"
| "OTHER_FLOW_NODE_IDS KModel = lit ''model:__other__''"
| "OTHER_FLOW_NODE_IDS KChannel = lit ''channel:__other__''"

fun DEFAULT_OTHER_FLOW_NODE_LABELS :: "FlowNodeKind \<Rightarrow> jstr" where
  "DEFAULT_OTHER_FLOW_NODE_LABELS KUser = lit ''Other users''"
| "DEFAULT_OTHER_FLOW_NODE_LABELS KNode = lit ''Other nodes''"
| "DEFAULT_OTHER_FLOW_NODE_LABELS KToken = lit ''Other tokens''"
| "DEFAULT_OTHER_FLOW_NODE_LABELS KGroup = lit ''Other groups''"
| "DEFAULT_OTHER_FLOW_NODE_LABELS KModel = lit ''Other models''"
| "DEFAULT_OTHER_FLOW_NODE_LABELS KChannel = lit ''Other channels''"

definition SENSITIVE_FLOW_KINDS :: "FlowNodeKind list" where
  "SENSITIVE_FLOW_KINDS = [KUser, KNode, KToken, KGroup, KChannel]"

definition OTHER_FLOW_NODE_ID_SET :: "jstr list" where
  "OTHER_FLOW_NODE_ID_SET =
     map OTHER_FLOW_NODE_IDS [KUser, KNode, KToken, KGroup, KModel, KChannel]"

section \<open>Rows, metrics and path nodes\<close>

text \<open>\<open>numberValue\<close> on an optional number: \<open>Number(undefined)\<close> is NaN.\<close>

definition numberValue :: "jsnum option \<Rightarrow> jsnum" where
  "numberValue v = (case v of None \<Rightarrow> Fin 0 | Some n \<Rightarrow> if is_finite n then n else Fin 0)"

definition rowMetrics :: "FlowQuotaDataItem \<Rightarrow> FlowMetrics" where
  "rowMetrics row =
     \<lparr>m_quota = numberValue (quota row), m_tokens = numberValue (token_used row),
      m_requests = numberValue (count row)\<rparr>"

fun metricValue :: "FlowMetrics \<Rightarrow> FlowMetric \<Rightarrow> jsnum" where
  "metricValue ms MRequests = m_requests ms"
| "metricValue ms MTokens = m_tokens ms"
| "metricValue ms MQuota = m_quota ms"

definition userNode :: "FlowQuotaDataItem \<Rightarrow> FlowPathNode" where
  "userNode row =
     (let userID = numberValue (user_id row) in
      \<lparr>pn_id = (if js_lt (Fin 0) userID then lit ''user:'' @ num_str userID
               else lit ''user:'' @ str_or (username row) (lit ''unknown'')),
       pn_label = str_or (username row)
         (if js_lt (Fin 0) userID then lit ''user-'' @ num_str userID else lit ''Unknown User''),
       pn_kind = KUser\<rparr>)"

definition nodeNameNode :: "FlowQuotaDataItem \<Rightarrow> FlowPathNode" where
  "nodeNameNode row =
     (let nodeName = str_or (node_name row) (lit ''default-node'') in
      \<lparr>pn_id = lit ''node:'' @ nodeName, pn_label = nodeName, pn_kind = KNode\<rparr>)"

definition deletedTokenLabel :: "jsnum \<Rightarrow> flow_ctx \<Rightarrow> jstr" where
  "deletedTokenLabel tokenID ctx =
     (if js_le tokenID (Fin 0) then lit ''Unknown Token''
      else case ctx of Some f \<Rightarrow> f tokenID | None \<Rightarrow> lit ''token-'' @ num_str tokenID)"

definition tokenNode :: "FlowQuotaDataItem \<Rightarrow> flow_ctx \<Rightarrow> FlowPathNode" where
  "tokenNode row ctx =
     (let tokenID = numberValue (token_id row) in
      \<lparr>pn_id = (if js_lt (Fin 0) tokenID then lit ''token:'' @ num_str tokenID
               else lit ''token:'' @ str_or (token_name row) (lit ''unknown'')),
       pn_label = str_or (token_name row) (deletedTokenLabel tokenID ctx),
       pn_kind = KToken\<rparr>)"

definition groupNode :: "FlowQuotaDataItem \<Rightarrow> FlowPathNode" where
  "groupNode row =
     (let useGroup = str_or (use_group row) (lit ''unknown'') in
      \<lparr>pn_id = lit ''group:'' @ useGroup, pn_label = useGroup, pn_kind = KGroup\<rparr>)"

definition modelNode :: "FlowQuotaDataItem \<Rightarrow> FlowPathNode" where
  "modelNode row =
     \<lparr>pn_id = lit ''model:'' @ str_or (model_name row) (lit ''unknown''),
      pn_label = str_or (model_name row) (lit ''Unknown Model''), pn_kind = KModel\<rparr>"

definition channelNode :: "FlowQuotaDataItem \<Rightarrow> FlowPathNode" where
  "channelNode row =
     (let channelID = numberValue (channel_id row) in
      \<lparr>pn_id = (if js_lt (Fin 0) channelID then lit ''channel:'' @ num_str channelID
               else lit ''channel:'' @ str_or (channel_name row) (lit ''unknown'')),
       pn_label = str_or (channel_name row)
         (if js_lt (Fin 0) channelID then lit ''channel-'' @ num_str channelID else lit ''Unknown''),
       pn_kind = KChannel\<rparr>)"

fun NODE_BUILDERS :: "FlowNodeKind \<Rightarrow> FlowQuotaDataItem \<Rightarrow> flow_ctx \<Rightarrow> FlowPathNode" where
  "NODE_BUILDERS KUser row ctx = userNode row"
| "NODE_BUILDERS KNode row ctx = nodeNameNode row"
| "NODE_BUILDERS KToken row ctx = tokenNode row ctx"
| "NODE_BUILDERS KGroup row ctx = groupNode row"
| "NODE_BUILDERS KModel row ctx = modelNode row"
| "NODE_BUILDERS KChannel row ctx = channelNode row"

section \<open>Stages\<close>

fun getFlowStages :: "FlowRole \<Rightarrow> FlowNodeKind list" where
  "getFlowStages RRoot = [KUser, KNode, KToken, KGroup, KModel, KChannel]"
| "getFlowStages RAdmin = [KUser, KGroup, KModel, KChannel]"
| "getFlowStages RUser = [KToken, KGroup, KModel]"

definition MIN_FLOW_STAGES :: nat where
  "MIN_FLOW_STAGES = 2"

definition resolveVisibleStages :: "FlowRole \<Rightarrow> FlowNodeKind list option \<Rightarrow> FlowNodeKind list" where
  "resolveVisibleStages role visibleStages =
     (let stages = getFlowStages role in
      case visibleStages of
        None \<Rightarrow> stages
      | Some visible \<Rightarrow>
          (let filtered = filter (\<lambda>stage. stage \<in> set visible) stages in
           if MIN_FLOW_STAGES \<le> length filtered then filtered else stages))"

definition flowPathForStages ::
    "FlowQuotaDataItem \<Rightarrow> FlowNodeKind list \<Rightarrow> flow_ctx \<Rightarrow> FlowPathNode list" where
  "flowPathForStages row stages ctx = map (\<lambda>stage. NODE_BUILDERS stage row ctx) stages"

section \<open>Colours\<close>

definition getDashboardChartColors :: "color_table \<Rightarrow> nat \<Rightarrow> jstr list" where
  "getDashboardChartColors vs domainLength =
     (let chosen = opt_or (find (\<lambda>item. case maxDomainLength item of
                                   None \<Rightarrow> True
                                 | Some k \<Rightarrow> k = 0 \<or> domainLength \<le> k) (fst vs @ [snd vs]))
                          (snd vs)
      in concat (map (\<lambda>c. case c of Some s \<Rightarrow> [s] | None \<Rightarrow> []) (scheme chosen)))"

definition colorAt :: "color_table \<Rightarrow> nat \<Rightarrow> jstr list option \<Rightarrow> jstr" where
  "colorAt vs index palette =
     (let colors = (case palette of Some p \<Rightarrow> if p \<noteq> [] then p else getDashboardChartColors vs (index + 1)
                    | None \<Rightarrow> getDashboardChartColors vs (index + 1))
      in if colors = [] then DEFAULT_FLOW_CHART_COLOR else colors ! (index mod length colors))"

definition colorPalette :: "color_table \<Rightarrow> nat \<Rightarrow> jstr list option \<Rightarrow> jstr list" where
  "colorPalette vs colorCount palette =
     (case palette of
        Some (c # cs) \<Rightarrow> c # cs
      | _ \<Rightarrow> (let colors = getDashboardChartColors vs colorCount
              in if colors \<noteq> [] then colors else [DEFAULT_FLOW_CHART_COLOR]))"

definition is_hex :: "int \<Rightarrow> bool" where
  "is_hex c = (is_digit c \<or> 97 \<le> c \<and> c \<le> 102 \<or> 65 \<le> c \<and> c \<le> 70)"

definition hex_value :: "jstr \<Rightarrow> int" where
  "hex_value s = foldl (\<lambda>a c. a * 16 + opt_or (radix_digit c) 0) 0 s"

definition alphaColor :: "jstr \<Rightarrow> jsnum \<Rightarrow> jstr \<times> jsnum" where
  "alphaColor color alpha =
     (let normalized = trim color;
          hex = (if starts_with [35] normalized then drop 1 normalized else normalized)
      in if \<not> (length hex = 6 \<and> (\<forall>c\<in>set hex. is_hex c)) then (normalized, alpha)
         else let value = hex_value hex;
                  red = value div 65536 mod 256; green = value div 256 mod 256; blue = value mod 256
              in (lit ''rgba('' @ dec_int red @ lit '', '' @ dec_int green @ lit '', '' @ dec_int blue
                    @ lit '', '' @ to_fixed alpha 2 @ lit '')'', Fin 1))"

definition stableColorMap ::
    "color_table \<Rightarrow> jstr list \<Rightarrow> jstr list option \<Rightarrow> (jstr \<times> jstr) list" where
  "stableColorMap vs keys palette =
     (let uniqueKeys = uniq keys; colors = colorPalette vs (length uniqueKeys) palette
      in map (\<lambda>(index, key). (key, colorAt vs index (Some colors))) (enumerate 0 uniqueKeys))"

section \<open>Filters on rows\<close>

definition filterRows :: "FlowQuotaDataItem list \<Rightarrow> jstr list option \<Rightarrow> FlowQuotaDataItem list" where
  "filterRows rows selectedUsers =
     (let selected = uniq (opt_or selectedUsers []) in
      if selected = [] then rows else filter (\<lambda>row. pn_id (userNode row) \<in> set selected) rows)"

definition nodeFilterKey :: "FlowNodeFilter \<Rightarrow> jstr" where
  "nodeFilterKey flt = kind_str (nf_kind flt) @ [0] @ nf_id flt"

definition normalizeSelectedNodeFilters ::
    "FlowNodeFilter list option \<Rightarrow> FlowNodeKind list \<Rightarrow> (FlowNodeKind \<times> jstr list) list" where
  "normalizeSelectedNodeFilters selectedNodes stages =
     fold (\<lambda>flt filters.
             if nf_kind flt \<notin> set stages then filters
             else AList.update (nf_kind flt)
                    (set_add (nf_id flt) (opt_or (map_of filters (nf_kind flt)) [])) filters)
       (opt_or selectedNodes []) []"

definition pathNodesByKind :: "FlowPathNode list \<Rightarrow> (FlowNodeKind \<times> jstr list) list" where
  "pathNodesByKind p =
     fold (\<lambda>node m. AList.update (pn_kind node)
                     (set_add (pn_id node) (opt_or (map_of m (pn_kind node)) [])) m) p []"

definition pathMatchesNodeFilters ::
    "FlowPathNode list \<Rightarrow> (FlowNodeKind \<times> jstr list) list \<Rightarrow> bool" where
  "pathMatchesNodeFilters p filters =
     (filters = [] \<or>
      list_all (\<lambda>(kind, selectedIds).
        case map_of (pathNodesByKind p) kind of
          None \<Rightarrow> False
        | Some pathIds \<Rightarrow> list_ex (\<lambda>i. i \<in> set pathIds) selectedIds) filters)"

definition filterRowsByNodes ::
    "FlowQuotaDataItem list \<Rightarrow> FlowNodeFilter list option \<Rightarrow> FlowNodeKind list \<Rightarrow> flow_ctx
      \<Rightarrow> FlowQuotaDataItem list" where
  "filterRowsByNodes rows selectedNodes stages ctx =
     (let filters = normalizeSelectedNodeFilters selectedNodes stages in
      if filters = [] then rows
      else filter (\<lambda>row. pathMatchesNodeFilters (flowPathForStages row stages ctx) filters) rows)"

definition selectedNodeFiltersExceptKind ::
    "FlowNodeFilter list option \<Rightarrow> FlowNodeKind \<Rightarrow> FlowNodeFilter list option" where
  "selectedNodeFiltersExceptKind selectedNodes kind =
     (let filtered = filter (\<lambda>flt. nf_kind flt \<noteq> kind) (opt_or selectedNodes [])
      in if filtered \<noteq> [] then Some filtered else None)"

section \<open>Accumulating nodes and links\<close>

definition newNode :: "FlowPathNode \<Rightarrow> jstr \<Rightarrow> jstr \<Rightarrow> DashboardFlowNode" where
  "newNode pathNode color colorKey =
     \<lparr>n_id = pn_id pathNode, n_label = pn_label pathNode, n_kind = pn_kind pathNode,
      n_value = Fin 0, n_requests = Fin 0, n_quota = Fin 0, n_tokens = Fin 0,
      n_color = color, n_colorKey = colorKey, n_highlighted = None, n_dimmed = None\<rparr>"

definition bumpNode :: "FlowMetrics \<Rightarrow> FlowMetric \<Rightarrow> DashboardFlowNode \<Rightarrow> DashboardFlowNode" where
  "bumpNode ms metric previous =
     previous\<lparr>n_value := js_add (n_value previous) (metricValue ms metric),
       n_requests := js_add (n_requests previous) (m_requests ms),
       n_quota := js_add (n_quota previous) (m_quota ms),
       n_tokens := js_add (n_tokens previous) (m_tokens ms)\<rparr>"

definition addNode ::
    "FlowPathNode \<Rightarrow> FlowMetrics \<Rightarrow> FlowMetric \<Rightarrow> jstr \<Rightarrow> jstr
      \<Rightarrow> (jstr \<times> DashboardFlowNode) list \<Rightarrow> (jstr \<times> DashboardFlowNode) list" where
  "addNode pathNode ms metric color colorKey m =
     AList.update (pn_id pathNode)
       (bumpNode ms metric (opt_or (map_of m (pn_id pathNode)) (newNode pathNode color colorKey))) m"

definition pathLinkKey :: "FlowPathNode \<Rightarrow> FlowPathNode \<Rightarrow> jstr" where
  "pathLinkKey src tgt = pn_id src @ [0] @ pn_id tgt"

definition linkStableKey :: "DashboardFlowLink \<Rightarrow> jstr" where
  "linkStableKey link = l_source link @ [0] @ l_target link"

definition newLink :: "FlowPathNode \<Rightarrow> FlowPathNode \<Rightarrow> jstr \<Rightarrow> jstr \<Rightarrow> DashboardFlowLink" where
  "newLink src tgt color colorKey =
     \<lparr>l_source = pn_id src, l_target = pn_id tgt, l_value = Fin 0, l_requests = Fin 0,
      l_quota = Fin 0, l_tokens = Fin 0, l_sourceLabel = pn_label src, l_targetLabel = pn_label tgt,
      l_color = color, l_linkColor = color, l_linkAlpha = Fin 1, l_hoverColor = color,
      l_colorKey = colorKey, l_share = Fin 0, l_highlighted = None, l_dimmed = None\<rparr>"

definition bumpLink :: "FlowMetrics \<Rightarrow> FlowMetric \<Rightarrow> DashboardFlowLink \<Rightarrow> DashboardFlowLink" where
  "bumpLink ms metric previous =
     previous\<lparr>l_value := js_add (l_value previous) (metricValue ms metric),
       l_requests := js_add (l_requests previous) (m_requests ms),
       l_quota := js_add (l_quota previous) (m_quota ms),
       l_tokens := js_add (l_tokens previous) (m_tokens ms)\<rparr>"

definition addLink ::
    "FlowPathNode \<Rightarrow> FlowPathNode \<Rightarrow> FlowMetrics \<Rightarrow> FlowMetric \<Rightarrow> jstr \<Rightarrow> jstr
      \<Rightarrow> (jstr \<times> DashboardFlowLink) list \<Rightarrow> (jstr \<times> DashboardFlowLink) list" where
  "addLink src tgt ms metric color colorKey m =
     AList.update (pathLinkKey src tgt)
       (bumpLink ms metric (opt_or (map_of m (pathLinkKey src tgt)) (newLink src tgt color colorKey))) m"

section \<open>Display colours of links and the orders\<close>

definition byLinkValue ::
    "(jstr \<Rightarrow> jstr \<Rightarrow> jsnum) \<Rightarrow> DashboardFlowLink \<Rightarrow> DashboardFlowLink \<Rightarrow> jsnum" where
  "byLinkValue lc a b =
     num_or (js_sub (l_value b) (l_value a)) (lc (linkStableKey a) (linkStableKey b))"

text \<open>The alpha of the link at \<open>index\<close> among \<open>n\<close> links of one source.\<close>

definition linkAlphaAt :: "nat \<Rightarrow> nat \<Rightarrow> jsnum" where
  "linkAlphaAt n index =
     (if n = 1 then rnd (34 / 100)
      else js_add (rnd (24 / 100))
             (js_mul (js_div (jint (int index)) (js_max (jint (int n - 1)) (Fin 1))) (rnd (2 / 10))))"

definition displayOf :: "nat \<Rightarrow> nat \<times> DashboardFlowLink \<Rightarrow> jstr \<times> (jstr \<times> jsnum)" where
  "displayOf n p = (linkStableKey (snd p), alphaColor (l_color (snd p)) (linkAlphaAt n (fst p)))"

text \<open>
  The source groups the links by source and writes into each link object; here the display of
  every link is computed under its key, which is unique among the links of a graph.
\<close>

definition assignLinkDisplayColors ::
    "(jstr \<Rightarrow> jstr \<Rightarrow> jsnum) \<Rightarrow> DashboardFlowLink list \<Rightarrow> DashboardFlowLink list" where
  "assignLinkDisplayColors lc links =
     (let displays = concat (map (\<lambda>src.
            let sortedLinks = js_sort (byLinkValue lc) (filter (\<lambda>l. l_source l = src) links)
            in map (displayOf (length sortedLinks)) (enumerate 0 sortedLinks))
          (uniq (map l_source links)))
      in map (\<lambda>link. case map_of displays (linkStableKey link) of
                None \<Rightarrow> link
              | Some (c, a) \<Rightarrow> link\<lparr>l_linkColor := c, l_linkAlpha := a, l_hoverColor := l_color link\<rparr>)
           links)"

definition byValueThenLabel ::
    "(jstr \<Rightarrow> jstr \<Rightarrow> jsnum) \<Rightarrow> DashboardFlowNode \<Rightarrow> DashboardFlowNode \<Rightarrow> jsnum" where
  "byValueThenLabel lc a b =
     num_or (js_sub (n_value b) (n_value a)) (lc (n_label a) (n_label b))"

definition buildSummary :: "FlowQuotaDataItem list \<Rightarrow> FlowMetrics" where
  "buildSummary rows =
     foldl (\<lambda>summary row. let ms = rowMetrics row in
              \<lparr>m_quota = js_add (m_quota summary) (m_quota ms),
               m_tokens = js_add (m_tokens summary) (m_tokens ms),
               m_requests = js_add (m_requests summary) (m_requests ms)\<rparr>)
       \<lparr>m_quota = Fin 0, m_tokens = Fin 0, m_requests = Fin 0\<rparr> rows"

section \<open>The top nodes of a stage\<close>

text \<open>The limit as a count: a positive finite \<open>Math.floor(limit)\<close>, otherwise no limit.\<close>

definition normalizeTopNodeLimit :: "jsnum option \<Rightarrow> nat option" where
  "normalizeTopNodeLimit limit =
     (case limit of
        None \<Rightarrow> None
      | Some l \<Rightarrow> (case js_floor l of Fin q \<Rightarrow> if 0 < q then Some (nat \<lfloor>q\<rfloor>) else None | _ \<Rightarrow> None))"

definition otherFlowNode :: "FlowNodeKind \<Rightarrow> (FlowNodeKind \<Rightarrow> jstr) option \<Rightarrow> FlowPathNode" where
  "otherFlowNode kind labeler =
     \<lparr>pn_id = OTHER_FLOW_NODE_IDS kind,
      pn_label = (case labeler of Some f \<Rightarrow> f kind | None \<Rightarrow> DEFAULT_OTHER_FLOW_NODE_LABELS kind),
      pn_kind = kind\<rparr>"

definition rankTotals ::
    "FlowQuotaDataItem list \<Rightarrow> FlowMetric \<Rightarrow> FlowNodeKind list \<Rightarrow> flow_ctx \<Rightarrow> FlowNodeKind
      \<Rightarrow> (jstr \<times> (FlowPathNode \<times> jsnum)) list" where
  "rankTotals rows metric stages ctx kind =
     fold (\<lambda>row m.
       fold (\<lambda>node m.
              if pn_kind node \<noteq> kind then m
              else let current = opt_or (map_of m (pn_id node)) (node, Fin 0)
                   in AList.update (pn_id node)
                        (fst current, js_add (snd current) (metricValue (rowMetrics row) metric)) m)
         (flowPathForStages row stages ctx) m) rows []"

definition byRank ::
    "(jstr \<Rightarrow> jstr \<Rightarrow> jsnum) \<Rightarrow> FlowPathNode \<times> jsnum \<Rightarrow> FlowPathNode \<times> jsnum \<Rightarrow> jsnum" where
  "byRank lc a b =
     num_or (js_sub (snd b) (snd a))
       (num_or (lc (pn_label (fst a)) (pn_label (fst b))) (lc (pn_id (fst a)) (pn_id (fst b))))"

definition buildTopNodeSets ::
    "(jstr \<Rightarrow> jstr \<Rightarrow> jsnum) \<Rightarrow> FlowQuotaDataItem list \<Rightarrow> FlowMetric \<Rightarrow> FlowNodeKind list
      \<Rightarrow> nat option \<Rightarrow> flow_ctx \<Rightarrow> (FlowNodeKind \<times> jstr list) list option" where
  "buildTopNodeSets lc rows metric stages limit ctx =
     (case limit of
        None \<Rightarrow> None
      | Some n \<Rightarrow>
          Some (map (\<lambda>kind.
            (kind, uniq (map (\<lambda>rank. pn_id (fst rank))
               (take n (js_sort (byRank lc) (map snd (rankTotals rows metric stages ctx kind)))))))
            (uniq stages)))"

definition isTopFlowNode :: "FlowPathNode \<Rightarrow> (FlowNodeKind \<times> jstr list) list \<Rightarrow> bool" where
  "isTopFlowNode node topNodeSets =
     (case map_of topNodeSets (pn_kind node) of None \<Rightarrow> True | Some topIds \<Rightarrow> pn_id node \<in> set topIds)"

definition applyTopNodeLimit ::
    "FlowPathNode list \<Rightarrow> (FlowNodeKind \<times> jstr list) list option \<Rightarrow> FlowOverflowMode
      \<Rightarrow> (FlowNodeKind \<Rightarrow> jstr) option \<Rightarrow> FlowPathNode list option" where
  "applyTopNodeLimit p topNodeSets mode labeler =
     (case topNodeSets of
        None \<Rightarrow> Some p
      | Some tops \<Rightarrow>
          if \<not> (\<exists>node\<in>set p. \<not> isTopFlowNode node tops) then Some p
          else if mode = Hide then None
          else Some (map (\<lambda>node. if isTopFlowNode node tops then node
                                 else otherFlowNode (pn_kind node) labeler) p))"

section \<open>Highlighting and masking\<close>

definition pathContainsFlowNode :: "FlowPathNode list \<Rightarrow> FlowNodeFilter \<Rightarrow> bool" where
  "pathContainsFlowNode p flt = (\<exists>node\<in>set p. pn_kind node = nf_kind flt \<and> pn_id node = nf_id flt)"

definition pathContainsFlowLink :: "FlowPathNode list \<Rightarrow> FlowLinkSelection \<Rightarrow> bool" where
  "pathContainsFlowLink p link =
     (\<exists>(a, b)\<in>set (adjacent p). pn_id a = ls_source link \<and> pn_id b = ls_target link)"

definition matchesPath ::
    "FlowNodeFilter option \<Rightarrow> FlowLinkSelection option \<Rightarrow> FlowPathNode list \<Rightarrow> bool" where
  "matchesPath activeNode activeLink p =
     (case activeLink of
        Some link \<Rightarrow> pathContainsFlowLink p link
      | None \<Rightarrow> (case activeNode of Some flt \<Rightarrow> pathContainsFlowNode p flt | None \<Rightarrow> False))"

definition buildFlowHighlightSets ::
    "PreparedFlowPath list \<Rightarrow> FlowNodeFilter option \<Rightarrow> FlowLinkSelection option
      \<Rightarrow> FlowNodeKind list \<Rightarrow> FlowHighlightSets option" where
  "buildFlowHighlightSets preparedPaths activeNode activeLink stages =
     (let nodeActive = (case activeNode of None \<Rightarrow> False | Some flt \<Rightarrow> nf_kind flt \<in> set stages) in
      if \<not> nodeActive \<and> activeLink = None then None
      else let matching = filter (\<lambda>prep. matchesPath activeNode activeLink (path prep)) preparedPaths;
               hn = uniq (concat (map (\<lambda>prep. map pn_id (path prep)) matching));
               hl = uniq (concat (map (\<lambda>prep. map (\<lambda>(a, b). pathLinkKey a b) (adjacent (path prep)))
                      matching))
           in if hn = [] then None else Some \<lparr>h_nodes = hn, h_links = hl\<rparr>)"

text \<open>Four bullets (U+2022).\<close>

definition FLOW_MASK_TEXT :: jstr where
  "FLOW_MASK_TEXT = [8226, 8226, 8226, 8226]"

definition maskFlowLabel :: "jstr \<Rightarrow> jstr" where
  "maskFlowLabel label = (if label = [] then label else FLOW_MASK_TEXT)"

definition maskedNode :: "DashboardFlowNode \<Rightarrow> bool" where
  "maskedNode node =
     (n_kind node \<in> set SENSITIVE_FLOW_KINDS \<and> n_id node \<notin> set OTHER_FLOW_NODE_ID_SET)"

definition maskNode :: "DashboardFlowNode \<Rightarrow> DashboardFlowNode" where
  "maskNode node = (if maskedNode node then node\<lparr>n_label := maskFlowLabel (n_label node)\<rparr> else node)"

definition maskedById :: "DashboardFlowNode list \<Rightarrow> (jstr \<times> jstr) list" where
  "maskedById nodes =
     fold (\<lambda>node m. AList.update (n_id node) (maskFlowLabel (n_label node)) m)
       (filter maskedNode nodes) []"

definition maskLink :: "(jstr \<times> jstr) list \<Rightarrow> DashboardFlowLink \<Rightarrow> DashboardFlowLink" where
  "maskLink masked link =
     link\<lparr>l_sourceLabel := opt_or (map_of masked (l_source link)) (l_sourceLabel link),
          l_targetLabel := opt_or (map_of masked (l_target link)) (l_targetLabel link)\<rparr>"

definition maskFlowGraphLabels ::
    "(jstr \<times> DashboardFlowNode) list \<Rightarrow> (jstr \<times> DashboardFlowLink) list
      \<Rightarrow> (jstr \<times> DashboardFlowNode) list \<times> (jstr \<times> DashboardFlowLink) list" where
  "maskFlowGraphLabels nodes links =
     (let masked = maskedById (map snd nodes); nodes' = map (map_prod id maskNode) nodes
      in if masked = [] then (nodes', links) else (nodes', map (map_prod id (maskLink masked)) links))"

definition highlightNode :: "FlowHighlightSets \<Rightarrow> DashboardFlowNode \<Rightarrow> DashboardFlowNode" where
  "highlightNode hs node =
     node\<lparr>n_highlighted := Some (n_id node \<in> set (h_nodes hs)),
          n_dimmed := Some (n_id node \<notin> set (h_nodes hs))\<rparr>"

definition highlightLink :: "FlowHighlightSets \<Rightarrow> DashboardFlowLink \<Rightarrow> DashboardFlowLink" where
  "highlightLink hs link =
     link\<lparr>l_highlighted := Some (linkStableKey link \<in> set (h_links hs)),
          l_dimmed := Some (linkStableKey link \<notin> set (h_links hs))\<rparr>"

definition applyFlowHighlights ::
    "(jstr \<times> DashboardFlowNode) list \<Rightarrow> (jstr \<times> DashboardFlowLink) list \<Rightarrow> FlowHighlightSets option
      \<Rightarrow> (jstr \<times> DashboardFlowNode) list \<times> (jstr \<times> DashboardFlowLink) list" where
  "applyFlowHighlights nodes links hs =
     (case hs of
        None \<Rightarrow> (nodes, links)
      | Some sets \<Rightarrow> (map (map_prod id (highlightNode sets)) nodes,
                     map (map_prod id (highlightLink sets)) links))"

section \<open>The graph\<close>

definition preparePaths ::
    "FlowQuotaDataItem list \<Rightarrow> FlowNodeKind list \<Rightarrow> flow_ctx
      \<Rightarrow> (FlowNodeKind \<times> jstr list) list option \<Rightarrow> FlowOverflowMode
      \<Rightarrow> (FlowNodeKind \<Rightarrow> jstr) option \<Rightarrow> PreparedFlowPath list" where
  "preparePaths rows stages ctx tops mode labeler =
     concat (map (\<lambda>row. case applyTopNodeLimit (flowPathForStages row stages ctx) tops mode labeler of
                None \<Rightarrow> []
              | Some p \<Rightarrow> [\<lparr>path = p, metrics = rowMetrics row\<rparr>]) rows)"

text \<open>The ids of the first nodes of the prepared paths; an empty id is dropped, as \<open>Boolean(id)\<close> does.\<close>

definition rootIds :: "PreparedFlowPath list \<Rightarrow> jstr list" where
  "rootIds preps =
     filter (\<lambda>i. i \<noteq> [])
       (concat (map (\<lambda>prep. case path prep of [] \<Rightarrow> [] | first # _ \<Rightarrow> [pn_id first]) preps))"

definition rootColor ::
    "color_table \<Rightarrow> jstr list option \<Rightarrow> (jstr \<times> jstr) list \<Rightarrow> jstr \<Rightarrow> jstr" where
  "rootColor vs palette colors rootId = opt_or (map_of colors rootId) (colorAt vs 0 palette)"

definition accumulateNodes ::
    "FlowMetric \<Rightarrow> (jstr \<Rightarrow> jstr) \<Rightarrow> PreparedFlowPath list \<Rightarrow> (jstr \<times> DashboardFlowNode) list" where
  "accumulateNodes metric col preps =
     fold (\<lambda>prep m.
       case path prep of
         [] \<Rightarrow> m
       | first # _ \<Rightarrow>
           fold (\<lambda>node m. addNode node (metrics prep) metric (col (pn_id first)) (pn_id first) m)
             (path prep) m) preps []"

definition accumulateLinks ::
    "FlowMetric \<Rightarrow> (jstr \<Rightarrow> jstr) \<Rightarrow> PreparedFlowPath list \<Rightarrow> (jstr \<times> DashboardFlowLink) list" where
  "accumulateLinks metric col preps =
     fold (\<lambda>prep m.
       case path prep of
         [] \<Rightarrow> m
       | first # _ \<Rightarrow>
           fold (\<lambda>(a, b) m. addLink a b (metrics prep) metric (col (pn_id first)) (pn_id first) m)
             (adjacent (path prep)) m) preps []"

definition bySourceTarget ::
    "(jstr \<Rightarrow> jstr \<Rightarrow> jsnum) \<Rightarrow> DashboardFlowLink \<Rightarrow> DashboardFlowLink \<Rightarrow> jsnum" where
  "bySourceTarget lc a b = num_or (lc (l_source a) (l_source b)) (lc (l_target a) (l_target b))"

definition firstStepTotal :: "jstr list \<Rightarrow> DashboardFlowLink list \<Rightarrow> jsnum" where
  "firstStepTotal roots links =
     foldl (\<lambda>s link. js_add s (l_value link)) (Fin 0) (filter (\<lambda>l. l_source l \<in> set roots) links)"

definition setShare :: "jsnum \<Rightarrow> DashboardFlowLink \<Rightarrow> DashboardFlowLink" where
  "setShare totalValue link =
     link\<lparr>l_share := (if js_lt (Fin 0) totalValue then js_div (l_value link) totalValue else Fin 0)\<rparr>"

definition buildFlowGraph ::
    "(jstr \<Rightarrow> jstr \<Rightarrow> jsnum) \<Rightarrow> color_table \<Rightarrow> FlowQuotaDataItem list \<Rightarrow> FlowMetric \<Rightarrow> FlowRole
      \<Rightarrow> jstr list option \<Rightarrow> FlowNodeKind list option \<Rightarrow> flow_ctx \<Rightarrow> FlowGraphOptions
      \<Rightarrow> DashboardFlowGraph" where
  "buildFlowGraph lc vs rows metric role palette visibleStages ctx opts =
     (let stages = resolveVisibleStages role visibleStages;
          tops = buildTopNodeSets lc rows metric stages (normalizeTopNodeLimit (go_topNodeLimit opts)) ctx;
          mode = opt_or (go_overflowMode opts) DEFAULT_FLOW_OVERFLOW_MODE;
          preps = preparePaths rows stages ctx tops mode (go_otherNodeLabel opts);
          colors = stableColorMap vs (js_sort lc (rootIds preps)) palette;
          col = rootColor vs palette colors;
          nodes0 = accumulateNodes metric col preps;
          links0 = accumulateLinks metric col preps;
          (nodes1, links1) = (if go_maskSensitive opts then maskFlowGraphLabels nodes0 links0
                              else (nodes0, links0));
          (nodes2, links2) = applyFlowHighlights nodes1 links1
            (buildFlowHighlightSets preps (go_activeNode opts) (go_activeLink opts) stages);
          flowLinks = js_sort (bySourceTarget lc) (map snd links2);
          totalValue = firstStepTotal (rootIds preps) flowLinks;
          shared = map (setShare totalValue) flowLinks
      in \<lparr>g_nodes = js_sort (byValueThenLabel lc) (map snd nodes2),
          g_links = assignLinkDisplayColors lc shared\<rparr>)"

section \<open>Filter options\<close>

record FlowUserFilterOption =
  uo_value :: jstr
  uo_label :: jstr
  uo_valueLabel :: jstr
  uo_valueRaw :: jsnum
  uo_color :: jstr

record FlowNodeFilterOption =
  no_kind :: FlowNodeKind
  no_value :: jstr
  no_label :: jstr
  no_valueLabel :: jstr
  no_valueRaw :: jsnum
  no_color :: jstr

record FlowFilterOptions =
  fo_users :: "FlowUserFilterOption list"
  fo_nodes :: "FlowNodeFilterOption list"

text \<open>A row names a user when \<open>row.user_id\<close> or \<open>row.username\<close> is truthy.\<close>

definition hasUser :: "FlowQuotaDataItem \<Rightarrow> bool" where
  "hasUser row =
     ((case user_id row of None \<Rightarrow> False | Some n \<Rightarrow> num_truthy n)
      \<or> (case username row of None \<Rightarrow> False | Some s \<Rightarrow> s \<noteq> []))"

definition userTotals ::
    "FlowMetric \<Rightarrow> (jstr \<Rightarrow> jstr) \<Rightarrow> FlowQuotaDataItem list \<Rightarrow> (jstr \<times> (jstr \<times> jsnum \<times> jstr)) list" where
  "userTotals metric col rows =
     fold (\<lambda>row m.
       let user = userNode row;
           (label, value, color) =
             opt_or (map_of m (pn_id user)) (pn_label user, Fin 0, col (pn_id user))
       in AList.update (pn_id user)
            (label, js_add value (metricValue (rowMetrics row) metric), color) m)
     (filter hasUser rows) []"

definition byUserOption ::
    "(jstr \<Rightarrow> jstr \<Rightarrow> jsnum) \<Rightarrow> FlowUserFilterOption \<Rightarrow> FlowUserFilterOption \<Rightarrow> jsnum" where
  "byUserOption lc a b =
     num_or (js_sub (uo_valueRaw b) (uo_valueRaw a)) (lc (uo_label a) (uo_label b))"

definition buildUserFilterOptions ::
    "(jstr \<Rightarrow> jstr \<Rightarrow> jsnum) \<Rightarrow> color_table \<Rightarrow> (jsnum \<Rightarrow> jstr) \<Rightarrow> FlowQuotaDataItem list
      \<Rightarrow> FlowMetric \<Rightarrow> jstr list option \<Rightarrow> FlowUserFilterOption list" where
  "buildUserFilterOptions lc vs fmt rows metric palette =
     (let colors = stableColorMap vs (js_sort lc (map (\<lambda>row. pn_id (userNode row)) rows)) palette;
          users = userTotals metric (rootColor vs palette colors) rows
      in js_sort (byUserOption lc)
           (map (\<lambda>(value, (label, raw, color)).
              \<lparr>uo_value = value, uo_label = label, uo_valueLabel = fmt raw, uo_valueRaw = raw,
               uo_color = color\<rparr>) users))"

definition stageTotals ::
    "FlowMetric \<Rightarrow> FlowNodeKind \<Rightarrow> flow_ctx \<Rightarrow> FlowQuotaDataItem list
      \<Rightarrow> (jstr \<times> (FlowPathNode \<times> jsnum)) list" where
  "stageTotals metric stage ctx rows =
     fold (\<lambda>row m.
       let node = NODE_BUILDERS stage row ctx;
           key = nodeFilterKey \<lparr>nf_kind = pn_kind node, nf_id = pn_id node\<rparr>;
           current = opt_or (map_of m key) (node, Fin 0)
       in AList.update key (fst current, js_add (snd current) (metricValue (rowMetrics row) metric)) m)
     rows []"

text \<open>\<open>stageOrder.get(kind) ?? 0\<close>.\<close>

definition stageIndex :: "FlowNodeKind list \<Rightarrow> FlowNodeKind \<Rightarrow> jsnum" where
  "stageIndex stages kind =
     (if kind \<in> set stages then jint (int (length (takeWhile (\<lambda>k. k \<noteq> kind) stages))) else Fin 0)"

definition byNodeOption ::
    "(jstr \<Rightarrow> jstr \<Rightarrow> jsnum) \<Rightarrow> FlowNodeKind list \<Rightarrow> FlowNodeFilterOption \<Rightarrow> FlowNodeFilterOption
      \<Rightarrow> jsnum" where
  "byNodeOption lc stages a b =
     num_or (js_sub (stageIndex stages (no_kind a)) (stageIndex stages (no_kind b)))
       (num_or (js_sub (no_valueRaw b) (no_valueRaw a))
         (num_or (lc (no_label a) (no_label b)) (lc (no_value a) (no_value b))))"

definition nodeOption ::
    "(jsnum \<Rightarrow> jstr) \<Rightarrow> (jstr \<Rightarrow> jstr) \<Rightarrow> FlowPathNode \<times> jsnum \<Rightarrow> FlowNodeFilterOption" where
  "nodeOption fmt col rank =
     \<lparr>no_kind = pn_kind (fst rank), no_value = pn_id (fst rank), no_label = pn_label (fst rank),
      no_valueLabel = fmt (snd rank), no_valueRaw = snd rank, no_color = col (pn_id (fst rank))\<rparr>"

definition buildNodeFilterOptions ::
    "(jstr \<Rightarrow> jstr \<Rightarrow> jsnum) \<Rightarrow> color_table \<Rightarrow> (jsnum \<Rightarrow> jstr) \<Rightarrow> FlowQuotaDataItem list
      \<Rightarrow> FlowMetric \<Rightarrow> FlowRole \<Rightarrow> FlowNodeKind list option \<Rightarrow> jstr list option \<Rightarrow> flow_ctx
      \<Rightarrow> FlowNodeFilter list option \<Rightarrow> FlowNodeFilterOption list" where
  "buildNodeFilterOptions lc vs fmt rows metric role visibleStages palette ctx selectedNodes =
     (let stages = resolveVisibleStages role visibleStages;
          colorIds = uniq (concat (map (\<lambda>row. map pn_id (flowPathForStages row stages ctx)) rows));
          colors = stableColorMap vs (js_sort lc colorIds) palette;
          col = rootColor vs palette colors
      in js_sort (byNodeOption lc stages)
           (concat (map (\<lambda>stage.
              let candidateRows = filterRowsByNodes rows
                    (selectedNodeFiltersExceptKind selectedNodes stage) stages ctx
              in map (\<lambda>e. nodeOption fmt col (snd e)) (stageTotals metric stage ctx candidateRows))
            stages)))"

definition buildFlowFilterOptions ::
    "(jstr \<Rightarrow> jstr \<Rightarrow> jsnum) \<Rightarrow> color_table \<Rightarrow> (jsnum \<Rightarrow> jstr) \<Rightarrow> FlowQuotaDataItem list
      \<Rightarrow> FlowMetric \<Rightarrow> jstr list option \<Rightarrow> FlowRole \<Rightarrow> FlowNodeKind list option
      \<Rightarrow> FlowNodeFilter list option \<Rightarrow> FlowFilterOptions" where
  "buildFlowFilterOptions lc vs fmt rows metric palette role visibleStages selectedNodes =
     \<lparr>fo_users = buildUserFilterOptions lc vs fmt rows metric palette,
      fo_nodes = buildNodeFilterOptions lc vs fmt rows metric role visibleStages palette None
        selectedNodes\<rparr>"

section \<open>The dashboard's flow data\<close>

record FlowBuildOptions =
  bo_role :: "FlowRole option"
  bo_selectedUsers :: "jstr list option"
  bo_selectedNodes :: "FlowNodeFilter list option"
  bo_activeNode :: "FlowNodeFilter option"
  bo_activeLink :: "FlowLinkSelection option"
  bo_colorPalette :: "jstr list option"
  bo_visibleStages :: "FlowNodeKind list option"
  bo_topNodeLimit :: "jsnum option"
  bo_overflowMode :: "FlowOverflowMode option"
  bo_maskSensitive :: bool
  bo_deletedTokenLabel :: flow_ctx
  bo_otherNodeLabel :: "(FlowNodeKind \<Rightarrow> jstr) option"

record ProcessedFlowData =
  fd_summary :: FlowMetrics
  fd_flow :: DashboardFlowGraph
  fd_filterOptions :: FlowFilterOptions

definition flowRows :: "FlowQuotaDataItem list \<Rightarrow> FlowBuildOptions \<Rightarrow> FlowQuotaDataItem list" where
  "flowRows rows opts =
     filterRowsByNodes (filterRows rows (bo_selectedUsers opts)) (bo_selectedNodes opts)
       (resolveVisibleStages (opt_or (bo_role opts) DEFAULT_FLOW_ROLE) (bo_visibleStages opts))
       (bo_deletedTokenLabel opts)"

definition graphOptions :: "FlowBuildOptions \<Rightarrow> FlowGraphOptions" where
  "graphOptions opts =
     \<lparr>go_topNodeLimit = bo_topNodeLimit opts, go_overflowMode = bo_overflowMode opts,
      go_otherNodeLabel = bo_otherNodeLabel opts, go_activeNode = bo_activeNode opts,
      go_activeLink = bo_activeLink opts, go_maskSensitive = bo_maskSensitive opts\<rparr>"

definition buildDashboardFlowData ::
    "(jstr \<Rightarrow> jstr \<Rightarrow> jsnum) \<Rightarrow> color_table \<Rightarrow> (jsnum \<Rightarrow> jstr) \<Rightarrow> FlowQuotaDataItem list
      \<Rightarrow> FlowMetric \<Rightarrow> FlowBuildOptions \<Rightarrow> ProcessedFlowData" where
  "buildDashboardFlowData lc vs fmt rows metric opts =
     (let role = opt_or (bo_role opts) DEFAULT_FLOW_ROLE; palette = bo_colorPalette opts;
          ctx = bo_deletedTokenLabel opts;
          userFilteredRows = filterRows rows (bo_selectedUsers opts);
          filteredRows = flowRows rows opts
      in \<lparr>fd_summary = buildSummary filteredRows,
          fd_flow = buildFlowGraph lc vs filteredRows metric role palette (bo_visibleStages opts) ctx
            (graphOptions opts),
          fd_filterOptions =
            \<lparr>fo_users = buildUserFilterOptions lc vs fmt rows metric palette,
             fo_nodes = buildNodeFilterOptions lc vs fmt userFilteredRows metric role
               (bo_visibleStages opts) palette ctx (bo_selectedNodes opts)\<rparr>\<rparr>)"

section \<open>The links handed to the chart\<close>

text \<open>\<open>Number(b)\<close> of an optional boolean.\<close>

definition num_of_flag :: "bool option \<Rightarrow> jsnum" where
  "num_of_flag b = (case b of None \<Rightarrow> NaN | Some v \<Rightarrow> Fin (if v then 1 else 0))"

definition byLinkDrawPriority ::
    "(jstr \<Rightarrow> jstr \<Rightarrow> jsnum) \<Rightarrow> DashboardFlowLink \<Rightarrow> DashboardFlowLink \<Rightarrow> jsnum" where
  "byLinkDrawPriority lc a b =
     num_or (js_sub (num_of_flag (l_dimmed a)) (num_of_flag (l_dimmed b)))
       (num_or (js_sub (num_of_flag (l_highlighted b)) (num_of_flag (l_highlighted a)))
         (num_or (js_sub (l_value b) (l_value a)) (lc (linkStableKey a) (linkStableKey b))))"

definition linkZIndex :: "nat \<Rightarrow> DashboardFlowLink \<Rightarrow> int" where
  "linkZIndex index link =
     (if l_highlighted link = Some True then 1000000 + int index
      else if l_dimmed link = Some True then int index else 100000 + int index)"

definition drawnLinks ::
    "(jstr \<Rightarrow> jstr \<Rightarrow> jsnum) \<Rightarrow> DashboardFlowGraph \<Rightarrow> (DashboardFlowLink \<times> int) list" where
  "drawnLinks lc flow =
     map (\<lambda>(index, link). (link, linkZIndex index link))
       (enumerate 0 (js_sort (byLinkDrawPriority lc)
          (filter (\<lambda>link. js_lt (Fin 0) (l_value link)) (g_links flow))))"

section \<open>Selection state of the flow view\<close>

datatype FlowDisplayState = DLoading | DError | DEmpty | DChart

record FlowResponse =
  fr_success :: bool
  fr_data :: "FlowQuotaDataItem list option"
  fr_message :: "jstr option"

text \<open>A thrown \<open>Error\<close> is \<open>Inl\<close> of its message.\<close>

definition requireSuccessfulFlowRows :: "FlowResponse \<Rightarrow> jstr \<Rightarrow> jstr + FlowQuotaDataItem list" where
  "requireSuccessfulFlowRows response fallbackMessage =
     (if \<not> fr_success response then Inl (str_or (fr_message response) fallbackMessage)
      else Inr (opt_or (fr_data response) []))"

definition flowDisplayState :: "bool \<Rightarrow> bool \<Rightarrow> nat \<Rightarrow> bool \<Rightarrow> FlowDisplayState" where
  "flowDisplayState isLoading isError linkCount themeReady =
     (if isLoading then DLoading else if isError then DError
      else if linkCount = 0 then DEmpty else if \<not> themeReady then DLoading else DChart)"

definition compactFlowSelectionLabel :: "int \<Rightarrow> jstr" where
  "compactFlowSelectionLabel cnt = (if 0 < cnt then num_str (jint cnt) else lit ''*'')"

definition visibleFlowUsers ::
    "FlowUserFilterOption list \<Rightarrow> jstr list \<Rightarrow> FlowUserFilterOption list" where
  "visibleFlowUsers users selectedUsers =
     (if selectedUsers = [] then users
      else filter (\<lambda>user. uo_value user \<in> set (uniq selectedUsers)) users)"

end
