(* ===== verification/Tally.thy ===== *)
theory Tally
  imports JS_Array
begin

text \<open>
  Running totals in an insertion-ordered \<open>Map\<close>.  Several parts of the program add up events
  under a key: the entry of a new key is made by \<open>fresh\<close>, and every event is added to its
  entry by \<open>bump\<close>.  The locale \<open>tally_laws\<close> states what such a client promises of its entries
  (a total that starts at zero and grows by the weight of each event, and a part that \<open>bump\<close>
  leaves alone); its lemmas give the final entry of every key, with exact integer totals as
  long as the weights of one key add up to at most $2^{53}$.
\<close>

section \<open>Integer weights\<close>

fun num_int :: "jsnum \<Rightarrow> int" where
  "num_int (Fin q) = \<lfloor>q\<rfloor>"
| "num_int _ = 0"

definition nat_num :: "jsnum \<Rightarrow> bool" where
  "nat_num x = (x = jint (num_int x) \<and> 0 \<le> num_int x)"

lemma num_int_jint [simp]: "num_int (jint k) = k"
  by simp

lemma nat_num_jint [simp]: "nat_num (jint k) \<longleftrightarrow> 0 \<le> k"
  by (simp add: nat_num_def)

lemma nat_num_0 [simp]: "nat_num (Fin 0)"
  by (simp add: nat_num_def)

lemma fold_js_add_nat:
  assumes "\<forall>x\<in>set xs. nat_num (w x)" "(\<Sum>x\<leftarrow>xs. num_int (w x)) \<le> 2 ^ 53"
  shows "fold (\<lambda>x s. js_add s (w x)) xs (Fin 0) = jint (\<Sum>x\<leftarrow>xs. num_int (w x))"
proof -
  have "fold (\<lambda>x s. js_add s (w x)) xs (Fin 0)
      = fold (\<lambda>x s. js_add s (jint (num_int (w x)))) xs (jint 0)"
    by (rule fold_cong) (use assms(1) in \<open>auto simp: nat_num_def\<close>)
  also have "(\<Sum>x\<leftarrow>xs. \<bar>num_int (w x)\<bar>) = (\<Sum>x\<leftarrow>xs. num_int (w x))"
    by (rule arg_cong [where f = sum_list], rule map_cong) (use assms(1) in \<open>auto simp: nat_num_def\<close>)
  then have "fold (\<lambda>x s. js_add s (jint (num_int (w x)))) xs (jint 0)
      = jint (0 + (\<Sum>x\<leftarrow>xs. num_int (w x)))"
    using assms(2) by (intro fold_js_add_jint) simp
  finally show ?thesis by simp
qed

lemma sum_num_int_nonneg: "\<forall>x\<in>set xs. nat_num (w x) \<Longrightarrow> 0 \<le> (\<Sum>x\<leftarrow>xs. num_int (w x))"
  by (rule sum_list_nonneg) (auto simp: nat_num_def)

lemma sum_filter_le:
  fixes w :: "'a \<Rightarrow> int"
  assumes "\<forall>x\<in>set xs. 0 \<le> w x"
  shows "(\<Sum>x\<leftarrow>filter P xs. w x) \<le> (\<Sum>x\<leftarrow>xs. w x)"
  using assms by (induction xs) auto

section \<open>The tally\<close>

definition tally ::
    "('e \<Rightarrow> 'k) \<Rightarrow> ('e \<Rightarrow> 'v) \<Rightarrow> ('e \<Rightarrow> 'v \<Rightarrow> 'v) \<Rightarrow> 'e list \<Rightarrow> ('k \<times> 'v) list" where
  "tally key fresh bump es =
     fold (\<lambda>e m. AList.update (key e) (bump e (opt_or (map_of m (key e)) (fresh e))) m) es []"

lemma map_fst_tally: "map fst (tally key fresh bump es) = uniq (map key es)"
  unfolding tally_def uniq_def by (subst map_fst_fold_update) simp

lemma distinct_tally [simp]: "distinct (map fst (tally key fresh bump es))"
  by (simp add: map_fst_tally)

lemma fold_Some:
  "fold (\<lambda>x old. Some (g x (opt_or old (h x)))) xs (Some v) = Some (fold g xs v)"
  by (induction xs arbitrary: v) simp_all

lemma map_of_tally:
  "map_of (tally key fresh bump es) k =
     (case filter (\<lambda>e. key e = k) es of
        [] \<Rightarrow> None
      | e # es' \<Rightarrow> Some (fold bump (e # es') (fresh e)))"
  unfolding tally_def
  by (subst js_map.get_fold_put_empty [where f = "\<lambda>x old. bump x (opt_or old (fresh x))"])
     (simp add: fold_Some split: list.splits)

lemma tally_entry:
  "(k, v) \<in> set (tally key fresh bump es) \<longleftrightarrow>
     (\<exists>e es'. filter (\<lambda>e. key e = k) es = e # es' \<and> v = fold bump (e # es') (fresh e))"
proof -
  have "(k, v) \<in> set (tally key fresh bump es) \<longleftrightarrow> map_of (tally key fresh bump es) k = Some v"
    by simp
  then show ?thesis unfolding map_of_tally by (auto split: list.splits)
qed

lemma fold_fold_map: "fold (\<lambda>x. fold g (h x)) xs s = fold g (concat (map h xs)) s"
  by (induction xs arbitrary: s) simp_all

locale tally_laws =
  fixes fresh :: "'e \<Rightarrow> 'v"
    and bump :: "'e \<Rightarrow> 'v \<Rightarrow> 'v"
    and val :: "'v \<Rightarrow> jsnum"
    and weight :: "'e \<Rightarrow> jsnum"
    and stat :: "'v \<Rightarrow> 's"
  assumes val_fresh: "val (fresh e) = Fin 0"
    and val_bump: "val (bump e v) = js_add (val v) (weight e)"
    and stat_bump: "stat (bump e v) = stat v"
begin

lemma val_fold_bump: "val (fold bump es v) = fold (\<lambda>e s. js_add s (weight e)) es (val v)"
  by (induction es arbitrary: v) (simp_all add: val_bump)

lemma stat_fold_bump: "stat (fold bump es v) = stat v"
  by (induction es arbitrary: v) (simp_all add: stat_bump)

lemma entry_stat:
  assumes "(k, v) \<in> set (tally key fresh bump es)"
  shows "\<exists>e\<in>set es. key e = k \<and> stat v = stat (fresh e)"
proof -
  obtain e es' where f: "filter (\<lambda>e. key e = k) es = e # es'" and v: "v = fold bump (e # es') (fresh e)"
    using assms by (auto simp: tally_entry)
  from f have "e \<in> set (filter (\<lambda>e. key e = k) es)" by simp
  then have "e \<in> set es" "key e = k" by simp_all
  moreover have "stat v = stat (fresh e)" unfolding v by (simp only: stat_fold_bump)
  ultimately show ?thesis by blast
qed

lemma entry_val:
  assumes "(k, v) \<in> set (tally key fresh bump es)" "\<forall>e\<in>set es. nat_num (weight e)"
    and "(\<Sum>e\<leftarrow>filter (\<lambda>e. key e = k) es. num_int (weight e)) \<le> 2 ^ 53"
  shows "val v = jint (\<Sum>e\<leftarrow>filter (\<lambda>e. key e = k) es. num_int (weight e))"
proof -
  obtain e es' where f: "filter (\<lambda>e. key e = k) es = e # es'" and v: "v = fold bump (e # es') (fresh e)"
    using assms(1) by (auto simp: tally_entry)
  have "val v = fold (\<lambda>e s. js_add s (weight e)) (filter (\<lambda>e. key e = k) es) (Fin 0)"
    unfolding v f by (simp only: val_fold_bump val_fresh)
  also have "\<dots> = jint (\<Sum>e\<leftarrow>filter (\<lambda>e. key e = k) es. num_int (weight e))"
    by (rule fold_js_add_nat) (use assms in auto)
  finally show ?thesis .
qed

text \<open>Selected entries add up to the weights of the events whose key is selected.\<close>

lemma sum_entries:
  assumes "\<forall>e\<in>set es. nat_num (weight e)"
    and "\<And>k. (\<Sum>e\<leftarrow>filter (\<lambda>e. key e = k) es. num_int (weight e)) \<le> 2 ^ 53"
  shows "(\<Sum>kv\<leftarrow>filter (\<lambda>kv. P (fst kv)) (tally key fresh bump es). num_int (val (snd kv)))
       = (\<Sum>e\<leftarrow>filter (\<lambda>e. P (key e)) es. num_int (weight e))"
proof -
  let ?t = "tally key fresh bump es" and ?es = "filter (\<lambda>e. P (key e)) es"
  let ?sum = "\<lambda>k. \<Sum>e\<leftarrow>filter (\<lambda>e. key e = k) ?es. num_int (weight e)"
  have "num_int (val (snd kv)) = ?sum (fst kv)" if "kv \<in> set (filter (\<lambda>kv. P (fst kv)) ?t)" for kv
  proof -
    obtain k v where kv: "kv = (k, v)" by (cases kv)
    with that have mem: "(k, v) \<in> set ?t" and P: "P k" by auto
    have "filter (\<lambda>e. key e = k) ?es = filter (\<lambda>e. key e = k) es"
      using P by (auto simp: filter_filter intro: filter_cong)
    with entry_val [OF mem assms(1,2)] show ?thesis by (simp add: kv)
  qed
  then have "(\<Sum>kv\<leftarrow>filter (\<lambda>kv. P (fst kv)) ?t. num_int (val (snd kv)))
      = (\<Sum>kv\<leftarrow>filter (\<lambda>kv. P (fst kv)) ?t. ?sum (fst kv))"
    by (intro arg_cong [where f = sum_list] map_cong) auto
  also have "\<dots> = (\<Sum>k\<leftarrow>map fst (filter (\<lambda>kv. P (fst kv)) ?t). ?sum k)"
    by (simp add: comp_def)
  also have "map fst (filter (\<lambda>kv. P (fst kv)) ?t) = filter P (map fst ?t)"
    by (simp add: filter_map comp_def)
  also have "map fst ?t = uniq (map key es)" by (rule map_fst_tally)
  also have "(\<Sum>k\<leftarrow>filter P (uniq (map key es)). ?sum k) = (\<Sum>e\<leftarrow>?es. num_int (weight e))"
    by (rule sum_list_by_key) auto
  finally show ?thesis .
qed

end

end
