(* ===== verification/Flow_Graph.thy ===== *)
theory Flow_Graph
  imports Flow_Model Tally
begin

text \<open>
  Correctness of the flow graph of \<open>Flow_Model\<close>: what a graph built from usage rows contains
  and how its totals relate to the rows.  The accumulation of nodes and links is a tally (the
  laws of \<open>Tally\<close> are interpreted for both), the ids carry their stage (\<open>id_kind\<close>), and the
  later passes (masking, highlighting, sorting, sharing, colouring) leave ids and totals alone.
\<close>

section \<open>Ids carry their stage\<close>

definition id_kind :: "jstr \<Rightarrow> jstr" where
  "id_kind i = takeWhile (\<lambda>c. c \<noteq> 58) i"

definition well_kinded :: "FlowPathNode \<Rightarrow> bool" where
  "well_kinded node = (id_kind (pn_id node) = kind_str (pn_kind node))"

lemma kind_str_inj: "kind_str k = kind_str k' \<longleftrightarrow> k = k'"
  by (cases k; cases k') (simp_all add: lit_simps)

lemma id_kind_lit [simp]:
  "id_kind (lit ''user:'' @ s) = kind_str KUser" "id_kind (lit ''node:'' @ s) = kind_str KNode"
  "id_kind (lit ''token:'' @ s) = kind_str KToken" "id_kind (lit ''group:'' @ s) = kind_str KGroup"
  "id_kind (lit ''model:'' @ s) = kind_str KModel"
  "id_kind (lit ''channel:'' @ s) = kind_str KChannel"
  by (simp_all add: id_kind_def lit_simps)

lemma id_kind_other [simp]: "id_kind (OTHER_FLOW_NODE_IDS k) = kind_str k"
  by (cases k) (simp_all add: id_kind_def lit_simps)

lemmas node_builder_defs =
  userNode_def nodeNameNode_def tokenNode_def groupNode_def modelNode_def channelNode_def

lemma node_builder [simp]:
  "pn_kind (NODE_BUILDERS k row ctx) = k" "well_kinded (NODE_BUILDERS k row ctx)"
  by (cases k; simp add: well_kinded_def node_builder_defs Let_def)+

lemma other_node [simp]:
  "pn_kind (otherFlowNode k f) = k" "well_kinded (otherFlowNode k f)"
  by (simp_all add: otherFlowNode_def well_kinded_def)

lemma well_kinded_same_id:
  "well_kinded a \<Longrightarrow> well_kinded b \<Longrightarrow> pn_id a = pn_id b \<Longrightarrow> pn_kind a = pn_kind b"
  by (metis kind_str_inj well_kinded_def)

section \<open>Stages and paths\<close>

lemma resolveVisibleStages_props:
  "distinct (resolveVisibleStages role vis)" "2 \<le> length (resolveVisibleStages role vis)"
  "set (resolveVisibleStages role vis) \<subseteq> set (getFlowStages role)"
  by (cases role; simp add: resolveVisibleStages_def Let_def MIN_FLOW_STAGES_def split: option.split)+

definition stage_path :: "FlowNodeKind list \<Rightarrow> FlowPathNode list \<Rightarrow> bool" where
  "stage_path stages p = (map pn_kind p = stages \<and> list_all well_kinded p)"

lemma stage_path_row: "stage_path stages (flowPathForStages row stages ctx)"
  by (simp add: stage_path_def flowPathForStages_def list_all_iff comp_def)

lemma stage_path_limit:
  assumes "applyTopNodeLimit p tops mode f = Some p'" "stage_path stages p"
  shows "stage_path stages p'"
  using assms
  by (auto simp: applyTopNodeLimit_def stage_path_def list_all_iff comp_def if_distrib [of pn_kind]
      split: option.splits if_splits)

lemma stage_path_prepared:
  "prep \<in> set (preparePaths rows stages ctx tops mode f) \<Longrightarrow> stage_path stages (path prep)"
  by (auto simp: preparePaths_def split: option.splits
      intro: stage_path_limit [OF _ stage_path_row] dest!: sym [of "Some _"])

lemma metrics_prepared:
  "prep \<in> set (preparePaths rows stages ctx tops mode f) \<Longrightarrow> \<exists>row\<in>set rows. metrics prep = rowMetrics row"
  by (auto simp: preparePaths_def split: option.splits)

text \<open>Unless overflow is hidden, every row has a path, with the row's metrics.\<close>

lemma prepared_all:
  assumes "tops = None \<or> mode \<noteq> Hide"
  shows "map metrics (preparePaths rows stages ctx tops mode f) = map rowMetrics rows"
proof -
  have "applyTopNodeLimit p tops mode f \<noteq> None" for p
    using assms by (auto simp: applyTopNodeLimit_def split: option.splits)
  then show ?thesis
    by (induction rows) (auto simp: preparePaths_def split: option.splits)
qed

lemma prepared_sum_le:
  fixes w :: "FlowMetrics \<Rightarrow> int"
  assumes "\<forall>row\<in>set rows. 0 \<le> w (rowMetrics row)"
  shows "(\<Sum>prep\<leftarrow>preparePaths rows stages ctx tops mode f. w (metrics prep))
       \<le> (\<Sum>row\<leftarrow>rows. w (rowMetrics row))"
  using assms by (induction rows) (auto simp: preparePaths_def split: option.splits)

section \<open>Events\<close>

type_synonym 'x flow_event = "'x \<times> FlowMetrics \<times> jstr"

definition nodeEvents :: "PreparedFlowPath list \<Rightarrow> FlowPathNode flow_event list" where
  "nodeEvents preps =
     concat (map (\<lambda>prep. map (\<lambda>node. (node, metrics prep, pn_id (hd (path prep)))) (path prep)) preps)"

definition linkEvents :: "PreparedFlowPath list \<Rightarrow> (FlowPathNode \<times> FlowPathNode) flow_event list" where
  "linkEvents preps =
     concat (map (\<lambda>prep. map (\<lambda>ab. (ab, metrics prep, pn_id (hd (path prep)))) (adjacent (path prep)))
       preps)"

definition freshNode :: "(jstr \<Rightarrow> jstr) \<Rightarrow> FlowPathNode flow_event \<Rightarrow> DashboardFlowNode" where
  "freshNode col e = newNode (fst e) (col (snd (snd e))) (snd (snd e))"

definition freshLink :: "(jstr \<Rightarrow> jstr) \<Rightarrow> (FlowPathNode \<times> FlowPathNode) flow_event \<Rightarrow> DashboardFlowLink" where
  "freshLink col e = newLink (fst (fst e)) (snd (fst e)) (col (snd (snd e))) (snd (snd e))"

definition linkKey :: "(FlowPathNode \<times> FlowPathNode) flow_event \<Rightarrow> jstr" where
  "linkKey e = pathLinkKey (fst (fst e)) (snd (fst e))"

abbreviation eventWeight :: "FlowMetric \<Rightarrow> 'x flow_event \<Rightarrow> jsnum" where
  "eventWeight metric e \<equiv> metricValue (fst (snd e)) metric"

lemma accumulateNodes_tally:
  "accumulateNodes metric col preps =
     tally (\<lambda>e. pn_id (fst e)) (freshNode col) (\<lambda>e. bumpNode (fst (snd e)) metric) (nodeEvents preps)"
proof -
  let ?add = "\<lambda>e m. addNode (fst e) (fst (snd e)) metric (col (snd (snd e))) (snd (snd e)) m"
  have "(case path prep of [] \<Rightarrow> m
         | first # _ \<Rightarrow> fold (\<lambda>node m. addNode node (metrics prep) metric (col (pn_id first)) (pn_id first) m)
                       (path prep) m)
      = fold ?add (map (\<lambda>node. (node, metrics prep, pn_id (hd (path prep)))) (path prep)) m" for prep m
    by (cases "path prep") (simp_all add: fold_map comp_def)
  then have "accumulateNodes metric col preps = fold ?add (nodeEvents preps) []"
    unfolding accumulateNodes_def nodeEvents_def fold_fold_map [symmetric] by (intro fold_cong refl ext)
  then show ?thesis by (simp add: tally_def addNode_def freshNode_def)
qed

lemma accumulateLinks_tally:
  "accumulateLinks metric col preps =
     tally linkKey (freshLink col) (\<lambda>e. bumpLink (fst (snd e)) metric) (linkEvents preps)"
proof -
  let ?add = "\<lambda>e m. addLink (fst (fst e)) (snd (fst e)) (fst (snd e)) metric (col (snd (snd e))) (snd (snd e)) m"
  have "(case path prep of [] \<Rightarrow> m
         | first # _ \<Rightarrow> fold (\<lambda>(a, b) m. addLink a b (metrics prep) metric (col (pn_id first)) (pn_id first) m)
                       (adjacent (path prep)) m)
      = fold ?add (map (\<lambda>ab. (ab, metrics prep, pn_id (hd (path prep)))) (adjacent (path prep))) m" for prep m
    by (cases "path prep") (simp_all add: fold_map comp_def case_prod_unfold)
  then have "accumulateLinks metric col preps = fold ?add (linkEvents preps) []"
    unfolding accumulateLinks_def linkEvents_def fold_fold_map [symmetric] by (intro fold_cong refl ext)
  then show ?thesis by (simp add: tally_def addLink_def freshLink_def linkKey_def)
qed

interpretation node_tally:
  tally_laws "freshNode col" "\<lambda>e. bumpNode (fst (snd e)) metric" n_value "eventWeight metric"
    "\<lambda>n. (n_id n, n_label n, n_kind n)"
  by unfold_locales (simp_all add: freshNode_def newNode_def bumpNode_def)

interpretation link_tally:
  tally_laws "freshLink col" "\<lambda>e. bumpLink (fst (snd e)) metric" l_value "eventWeight metric"
    "\<lambda>l. (l_source l, l_target l, l_sourceLabel l, l_targetLabel l)"
  by unfold_locales (simp_all add: freshLink_def newLink_def bumpLink_def)

section \<open>Sums over events\<close>

definition exactRows :: "FlowMetric \<Rightarrow> FlowQuotaDataItem list \<Rightarrow> bool" where
  "exactRows metric rows =
     (list_all (\<lambda>row. nat_num (metricValue (rowMetrics row) metric)) rows
      \<and> (\<Sum>row\<leftarrow>rows. num_int (metricValue (rowMetrics row) metric)) \<le> 2 ^ 53)"

definition idsPlain :: "FlowQuotaDataItem list \<Rightarrow> FlowNodeKind list \<Rightarrow> flow_ctx \<Rightarrow> bool" where
  "idsPlain rows stages ctx =
     list_all (\<lambda>row. list_all (\<lambda>node. 0 \<notin> set (pn_id node)) (flowPathForStages row stages ctx)) rows"

abbreviation prepWeight :: "FlowMetric \<Rightarrow> PreparedFlowPath \<Rightarrow> int" where
  "prepWeight metric prep \<equiv> num_int (metricValue (metrics prep) metric)"

lemma sum_const_list: "(\<Sum>x\<leftarrow>xs. c) = c * int (length xs)"
  by (induction xs) (simp_all add: algebra_simps)

lemma sum_nodeEvents:
  "(\<Sum>e\<leftarrow>filter (\<lambda>e. P (fst e)) (nodeEvents preps). num_int (eventWeight metric e))
     = (\<Sum>prep\<leftarrow>preps. prepWeight metric prep * int (length (filter P (path prep))))"
  by (induction preps) (simp_all add: nodeEvents_def filter_map comp_def sum_const_list)

lemma sum_linkEvents:
  "(\<Sum>e\<leftarrow>filter (\<lambda>e. P (fst e)) (linkEvents preps). num_int (eventWeight metric e))
     = (\<Sum>prep\<leftarrow>preps. prepWeight metric prep * int (length (filter P (adjacent (path prep)))))"
  by (induction preps) (simp_all add: linkEvents_def filter_map comp_def sum_const_list)

lemma stage_path_ids_distinct:
  assumes "stage_path stages p" "distinct stages"
  shows "distinct (map pn_id p)"
proof -
  have "distinct (map pn_kind p)" "\<forall>n\<in>set p. well_kinded n"
    using assms by (auto simp: stage_path_def list_all_iff)
  then show ?thesis
    by (simp add: distinct_map inj_on_def) (metis well_kinded_same_id)
qed

lemma distinct_filter_key_le1: "distinct (map f xs) \<Longrightarrow> length (filter (\<lambda>x. f x = k) xs) \<le> 1"
  by (induction xs) (auto simp: filter_empty_conv, metis imageI)

lemma filter_kind_path:
  assumes "stage_path stages p" "distinct stages" "k \<in> set stages"
  shows "length (filter (\<lambda>n. pn_kind n = k) p) = 1"
proof -
  have p: "map pn_kind p = stages" using assms(1) by (simp add: stage_path_def)
  have "length (filter (\<lambda>n. pn_kind n = k) p) \<le> 1"
    by (rule distinct_filter_key_le1) (use p assms(2) in simp)
  moreover have "filter (\<lambda>n. pn_kind n = k) p \<noteq> []"
    using assms(3) p by (auto simp: filter_empty_conv)
  then have "length (filter (\<lambda>n. pn_kind n = k) p) \<noteq> 0" by simp
  ultimately show ?thesis by linarith
qed

lemma length_filter_comp: "length (filter (\<lambda>x. P (f x)) xs) = length (filter P (map f xs))"
  by (simp add: filter_map comp_def)

lemma adjacent_source_count:
  assumes "p \<noteq> []" "pn_id (last p) \<noteq> i"
  shows "length (filter (\<lambda>ab. pn_id (fst ab) = i) (adjacent p)) = length (filter (\<lambda>n. pn_id n = i) p)"
proof -
  have "filter (\<lambda>n. pn_id n = i) p = filter (\<lambda>n. pn_id n = i) (butlast p @ [last p])"
    using assms(1) by simp
  also have "\<dots> = filter (\<lambda>n. pn_id n = i) (butlast p)"
    using assms(2) by (simp only: filter_append) simp
  finally have "length (filter (\<lambda>n. pn_id n = i) p)
      = length (filter (\<lambda>n. pn_id n = i) (map fst (adjacent p)))"
    by (simp add: map_fst_adjacent)
  then show ?thesis by (simp add: filter_map comp_def)
qed

lemma adjacent_target_count:
  assumes "p \<noteq> []" "pn_id (hd p) \<noteq> i"
  shows "length (filter (\<lambda>ab. pn_id (snd ab) = i) (adjacent p)) = length (filter (\<lambda>n. pn_id n = i) p)"
proof -
  have "filter (\<lambda>n. pn_id n = i) p = filter (\<lambda>n. pn_id n = i) (tl p)"
    using assms by (cases p) auto
  then have "length (filter (\<lambda>n. pn_id n = i) p)
      = length (filter (\<lambda>n. pn_id n = i) (map snd (adjacent p)))"
    by (simp add: map_snd_adjacent)
  then show ?thesis by (simp add: filter_map comp_def)
qed

section \<open>The passes after accumulation\<close>

abbreviation graphPaths where
  "graphPaths lc rows metric role vis ctx opts \<equiv>
     preparePaths rows (resolveVisibleStages role vis) ctx
       (buildTopNodeSets lc rows metric (resolveVisibleStages role vis)
         (normalizeTopNodeLimit (go_topNodeLimit opts)) ctx)
       (opt_or (go_overflowMode opts) DEFAULT_FLOW_OVERFLOW_MODE) (go_otherNodeLabel opts)"

abbreviation graphColor where
  "graphColor lc vs palette preps \<equiv>
     rootColor vs palette (stableColorMap vs (js_sort lc (rootIds preps)) palette)"

definition finishNode :: "bool \<Rightarrow> FlowHighlightSets option \<Rightarrow> DashboardFlowNode \<Rightarrow> DashboardFlowNode" where
  "finishNode masking hs node =
     (case hs of None \<Rightarrow> id | Some s \<Rightarrow> highlightNode s) (if masking then maskNode node else node)"

definition finishLink ::
    "bool \<Rightarrow> (jstr \<times> jstr) list \<Rightarrow> FlowHighlightSets option \<Rightarrow> DashboardFlowLink \<Rightarrow> DashboardFlowLink" where
  "finishLink masking masked hs link =
     (case hs of None \<Rightarrow> id | Some s \<Rightarrow> highlightLink s) (if masking then maskLink masked link else link)"

lemma finishNode_fields [flow_simps]:
  "n_id (finishNode m hs n) = n_id n" "n_kind (finishNode m hs n) = n_kind n"
  "n_value (finishNode m hs n) = n_value n"
  by (simp_all add: finishNode_def maskNode_def highlightNode_def split: option.split)

lemma finishLink_fields [flow_simps]:
  "l_source (finishLink m d hs l) = l_source l" "l_target (finishLink m d hs l) = l_target l"
  "l_value (finishLink m d hs l) = l_value l" "linkStableKey (finishLink m d hs l) = linkStableKey l"
  by (simp_all add: finishLink_def maskLink_def highlightLink_def linkStableKey_def split: option.split)

definition paintLink ::
    "(jstr \<Rightarrow> jstr \<Rightarrow> jsnum) \<Rightarrow> DashboardFlowLink list \<Rightarrow> DashboardFlowLink \<Rightarrow> DashboardFlowLink" where
  "paintLink lc links link = (case map_of (concat (map (\<lambda>src.
            let sortedLinks = js_sort (byLinkValue lc) (filter (\<lambda>l. l_source l = src) links)
            in map (displayOf (length sortedLinks)) (enumerate 0 sortedLinks))
          (uniq (map l_source links)))) (linkStableKey link) of
                None \<Rightarrow> link
              | Some (c, a) \<Rightarrow> link\<lparr>l_linkColor := c, l_linkAlpha := a, l_hoverColor := l_color link\<rparr>)"

lemma assign_paint: "assignLinkDisplayColors lc links = map (paintLink lc links) links"
  by (simp add: assignLinkDisplayColors_def paintLink_def Let_def)

lemma paintLink_fields [flow_simps]:
  "l_source (paintLink lc ls l) = l_source l" "l_target (paintLink lc ls l) = l_target l"
  "l_value (paintLink lc ls l) = l_value l" "l_share (paintLink lc ls l) = l_share l"
  "l_sourceLabel (paintLink lc ls l) = l_sourceLabel l"
  "l_targetLabel (paintLink lc ls l) = l_targetLabel l"
  "l_highlighted (paintLink lc ls l) = l_highlighted l" "l_dimmed (paintLink lc ls l) = l_dimmed l"
  by (simp_all add: paintLink_def split: option.split prod.split)

lemma setShare_fields [flow_simps]:
  "l_source (setShare t l) = l_source l" "l_target (setShare t l) = l_target l"
  "l_value (setShare t l) = l_value l" "l_sourceLabel (setShare t l) = l_sourceLabel l"
  "l_targetLabel (setShare t l) = l_targetLabel l"
  "l_highlighted (setShare t l) = l_highlighted l" "l_dimmed (setShare t l) = l_dimmed l"
  by (simp_all add: setShare_def)

text \<open>The graph as passes over the accumulated nodes and links.\<close>

abbreviation graphHighlights where
  "graphHighlights preps opts stages \<equiv>
     buildFlowHighlightSets preps (go_activeNode opts) (go_activeLink opts) stages"

lemma maskLink_Nil: "maskLink [] l = l"
  by (simp add: maskLink_def)

lemma buildFlowGraph_nodes:
  assumes "preps = graphPaths lc rows metric role vis ctx opts"
    and "hs = graphHighlights preps opts (resolveVisibleStages role vis)"
  shows "g_nodes (buildFlowGraph lc vs rows metric role palette vis ctx opts) =
    js_sort (byValueThenLabel lc) (map (finishNode (go_maskSensitive opts) hs)
      (map snd (accumulateNodes metric (graphColor lc vs palette preps) preps)))"
  unfolding buildFlowGraph_def assms(2)
  by (simp add: assms(1) Let_def maskFlowGraphLabels_def applyFlowHighlights_def finishNode_def comp_def
      split: option.split prod.split)

definition rawLinks where
  "rawLinks lc vs metric palette preps = map snd (accumulateLinks metric (graphColor lc vs palette preps) preps)"

lemma buildFlowGraph_links:
  assumes "preps = graphPaths lc rows metric role vis ctx opts"
    and "hs = graphHighlights preps opts (resolveVisibleStages role vis)"
    and "nodes = accumulateNodes metric (graphColor lc vs palette preps) preps"
    and "flow = js_sort (bySourceTarget lc)
      (map (finishLink (go_maskSensitive opts) (maskedById (map snd nodes)) hs)
        (rawLinks lc vs metric palette preps))"
  shows "g_links (buildFlowGraph lc vs rows metric role palette vis ctx opts) =
    map (paintLink lc (map (setShare (firstStepTotal (rootIds preps) flow)) flow) \<circ>
      setShare (firstStepTotal (rootIds preps) flow)) flow"
  unfolding buildFlowGraph_def assms(2,3,4) rawLinks_def
  by (simp add: assms(1) Let_def maskFlowGraphLabels_def applyFlowHighlights_def finishLink_def comp_def
      assign_paint maskLink_Nil split: option.split prod.split)

section \<open>Conservation\<close>

definition flowPrepared :: "FlowMetric \<Rightarrow> FlowNodeKind list \<Rightarrow> PreparedFlowPath list \<Rightarrow> bool" where
  "flowPrepared metric stages preps =
     (distinct stages \<and> stages \<noteq> [] \<and>
      (\<forall>prep\<in>set preps. stage_path stages (path prep) \<and> nat_num (metricValue (metrics prep) metric)
         \<and> (\<forall>node\<in>set (path prep). 0 \<notin> set (pn_id node))) \<and>
      (\<Sum>prep\<leftarrow>preps. prepWeight metric prep) \<le> 2 ^ 53)"

lemma flowPrepared_D:
  assumes "flowPrepared metric stages preps"
  shows "distinct stages" "stages \<noteq> []" "(\<Sum>prep\<leftarrow>preps. prepWeight metric prep) \<le> 2 ^ 53"
    and "prep \<in> set preps \<Longrightarrow> stage_path stages (path prep)"
    and "prep \<in> set preps \<Longrightarrow> nat_num (metricValue (metrics prep) metric)"
    and "prep \<in> set preps \<Longrightarrow> node \<in> set (path prep) \<Longrightarrow> 0 \<notin> set (pn_id node)"
    and "prep \<in> set preps \<Longrightarrow> path prep \<noteq> []"
  using assms by (auto simp: flowPrepared_def stage_path_def)

lemma other_id_plain: "0 \<notin> set (OTHER_FLOW_NODE_IDS k)"
  by (cases k) (simp_all add: lit_simps)

lemma prepared_plain:
  assumes "idsPlain rows stages ctx" "prep \<in> set (preparePaths rows stages ctx tops mode f)"
    "node \<in> set (path prep)"
  shows "0 \<notin> set (pn_id node)"
proof -
  obtain row where row: "row \<in> set rows"
    and lim: "applyTopNodeLimit (flowPathForStages row stages ctx) tops mode f = Some (path prep)"
    using assms(2) by (auto simp: preparePaths_def split: option.splits)
  have "node \<in> set (flowPathForStages row stages ctx) \<or> (\<exists>k. node = otherFlowNode k f)"
    using lim assms(3)
    by (auto simp: applyTopNodeLimit_def split: option.splits if_splits dest!: sym [of "map _ _"])
  then show ?thesis
    using assms(1) row by (auto simp: idsPlain_def list_all_iff otherFlowNode_def other_id_plain)
qed

lemma flowPrepared_rows:
  assumes "exactRows metric rows" "idsPlain rows stages ctx" "distinct stages" "stages \<noteq> []"
  shows "flowPrepared metric stages (preparePaths rows stages ctx tops mode f)"
proof -
  let ?preps = "preparePaths rows stages ctx tops mode f"
  have nat: "nat_num (metricValue (rowMetrics row) metric)" if "row \<in> set rows" for row
    using assms(1) that by (auto simp: exactRows_def list_all_iff)
  have "(\<Sum>prep\<leftarrow>?preps. prepWeight metric prep)
      \<le> (\<Sum>row\<leftarrow>rows. num_int (metricValue (rowMetrics row) metric))"
    using prepared_sum_le [of rows "\<lambda>m. num_int (metricValue m metric)" stages ctx tops mode f] nat
    by (auto simp: nat_num_def)
  moreover have "nat_num (metricValue (metrics prep) metric)" if "prep \<in> set ?preps" for prep
    using metrics_prepared [OF that] nat by auto
  ultimately show ?thesis
    using assms by (auto simp: flowPrepared_def exactRows_def
        intro: stage_path_prepared dest: prepared_plain)
qed

lemma prep_sum_mono:
  assumes "flowPrepared metric stages preps" "\<And>prep. prep \<in> set preps \<Longrightarrow> g prep \<le> (1::nat)"
  shows "(\<Sum>prep\<leftarrow>preps. prepWeight metric prep * int (g prep)) \<le> (\<Sum>prep\<leftarrow>preps. prepWeight metric prep)"
proof (rule sum_list_mono)
  fix prep assume prep: "prep \<in> set preps"
  then have "0 \<le> prepWeight metric prep" "int (g prep) \<le> 1"
    using flowPrepared_D(5) [OF assms(1)] assms(2) by (auto simp: nat_num_def)
  then show "prepWeight metric prep * int (g prep) \<le> prepWeight metric prep"
    by (simp add: mult_left_le)
qed

lemma node_sum_bound:
  assumes "flowPrepared metric stages preps"
  shows "(\<Sum>e\<leftarrow>filter (\<lambda>e. pn_id (fst e) = i) (nodeEvents preps). num_int (eventWeight metric e)) \<le> 2 ^ 53"
proof -
  have "length (filter (\<lambda>n. pn_id n = i) (path prep)) \<le> 1" if "prep \<in> set preps" for prep
    using distinct_filter_key_le1 [OF stage_path_ids_distinct] flowPrepared_D [OF assms] that by blast
  then show ?thesis
    using prep_sum_mono [OF assms] flowPrepared_D(3) [OF assms]
    unfolding sum_nodeEvents [where P = "\<lambda>n. pn_id n = i"] by (meson order_trans)
qed

lemma plain_key_source: "0 \<notin> set a \<Longrightarrow> takeWhile (\<lambda>c. c \<noteq> 0) (a @ 0 # b) = (a :: jstr)"
  by (induction a) auto

lemma plain_key_target: "0 \<notin> set a \<Longrightarrow> tl (dropWhile (\<lambda>c. c \<noteq> 0) (a @ 0 # b)) = (b :: jstr)"
  by (induction a) auto

lemma plain_key_inj:
  "0 \<notin> set a \<Longrightarrow> 0 \<notin> set a' \<Longrightarrow> a @ 0 # b = a' @ 0 # (b' :: jstr) \<longleftrightarrow> a = a' \<and> b = b'"
  by (metis plain_key_source plain_key_target)

lemma link_keys_distinct:
  assumes "stage_path stages p" "distinct stages" "\<forall>n\<in>set p. 0 \<notin> set (pn_id n)"
  shows "distinct (map (\<lambda>ab. pathLinkKey (fst ab) (snd ab)) (adjacent p))"
proof -
  have "distinct (butlast (map pn_id p))"
    using stage_path_ids_distinct [OF assms(1,2)] by (rule distinct_butlast)
  then have d: "distinct (map (\<lambda>ab. pn_id (fst ab)) (adjacent p))"
    by (simp add: map_butlast [symmetric] map_fst_adjacent [symmetric] adjacent_map comp_def)
  have "map (\<lambda>ab. pn_id (fst ab)) (adjacent p)
      = map (takeWhile (\<lambda>c. c \<noteq> 0)) (map (\<lambda>ab. pathLinkKey (fst ab) (snd ab)) (adjacent p))"
    using assms(3) by (auto simp: pathLinkKey_def plain_key_source comp_def dest: in_adjacent_set)
  with d have "distinct (map (takeWhile (\<lambda>c. c \<noteq> 0)) (map (\<lambda>ab. pathLinkKey (fst ab) (snd ab)) (adjacent p)))"
    by metis
  then show ?thesis by (simp only: distinct_map)
qed

lemma link_sum_bound:
  assumes "flowPrepared metric stages preps"
  shows "(\<Sum>e\<leftarrow>filter (\<lambda>e. linkKey e = k) (linkEvents preps). num_int (eventWeight metric e)) \<le> 2 ^ 53"
proof -
  have "length (filter (\<lambda>ab. pathLinkKey (fst ab) (snd ab) = k) (adjacent (path prep))) \<le> 1"
    if "prep \<in> set preps" for prep
    using distinct_filter_key_le1 [OF link_keys_distinct] flowPrepared_D [OF assms] that by blast
  then show ?thesis
    using prep_sum_mono [OF assms] flowPrepared_D(3) [OF assms]
    unfolding linkKey_def sum_linkEvents [where P = "\<lambda>ab. pathLinkKey (fst ab) (snd ab) = k"]
    by (meson order_trans)
qed

lemma in_nodeEvents: "e \<in> set (nodeEvents preps) \<Longrightarrow>
    \<exists>prep\<in>set preps. fst e \<in> set (path prep) \<and> fst (snd e) = metrics prep"
  by (auto simp: nodeEvents_def)

lemma in_linkEvents: "e \<in> set (linkEvents preps) \<Longrightarrow>
    \<exists>prep\<in>set preps. fst e \<in> set (adjacent (path prep)) \<and> fst (snd e) = metrics prep"
  by (auto simp: linkEvents_def)

lemma events_nat:
  assumes "flowPrepared metric stages preps"
  shows "\<forall>e\<in>set (nodeEvents preps). nat_num (eventWeight metric e)"
    and "\<forall>e\<in>set (linkEvents preps). nat_num (eventWeight metric e)"
  using flowPrepared_D(5) [OF assms] by (auto dest!: in_nodeEvents in_linkEvents)

text \<open>The accumulated nodes and links.\<close>

lemma accumulated_node:
  assumes "flowPrepared metric stages preps" "n \<in> set (map snd (accumulateNodes metric col preps))"
  shows "n_value n = jint (\<Sum>prep\<leftarrow>preps. prepWeight metric prep
           * int (length (filter (\<lambda>m. pn_id m = n_id n) (path prep))))"
    and "\<exists>prep\<in>set preps. \<exists>m\<in>set (path prep). well_kinded m \<and> pn_id m = n_id n \<and> pn_kind m = n_kind n
           \<and> pn_label m = n_label n"
proof -
  obtain i where i: "(i, n) \<in> set (tally (\<lambda>e. pn_id (fst e)) (freshNode col)
      (\<lambda>e. bumpNode (fst (snd e)) metric) (nodeEvents preps))"
    using assms(2) by (auto simp: accumulateNodes_tally)
  obtain e where e: "e \<in> set (nodeEvents preps)" "pn_id (fst e) = i"
    "(n_id n, n_label n, n_kind n) = (pn_id (fst e), pn_label (fst e), pn_kind (fst e))"
    using node_tally.entry_stat [OF i] by (auto simp: freshNode_def newNode_def)
  then have ni: "i = n_id n" by simp
  show "n_value n = jint (\<Sum>prep\<leftarrow>preps. prepWeight metric prep
           * int (length (filter (\<lambda>m. pn_id m = n_id n) (path prep))))"
    using node_tally.entry_val [OF i events_nat(1) [OF assms(1)] node_sum_bound [OF assms(1)]]
    unfolding ni sum_nodeEvents [where P = "\<lambda>m. pn_id m = n_id n"] .
  obtain prep where prep: "prep \<in> set preps" "fst e \<in> set (path prep)"
    using in_nodeEvents [OF e(1)] by blast
  moreover have "well_kinded (fst e)"
    using flowPrepared_D(4) [OF assms(1) prep(1)] prep(2) by (auto simp: stage_path_def list_all_iff)
  ultimately show "\<exists>prep\<in>set preps. \<exists>m\<in>set (path prep). well_kinded m \<and> pn_id m = n_id n
      \<and> pn_kind m = n_kind n \<and> pn_label m = n_label n"
    using e(3) by (intro bexI [OF _ prep(1)] bexI [OF _ prep(2)]) auto
qed

lemma accumulated_link:
  assumes "(k, l) \<in> set (accumulateLinks metric col preps)"
  shows "k = linkStableKey l"
    and "\<exists>prep\<in>set preps. \<exists>(a, b)\<in>set (adjacent (path prep)). pn_id a = l_source l \<and> pn_id b = l_target l
      \<and> pn_label a = l_sourceLabel l \<and> pn_label b = l_targetLabel l"
proof -
  have i: "(k, l) \<in> set (tally linkKey (freshLink col) (\<lambda>e. bumpLink (fst (snd e)) metric) (linkEvents preps))"
    using assms by (simp add: accumulateLinks_tally)
  obtain e where e: "e \<in> set (linkEvents preps)" "linkKey e = k"
    "l_source l = pn_id (fst (fst e))" "l_target l = pn_id (snd (fst e))"
    "l_sourceLabel l = pn_label (fst (fst e))" "l_targetLabel l = pn_label (snd (fst e))"
    using link_tally.entry_stat [OF i] by (auto simp: freshLink_def newLink_def)
  show "k = linkStableKey l" using e by (simp add: linkKey_def pathLinkKey_def linkStableKey_def)
  show "\<exists>prep\<in>set preps. \<exists>(a, b)\<in>set (adjacent (path prep)). pn_id a = l_source l \<and> pn_id b = l_target l
      \<and> pn_label a = l_sourceLabel l \<and> pn_label b = l_targetLabel l"
    using in_linkEvents [OF e(1)] e by (auto simp: case_prod_unfold)
qed

lemma accumulated_link_nat:
  assumes "flowPrepared metric stages preps" "(k, l) \<in> set (accumulateLinks metric col preps)"
  shows "nat_num (l_value l)" "num_int (l_value l) \<le> (\<Sum>prep\<leftarrow>preps. prepWeight metric prep)"
proof -
  note nat = events_nat(2) [OF assms(1)]
  let ?s = "\<Sum>e\<leftarrow>filter (\<lambda>e. linkKey e = k) (linkEvents preps). num_int (eventWeight metric e)"
  have v: "l_value l = jint ?s"
    using link_tally.entry_val [OF assms(2) [unfolded accumulateLinks_tally] nat link_sum_bound [OF assms(1)]] .
  have "0 \<le> ?s" by (rule sum_num_int_nonneg) (use nat in auto)
  with v show "nat_num (l_value l)" by simp
  have "length (filter (\<lambda>ab. pathLinkKey (fst ab) (snd ab) = k) (adjacent (path prep))) \<le> 1"
    if "prep \<in> set preps" for prep
    using distinct_filter_key_le1 [OF link_keys_distinct] flowPrepared_D [OF assms(1)] that by blast
  from prep_sum_mono [OF assms(1) this] have "?s \<le> (\<Sum>prep\<leftarrow>preps. prepWeight metric prep)"
    unfolding linkKey_def sum_linkEvents [where P = "\<lambda>ab. pathLinkKey (fst ab) (snd ab) = k"] .
  with v show "num_int (l_value l) \<le> (\<Sum>prep\<leftarrow>preps. prepWeight metric prep)" by simp
qed

lemma link_source_of_key:
  assumes "flowPrepared metric stages preps" "(k, l) \<in> set (accumulateLinks metric col preps)"
  shows "takeWhile (\<lambda>c. c \<noteq> 0) k = l_source l" "tl (dropWhile (\<lambda>c. c \<noteq> 0) k) = l_target l"
proof -
  have "0 \<notin> set (l_source l)"
  proof -
    obtain prep a b where "prep \<in> set preps" "(a, b) \<in> set (adjacent (path prep))" "pn_id a = l_source l"
      using accumulated_link(2) [OF assms(2)] by blast
    then show ?thesis using flowPrepared_D(6) [OF assms(1), of prep a] in_adjacent_set by fastforce
  qed
  then show "takeWhile (\<lambda>c. c \<noteq> 0) k = l_source l" "tl (dropWhile (\<lambda>c. c \<noteq> 0) k) = l_target l"
    using accumulated_link(1) [OF assms(2)] plain_key_source plain_key_target
    by (simp_all add: linkStableKey_def)
qed

lemma link_event_source_of_key:
  assumes "flowPrepared metric stages preps" "e \<in> set (linkEvents preps)"
  shows "takeWhile (\<lambda>c. c \<noteq> 0) (linkKey e) = pn_id (fst (fst e))"
    "tl (dropWhile (\<lambda>c. c \<noteq> 0) (linkKey e)) = pn_id (snd (fst e))"
proof -
  have "0 \<notin> set (pn_id (fst (fst e)))"
    using in_linkEvents [OF assms(2)] flowPrepared_D(6) [OF assms(1)]
    by (metis in_adjacent_set prod.collapse)
  then show "takeWhile (\<lambda>c. c \<noteq> 0) (linkKey e) = pn_id (fst (fst e))"
    "tl (dropWhile (\<lambda>c. c \<noteq> 0) (linkKey e)) = pn_id (snd (fst e))"
    using plain_key_source plain_key_target by (simp_all add: linkKey_def pathLinkKey_def)
qed

text \<open>The values of the links selected by their source (or target) add up to the path weights.\<close>

lemma link_sum_by:
  fixes f :: "jstr \<Rightarrow> jstr"
  assumes "flowPrepared metric stages preps"
    and "(f = (\<lambda>k. takeWhile (\<lambda>c. c \<noteq> 0) k) \<and> lf = l_source \<and> nf = fst)
       \<or> (f = (\<lambda>k. tl (dropWhile (\<lambda>c. c \<noteq> 0) k)) \<and> lf = l_target \<and> nf = snd)"
  shows "(\<Sum>l\<leftarrow>filter (\<lambda>l. P (lf l)) (map snd (accumulateLinks metric col preps)). num_int (l_value l))
     = (\<Sum>prep\<leftarrow>preps. prepWeight metric prep
          * int (length (filter (\<lambda>ab. P (pn_id (nf ab))) (adjacent (path prep)))))"
proof -
  let ?t = "accumulateLinks metric col preps"
  have "filter (\<lambda>kv. P (lf (snd kv))) ?t = filter (\<lambda>kv. P (f (fst kv))) ?t"
    using assms(2) link_source_of_key [OF assms(1)] by (intro filter_cong) auto
  then have "(\<Sum>l\<leftarrow>filter (\<lambda>l. P (lf l)) (map snd ?t). num_int (l_value l))
      = (\<Sum>kv\<leftarrow>filter (\<lambda>kv. P (f (fst kv))) ?t. num_int (l_value (snd kv)))"
    by (simp add: filter_map comp_def)
  also have "\<dots> = (\<Sum>e\<leftarrow>filter (\<lambda>e. P (f (linkKey e))) (linkEvents preps). num_int (eventWeight metric e))"
    unfolding accumulateLinks_tally
    by (rule link_tally.sum_entries) (use events_nat(2) link_sum_bound assms(1) in blast)+
  also have "filter (\<lambda>e. P (f (linkKey e))) (linkEvents preps)
      = filter (\<lambda>e. P (pn_id (nf (fst e)))) (linkEvents preps)"
    using assms(2) link_event_source_of_key [OF assms(1)] by (intro filter_cong) auto
  also have "(\<Sum>e\<leftarrow>\<dots>. num_int (eventWeight metric e)) = (\<Sum>prep\<leftarrow>preps. prepWeight metric prep
          * int (length (filter (\<lambda>ab. P (pn_id (nf ab))) (adjacent (path prep)))))"
    by (rule sum_linkEvents)
  finally show ?thesis .
qed

end
