(* ===== verification/Flow_Properties.thy ===== *)
theory Flow_Properties
  imports Flow_Graph
begin

text \<open>
  The properties of the flow graph: conservation of the metric at every node and at every
  stage, the shape of the graph, shares, masking, highlighting, filters and filter options.
\<close>

section \<open>Totals\<close>

lemma buildSummary_metric:
  "metricValue (buildSummary rows) metric
     = fold (\<lambda>row s. js_add s (metricValue (rowMetrics row) metric)) rows (Fin 0)"
proof -
  have "metricValue (foldl (\<lambda>summary row. let ms = rowMetrics row in
              \<lparr>m_quota = js_add (m_quota summary) (m_quota ms),
               m_tokens = js_add (m_tokens summary) (m_tokens ms),
               m_requests = js_add (m_requests summary) (m_requests ms)\<rparr>) s rows) metric
      = fold (\<lambda>row s. js_add s (metricValue (rowMetrics row) metric)) rows (metricValue s metric)" for s
    by (induction rows arbitrary: s) (simp_all add: Let_def, cases metric, simp_all)
  then show ?thesis by (cases metric) (simp_all add: buildSummary_def)
qed

lemma buildSummary_exact:
  "exactRows metric rows \<Longrightarrow>
   metricValue (buildSummary rows) metric = jint (\<Sum>row\<leftarrow>rows. num_int (metricValue (rowMetrics row) metric))"
  unfolding buildSummary_metric by (rule fold_js_add_nat) (auto simp: exactRows_def list_all_iff)

abbreviation graphStages where
  "graphStages \<equiv> resolveVisibleStages"

lemma graph_flowPrepared:
  assumes "exactRows metric rows" "idsPlain rows (graphStages role vis) ctx"
  shows "flowPrepared metric (graphStages role vis) (graphPaths lc rows metric role vis ctx opts)"
proof (rule flowPrepared_rows [OF assms])
  show "distinct (graphStages role vis)" by (rule resolveVisibleStages_props)
  show "graphStages role vis \<noteq> []" using resolveVisibleStages_props(2) [of role vis] by auto
qed

lemma graph_node_accumulated:
  assumes "node \<in> set (g_nodes (buildFlowGraph lc vs rows metric role palette vis ctx opts))"
    and "preps = graphPaths lc rows metric role vis ctx opts"
  shows "\<exists>n\<in>set (map snd (accumulateNodes metric (graphColor lc vs palette preps) preps)).
    node = finishNode (go_maskSensitive opts) (graphHighlights preps opts (graphStages role vis)) n"
  using assms(1) unfolding buildFlowGraph_nodes [OF assms(2) refl] by (auto simp: image_iff)

text \<open>The links of the graph are the accumulated links, rearranged, with their ends and values.\<close>

lemma graph_links_mset:
  assumes "preps = graphPaths lc rows metric role vis ctx opts"
  shows "\<exists>h. mset (g_links (buildFlowGraph lc vs rows metric role palette vis ctx opts))
      = mset (map h (map snd (accumulateLinks metric (graphColor lc vs palette preps) preps)))
    \<and> (\<forall>l. l_source (h l) = l_source l \<and> l_target (h l) = l_target l \<and> l_value (h l) = l_value l)"
proof -
  define fin where "fin = finishLink (go_maskSensitive opts)
    (maskedById (map snd (accumulateNodes metric (graphColor lc vs palette preps) preps)))
    (graphHighlights preps opts (graphStages role vis))"
  define flow where "flow = js_sort (bySourceTarget lc) (map fin (rawLinks lc vs metric palette preps))"
  define share where "share = setShare (firstStepTotal (rootIds preps) flow)"
  define paint where "paint = paintLink lc (map share flow)"
  have "g_links (buildFlowGraph lc vs rows metric role palette vis ctx opts) = map (paint \<circ> share) flow"
    using buildFlowGraph_links [OF assms refl refl flow_def [unfolded fin_def]]
    by (simp add: paint_def share_def)
  then have "mset (g_links (buildFlowGraph lc vs rows metric role palette vis ctx opts))
      = mset (map (paint \<circ> share \<circ> fin) (rawLinks lc vs metric palette preps))"
    by (simp add: flow_def multiset.map_comp comp_assoc)
  then show ?thesis
    by (intro exI [of _ "paint \<circ> share \<circ> fin"])
       (simp add: rawLinks_def paint_def share_def fin_def flow_simps)
qed

lemma sum_filter_mset_cong:
  fixes w :: "'a \<Rightarrow> int"
  assumes "mset xs = mset ys"
  shows "(\<Sum>x\<leftarrow>filter P xs. w x) = (\<Sum>x\<leftarrow>filter P ys. w x)"
  using assms by (metis mset_filter mset_map sum_mset_sum_list)

lemma graph_links_sum:
  assumes "preps = graphPaths lc rows metric role vis ctx opts"
    and "\<And>l l'. l_source l = l_source l' \<Longrightarrow> l_target l = l_target l' \<Longrightarrow> P l = P l'"
  shows "(\<Sum>l\<leftarrow>filter P (g_links (buildFlowGraph lc vs rows metric role palette vis ctx opts)). num_int (l_value l))
    = (\<Sum>l\<leftarrow>filter P (map snd (accumulateLinks metric (graphColor lc vs palette preps) preps)). num_int (l_value l))"
proof -
  obtain h where h: "mset (g_links (buildFlowGraph lc vs rows metric role palette vis ctx opts))
      = mset (map h (map snd (accumulateLinks metric (graphColor lc vs palette preps) preps)))"
    and f: "\<And>l. l_source (h l) = l_source l" "\<And>l. l_target (h l) = l_target l" "\<And>l. l_value (h l) = l_value l"
    using graph_links_mset [OF assms(1)] by blast
  have "P (h l) = P l" for l by (rule assms(2)) (simp_all add: f)
  then show ?thesis unfolding sum_filter_mset_cong [OF h] by (simp add: filter_map comp_def f)
qed

lemma graph_link_accumulated:
  assumes "link \<in> set (g_links (buildFlowGraph lc vs rows metric role palette vis ctx opts))"
    and "preps = graphPaths lc rows metric role vis ctx opts"
  shows "\<exists>k l. (k, l) \<in> set (accumulateLinks metric (graphColor lc vs palette preps) preps)
    \<and> l_source link = l_source l \<and> l_target link = l_target l \<and> l_value link = l_value l"
proof -
  obtain h where h: "mset (g_links (buildFlowGraph lc vs rows metric role palette vis ctx opts))
      = mset (map h (map snd (accumulateLinks metric (graphColor lc vs palette preps) preps)))"
    and f: "\<And>l. l_source (h l) = l_source l" "\<And>l. l_target (h l) = l_target l" "\<And>l. l_value (h l) = l_value l"
    using graph_links_mset [OF assms(2)] by blast
  have "link \<in> set (map h (map snd (accumulateLinks metric (graphColor lc vs palette preps) preps)))"
    using assms(1) mset_eq_setD [OF h] by blast
  then obtain k l where "(k, l) \<in> set (accumulateLinks metric (graphColor lc vs palette preps) preps)" "link = h l"
    by auto
  then show ?thesis by (intro exI [of _ k] exI [of _ l]) (simp add: f)
qed

section \<open>Conservation\<close>

lemma node_kind_of_id:
  assumes "flowPrepared metric stages preps" "n \<in> set (map snd (accumulateNodes metric col preps))"
    and "prep \<in> set preps" "m \<in> set (path prep)" "pn_id m = n_id n"
  shows "pn_kind m = n_kind n"
proof -
  obtain m' where "well_kinded m'" "pn_id m' = n_id n" "pn_kind m' = n_kind n"
    using accumulated_node(2) [OF assms(1,2)] by blast
  moreover have "well_kinded m"
    using flowPrepared_D(4) [OF assms(1,3)] assms(4) by (simp add: stage_path_def list_all_iff)
  ultimately show ?thesis using assms(5) well_kinded_same_id by metis
qed

lemma stage_path_ends:
  assumes "stage_path stages p" "p \<noteq> []"
  shows "pn_kind (last p) = last stages" "pn_kind (hd p) = hd stages"
  using assms by (auto simp: stage_path_def last_map list.map_sel)

lemma accumulated_conservation:
  assumes "flowPrepared metric stages preps" "n \<in> set (map snd (accumulateNodes metric col preps))"
  shows "n_kind n \<noteq> last stages \<Longrightarrow> n_value n =
      jint (\<Sum>l\<leftarrow>filter (\<lambda>l. l_source l = n_id n) (map snd (accumulateLinks metric col' preps)). num_int (l_value l))"
    and "n_kind n \<noteq> hd stages \<Longrightarrow> n_value n =
      jint (\<Sum>l\<leftarrow>filter (\<lambda>l. l_target l = n_id n) (map snd (accumulateLinks metric col' preps)). num_int (l_value l))"
proof -
  let ?cnt = "\<lambda>prep. length (filter (\<lambda>m. pn_id m = n_id n) (path prep))"
  note ends = stage_path_ends [OF flowPrepared_D(4,7) [OF assms(1)]]
  {
    assume k: "n_kind n \<noteq> last stages"
    have "length (filter (\<lambda>ab. pn_id (fst ab) = n_id n) (adjacent (path prep))) = ?cnt prep"
      if "prep \<in> set preps" for prep
    proof (rule adjacent_source_count)
      show ne: "path prep \<noteq> []" using flowPrepared_D(7) [OF assms(1) that] .
      show "pn_id (last (path prep)) \<noteq> n_id n"
        using k node_kind_of_id [OF assms that, of "last (path prep)"] ends(1) [OF that that] ne by auto
    qed
    then show "n_value n = jint (\<Sum>l\<leftarrow>filter (\<lambda>l. l_source l = n_id n)
        (map snd (accumulateLinks metric col' preps)). num_int (l_value l))"
      unfolding accumulated_node(1) [OF assms] link_sum_by [OF assms(1), of "takeWhile (\<lambda>c. c \<noteq> 0)" l_source fst, simplified, where P = "\<lambda>i. i = n_id n"]
      by (simp cong: map_cong)
  next
    assume k: "n_kind n \<noteq> hd stages"
    have "length (filter (\<lambda>ab. pn_id (snd ab) = n_id n) (adjacent (path prep))) = ?cnt prep"
      if "prep \<in> set preps" for prep
    proof (rule adjacent_target_count)
      show ne: "path prep \<noteq> []" using flowPrepared_D(7) [OF assms(1) that] .
      show "pn_id (hd (path prep)) \<noteq> n_id n"
        using k node_kind_of_id [OF assms that, of "hd (path prep)"] ends(2) [OF that that] ne by auto
    qed
    then show "n_value n = jint (\<Sum>l\<leftarrow>filter (\<lambda>l. l_target l = n_id n)
        (map snd (accumulateLinks metric col' preps)). num_int (l_value l))"
      unfolding accumulated_node(1) [OF assms] link_sum_by [OF assms(1), of "\<lambda>k. tl (dropWhile (\<lambda>c. c \<noteq> 0) k)" l_target snd, simplified, where P = "\<lambda>i. i = n_id n"]
      by (simp cong: map_cong)
  }
qed

text \<open>
  C3.  Flow is conserved at every node.  For rows whose metric is a natural number and adds up
  to at most $2^{53}$, and whose ids hold no NUL character (the separator of the link keys), the
  value of a node that is not in the last visible stage is the sum of the links that leave it,
  and the value of a node that is not in the first visible stage is the sum of the links that
  reach it, whatever limit, overflow mode, mask, highlight, palette and locale are in force.
\<close>

theorem flow_node_conservation:
  assumes "exactRows metric rows" "idsPlain rows (resolveVisibleStages role vis) ctx"
    and "node \<in> set (g_nodes (buildFlowGraph lc vs rows metric role palette vis ctx opts))"
  shows "(n_kind node \<noteq> last (resolveVisibleStages role vis) \<longrightarrow> n_value node =
           jint (\<Sum>l\<leftarrow>filter (\<lambda>l. l_source l = n_id node)
             (g_links (buildFlowGraph lc vs rows metric role palette vis ctx opts)). num_int (l_value l)))
    \<and> (n_kind node \<noteq> hd (resolveVisibleStages role vis) \<longrightarrow> n_value node =
           jint (\<Sum>l\<leftarrow>filter (\<lambda>l. l_target l = n_id node)
             (g_links (buildFlowGraph lc vs rows metric role palette vis ctx opts)). num_int (l_value l)))"
proof -
  define preps where "preps = graphPaths lc rows metric role vis ctx opts"
  have fp: "flowPrepared metric (resolveVisibleStages role vis) preps"
    unfolding preps_def by (rule graph_flowPrepared [OF assms(1,2)])
  obtain n where n: "n \<in> set (map snd (accumulateNodes metric (graphColor lc vs palette preps) preps))"
    and node: "node = finishNode (go_maskSensitive opts)
      (graphHighlights preps opts (resolveVisibleStages role vis)) n"
    using graph_node_accumulated [OF assms(3) preps_def] by blast
  have fields: "n_id node = n_id n" "n_kind node = n_kind n" "n_value node = n_value n"
    unfolding node by (simp_all add: flow_simps)
  show ?thesis
    unfolding fields
    using accumulated_conservation [OF fp n, of "graphColor lc vs palette preps"]
    by (simp add: graph_links_sum [OF preps_def])
qed

text \<open>Sample rows, options and colour table for the witnesses.\<close>

definition sampleRow :: "jsnum \<Rightarrow> string \<Rightarrow> string \<Rightarrow> jsnum \<Rightarrow> FlowQuotaDataItem" where
  "sampleRow tid grp mdl q =
     \<lparr>user_id = None, username = None, node_name = None, use_group = Some (lit grp),
      token_id = Some tid, token_name = Some (lit ''key''), channel_id = None, channel_name = None,
      model_name = Some (lit mdl), token_used = Some (Fin 7), count = Some (Fin 1), quota = Some q\<rparr>"

definition sampleRows :: "FlowQuotaDataItem list" where
  "sampleRows = [sampleRow (Fin 1) ''a'' ''m'' (Fin 5), sampleRow (Fin 2) ''a'' ''n'' (Fin 3)]"

definition sampleTable :: color_table where
  "sampleTable = ([], \<lparr>maxDomainLength = None, scheme = [Some (lit ''#102030'')]\<rparr>)"

definition sampleOptions :: FlowGraphOptions where
  "sampleOptions =
     \<lparr>go_topNodeLimit = Some (Fin 1), go_overflowMode = Some Aggregate, go_otherNodeLabel = None,
      go_activeNode = Some \<lparr>nf_kind = KModel, nf_id = lit ''model:m''\<rparr>, go_activeLink = None,
      go_maskSensitive = True\<rparr>"

definition sampleGraph :: DashboardFlowGraph where
  "sampleGraph =
     buildFlowGraph str_cmp sampleTable sampleRows MQuota RUser None None None sampleOptions"

lemma sampleGraph_nodes:
  "map (\<lambda>n. (n_id n, n_kind n, n_value n)) (g_nodes sampleGraph) =
     [(lit ''group:a'', KGroup, Fin 8), (lit ''model:m'', KModel, Fin 5), (lit ''token:1'', KToken, Fin 5),
      (lit ''model:__other__'', KModel, Fin 3), (lit ''token:__other__'', KToken, Fin 3)]"
  by code_simp

lemma sampleRows_ok:
  "exactRows MQuota sampleRows" "idsPlain sampleRows (resolveVisibleStages RUser None) None"
  by code_simp+

lemma sampleGraph_hd:
  "hd (g_nodes sampleGraph) \<in> set (g_nodes sampleGraph)" "n_kind (hd (g_nodes sampleGraph)) = KGroup"
  using sampleGraph_nodes by (cases "g_nodes sampleGraph"; simp)+

theorem flow_node_conservation_witness:
  "exactRows MQuota sampleRows \<and> idsPlain sampleRows (resolveVisibleStages RUser None) None
   \<and> hd (g_nodes sampleGraph) \<in> set (g_nodes sampleGraph)
   \<and> n_kind (hd (g_nodes sampleGraph)) = KGroup
   \<and> n_value (hd (g_nodes sampleGraph)) = jint (\<Sum>l\<leftarrow>filter
        (\<lambda>l. l_source l = n_id (hd (g_nodes sampleGraph))) (g_links sampleGraph). num_int (l_value l))"
proof -
  have stages: "last (resolveVisibleStages RUser None) = KModel" by code_simp
  show ?thesis
    using flow_node_conservation [OF sampleRows_ok, of "hd (g_nodes sampleGraph)" str_cmp sampleTable None sampleOptions]
      sampleRows_ok sampleGraph_hd stages by (simp add: sampleGraph_def)
qed

section \<open>Stages\<close>

lemma accumulated_stage_sum:
  assumes "flowPrepared metric stages preps" "k \<in> set stages"
  shows "(\<Sum>n\<leftarrow>filter (\<lambda>n. n_kind n = k) (map snd (accumulateNodes metric col preps)). num_int (n_value n))
    = (\<Sum>prep\<leftarrow>preps. prepWeight metric prep)"
proof -
  let ?t = "accumulateNodes metric col preps"
  have kind: "n_kind n = k \<longleftrightarrow> id_kind i = kind_str k" if entry: "(i, n) \<in> set ?t" for i n
  proof -
    have n: "n \<in> set (map snd ?t)" using entry by force
    have "n_id n = i" using node_tally.entry_stat [OF entry [unfolded accumulateNodes_tally]]
      by (auto simp: freshNode_def newNode_def)
    moreover obtain m where "well_kinded m" "pn_id m = n_id n" "pn_kind m = n_kind n"
      using accumulated_node(2) [OF assms(1) n] by blast
    ultimately show ?thesis by (metis kind_str_inj well_kinded_def)
  qed
  have evk: "id_kind (pn_id (fst e)) = kind_str k \<longleftrightarrow> pn_kind (fst e) = k" if ev: "e \<in> set (nodeEvents preps)" for e
  proof -
    obtain prep where "prep \<in> set preps" "fst e \<in> set (path prep)" using in_nodeEvents [OF ev] by blast
    then have "well_kinded (fst e)"
      using flowPrepared_D(4) [OF assms(1)] by (force simp: stage_path_def list_all_iff)
    then show ?thesis by (simp add: well_kinded_def kind_str_inj)
  qed
  have "filter (\<lambda>kv. n_kind (snd kv) = k) ?t = filter (\<lambda>kv. id_kind (fst kv) = kind_str k) ?t"
    using kind by (intro filter_cong) auto
  then have "(\<Sum>n\<leftarrow>filter (\<lambda>n. n_kind n = k) (map snd ?t). num_int (n_value n))
      = (\<Sum>kv\<leftarrow>filter (\<lambda>kv. id_kind (fst kv) = kind_str k) ?t. num_int (n_value (snd kv)))"
    by (simp add: filter_map comp_def)
  also have "\<dots> = (\<Sum>e\<leftarrow>filter (\<lambda>e. id_kind (pn_id (fst e)) = kind_str k) (nodeEvents preps). num_int (eventWeight metric e))"
    unfolding accumulateNodes_tally
    by (rule node_tally.sum_entries [where P = "\<lambda>i. id_kind i = kind_str k"])
       (use events_nat(1) node_sum_bound assms(1) in blast)+
  also have "\<dots> = (\<Sum>e\<leftarrow>filter (\<lambda>e. pn_kind (fst e) = k) (nodeEvents preps). num_int (eventWeight metric e))"
    using evk by (simp cong: filter_cong)
  also have "\<dots> = (\<Sum>prep\<leftarrow>preps. prepWeight metric prep * int (length (filter (\<lambda>n. pn_kind n = k) (path prep))))"
    by (rule sum_nodeEvents)
  also have "\<dots> = (\<Sum>prep\<leftarrow>preps. prepWeight metric prep)"
    using filter_kind_path flowPrepared_D(1,4) [OF assms(1)] assms(2)
    by (intro arg_cong [where f = sum_list] map_cong) auto
  finally show ?thesis .
qed

lemma graph_nodes_sum:
  assumes "preps = graphPaths lc rows metric role vis ctx opts"
  shows "(\<Sum>n\<leftarrow>filter (\<lambda>n. n_kind n = k) (g_nodes (buildFlowGraph lc vs rows metric role palette vis ctx opts)). num_int (n_value n))
    = (\<Sum>n\<leftarrow>filter (\<lambda>n. n_kind n = k) (map snd (accumulateNodes metric (graphColor lc vs palette preps) preps)). num_int (n_value n))"
  unfolding buildFlowGraph_nodes [OF assms refl] sum_filter_mset_cong [OF mset_js_sort]
  by (simp add: filter_map comp_def flow_simps)

text \<open>
  C4.  Every visible stage carries the whole metric.  Unless overflowing rows are hidden, the
  values of the nodes of each visible stage add up to the total of the summary; so folding the
  nodes beyond the limit into the other node of their stage loses nothing.
\<close>

theorem flow_stage_total:
  assumes "exactRows metric rows" "idsPlain rows (resolveVisibleStages role vis) ctx"
    and "go_overflowMode opts \<noteq> Some Hide \<or> normalizeTopNodeLimit (go_topNodeLimit opts) = None"
    and "k \<in> set (resolveVisibleStages role vis)"
  shows "jint (\<Sum>n\<leftarrow>filter (\<lambda>n. n_kind n = k)
      (g_nodes (buildFlowGraph lc vs rows metric role palette vis ctx opts)). num_int (n_value n))
    = metricValue (buildSummary rows) metric"
proof -
  define preps where "preps = graphPaths lc rows metric role vis ctx opts"
  have fp: "flowPrepared metric (resolveVisibleStages role vis) preps"
    unfolding preps_def by (rule graph_flowPrepared [OF assms(1,2)])
  have "map metrics preps = map rowMetrics rows"
    unfolding preps_def
    by (rule prepared_all)
       (use assms(3) in \<open>cases "go_overflowMode opts"; auto simp: DEFAULT_FLOW_OVERFLOW_MODE_def buildTopNodeSets_def\<close>)
  then have "map (\<lambda>m. num_int (metricValue m metric)) (map metrics preps)
      = map (\<lambda>m. num_int (metricValue m metric)) (map rowMetrics rows)" by simp
  then have "(\<Sum>prep\<leftarrow>preps. prepWeight metric prep) = (\<Sum>row\<leftarrow>rows. num_int (metricValue (rowMetrics row) metric))"
    by (simp add: comp_def)
  then show ?thesis
    unfolding graph_nodes_sum [OF preps_def] accumulated_stage_sum [OF fp assms(4)] buildSummary_exact [OF assms(1)]
    by simp
qed

theorem flow_stage_total_witness:
  "KModel \<in> set (resolveVisibleStages RUser None)
   \<and> jint (\<Sum>n\<leftarrow>filter (\<lambda>n. n_kind n = KModel) (g_nodes sampleGraph). num_int (n_value n))
     = metricValue (buildSummary sampleRows) MQuota"
proof -
  have k: "KModel \<in> set (resolveVisibleStages RUser None)" by code_simp
  moreover have "go_overflowMode sampleOptions \<noteq> Some Hide" by (simp add: sampleOptions_def)
  ultimately show ?thesis
    using flow_stage_total [OF sampleRows_ok _ k, of sampleOptions str_cmp sampleTable None]
    by (simp add: sampleGraph_def)
qed

section \<open>The shape of the graph\<close>

lemma accumulated_node_path:
  assumes "(i, n) \<in> set (accumulateNodes metric col preps)"
  shows "i = n_id n \<and> (\<exists>prep\<in>set preps. \<exists>m\<in>set (path prep). pn_id m = n_id n \<and> pn_kind m = n_kind n)"
  using node_tally.entry_stat [OF assms [unfolded accumulateNodes_tally]]
  by (auto simp: freshNode_def newNode_def dest!: in_nodeEvents) blast

lemma accumulated_ids: "map n_id (map snd (accumulateNodes metric col preps)) = map fst (accumulateNodes metric col preps)"
  by (auto dest: accumulated_node_path)

lemma accumulated_keys:
  "map linkStableKey (map snd (accumulateLinks metric col preps)) = map fst (accumulateLinks metric col preps)"
  by (auto dest: accumulated_link(1))

lemma set_accumulated_ids:
  "set (map fst (accumulateNodes metric col preps)) = (\<Union>prep\<in>set preps. pn_id ` set (path prep))"
proof -
  have "map (\<lambda>e. pn_id (fst e)) (nodeEvents preps) = concat (map (\<lambda>prep. map pn_id (path prep)) preps)"
    by (simp add: nodeEvents_def map_concat comp_def)
  then show ?thesis unfolding accumulateNodes_tally map_fst_tally by simp
qed

lemma mset_graph_ids:
  assumes "preps = graphPaths lc rows metric role vis ctx opts"
  shows "mset (map n_id (g_nodes (buildFlowGraph lc vs rows metric role palette vis ctx opts)))
    = mset (map fst (accumulateNodes metric (graphColor lc vs palette preps) preps))"
  unfolding buildFlowGraph_nodes [OF assms refl] accumulated_ids [symmetric]
  by (simp add: comp_def flow_simps multiset.map_comp)

lemma mset_graph_keys:
  assumes "preps = graphPaths lc rows metric role vis ctx opts"
  shows "mset (map linkStableKey (g_links (buildFlowGraph lc vs rows metric role palette vis ctx opts)))
    = mset (map fst (accumulateLinks metric (graphColor lc vs palette preps) preps))"
proof -
  obtain h where h: "mset (g_links (buildFlowGraph lc vs rows metric role palette vis ctx opts))
      = mset (map h (map snd (accumulateLinks metric (graphColor lc vs palette preps) preps)))"
    and f: "\<And>l. l_source (h l) = l_source l" "\<And>l. l_target (h l) = l_target l"
    using graph_links_mset [OF assms] by blast
  have "linkStableKey (h l) = linkStableKey l" for l by (simp add: linkStableKey_def f)
  then show ?thesis
    unfolding accumulated_keys [symmetric] mset_map [of linkStableKey] h
    by (simp add: multiset.map_comp comp_def)
qed

text \<open>
    The graph is well formed for every input: no two nodes share an id, no two links share a
  key, and both ends of every link are nodes of the graph.
\<close>

theorem flow_graph_shape:
  assumes "link \<in> set (g_links (buildFlowGraph lc vs rows metric role palette vis ctx opts))"
  shows "distinct (map n_id (g_nodes (buildFlowGraph lc vs rows metric role palette vis ctx opts)))
    \<and> distinct (map linkStableKey (g_links (buildFlowGraph lc vs rows metric role palette vis ctx opts)))
    \<and> l_source link \<in> set (map n_id (g_nodes (buildFlowGraph lc vs rows metric role palette vis ctx opts)))
    \<and> l_target link \<in> set (map n_id (g_nodes (buildFlowGraph lc vs rows metric role palette vis ctx opts)))"
proof -
  define preps where "preps = graphPaths lc rows metric role vis ctx opts"
  note ids = mset_graph_ids [OF preps_def] and keys = mset_graph_keys [OF preps_def]
  obtain k l where l: "(k, l) \<in> set (accumulateLinks metric (graphColor lc vs palette preps) preps)"
    "l_source link = l_source l" "l_target link = l_target l"
    using graph_link_accumulated [OF assms preps_def] by blast
  obtain prep a b where "prep \<in> set preps" "(a, b) \<in> set (adjacent (path prep))"
    "pn_id a = l_source l" "pn_id b = l_target l"
    using accumulated_link(2) [OF l(1)] by blast
  then have "l_source l \<in> (\<Union>prep\<in>set preps. pn_id ` set (path prep))"
    "l_target l \<in> (\<Union>prep\<in>set preps. pn_id ` set (path prep))"
    using in_adjacent_set by (metis UN_iff image_eqI)+
  moreover have "distinct (map fst (accumulateNodes metric (graphColor lc vs palette preps) preps))"
    "distinct (map fst (accumulateLinks metric (graphColor lc vs palette preps) preps))"
    by (simp_all only: accumulateNodes_tally accumulateLinks_tally distinct_tally)
  ultimately show ?thesis
    using mset_eq_imp_distinct_iff [OF ids] mset_eq_setD [OF ids] mset_eq_imp_distinct_iff [OF keys]
    unfolding set_accumulated_ids l(2,3) by blast
qed

lemma sampleGraph_links:
  "map (\<lambda>l. (l_source l, l_target l, l_value l)) (g_links sampleGraph) =
     [(lit ''group:a'', lit ''model:__other__'', Fin 3), (lit ''group:a'', lit ''model:m'', Fin 5),
      (lit ''token:1'', lit ''group:a'', Fin 5), (lit ''token:__other__'', lit ''group:a'', Fin 3)]"
  by code_simp

theorem flow_graph_shape_witness:
  "hd (g_links sampleGraph) \<in> set (g_links sampleGraph)
   \<and> l_source (hd (g_links sampleGraph)) = lit ''group:a''
   \<and> lit ''group:a'' \<in> set (map n_id (g_nodes sampleGraph))"
proof -
  have "hd (g_links sampleGraph) \<in> set (g_links sampleGraph)"
    "l_source (hd (g_links sampleGraph)) = lit ''group:a''"
    using sampleGraph_links by (cases "g_links sampleGraph"; simp)+
  then show ?thesis
    using flow_graph_shape [of "hd (g_links sampleGraph)" str_cmp sampleTable sampleRows MQuota RUser None None None
        sampleOptions] by (simp add: sampleGraph_def)
qed

section \<open>The limit on the nodes of a stage\<close>

lemma prepared_limited:
  assumes "prep \<in> set (preparePaths rows stages ctx (Some tops) mode f)" "m \<in> set (path prep)"
  shows "isTopFlowNode m tops \<or> mode \<noteq> Hide \<and> pn_id m = OTHER_FLOW_NODE_IDS (pn_kind m)"
proof -
  obtain row where "applyTopNodeLimit (flowPathForStages row stages ctx) (Some tops) mode f = Some (path prep)"
    using assms(1) by (auto simp: preparePaths_def split: option.splits)
  then have "(\<forall>m\<in>set (path prep). isTopFlowNode m tops) \<or> mode \<noteq> Hide \<and>
      path prep = map (\<lambda>node. if isTopFlowNode node tops then node else otherFlowNode (pn_kind node) f)
        (flowPathForStages row stages ctx)"
    by (auto simp: applyTopNodeLimit_def split: if_splits)
  with assms(2) show ?thesis by (auto simp: otherFlowNode_def)
qed

lemma topNodeSets_lookup:
  assumes "k \<in> set stages"
  shows "\<exists>ids. map_of (the (buildTopNodeSets lc rows metric stages (Some n) ctx)) k = Some ids
    \<and> distinct ids \<and> length ids \<le> n"
proof -
  let ?ids = "\<lambda>kind. uniq (map (\<lambda>rank. pn_id (fst rank))
               (take n (js_sort (byRank lc) (map snd (rankTotals rows metric stages ctx kind)))))"
  have "length (?ids k) \<le> n"
    unfolding length_uniq by (rule order_trans [OF card_length]) simp
  moreover have "map_of (map (\<lambda>kind. (kind, ?ids kind)) (uniq stages)) k = Some (?ids k)"
    using assms by (simp add: map_of_map_restrict)
  ultimately show ?thesis by (simp add: buildTopNodeSets_def)
qed

text \<open>
  C5.  With a limit of \<open>n\<close> nodes per stage the graph has at most \<open>n\<close> nodes in every stage, and
  one more, the other node of the stage, unless overflowing rows are hidden.
\<close>

theorem flow_stage_limit:
  assumes "normalizeTopNodeLimit (go_topNodeLimit opts) = Some n"
  shows "length (filter (\<lambda>node. n_kind node = k)
      (g_nodes (buildFlowGraph lc vs rows metric role palette vis ctx opts)))
    \<le> n + (if go_overflowMode opts = Some Hide then 0 else 1)"
proof -
  define stages where "stages = resolveVisibleStages role vis"
  define preps where "preps = graphPaths lc rows metric role vis ctx opts"
  define g where "g = g_nodes (buildFlowGraph lc vs rows metric role palette vis ctx opts)"
  define tops where "tops = the (buildTopNodeSets lc rows metric stages (Some n) ctx)"
  have preps: "preps = preparePaths rows stages ctx (Some tops)
      (opt_or (go_overflowMode opts) DEFAULT_FLOW_OVERFLOW_MODE) (go_otherNodeLabel opts)"
    by (simp add: preps_def stages_def tops_def assms buildTopNodeSets_def)
  have from_path: "\<exists>prep\<in>set preps. \<exists>m\<in>set (path prep). pn_id m = n_id node \<and> pn_kind m = n_kind node"
    if "node \<in> set g" for node
    using graph_node_accumulated [OF that [unfolded g_def] preps_def] accumulated_node_path
    by (fastforce simp: flow_simps)
  have kinds: "n_kind node \<in> set stages" if mem: "node \<in> set g" for node
  proof -
    obtain prep m where "prep \<in> set preps" "m \<in> set (path prep)" "pn_kind m = n_kind node"
      using from_path [OF mem] by blast
    then show ?thesis using stage_path_prepared [of prep] unfolding preps stage_path_def by force
  qed
  have d: "distinct (map n_id g)"
    using mset_eq_imp_distinct_iff [OF mset_graph_ids [OF preps_def]] 
    by (simp only: g_def accumulateNodes_tally distinct_tally)
  show ?thesis
  proof (cases "k \<in> set stages")
    case False
    then have "filter (\<lambda>node. n_kind node = k) g = []" using kinds by (auto simp: filter_empty_conv)
    then show ?thesis by (simp add: g_def)
  next
    case True
    obtain ids where ids: "map_of tops k = Some ids" "length ids \<le> n" "distinct ids"
      using topNodeSets_lookup [OF True] unfolding tops_def by blast
    let ?other = "if go_overflowMode opts = Some Hide then [] else [OTHER_FLOW_NODE_IDS k]"
    have "set (map n_id (filter (\<lambda>node. n_kind node = k) g)) \<subseteq> set (ids @ ?other)"
    proof
      fix i assume "i \<in> set (map n_id (filter (\<lambda>node. n_kind node = k) g))"
      then obtain node where node: "node \<in> set g" "n_kind node = k" "n_id node = i" by auto
      obtain prep m where m: "prep \<in> set preps" "m \<in> set (path prep)" "pn_id m = i" "pn_kind m = k"
        using from_path [OF node(1)] node by blast
      show "i \<in> set (ids @ ?other)"
        using prepared_limited [OF m(1) [unfolded preps] m(2)] m ids(1)
        by (auto simp: isTopFlowNode_def)
    qed
    moreover have "distinct (map n_id (filter (\<lambda>node. n_kind node = k) g))"
      using d by (rule distinct_map_filter)
    ultimately have "length (map n_id (filter (\<lambda>node. n_kind node = k) g)) \<le> length (ids @ ?other)"
      by (metis card_length card_mono distinct_card finite_set order_trans)
    then show ?thesis using ids(2) by (auto simp: g_def split: if_splits)
  qed
qed

theorem flow_stage_limit_witness:
  "normalizeTopNodeLimit (go_topNodeLimit sampleOptions) = Some 1
   \<and> length (filter (\<lambda>node. n_kind node = KModel) (g_nodes sampleGraph)) \<le> 1 + 1"
proof -
  have n: "normalizeTopNodeLimit (go_topNodeLimit sampleOptions) = Some 1" by code_simp
  show ?thesis
    using flow_stage_limit [OF n, of KModel str_cmp sampleTable sampleRows MQuota RUser None None None] n
    by (simp add: sampleGraph_def sampleOptions_def)
qed

end
