(* ===== verification/Flow_Display.thy ===== *)
theory Flow_Display
  imports Flow_Properties
begin

text \<open>
  How the flow graph is displayed and filtered: shares of links, masking of labels,
  highlighting, row filters, the values of the filter options and the drawing order.
\<close>

section \<open>Shares\<close>

lemma well_kinded_ne: "well_kinded n \<Longrightarrow> pn_id n \<noteq> []"
  by (cases "pn_kind n") (auto simp: well_kinded_def id_kind_def lit_simps)

lemma rootIds_eq:
  assumes "flowPrepared metric stages preps"
  shows "rootIds preps = map (\<lambda>prep. pn_id (hd (path prep))) preps"
proof -
  have "path prep \<noteq> [] \<and> pn_id (hd (path prep)) \<noteq> []" if "prep \<in> set preps" for prep
    using flowPrepared_D(4,7) [OF assms that] well_kinded_ne
    by (auto simp: stage_path_def list_all_iff)
  then have "\<forall>prep\<in>set preps. path prep \<noteq> [] \<and> pn_id (hd (path prep)) \<noteq> []" by blast
  then show ?thesis
    unfolding rootIds_def by (induction preps) (auto split: list.splits)
qed

lemma root_source_count:
  assumes "flowPrepared metric stages preps" "2 \<le> length stages" "prep \<in> set preps"
  shows "length (filter (\<lambda>ab. pn_id (fst ab) \<in> set (rootIds preps)) (adjacent (path prep))) = 1"
proof -
  have sp: "stage_path stages q" "q \<noteq> []" if "q \<in> path ` set preps" for q
    using that flowPrepared_D(4,7) [OF assms(1)] by auto
  have p: "stage_path stages (path prep)" using flowPrepared_D(4) [OF assms(1,3)] .
  have "length (path prep) = length stages" using p by (auto simp: stage_path_def)
  then obtain a b r where path: "path prep = a # b # r"
    using assms(2) by (cases "path prep"; cases "tl (path prep)") auto
  have root: "pn_id m \<in> set (rootIds preps) \<longleftrightarrow> m = a" if m: "m \<in> set (path prep)" for m
  proof
    assume "pn_id m \<in> set (rootIds preps)"
    then obtain q where q: "q \<in> path ` set preps" "pn_id m = pn_id (hd q)"
      unfolding rootIds_eq [OF assms(1)] by auto
    have "well_kinded m" "well_kinded (hd q)"
      using p m sp [OF q(1)] by (auto simp: stage_path_def list_all_iff)
    with q(2) have "pn_kind m = pn_kind (hd q)" by (rule well_kinded_same_id [rotated 2])
    also have "\<dots> = hd stages" using stage_path_ends(2) [OF sp [OF q(1)]] .
    also have "\<dots> = pn_kind a" using p by (auto simp: stage_path_def path)
    finally have "pn_kind m = pn_kind a" .
    moreover have "inj_on pn_kind (set (path prep))"
      using p flowPrepared_D(1) [OF assms(1)] by (metis distinct_map stage_path_def)
    moreover have "a \<in> set (path prep)" by (simp add: path)
    ultimately show "m = a" using m inj_onD by metis
  next
    assume "m = a"
    then show "pn_id m \<in> set (rootIds preps)"
      unfolding rootIds_eq [OF assms(1)] using assms(3) path by (force intro!: image_eqI [of _ _ prep])
  qed
  have "distinct (map pn_id (path prep))"
    using stage_path_ids_distinct [OF p flowPrepared_D(1) [OF assms(1)]] .
  then have "a \<notin> set (b # r)" by (auto simp: path)
  moreover have "filter (\<lambda>m. pn_id m \<in> set (rootIds preps)) (butlast (path prep)) = filter (\<lambda>m. m = a) (butlast (path prep))"
    using root by (intro filter_cong) (auto dest: in_set_butlastD)
  ultimately have "length (filter (\<lambda>m. pn_id m \<in> set (rootIds preps)) (map fst (adjacent (path prep)))) = 1"
    by (auto simp: map_fst_adjacent path filter_empty_conv dest: in_set_butlastD)
  then show ?thesis by (simp add: filter_map comp_def)
qed

lemma firstStepTotal_eq:
  assumes "flowPrepared metric stages preps" "2 \<le> length stages"
    and "mset flow = mset (map h (map snd (accumulateLinks metric col preps)))"
    and "\<And>l. l_source (h l) = l_source l" "\<And>l. l_value (h l) = l_value l"
  shows "firstStepTotal (rootIds preps) flow = jint (\<Sum>prep\<leftarrow>preps. prepWeight metric prep)"
proof -
  let ?raw = "map snd (accumulateLinks metric col preps)"
  let ?P = "\<lambda>l. l_source l \<in> set (rootIds preps)"
  have "(\<Sum>l\<leftarrow>filter ?P flow. num_int (l_value l)) = (\<Sum>l\<leftarrow>filter ?P ?raw. num_int (l_value l))"
    unfolding sum_filter_mset_cong [OF assms(3)] by (simp add: filter_map comp_def assms(4,5))
  also have "\<dots> = (\<Sum>prep\<leftarrow>preps. prepWeight metric prep
      * int (length (filter (\<lambda>ab. pn_id (fst ab) \<in> set (rootIds preps)) (adjacent (path prep)))))"
    by (rule link_sum_by [OF assms(1), where f = "takeWhile (\<lambda>c. c \<noteq> 0)"]) simp
  also have "\<dots> = (\<Sum>prep\<leftarrow>preps. prepWeight metric prep)"
    using root_source_count [OF assms(1,2)] by (simp cong: map_cong)
  finally have sum: "(\<Sum>l\<leftarrow>filter ?P flow. num_int (l_value l)) = (\<Sum>prep\<leftarrow>preps. prepWeight metric prep)" .
  have "set flow = h ` set ?raw" using mset_eq_setD [OF assms(3)] by (simp only: set_map)
  then have "\<forall>l\<in>set flow. nat_num (l_value l)"
    using accumulated_link_nat(1) [OF assms(1)] assms(5) by auto
  then have "fold (\<lambda>l s. js_add s (l_value l)) (filter ?P flow) (Fin 0) = jint (\<Sum>l\<leftarrow>filter ?P flow. num_int (l_value l))"
    by (intro fold_js_add_nat) (use sum flowPrepared_D(3) [OF assms(1)] in auto)
  then show ?thesis unfolding sum by (simp add: firstStepTotal_def foldl_conv_fold)
qed

text \<open>
    The share of a link is a proportion: for exact rows the share of every link of the graph
  is a finite number between 0 and 1.
\<close>

theorem flow_share_unit:
  assumes "exactRows metric rows" "idsPlain rows (resolveVisibleStages role vis) ctx"
    and "link \<in> set (g_links (buildFlowGraph lc vs rows metric role palette vis ctx opts))"
  shows "\<exists>r. l_share link = Fin r \<and> 0 \<le> r \<and> r \<le> 1"
proof -
  define preps where "preps = graphPaths lc rows metric role vis ctx opts"
  define fin where "fin = finishLink (go_maskSensitive opts)
    (maskedById (map snd (accumulateNodes metric (graphColor lc vs palette preps) preps)))
    (graphHighlights preps opts (graphStages role vis))"
  define flow where "flow = js_sort (bySourceTarget lc) (map fin (rawLinks lc vs metric palette preps))"
  define S where "S = (\<Sum>prep\<leftarrow>preps. prepWeight metric prep)"
  have fp: "flowPrepared metric (resolveVisibleStages role vis) preps"
    unfolding preps_def by (rule graph_flowPrepared [OF assms(1,2)])
  have "mset flow = mset (map fin (map snd (accumulateLinks metric (graphColor lc vs palette preps) preps)))"
    by (simp add: flow_def rawLinks_def)
  then have tot: "firstStepTotal (rootIds preps) flow = jint S"
    unfolding S_def by (rule firstStepTotal_eq [OF fp resolveVisibleStages_props(2)]) (simp_all add: fin_def flow_simps)
  obtain l where l: "l \<in> set flow" "l_share link = l_share (setShare (jint S) l)"
    using assms(3) unfolding buildFlowGraph_links [OF preps_def refl refl flow_def [unfolded fin_def]] tot
    by (auto simp: flow_simps)
  obtain k l' where "(k, l') \<in> set (accumulateLinks metric (graphColor lc vs palette preps) preps)" "l_value l = l_value l'"
    using l(1) by (auto simp: flow_def rawLinks_def fin_def flow_simps)
  then obtain v where v: "l_value l = jint v" "0 \<le> v" "v \<le> S"
    using accumulated_link_nat [OF fp] unfolding S_def nat_num_def by metis
  show ?thesis
  proof (cases "0 < S")
    case True
    then have "0 \<le> (of_int v / of_int S :: rat)" "(of_int v / of_int S :: rat) \<le> 1" using v by simp_all
    then show ?thesis using rnd_unit True v by (simp add: l(2) setShare_def)
  qed (simp add: l(2) setShare_def)
qed

theorem flow_share_unit_witness:
  "exactRows MQuota sampleRows \<and> idsPlain sampleRows (resolveVisibleStages RUser None) None
   \<and> hd (g_links sampleGraph) \<in> set (g_links sampleGraph)
   \<and> (\<exists>r. l_share (hd (g_links sampleGraph)) = Fin r \<and> 0 \<le> r \<and> r \<le> 1)"
proof -
  have "hd (g_links sampleGraph) \<in> set (g_links sampleGraph)"
    using sampleGraph_links by (cases "g_links sampleGraph") simp_all
  then show ?thesis
    using flow_share_unit [OF sampleRows_ok, of _ str_cmp sampleTable None sampleOptions] sampleRows_ok
    by (simp add: sampleGraph_def)
qed

section \<open>Masking\<close>

definition eraseNode :: "DashboardFlowNode \<Rightarrow> DashboardFlowNode" where
  "eraseNode n = n\<lparr>n_label := []\<rparr>"

definition eraseLink :: "DashboardFlowLink \<Rightarrow> DashboardFlowLink" where
  "eraseLink l = l\<lparr>l_sourceLabel := [], l_targetLabel := []\<rparr>"

lemma eraseNode_finish: "eraseNode (finishNode m hs n) = eraseNode (finishNode m' hs n)"
  by (simp add: eraseNode_def finishNode_def maskNode_def highlightNode_def split: option.split)

lemma eraseLink_finish: "eraseLink (finishLink m d hs l) = eraseLink (finishLink m' d' hs l)"
  by (simp add: eraseLink_def finishLink_def maskLink_def highlightLink_def linkStableKey_def split: option.split)

text \<open>Links that agree up to their labels are sorted, shared and painted alike.\<close>

lemma eraseLink_eqD:
  assumes "eraseLink l = eraseLink l'"
  shows "l_source l = l_source l'" "l_target l = l_target l'" "l_value l = l_value l'" "l_color l = l_color l'"
    "linkStableKey l = linkStableKey l'" "eraseLink (setShare t l) = eraseLink (setShare t l')"
  using assms by (cases l; cases l'; simp add: eraseLink_def linkStableKey_def setShare_def)+

lemma js_sort_erase:
  assumes "map eraseLink xs = map eraseLink ys" "\<And>x y. c (eraseLink x) (eraseLink y) = c x y"
  shows "map eraseLink (js_sort c xs) = map eraseLink (js_sort c ys)"
  using js_sort_map [of xs c eraseLink c] js_sort_map [of ys c eraseLink c] assms by metis

lemma erase_fields:
  "l_source (eraseLink l) = l_source l" "l_target (eraseLink l) = l_target l" "l_value (eraseLink l) = l_value l"
  "l_color (eraseLink l) = l_color l" "linkStableKey (eraseLink l) = linkStableKey l"
  by (simp_all add: eraseLink_def linkStableKey_def)

lemma filter_erase: "map eraseLink (filter (\<lambda>l. l_source l = src) xs) = filter (\<lambda>l. l_source l = src) (map eraseLink xs)"
  by (simp add: filter_map comp_def erase_fields)

lemma displays_erase:
  assumes "map eraseLink xs = map eraseLink ys"
  shows "map (displayOf n) (enumerate k xs) = map (displayOf n) (enumerate k ys)"
  using assms
proof (induction xs arbitrary: k ys)
  case (Cons x xs)
  then obtain y ys' where "ys = y # ys'" by (cases ys) auto
  with Cons.prems have hd: "eraseLink x = eraseLink y" and tl: "map eraseLink xs = map eraseLink ys'" by simp_all
  have "displayOf n (k, x) = displayOf n (k, y)"
    using eraseLink_eqD(4,5) [OF hd] by (simp add: displayOf_def)
  with Cons.IH [OF tl, of "Suc k"] \<open>ys = y # ys'\<close> show ?case by (simp only: enumerate_simps list.map)
qed simp

lemma map_source_erase: "map eraseLink xs = map eraseLink ys \<Longrightarrow> map l_source xs = map l_source ys"
proof -
  assume "map eraseLink xs = map eraseLink ys"
  then have "map l_source (map eraseLink xs) = map l_source (map eraseLink ys)" by simp
  then show ?thesis by (simp add: comp_def erase_fields)
qed

definition paintInfo ::
    "(jstr \<Rightarrow> jstr \<Rightarrow> jsnum) \<Rightarrow> DashboardFlowLink list \<Rightarrow> (jstr \<times> jstr \<times> jsnum) list" where
  "paintInfo lc links = concat (map (\<lambda>src.
     let sortedLinks = js_sort (byLinkValue lc) (filter (\<lambda>l. l_source l = src) links)
     in map (displayOf (length sortedLinks)) (enumerate 0 sortedLinks)) (uniq (map l_source links)))"

definition paintWith :: "(jstr \<times> jsnum) option \<Rightarrow> DashboardFlowLink \<Rightarrow> DashboardFlowLink" where
  "paintWith info link = (case info of None \<Rightarrow> link
     | Some (c, a) \<Rightarrow> link\<lparr>l_linkColor := c, l_linkAlpha := a, l_hoverColor := l_color link\<rparr>)"

lemma paintLink_info: "paintLink lc xs l = paintWith (map_of (paintInfo lc xs) (linkStableKey l)) l"
  by (simp only: paintLink_def paintInfo_def paintWith_def)

lemma paintWith_erase:
  assumes "eraseLink l = eraseLink l'"
  shows "eraseLink (paintWith info l) = eraseLink (paintWith info l')"
proof -
  have "eraseLink (paintWith info x) = paintWith info (eraseLink x)" for x
    by (simp add: paintWith_def eraseLink_def split: option.split prod.split)
  then show ?thesis using assms by simp
qed

lemma paint_erase:
  assumes "map eraseLink xs = map eraseLink ys" "eraseLink l = eraseLink l'"
  shows "eraseLink (paintLink lc xs l) = eraseLink (paintLink lc ys l')"
proof -
  have "map (displayOf (length (js_sort (byLinkValue lc) (filter (\<lambda>l. l_source l = src) xs))))
          (enumerate 0 (js_sort (byLinkValue lc) (filter (\<lambda>l. l_source l = src) xs)))
      = map (displayOf (length (js_sort (byLinkValue lc) (filter (\<lambda>l. l_source l = src) ys))))
          (enumerate 0 (js_sort (byLinkValue lc) (filter (\<lambda>l. l_source l = src) ys)))" for src
  proof -
    have flt: "map eraseLink (filter (\<lambda>l. l_source l = src) xs) = map eraseLink (filter (\<lambda>l. l_source l = src) ys)"
      unfolding filter_erase assms(1) ..
    then have len: "length (filter (\<lambda>l. l_source l = src) xs) = length (filter (\<lambda>l. l_source l = src) ys)"
      by (metis length_map)
    have "map eraseLink (js_sort (byLinkValue lc) (filter (\<lambda>l. l_source l = src) xs))
        = map eraseLink (js_sort (byLinkValue lc) (filter (\<lambda>l. l_source l = src) ys))"
      by (rule js_sort_erase [OF flt]) (simp add: byLinkValue_def erase_fields)
    then show ?thesis unfolding length_js_sort len by (rule displays_erase)
  qed
  then have disp: "paintInfo lc xs = paintInfo lc ys"
    by (simp only: paintInfo_def Let_def map_source_erase [OF assms(1)])
  show ?thesis
    unfolding paintLink_info disp eraseLink_eqD(5) [OF assms(2)]
    by (rule paintWith_erase [OF assms(2)])
qed

abbreviation withMask :: "bool \<Rightarrow> FlowGraphOptions \<Rightarrow> FlowGraphOptions" where
  "withMask m opts \<equiv> opts\<lparr>go_maskSensitive := m\<rparr>"

text \<open>
    Masking changes labels and nothing else: with and without the mask the graph has the
  same links in the same order and the same nodes, once labels are erased, for every input
  (nodes of equal value are ordered by label, so their order may differ).
\<close>

theorem flow_mask_labels_only:
  "map eraseLink (g_links (buildFlowGraph lc vs rows metric role palette vis ctx (withMask True opts)))
     = map eraseLink (g_links (buildFlowGraph lc vs rows metric role palette vis ctx (withMask False opts)))
   \<and> mset (map eraseNode (g_nodes (buildFlowGraph lc vs rows metric role palette vis ctx (withMask True opts))))
     = mset (map eraseNode (g_nodes (buildFlowGraph lc vs rows metric role palette vis ctx (withMask False opts))))"
proof
  define preps where "preps = graphPaths lc rows metric role vis ctx opts"
  have p: "preps = graphPaths lc rows metric role vis ctx (withMask m opts)" for m by (simp add: preps_def)
  define hs where "hs = graphHighlights preps opts (graphStages role vis)"
  define masked where "masked = maskedById (map snd (accumulateNodes metric (graphColor lc vs palette preps) preps))"
  define flow where "flow = (\<lambda>m. js_sort (bySourceTarget lc)
    (map (finishLink m masked hs) (rawLinks lc vs metric palette preps)))"
  define share where "share = (\<lambda>m. setShare (firstStepTotal (rootIds preps) (flow m)))"
  have links: "g_links (buildFlowGraph lc vs rows metric role palette vis ctx (withMask m opts))
      = map (paintLink lc (map (share m) (flow m)) \<circ> share m) (flow m)" for m
    using buildFlowGraph_links [OF p [of m] refl refl refl, where vs = vs and palette = palette]
    by (simp add: flow_def share_def hs_def masked_def)
  have eq: "map eraseLink (flow True) = map eraseLink (flow False)"
    unfolding flow_def
    by (rule js_sort_erase) (simp_all add: bySourceTarget_def erase_fields eraseLink_finish [of True _ _ _ False])
  have "filter (\<lambda>l. l_source l \<in> set (rootIds preps)) (map eraseLink (flow m))
      = map eraseLink (filter (\<lambda>l. l_source l \<in> set (rootIds preps)) (flow m))" for m
    by (simp add: filter_map comp_def erase_fields)
  then have "firstStepTotal (rootIds preps) (map eraseLink (flow m)) = firstStepTotal (rootIds preps) (flow m)" for m
    by (simp add: firstStepTotal_def foldl_map erase_fields)
  then have share: "share True = share False"
    unfolding share_def using eq by metis
  have "map eraseLink (map (share m) xs) = map (share m) (map eraseLink xs)" for m xs
    by (simp add: share_def setShare_def eraseLink_def)
  then have shared: "map eraseLink (map (share True) (flow True)) = map eraseLink (map (share False) (flow False))"
    unfolding share using eq by metis
  show "map eraseLink (g_links (buildFlowGraph lc vs rows metric role palette vis ctx (withMask True opts)))
      = map eraseLink (g_links (buildFlowGraph lc vs rows metric role palette vis ctx (withMask False opts)))"
    unfolding links map_map [symmetric] using shared
    by (intro nth_equalityI) (auto simp: list_eq_iff_nth_eq intro!: paint_erase)
  show "mset (map eraseNode (g_nodes (buildFlowGraph lc vs rows metric role palette vis ctx (withMask True opts))))
      = mset (map eraseNode (g_nodes (buildFlowGraph lc vs rows metric role palette vis ctx (withMask False opts))))"
    unfolding buildFlowGraph_nodes [OF p refl]
    by (simp add: multiset.map_comp comp_def eraseNode_finish [of True _ _ False])
qed

definition hiddenLabel :: "jstr \<Rightarrow> bool" where
  "hiddenLabel label = (label = [] \<or> label = FLOW_MASK_TEXT)"

lemma maskFlowLabel_hidden [simp]: "hiddenLabel (maskFlowLabel label)"
  by (simp add: hiddenLabel_def maskFlowLabel_def)

lemma maskedById_lookup:
  assumes "n \<in> set nodes" "maskedNode n"
  shows "\<exists>label. map_of (maskedById nodes) (n_id n) = Some label \<and> hiddenLabel label"
proof -
  define f where "f = (\<lambda>(n :: DashboardFlowNode) (old :: jstr option). maskFlowLabel (n_label n))"
  have last: "\<exists>label. fold (\<lambda>x old. Some (f x old)) xs acc = Some label \<and> hiddenLabel label"
    if "xs \<noteq> []" for xs acc
    using that by (induction xs rule: rev_induct) (simp_all add: f_def)
  have "map_of (maskedById nodes) (n_id n)
      = fold (\<lambda>x old. Some (f x old)) (filter (\<lambda>x. n_id x = n_id n) (filter maskedNode nodes)) None"
    unfolding maskedById_def
    using js_map.get_fold_put_empty [where key = n_id and f = f and xs = "filter maskedNode nodes" and k = "n_id n"]
    by (simp add: f_def)
  moreover have "filter (\<lambda>x. n_id x = n_id n) (filter maskedNode nodes) \<noteq> []"
    using assms by (auto simp: filter_empty_conv)
  ultimately show ?thesis using last by metis
qed

text \<open>
  C6.  With the mask on, no sensitive name is shown: the label of every node of a sensitive
  kind (user, node, token, group, channel), the other node of a stage apart, is the mask text
  or empty, and so are the labels of the ends of the links at such a node.
\<close>

theorem flow_mask_hides:
  assumes "node \<in> set (g_nodes (buildFlowGraph lc vs rows metric role palette vis ctx (withMask True opts)))"
    and "link \<in> set (g_links (buildFlowGraph lc vs rows metric role palette vis ctx (withMask True opts)))"
    and "n_kind node \<in> set SENSITIVE_FLOW_KINDS" "n_id node \<notin> set OTHER_FLOW_NODE_ID_SET"
  shows "hiddenLabel (n_label node)
    \<and> (l_source link = n_id node \<longrightarrow> hiddenLabel (l_sourceLabel link))
    \<and> (l_target link = n_id node \<longrightarrow> hiddenLabel (l_targetLabel link))"
proof -
  let ?o = "withMask True opts"
  define preps where "preps = graphPaths lc rows metric role vis ctx ?o"
  define nodes where "nodes = map snd (accumulateNodes metric (graphColor lc vs palette preps) preps)"
  define hs where "hs = graphHighlights preps ?o (graphStages role vis)"
  obtain n where n: "n \<in> set nodes" "node = finishNode True hs n"
    using graph_node_accumulated [OF assms(1) preps_def] by (auto simp: nodes_def hs_def)
  have masked: "maskedNode n" using assms(3,4) unfolding n(2) by (simp add: maskedNode_def flow_simps)
  obtain label where label: "map_of (maskedById nodes) (n_id node) = Some label" "hiddenLabel label"
    using maskedById_lookup [OF n(1) masked] unfolding n(2) by (auto simp: flow_simps)
  have "hiddenLabel (n_label node)"
    unfolding n(2) using masked by (simp add: finishNode_def maskNode_def highlightNode_def split: option.split)
  moreover obtain l where l: "l_sourceLabel link = l_sourceLabel (finishLink True (maskedById nodes) hs l)"
      "l_targetLabel link = l_targetLabel (finishLink True (maskedById nodes) hs l)"
      "l_source link = l_source l" "l_target link = l_target l"
    using assms(2) unfolding buildFlowGraph_links [OF preps_def refl refl refl]
    by (auto simp: flow_simps nodes_def hs_def)
  ultimately show ?thesis
    using label by (auto simp: finishLink_def maskLink_def highlightLink_def split: option.splits)
qed

theorem flow_mask_hides_witness:
  "\<exists>node link. node \<in> set (g_nodes sampleGraph) \<and> link \<in> set (g_links sampleGraph)
     \<and> n_id node = lit ''token:1'' \<and> l_source link = lit ''token:1''
     \<and> hiddenLabel (n_label node) \<and> hiddenLabel (l_sourceLabel link)"
proof -
  have "(lit ''token:1'', KToken, Fin 5) \<in> set (map (\<lambda>n. (n_id n, n_kind n, n_value n)) (g_nodes sampleGraph))"
    unfolding sampleGraph_nodes by simp
  then obtain node where node: "node \<in> set (g_nodes sampleGraph)" "n_id node = lit ''token:1''" "n_kind node = KToken"
    by auto
  have "(lit ''token:1'', lit ''group:a'', Fin 5) \<in> set (map (\<lambda>l. (l_source l, l_target l, l_value l)) (g_links sampleGraph))"
    unfolding sampleGraph_links by simp
  then obtain link where link: "link \<in> set (g_links sampleGraph)" "l_source link = lit ''token:1''" by auto
  have "lit ''token:1'' \<notin> set OTHER_FLOW_NODE_ID_SET" "KToken \<in> set SENSITIVE_FLOW_KINDS" by code_simp+
  moreover have "withMask True sampleOptions = sampleOptions" by (simp add: sampleOptions_def)
  ultimately have "hiddenLabel (n_label node) \<and> hiddenLabel (l_sourceLabel link)"
    using flow_mask_hides [of node str_cmp sampleTable sampleRows MQuota RUser None None None sampleOptions link]
      node link by (simp add: sampleGraph_def)
  with node link show ?thesis by blast
qed

section \<open>Highlighting\<close>

lemma highlight_link_path:
  assumes "buildFlowHighlightSets preps activeNode activeLink stages = Some s" "key \<in> set (h_links s)"
  shows "\<exists>prep\<in>set preps. \<exists>(a, b)\<in>set (adjacent (path prep)). key = pathLinkKey a b
    \<and> set (map pn_id (path prep)) \<subseteq> set (h_nodes s)"
proof -
  define matching where "matching = filter (\<lambda>prep. matchesPath activeNode activeLink (path prep)) preps"
  have s: "h_nodes s = uniq (concat (map (\<lambda>prep. map pn_id (path prep)) matching))"
    "h_links s = uniq (concat (map (\<lambda>prep. map (\<lambda>(a, b). pathLinkKey a b) (adjacent (path prep))) matching))"
    using assms(1) by (auto simp: buildFlowHighlightSets_def Let_def matching_def split: if_splits)
  obtain prep where prep: "prep \<in> set matching" "key \<in> (\<lambda>(a, b). pathLinkKey a b) ` set (adjacent (path prep))"
    using assms(2) unfolding s(2) by auto
  then have "prep \<in> set preps" "set (map pn_id (path prep)) \<subseteq> set (h_nodes s)"
    by (auto simp: s(1) matching_def)
  with prep(2) show ?thesis by (intro bexI [of _ prep]) auto
qed

text \<open>
    Highlighting is consistent: when a link of the graph is highlighted, it is not dimmed,
  and both nodes it connects are highlighted and not dimmed.
\<close>

theorem flow_highlight_ends:
  assumes "link \<in> set (g_links (buildFlowGraph lc vs rows metric role palette vis ctx opts))"
    and "node \<in> set (g_nodes (buildFlowGraph lc vs rows metric role palette vis ctx opts))"
    and "idsPlain rows (resolveVisibleStages role vis) ctx"
    and "l_highlighted link = Some True" "n_id node = l_source link \<or> n_id node = l_target link"
  shows "n_highlighted node = Some True \<and> n_dimmed node = Some False \<and> l_dimmed link = Some False"
proof -
  define preps where "preps = graphPaths lc rows metric role vis ctx opts"
  define hs where "hs = graphHighlights preps opts (graphStages role vis)"
  define col where "col = graphColor lc vs palette preps"
  define masked where "masked = maskedById (map snd (accumulateNodes metric col preps))"
  obtain k l where l: "(k, l) \<in> set (accumulateLinks metric col preps)"
      "l_highlighted link = l_highlighted (finishLink (go_maskSensitive opts) masked hs l)"
      "l_dimmed link = l_dimmed (finishLink (go_maskSensitive opts) masked hs l)"
      "l_source link = l_source l" "l_target link = l_target l"
    using assms(1) unfolding buildFlowGraph_links [OF preps_def refl refl refl]
    by (auto simp: flow_simps rawLinks_def hs_def col_def masked_def)
  have new: "l_highlighted l = None"
  proof -
    have "l_highlighted (fold (\<lambda>e. bumpLink (fst (snd e)) metric) es v) = l_highlighted v"
      for es :: "(FlowPathNode \<times> FlowPathNode) flow_event list" and v
      by (induction es arbitrary: v) (simp_all add: bumpLink_def)
    then show ?thesis
      using l(1) unfolding accumulateLinks_tally tally_entry
      by (auto simp: freshLink_def newLink_def bumpLink_def)
  qed
  then obtain s where s: "hs = Some s" "linkStableKey l \<in> set (h_links s)"
    using assms(4) l(2) by (cases hs) (auto simp: finishLink_def highlightLink_def maskLink_def linkStableKey_def split: if_splits)
  obtain prep a b where ab: "prep \<in> set preps" "(a, b) \<in> set (adjacent (path prep))"
      "linkStableKey l = pathLinkKey a b" "set (map pn_id (path prep)) \<subseteq> set (h_nodes s)"
    using highlight_link_path [OF s(1) [unfolded hs_def] s(2)] by blast
  obtain prep' a' b' where ab': "prep' \<in> set preps" "(a', b') \<in> set (adjacent (path prep'))"
      "pn_id a' = l_source l" "pn_id b' = l_target l"
    using accumulated_link(2) [OF l(1)] by blast
  have "a \<in> set (path prep)" "a' \<in> set (path prep')" 
    using in_adjacent_set [OF ab(2)] in_adjacent_set [OF ab'(2)] by simp_all
  then have "0 \<notin> set (pn_id a)" "0 \<notin> set (pn_id a')"
    using prepared_plain [OF assms(3)] ab(1) ab'(1) unfolding preps_def by blast+
  then have "pn_id a = l_source l" "pn_id b = l_target l"
    using ab(3) ab'(3,4) plain_key_inj by (auto simp: linkStableKey_def pathLinkKey_def)
  then have "n_id node \<in> set (h_nodes s)"
    using assms(5) ab(2,4) in_adjacent_set unfolding l(4,5) by fastforce
  moreover obtain n where "node = finishNode (go_maskSensitive opts) hs n"
    using graph_node_accumulated [OF assms(2) preps_def] by (auto simp: hs_def)
  ultimately show ?thesis
    using s(1) l(3) assms(4) l(2) by (auto simp: finishNode_def highlightNode_def finishLink_def highlightLink_def maskNode_def)
qed

lemma sampleGraph_highlights:
  "map l_highlighted (g_links sampleGraph) = [Some False, Some True, Some True, Some False]"
  by code_simp

theorem flow_highlight_ends_witness:
  "\<exists>link node. link \<in> set (g_links sampleGraph) \<and> node \<in> set (g_nodes sampleGraph)
     \<and> l_highlighted link = Some True \<and> n_id node = l_source link \<and> n_highlighted node = Some True \<and> n_dimmed node = Some False"
proof -
  define link where "link = g_links sampleGraph ! 1"
  have len: "length (g_links sampleGraph) = 4"
    using arg_cong [OF sampleGraph_links, of length] by simp
  have mem: "link \<in> set (g_links sampleGraph)" unfolding link_def by (rule nth_mem) (simp add: len)
  have hl: "l_highlighted link = Some True"
    using arg_cong [OF sampleGraph_highlights, of "\<lambda>xs. xs ! 1"] len by (simp add: link_def)
  have "l_source link = lit ''group:a''"
    using arg_cong [OF sampleGraph_links, of "\<lambda>xs. fst (xs ! 1)"] len by (simp add: link_def)
  moreover have "n_id (hd (g_nodes sampleGraph)) = lit ''group:a''"
    using sampleGraph_nodes by (cases "g_nodes sampleGraph") simp_all
  ultimately have src: "n_id (hd (g_nodes sampleGraph)) = l_source link" by simp
  show ?thesis
    using flow_highlight_ends [OF mem [unfolded sampleGraph_def] sampleGraph_hd(1) [unfolded sampleGraph_def]
        sampleRows_ok(2) hl] src mem hl sampleGraph_hd(1) unfolding sampleGraph_def by blast
qed

section \<open>Row filters\<close>

lemma map_of_normalize:
  "map_of (normalizeSelectedNodeFilters sel stages) k =
     (let ids = map nf_id (filter (\<lambda>flt. nf_kind flt \<in> set stages \<and> nf_kind flt = k) (opt_or sel []))
      in if ids = [] then None else Some (uniq ids))"
proof -
  define P where "P = (\<lambda>flt :: FlowNodeFilter. nf_kind flt \<in> set stages)"
  define f where "f = (\<lambda>(flt :: FlowNodeFilter) old. set_add (nf_id flt) (opt_or old []))"
  have fold_filter: "fold (\<lambda>x m. if \<not> P x then m else g x m) xs m = fold g (filter P xs) m" for g xs and m :: 'z
    by (induction xs arbitrary: m) simp_all
  have "normalizeSelectedNodeFilters sel stages
      = fold (\<lambda>x m. AList.update (nf_kind x) (f x (map_of m (nf_kind x))) m) (filter P (opt_or sel [])) []"
    unfolding normalizeSelectedNodeFilters_def
    by (subst fold_filter [symmetric]) (unfold P_def f_def, rule refl)
  then have "map_of (normalizeSelectedNodeFilters sel stages) k
      = fold (\<lambda>x old. Some (f x old)) (filter (\<lambda>x. nf_kind x = k) (filter P (opt_or sel []))) None"
    by (simp only: js_map.get_fold_put_empty)
  moreover have "fold (\<lambda>x old. Some (f x old)) xs (Some acc) = Some (fold set_add (map nf_id xs) acc)" for xs acc
    by (induction xs arbitrary: acc) (simp_all add: f_def)
  then have "fold (\<lambda>x old. Some (f x old)) xs None = (if xs = [] then None else Some (uniq (map nf_id xs)))" for xs
    by (cases xs) (simp_all add: f_def uniq_def)
  moreover have "filter (\<lambda>flt. nf_kind flt \<in> set stages \<and> nf_kind flt = k) xs
      = filter (\<lambda>x. nf_kind x = k) (filter P xs)" for xs
    by (simp add: P_def conj_commute)
  ultimately show ?thesis by (simp add: Let_def)
qed

lemma map_of_pathNodesByKind:
  assumes "stage_path stages p" "distinct stages" "n \<in> set p"
  shows "map_of (pathNodesByKind p) (pn_kind n) = Some [pn_id n]"
proof -
  define f where "f = (\<lambda>(n :: FlowPathNode) old. set_add (pn_id n) (opt_or old []))"
  have "distinct (map pn_kind p)" using assms by (simp add: stage_path_def)
  then have "filter (\<lambda>x. pn_kind x = pn_kind n) p = [n]"
    using assms(3) by (induction p) (auto simp: filter_empty_conv, metis imageI)
  moreover have "map_of (pathNodesByKind p) (pn_kind n)
      = fold (\<lambda>x old. Some (f x old)) (filter (\<lambda>x. pn_kind x = pn_kind n) p) None"
    unfolding pathNodesByKind_def
    using js_map.get_fold_put_empty [where key = pn_kind and f = f and xs = p and k = "pn_kind n"]
    by (simp add: f_def)
  ultimately show ?thesis by (simp add: f_def set_add_def)
qed

text \<open>
    The node filter keeps exactly the rows that agree with the selection in every visible
  stage it mentions: filters of one stage are alternatives, filters of different stages are
  combined, and filters of stages that are not visible are ignored.
\<close>

theorem filterRowsByNodes_spec:
  assumes "distinct stages"
  shows "filterRowsByNodes rows sel stages ctx =
    filter (\<lambda>row. \<forall>flt\<in>set (opt_or sel []). nf_kind flt \<in> set stages \<longrightarrow>
      (\<exists>alt\<in>set (opt_or sel []). nf_kind alt = nf_kind flt
         \<and> nf_id alt = pn_id (NODE_BUILDERS (nf_kind flt) row ctx))) rows"
proof -
  let ?fs = "normalizeSelectedNodeFilters sel stages"
  have d: "distinct (map fst ?fs)"
  proof -
    have "distinct (map fst (fold (\<lambda>flt filters. if nf_kind flt \<notin> set stages then filters
             else AList.update (nf_kind flt)
                    (set_add (nf_id flt) (opt_or (map_of filters (nf_kind flt)) [])) filters) xs m))"
      if "distinct (map fst m)" for xs m
      using that by (induction xs arbitrary: m) (simp_all add: distinct_update)
    from this [of "[]" "opt_or sel []"] show ?thesis unfolding normalizeSelectedNodeFilters_def by simp
  qed
  have entry: "(k, ids) \<in> set ?fs \<longleftrightarrow> k \<in> set stages \<and> ids \<noteq> []
      \<and> ids = uniq (map nf_id (filter (\<lambda>flt. nf_kind flt \<in> set stages \<and> nf_kind flt = k) (opt_or sel [])))" for k ids
    unfolding map_of_eq_Some_iff [OF d, symmetric] map_of_normalize Let_def
    by (auto simp: filter_empty_conv)
  have row: "pathMatchesNodeFilters (flowPathForStages row stages ctx) ?fs \<longleftrightarrow>
      (\<forall>flt\<in>set (opt_or sel []). nf_kind flt \<in> set stages \<longrightarrow>
        (\<exists>alt\<in>set (opt_or sel []). nf_kind alt = nf_kind flt
           \<and> nf_id alt = pn_id (NODE_BUILDERS (nf_kind flt) row ctx)))" for row
  proof -
    have node: "map_of (pathNodesByKind (flowPathForStages row stages ctx)) k = Some [pn_id (NODE_BUILDERS k row ctx)]"
      if "k \<in> set stages" for k
      using map_of_pathNodesByKind [OF stage_path_row assms, of "NODE_BUILDERS k row ctx" row ctx] that
      by (simp add: flowPathForStages_def)
    have "pathMatchesNodeFilters (flowPathForStages row stages ctx) ?fs \<longleftrightarrow>
        (\<forall>(k, ids)\<in>set ?fs. pn_id (NODE_BUILDERS k row ctx) \<in> set ids)"
      using entry node by (auto simp: pathMatchesNodeFilters_def list_all_iff list_ex_iff)
    also have "\<dots> \<longleftrightarrow> (\<forall>flt\<in>set (opt_or sel []). nf_kind flt \<in> set stages \<longrightarrow>
        (\<exists>alt\<in>set (opt_or sel []). nf_kind alt = nf_kind flt
           \<and> nf_id alt = pn_id (NODE_BUILDERS (nf_kind flt) row ctx)))"
    proof -
      define F where "F = (\<lambda>k. uniq (map nf_id (filter (\<lambda>flt. nf_kind flt \<in> set stages \<and> nf_kind flt = k) (opt_or sel []))))"
      have F: "F k \<noteq> [] \<longleftrightarrow> (\<exists>flt\<in>set (opt_or sel []). nf_kind flt \<in> set stages \<and> nf_kind flt = k)"
        "i \<in> set (F k) \<longleftrightarrow> (\<exists>flt\<in>set (opt_or sel []). nf_kind flt \<in> set stages \<and> nf_kind flt = k \<and> nf_id flt = i)" for k i
        by (auto simp: F_def filter_empty_conv)
      have "(\<forall>(k, ids)\<in>set ?fs. pn_id (NODE_BUILDERS k row ctx) \<in> set ids)
          \<longleftrightarrow> (\<forall>k. k \<in> set stages \<and> F k \<noteq> [] \<longrightarrow> pn_id (NODE_BUILDERS k row ctx) \<in> set (F k))"
        unfolding Ball_def split_paired_All entry prod.case F_def by blast
      also have "\<dots> \<longleftrightarrow> (\<forall>flt\<in>set (opt_or sel []). nf_kind flt \<in> set stages \<longrightarrow>
        (\<exists>alt\<in>set (opt_or sel []). nf_kind alt = nf_kind flt
           \<and> nf_id alt = pn_id (NODE_BUILDERS (nf_kind flt) row ctx)))"
        unfolding F by (rule iffI; metis)
      finally show ?thesis .
    qed
    finally show ?thesis .
  qed
  show ?thesis
  proof (cases "?fs = []")
    case True
    then have "pathMatchesNodeFilters (flowPathForStages row stages ctx) ?fs" for row
      by (simp add: pathMatchesNodeFilters_def)
    then show ?thesis using True row by (simp add: filterRowsByNodes_def)
  next
    case False
    then show ?thesis using row by (simp add: filterRowsByNodes_def)
  qed
qed

definition sampleFilter :: "FlowNodeFilter list" where
  "sampleFilter = [\<lparr>nf_kind = KModel, nf_id = lit ''model:m''\<rparr>, \<lparr>nf_kind = KUser, nf_id = lit ''user:9''\<rparr>]"

theorem filterRowsByNodes_spec_witness:
  "distinct (resolveVisibleStages RUser None)
   \<and> filterRowsByNodes sampleRows (Some sampleFilter) (resolveVisibleStages RUser None) None = [hd sampleRows]
   \<and> filterRowsByNodes sampleRows (Some sampleFilter) (resolveVisibleStages RUser None) None =
     filter (\<lambda>row. \<forall>flt\<in>set sampleFilter. nf_kind flt \<in> set (resolveVisibleStages RUser None) \<longrightarrow>
      (\<exists>alt\<in>set sampleFilter. nf_kind alt = nf_kind flt
         \<and> nf_id alt = pn_id (NODE_BUILDERS (nf_kind flt) row None))) sampleRows"
proof -
  have "filterRowsByNodes sampleRows (Some sampleFilter) (resolveVisibleStages RUser None) None = [hd sampleRows]"
    by code_simp
  then show ?thesis
    using filterRowsByNodes_spec [OF resolveVisibleStages_props(1), of sampleRows "Some sampleFilter" RUser None None]
      resolveVisibleStages_props(1) [of RUser None] by simp
qed

section \<open>Filter options\<close>

definition stageKey :: "FlowNodeKind \<Rightarrow> flow_ctx \<Rightarrow> FlowQuotaDataItem \<Rightarrow> jstr" where
  "stageKey stage ctx row =
     nodeFilterKey \<lparr>nf_kind = stage, nf_id = pn_id (NODE_BUILDERS stage row ctx)\<rparr>"

lemma stageTotals_tally:
  "stageTotals metric stage ctx rows =
     tally (stageKey stage ctx) (\<lambda>row. (NODE_BUILDERS stage row ctx, Fin 0))
       (\<lambda>row current. (fst current, js_add (snd current) (metricValue (rowMetrics row) metric))) rows"
  by (simp add: stageTotals_def tally_def stageKey_def Let_def)

interpretation stage_tally:
  tally_laws "\<lambda>row. (NODE_BUILDERS stage row ctx, Fin 0)"
    "\<lambda>row current. (fst current, js_add (snd current) (metricValue (rowMetrics row) metric))"
    snd "\<lambda>row. metricValue (rowMetrics row) metric" fst
  by unfold_locales simp_all

lemma stageKey_inj: "stageKey stage ctx row = stageKey stage ctx row' \<longleftrightarrow>
    pn_id (NODE_BUILDERS stage row ctx) = pn_id (NODE_BUILDERS stage row' ctx)"
  by (simp add: stageKey_def nodeFilterKey_def)

text \<open>
    The filter options are faceted: the value shown for a node of a stage is the total of the
  rows that pass the filters of all other stages and run through that node.
\<close>

theorem buildNodeFilterOptions_value:
  assumes "exactRows metric rows" "stages = resolveVisibleStages role vis"
    and "opt \<in> set (buildNodeFilterOptions lc vs fmt rows metric role vis palette ctx sel)"
  shows "no_kind opt \<in> set stages \<and> no_valueRaw opt = jint (\<Sum>row\<leftarrow>filter
      (\<lambda>row. pn_id (NODE_BUILDERS (no_kind opt) row ctx) = no_value opt)
      (filterRowsByNodes rows (selectedNodeFiltersExceptKind sel (no_kind opt)) stages ctx).
        num_int (metricValue (rowMetrics row) metric))"
proof -
  obtain stage k node v where stage: "stage \<in> set stages"
    and entry: "(k, node, v) \<in> set (stageTotals metric stage ctx
        (filterRowsByNodes rows (selectedNodeFiltersExceptKind sel stage) stages ctx))"
    and opt: "no_kind opt = pn_kind node" "no_value opt = pn_id node" "no_valueRaw opt = v"
    using assms(3) by (auto simp: buildNodeFilterOptions_def Let_def nodeOption_def assms(2))
  define cand where "cand = filterRowsByNodes rows (selectedNodeFiltersExceptKind sel stage) stages ctx"
  note e = entry [folded cand_def, unfolded stageTotals_tally]
  have sub: "set cand \<subseteq> set rows" "\<exists>P. cand = filter P rows"
    by (auto simp: cand_def filterRowsByNodes_def Let_def intro: exI [of _ "\<lambda>_. True"])
  have nat: "\<forall>row\<in>set rows. nat_num (metricValue (rowMetrics row) metric)"
    using assms(1) by (simp add: exactRows_def list_all_iff)
  obtain row where row: "row \<in> set cand" "stageKey stage ctx row = k" "node = NODE_BUILDERS stage row ctx"
    using stage_tally.entry_stat [OF e] by auto
  have keys: "filter (\<lambda>r. stageKey stage ctx r = k) cand
      = filter (\<lambda>r. pn_id (NODE_BUILDERS stage r ctx) = pn_id node) cand"
    unfolding row(2) [symmetric] stageKey_inj row(3) ..
  have "(\<Sum>r\<leftarrow>filter (\<lambda>r. stageKey stage ctx r = k) cand. num_int (metricValue (rowMetrics r) metric))
      \<le> (\<Sum>r\<leftarrow>cand. num_int (metricValue (rowMetrics r) metric))"
    by (rule sum_filter_le) (use nat sub in \<open>auto simp: nat_num_def\<close>)
  also have "\<dots> \<le> (\<Sum>r\<leftarrow>rows. num_int (metricValue (rowMetrics r) metric))"
    using sub(2) nat sum_filter_le [of rows "\<lambda>r. num_int (metricValue (rowMetrics r) metric)"]
    by (auto simp: nat_num_def)
  also have "\<dots> \<le> 2 ^ 53" using assms(1) by (simp add: exactRows_def)
  finally have "v = jint (\<Sum>r\<leftarrow>filter (\<lambda>r. stageKey stage ctx r = k) cand. num_int (metricValue (rowMetrics r) metric))"
    using stage_tally.entry_val [OF e] nat sub(1) by auto
  then show ?thesis using stage opt row(3) unfolding keys by (simp add: cand_def)
qed

theorem buildNodeFilterOptions_value_witness:
  "exactRows MQuota sampleRows
   \<and> no_kind (hd (buildNodeFilterOptions str_cmp sampleTable num_str sampleRows MQuota RUser None None None
        (Some sampleFilter))) = KToken
   \<and> no_valueRaw (hd (buildNodeFilterOptions str_cmp sampleTable num_str sampleRows MQuota RUser None None None
        (Some sampleFilter))) = jint 5"
proof -
  define opt where "opt = hd (buildNodeFilterOptions str_cmp sampleTable num_str sampleRows MQuota RUser None None None
        (Some sampleFilter))"
  have ids: "map (\<lambda>o'. (no_kind o', no_value o')) (buildNodeFilterOptions str_cmp sampleTable num_str sampleRows MQuota
      RUser None None None (Some sampleFilter))
      = [(KToken, lit ''token:1''), (KGroup, lit ''group:a''), (KModel, lit ''model:m''), (KModel, lit ''model:n'')]"
    by code_simp
  then have opt: "no_kind opt = KToken" "no_value opt = lit ''token:1''"
    "opt \<in> set (buildNodeFilterOptions str_cmp sampleTable num_str sampleRows MQuota RUser None None None (Some sampleFilter))"
    unfolding opt_def by (cases "buildNodeFilterOptions str_cmp sampleTable num_str sampleRows MQuota RUser None None None
        (Some sampleFilter)"; simp)+
  have sum: "(\<Sum>row\<leftarrow>filter (\<lambda>row. pn_id (NODE_BUILDERS KToken row None) = lit ''token:1'')
      (filterRowsByNodes sampleRows (selectedNodeFiltersExceptKind (Some sampleFilter) KToken)
        (resolveVisibleStages RUser None) None). num_int (metricValue (rowMetrics row) MQuota)) = 5"
    by code_simp
  show ?thesis
    using buildNodeFilterOptions_value [OF sampleRows_ok(1) refl opt(3)] sampleRows_ok(1) opt sum
    unfolding opt_def by simp
qed

section \<open>Drawing order\<close>

text \<open>
    Of fewer than 100000 drawn links, every highlighted link is drawn above every other
  link, and every dimmed link below every link that is neither.
\<close>

theorem drawnLinks_layers:
  assumes "(a, za) \<in> set (drawnLinks lc flow)" "(b, zb) \<in> set (drawnLinks lc flow)"
    and "length (g_links flow) < 100000"
  shows "(l_highlighted a = Some True \<and> l_highlighted b \<noteq> Some True \<longrightarrow> zb < za)
    \<and> (l_dimmed b = Some True \<and> l_highlighted b \<noteq> Some True \<and> l_dimmed a \<noteq> Some True \<longrightarrow> zb < za)"
proof -
  have z: "\<exists>i<100000. z = linkZIndex i l" if zl: "(l, z) \<in> set (drawnLinks lc flow)" for l z
  proof -
    obtain i where "i < length (filter (\<lambda>link. js_lt (Fin 0) (l_value link)) (g_links flow))" "z = linkZIndex i l"
      using zl by (auto simp: drawnLinks_def in_set_enumerate_eq)
    moreover from this have "i < 100000"
      using length_filter_le [of "\<lambda>link. js_lt (Fin 0) (l_value link)" "g_links flow"] assms(3) by linarith
    ultimately show ?thesis by blast
  qed
  obtain i j where "za = linkZIndex i a" "zb = linkZIndex j b" "i < 100000" "j < 100000"
    using z [OF assms(1)] z [OF assms(2)] by blast
  then show ?thesis by (auto simp: linkZIndex_def)
qed

theorem drawnLinks_layers_witness:
  "length (g_links sampleGraph) < 100000 \<and> length (drawnLinks str_cmp sampleGraph) = 4
   \<and> (\<exists>a za b zb. (a, za) \<in> set (drawnLinks str_cmp sampleGraph) \<and> (b, zb) \<in> set (drawnLinks str_cmp sampleGraph)
        \<and> l_highlighted a = Some True \<and> l_highlighted b = Some False \<and> zb < za)"
proof -
  have m: "map (\<lambda>(l, z). l_highlighted l) (drawnLinks str_cmp sampleGraph)
      = [Some True, Some True, Some False, Some False]" by code_simp
  then have len: "length (drawnLinks str_cmp sampleGraph) = 4" by (metis length_map list.size(3,4) One_nat_def add_Suc_right add_0_right numeral_2_eq_2 numeral_Bit0 )
  have g: "length (g_links sampleGraph) < 100000"
    using arg_cong [OF sampleGraph_links, of length] by simp
  obtain a za b zb where ab: "drawnLinks str_cmp sampleGraph ! 0 = (a, za)" "drawnLinks str_cmp sampleGraph ! 2 = (b, zb)"
    by fastforce
  have "l_highlighted a = Some True" "l_highlighted b = Some False"
    using arg_cong [OF m, of "\<lambda>xs. xs ! 0"] arg_cong [OF m, of "\<lambda>xs. xs ! 2"] len ab by simp_all
  moreover have "(a, za) \<in> set (drawnLinks str_cmp sampleGraph)" "(b, zb) \<in> set (drawnLinks str_cmp sampleGraph)"
    using ab len by (metis nth_mem numeral_less_iff zero_less_numeral semiring_norm(76) semiring_norm(78) )+
  moreover from calculation have "zb < za" using drawnLinks_layers [of a za str_cmp sampleGraph b zb] g by simp
  ultimately show ?thesis using g len by blast
qed

end
