(* ===== verification/Alipay_Checkout.thy ===== *)
theory Alipay_Checkout
  imports JS_Array
begin

text \<open>
  The desktop Alipay checkout (\<open>src/web/default/src/features/wallet\<close>): the query gate and the
  status helpers of \<open>lib/alipay-desktop-payment.ts\<close>, and the hook
  \<open>hooks/use-alipay-desktop-payment.ts\<close> as a state machine.  A request that is awaited is a
  pending task; the code after the \<open>await\<close> is the operation that completes the task.  Timers
  and user actions may fire at any time (\<open>checkout_step\<close>), so every interleaving is covered.
  State setters act at once; \<open>tr\<close> is the translation function.  \<open>paidOrders\<close> is a history
  variable: the order numbers the payment query has reported as paid; \<open>mounted\<close> says whether the
  component that uses the hook is still there.
\<close>

section \<open>Data and helpers\<close>

datatype AlipayDesktopFlowStatus =
  Idle | Creating | AwaitingPayment | Success | Closed | Expired | Failed

record AlipayDesktopPayment =
  outTradeNo :: jstr
  payUrl :: jstr
  expiresAt :: jsnum
  displayAmount :: jsnum

record AlipayDesktopCheckoutState =
  dialogOpen :: bool
  status :: AlipayDesktopFlowStatus
  payment :: "AlipayDesktopPayment option"
  errorMessage :: "jstr option"

record DesktopAlipayQueryGate =
  activeFlow :: "int option"
  queuedFlow :: "int option"

datatype release_action = RIdle | RRetry

definition createDesktopAlipayQueryGate :: DesktopAlipayQueryGate where
  "createDesktopAlipayQueryGate = \<lparr>activeFlow = None, queuedFlow = None\<rparr>"

definition tryAcquire :: "int \<Rightarrow> DesktopAlipayQueryGate \<Rightarrow> bool \<times> DesktopAlipayQueryGate" where
  "tryAcquire flow gate =
     (case activeFlow gate of
        None \<Rightarrow> (True, gate\<lparr>activeFlow := Some flow,
                     queuedFlow := (if queuedFlow gate = Some flow then None else queuedFlow gate)\<rparr>)
      | Some a \<Rightarrow> (False, if a \<noteq> flow then gate\<lparr>queuedFlow := Some flow\<rparr> else gate))"

definition release :: "int \<Rightarrow> int \<Rightarrow> DesktopAlipayQueryGate \<Rightarrow> release_action \<times> DesktopAlipayQueryGate" where
  "release flow currentFlow gate =
     (if activeFlow gate \<noteq> Some flow then (RIdle, gate)
      else (if queuedFlow gate = Some currentFlow then RRetry else RIdle,
            gate\<lparr>activeFlow := None, queuedFlow := None\<rparr>))"

text \<open>A refresh response: \<open>success\<close> and \<open>data\<close> (absent or null is \<open>None\<close>); a throw is \<open>None\<close>.\<close>

definition requireDesktopAlipayRefreshData :: "bool option \<Rightarrow> 'a option \<Rightarrow> 'a option" where
  "requireDesktopAlipayRefreshData success data =
     (if success \<noteq> Some True \<or> data = None then None else data)"

definition getDesktopAlipayPollDelay :: "nat \<Rightarrow> int" where
  "getDesktopAlipayPollDelay attempt =
     (if attempt < 4 then 3000 else if attempt < 10 then 5000 else 8000)"

definition isDesktopAlipayTerminal :: "AlipayDesktopFlowStatus \<Rightarrow> bool" where
  "isDesktopAlipayTerminal s = (s = Success \<or> s = Closed \<or> s = Expired)"

definition isDesktopAlipayExpired :: "jsnum \<Rightarrow> jsnum \<Rightarrow> bool" where
  "isDesktopAlipayExpired expires now = js_le (js_mul expires (Fin 1000)) now"

definition shouldPollDesktopAlipay :: "AlipayDesktopFlowStatus \<Rightarrow> bool \<Rightarrow> bool \<Rightarrow> bool" where
  "shouldPollDesktopAlipay s opened hidden = (opened \<and> s = AwaitingPayment \<and> \<not> hidden)"

definition resolveDesktopAlipayStatus :: "jstr \<Rightarrow> AlipayDesktopFlowStatus" where
  "resolveDesktopAlipayStatus tradeStatus =
     (if tradeStatus = lit ''TRADE_SUCCESS'' \<or> tradeStatus = lit ''TRADE_FINISHED'' then Success
      else if tradeStatus = lit ''TRADE_CLOSED'' then Closed else AwaitingPayment)"

section \<open>The hook\<close>

text \<open>The pending tasks: an order being created, a payment query, a balance refresh.\<close>

datatype task =
  CreateTask (task_flow: int) (task_amount: jsnum)
| QueryTask (task_flow: int) (task_manual: bool) (task_payment: AlipayDesktopPayment)
| RefreshTask (task_flow: int) (task_manual: bool) (task_payment: AlipayDesktopPayment)

datatype toast = ToastError jstr | ToastSuccess jstr

record checkout =
  cstate :: AlipayDesktopCheckoutState
  isChecking :: bool
  attemptRef :: nat
  flowRef :: int
  paymentRef :: "AlipayDesktopPayment option"
  queryGate :: DesktopAlipayQueryGate
  tasks :: "task list"
  toasts :: "toast list"
  paidOrders :: "jstr list"
  mounted :: bool

definition initCheckout :: checkout where
  "initCheckout =
     \<lparr>cstate = \<lparr>dialogOpen = False, status = Idle, payment = None, errorMessage = None\<rparr>,
      isChecking = False, attemptRef = 0, flowRef = 0, paymentRef = None,
      queryGate = createDesktopAlipayQueryGate, tasks = [], toasts = [], paidOrders = [], mounted = True\<rparr>"

definition setExpired :: "checkout \<Rightarrow> checkout" where
  "setExpired s = s\<lparr>cstate := (cstate s)\<lparr>status := Expired, errorMessage := None\<rparr>\<rparr>"

text \<open>\<open>checkOrder\<close> up to its first \<open>await\<close>.\<close>

definition checkOrder :: "bool \<Rightarrow> jsnum \<Rightarrow> checkout \<Rightarrow> checkout" where
  "checkOrder manual now s =
     (case paymentRef s of
        None \<Rightarrow> s
      | Some p \<Rightarrow>
          if isDesktopAlipayExpired (expiresAt p) now then setExpired s
          else case tryAcquire (flowRef s) (queryGate s) of
                 (False, gate) \<Rightarrow> s\<lparr>queryGate := gate\<rparr>
               | (True, gate) \<Rightarrow>
                   s\<lparr>queryGate := gate, attemptRef := attemptRef s + 1,
                     isChecking := (if manual then True else isChecking s),
                     tasks := tasks s @ [QueryTask (flowRef s) manual p]\<rparr>)"

text \<open>The \<open>finally\<close> block of \<open>checkOrder\<close>.\<close>

definition finishCheck :: "int \<Rightarrow> bool \<Rightarrow> jsnum \<Rightarrow> checkout \<Rightarrow> checkout" where
  "finishCheck flow manual now s =
     (let s1 = (if manual \<and> flowRef s = flow then s\<lparr>isChecking := False\<rparr> else s);
          (action, gate) = release flow (flowRef s1) (queryGate s1);
          s2 = s1\<lparr>queryGate := gate\<rparr>
      in if action = RRetry then checkOrder False now s2 else s2)"

definition setStatus :: "AlipayDesktopFlowStatus \<Rightarrow> checkout \<Rightarrow> checkout" where
  "setStatus next s =
     (if status (cstate s) = next \<and> errorMessage (cstate s) = None then s
      else s\<lparr>cstate := (cstate s)\<lparr>status := next, errorMessage := None\<rparr>\<rparr>)"

definition dropTask :: "task \<Rightarrow> checkout \<Rightarrow> checkout" where
  "dropTask t s = s\<lparr>tasks := remove1 t (tasks s)\<rparr>"

text \<open>
  The response of a payment query: a rejected request, or a response with its trade status
  (\<open>None\<close> when the response has no data).
\<close>

datatype query_response = QueryRejected | QueryResponse "jstr option"

definition queryDone ::
    "(jstr \<Rightarrow> jstr) \<Rightarrow> int \<Rightarrow> bool \<Rightarrow> AlipayDesktopPayment \<Rightarrow> query_response \<Rightarrow> jsnum \<Rightarrow> checkout \<Rightarrow> checkout" where
  "queryDone tr flow manual p resp now s0 =
     (let s = dropTask (QueryTask flow manual p) s0 in
      if flowRef s \<noteq> flow then finishCheck flow manual now s
      else case resp of
        QueryResponse (Some tradeStatus) \<Rightarrow>
          (let next = resolveDesktopAlipayStatus tradeStatus in
           if next = Success
           then s\<lparr>tasks := tasks s @ [RefreshTask flow manual p], paidOrders := outTradeNo p # paidOrders s\<rparr>
           else finishCheck flow manual now (setStatus next s))
      | _ \<Rightarrow>
          finishCheck flow manual now
            (if manual
             then s\<lparr>cstate := (cstate s)\<lparr>errorMessage := Some (tr (lit ''Unable to check payment status''))\<rparr>\<rparr>
             else s))"

definition refreshDone ::
    "(jstr \<Rightarrow> jstr) \<Rightarrow> int \<Rightarrow> bool \<Rightarrow> AlipayDesktopPayment \<Rightarrow> bool \<Rightarrow> jsnum \<Rightarrow> checkout \<Rightarrow> checkout" where
  "refreshDone tr flow manual p refreshed now s0 =
     (let s = dropTask (RefreshTask flow manual p) s0 in
      if flowRef s \<noteq> flow then finishCheck flow manual now s
      else let s1 = (if \<not> refreshed
                     then s\<lparr>toasts := toasts s @ [ToastError (tr (lit ''Unable to refresh balance''))]\<rparr> else s);
               s2 = s1\<lparr>toasts := toasts s1 @ [ToastSuccess (tr (lit ''Payment successful''))]\<rparr>
           in finishCheck flow manual now (setStatus Success s2))"

definition startPayment :: "jsnum \<Rightarrow> checkout \<Rightarrow> checkout" where
  "startPayment display s =
     s\<lparr>flowRef := flowRef s + 1, isChecking := False,
       cstate := \<lparr>dialogOpen = True, status = Creating, payment = None, errorMessage = None\<rparr>,
       paymentRef := None, attemptRef := 0,
       tasks := tasks s @ [CreateTask (flowRef s + 1) display]\<rparr>"

record create_data =
  cd_out_trade_no :: jstr
  cd_pay_url :: jstr
  cd_expires_at :: jsnum

datatype create_response = CreateRejected | CreateResponse "jstr option" "create_data option"

definition failCreate :: "jstr \<Rightarrow> checkout \<Rightarrow> checkout" where
  "failCreate msg s =
     s\<lparr>toasts := toasts s @ [ToastError msg],
       cstate := \<lparr>dialogOpen = True, status = Failed, payment = None, errorMessage = Some msg\<rparr>\<rparr>"

definition createDone ::
    "(jstr \<Rightarrow> jstr) \<Rightarrow> int \<Rightarrow> jsnum \<Rightarrow> create_response \<Rightarrow> checkout \<Rightarrow> checkout" where
  "createDone tr flow display resp s0 =
     (let s = dropTask (CreateTask flow display) s0; failed = tr (lit ''Payment request failed'') in
      if flowRef s \<noteq> flow then s
      else case resp of
        CreateRejected \<Rightarrow> failCreate failed s
      | CreateResponse msg data \<Rightarrow>
          (case data of
             Some d \<Rightarrow>
               if cd_out_trade_no d = [] \<or> cd_pay_url d = []
               then failCreate (case msg of Some (c # cs) \<Rightarrow> c # cs | _ \<Rightarrow> failed) s
               else let p = \<lparr>outTradeNo = cd_out_trade_no d, payUrl = cd_pay_url d,
                             expiresAt = cd_expires_at d, displayAmount = display\<rparr>
                    in s\<lparr>paymentRef := Some p,
                         cstate := \<lparr>dialogOpen = True, status = AwaitingPayment, payment = Some p,
                                    errorMessage = None\<rparr>\<rparr>
           | None \<Rightarrow> failCreate (case msg of Some (c # cs) \<Rightarrow> c # cs | _ \<Rightarrow> failed) s))"

text \<open>The polling effect's \<open>expireLocally\<close> and its timer, which only run while a payment is awaited.\<close>

definition polling :: "checkout \<Rightarrow> bool" where
  "polling s = (payment (cstate s) \<noteq> None \<and> dialogOpen (cstate s) \<and> status (cstate s) = AwaitingPayment)"

definition expireLocally :: "jsnum \<Rightarrow> checkout \<Rightarrow> checkout" where
  "expireLocally now s =
     (case payment (cstate s) of
        None \<Rightarrow> s
      | Some p \<Rightarrow> if isDesktopAlipayExpired (expiresAt p) now then setExpired s else s)"

definition autoClose :: "checkout \<Rightarrow> checkout" where
  "autoClose s = s\<lparr>cstate := (cstate s)\<lparr>dialogOpen := False\<rparr>\<rparr>"

definition closeDialog :: "checkout \<Rightarrow> checkout" where
  "closeDialog s =
     s\<lparr>flowRef := flowRef s + 1, isChecking := False, cstate := (cstate s)\<lparr>dialogOpen := False\<rparr>\<rparr>"

definition retryPayment :: "checkout \<Rightarrow> checkout" where
  "retryPayment s =
     s\<lparr>flowRef := flowRef s + 1, isChecking := False, attemptRef := 0, paymentRef := None,
       cstate := \<lparr>dialogOpen = False, status = Idle, payment = None, errorMessage = None\<rparr>\<rparr>"

definition unmount :: "checkout \<Rightarrow> checkout" where
  "unmount s = s\<lparr>flowRef := flowRef s + 1, mounted := False\<rparr>"

definition processing :: "checkout \<Rightarrow> bool" where
  "processing s = (dialogOpen (cstate s) \<and> (status (cstate s) = Creating \<or> isChecking s))"

section \<open>Steps\<close>

inductive checkout_step :: "(jstr \<Rightarrow> jstr) \<Rightarrow> checkout \<Rightarrow> checkout \<Rightarrow> bool" for tr where
  start: "mounted s \<Longrightarrow> checkout_step tr s (startPayment display s)"
| created: "CreateTask flow display \<in> set (tasks s) \<Longrightarrow>
    checkout_step tr s (createDone tr flow display resp s)"
| checkNow: "mounted s \<Longrightarrow> checkout_step tr s (checkOrder True now s)"
| poll: "mounted s \<Longrightarrow> polling s \<Longrightarrow> checkout_step tr s (checkOrder False now s)"
| expire: "mounted s \<Longrightarrow> polling s \<Longrightarrow> checkout_step tr s (expireLocally now s)"
| queried: "QueryTask flow manual p \<in> set (tasks s) \<Longrightarrow>
    checkout_step tr s (queryDone tr flow manual p qresp now s)"
| refreshed: "RefreshTask flow manual p \<in> set (tasks s) \<Longrightarrow>
    checkout_step tr s (refreshDone tr flow manual p ok now s)"
| auto: "mounted s \<Longrightarrow> dialogOpen (cstate s) \<Longrightarrow> status (cstate s) = Success \<Longrightarrow> checkout_step tr s (autoClose s)"
| close: "mounted s \<Longrightarrow> checkout_step tr s (closeDialog s)"
| retry: "mounted s \<Longrightarrow> checkout_step tr s (retryPayment s)"
| unmounted: "mounted s \<Longrightarrow> checkout_step tr s (unmount s)"

inductive checkout_reachable :: "(jstr \<Rightarrow> jstr) \<Rightarrow> checkout \<Rightarrow> bool" for tr where
  init: "checkout_reachable tr initCheckout"
| step: "checkout_reachable tr s \<Longrightarrow> checkout_step tr s s' \<Longrightarrow> checkout_reachable tr s'"

section \<open>The invariant\<close>

fun is_check :: "task \<Rightarrow> bool" where
  "is_check (CreateTask _ _) = False"
| "is_check _ = True"

text \<open>The checks in flight, and the flow of the one in flight.\<close>

definition checks :: "checkout \<Rightarrow> task list" where
  "checks s = filter is_check (tasks s)"

definition gate_ok :: "checkout \<Rightarrow> bool" where
  "gate_ok s = (length (checks s) \<le> 1 \<and> activeFlow (queryGate s) = map_option task_flow (list_head (checks s)))"

definition spinner_ok :: "checkout \<Rightarrow> bool" where
  "spinner_ok s = (mounted s \<longrightarrow> isChecking s \<longleftrightarrow> (\<exists>t\<in>set (checks s). task_manual t \<and> task_flow t = flowRef s))"

definition creates :: "checkout \<Rightarrow> int list" where
  "creates s = map task_flow (filter (\<lambda>t. \<not> is_check t) (tasks s))"

definition flows_ok :: "checkout \<Rightarrow> bool" where
  "flows_ok s =
     ((\<forall>t\<in>set (tasks s). task_flow t \<le> flowRef s) \<and> distinct (creates s)
      \<and> (flowRef s \<in> set (creates s) \<longrightarrow> paymentRef s = None)
      \<and> (\<forall>t\<in>set (checks s). task_flow t = flowRef s \<longrightarrow> paymentRef s = Some (task_payment t)))"

definition shown_ok :: "checkout \<Rightarrow> bool" where
  "shown_ok s =
     (payment (cstate s) = paymentRef s
      \<and> (status (cstate s) \<in> {AwaitingPayment, Success, Closed, Expired} \<longrightarrow> paymentRef s \<noteq> None))"

definition paid_ok :: "checkout \<Rightarrow> bool" where
  "paid_ok s =
     ((\<forall>flow manual p. RefreshTask flow manual p \<in> set (tasks s) \<longrightarrow> outTradeNo p \<in> set (paidOrders s))
      \<and> (status (cstate s) = Success \<longrightarrow>
           (\<exists>p. paymentRef s = Some p \<and> outTradeNo p \<in> set (paidOrders s))))"

definition checkout_inv :: "checkout \<Rightarrow> bool" where
  "checkout_inv s = (gate_ok s \<and> spinner_ok s \<and> flows_ok s \<and> shown_ok s \<and> paid_ok s)"

lemmas checkout_defs =
  gate_ok_def spinner_ok_def flows_ok_def shown_ok_def paid_ok_def checks_def creates_def

lemma inv_init: "checkout_inv initCheckout"
  by (simp add: checkout_inv_def checkout_defs initCheckout_def createDesktopAlipayQueryGate_def)

text \<open>Operations that only touch the displayed state, the toasts or the attempt count.\<close>

lemma inv_cong:
  assumes "checkout_inv s" "isChecking s' = isChecking s" "mounted s' = mounted s" "flowRef s' = flowRef s"
    "paymentRef s' = paymentRef s" "queryGate s' = queryGate s" "tasks s' = tasks s"
    "paidOrders s' = paidOrders s" "shown_ok s'" "paid_ok s'"
  shows "checkout_inv s'"
  using assms by (simp add: checkout_inv_def checkout_defs)

lemma inv_setExpired:
  "checkout_inv s \<Longrightarrow> paymentRef s \<noteq> None \<Longrightarrow> checkout_inv (setExpired s)"
  by (rule inv_cong) (simp_all add: setExpired_def checkout_inv_def shown_ok_def paid_ok_def)

lemma inv_acquire:
  assumes "checkout_inv s" "paymentRef s = Some p" "tryAcquire (flowRef s) (queryGate s) = (True, gate)"
  shows "checkout_inv (s\<lparr>queryGate := gate, attemptRef := n,
    isChecking := (if manual then True else isChecking s),
    tasks := tasks s @ [QueryTask (flowRef s) manual p]\<rparr>)"
proof -
  have none: "activeFlow (queryGate s) = None" and gate: "activeFlow gate = Some (flowRef s)"
    using assms(3) by (auto simp: tryAcquire_def split: option.splits)
  with assms(1) have "checks s = []" by (simp add: checkout_inv_def gate_ok_def)
  then have c: "filter is_check (tasks s) = []" by (simp add: checks_def)
  show ?thesis
    using assms(1,2) c gate by (auto simp: checkout_inv_def checkout_defs)
qed

lemma inv_checkOrder:
  assumes "checkout_inv s"
  shows "checkout_inv (checkOrder manual now s)"
proof (cases "paymentRef s")
  case (Some p)
  obtain got gate where g: "tryAcquire (flowRef s) (queryGate s) = (got, gate)" by fastforce
  have refused: "checkout_inv (s\<lparr>queryGate := gate\<rparr>)" if "\<not> got"
  proof -
    have "activeFlow gate = activeFlow (queryGate s)"
      using g that by (auto simp: tryAcquire_def split: option.splits)
    with assms show ?thesis by (simp add: checkout_inv_def checkout_defs)
  qed
  show ?thesis
    using inv_setExpired [OF assms] inv_acquire [OF assms Some] refused g Some
    by (cases got) (simp_all add: checkOrder_def)
qed (simp add: checkOrder_def assms)

text \<open>
  Completing a check: the task is gone, and the spinner and the gate still show it.  The
  \<open>finally\<close> block restores the invariant and hands the gate to the waiting flow.
\<close>

definition check_ending :: "int \<Rightarrow> bool \<Rightarrow> checkout \<Rightarrow> bool" where
  "check_ending flow manual s =
     (checks s = [] \<and> activeFlow (queryGate s) = Some flow
      \<and> (mounted s \<longrightarrow> isChecking s \<longleftrightarrow> manual \<and> flowRef s = flow)
      \<and> flows_ok s \<and> shown_ok s \<and> paid_ok s)"

lemma inv_finishCheck:
  assumes "check_ending flow manual s"
  shows "checkout_inv (finishCheck flow manual now s)"
proof -
  define s1 where "s1 = (if manual \<and> flowRef s = flow then s\<lparr>isChecking := False\<rparr> else s)"
  define s2 where "s2 = s1\<lparr>queryGate := snd (release flow (flowRef s1) (queryGate s1))\<rparr>"
  have f: "flowRef s2 = flowRef s" "paymentRef s2 = paymentRef s" "tasks s2 = tasks s" "cstate s2 = cstate s"
    "paidOrders s2 = paidOrders s" "mounted s2 = mounted s"
    by (simp_all add: s2_def s1_def)
  have g: "activeFlow (queryGate s2) = None" and c: "mounted s \<Longrightarrow> \<not> isChecking s2" and none: "filter is_check (tasks s) = []"
    using assms by (auto simp: s2_def s1_def check_ending_def release_def checks_def)
  have "checkout_inv s2"
    using assms g c none by (simp add: checkout_inv_def checkout_defs check_ending_def f)
  then show ?thesis
    using inv_checkOrder [of s2 False now]
    by (simp add: finishCheck_def Let_def s1_def [symmetric] s2_def case_prod_unfold)
qed

lemma length_le1: "length xs \<le> 1 \<Longrightarrow> x \<in> set xs \<Longrightarrow> xs = [x]"
  by (cases xs) auto

lemma only_check:
  assumes "checkout_inv s" "t \<in> set (tasks s)" "is_check t"
  shows "filter is_check (tasks s) = [t]"
  using assms length_le1 [of "checks s" t] by (simp add: checkout_inv_def gate_ok_def checks_def)

lemma filter_remove1: "\<not> P t \<Longrightarrow> filter P (remove1 t xs) = filter P xs"
  by (induction xs) auto

lemma filter_remove1_hit: "P t \<Longrightarrow> filter P (remove1 t xs) = remove1 t (filter P xs)"
  by (induction xs) auto

lemma ending_dropTask:
  assumes "checkout_inv s" "t \<in> set (tasks s)" "is_check t"
  shows "check_ending (task_flow t) (task_manual t) (dropTask t s)"
proof -
  note one = only_check [OF assms]
  have c: "checks (dropTask t s) = []"
    using one assms(3) by (simp add: checks_def dropTask_def filter_remove1_hit)
  have cr: "creates (dropTask t s) = creates s"
    using assms(3) by (simp add: creates_def dropTask_def filter_remove1)
  have sub: "set (tasks (dropTask t s)) \<subseteq> set (tasks s)"
    using set_remove1_subset by (fastforce simp: dropTask_def)
  have "activeFlow (queryGate s) = Some (task_flow t)"
    "mounted s \<longrightarrow> isChecking s \<longleftrightarrow> task_manual t \<and> flowRef s = task_flow t"
    using assms(1) one by (auto simp: checkout_inv_def gate_ok_def spinner_ok_def checks_def)
  moreover have "flows_ok (dropTask t s)"
  proof -
    have "paymentRef (dropTask t s) = paymentRef s" "flowRef (dropTask t s) = flowRef s"
      by (simp_all add: dropTask_def)
    then show ?thesis using assms(1) sub c cr unfolding checkout_inv_def flows_ok_def by auto
  qed
  moreover have "shown_ok (dropTask t s)"
    using assms(1) by (simp add: checkout_inv_def shown_ok_def dropTask_def)
  moreover have "paid_ok (dropTask t s)"
  proof -
    have "paymentRef (dropTask t s) = paymentRef s" "cstate (dropTask t s) = cstate s"
      "paidOrders (dropTask t s) = paidOrders s" by (simp_all add: dropTask_def)
    then show ?thesis using assms(1) sub unfolding checkout_inv_def paid_ok_def by fastforce
  qed
  ultimately show ?thesis using c by (simp add: check_ending_def dropTask_def)
qed

lemma ending_cong:
  assumes "check_ending flow manual s" "isChecking s' = isChecking s" "mounted s' = mounted s" "flowRef s' = flowRef s"
    "paymentRef s' = paymentRef s" "queryGate s' = queryGate s" "tasks s' = tasks s"
    "shown_ok s'" "paid_ok s'"
  shows "check_ending flow manual s'"
  using assms by (simp add: check_ending_def checks_def creates_def flows_ok_def)

lemma current_payment:
  assumes "checkout_inv s" "t \<in> set (tasks s)" "is_check t" "task_flow t = flowRef s"
  shows "paymentRef s = Some (task_payment t)"
  using assms by (auto simp: checkout_inv_def flows_ok_def checks_def)

lemma dropTask_fields [simp]:
  "flowRef (dropTask t s) = flowRef s" "paymentRef (dropTask t s) = paymentRef s"
  "cstate (dropTask t s) = cstate s" "paidOrders (dropTask t s) = paidOrders s"
  "toasts (dropTask t s) = toasts s" "queryGate (dropTask t s) = queryGate s"
  "isChecking (dropTask t s) = isChecking s" "mounted (dropTask t s) = mounted s"
  by (simp_all add: dropTask_def)

lemma setStatus_fields [simp]:
  "flowRef (setStatus n s) = flowRef s" "paymentRef (setStatus n s) = paymentRef s"
  "paidOrders (setStatus n s) = paidOrders s" "toasts (setStatus n s) = toasts s"
  "queryGate (setStatus n s) = queryGate s" "isChecking (setStatus n s) = isChecking s" "mounted (setStatus n s) = mounted s"
  "tasks (setStatus n s) = tasks s" "status (cstate (setStatus n s)) = n"
  "payment (cstate (setStatus n s)) = payment (cstate s)"
  by (simp_all add: setStatus_def)

lemma ending_setStatus:
  assumes "check_ending flow manual s" "paymentRef s = Some p" "next = Success \<Longrightarrow> outTradeNo p \<in> set (paidOrders s)"
  shows "check_ending flow manual (setStatus next s)"
  by (rule ending_cong [OF assms(1)])
     (use assms in \<open>simp_all add: check_ending_def shown_ok_def paid_ok_def\<close>)

lemma ending_refresh:
  assumes "check_ending flow manual s" "flow = flowRef s" "paymentRef s = Some p"
  shows "checkout_inv (s\<lparr>tasks := tasks s @ [RefreshTask flow manual p], paidOrders := outTradeNo p # paidOrders s\<rparr>)"
  using assms by (auto simp: check_ending_def checkout_inv_def checkout_defs)

lemma inv_queryDone:
  assumes "checkout_inv s" "QueryTask flow manual p \<in> set (tasks s)"
  shows "checkout_inv (queryDone tr flow manual p resp now s)"
proof -
  let ?t = "QueryTask flow manual p" and ?s = "dropTask (QueryTask flow manual p) s"
  have e: "check_ending flow manual ?s" using ending_dropTask [OF assms] by simp
  note fin = inv_finishCheck [OF e]
  show ?thesis
  proof (cases "flowRef s = flow")
    case True
    have pay: "paymentRef s = Some p" using current_payment [OF assms] True by simp
    let ?err = "\<lambda>m. ?s\<lparr>cstate := (cstate s)\<lparr>errorMessage := m\<rparr>\<rparr>"
    have "check_ending flow manual (?err m)" for m
      by (rule ending_cong [OF e]) (use e in \<open>simp_all add: check_ending_def shown_ok_def paid_ok_def\<close>)
    note err = inv_finishCheck [OF this]
    show ?thesis
    proof (cases resp)
      case QueryRejected
      then show ?thesis using True fin err by (cases manual) (simp_all add: queryDone_def Let_def)
    next
      case (QueryResponse ts)
      show ?thesis
      proof (cases ts)
        case None
        then show ?thesis using True QueryResponse fin err by (cases manual) (simp_all add: queryDone_def Let_def)
      next
        case (Some status)
        have "checkout_inv (finishCheck flow manual now (setStatus next ?s))" if "next \<noteq> Success" for "next"
          by (rule inv_finishCheck, rule ending_setStatus [OF e]) (use pay that in simp_all)
        then show ?thesis
          using True QueryResponse Some ending_refresh [OF e] pay by (simp add: queryDone_def Let_def)
      qed
    qed
  qed (simp add: queryDone_def Let_def fin)
qed

lemma inv_refreshDone:
  assumes "checkout_inv s" "RefreshTask flow manual p \<in> set (tasks s)"
  shows "checkout_inv (refreshDone tr flow manual p ok now s)"
proof -
  let ?s = "dropTask (RefreshTask flow manual p) s"
  have e: "check_ending flow manual ?s" using ending_dropTask [OF assms] by simp
  show ?thesis
  proof (cases "flowRef s = flow")
    case True
    have pay: "paymentRef s = Some p" using current_payment [OF assms] True by simp
    have paid: "outTradeNo p \<in> set (paidOrders s)"
      using assms by (auto simp: checkout_inv_def paid_ok_def)
    have "check_ending flow manual (?s\<lparr>toasts := ts\<rparr>)" for ts
      by (rule ending_cong [OF e]) (use e in \<open>simp_all add: check_ending_def shown_ok_def paid_ok_def\<close>)
    then have "check_ending flow manual (setStatus Success (?s\<lparr>toasts := ts\<rparr>))" for ts
      by (rule ending_setStatus) (use pay paid in simp_all)
    note fin = inv_finishCheck [OF this]
    show ?thesis using True fin by (simp add: refreshDone_def Let_def)
  qed (simp add: refreshDone_def Let_def inv_finishCheck [OF e])
qed

lemma inv_bump:
  assumes "checkout_inv s" "flowRef s' = flowRef s + 1" "mounted s' \<Longrightarrow> \<not> isChecking s'" "queryGate s' = queryGate s"
    "tasks s' = tasks s" "shown_ok s'" "paid_ok s'"
  shows "checkout_inv s'"
proof -
  have old: "\<forall>t\<in>set (tasks s). task_flow t \<le> flowRef s"
    using assms(1) by (simp add: checkout_inv_def flows_ok_def)
  then have "\<forall>t\<in>set (tasks s). task_flow t \<noteq> flowRef s + 1" by fastforce
  then have new: "flowRef s + 1 \<notin> set (creates s)" "\<forall>t\<in>set (checks s). task_flow t \<noteq> flowRef s + 1"
    by (auto simp: creates_def checks_def)
  have same: "creates s' = creates s" "checks s' = checks s" by (simp_all add: creates_def checks_def assms(5))
  have "flows_ok s'"
    unfolding flows_ok_def same assms(2,5) using assms(1) old new
    by (force simp: checkout_inv_def flows_ok_def)
  moreover have "spinner_ok s'" unfolding spinner_ok_def same assms(2) using new assms(3) by auto
  moreover have "gate_ok s'" using assms(1) by (simp add: checkout_inv_def gate_ok_def same assms(4))
  ultimately show ?thesis using assms(6,7) by (simp add: checkout_inv_def)
qed

lemma inv_start:
  assumes "checkout_inv s"
  shows "checkout_inv (startPayment display s)"
proof -
  define s0 where "s0 = (startPayment display s)\<lparr>tasks := tasks s\<rparr>"
  have s0: "checkout_inv s0"
    by (rule inv_bump [OF assms])
       (use assms in \<open>simp_all add: s0_def startPayment_def shown_ok_def paid_ok_def checkout_inv_def\<close>)
  have new: "flowRef s + 1 \<notin> set (creates s)"
    using assms by (force simp: checkout_inv_def flows_ok_def creates_def)
  have fields: "checks (startPayment display s) = checks s0"
    "creates (startPayment display s) = creates s @ [flowRef s + 1]" "creates s0 = creates s"
    "tasks (startPayment display s) = tasks s @ [CreateTask (flowRef s + 1) display]" "tasks s0 = tasks s"
    "flowRef (startPayment display s) = flowRef s + 1" "paymentRef (startPayment display s) = None"
    "flowRef s0 = flowRef s + 1" "queryGate (startPayment display s) = queryGate s0" "paymentRef s0 = None"
    "isChecking (startPayment display s) = isChecking s0" "mounted (startPayment display s) = mounted s0"
    "cstate (startPayment display s) = cstate s0" "paidOrders (startPayment display s) = paidOrders s0"
    by (simp_all add: checks_def creates_def startPayment_def s0_def)
  show ?thesis
    using s0 new unfolding checkout_inv_def gate_ok_def spinner_ok_def flows_ok_def shown_ok_def paid_ok_def fields
    by auto
qed

lemma inv_createDone:
  assumes "checkout_inv s" "CreateTask flow display \<in> set (tasks s)"
  shows "checkout_inv (createDone tr flow display resp s)"
proof -
  let ?t = "CreateTask flow display"
  define s0 where "s0 = dropTask ?t s"
  have f: "flowRef s0 = flowRef s" "paymentRef s0 = paymentRef s" "cstate s0 = cstate s" "paidOrders s0 = paidOrders s"
    "queryGate s0 = queryGate s" "isChecking s0 = isChecking s" "mounted s0 = mounted s"
    by (simp_all add: s0_def)
  have checks: "checks s0 = checks s" by (simp add: checks_def s0_def dropTask_def filter_remove1)
  have sub: "set (tasks s0) \<subseteq> set (tasks s)" 
    using set_remove1_subset by (fastforce simp: s0_def dropTask_def)
  have cr: "distinct (creates s0) \<and> flow \<notin> set (creates s0)" "set (creates s0) \<subseteq> set (creates s)"
  proof -
    have d: "distinct (creates s)" using assms(1) by (simp add: checkout_inv_def flows_ok_def)
    let ?cs = "filter (\<lambda>t. \<not> is_check t) (tasks s)"
    have "?t \<in> set ?cs" using assms(2) by simp
    then have "mset ?cs = add_mset ?t (mset (remove1 ?t ?cs))" by simp
    then have "image_mset task_flow (mset ?cs) = add_mset flow (image_mset task_flow (mset (remove1 ?t ?cs)))"
      by (metis image_mset_add_mset task.sel(1))
    then have "mset (creates s) = add_mset flow (mset (map task_flow (remove1 ?t ?cs)))"
      unfolding creates_def mset_map .
    moreover have "creates s0 = map task_flow (remove1 ?t ?cs)"
      by (simp add: creates_def s0_def dropTask_def filter_remove1_hit)
    ultimately have m: "mset (creates s) = mset (flow # creates s0)" by simp
    show "distinct (creates s0) \<and> flow \<notin> set (creates s0)"
      using d mset_eq_imp_distinct_iff [OF m] by simp
    show "set (creates s0) \<subseteq> set (creates s)" using mset_eq_setD [OF m] by auto
  qed
  have s0: "checkout_inv s0"
  proof -
    have "gate_ok s0" "spinner_ok s0" "shown_ok s0"
      using assms(1) by (simp_all add: checkout_inv_def gate_ok_def spinner_ok_def shown_ok_def checks f)
    moreover have "flows_ok s0"
      using assms(1) sub cr unfolding checkout_inv_def flows_ok_def checks f by blast
    moreover have "paid_ok s0"
      using assms(1) sub unfolding checkout_inv_def paid_ok_def f by blast
    ultimately show ?thesis by (simp add: checkout_inv_def)
  qed
  show ?thesis
  proof (cases "flowRef s = flow")
    case True
    have none: "paymentRef s0 = None"
      using assms True f by (auto simp: checkout_inv_def flows_ok_def creates_def image_iff)
    then have nochk: "\<forall>t\<in>set (checks s0). task_flow t \<noteq> flowRef s0"
      using s0 by (auto simp: checkout_inv_def flows_ok_def)
    have fail: "checkout_inv (failCreate msg s0)" for msg
      by (rule inv_cong [OF s0])
         (use s0 none in \<open>simp_all add: failCreate_def shown_ok_def paid_ok_def checkout_inv_def\<close>)
    have ok: "checkout_inv (s0\<lparr>paymentRef := Some p,
        cstate := \<lparr>dialogOpen = True, status = AwaitingPayment, payment = Some p, errorMessage = None\<rparr>\<rparr>)" for p
    proof -
      let ?s = "s0\<lparr>paymentRef := Some p,
        cstate := \<lparr>dialogOpen = True, status = AwaitingPayment, payment = Some p, errorMessage = None\<rparr>\<rparr>"
      have "creates ?s = creates s0" "checks ?s = checks s0" by (simp_all add: creates_def checks_def)
      then show ?thesis
        using s0 nochk cr(1) True f
        unfolding checkout_inv_def gate_ok_def spinner_ok_def flows_ok_def shown_ok_def paid_ok_def by auto
    qed
    show ?thesis
      using True f fail ok by (auto simp: createDone_def Let_def s0_def [symmetric]
          split: create_response.split option.split)
  qed (use s0 f in \<open>simp add: createDone_def Let_def s0_def [symmetric]\<close>)
qed

lemma inv_step: "checkout_step tr s s' \<Longrightarrow> checkout_inv s \<Longrightarrow> checkout_inv s'"
proof (induction rule: checkout_step.induct)
  case (expire s now)
  then show ?case
    using inv_setExpired [of s] by (auto simp: expireLocally_def checkout_inv_def shown_ok_def split: option.split)
next
  case (auto s)
  show ?case
    by (rule inv_cong [OF auto.prems])
       (use auto in \<open>simp_all add: autoClose_def checkout_inv_def shown_ok_def paid_ok_def\<close>)
next
  case (close s)
  show ?case
    by (rule inv_bump [OF close.prems])
       (use close in \<open>simp_all add: closeDialog_def checkout_inv_def shown_ok_def paid_ok_def\<close>)
next
  case (retry s)
  show ?case
    by (rule inv_bump [OF retry.prems])
       (use retry in \<open>simp_all add: retryPayment_def checkout_inv_def shown_ok_def paid_ok_def\<close>)
next
  case (unmounted s)
  show ?case
    by (rule inv_bump [OF unmounted.prems])
       (use unmounted in \<open>simp_all add: unmount_def checkout_inv_def shown_ok_def paid_ok_def\<close>)
qed (simp_all add: inv_start inv_createDone inv_checkOrder inv_queryDone inv_refreshDone)

lemma reachable_inv: "checkout_reachable tr s \<Longrightarrow> checkout_inv s"
  by (induction rule: checkout_reachable.induct) (use inv_init inv_step in blast)+

section \<open>Properties\<close>

text \<open>
  C7.  Success is shown only for a confirmed payment: in every state the checkout can reach, if
  its status is success then a payment is on display, it is the payment being checked, and the
  payment query has reported that very order as paid.
\<close>

theorem alipay_success_confirmed:
  assumes "checkout_reachable tr s" "status (cstate s) = Success"
  shows "\<exists>p. payment (cstate s) = Some p \<and> paymentRef s = Some p \<and> outTradeNo p \<in> set (paidOrders s)"
  using reachable_inv [OF assms(1)] assms(2) by (auto simp: checkout_inv_def shown_ok_def paid_ok_def)

text \<open>
  C8.  At most one payment check is in flight at any time, the query gate holds exactly its
  flow, and while the component is mounted the checking indicator is on exactly when a manual
  check of the current flow is in flight.
\<close>

theorem alipay_single_check:
  assumes "checkout_reachable tr s"
  shows "length (checks s) \<le> 1
    \<and> activeFlow (queryGate s) = map_option task_flow (list_head (checks s))
    \<and> (mounted s \<longrightarrow> isChecking s = (\<exists>t\<in>set (checks s). task_manual t \<and> task_flow t = flowRef s))"
  using reachable_inv [OF assms] by (simp add: checkout_inv_def gate_ok_def spinner_ok_def)

lemma checkOrder_fields [simp]:
  "toasts (checkOrder manual now s) = toasts s" "paymentRef (checkOrder manual now s) = paymentRef s"
  "payment (cstate (checkOrder manual now s)) = payment (cstate s)"
  "flowRef (checkOrder manual now s) = flowRef s" "paidOrders (checkOrder manual now s) = paidOrders s"
  "dialogOpen (cstate (checkOrder manual now s)) = dialogOpen (cstate s)"
  by (simp_all add: checkOrder_def setExpired_def split: option.split prod.split bool.split)

text \<open>The displayed state at \<open>now\<close> is that of \<open>s\<close>, or the payment of \<open>s\<close> has run out and is shown as expired.\<close>

definition sameOrExpired :: "jsnum \<Rightarrow> checkout \<Rightarrow> checkout \<Rightarrow> bool" where
  "sameOrExpired now s s' =
     (cstate s' = cstate s \<or>
      (case paymentRef s of
         None \<Rightarrow> False
       | Some p \<Rightarrow> isDesktopAlipayExpired (expiresAt p) now \<and> cstate s' = (cstate s)\<lparr>status := Expired, errorMessage := None\<rparr>))"

lemma checkOrder_cstate: "sameOrExpired now s (checkOrder manual now s)"
  by (simp add: sameOrExpired_def checkOrder_def setExpired_def split: option.split prod.split bool.split)

lemma checkOrder_quiet: "isChecking (checkOrder False now s) = isChecking s"
  by (simp add: checkOrder_def setExpired_def split: option.split prod.split bool.split)

lemma finishCheck_view:
  "toasts (finishCheck flow manual now s) = toasts s \<and> paymentRef (finishCheck flow manual now s) = paymentRef s
   \<and> flowRef (finishCheck flow manual now s) = flowRef s \<and> paidOrders (finishCheck flow manual now s) = paidOrders s
   \<and> (flow \<noteq> flowRef s \<longrightarrow> isChecking (finishCheck flow manual now s) = isChecking s)
   \<and> sameOrExpired now s (finishCheck flow manual now s)"
proof -
  define s1 where "s1 = (if manual \<and> flowRef s = flow then s\<lparr>isChecking := False\<rparr> else s)"
  define s2 where "s2 = s1\<lparr>queryGate := snd (release flow (flowRef s1) (queryGate s1))\<rparr>"
  have f: "toasts s2 = toasts s" "paymentRef s2 = paymentRef s" "flowRef s2 = flowRef s"
    "paidOrders s2 = paidOrders s" "cstate s2 = cstate s" "flow \<noteq> flowRef s \<Longrightarrow> isChecking s2 = isChecking s"
    by (simp_all add: s2_def s1_def)
  have "finishCheck flow manual now s = s2 \<or> finishCheck flow manual now s = checkOrder False now s2"
    by (simp add: finishCheck_def Let_def s1_def [symmetric] s2_def case_prod_unfold)
  then show ?thesis
    using checkOrder_cstate [of now s2 False] checkOrder_quiet [of now s2] by (elim disjE) (simp_all add: f sameOrExpired_def split: option.splits)
qed

text \<open>
  C9.  Answers that belong to an abandoned flow change nothing the user sees: a late order
  creation is dropped altogether, and a late query or refresh shows no toast, touches neither the payment nor
  the checking indicator nor the record of paid orders, and leaves the displayed state as it is, except that the
  current payment is shown as expired if its time is over when the answer arrives.
\<close>

theorem alipay_stale_ignored:
  assumes "flow \<noteq> flowRef s"
    and "s' \<in> {queryDone tr flow manual p qresp now s, refreshDone tr flow manual p ok now s}"
  shows "createDone tr flow display resp s = dropTask (CreateTask flow display) s
    \<and> toasts s' = toasts s \<and> paymentRef s' = paymentRef s \<and> flowRef s' = flowRef s \<and> isChecking s' = isChecking s
    \<and> paidOrders s' = paidOrders s
    \<and> (cstate s' = cstate s
       \<or> (\<exists>q. paymentRef s = Some q \<and> isDesktopAlipayExpired (expiresAt q) now
            \<and> cstate s' = (cstate s)\<lparr>status := Expired, errorMessage := None\<rparr>))"
proof -
  have "s' = finishCheck flow manual now (dropTask (QueryTask flow manual p) s)
      \<or> s' = finishCheck flow manual now (dropTask (RefreshTask flow manual p) s)"
    using assms by (auto simp: queryDone_def refreshDone_def Let_def)
  moreover have "createDone tr flow display resp s = dropTask (CreateTask flow display) s"
    using assms(1) by (simp add: createDone_def Let_def)
  ultimately show ?thesis
    using assms(1) finishCheck_view [of flow manual now "dropTask (QueryTask flow manual p) s"]
      finishCheck_view [of flow manual now "dropTask (RefreshTask flow manual p) s"]
    by (auto simp: sameOrExpired_def split: option.splits)
qed

text \<open>A check of flow \<open>f\<close> and its payment \<open>p\<close> waits for a check of another flow to end.\<close>

definition waitingCheck :: "int \<Rightarrow> AlipayDesktopPayment \<Rightarrow> checkout \<Rightarrow> bool" where
  "waitingCheck f p s =
     (flowRef s = f \<and> paymentRef s = Some p \<and> queuedFlow (queryGate s) = Some f \<and> (\<exists>t\<in>set (checks s). task_flow t \<noteq> f))"

text \<open>The answer that arrives \<open>later\<close> ends the check in flight, in its query or in its refresh.\<close>

inductive endsCheck :: "(jstr \<Rightarrow> jstr) \<Rightarrow> jsnum \<Rightarrow> checkout \<Rightarrow> checkout \<Rightarrow> bool" for tr later where
  query: "QueryTask flow manual q \<in> set (tasks s) \<Longrightarrow> endsCheck tr later s (queryDone tr flow manual q resp later s)"
| refresh: "RefreshTask flow manual q \<in> set (tasks s) \<Longrightarrow> endsCheck tr later s (refreshDone tr flow manual q ok later s)"

definition resumedCheck :: "int \<Rightarrow> AlipayDesktopPayment \<Rightarrow> jsnum \<Rightarrow> checkout \<Rightarrow> bool" where
  "resumedCheck f p later s =
     (if isDesktopAlipayExpired (expiresAt p) later then status (cstate s) = Expired else QueryTask f False p \<in> set (tasks s))"

lemma finish_resumes:
  assumes "flowRef s = f" "old \<noteq> f" "paymentRef s = Some p" "queryGate s = \<lparr>activeFlow = Some old, queuedFlow = Some f\<rparr>"
  shows "resumedCheck f p later (finishCheck old manual later s)"
  using assms by (simp add: resumedCheck_def finishCheck_def release_def checkOrder_def tryAcquire_def setExpired_def)

lemma waiting_gate:
  assumes "checkout_inv s" "waitingCheck f p s" "t \<in> set (tasks s)" "is_check t"
  shows "task_flow t \<noteq> f" "queryGate s = \<lparr>activeFlow = Some (task_flow t), queuedFlow = Some f\<rparr>"
proof -
  have c: "checks s = [t]" using only_check [OF assms(1,3,4)] by (simp add: checks_def)
  then show "task_flow t \<noteq> f" using assms(2) by (simp add: waitingCheck_def)
  show "queryGate s = \<lparr>activeFlow = Some (task_flow t), queuedFlow = Some f\<rparr>"
    using assms(1,2) c by (cases "queryGate s") (simp add: checkout_inv_def gate_ok_def waitingCheck_def)
qed

lemma ending_resumes:
  assumes "checkout_inv s" "waitingCheck f p s" "endsCheck tr later s s'"
  shows "resumedCheck f p later s'"
  using assms(3)
proof cases
  case (query flow manual q resp)
  then show ?thesis
    using waiting_gate [OF assms(1,2) query(2)] finish_resumes [of "dropTask (QueryTask flow manual q) s" f flow p] assms(2)
    by (simp add: queryDone_def waitingCheck_def dropTask_def)
next
  case (refresh flow manual q ok)
  then show ?thesis
    using waiting_gate [OF assms(1,2) refresh(2)] finish_resumes [of "dropTask (RefreshTask flow manual q) s" f flow p] assms(2)
    by (simp add: refreshDone_def waitingCheck_def dropTask_def)
qed

lemma waiting_checkOrder:
  assumes "checkout_inv s" "waitingCheck f p s"
  shows "waitingCheck f p (checkOrder manual now s)"
proof -
  obtain t where t: "t \<in> set (tasks s)" "is_check t" using assms(2) by (auto simp: waitingCheck_def checks_def)
  show ?thesis
    using assms(2) waiting_gate [OF assms t]
    by (simp add: waitingCheck_def checkOrder_def tryAcquire_def setExpired_def checks_def)
qed

lemma waiting_step:
  assumes "checkout_step tr s s'" "checkout_inv s" "waitingCheck f p s"
  shows "waitingCheck f p s' \<or> flowRef s' > f \<or> (\<exists>later. endsCheck tr later s s')"
  using assms
proof (induction rule: checkout_step.induct)
  case (created flow display s resp)
  then have "flow \<noteq> flowRef s" by (force simp: checkout_inv_def flows_ok_def creates_def waitingCheck_def)
  then have "createDone tr flow display resp s = dropTask (CreateTask flow display) s" by (simp add: createDone_def Let_def)
  then show ?case using created by (simp add: waitingCheck_def checks_def dropTask_def filter_remove1)
next
  case (expire s now)
  then show ?case by (simp add: expireLocally_def setExpired_def waitingCheck_def checks_def split: option.split)
next
  case (queried flow manual q s resp now)
  then show ?case using endsCheck.query by blast
next
  case (refreshed flow manual q s ok now)
  then show ?case using endsCheck.refresh by blast
qed (simp_all add: waiting_checkOrder, auto simp: waitingCheck_def startPayment_def closeDialog_def retryPayment_def unmount_def autoClose_def checks_def)

lemma flow_grows: "checkout_step tr s s' \<Longrightarrow> flowRef s \<le> flowRef s'"
  by (induction rule: checkout_step.induct)
    (auto simp: startPayment_def closeDialog_def retryPayment_def unmount_def autoClose_def expireLocally_def setExpired_def createDone_def failCreate_def
      queryDone_def refreshDone_def setStatus_def finishCheck_view dropTask_def Let_def split: option.split query_response.split create_response.split)

lemma run_flow: "(checkout_step tr)\<^sup>*\<^sup>* s s' \<Longrightarrow> flowRef s \<le> flowRef s'"
  by (induction rule: rtranclp_induct) (use flow_grows in fastforce)+

lemma run_reachable: "(checkout_step tr)\<^sup>*\<^sup>* s s' \<Longrightarrow> checkout_reachable tr s \<Longrightarrow> checkout_reachable tr s'"
  by (induction rule: rtranclp_induct) (auto intro: checkout_reachable.step)

lemma check_step: "mounted s \<Longrightarrow> manual \<or> polling s \<Longrightarrow> checkout_step tr s (checkOrder manual now s)"
  by (cases manual) (auto intro: checkout_step.checkNow checkout_step.poll)

text \<open>Along a run in which no new flow starts, the check waits until the check in flight ends.\<close>

lemma waiting_run:
  assumes "(checkout_step tr)\<^sup>*\<^sup>* s1 s2" "checkout_reachable tr s1" "waitingCheck f p s1" "flowRef s2 = f"
  shows "waitingCheck f p s2 \<or>
    (\<exists>sa sb later. (checkout_step tr)\<^sup>*\<^sup>* s1 sa \<and> waitingCheck f p sa \<and> endsCheck tr later sa sb \<and> (checkout_step tr)\<^sup>*\<^sup>* sb s2)"
  using assms
proof (induction rule: rtranclp_induct)
  case (step y z)
  have y: "flowRef y \<le> f" using flow_grows [OF step.hyps(2)] step.prems(3) by simp
  have "f \<le> flowRef y" using run_flow [OF step.hyps(1)] step.prems(2) by (simp add: waitingCheck_def)
  with y have "flowRef y = f" by simp
  from step.IH [OF step.prems(1,2) this] show ?case
  proof
    assume w: "waitingCheck f p y"
    have "checkout_inv y" using reachable_inv run_reachable [OF step.hyps(1) step.prems(1)] by blast
    from waiting_step [OF step.hyps(2) this w] show ?thesis using step w by auto
  qed (use step.hyps(2) in \<open>meson rtranclp.rtrancl_into_rtrancl\<close>)
qed blast

text \<open>
  C10.  A check that was refused because a check of an earlier flow was still in flight is not
  lost.  Whatever happens afterwards, as long as no new flow is begun, either the refused check is still waiting
  for the earlier one, or the earlier one has ended, by the answer of its query or of its balance refresh, and at that moment
  a check of the current payment was put in flight, or the payment was shown as expired because its time was over.
  While the check waits, the earlier check is still in flight and every answer that ends it has this effect.
\<close>

theorem alipay_refused_check_resumes:
  assumes "checkout_reachable tr s" "mounted s" "manual \<or> polling s"
    and "t \<in> set (checks s)" "task_flow t \<noteq> flowRef s" "paymentRef s = Some p"
    and "\<not> isDesktopAlipayExpired (expiresAt p) now"
    and "(checkout_step tr)\<^sup>*\<^sup>* (checkOrder manual now s) s'" "flowRef s' = flowRef s"
  shows "(\<exists>sa sb later. (checkout_step tr)\<^sup>*\<^sup>* (checkOrder manual now s) sa \<and> endsCheck tr later sa sb \<and> (checkout_step tr)\<^sup>*\<^sup>* sb s'
        \<and> (if isDesktopAlipayExpired (expiresAt p) later then status (cstate sb) = Expired else QueryTask (flowRef s) False p \<in> set (tasks sb)))
    \<or> checks s' \<noteq> [] \<and> (\<forall>later sb. endsCheck tr later s' sb \<longrightarrow>
        (if isDesktopAlipayExpired (expiresAt p) later then status (cstate sb) = Expired else QueryTask (flowRef s) False p \<in> set (tasks sb)))"
proof -
  define s1 where "s1 = checkOrder manual now s"
  note inv = reachable_inv [OF assms(1)]
  have t: "t \<in> set (tasks s)" "is_check t" using assms(4) by (simp_all add: checks_def)
  then have "activeFlow (queryGate s) = Some (task_flow t)"
    using inv only_check [OF inv t] by (simp add: checkout_inv_def gate_ok_def checks_def)
  then have "s1 = s\<lparr>queryGate := (queryGate s)\<lparr>queuedFlow := Some (flowRef s)\<rparr>\<rparr>"
    using assms(5-7) by (simp add: s1_def checkOrder_def tryAcquire_def)
  then have w: "waitingCheck (flowRef s) p s1"
    using assms(4-6) only_check [OF inv t] by (auto simp: waitingCheck_def checks_def)
  have r1: "checkout_reachable tr s1"
    using checkout_reachable.step [OF assms(1) check_step [OF assms(2,3)]] by (simp add: s1_def)
  have res: "resumedCheck (flowRef s) p later sb"
    if "(checkout_step tr)\<^sup>*\<^sup>* s1 sa" "waitingCheck (flowRef s) p sa" "endsCheck tr later sa sb" for sa sb later
    using ending_resumes reachable_inv [OF run_reachable [OF that(1) r1]] that(2,3) by blast
  from waiting_run [OF assms(8) [folded s1_def] r1 w assms(9)] show ?thesis
    unfolding s1_def [symmetric] resumedCheck_def [symmetric]
  proof
    assume s': "waitingCheck (flowRef s) p s'"
    then have "checks s' \<noteq> []" by (auto simp: waitingCheck_def)
    then show "(\<exists>sa sb later. (checkout_step tr)\<^sup>*\<^sup>* s1 sa \<and> endsCheck tr later sa sb \<and> (checkout_step tr)\<^sup>*\<^sup>* sb s'
        \<and> resumedCheck (flowRef s) p later sb)
      \<or> checks s' \<noteq> [] \<and> (\<forall>later sb. endsCheck tr later s' sb \<longrightarrow> resumedCheck (flowRef s) p later sb)"
      using res [OF assms(8) [folded s1_def] s'] by blast
  qed (use res in blast)
qed

section \<open>A run\<close>

text \<open>A payment is started, created, checked and confirmed; then a second one is started.\<close>

definition samplePayment :: AlipayDesktopPayment where
  "samplePayment = \<lparr>outTradeNo = lit ''A1'', payUrl = lit ''u'', expiresAt = Fin 100, displayAmount = Fin 5\<rparr>"

definition sampleAwaiting :: checkout where
  "sampleAwaiting = createDone id 1 (Fin 5) (CreateResponse None
     (Some \<lparr>cd_out_trade_no = lit ''A1'', cd_pay_url = lit ''u'', cd_expires_at = Fin 100\<rparr>)) (startPayment (Fin 5) initCheckout)"

definition sampleChecked :: checkout where
  "sampleChecked = checkOrder True (Fin 0) sampleAwaiting"

definition sampleSuccess :: checkout where
  "sampleSuccess = refreshDone id 1 True samplePayment True (Fin 0)
     (queryDone id 1 True samplePayment (QueryResponse (Some (lit ''TRADE_SUCCESS''))) (Fin 0) sampleChecked)"

lemma reachable_awaiting: "checkout_reachable id sampleAwaiting"
proof -
  have m: "mounted initCheckout" by code_simp
  have t: "CreateTask 1 (Fin 5) \<in> set (tasks (startPayment (Fin 5) initCheckout))" by code_simp
  show ?thesis
    unfolding sampleAwaiting_def
    by (rule checkout_reachable.step [OF checkout_reachable.step [OF checkout_reachable.init checkout_step.start [OF m]]
          checkout_step.created [OF t]])
qed

lemma sampleAwaiting_fields:
  "mounted sampleAwaiting" "paymentRef sampleAwaiting = Some samplePayment" "flowRef sampleAwaiting = 1"
  "status (cstate sampleAwaiting) = AwaitingPayment" "queryGate sampleAwaiting = createDesktopAlipayQueryGate"
  "tasks sampleAwaiting = []"
  by code_simp+

lemma reachable_checked: "checkout_reachable id sampleChecked"
  unfolding sampleChecked_def
  by (rule checkout_reachable.step [OF reachable_awaiting checkout_step.checkNow [OF sampleAwaiting_fields(1)]])

lemma sampleChecked_tasks: "QueryTask 1 True samplePayment \<in> set (tasks sampleChecked)"
  by code_simp

lemma reachable_success: "checkout_reachable id sampleSuccess"
  unfolding sampleSuccess_def
proof (rule checkout_reachable.step [OF checkout_reachable.step [OF reachable_checked
    checkout_step.queried [OF sampleChecked_tasks]] checkout_step.refreshed])
  show "RefreshTask 1 True samplePayment \<in> set (tasks (queryDone id 1 True samplePayment
      (QueryResponse (Some (lit ''TRADE_SUCCESS''))) (Fin 0) sampleChecked))"
    by code_simp
qed

theorem alipay_success_confirmed_witness:
  "status (cstate sampleSuccess) = Success
   \<and> (\<exists>p. payment (cstate sampleSuccess) = Some p \<and> paymentRef sampleSuccess = Some p
        \<and> outTradeNo p \<in> set (paidOrders sampleSuccess))"
proof -
  have s: "status (cstate sampleSuccess) = Success" by code_simp
  from alipay_success_confirmed [OF reachable_success s] s show ?thesis by blast
qed

theorem alipay_single_check_witness:
  "length (checks sampleChecked) \<le> 1 \<and> isChecking sampleChecked
   \<and> activeFlow (queryGate sampleChecked) = map_option task_flow (list_head (checks sampleChecked))"
proof -
  have "isChecking sampleChecked" by code_simp
  with alipay_single_check [OF reachable_checked] show ?thesis by blast
qed

theorem alipay_stale_ignored_witness:
  "(0::int) \<noteq> flowRef sampleAwaiting
   \<and> createDone id 0 (Fin 5) CreateRejected sampleAwaiting = dropTask (CreateTask 0 (Fin 5)) sampleAwaiting
   \<and> toasts (refreshDone id 0 True samplePayment True (Fin 200000) sampleAwaiting) = toasts sampleAwaiting"
proof -
  have f: "(0::int) \<noteq> flowRef sampleAwaiting" by (simp add: sampleAwaiting_fields)
  let ?s = "refreshDone id 0 True samplePayment True (Fin 200000) sampleAwaiting"
  have "?s \<in> {queryDone id 0 True samplePayment QueryRejected (Fin 200000) sampleAwaiting, ?s}" by simp
  from alipay_stale_ignored [OF f this, of "Fin 5" CreateRejected] f show ?thesis by blast
qed

text \<open>The second payment, started while the first is still being checked.\<close>

definition sampleSecond :: checkout where
  "sampleSecond = createDone id 2 (Fin 5) (CreateResponse None
     (Some \<lparr>cd_out_trade_no = lit ''A2'', cd_pay_url = lit ''v'', cd_expires_at = Fin 100\<rparr>)) (startPayment (Fin 5) sampleChecked)"

lemma reachable_second: "checkout_reachable id sampleSecond"
proof -
  have m: "mounted sampleChecked" by code_simp
  have t: "CreateTask 2 (Fin 5) \<in> set (tasks (startPayment (Fin 5) sampleChecked))" by code_simp
  show ?thesis
    unfolding sampleSecond_def
    by (rule checkout_reachable.step [OF checkout_reachable.step [OF reachable_checked checkout_step.start [OF m]]
          checkout_step.created [OF t]])
qed

definition secondPayment :: AlipayDesktopPayment where
  "secondPayment = samplePayment\<lparr>outTradeNo := lit ''A2'', payUrl := lit ''v''\<rparr>"

text \<open>The check of the second payment is refused; the first one then turns out to be unpaid.\<close>

theorem alipay_refused_check_resumes_witness:
  "flowRef sampleSecond = 2 \<and> paymentRef sampleSecond = Some secondPayment
   \<and> (\<exists>sa sb later. (checkout_step id)\<^sup>*\<^sup>* (checkOrder True (Fin 1) sampleSecond) sa \<and> endsCheck id later sa sb
        \<and> resumedCheck 2 secondPayment later sb)"
proof -
  let ?s1 = "checkOrder True (Fin 1) sampleSecond"
  have h: "mounted sampleSecond" "QueryTask 1 True samplePayment \<in> set (checks sampleSecond)" "flowRef sampleSecond = 2"
    "paymentRef sampleSecond = Some secondPayment" "\<not> isDesktopAlipayExpired (expiresAt secondPayment) (Fin 1)"
    "\<not> isDesktopAlipayExpired (expiresAt secondPayment) (Fin 9)" "QueryTask 1 True samplePayment \<in> set (tasks ?s1)"
    by code_simp+
  have ne: "task_flow (QueryTask 1 True samplePayment) \<noteq> flowRef sampleSecond" and fl: "flowRef ?s1 = flowRef sampleSecond"
    by (simp_all add: h)
  note r = alipay_refused_check_resumes [OF reachable_second h(1) disjI1 [OF TrueI] h(2) ne h(4,5) rtranclp.rtrancl_refl fl]
  have e: "endsCheck id (Fin 9) ?s1 (queryDone id 1 True samplePayment QueryRejected (Fin 9) ?s1)"
    by (rule endsCheck.query [OF h(7)])
  show ?thesis
    using r [folded resumedCheck_def] e rtranclp.rtrancl_refl [of "checkout_step id" ?s1] unfolding h(3) using h(4) by blast
qed

text \<open>
    An expired checkout is not final: a query that was in flight when the payment expired
  and then answers that the buyer has not paid sets the status back to awaiting payment.
\<close>

theorem alipay_expired_not_final:
  "\<exists>s s'. checkout_reachable id s \<and> status (cstate s) = Expired \<and> checkout_step id s s'
     \<and> status (cstate s') = AwaitingPayment"
proof -
  let ?s = "checkOrder True (Fin 200000) sampleChecked"
  have m: "mounted sampleChecked" by code_simp
  have r: "checkout_reachable id ?s"
    by (rule checkout_reachable.step [OF reachable_checked checkout_step.checkNow [OF m]])
  have t: "QueryTask 1 True samplePayment \<in> set (tasks ?s)" and e: "status (cstate ?s) = Expired" by code_simp+
  let ?s' = "queryDone id 1 True samplePayment (QueryResponse (Some (lit ''WAIT_BUYER_PAY''))) (Fin 200000) ?s"
  have "checkout_step id ?s ?s'" by (rule checkout_step.queried [OF t])
  moreover have "status (cstate ?s') = AwaitingPayment" by code_simp
  ultimately show ?thesis using r e by blast
qed

end
