(* ===== verification/JS_Json.thy ===== *)
theory JS_Json
  imports JS_Array
begin

text \<open>
  Dynamic values of the program's language, the conversions the code applies to values of
  unknown type (\<open>Number\<close>, \<open>String\<close>, \<open>Boolean\<close>, \<open>typeof\<close>), plain objects in property order, and
  \<open>JSON.parse\<close> and \<open>JSON.stringify\<close>.  An object is a list of properties: integer keys come
  first in numeric order, all others follow in insertion order.  The parser is fuelled by the
  length of its input; every recursive call consumes a character.
\<close>

datatype jsval =
  JUndef | JNull | JBool bool | JNum jsnum | JStr jstr | JArr "jsval list" | JObj "(jstr \<times> jsval) list"

section \<open>Objects\<close>

text \<open>The canonical array index a key denotes.\<close>

definition key_index :: "jstr \<Rightarrow> int option" where
  "key_index k =
     (if k \<noteq> [] \<and> length k \<le> 10 \<and> list_all is_digit k \<and> (hd k \<noteq> 48 \<or> length k = 1)
         \<and> parse_dec k < 4294967295
      then Some (parse_dec k) else None)"

fun insert_index :: "int \<Rightarrow> jstr \<Rightarrow> 'v \<Rightarrow> (jstr \<times> 'v) list \<Rightarrow> (jstr \<times> 'v) list" where
  "insert_index i k v [] = [(k, v)]"
| "insert_index i k v ((k', v') # o') =
     (case key_index k' of
        Some j \<Rightarrow> if j < i then (k', v') # insert_index i k v o' else (k, v) # (k', v') # o'
      | None \<Rightarrow> (k, v) # (k', v') # o')"

text \<open>\<open>o[k] = v\<close>.\<close>

definition obj_put :: "jstr \<Rightarrow> 'v \<Rightarrow> (jstr \<times> 'v) list \<Rightarrow> (jstr \<times> 'v) list" where
  "obj_put k v o' =
     (if k \<in> set (map fst o') then AList.update k v o'
      else case key_index k of Some i \<Rightarrow> insert_index i k v o' | None \<Rightarrow> o' @ [(k, v)])"

definition obj_of :: "(jstr \<times> 'v) list \<Rightarrow> (jstr \<times> 'v) list" where
  "obj_of kvs = fold (\<lambda>(k, v). obj_put k v) kvs []"

text \<open>\<open>o[k]\<close>: a missing property is undefined.\<close>

definition obj_get :: "jstr \<Rightarrow> (jstr \<times> jsval) list \<Rightarrow> jsval" where
  "obj_get k o' = opt_or (map_of o' k) JUndef"

definition obj_delete :: "jstr \<Rightarrow> (jstr \<times> 'v) list \<Rightarrow> (jstr \<times> 'v) list" where
  "obj_delete k o' = filter (\<lambda>kv. fst kv \<noteq> k) o'"

lemma map_of_insert_index: "k \<notin> set (map fst o') \<Longrightarrow> map_of (insert_index i k v o') = (map_of o')(k \<mapsto> v)"
  by (induction i k v o' rule: insert_index.induct) (auto split: option.splits)

lemma set_insert_index: "set (insert_index i k v o') = insert (k, v) (set o')"
  by (induction i k v o' rule: insert_index.induct) (auto split: option.splits)

lemma distinct_insert_index:
  "k \<notin> set (map fst o') \<Longrightarrow> distinct (map fst o') \<Longrightarrow> distinct (map fst (insert_index i k v o'))"
  by (induction i k v o' rule: insert_index.induct) (auto split: option.splits simp: set_insert_index)

lemma map_of_snoc: "k \<notin> set (map fst m) \<Longrightarrow> map_of (m @ [(k, v)]) = (map_of m)(k \<mapsto> v)"
  by (induction m) (auto simp: fun_eq_iff)

lemma map_of_obj_put: "map_of (obj_put k v o') = (map_of o')(k \<mapsto> v)"
proof (cases "k \<in> set (map fst o')")
  case True
  then show ?thesis by (simp only: obj_put_def if_True update_conv')
next
  case False
  then show ?thesis
    by (simp only: obj_put_def if_False map_of_insert_index [OF False] map_of_snoc [OF False] split: option.split) simp
qed

lemma distinct_obj_put: "distinct (map fst o') \<Longrightarrow> distinct (map fst (obj_put k v o'))"
  by (auto simp: obj_put_def distinct_insert_index distinct_update split: option.split)

interpretation js_obj: keyed_store "[]" map_of obj_put "\<lambda>o'. distinct (map fst o')"
  by unfold_locales (simp_all add: map_of_obj_put distinct_obj_put)

section \<open>Conversions\<close>

fun truthy :: "jsval \<Rightarrow> bool" where
  "truthy JUndef = False"
| "truthy JNull = False"
| "truthy (JBool b) = b"
| "truthy (JNum n) = num_truthy n"
| "truthy (JStr s) = (s \<noteq> [])"
| "truthy (JArr _) = True"
| "truthy (JObj _) = True"

text \<open>\<open>typeof v === 'object'\<close>.\<close>

fun type_object :: "jsval \<Rightarrow> bool" where
  "type_object JNull = True"
| "type_object (JArr _) = True"
| "type_object (JObj _) = True"
| "type_object _ = False"

definition str_value :: "jsval \<Rightarrow> jstr option" where
  "str_value v = (case v of JStr s \<Rightarrow> Some s | _ \<Rightarrow> None)"

text \<open>\<open>String(v)\<close>; an array joins its elements, with null and undefined left empty.\<close>

fun to_string :: "jsval \<Rightarrow> jstr" where
  "to_string JUndef = lit ''undefined''"
| "to_string JNull = lit ''null''"
| "to_string (JBool b) = (if b then lit ''true'' else lit ''false'')"
| "to_string (JNum n) = num_str n"
| "to_string (JStr s) = s"
| "to_string (JArr xs) = join (lit '','') (map (\<lambda>x. if x = JUndef \<or> x = JNull then [] else to_string x) xs)"
| "to_string (JObj _) = lit ''[object Object]''"

text \<open>\<open>Number(v)\<close>.\<close>

fun to_num :: "jsval \<Rightarrow> jsnum" where
  "to_num JUndef = NaN"
| "to_num JNull = Fin 0"
| "to_num (JBool b) = Fin (if b then 1 else 0)"
| "to_num (JNum n) = n"
| "to_num (JStr s) = to_number s"
| "to_num (JArr xs) = to_number (to_string (JArr xs))"
| "to_num (JObj _) = NaN"

text \<open>Property access \<open>v[k]\<close> on a value the code knows to be an object; an array has no such named property.\<close>

fun prop_get :: "jstr \<Rightarrow> jsval \<Rightarrow> jsval" where
  "prop_get k (JObj o') = obj_get k o'"
| "prop_get k _ = JUndef"

text \<open>
  Operations that may throw a \<open>TypeError\<close>, which is \<open>None\<close>: reading a property of null or undefined,
  and calling a string method on anything but a string.  \<open>v?.k\<close> is \<open>opt_prop\<close>, \<open>v || d\<close> is \<open>js_or\<close>.
\<close>

definition nullish :: "jsval \<Rightarrow> bool" where
  "nullish v = (v = JUndef \<or> v = JNull)"

definition get_prop :: "jstr \<Rightarrow> jsval \<Rightarrow> jsval option" where
  "get_prop k v = (if nullish v then None else Some (prop_get k v))"

definition opt_prop :: "jstr \<Rightarrow> jsval \<Rightarrow> jsval" where
  "opt_prop k v = (if nullish v then JUndef else prop_get k v)"

definition call_trim :: "jsval \<Rightarrow> jstr option" where
  "call_trim v = (case v of JStr s \<Rightarrow> Some (trim s) | _ \<Rightarrow> None)"

text \<open>\<open>v?.trim() || ''\<close>.\<close>

definition opt_trim :: "jsval \<Rightarrow> jstr option" where
  "opt_trim v = (if nullish v then Some [] else call_trim v)"

definition js_or :: "jsval \<Rightarrow> jsval \<Rightarrow> jsval" where
  "js_or v d = (if truthy v then v else d)"

lemma get_prop_obj [simp]: "get_prop k (JObj o') = Some (obj_get k o')"
  by (simp add: get_prop_def nullish_def)

lemma opt_prop_obj [simp]: "opt_prop k (JObj o') = obj_get k o'"
  by (simp add: opt_prop_def nullish_def)

lemma call_trim_str [simp]: "call_trim (JStr s) = Some (trim s)"
  by (simp add: call_trim_def)

lemma call_trim_Some: "call_trim v = Some t \<longleftrightarrow> (\<exists>s. v = JStr s \<and> t = trim s)"
  by (auto simp: call_trim_def split: jsval.splits)

lemma opt_trim_str [simp]: "opt_trim (JStr s) = Some (trim s)"
  by (simp add: opt_trim_def nullish_def)

lemma js_or_idem [simp]: "js_or (js_or v d) d = js_or v d"
  by (simp add: js_or_def)

section \<open>JSON.parse\<close>

definition json_ws :: "int \<Rightarrow> bool" where
  "json_ws c = (c = 9 \<or> c = 10 \<or> c = 13 \<or> c = 32)"

definition skip_ws :: "jstr \<Rightarrow> jstr" where
  "skip_ws s = dropWhile json_ws s"

definition simple_escape :: "int \<Rightarrow> int option" where
  "simple_escape c =
     (if c = 34 \<or> c = 92 \<or> c = 47 then Some c
      else if c = 98 then Some 8 else if c = 102 then Some 12 else if c = 110 then Some 10
      else if c = 114 then Some 13 else if c = 116 then Some 9 else None)"

definition hex_digit :: "int \<Rightarrow> int option" where
  "hex_digit c =
     (if is_digit c then Some (c - 48) else if 97 \<le> c \<and> c \<le> 102 then Some (c - 87)
      else if 65 \<le> c \<and> c \<le> 70 then Some (c - 55) else None)"

definition hex4 :: "jstr \<Rightarrow> int option" where
  "hex4 s =
     (if length s = 4 \<and> list_all (\<lambda>c. hex_digit c \<noteq> None) s
      then Some (foldl (\<lambda>a c. a * 16 + opt_or (hex_digit c) 0) 0 s) else None)"

text \<open>The body of a string literal, after the opening quote.\<close>

function json_string :: "jstr \<Rightarrow> (jstr \<times> jstr) option" where
  "json_string [] = None"
| "json_string (c # r) =
     (if c = 34 then Some ([], r)
      else if c = 92 then
        (case r of
           [] \<Rightarrow> None
         | d # r' \<Rightarrow>
             if d = 117 then
               (case hex4 (take 4 r') of
                  None \<Rightarrow> None
                | Some u \<Rightarrow> map_option (\<lambda>(t, q). (u # t, q)) (json_string (drop 4 r')))
             else (case simple_escape d of
                     None \<Rightarrow> None
                   | Some u \<Rightarrow> map_option (\<lambda>(t, q). (u # t, q)) (json_string r')))
      else if c < 32 then None
      else map_option (\<lambda>(t, q). (c # t, q)) (json_string r))"
  by pat_completeness auto
termination
  by (relation "measure length") auto

text \<open>A number literal: no leading zeros, digits on both sides of the point.\<close>

definition json_number :: "jstr \<Rightarrow> (jsnum \<times> jstr) option" where
  "json_number s =
     (let (neg, r0) = (case s of c # t \<Rightarrow> if c = 45 then (True, t) else (False, s) | [] \<Rightarrow> (False, s));
          (ip, r1) = span_digits r0
      in if ip = [] \<or> (hd ip = 48 \<and> length ip \<noteq> 1) then None
         else let (ok, fp, r2) = (case r1 of
                    c # t \<Rightarrow> if c = 46 then (fst (span_digits t) \<noteq> [], span_digits t) else (True, [], r1)
                  | [] \<Rightarrow> (True, [], r1));
                  (ex, r3) = read_exp r2;
                  bad_exp = (r3 = r2 \<and> r2 \<noteq> [] \<and> (hd r2 = 101 \<or> hd r2 = 69));
                  v = rnd (of_int (parse_dec (ip @ fp)) * 10 powi (ex - int (length fp)))
              in if \<not> ok \<or> bad_exp then None else Some (if neg then js_neg v else v, r3))"

definition json_literal :: "jstr \<Rightarrow> (jsval \<times> jstr) option" where
  "json_literal s =
     (if starts_with (lit ''true'') s then Some (JBool True, drop 4 s)
      else if starts_with (lit ''false'') s then Some (JBool False, drop 5 s)
      else if starts_with (lit ''null'') s then Some (JNull, drop 4 s)
      else map_option (\<lambda>(n, r). (JNum n, r)) (json_number s))"

fun json_value :: "nat \<Rightarrow> jstr \<Rightarrow> (jsval \<times> jstr) option"
  and json_elems :: "nat \<Rightarrow> jstr \<Rightarrow> (jsval list \<times> jstr) option"
  and json_members :: "nat \<Rightarrow> jstr \<Rightarrow> ((jstr \<times> jsval) list \<times> jstr) option" where
  "json_value 0 s = None"
| "json_value (Suc n) s =
     (case skip_ws s of
        [] \<Rightarrow> None
      | c # r \<Rightarrow>
          if c = 123 then
            (case skip_ws r of
               [] \<Rightarrow> None
             | d # r' \<Rightarrow> if d = 125 then Some (JObj [], r')
                        else map_option (\<lambda>(ms, q). (JObj (obj_of ms), q)) (json_members n (d # r')))
          else if c = 91 then
            (case skip_ws r of
               [] \<Rightarrow> None
             | d # r' \<Rightarrow> if d = 93 then Some (JArr [], r')
                        else map_option (\<lambda>(xs, q). (JArr xs, q)) (json_elems n (d # r')))
          else if c = 34 then map_option (\<lambda>(t, q). (JStr t, q)) (json_string r)
          else json_literal (c # r))"
| "json_elems 0 s = None"
| "json_elems (Suc n) s =
     (case json_value n s of
        None \<Rightarrow> None
      | Some (v, r) \<Rightarrow>
          (case skip_ws r of
             [] \<Rightarrow> None
           | c # r' \<Rightarrow> if c = 44 then map_option (\<lambda>(vs, q). (v # vs, q)) (json_elems n r')
                      else if c = 93 then Some ([v], r') else None))"
| "json_members 0 s = None"
| "json_members (Suc n) s =
     (case skip_ws s of
        [] \<Rightarrow> None
      | c # r \<Rightarrow>
          if c \<noteq> 34 then None
          else case json_string r of
            None \<Rightarrow> None
          | Some (k, r1) \<Rightarrow>
              (case skip_ws r1 of
                 [] \<Rightarrow> None
               | d # r2 \<Rightarrow>
                   if d \<noteq> 58 then None
                   else case json_value n r2 of
                     None \<Rightarrow> None
                   | Some (v, r3) \<Rightarrow>
                       (case skip_ws r3 of
                          [] \<Rightarrow> None
                        | e # r4 \<Rightarrow>
                            if e = 44 then map_option (\<lambda>(ms, q). ((k, v) # ms, q)) (json_members n r4)
                            else if e = 125 then Some ([(k, v)], r4) else None)))"

text \<open>\<open>JSON.parse(s)\<close>; a thrown \<open>SyntaxError\<close> is \<open>None\<close>.\<close>

definition json_parse :: "jstr \<Rightarrow> jsval option" where
  "json_parse s =
     (case json_value (Suc (2 * length s)) s of
        Some (v, r) \<Rightarrow> if skip_ws r = [] then Some v else None
      | None \<Rightarrow> None)"

section \<open>JSON.stringify\<close>

definition hex_char :: "int \<Rightarrow> int" where
  "hex_char d = (if d < 10 then 48 + d else 87 + d)"

definition unicode_escape :: "int \<Rightarrow> jstr" where
  "unicode_escape c =
     lit [CHR 0x5C, CHR ''u''] @ map hex_char [c div 4096 mod 16, c div 256 mod 16, c div 16 mod 16, c mod 16]"

definition is_high_surrogate :: "int \<Rightarrow> bool" where
  "is_high_surrogate c = (55296 \<le> c \<and> c \<le> 56319)"

definition is_low_surrogate :: "int \<Rightarrow> bool" where
  "is_low_surrogate c = (56320 \<le> c \<and> c \<le> 57343)"

definition quote_unit :: "int \<Rightarrow> jstr" where
  "quote_unit c =
     (if c = 34 then [92, 34] else if c = 92 then [92, 92] else if c = 8 then [92, 98]
      else if c = 12 then [92, 102] else if c = 10 then [92, 110] else if c = 13 then [92, 114]
      else if c = 9 then [92, 116] else if c < 32 then unicode_escape c else [c])"

fun quote_units :: "jstr \<Rightarrow> jstr" where
  "quote_units [] = []"
| "quote_units [c] = (if is_high_surrogate c \<or> is_low_surrogate c then unicode_escape c else quote_unit c)"
| "quote_units (c # d # r) =
     (if is_high_surrogate c then
        (if is_low_surrogate d then c # d # quote_units r else unicode_escape c @ quote_units (d # r))
      else if is_low_surrogate c then unicode_escape c @ quote_units (d # r)
      else quote_unit c @ quote_units (d # r))"

definition json_quote :: "jstr \<Rightarrow> jstr" where
  "json_quote s = [34] @ quote_units s @ [34]"

text \<open>
  \<open>JSON.stringify(v, null, gap)\<close>, with \<open>gap\<close> spaces per level; \<open>None\<close> for \<open>undefined\<close>, which is
  left out of objects and becomes \<open>null\<close> in arrays.
\<close>

definition wrap_items :: "nat \<Rightarrow> nat \<Rightarrow> jstr \<Rightarrow> jstr \<Rightarrow> jstr list \<Rightarrow> jstr" where
  "wrap_items gap depth l r items =
     (if items = [] then l @ r
      else if gap = 0 then l @ join (lit '','') items @ r
      else let nl = 10 # replicate (gap * Suc depth) 32
           in l @ nl @ join (44 # nl) items @ [10] @ replicate (gap * depth) 32 @ r)"

fun json_str :: "nat \<Rightarrow> nat \<Rightarrow> jsval \<Rightarrow> jstr option" where
  "json_str gap depth JUndef = None"
| "json_str gap depth JNull = Some (lit ''null'')"
| "json_str gap depth (JBool b) = Some (if b then lit ''true'' else lit ''false'')"
| "json_str gap depth (JNum n) = Some (if is_finite n then num_str n else lit ''null'')"
| "json_str gap depth (JStr s) = Some (json_quote s)"
| "json_str gap depth (JArr xs) =
     Some (wrap_items gap depth (lit ''['') (lit '']'')
       (map (\<lambda>x. opt_or (json_str gap (Suc depth) x) (lit ''null'')) xs))"
| "json_str gap depth (JObj o') =
     Some (wrap_items gap depth (lit ''{'') (lit ''}'')
       (concat (map (\<lambda>(k, v). case json_str gap (Suc depth) v of
             None \<Rightarrow> []
           | Some t \<Rightarrow> [json_quote k @ [58] @ (if gap = 0 then [] else [32]) @ t]) o')))"

definition json_stringify :: "nat \<Rightarrow> jsval \<Rightarrow> jstr" where
  "json_stringify gap v = opt_or (json_str gap 0 v) (lit ''undefined'')"

end
