(* ===== verification/Wallet.thy ===== *)
theory Wallet
  imports JS_Json
begin

text \<open>
  The wallet (\<open>src/web/default/src/features/wallet\<close>): the recharge amount reducer
  (\<open>lib/amount-selection.ts\<close>), the choice of payment methods and presets (\<open>lib/payment.ts\<close>),
  the parsing of the top-up configuration (\<open>hooks/use-topup-info.ts\<close>), and its labels
  (\<open>lib/format.ts\<close>, \<open>lib/billing.ts\<close>).  The browser's \<open>Intl.NumberFormat\<close> is the argument
  \<open>nf\<close>, called with the maximal number of fraction digits.
\<close>

section \<open>The recharge amount\<close>

datatype RechargeAmountSelection = Preset jsnum | Custom

record RechargeAmountState =
  selection :: "RechargeAmountSelection option"
  topupAmount :: jsnum
  customAmount :: jstr

datatype RechargeAmountAction =
  Initialize jsnum | SelectPreset jsnum | SelectCustom | EditCustom jstr

definition CUSTOM_AMOUNT_MIN :: jsnum where "CUSTOM_AMOUNT_MIN = Fin 1"

definition CUSTOM_AMOUNT_MAX :: jsnum where "CUSTOM_AMOUNT_MAX = Fin 100000"

definition INITIAL_RECHARGE_AMOUNT_STATE :: RechargeAmountState where
  "INITIAL_RECHARGE_AMOUNT_STATE = \<lparr>selection = None, topupAmount = Fin 0, customAmount = []\<rparr>"

definition parseCustomAmount :: "jstr \<Rightarrow> jsnum" where
  "parseCustomAmount value =
     (if \<not> (value \<noteq> [] \<and> list_all is_digit value) then Fin 0
      else let amount = to_number value
           in if is_safe_integer amount \<and> js_le CUSTOM_AMOUNT_MIN amount \<and> js_le amount CUSTOM_AMOUNT_MAX
              then amount else Fin 0)"

fun rechargeAmountReducer :: "RechargeAmountState \<Rightarrow> RechargeAmountAction \<Rightarrow> RechargeAmountState" where
  "rechargeAmountReducer s (Initialize amount) =
     (if selection s \<noteq> None then s
      else s\<lparr>selection := Some (Preset amount), topupAmount := amount\<rparr>)"
| "rechargeAmountReducer s (SelectPreset amount) =
     s\<lparr>selection := Some (Preset amount), topupAmount := amount\<rparr>"
| "rechargeAmountReducer s SelectCustom =
     s\<lparr>selection := Some Custom, topupAmount := parseCustomAmount (customAmount s)\<rparr>"
| "rechargeAmountReducer s (EditCustom value) =
     \<lparr>selection = Some Custom, topupAmount = parseCustomAmount value, customAmount = value\<rparr>"

text \<open>A string of digits converts to the integer it denotes.\<close>

lemma starts_with_Cons: "starts_with (a # p) s \<longleftrightarrow> (\<exists>t. s = a # t \<and> starts_with p t)"
  by (cases s) (auto simp: starts_with_def)

lemma digits_no_prefix:
  assumes "list_all is_digit s" "\<not> is_digit b"
  shows "\<not> starts_with [a, b] s"
  using assms by (cases s; cases "tl s") (auto simp: starts_with_Cons)

lemma read_unsigned_digits:
  assumes "s \<noteq> []" "list_all is_digit s"
  shows "read_unsigned s = Some (rnd (of_int (parse_dec s)), [])"
proof -
  have span: "span_digits s = (s, [])" using assms(2) by (simp add: span_digits_def list_all_iff)
  then have "read_decimal s = Some (of_int (parse_dec s), [])"
    using assms(1) by (simp add: read_decimal_def read_exp_def)
  moreover have "\<not> starts_with (lit ''Infinity'') s"
    using assms by (cases s) (auto simp: lit_simps starts_with_def is_digit_def)
  ultimately show ?thesis by (simp add: read_unsigned_def)
qed

lemma to_number_digits:
  assumes "s \<noteq> []" "list_all is_digit s"
  shows "to_number s = rnd (of_int (parse_dec s))"
proof -
  have ws: "\<forall>c\<in>set s. \<not> is_ws c" using assms(2) digit_not_ws by (auto simp: list_all_iff)
  then have t: "trim s = s" by (rule trim_no_ws)
  have "hd s \<noteq> 45 \<and> hd s \<noteq> 43" using assms by (cases s) (auto simp: is_digit_def)
  then have "read_signed read_unsigned s = Some (rnd (of_int (parse_dec s)), [])"
    using assms(1) read_unsigned_digits [OF assms] by (cases s) (auto simp: read_signed_def)
  moreover have "\<not> starts_with (lit ''0x'') s" "\<not> starts_with (lit ''0X'') s" "\<not> starts_with (lit ''0o'') s"
    "\<not> starts_with (lit ''0O'') s" "\<not> starts_with (lit ''0b'') s" "\<not> starts_with (lit ''0B'') s"
    by (simp_all only: lit_simps, (rule digits_no_prefix [OF assms(2)], simp add: is_digit_def)+)
  ultimately show ?thesis using assms(1) by (simp add: to_number_def t)
qed

lemma parseCustomAmount_digits:
  assumes "value \<noteq> []" "list_all is_digit value"
  shows "parseCustomAmount value
    = (if 1 \<le> parse_dec value \<and> parse_dec value \<le> 100000 then jint (parse_dec value) else Fin 0)"
proof -
  have n0: "0 \<le> parse_dec value" using assms(2) parse_dec_nonneg by (simp add: list_all_iff)
  show ?thesis
  proof (cases "parse_dec value \<le> 100000")
    case True
    then have "to_number value = jint (parse_dec value)"
      using n0 by (simp add: to_number_digits [OF assms] rnd_of_int)
    then show ?thesis
      using assms True n0
      by (auto simp: parseCustomAmount_def CUSTOM_AMOUNT_MIN_def CUSTOM_AMOUNT_MAX_def is_safe_integer_def is_integer_def)
  next
    case False
    have "\<not> js_le (rnd (of_int (parse_dec value))) (jint 100000)"
      using rnd_of_int_bounded(1) [OF n0, of 100000] False by auto
    then show ?thesis
      using assms False by (simp add: parseCustomAmount_def to_number_digits [OF assms] CUSTOM_AMOUNT_MAX_def)
  qed
qed

definition amount_ok :: "RechargeAmountState \<Rightarrow> bool" where
  "amount_ok s =
     (case selection s of
        None \<Rightarrow> topupAmount s = Fin 0
      | Some (Preset a) \<Rightarrow> topupAmount s = a
      | Some Custom \<Rightarrow> topupAmount s =
          (if customAmount s \<noteq> [] \<and> list_all is_digit (customAmount s)
              \<and> 1 \<le> parse_dec (customAmount s) \<and> parse_dec (customAmount s) \<le> 100000
           then jint (parse_dec (customAmount s)) else Fin 0))"

lemma parseCustomAmount_eq:
  "parseCustomAmount value =
     (if value \<noteq> [] \<and> list_all is_digit value \<and> 1 \<le> parse_dec value \<and> parse_dec value \<le> 100000
      then jint (parse_dec value) else Fin 0)"
proof (cases "value \<noteq> [] \<and> list_all is_digit value")
  case True
  then show ?thesis by (simp add: parseCustomAmount_digits)
next
  case False
  then show ?thesis by (auto simp: parseCustomAmount_def)
qed

lemma amount_ok_reducer: "amount_ok s \<Longrightarrow> amount_ok (rechargeAmountReducer s a)"
  by (cases a) (auto simp: amount_ok_def parseCustomAmount_eq)

text \<open>
  C11.  The amount to be charged always agrees with the selection: after any sequence of actions
  it is zero when nothing is selected, the preset when a preset is selected, and with the custom
  field selected the decimal value of its text if that is a plain integer between 1 and 100000,
  and zero (nothing to charge) for any other text.
\<close>

theorem recharge_amount_consistent:
  "amount_ok (foldl rechargeAmountReducer INITIAL_RECHARGE_AMOUNT_STATE actions)"
proof -
  have "amount_ok (foldl rechargeAmountReducer s actions)" if "amount_ok s" for s
    using that by (induction actions arbitrary: s) (simp_all add: amount_ok_reducer)
  then show ?thesis by (simp add: INITIAL_RECHARGE_AMOUNT_STATE_def amount_ok_def)
qed

section \<open>Payment methods\<close>

definition ALIPAY :: jstr where "ALIPAY = lit ''alipay''"
definition STRIPE :: jstr where "STRIPE = lit ''stripe''"
definition WAFFO :: jstr where "WAFFO = lit ''waffo''"
definition WAFFO_PANCAKE :: jstr where "WAFFO_PANCAKE = lit ''waffo_pancake''"

definition DEFAULT_MIN_TOPUP :: jsnum where "DEFAULT_MIN_TOPUP = Fin 1"

definition DEFAULT_PRESET_MULTIPLIERS :: "jsnum list" where
  "DEFAULT_PRESET_MULTIPLIERS = [Fin 1, Fin 5, Fin 10, Fin 30, Fin 50, Fin 100, Fin 300, Fin 500]"

record PaymentMethod =
  pm_name :: jstr
  pm_type :: jstr
  pm_color :: "jstr option"
  pm_min_topup :: "jsnum option"
  pm_icon :: "jstr option"

record WaffoPayMethod =
  wm_name :: jstr
  wm_icon :: "jstr option"
  wm_payMethodType :: "jstr option"
  wm_payMethodName :: "jstr option"

datatype CreemCurrency = USD | EUR

record CreemProduct =
  cp_name :: jstr
  cp_productId :: jstr
  cp_price :: jsnum
  cp_quota :: jsnum
  cp_currency :: CreemCurrency

record TopupInfo =
  enable_online_topup :: bool
  enable_stripe_topup :: bool
  pay_methods :: "PaymentMethod list option"
  min_topup :: jsnum
  stripe_min_topup :: jsnum
  amount_options :: "jsnum list"
  discount :: "(jstr \<times> jsnum) list"
  creem_products :: "CreemProduct list"
  enable_waffo_topup :: bool
  waffo_pay_methods :: "WaffoPayMethod list"
  waffo_min_topup :: "jsnum option"
  enable_waffo_pancake_topup :: bool
  waffo_pancake_min_topup :: "jsnum option"
  payment_compliance_confirmed :: "bool option"

record PresetAmount =
  pa_value :: jsnum
  pa_discount :: "jsnum option"

definition isStripePayment :: "jstr \<Rightarrow> bool" where
  "isStripePayment paymentType = (paymentType = STRIPE)"

definition isWaffoPancakePayment :: "jstr \<Rightarrow> bool" where
  "isWaffoPancakePayment paymentType = (paymentType = WAFFO_PANCAKE)"

definition methodAvailable :: "TopupInfo \<Rightarrow> PaymentMethod \<Rightarrow> bool" where
  "methodAvailable info mth =
     (if pm_type mth = ALIPAY then True
      else if pm_type mth = STRIPE then enable_stripe_topup info
      else if pm_type mth = WAFFO_PANCAKE then enable_waffo_pancake_topup info
      else if pm_type mth = WAFFO then False
      else enable_online_topup info)"

definition getAvailablePaymentMethods :: "TopupInfo option \<Rightarrow> PaymentMethod list" where
  "getAvailablePaymentMethods topupInfo =
     (case topupInfo of
        None \<Rightarrow> []
      | Some info \<Rightarrow>
          if payment_compliance_confirmed info = Some False then []
          else filter (methodAvailable info) (opt_or (pay_methods info) []))"

definition getDefaultPaymentType :: "TopupInfo option \<Rightarrow> jstr" where
  "getDefaultPaymentType topupInfo =
     (case topupInfo of
        None \<Rightarrow> []
      | Some info \<Rightarrow>
          (case getAvailablePaymentMethods topupInfo of
             mth # _ \<Rightarrow> pm_type mth
           | [] \<Rightarrow> if enable_waffo_topup info then WAFFO
                   else if enable_waffo_pancake_topup info then WAFFO_PANCAKE else []))"

text \<open>\<open>n || d\<close> on an optional number.\<close>

definition num_opt_or :: "jsnum option \<Rightarrow> jsnum \<Rightarrow> jsnum" where
  "num_opt_or n d = (case n of None \<Rightarrow> d | Some x \<Rightarrow> num_or x d)"

definition getMinTopupAmount :: "TopupInfo option \<Rightarrow> jsnum" where
  "getMinTopupAmount topupInfo =
     (case topupInfo of
        None \<Rightarrow> DEFAULT_MIN_TOPUP
      | Some info \<Rightarrow>
          if payment_compliance_confirmed info = Some False then DEFAULT_MIN_TOPUP
          else let hasDirectAlipay = list_ex (\<lambda>mth. pm_type mth = ALIPAY) (getAvailablePaymentMethods topupInfo)
               in if enable_online_topup info \<or> hasDirectAlipay then min_topup info
                  else if enable_stripe_topup info then stripe_min_topup info
                  else if enable_waffo_topup info then num_opt_or (waffo_min_topup info) DEFAULT_MIN_TOPUP
                  else if enable_waffo_pancake_topup info
                    then num_opt_or (waffo_pancake_min_topup info) DEFAULT_MIN_TOPUP
                  else DEFAULT_MIN_TOPUP)"

definition generatePresetAmounts :: "jsnum \<Rightarrow> PresetAmount list" where
  "generatePresetAmounts minAmount =
     map (\<lambda>multiplier. \<lparr>pa_value = js_mul minAmount multiplier, pa_discount = None\<rparr>) DEFAULT_PRESET_MULTIPLIERS"

definition mergePresetAmounts :: "jsnum list \<Rightarrow> (jstr \<times> jsnum) list \<Rightarrow> PresetAmount list" where
  "mergePresetAmounts amountOptions discounts =
     map (\<lambda>amount. \<lparr>pa_value = amount,
                    pa_discount = Some (num_opt_or (map_of discounts (num_str amount)) (Fin 1))\<rparr>) amountOptions"

text \<open>
    When a configured method is available, the default payment type is the type of the first
  available one, which its gateway switch allows.  But the fallback does not look at the
  compliance flag: with payments blocked by it and a Waffo gateway enabled, no method is
  available and the default type is a Waffo type all the same.
\<close>

theorem getDefaultPaymentType_fallback:
  "(getAvailablePaymentMethods topupInfo = mth # rest \<longrightarrow>
      getDefaultPaymentType topupInfo = pm_type mth \<and> pm_type mth \<noteq> WAFFO
      \<and> (\<exists>info. topupInfo = Some info \<and> methodAvailable info mth))
   \<and> (payment_compliance_confirmed info = Some False \<and> (enable_waffo_topup info \<or> enable_waffo_pancake_topup info) \<longrightarrow>
        getAvailablePaymentMethods (Some info) = []
        \<and> getDefaultPaymentType (Some info) \<in> {WAFFO, WAFFO_PANCAKE})"
proof (intro conjI impI)
  assume a: "getAvailablePaymentMethods topupInfo = mth # rest"
  then obtain info where info: "topupInfo = Some info"
    by (cases topupInfo) (simp_all add: getAvailablePaymentMethods_def)
  have "mth \<in> set (getAvailablePaymentMethods topupInfo)" by (simp add: a)
  then have m: "methodAvailable info mth"
    by (auto simp: getAvailablePaymentMethods_def info split: if_splits)
  then show "pm_type mth \<noteq> WAFFO"
    by (auto simp: methodAvailable_def ALIPAY_def STRIPE_def WAFFO_def WAFFO_PANCAKE_def lit_simps split: if_splits)
  show "getDefaultPaymentType topupInfo = pm_type mth" using a info by (simp add: getDefaultPaymentType_def)
  show "\<exists>info. topupInfo = Some info \<and> methodAvailable info mth" using m info by blast
qed (auto simp: getAvailablePaymentMethods_def getDefaultPaymentType_def)

definition blockedTopup :: TopupInfo where
  "blockedTopup =
     \<lparr>enable_online_topup = True, enable_stripe_topup = False,
      pay_methods = Some [\<lparr>pm_name = lit ''A'', pm_type = ALIPAY, pm_color = None, pm_min_topup = None, pm_icon = None\<rparr>],
      min_topup = Fin 1, stripe_min_topup = Fin 1, amount_options = [], discount = [], creem_products = [],
      enable_waffo_topup = True, waffo_pay_methods = [], waffo_min_topup = None,
      enable_waffo_pancake_topup = False, waffo_pancake_min_topup = None,
      payment_compliance_confirmed = Some False\<rparr>"

theorem getDefaultPaymentType_fallback_witness:
  "getAvailablePaymentMethods (Some blockedTopup) = [] \<and> getDefaultPaymentType (Some blockedTopup) \<in> {WAFFO, WAFFO_PANCAKE}"
  using getDefaultPaymentType_fallback [of None undefined "[]" blockedTopup] by (simp add: blockedTopup_def)

section \<open>The top-up configuration\<close>

definition parseJsonArray :: "jsval \<Rightarrow> jsval list" where
  "parseJsonArray data =
     (case data of
        JArr xs \<Rightarrow> xs
      | JStr s \<Rightarrow> (case json_parse s of Some (JArr xs) \<Rightarrow> xs | _ \<Rightarrow> [])
      | _ \<Rightarrow> [])"

definition objectItems :: "jsval \<Rightarrow> jsval list" where
  "objectItems data = filter (\<lambda>item. truthy item \<and> type_object item) (parseJsonArray data)"

definition paymentMethodOf :: "jsnum \<Rightarrow> jsval \<Rightarrow> PaymentMethod" where
  "paymentMethodOf stripeMinTopup item =
     (let rawMinTopup = to_num (prop_get (lit ''min_topup'') item);
          normalizedMinTopup = (if is_finite rawMinTopup then rawMinTopup else Fin 0);
          typ = opt_or (str_value (prop_get (lit ''type'') item)) []
      in \<lparr>pm_name = opt_or (str_value (prop_get (lit ''name'') item)) [], pm_type = typ,
          pm_color = str_value (prop_get (lit ''color'') item),
          pm_min_topup = Some (if typ = lit ''stripe'' \<and> js_le normalizedMinTopup (Fin 0)
                               then stripeMinTopup else normalizedMinTopup),
          pm_icon = str_value (prop_get (lit ''icon'') item)\<rparr>)"

definition parsePaymentMethods :: "jsval \<Rightarrow> jsnum \<Rightarrow> PaymentMethod list" where
  "parsePaymentMethods data stripeMinTopup =
     filter (\<lambda>item. pm_name item \<noteq> [] \<and> pm_type item \<noteq> [] \<and> pm_type item \<noteq> lit ''waffo'')
       (map (paymentMethodOf stripeMinTopup) (objectItems data))"

definition parseWaffoPayMethods :: "jsval \<Rightarrow> WaffoPayMethod list" where
  "parseWaffoPayMethods data =
     filter (\<lambda>item. wm_name item \<noteq> [])
       (map (\<lambda>item. \<lparr>wm_name = opt_or (str_value (prop_get (lit ''name'') item)) [],
                     wm_icon = str_value (prop_get (lit ''icon'') item),
                     wm_payMethodType = str_value (prop_get (lit ''payMethodType'') item),
                     wm_payMethodName = str_value (prop_get (lit ''payMethodName'') item)\<rparr>)
         (objectItems data))"

definition parseCreemProducts :: "jsval \<Rightarrow> CreemProduct list" where
  "parseCreemProducts data =
     filter (\<lambda>item. cp_name item \<noteq> [] \<and> cp_productId item \<noteq> [])
       (map (\<lambda>item. \<lparr>cp_name = opt_or (str_value (prop_get (lit ''name'') item)) [],
                     cp_productId = opt_or (str_value (prop_get (lit ''productId'') item)) [],
                     cp_price = num_or (to_num (prop_get (lit ''price'') item)) (Fin 0),
                     cp_quota = num_or (to_num (prop_get (lit ''quota'') item)) (Fin 0),
                     cp_currency = (if prop_get (lit ''currency'') item = JStr (lit ''EUR'') then EUR else USD)\<rparr>)
         (objectItems data))"

definition parseAmountOptions :: "jsval \<Rightarrow> jsnum list" where
  "parseAmountOptions data =
     filter (\<lambda>item. is_finite item \<and> js_lt (Fin 0) item) (map to_num (parseJsonArray data))"

definition discountEntries :: "(jstr \<times> jsval) list \<Rightarrow> (jstr \<times> jsnum) list" where
  "discountEntries entries =
     foldl (\<lambda>result (key, value).
              let numericKey = to_number key; numericValue = to_num value
              in if is_finite numericKey \<and> is_finite numericValue
                 then obj_put (num_str numericKey) numericValue result else result) [] entries"

definition parseDiscountMap :: "jsval \<Rightarrow> (jstr \<times> jsnum) list" where
  "parseDiscountMap data =
     (if \<not> truthy data then []
      else case (case data of JStr s \<Rightarrow> json_parse s | _ \<Rightarrow> Some data) of
             Some (JObj entries) \<Rightarrow> discountEntries entries
           | _ \<Rightarrow> [])"

record RawTopup =
  raw_pay_methods :: jsval
  raw_amount_options :: jsval
  raw_discount :: jsval
  raw_creem_products :: jsval
  raw_waffo_pay_methods :: jsval

definition processTopup :: "TopupInfo \<Rightarrow> RawTopup \<Rightarrow> TopupInfo" where
  "processTopup info raw =
     info\<lparr>pay_methods := Some (parsePaymentMethods (raw_pay_methods raw) (stripe_min_topup info)),
          amount_options := parseAmountOptions (raw_amount_options raw),
          discount := parseDiscountMap (raw_discount raw),
          creem_products := parseCreemProducts (raw_creem_products raw),
          waffo_pay_methods := parseWaffoPayMethods (raw_waffo_pay_methods raw)\<rparr>"

definition presetAmounts :: "TopupInfo \<Rightarrow> PresetAmount list" where
  "presetAmounts info =
     (if amount_options info \<noteq> [] then mergePresetAmounts (amount_options info) (discount info)
      else generatePresetAmounts (getMinTopupAmount (Some info)))"

lemma discountEntries_finite: "\<forall>kv\<in>set (discountEntries entries). is_finite (snd kv)"
proof -
  let ?f = "\<lambda>result (key, value). let numericKey = to_number key; numericValue = to_num value
              in if is_finite numericKey \<and> is_finite numericValue
                 then obj_put (num_str numericKey) numericValue result else result"
  have put: "set (obj_put k v r) \<subseteq> insert (k, v) (set r)" for k v and r :: "(jstr \<times> jsnum) list"
    by (auto simp: obj_put_def set_insert_index split: if_splits option.splits dest: set_update_subset [THEN subsetD])
  have gen: "\<forall>kv\<in>set (foldl ?f r entries). is_finite (snd kv)" if "\<forall>kv\<in>set r. is_finite (snd kv)" for r
    using that
  proof (induction entries arbitrary: r)
    case (Cons e es)
    obtain k v where e: "e = (k, v)" by (cases e)
    have "\<forall>kv\<in>set (?f r e). is_finite (snd kv)"
      using Cons.prems put [of "num_str (to_number k)" "to_num v" r] by (auto simp: e Let_def)
    then show ?case unfolding foldl_Cons by (rule Cons.IH)
  qed simp
  show ?thesis unfolding discountEntries_def by (rule gen) simp
qed

lemma num_or_finite: "is_finite d \<Longrightarrow> x = NaN \<or> is_finite x \<Longrightarrow> is_finite (num_or x d)"
  by (auto simp: num_or_def num_truthy_def)

text \<open>
    Whatever the server sends, the processed configuration is sane: every amount option is a
  positive finite number and offered as a preset with a non-zero discount rate that is finite;
  every payment method has a name and a type other than waffo; every discount is finite; every
  Creem product has a name and an id.
\<close>

theorem processTopup_sane:
  assumes "info' = processTopup info raw"
  shows "list_all (\<lambda>a. is_finite a \<and> js_lt (Fin 0) a) (amount_options info')
    \<and> list_all (\<lambda>m. pm_name m \<noteq> [] \<and> pm_type m \<noteq> [] \<and> pm_type m \<noteq> WAFFO) (opt_or (pay_methods info') [])
    \<and> list_all (\<lambda>kv. is_finite (snd kv)) (discount info')
    \<and> list_all (\<lambda>c. cp_name c \<noteq> [] \<and> cp_productId c \<noteq> []) (creem_products info')
    \<and> (amount_options info' \<noteq> [] \<longrightarrow> map pa_value (presetAmounts info') = amount_options info'
         \<and> list_all (\<lambda>p. \<exists>d. pa_discount p = Some (Fin d) \<and> d \<noteq> 0) (presetAmounts info'))"
proof -
  have disc: "\<forall>kv\<in>set (parseDiscountMap data). is_finite (snd kv)" for data
  proof -
    have "parseDiscountMap data = [] \<or> (\<exists>entries. parseDiscountMap data = discountEntries entries)"
      by (simp add: parseDiscountMap_def split: jsval.split option.split) blast
    then show ?thesis using discountEntries_finite by (elim disjE exE) (simp_all only: list.set ball_simps empty_iff)
  qed
  have "\<exists>d. num_opt_or (map_of (parseDiscountMap data) k) (Fin 1) = Fin d \<and> d \<noteq> 0" for data k
  proof (cases "map_of (parseDiscountMap data) k")
    case (Some x)
    then have "is_finite x" using disc map_of_SomeD by fastforce
    then show ?thesis by (cases x) (simp_all add: Some num_opt_or_def)
  qed (simp add: num_opt_or_def)
  then show ?thesis
    using disc
    by (auto simp: assms processTopup_def list_all_iff parseAmountOptions_def parsePaymentMethods_def
        parseCreemProducts_def presetAmounts_def mergePresetAmounts_def WAFFO_def comp_def)
qed

theorem processTopup_sane_witness:
  "map pa_value (presetAmounts (processTopup blockedTopup
       \<lparr>raw_pay_methods = JNull, raw_amount_options = JStr (lit ''[5, -1, \"7\"]''), raw_discount = JObj [(lit ''5'', JNum (Fin 0))],
        raw_creem_products = JUndef, raw_waffo_pay_methods = JUndef\<rparr>)) = [Fin 5, Fin 7]"
proof -
  let ?i = "processTopup blockedTopup
       \<lparr>raw_pay_methods = JNull, raw_amount_options = JStr (lit ''[5, -1, \"7\"]''), raw_discount = JObj [(lit ''5'', JNum (Fin 0))],
        raw_creem_products = JUndef, raw_waffo_pay_methods = JUndef\<rparr>"
  have "amount_options ?i = [Fin 5, Fin 7]" by code_simp
  with processTopup_sane [of ?i, OF refl] show ?thesis by simp
qed

section \<open>Labels\<close>

datatype CurrencyDisplayType = CUsd | CCny | CTokens | CCustom

record CurrencyConfig =
  quotaDisplayType :: CurrencyDisplayType
  quotaPerUnit :: jsnum
  usdExchangeRate :: jsnum
  customCurrencySymbol :: jstr
  customCurrencyExchangeRate :: jsnum

definition formatWalletNumber :: "(nat \<Rightarrow> jsnum \<Rightarrow> jstr) \<Rightarrow> jsnum \<Rightarrow> jstr" where
  "formatWalletNumber nf amount = nf (if js_le (Fin 1) (js_abs amount) then 2 else 4) amount"

definition formatWalletTopupAmount :: "(nat \<Rightarrow> jsnum \<Rightarrow> jstr) \<Rightarrow> jsnum \<Rightarrow> jstr" where
  "formatWalletTopupAmount nf amount = lit ''$'' @ formatWalletNumber nf amount"

fun formatWalletQuotaAmount :: "(nat \<Rightarrow> jsnum \<Rightarrow> jstr) \<Rightarrow> jsnum \<Rightarrow> CurrencyConfig \<Rightarrow> jstr" where
  "formatWalletQuotaAmount nf amountUSD currency =
     (case quotaDisplayType currency of
        CCny \<Rightarrow> [165] @ formatWalletNumber nf (js_mul amountUSD (usdExchangeRate currency))
      | CTokens \<Rightarrow> formatWalletNumber nf (js_mul amountUSD (quotaPerUnit currency))
      | CCustom \<Rightarrow> formatWalletNumber nf (js_mul amountUSD (customCurrencyExchangeRate currency))
                   @ customCurrencySymbol currency
      | CUsd \<Rightarrow> formatWalletTopupAmount nf amountUSD)"

text \<open>The amount is a number (\<open>Inl\<close>) or a string (\<open>Inr\<close>).\<close>

definition formatWalletPaymentAmount :: "(nat \<Rightarrow> jsnum \<Rightarrow> jstr) \<Rightarrow> jsnum + jstr \<Rightarrow> jstr \<Rightarrow> jstr" where
  "formatWalletPaymentAmount nf amount currencySymbol =
     (let numeric = (case amount of Inl n \<Rightarrow> n | Inr s \<Rightarrow> parse_float s)
      in if \<not> is_finite numeric then lit ''-'' else currencySymbol @ formatWalletNumber nf numeric)"

definition formatCreemPrice :: "jsnum \<Rightarrow> CreemCurrency \<Rightarrow> jstr" where
  "formatCreemPrice price currency = (if currency = EUR then [8364] else lit ''$'') @ to_fixed price 2"

definition formatQuotaShort :: "jsnum \<Rightarrow> jstr" where
  "formatQuotaShort quota =
     (if js_le (Fin 1000000) quota then to_fixed (js_div quota (Fin 1000000)) 1 @ lit ''M''
      else if js_le (Fin 1000) quota then to_fixed (js_div quota (Fin 1000)) 1 @ lit ''K''
      else num_str quota)"

definition DEFAULT_DISCOUNT_RATE :: jsnum where "DEFAULT_DISCOUNT_RATE = Fin 1"

definition getDiscountLabel :: "jsnum \<Rightarrow> jstr" where
  "getDiscountLabel disc =
     (if js_le DEFAULT_DISCOUNT_RATE disc then []
      else num_str (js_round (js_mul (js_sub (Fin 1) disc) (Fin 100))) @ lit ''% OFF'')"

record PresetPricing =
  originalPrice :: jsnum
  actualPrice :: jsnum
  savedAmount :: jsnum
  hasDiscount :: bool

definition calculatePresetPricing :: "jsnum \<Rightarrow> jsnum \<Rightarrow> jsnum \<Rightarrow> PresetPricing" where
  "calculatePresetPricing presetValue priceRatio disc =
     (let original = js_mul presetValue priceRatio; actual = js_mul original disc
      in \<lparr>originalPrice = original, actualPrice = actual, savedAmount = js_sub original actual,
          hasDiscount = js_lt disc (Fin 1)\<rparr>)"

datatype TopupStatus = TSuccess | TPending | TExpired

record StatusConfig =
  sc_variant :: jstr
  sc_label :: jstr

fun STATUS_CONFIG :: "TopupStatus \<Rightarrow> StatusConfig" where
  "STATUS_CONFIG TSuccess = \<lparr>sc_variant = lit ''success'', sc_label = lit ''Success''\<rparr>"
| "STATUS_CONFIG TPending = \<lparr>sc_variant = lit ''warning'', sc_label = lit ''Pending''\<rparr>"
| "STATUS_CONFIG TExpired = \<lparr>sc_variant = lit ''danger'', sc_label = lit ''Expired''\<rparr>"

text \<open>A status the table does not know (\<open>None\<close>) counts as pending.\<close>

definition getStatusConfig :: "TopupStatus option \<Rightarrow> StatusConfig" where
  "getStatusConfig s = STATUS_CONFIG (opt_or s TPending)"

definition PAYMENT_METHOD_NAMES :: "(jstr \<times> jstr) list" where
  "PAYMENT_METHOD_NAMES = [(lit ''stripe'', lit ''Stripe''), (lit ''alipay'', lit ''Alipay''),
     (lit ''wxpay'', lit ''WeChat Pay''), (lit ''waffo'', lit ''Waffo'')]"

definition getPaymentMethodName :: "jstr \<Rightarrow> (jstr \<Rightarrow> jstr) option \<Rightarrow> jstr" where
  "getPaymentMethodName mth t =
     (let name = opt_or (map_of PAYMENT_METHOD_NAMES mth) mth
      in case t of Some f \<Rightarrow> f name | None \<Rightarrow> name)"

definition generateAffiliateLink :: "jstr option \<Rightarrow> jstr \<Rightarrow> jstr" where
  "generateAffiliateLink origin affCode =
     (case origin of None \<Rightarrow> [] | Some base \<Rightarrow> base @ lit ''/sign-up?aff='' @ affCode)"

end
