(* ===== verification/Playground.thy ===== *)
theory Playground
  imports JS_Json
begin

text \<open>
  The chat playground (\<open>src/web/default/src/features/playground\<close>): message construction, the
  separation of \<open><think>\<close> reasoning from visible text, streaming updates, completion, errors
  and the repair of stored messages (\<open>lib/message-utils.ts\<close>), the request payload
  (\<open>lib/payload-builder.ts\<close>), the handlers of \<open>hooks/use-chat-handler.ts\<close>, the server-sent
  events of \<open>hooks/use-stream-request.ts\<close> and the message actions of \<open>chat-playground.tsx\<close>.  Fresh ids
  (\<open>nanoid\<close>) are arguments.  Nothing is assumed of the \<open>sse.js\<close> package: its events are arguments, and a stream is
  any sequence of them, so a source may close by itself and events may still arrive after the hook has closed it.
\<close>

section \<open>Messages\<close>

datatype MessageRole = RoleUser | RoleAssistant | RoleSystem

datatype MessageStatus = Loading | Streaming | Complete | MError

record MessageVersion =
  mv_id :: jstr
  mv_content :: jstr

record MessageImage =
  mi_id :: jstr
  mi_url :: jstr

record Reasoning =
  re_content :: jstr
  re_duration :: jsnum

record Message =
  key :: jstr
  sender :: MessageRole
  versions :: "MessageVersion list"
  images :: "MessageImage list option"
  reasoning :: "Reasoning option"
  isReasoningStreaming :: "bool option"
  isReasoningComplete :: "bool option"
  isContentComplete :: "bool option"
  mstatus :: "MessageStatus option"
  errorCode :: "jstr option option"

datatype ContentPart = TextPart jstr | ImagePart jstr

text \<open>Message content: a string or a list of parts.\<close>

datatype content = PlainText jstr | Parts "ContentPart list"

record ChatCompletionMessage =
  cm_role :: MessageRole
  cm_content :: content

definition API_REQUEST_ERROR :: jstr where "API_REQUEST_ERROR = lit ''Request error occurred''"
definition PARSE_ERROR :: jstr where "PARSE_ERROR = lit ''Error parsing response data''"
definition CONNECTION_CLOSED :: jstr where "CONNECTION_CLOSED = lit ''Connection closed''"
definition STREAM_START_ERROR :: jstr where "STREAM_START_ERROR = lit ''Error establishing connection''"
definition INTERRUPTED :: jstr where "INTERRUPTED = lit ''Generation was interrupted''"

definition createMessageVersion :: "jstr \<Rightarrow> jstr \<Rightarrow> MessageVersion" where
  "createMessageVersion nanoid content = \<lparr>mv_id = nanoid, mv_content = content\<rparr>"

definition getCurrentVersion :: "Message \<Rightarrow> MessageVersion" where
  "getCurrentVersion message =
     (case versions message of v # _ \<Rightarrow> v | [] \<Rightarrow> \<lparr>mv_id = lit ''default'', mv_content = []\<rparr>)"

definition updateCurrentVersionContent :: "Message \<Rightarrow> jstr \<Rightarrow> Message" where
  "updateCurrentVersionContent message content =
     message\<lparr>versions := [(getCurrentVersion message)\<lparr>mv_content := content\<rparr>]\<rparr>"

definition createUserMessage :: "jstr \<Rightarrow> jstr \<Rightarrow> (nat \<Rightarrow> jstr) \<Rightarrow> jstr \<Rightarrow> jstr list \<Rightarrow> Message" where
  "createUserMessage msgId versionId imageId content imageUrls =
     \<lparr>key = msgId, sender = RoleUser, versions = [createMessageVersion versionId content],
      images = (if imageUrls \<noteq> []
                then Some (map (\<lambda>(i, url). \<lparr>mi_id = imageId i, mi_url = url\<rparr>) (enumerate 0 imageUrls)) else None),
      reasoning = None, isReasoningStreaming = None, isReasoningComplete = None,
      isContentComplete = None, mstatus = None, errorCode = None\<rparr>"

definition createLoadingAssistantMessage :: "jstr \<Rightarrow> jstr \<Rightarrow> Message" where
  "createLoadingAssistantMessage msgId versionId =
     \<lparr>key = msgId, sender = RoleAssistant, versions = [createMessageVersion versionId []], images = None,
      reasoning = None, isReasoningStreaming = Some False, isReasoningComplete = Some False,
      isContentComplete = Some False, mstatus = Some Loading, errorCode = None\<rparr>"

definition buildMessageContent :: "jstr \<Rightarrow> jstr list \<Rightarrow> content" where
  "buildMessageContent txt imageUrls =
     (let validImages = filter (\<lambda>url. trim url \<noteq> []) imageUrls
      in if validImages = [] then PlainText txt
         else Parts (TextPart txt # map (\<lambda>url. ImagePart (trim url)) validImages))"

fun partText :: "ContentPart list \<Rightarrow> jstr" where
  "partText [] = []"
| "partText (TextPart t # _) = t"
| "partText (ImagePart _ # r) = partText r"

fun getTextContent :: "content \<Rightarrow> jstr" where
  "getTextContent (PlainText s) = s"
| "getTextContent (Parts ps) = partText ps"

definition formatMessageForAPI :: "Message \<Rightarrow> ChatCompletionMessage" where
  "formatMessageForAPI message =
     \<lparr>cm_role = sender message,
      cm_content = buildMessageContent (mv_content (getCurrentVersion message))
        (map mi_url (opt_or (images message) []))\<rparr>"

definition isValidMessage :: "Message \<Rightarrow> bool" where
  "isValidMessage message =
     (case versions message of
        [] \<Rightarrow> False
      | v # _ \<Rightarrow> \<not> (sender message = RoleAssistant \<and> trim (mv_content v) = []))"

section \<open>Think tags\<close>

definition OPEN_TAG :: jstr where "OPEN_TAG = lit ''<think>''"
definition CLOSE_TAG :: jstr where "CLOSE_TAG = lit ''</think>''"

record ThinkParts =
  visibleContent :: jstr
  reasoningText :: jstr
  hasUnclosedTag :: bool

text \<open>The loop of \<open>parseThinkTags\<close> on the rest of the content after \<open>currentPos\<close>.\<close>

function thinkLoop :: "jstr \<Rightarrow> jstr list \<times> jstr list \<times> bool" where
  "thinkLoop rest =
     (case index_of OPEN_TAG rest of
        None \<Rightarrow> (if rest \<noteq> [] then [rest] else [], [], False)
      | Some openPos \<Rightarrow>
          (let before = (if 0 < openPos then [take openPos rest] else []); inner = drop (openPos + 7) rest
           in case index_of CLOSE_TAG inner of
                None \<Rightarrow> (before, [inner], True)
              | Some closePos \<Rightarrow>
                  (let (vs, rs, unclosed) = thinkLoop (drop (closePos + 8) inner)
                   in (before @ vs, take closePos inner # rs, unclosed))))"
  by pat_completeness auto
termination
proof (relation "measure length", goal_cases)
  case (2 rest openPos before inner closePos)
  then have "openPos + length OPEN_TAG \<le> length rest" using index_of_Some by fastforce
  then have "length inner < length rest" using 2 by (simp add: OPEN_TAG_def)
  then show ?case by simp
qed simp

declare thinkLoop.simps [simp del]

definition parseThinkTags :: "jstr \<Rightarrow> ThinkParts" where
  "parseThinkTags content =
     (if \<not> str_includes OPEN_TAG content
      then \<lparr>visibleContent = content, reasoningText = [], hasUnclosedTag = False\<rparr>
      else let (vs, rs, unclosed) = thinkLoop content
           in \<lparr>visibleContent = trim (concat vs), reasoningText = trim (join [10, 10] rs),
               hasUnclosedTag = unclosed\<rparr>)"

section \<open>Updating the last assistant message\<close>

definition updateLastAssistantMessage :: "Message list \<Rightarrow> (Message \<Rightarrow> Message) \<Rightarrow> Message list" where
  "updateLastAssistantMessage messages updater =
     (if messages = [] then messages
      else if sender (last messages) \<noteq> RoleAssistant then messages
      else butlast messages @ [updater (last messages)])"

definition updateAssistantMessageWithError :: "Message list \<Rightarrow> jstr \<Rightarrow> jstr option \<Rightarrow> Message list" where
  "updateAssistantMessageWithError messages errorMessage code =
     updateLastAssistantMessage messages (\<lambda>message.
       (updateCurrentVersionContent message (API_REQUEST_ERROR @ lit '': '' @ errorMessage))
         \<lparr>mstatus := Some MError, isReasoningStreaming := Some False,
          errorCode := Some (case code of Some (c # cs) \<Rightarrow> Some (c # cs) | _ \<Rightarrow> None)\<rparr>)"

definition processStreamingContent :: "Message \<Rightarrow> jstr option \<Rightarrow> Message" where
  "processStreamingContent message contentChunk =
     (let fullContent = mv_content (getCurrentVersion message) @ opt_or contentChunk [];
          parsed = parseThinkTags fullContent
      in (updateCurrentVersionContent message fullContent)
           \<lparr>reasoning := (if reasoningText parsed \<noteq> []
                          then Some \<lparr>re_content = reasoningText parsed, re_duration = Fin 0\<rparr> else reasoning message),
            isReasoningStreaming := Some (hasUnclosedTag parsed)\<rparr>)"

text \<open>\<open>a || b\<close> on strings.\<close>

definition str_alt :: "jstr \<Rightarrow> jstr \<Rightarrow> jstr" where
  "str_alt a b = (if a = [] then b else a)"

definition finalizeMessage :: "Message \<Rightarrow> jstr option \<Rightarrow> Message" where
  "finalizeMessage message apiReasoningContent =
     (let parsed = parseThinkTags (mv_content (getCurrentVersion message));
          finalReasoning = str_alt (opt_or apiReasoningContent [])
            (str_alt (case reasoning message of Some r \<Rightarrow> re_content r | None \<Rightarrow> []) (reasoningText parsed));
          duration = (case reasoning message of Some r \<Rightarrow> num_or (re_duration r) (Fin 0) | None \<Rightarrow> Fin 0)
      in (updateCurrentVersionContent message (visibleContent parsed))
           \<lparr>reasoning := (if finalReasoning \<noteq> []
                          then Some \<lparr>re_content = finalReasoning, re_duration = duration\<rparr> else None),
            isReasoningStreaming := Some False\<rparr>)"

definition stuck :: "Message \<Rightarrow> bool" where
  "stuck m = (sender m = RoleAssistant \<and> (mstatus m = Some Loading \<or> mstatus m = Some Streaming))"

text \<open>The index of the last stuck message.\<close>

definition lastStuck :: "Message list \<Rightarrow> nat option" where
  "lastStuck messages = list_head (filter (\<lambda>i. stuck (messages ! i)) (rev [0..<length messages]))"

definition sanitizeOne :: "Message \<Rightarrow> Message" where
  "sanitizeOne m =
     (let finalized = finalizeMessage m None;
          hasContent = trim (mv_content (getCurrentVersion finalized)) \<noteq> [];
          hasReasoning = (case reasoning finalized of Some r \<Rightarrow> trim (re_content r) \<noteq> [] | None \<Rightarrow> False)
      in if hasContent \<or> hasReasoning
         then finalized\<lparr>mstatus := Some Complete, isReasoningStreaming := Some False\<rparr>
         else (updateCurrentVersionContent finalized (API_REQUEST_ERROR @ lit '': '' @ INTERRUPTED))
                \<lparr>mstatus := Some MError, isReasoningStreaming := Some False\<rparr>)"

definition sanitizeMessagesOnLoad :: "Message list \<Rightarrow> Message list" where
  "sanitizeMessagesOnLoad messages =
     (case lastStuck messages of None \<Rightarrow> messages | Some i \<Rightarrow> messages[i := sanitizeOne (messages ! i)])"

section \<open>The request payload\<close>

record PlaygroundConfig =
  cfg_model :: jstr
  cfg_group :: jstr
  cfg_params :: "jstr \<Rightarrow> jsnum option"
  cfg_stream :: bool

record ChatCompletionRequest =
  rq_model :: jstr
  rq_group :: jstr
  rq_messages :: "ChatCompletionMessage list"
  rq_stream :: bool
  rq_params :: "(jstr \<times> jsnum) list"

definition parameterKeys :: "jstr list" where
  "parameterKeys = [lit ''temperature'', lit ''top_p'', lit ''max_tokens'', lit ''frequency_penalty'',
     lit ''presence_penalty'', lit ''seed'']"

definition buildChatCompletionPayload ::
    "Message list \<Rightarrow> PlaygroundConfig \<Rightarrow> (jstr \<Rightarrow> bool) \<Rightarrow> ChatCompletionRequest" where
  "buildChatCompletionPayload messages config parameterEnabled =
     \<lparr>rq_model = cfg_model config, rq_group = cfg_group config,
      rq_messages = map formatMessageForAPI (filter isValidMessage messages), rq_stream = cfg_stream config,
      rq_params = concat (map (\<lambda>k. if parameterEnabled k
        then (case cfg_params config k of Some v \<Rightarrow> [(k, v)] | None \<Rightarrow> []) else []) parameterKeys)\<rparr>"

section \<open>Handlers\<close>

definition reasoningUpdate :: "jstr \<Rightarrow> Message \<Rightarrow> Message" where
  "reasoningUpdate chunk message =
     (if mstatus message = Some MError then message
      else message\<lparr>reasoning := Some \<lparr>re_content = (case reasoning message of Some r \<Rightarrow> re_content r | None \<Rightarrow> []) @ chunk,
                                      re_duration = Fin 0\<rparr>,
                   isReasoningStreaming := Some True, mstatus := Some Streaming\<rparr>)"

definition contentUpdate :: "jstr \<Rightarrow> Message \<Rightarrow> Message" where
  "contentUpdate chunk message =
     (if mstatus message = Some MError then message
      else (processStreamingContent message (Some chunk))\<lparr>mstatus := Some Streaming\<rparr>)"

definition completeUpdate :: "Message \<Rightarrow> Message" where
  "completeUpdate message =
     (if mstatus message = Some Complete \<or> mstatus message = Some MError then message
      else (finalizeMessage message None)\<lparr>mstatus := Some Complete\<rparr>)"

definition handleStreamComplete :: "Message list \<Rightarrow> Message list" where
  "handleStreamComplete prev = updateLastAssistantMessage prev completeUpdate"

definition handleStreamError :: "jstr \<Rightarrow> jstr option \<Rightarrow> Message list \<Rightarrow> Message list" where
  "handleStreamError err code prev = updateAssistantMessageWithError prev err code"

definition stopUpdate :: "Message \<Rightarrow> Message" where
  "stopUpdate message =
     (if mstatus message = Some Loading \<or> mstatus message = Some Streaming
      then (finalizeMessage message None)\<lparr>mstatus := Some Complete\<rparr> else message)"

definition stopGeneration :: "Message list \<Rightarrow> Message list" where
  "stopGeneration prev = updateLastAssistantMessage prev stopUpdate"

text \<open>
  The answer of a request that is not streamed: the content and the reasoning of the first
  choice, \<open>None\<close> when the response has no choice.
\<close>

definition nonStreamingAnswer :: "(jstr \<times> jstr option) option \<Rightarrow> Message list \<Rightarrow> Message list" where
  "nonStreamingAnswer choice prev =
     (case choice of
        None \<Rightarrow> prev
      | Some (content, apiReasoning) \<Rightarrow>
          updateLastAssistantMessage prev (\<lambda>message.
            (finalizeMessage (message\<lparr>versions := [(getCurrentVersion message)\<lparr>mv_content := content\<rparr>]\<rparr>) apiReasoning)
              \<lparr>mstatus := Some Complete\<rparr>))"

section \<open>Server-sent events\<close>

record stream =
  str_messages :: "Message list"
  isStreamComplete :: bool
  sourceOpen :: bool

datatype sse_event =
  SseMessage jstr
| SseError int "jstr option"
| SseReadyState "int option" "int option"

text \<open>\<open>v?.[0]\<close> and \<open>v?.delta\<close>.\<close>

definition opt_index0 :: "jsval \<Rightarrow> jsval" where
  "opt_index0 v =
     (case v of
        JArr (x # _) \<Rightarrow> x
      | JStr (c # _) \<Rightarrow> JStr [c]
      | JObj o' \<Rightarrow> obj_get (lit ''0'') o'
      | _ \<Rightarrow> JUndef)"

text \<open>\<open>chunk.choices?.[0]?.delta\<close>; reading a property of \<open>null\<close> throws.\<close>

definition deltaOf :: "jsval \<Rightarrow> jsval option" where
  "deltaOf chunk =
     (if chunk = JNull then None
      else Some (prop_get (lit ''delta'') (opt_index0 (prop_get (lit ''choices'') chunk))))"

definition streamUpdate :: "(Message \<Rightarrow> Message) \<Rightarrow> stream \<Rightarrow> stream" where
  "streamUpdate f s = s\<lparr>str_messages := updateLastAssistantMessage (str_messages s) f\<rparr>"

definition handleError :: "jstr \<Rightarrow> jstr option \<Rightarrow> stream \<Rightarrow> stream" where
  "handleError msg code s =
     (if isStreamComplete s then s
      else s\<lparr>str_messages := handleStreamError msg code (str_messages s), sourceOpen := False\<rparr>)"

definition onMessage :: "jstr \<Rightarrow> stream \<Rightarrow> stream" where
  "onMessage data s =
     (if data = lit ''[DONE]''
      then s\<lparr>isStreamComplete := True, sourceOpen := False, str_messages := handleStreamComplete (str_messages s)\<rparr>
      else case json_parse data of
             None \<Rightarrow> handleError PARSE_ERROR None s
           | Some chunk \<Rightarrow>
               (case deltaOf chunk of
                  None \<Rightarrow> handleError PARSE_ERROR None s
                | Some delta \<Rightarrow>
                    if \<not> truthy delta then s
                    else let r = prop_get (lit ''reasoning_content'') delta;
                             s1 = (if truthy r then streamUpdate (reasoningUpdate (to_string r)) s else s);
                             c = prop_get (lit ''content'') delta
                         in if truthy c then streamUpdate (contentUpdate (to_string c)) s1 else s1))"

text \<open>The error text and code of an error event.\<close>

definition errorOf :: "jstr option \<Rightarrow> jstr \<times> jstr option" where
  "errorOf data =
     (case data of
        Some (c # cs) \<Rightarrow>
          (case json_parse (c # cs) of
             None \<Rightarrow> (c # cs, None)
           | Some parsed \<Rightarrow>
               (let err = prop_get (lit ''error'') parsed in
                if truthy err
                then (if truthy (prop_get (lit ''message'') err) then to_string (prop_get (lit ''message'') err) else c # cs,
                      if truthy (prop_get (lit ''code'') err) then Some (to_string (prop_get (lit ''code'') err)) else None)
                else (c # cs, None)))
      | _ \<Rightarrow> (API_REQUEST_ERROR, None))"

definition onSse :: "sse_event \<Rightarrow> stream \<Rightarrow> stream" where
  "onSse ev s =
     (case ev of
        SseMessage data \<Rightarrow> onMessage data s
      | SseError readyState data \<Rightarrow>
          if readyState \<noteq> 2 then (let (msg, code) = errorOf data in handleError msg code s) else s
      | SseReadyState rs st \<Rightarrow>
          (case (rs, st) of
             (Some r, Some code) \<Rightarrow>
               if 2 \<le> r \<and> code \<noteq> 200
               then handleError (lit ''HTTP '' @ dec_int code @ lit '': '' @ CONNECTION_CLOSED) None s else s
           | _ \<Rightarrow> s))"

definition stopStream :: "stream \<Rightarrow> stream" where
  "stopStream s = s\<lparr>sourceOpen := False, str_messages := stopGeneration (str_messages s)\<rparr>"

text \<open>What happens to a stream: an event of its source, or the user stops the generation.\<close>

datatype chat_event = Sse sse_event | Stop

definition chatStep :: "chat_event \<Rightarrow> stream \<Rightarrow> stream" where
  "chatStep ev s = (case ev of Sse e \<Rightarrow> onSse e s | Stop \<Rightarrow> stopStream s)"

text \<open>The start of a request; \<open>started\<close> is false when \<open>source.stream()\<close> throws.\<close>

definition sendStreamRequest :: "bool \<Rightarrow> Message list \<Rightarrow> stream" where
  "sendStreamRequest started ms =
     (if started then \<lparr>str_messages = ms, isStreamComplete = False, sourceOpen = True\<rparr>
      else \<lparr>str_messages = handleStreamError STREAM_START_ERROR None ms, isStreamComplete = False, sourceOpen = False\<rparr>)"

section \<open>Message actions\<close>

text \<open>
  The actions of the chat page: the new message list, and the list handed to \<open>sendChat\<close> if a request is sent.
  The ids are those of the new user message, of its version and images, and of the placeholder.
  Every message these operations build has a version; editing one without any would keep no id.
\<close>

record new_ids =
  id_user :: jstr
  id_version :: jstr
  id_image :: "nat \<Rightarrow> jstr"
  id_answer :: jstr
  id_answer_version :: jstr

definition newAnswer :: "new_ids \<Rightarrow> Message" where
  "newAnswer ids = createLoadingAssistantMessage (id_answer ids) (id_answer_version ids)"

definition handleSendMessage :: "new_ids \<Rightarrow> jstr \<Rightarrow> jstr list \<Rightarrow> Message list \<Rightarrow> Message list" where
  "handleSendMessage ids txt imageUrls messages =
     messages @ [createUserMessage (id_user ids) (id_version ids) (id_image ids) txt imageUrls, newAnswer ids]"

definition handleRegenerateMessage :: "new_ids \<Rightarrow> jstr \<Rightarrow> Message list \<Rightarrow> Message list option" where
  "handleRegenerateMessage ids k messages =
     (case find (\<lambda>i. key (messages ! i) = k) [0..<length messages] of
        None \<Rightarrow> None
      | Some i \<Rightarrow> Some (take i messages @ [newAnswer ids]))"

definition applyEdit ::
    "new_ids \<Rightarrow> jstr option \<Rightarrow> jstr \<Rightarrow> bool \<Rightarrow> Message list \<Rightarrow> Message list \<times> Message list option" where
  "applyEdit ids editing newContent submit messages =
     (case editing of
        None \<Rightarrow> (messages, None)
      | Some [] \<Rightarrow> (messages, None)
      | Some k \<Rightarrow>
          (case find (\<lambda>i. key (messages ! i) = k) [0..<length messages] of
             None \<Rightarrow> (messages, None)
           | Some i \<Rightarrow>
               let updated = map (\<lambda>m. if key m = k then updateCurrentVersionContent m newContent else m) messages
               in if \<not> submit \<or> sender (updated ! i) \<noteq> RoleUser then (updated, None)
                  else let toSubmit = take (i + 1) updated @ [newAnswer ids] in (toSubmit, Some toSubmit)))"

definition handleDeleteMessage :: "jstr \<Rightarrow> Message list \<Rightarrow> Message list" where
  "handleDeleteMessage k messages = filter (\<lambda>m. key m \<noteq> k) messages"

section \<open>Think tags: correctness\<close>

lemma tags_unbordered: "OPEN_TAG \<noteq> []" "hd OPEN_TAG \<notin> set (tl OPEN_TAG)" "CLOSE_TAG \<noteq> []"
  "hd CLOSE_TAG \<notin> set (tl CLOSE_TAG)" "length OPEN_TAG = 7" "length CLOSE_TAG = 8"
  by (simp_all add: OPEN_TAG_def CLOSE_TAG_def lit_simps)

definition thinkText :: "jstr \<Rightarrow> (jstr \<times> jstr) list \<Rightarrow> jstr" where
  "thinkText v segs = v @ concat (map (\<lambda>(r, v). OPEN_TAG @ r @ CLOSE_TAG @ v) segs)"

lemma thinkText_Cons: "thinkText v ((r, v') # segs) = v @ OPEN_TAG @ r @ CLOSE_TAG @ thinkText v' segs"
  by (simp add: thinkText_def)

lemma thinkLoop_text:
  assumes "\<not> str_includes OPEN_TAG v"
    and "\<forall>(r, v')\<in>set segs. \<not> str_includes CLOSE_TAG r \<and> \<not> str_includes OPEN_TAG v'"
  shows "\<exists>vs. thinkLoop (thinkText v segs) = (vs, map fst segs, False) \<and> concat vs = v @ concat (map snd segs)"
  using assms
proof (induction segs arbitrary: v)
  case Nil
  then have "index_of OPEN_TAG v = None" by (simp add: str_includes_def)
  then show ?case by (simp add: thinkText_def thinkLoop.simps)
next
  case (Cons seg segs)
  obtain r v' where seg: "seg = (r, v')" by (cases seg)
  let ?rest = "thinkText v' segs"
  obtain vs where vs: "thinkLoop ?rest = (vs, map fst segs, False)" "concat vs = v' @ concat (map snd segs)"
    using Cons.IH [of v'] Cons.prems by (auto simp: seg)
  have o: "index_of OPEN_TAG (v @ OPEN_TAG @ r @ CLOSE_TAG @ ?rest) = Some (length v)"
    by (rule index_of_first) (use tags_unbordered Cons.prems in auto)
  have c: "index_of CLOSE_TAG (r @ CLOSE_TAG @ ?rest) = Some (length r)"
    by (rule index_of_first) (use tags_unbordered Cons.prems seg in auto)
  have d: "drop (length v + 7) (v @ OPEN_TAG @ r @ CLOSE_TAG @ ?rest) = r @ CLOSE_TAG @ ?rest"
    "drop (length r + 8) (r @ CLOSE_TAG @ ?rest) = ?rest"
    by (simp_all add: tags_unbordered(5,6))
  have t: "take (length v) (v @ OPEN_TAG @ r @ CLOSE_TAG @ ?rest) = v" "take (length r) (r @ CLOSE_TAG @ ?rest) = r"
    by simp_all
  have "thinkLoop (v @ OPEN_TAG @ r @ CLOSE_TAG @ ?rest)
      = ((if 0 < length v then [v] else []) @ vs, r # map fst segs, False)"
    by (subst thinkLoop.simps) (simp only: o c d t vs(1) Let_def option.case prod.case)
  then show ?case unfolding seg thinkText_Cons using vs(2) by simp
qed

text \<open>
    Thinking is separated from the answer: for a text made of visible parts and closed think
  blocks, where no visible part holds an opening tag and no block a closing tag, the visible
  content is the visible parts joined and trimmed, the reasoning is the blocks joined by an
  empty line and trimmed, and no tag is reported open.
\<close>

theorem parseThinkTags_segments:
  assumes "segs \<noteq> []" "\<not> str_includes OPEN_TAG v"
    and "\<forall>(r, v')\<in>set segs. \<not> str_includes CLOSE_TAG r \<and> \<not> str_includes OPEN_TAG v'"
  shows "parseThinkTags (thinkText v segs) =
    \<lparr>visibleContent = trim (v @ concat (map snd segs)), reasoningText = trim (join [10, 10] (map fst segs)),
     hasUnclosedTag = False\<rparr>"
proof -
  obtain r v' segs' where segs: "segs = (r, v') # segs'" using assms(1) by (cases segs) auto
  have "str_includes OPEN_TAG (thinkText v segs)"
    unfolding segs thinkText_Cons str_includes_iff by blast
  moreover obtain vs where "thinkLoop (thinkText v segs) = (vs, map fst segs, False)"
    "concat vs = v @ concat (map snd segs)"
    using thinkLoop_text [OF assms(2,3)] by blast
  ultimately show ?thesis by (simp add: parseThinkTags_def)
qed

theorem parseThinkTags_segments_witness:
  "parseThinkTags (lit ''a<think>why</think> b'') =
     \<lparr>visibleContent = lit ''a b'', reasoningText = lit ''why'', hasUnclosedTag = False\<rparr>"
proof -
  have h: "[(lit ''why'', lit '' b'')] \<noteq> []" "\<not> str_includes OPEN_TAG (lit ''a'')"
    "\<forall>(r, v')\<in>set [(lit ''why'', lit '' b'')]. \<not> str_includes CLOSE_TAG r \<and> \<not> str_includes OPEN_TAG v'"
    by code_simp+
  have t: "thinkText (lit ''a'') [(lit ''why'', lit '' b'')] = lit ''a<think>why</think> b''" by code_simp
  have "trim (lit ''a'' @ concat (map snd [(lit ''why'', lit '' b'')])) = lit ''a b''"
    "trim (join [10, 10] (map fst [(lit ''why'', lit '' b'')])) = lit ''why''" by code_simp+
  with parseThinkTags_segments [OF h] t show ?thesis by simp
qed

section \<open>Streaming: correctness\<close>

lemma current_update [simp]: "mv_content (getCurrentVersion (updateCurrentVersionContent m c)) = c"
  "mv_id (getCurrentVersion (updateCurrentVersionContent m c)) = mv_id (getCurrentVersion m)"
  by (simp_all add: getCurrentVersion_def updateCurrentVersionContent_def)

lemma contentUpdate_fields:
  assumes "mstatus m \<noteq> Some MError"
  shows "mv_content (getCurrentVersion (contentUpdate c m)) = mv_content (getCurrentVersion m) @ c"
    "mstatus (contentUpdate c m) = Some Streaming"
    "reasoning (contentUpdate c m) =
       (let r = reasoningText (parseThinkTags (mv_content (getCurrentVersion m) @ c))
        in if r \<noteq> [] then Some \<lparr>re_content = r, re_duration = Fin 0\<rparr> else reasoning m)"
  using assms
  by (simp_all add: contentUpdate_def processStreamingContent_def Let_def getCurrentVersion_def updateCurrentVersionContent_def)

lemma stream_chunks:
  assumes "mstatus m \<noteq> Some MError" "mv_content (getCurrentVersion m) = pre" "cs \<noteq> []"
  shows "mv_content (getCurrentVersion (fold contentUpdate cs m)) = pre @ concat cs
    \<and> mstatus (fold contentUpdate cs m) = Some Streaming
    \<and> (reasoningText (parseThinkTags (pre @ concat cs)) \<noteq> [] \<longrightarrow>
         reasoning (fold contentUpdate cs m)
           = Some \<lparr>re_content = reasoningText (parseThinkTags (pre @ concat cs)), re_duration = Fin 0\<rparr>)"
  using assms
proof (induction cs arbitrary: m pre)
  case (Cons c cs)
  note f = contentUpdate_fields [OF Cons.prems(1), of c]
  show ?case
  proof (cases "cs = []")
    case True
    then show ?thesis using f Cons.prems(2) by (simp add: Let_def)
  next
    case False
    show ?thesis using Cons.IH [of "contentUpdate c m" "pre @ c"] f Cons.prems(2) False by simp
  qed
qed simp

text \<open>
  C12.  The answer does not depend on how the stream is cut into chunks: when the stream of an
  assistant message that has no error completes, its content is the visible part of the
  concatenated chunks, and, if the concatenation has any reasoning, its reasoning is that
  reasoning; the message is complete and no reasoning is shown as streaming.
\<close>

theorem stream_chunking_irrelevant:
  assumes "mstatus m = Some Loading" "mv_content (getCurrentVersion m) = []" "chunks \<noteq> []"
    and "final = completeUpdate (fold contentUpdate chunks m)"
  shows "mv_content (getCurrentVersion final) = visibleContent (parseThinkTags (concat chunks))
    \<and> mstatus final = Some Complete \<and> isReasoningStreaming final = Some False
    \<and> (reasoningText (parseThinkTags (concat chunks)) \<noteq> [] \<longrightarrow>
         reasoning final = Some \<lparr>re_content = reasoningText (parseThinkTags (concat chunks)), re_duration = Fin 0\<rparr>)"
proof -
  have "mstatus m \<noteq> Some MError" using assms(1) by simp
  note s = stream_chunks [OF this assms(2,3)]
  have st: "mstatus (fold contentUpdate chunks m) = Some Streaming"
    and c: "mv_content (getCurrentVersion (fold contentUpdate chunks m)) = concat chunks"
    using s by simp_all
  have "final = (finalizeMessage (fold contentUpdate chunks m) None)\<lparr>mstatus := Some Complete\<rparr>"
    using st by (simp add: assms(4) completeUpdate_def)
  then show ?thesis
    using s c by (simp add: finalizeMessage_def Let_def str_alt_def getCurrentVersion_def updateCurrentVersionContent_def)
qed

definition sampleLoading :: Message where
  "sampleLoading = createLoadingAssistantMessage (lit ''k'') (lit ''v'')"

theorem stream_chunking_irrelevant_witness:
  "mv_content (getCurrentVersion (completeUpdate (fold contentUpdate [lit ''<think>hm</thi'', lit ''nk>ok''] sampleLoading))) = lit ''ok''
   \<and> reasoning (completeUpdate (fold contentUpdate [lit ''<think>hm</thi'', lit ''nk>ok''] sampleLoading))
     = Some \<lparr>re_content = lit ''hm'', re_duration = Fin 0\<rparr>"
proof -
  have h: "mstatus sampleLoading = Some Loading" "mv_content (getCurrentVersion sampleLoading) = []"
    "[lit ''<think>hm</thi'', lit ''nk>ok''] \<noteq> []" by code_simp+
  have p: "parseThinkTags (concat [lit ''<think>hm</thi'', lit ''nk>ok''])
      = \<lparr>visibleContent = lit ''ok'', reasoningText = lit ''hm'', hasUnclosedTag = False\<rparr>" by code_simp
  have "lit ''hm'' \<noteq> []" by (simp add: lit_simps)
  with stream_chunking_irrelevant [OF h refl] show ?thesis by (simp only: p ThinkParts.simps simp_thms)
qed

text \<open>
    Without that proviso the cut matters: the same text, a think block with nothing in it
  followed by an answer, ends without reasoning when it arrives in one piece, but when the
  stream is cut inside the closing tag the fragment of the tag stays behind as the reasoning.
\<close>

theorem stream_cut_leaves_tag:
  "concat [lit ''<think></thi'', lit ''nk>ok''] = lit ''<think></think>ok''
   \<and> reasoning (completeUpdate (fold contentUpdate [lit ''<think></think>ok''] sampleLoading)) = None
   \<and> reasoning (completeUpdate (fold contentUpdate [lit ''<think></thi'', lit ''nk>ok''] sampleLoading))
     = Some \<lparr>re_content = lit ''</thi'', re_duration = Fin 0\<rparr>"
proof (intro conjI)
  show "reasoning (completeUpdate (fold contentUpdate [lit ''<think></think>ok''] sampleLoading)) = None" by code_simp
  show "reasoning (completeUpdate (fold contentUpdate [lit ''<think></thi'', lit ''nk>ok''] sampleLoading))
     = Some \<lparr>re_content = lit ''</thi'', re_duration = Fin 0\<rparr>" by code_simp
qed code_simp

section \<open>The stream and its message\<close>

text \<open>What every update of the last assistant message keeps.\<close>

definition frame :: "Message list \<Rightarrow> Message list \<Rightarrow> bool" where
  "frame ms ms' = (length ms' = length ms \<and> butlast ms' = butlast ms \<and> map key ms' = map key ms \<and> map sender ms' = map sender ms)"

lemma frame_refl [simp]: "frame ms ms"
  by (simp add: frame_def)

lemma frame_trans: "frame a b \<Longrightarrow> frame b c \<Longrightarrow> frame a c"
  by (simp add: frame_def)

lemma frame_update:
  assumes "\<And>m. key (f m) = key m \<and> sender (f m) = sender m"
  shows "frame ms (updateLastAssistantMessage ms f)"
proof (cases "ms = []")
  case False
  then have "map key ms = map key (butlast ms) @ [key (last ms)]" "map sender ms = map sender (butlast ms) @ [sender (last ms)]"
    by (metis append_butlast_last_id list.simps(8,9) map_append)+
  with False show ?thesis using assms by (simp add: frame_def updateLastAssistantMessage_def)
qed (simp add: updateLastAssistantMessage_def)

lemma version_update_id [simp]:
  "key (updateCurrentVersionContent m c) = key m" "sender (updateCurrentVersionContent m c) = sender m"
  by (simp_all add: updateCurrentVersionContent_def)

lemma finalize_id [simp]: "key (finalizeMessage m r) = key m" "sender (finalizeMessage m r) = sender m"
  by (simp_all add: finalizeMessage_def Let_def)

lemma frame_handlers:
  "frame ms (handleStreamError e c ms)" "frame ms (handleStreamComplete ms)" "frame ms (stopGeneration ms)"
  "frame ms (updateLastAssistantMessage ms (contentUpdate x))" "frame ms (updateLastAssistantMessage ms (reasoningUpdate x))"
  unfolding handleStreamError_def updateAssistantMessageWithError_def handleStreamComplete_def stopGeneration_def
  by (rule frame_update; simp add: completeUpdate_def stopUpdate_def contentUpdate_def reasoningUpdate_def
      processStreamingContent_def Let_def)+

text \<open>
  What an event means: the end marker, a failure (data that is not a chunk, an error event, a
  connection closed with a status other than 200), or a chunk with some text.
\<close>

definition endsStream :: "chat_event \<Rightarrow> bool" where
  "endsStream ev = (ev = Sse (SseMessage (lit ''[DONE]'')))"

definition failsStream :: "chat_event \<Rightarrow> bool" where
  "failsStream ev =
     (case ev of
        Sse (SseMessage d) \<Rightarrow> d \<noteq> lit ''[DONE]'' \<and> (json_parse d = None \<or> json_parse d = Some JNull)
      | Sse (SseError rs d) \<Rightarrow> rs \<noteq> 2
      | Sse (SseReadyState rs st) \<Rightarrow> (\<exists>r code. rs = Some r \<and> st = Some code \<and> 2 \<le> r \<and> code \<noteq> 200)
      | Stop \<Rightarrow> False)"

definition addsText :: "chat_event \<Rightarrow> bool" where
  "addsText ev =
     (case ev of
        Sse (SseMessage d) \<Rightarrow> d \<noteq> lit ''[DONE]'' \<and> (\<exists>chunk delta. json_parse d = Some chunk \<and> deltaOf chunk = Some delta \<and> truthy delta
          \<and> (truthy (prop_get (lit ''reasoning_content'') delta) \<or> truthy (prop_get (lit ''content'') delta)))
      | _ \<Rightarrow> False)"

text \<open>The status that the events give to a message which was loading.\<close>

definition streamStatus :: "bool \<Rightarrow> chat_event list \<Rightarrow> MessageStatus" where
  "streamStatus started evs =
     (if \<not> started \<or> (\<exists>ev\<in>set (takeWhile (\<lambda>ev. \<not> endsStream ev) evs). failsStream ev) then MError
      else let es = filter (\<lambda>ev. endsStream ev \<or> ev = Stop \<or> addsText ev) evs
           in if es = [] then Loading else if addsText (last es) then Streaming else Complete)"

lemma event_kinds:
  "endsStream ev \<Longrightarrow> \<not> failsStream ev \<and> \<not> addsText ev" "failsStream ev \<Longrightarrow> \<not> addsText ev" "\<not> endsStream Stop" "\<not> failsStream Stop" "\<not> addsText Stop"
  by (auto simp: endsStream_def failsStream_def addsText_def deltaOf_def split: chat_event.splits sse_event.splits)

text \<open>The effect of one event on the last message.\<close>

definition lastStatus :: "stream \<Rightarrow> MessageStatus option" where
  "lastStatus s = mstatus (last (str_messages s))"

definition answering :: "stream \<Rightarrow> bool" where
  "answering s = (str_messages s \<noteq> [] \<and> sender (last (str_messages s)) = RoleAssistant)"

lemma last_update:
  assumes "ms \<noteq> []" "sender (last ms) = RoleAssistant"
  shows "last (updateLastAssistantMessage ms f) = f (last ms)" "updateLastAssistantMessage ms f \<noteq> []"
  using assms by (simp_all add: updateLastAssistantMessage_def)

lemma step_ends:
  assumes "endsStream ev"
  shows "chatStep ev s = s\<lparr>isStreamComplete := True, sourceOpen := False, str_messages := handleStreamComplete (str_messages s)\<rparr>"
  using assms by (simp add: endsStream_def chatStep_def onSse_def onMessage_def)

lemma step_fails:
  assumes "failsStream ev"
  obtains msg code where "chatStep ev s = handleError msg code s"
proof (cases ev)
  case (Sse e)
  then show ?thesis
  proof (cases e)
    case (SseMessage d)
    then show ?thesis using that [of PARSE_ERROR None] assms Sse
      by (auto simp: failsStream_def chatStep_def onSse_def onMessage_def deltaOf_def)
  next
    case (SseError rs d)
    then show ?thesis using that assms Sse
      by (cases "errorOf d") (auto simp: failsStream_def chatStep_def onSse_def)
  next
    case (SseReadyState rs st)
    then show ?thesis using that assms Sse
      by (auto simp: failsStream_def chatStep_def onSse_def)
  qed
qed (use assms event_kinds in simp)

lemma step_text:
  assumes "addsText ev"
  obtains fs where "fs \<noteq> []" "chatStep ev s = fold streamUpdate fs s"
    "\<And>f. f \<in> set fs \<Longrightarrow> (\<exists>x. f = reasoningUpdate x) \<or> (\<exists>x. f = contentUpdate x)"
proof -
  from assms obtain d chunk delta where e: "ev = Sse (SseMessage d)" "d \<noteq> lit ''[DONE]''" "json_parse d = Some chunk"
    "deltaOf chunk = Some delta" "truthy delta"
    and t: "truthy (prop_get (lit ''reasoning_content'') delta) \<or> truthy (prop_get (lit ''content'') delta)"
    by (auto simp: addsText_def split: chat_event.splits sse_event.splits)
  let ?r = "prop_get (lit ''reasoning_content'') delta" and ?c = "prop_get (lit ''content'') delta"
  let ?fs = "(if truthy ?r then [reasoningUpdate (to_string ?r)] else []) @ (if truthy ?c then [contentUpdate (to_string ?c)] else [])"
  show ?thesis
    by (rule that [of ?fs]) (use e t in \<open>auto simp: chatStep_def onSse_def onMessage_def Let_def split: if_splits\<close>)
qed

lemma step_idle:
  assumes "\<not> endsStream ev" "\<not> failsStream ev" "\<not> addsText ev" "ev \<noteq> Stop"
  shows "chatStep ev s = s"
proof (cases ev)
  case (Sse e)
  then show ?thesis
    using assms
    by (cases e) (auto simp: endsStream_def failsStream_def addsText_def chatStep_def onSse_def onMessage_def deltaOf_def Let_def split: option.splits)
qed (use assms in simp)

lemma fold_streamUpdate:
  assumes "answering s" "fs \<noteq> []" "\<And>f. f \<in> set fs \<Longrightarrow> (\<exists>x. f = reasoningUpdate x) \<or> (\<exists>x. f = contentUpdate x)"
  shows "frame (str_messages s) (str_messages (fold streamUpdate fs s)) \<and> isStreamComplete (fold streamUpdate fs s) = isStreamComplete s
    \<and> sourceOpen (fold streamUpdate fs s) = sourceOpen s
    \<and> lastStatus (fold streamUpdate fs s) = (if lastStatus s = Some MError then Some MError else Some Streaming)"
  using assms
proof (induction fs arbitrary: s)
  case (Cons f fs)
  obtain x where f: "f = reasoningUpdate x \<or> f = contentUpdate x" using Cons.prems(3) by force
  let ?s = "streamUpdate f s"
  have fr: "frame (str_messages s) (str_messages ?s)" using f frame_handlers(4,5) by (auto simp: streamUpdate_def)
  have a: "answering ?s" using Cons.prems(1) f last_update
    by (auto simp: answering_def streamUpdate_def reasoningUpdate_def contentUpdate_def processStreamingContent_def Let_def)
  have st: "lastStatus ?s = (if lastStatus s = Some MError then Some MError else Some Streaming)"
    using Cons.prems(1) f last_update
    by (auto simp: answering_def lastStatus_def streamUpdate_def reasoningUpdate_def contentUpdate_def)
  show ?case
  proof (cases "fs = []")
    case True
    then show ?thesis using fr st by (simp add: streamUpdate_def)
  next
    case False
    with Cons.IH [OF a False] Cons.prems(3) show ?thesis using fr st by (auto simp: streamUpdate_def intro: frame_trans)
  qed
qed simp

lemma answering_frame: "answering s \<Longrightarrow> frame (str_messages s) ms \<Longrightarrow> str_messages s' = ms \<Longrightarrow> answering s'"
  by (auto simp: answering_def frame_def) (metis last_map list.map_disc_iff)

lemma status_handlers:
  assumes "answering s"
  shows "mstatus (last (handleStreamError e c (str_messages s))) = Some MError"
    "mstatus (last (handleStreamComplete (str_messages s))) = (if lastStatus s = Some MError then Some MError else Some Complete)"
    "mstatus (last (stopGeneration (str_messages s)))
      = (if lastStatus s = Some Loading \<or> lastStatus s = Some Streaming then Some Complete else lastStatus s)"
  using assms last_update
  by (auto simp: answering_def lastStatus_def handleStreamError_def updateAssistantMessageWithError_def handleStreamComplete_def
      stopGeneration_def completeUpdate_def stopUpdate_def)

text \<open>The state of a stream after the events: what \<open>stream_ok\<close> says of it.\<close>

definition stream_ok :: "bool \<Rightarrow> Message list \<Rightarrow> chat_event list \<Rightarrow> stream \<Rightarrow> bool" where
  "stream_ok started ms evs s =
     (frame ms (str_messages s) \<and> answering s \<and> isStreamComplete s = list_ex endsStream evs
      \<and> sourceOpen s = (started \<and> \<not> list_ex (\<lambda>ev. endsStream ev \<or> failsStream ev \<or> ev = Stop) evs)
      \<and> lastStatus s = Some (streamStatus started evs))"

lemma stream_ok_start:
  assumes "ms \<noteq> []" "sender (last ms) = RoleAssistant" "mstatus (last ms) = Some Loading"
  shows "stream_ok started ms [] (sendStreamRequest started ms)"
proof -
  have a: "answering \<lparr>str_messages = ms, isStreamComplete = False, sourceOpen = True\<rparr>" using assms by (simp add: answering_def)
  show ?thesis
    using assms status_handlers(1) [OF a] frame_handlers(1) answering_frame [OF a]
    by (auto simp: stream_ok_def sendStreamRequest_def streamStatus_def lastStatus_def answering_def)
qed

lemma takeWhile_ends:
  "set (takeWhile (\<lambda>ev. \<not> P ev) (evs @ [ev])) = set (takeWhile (\<lambda>ev. \<not> P ev) evs) \<union> (if list_ex P evs \<or> P ev then {} else {ev})"
  by (induction evs) auto

lemma streamStatus_snoc:
  "streamStatus started (evs @ [ev]) =
     (if streamStatus started evs = MError \<or> failsStream ev \<and> \<not> list_ex endsStream evs then MError
      else if addsText ev then Streaming
      else if endsStream ev \<or> ev = Stop then Complete else streamStatus started evs)"
proof -
  let ?P = "\<lambda>ev. endsStream ev \<or> ev = Stop \<or> addsText ev"
  define F where "F es = (\<exists>ev\<in>set (takeWhile (\<lambda>ev. \<not> endsStream ev) es). failsStream ev)" for es
  have f: "filter ?P (evs @ [ev]) = filter ?P evs @ (if ?P ev then [ev] else [])" by simp
  have k: "addsText ev \<Longrightarrow> \<not> endsStream ev \<and> \<not> failsStream ev \<and> ev \<noteq> Stop" "endsStream ev \<or> ev = Stop \<Longrightarrow> \<not> failsStream ev"
    using event_kinds by blast+
  have F: "F (evs @ [ev]) = (F evs \<or> failsStream ev \<and> \<not> list_ex endsStream evs)"
    using k unfolding F_def takeWhile_ends by auto
  consider "addsText ev" | "endsStream ev \<or> ev = Stop" "\<not> addsText ev" | "\<not> ?P ev" by blast
  then show ?thesis
    by cases (use k in \<open>simp_all add: streamStatus_def F_def [symmetric] F f Let_def\<close>)
qed

lemma stream_ok_step:
  assumes "stream_ok started ms evs s"
  shows "stream_ok started ms (evs @ [ev]) (chatStep ev s)"
proof -
  have s: "frame ms (str_messages s)" "answering s" "isStreamComplete s = list_ex endsStream evs"
    "lastStatus s = Some (streamStatus started evs)"
    "sourceOpen s = (started \<and> \<not> list_ex (\<lambda>ev. endsStream ev \<or> failsStream ev \<or> ev = Stop) evs)"
    using assms by (simp_all add: stream_ok_def)
  note h = status_handlers [OF s(2)] frame_handlers(1-3) [of "str_messages s"]
  have ok: "stream_ok started ms (evs @ [ev]) s'"
    if "frame (str_messages s) (str_messages s')" "isStreamComplete s' = (isStreamComplete s \<or> endsStream ev)"
      "sourceOpen s' = (sourceOpen s \<and> \<not> endsStream ev \<and> \<not> failsStream ev \<and> ev \<noteq> Stop)"
      "lastStatus s' = Some (streamStatus started (evs @ [ev]))" for s'
    using that s frame_trans answering_frame [OF s(2) that(1) refl] by (auto simp: stream_ok_def)
  consider "endsStream ev" | "failsStream ev" | "addsText ev" | "ev = Stop"
    | "\<not> endsStream ev" "\<not> failsStream ev" "\<not> addsText ev" "ev \<noteq> Stop" by blast
  then show ?thesis
  proof cases
    case 1
    show ?thesis
      by (rule ok) (use 1 s h event_kinds(1) [OF 1] in \<open>simp_all add: step_ends streamStatus_snoc lastStatus_def\<close>)
  next
    case 2
    then obtain msg code where e: "chatStep ev s = handleError msg code s" by (rule step_fails)
    have "\<not> endsStream ev" "\<not> addsText ev" "ev \<noteq> Stop" using 2 event_kinds by blast+
    moreover have "isStreamComplete s \<Longrightarrow> \<not> sourceOpen s" using s(3,5) by (auto simp: list_ex_iff)
    ultimately show ?thesis
      by (intro ok) (use 2 s h in \<open>simp_all add: e handleError_def streamStatus_snoc lastStatus_def\<close>)
  next
    case 3
    then obtain fs where e: "chatStep ev s = fold streamUpdate fs s" and fs: "fs \<noteq> []"
      "\<And>f. f \<in> set fs \<Longrightarrow> (\<exists>x. f = reasoningUpdate x) \<or> (\<exists>x. f = contentUpdate x)"
      using step_text by metis
    have "\<not> endsStream ev" "\<not> failsStream ev" "ev \<noteq> Stop" using 3 event_kinds by blast+
    then show ?thesis
      by (intro ok) (use 3 s fold_streamUpdate [OF s(2) fs] in \<open>simp_all add: e streamStatus_snoc\<close>)
  next
    case 4
    then show ?thesis
      by (intro ok; cases "streamStatus started evs")
        (use s h event_kinds(3-5) in \<open>simp_all add: chatStep_def stopStream_def streamStatus_snoc lastStatus_def\<close>)
  next
    case 5
    then show ?thesis by (intro ok) (use s in \<open>simp_all add: step_idle streamStatus_snoc\<close>)
  qed
qed

text \<open>
  C13.  How a stream ends.  Whatever events its source delivers, in any order and also after the
  hook has closed it, and wherever the user stops it: every message but the last stays as it was, keys
  and senders are kept, and the answer, which was loading, has the status that the events give it.  It is an
  error, for good, if the request could not be started or a failure came before the end marker; otherwise it is complete if the last
  thing that happened was the end marker or a stop, streaming if that was a chunk with text, and loading if there was neither.
  The generating indicator is off once the end marker, a failure or a stop has been seen, or if the start failed, and only then: a source
  that ends with status 200 and without the end marker leaves the answer streaming and the indicator on.
\<close>

theorem stream_outcome:
  assumes "ms \<noteq> []" "sender (last ms) = RoleAssistant" "mstatus (last ms) = Some Loading"
    and "s = fold chatStep evs (sendStreamRequest started ms)"
  shows "butlast (str_messages s) = butlast ms \<and> map key (str_messages s) = map key ms
    \<and> map sender (str_messages s) = map sender ms
    \<and> mstatus (last (str_messages s)) = Some (
        if \<not> started \<or> (\<exists>ev\<in>set (takeWhile (\<lambda>ev. \<not> endsStream ev) evs). failsStream ev) then MError
        else let es = filter (\<lambda>ev. endsStream ev \<or> ev = Stop \<or> addsText ev) evs
             in if es = [] then Loading else if addsText (last es) then Streaming else Complete)
    \<and> sourceOpen s = (started \<and> (\<forall>ev\<in>set evs. \<not> endsStream ev \<and> \<not> failsStream ev \<and> ev \<noteq> Stop))"
proof -
  have "stream_ok started ms evs (fold chatStep evs (sendStreamRequest started ms))"
  proof (induction evs rule: rev_induct)
    case (snoc ev evs)
    then show ?case using stream_ok_step by simp
  qed (simp add: stream_ok_start assms(1-3))
  then show ?thesis by (auto simp: assms(4) stream_ok_def frame_def lastStatus_def streamStatus_def Let_def list_ex_iff)
qed

text \<open>A chunk, the end of the response with status 200, then nothing: the answer is left streaming.\<close>

theorem stream_outcome_witness:
  "mstatus (last (str_messages (fold chatStep [Sse (SseMessage (lit ''{\"choices\":[{\"delta\":{\"content\":\"hi\"}}]}'')),
      Sse (SseReadyState (Some 2) (Some 200))] (sendStreamRequest True [sampleLoading])))) = Some Streaming
   \<and> sourceOpen (fold chatStep [Sse (SseMessage (lit ''{\"choices\":[{\"delta\":{\"content\":\"hi\"}}]}'')),
      Sse (SseReadyState (Some 2) (Some 200))] (sendStreamRequest True [sampleLoading]))"
proof -
  let ?evs = "[Sse (SseMessage (lit ''{\"choices\":[{\"delta\":{\"content\":\"hi\"}}]}'')), Sse (SseReadyState (Some 2) (Some 200))]"
  let ?s = "fold chatStep ?evs (sendStreamRequest True [sampleLoading])"
  have h: "[sampleLoading] \<noteq> []" "sender (last [sampleLoading]) = RoleAssistant" "mstatus (last [sampleLoading]) = Some Loading"
    by code_simp+
  have "sourceOpen ?s" and "mstatus (last (str_messages ?s)) = Some Streaming" by code_simp+
  with stream_outcome [OF h refl, of ?evs True] show ?thesis by blast
qed

section \<open>Stored messages\<close>

lemma sanitizeOne_settled: "\<not> stuck (sanitizeOne m)"
  by (simp add: sanitizeOne_def Let_def stuck_def)

lemma filter_list_update:
  assumes "i < length xs" "P (xs ! i)" "\<not> P y"
  shows "length (filter P (xs[i := y])) + 1 = length (filter P xs)"
proof -
  have "xs = take i xs @ xs ! i # drop (Suc i) xs" using assms(1) by (rule id_take_nth_drop)
  then have "filter P xs = filter P (take i xs) @ xs ! i # filter P (drop (Suc i) xs)"
    using assms(2) by (metis filter.simps(2) filter_append)
  moreover have "filter P (xs[i := y]) = filter P (take i xs) @ filter P (drop (Suc i) xs)"
    using assms(1,3) by (simp add: upd_conv_take_nth_drop)
  ultimately show ?thesis by simp
qed

lemma lastStuck_Some:
  assumes "lastStuck ms = Some i"
  shows "i < length ms" "stuck (ms ! i)"
proof -
  have "i \<in> set (filter (\<lambda>i. stuck (ms ! i)) (rev [0..<length ms]))"
    using assms by (cases "filter (\<lambda>i. stuck (ms ! i)) (rev [0..<length ms])") (auto simp: lastStuck_def)
  then show "i < length ms" "stuck (ms ! i)" by simp_all
qed

text \<open>
    Repairing stored messages settles exactly one message that was left loading or
  streaming: as many messages are kept, one fewer is stuck if any was, and a list without stuck
  messages is returned unchanged.  In particular a list with two stuck messages keeps one.
\<close>

theorem sanitize_settles_one:
  "length (sanitizeMessagesOnLoad ms) = length ms
   \<and> length (filter stuck (sanitizeMessagesOnLoad ms)) = length (filter stuck ms) - 1
   \<and> (filter stuck ms = [] \<longrightarrow> sanitizeMessagesOnLoad ms = ms)"
proof (cases "lastStuck ms")
  case None
  then have "filter (\<lambda>i. stuck (ms ! i)) (rev [0..<length ms]) = []" by (simp add: lastStuck_def)
  then have "filter stuck ms = []" by (auto simp: filter_empty_conv in_set_conv_nth)
  with None show ?thesis by (simp add: sanitizeMessagesOnLoad_def)
next
  case (Some i)
  note i = lastStuck_Some [OF Some]
  have "filter stuck ms \<noteq> []" using i nth_mem by (auto simp: filter_empty_conv)
  then show ?thesis
    using filter_list_update [of i ms stuck "sanitizeOne (ms ! i)"] i sanitizeOne_settled [of "ms ! i"]
    by (auto simp: sanitizeMessagesOnLoad_def Some)
qed

theorem sanitize_settles_one_witness:
  "filter stuck [sampleLoading, sampleLoading] = [sampleLoading, sampleLoading]
   \<and> length (filter stuck (sanitizeMessagesOnLoad [sampleLoading, sampleLoading])) = 1"
  using sanitize_settles_one [of "[sampleLoading, sampleLoading]"]
  by (simp add: sampleLoading_def createLoadingAssistantMessage_def stuck_def)

section \<open>The payload\<close>

lemma getTextContent_build: "getTextContent (buildMessageContent t urls) = t"
  by (simp add: buildMessageContent_def Let_def)

fun contentImages :: "content \<Rightarrow> jstr list" where
  "contentImages (PlainText _) = []"
| "contentImages (Parts ps) = concat (map (\<lambda>p. case p of ImagePart u \<Rightarrow> [u] | TextPart _ \<Rightarrow> []) ps)"

lemma contentImages_build:
  "contentImages (buildMessageContent t urls) = filter (\<lambda>u. u \<noteq> []) (map trim urls)"
proof -
  have "concat (map (\<lambda>u. [trim u]) us) = map trim us" for us :: "jstr list" by (induction us) simp_all
  moreover have "filter (\<lambda>u. u \<noteq> []) (map trim urls) = map trim (filter (\<lambda>u. trim u \<noteq> []) urls)"
    by (simp add: filter_map comp_def)
  ultimately show ?thesis by (simp add: buildMessageContent_def Let_def comp_def)
qed

text \<open>The text of a chunk that carries no separate reasoning; \<open>None\<close> for any other data.\<close>

definition chunkText :: "jstr \<Rightarrow> jstr option" where
  "chunkText d =
     (if d = lit ''[DONE]'' then None
      else case json_parse d of
             None \<Rightarrow> None
           | Some chunk \<Rightarrow>
               (case deltaOf chunk of
                  None \<Rightarrow> None
                | Some delta \<Rightarrow>
                    if \<not> truthy delta then Some []
                    else if truthy (prop_get (lit ''reasoning_content'') delta) then None
                    else if truthy (prop_get (lit ''content'') delta)
                    then Some (to_string (prop_get (lit ''content'') delta)) else Some []))"

lemma chunk_step:
  assumes "chunkText d = Some c"
  shows "chatStep (Sse (SseMessage d)) s = s \<and> c = [] \<or> chatStep (Sse (SseMessage d)) s = streamUpdate (contentUpdate c) s"
  using assms by (auto simp: chunkText_def chatStep_def onSse_def onMessage_def Let_def split: if_splits option.splits)

lemma contentUpdate_keeps: "sender (contentUpdate c m) = sender m" "images (contentUpdate c m) = images m"
  by (simp_all add: contentUpdate_def processStreamingContent_def updateCurrentVersionContent_def Let_def)

lemma fold_update_last:
  assumes "sender a = RoleAssistant"
  shows "fold streamUpdate (map contentUpdate cs) \<lparr>str_messages = ms @ [a], isStreamComplete = d, sourceOpen = p\<rparr>
    = \<lparr>str_messages = ms @ [fold contentUpdate cs a], isStreamComplete = d, sourceOpen = p\<rparr>"
  using assms
proof (induction cs arbitrary: a)
  case (Cons c cs)
  then show ?case by (simp add: streamUpdate_def updateLastAssistantMessage_def contentUpdate_keeps)
qed simp

text \<open>The chunks that do something, as updates of the answer.\<close>

lemma fold_chunks:
  assumes "map chunkText ds = map Some cs"
  shows "\<exists>cs'. concat cs' = concat cs
    \<and> fold chatStep (map (\<lambda>d. Sse (SseMessage d)) ds) s = fold streamUpdate (map contentUpdate cs') s"
  using assms
proof (induction ds arbitrary: cs s)
  case (Cons d ds)
  then obtain c cs0 where c: "cs = c # cs0" "chunkText d = Some c" "map chunkText ds = map Some cs0" by (cases cs) auto
  let ?s = "chatStep (Sse (SseMessage d)) s"
  obtain cs' where cs': "concat cs' = concat cs0"
    "fold chatStep (map (\<lambda>d. Sse (SseMessage d)) ds) ?s = fold streamUpdate (map contentUpdate cs') ?s"
    using Cons.IH [OF c(3)] by blast
  from chunk_step [OF c(2), of s] show ?case
  proof
    assume "?s = s \<and> c = []"
    then show ?thesis using cs' c(1) by (intro exI [of _ cs']) simp
  next
    assume "?s = streamUpdate (contentUpdate c) s"
    then show ?thesis using cs' c(1) by (intro exI [of _ "c # cs'"]) simp
  qed
qed (rule exI [of _ "[]"], simp)

text \<open>The answer when its chunks and the end marker have arrived.\<close>

lemma completeUpdate_content:
  assumes "mstatus m = Some Loading \<or> mstatus m = Some Streaming"
  shows "mv_content (getCurrentVersion (completeUpdate m)) = visibleContent (parseThinkTags (mv_content (getCurrentVersion m)))"
    "images (completeUpdate m) = images m" "sender (completeUpdate m) = sender m" "versions (completeUpdate m) \<noteq> []"
  using assms by (auto simp: completeUpdate_def finalizeMessage_def Let_def getCurrentVersion_def updateCurrentVersionContent_def)

lemma fold_contentUpdate:
  assumes "mstatus m = Some Loading" "mv_content (getCurrentVersion m) = []"
  shows "sender (fold contentUpdate cs m) = sender m" "images (fold contentUpdate cs m) = images m"
    "mv_content (getCurrentVersion (fold contentUpdate cs m)) = concat cs"
    "mstatus (fold contentUpdate cs m) = Some Loading \<or> mstatus (fold contentUpdate cs m) = Some Streaming"
proof -
  show "sender (fold contentUpdate cs m) = sender m" "images (fold contentUpdate cs m) = images m"
    by (induction cs arbitrary: m) (simp_all add: contentUpdate_keeps)
  show "mv_content (getCurrentVersion (fold contentUpdate cs m)) = concat cs"
    "mstatus (fold contentUpdate cs m) = Some Loading \<or> mstatus (fold contentUpdate cs m) = Some Streaming"
    using assms stream_chunks [of m "[]" cs] by (cases "cs = []"; simp)+
qed

lemma answered:
  assumes "map chunkText ds = map Some cs" "sender a = RoleAssistant" "mstatus a = Some Loading" "mv_content (getCurrentVersion a) = []"
  obtains b where "str_messages (fold chatStep (map (\<lambda>d. Sse (SseMessage d)) ds @ [Sse (SseMessage (lit ''[DONE]''))])
      (sendStreamRequest True (ms @ [a]))) = ms @ [b]"
    "sender b = RoleAssistant" "images b = images a" "versions b \<noteq> []"
    "mv_content (getCurrentVersion b) = visibleContent (parseThinkTags (concat cs))"
proof -
  obtain cs' where cs': "concat cs' = concat cs"
    "fold chatStep (map (\<lambda>d. Sse (SseMessage d)) ds) (sendStreamRequest True (ms @ [a]))
      = fold streamUpdate (map contentUpdate cs') (sendStreamRequest True (ms @ [a]))"
    using fold_chunks [OF assms(1)] by blast
  let ?m = "fold contentUpdate cs' a"
  note m = fold_contentUpdate [OF assms(3,4), of cs']
  have "fold streamUpdate (map contentUpdate cs') (sendStreamRequest True (ms @ [a]))
      = \<lparr>str_messages = ms @ [?m], isStreamComplete = False, sourceOpen = True\<rparr>"
    using fold_update_last [OF assms(2)] by (simp add: sendStreamRequest_def)
  then have "str_messages (fold chatStep (map (\<lambda>d. Sse (SseMessage d)) ds @ [Sse (SseMessage (lit ''[DONE]''))])
      (sendStreamRequest True (ms @ [a]))) = ms @ [completeUpdate ?m]"
    using m(1) assms(2)
    by (simp add: cs'(2) step_ends endsStream_def handleStreamComplete_def updateLastAssistantMessage_def)
  then show ?thesis
    by (rule that) (use completeUpdate_content [OF m(4)] m(1-3) assms(2) cs'(1) in simp_all)
qed

text \<open>
  C14.  Each request carries the conversation so far.  When a message is sent, the request holds
  what earlier messages put into a request, then the new text with its images (trimmed, blank addresses left out), and not
  the placeholder of the answer.  When the answer has been streamed, in any number of chunks of text, and the next message is
  sent, the next request extends the previous one: the visible part of the concatenated chunks follows as the
  assistant's turn, without the reasoning and without images, unless it is blank, in which case the turn is left out; then comes the
  new message.  Of the parameters, exactly the enabled ones that have a value are set.
\<close>

theorem conversation_carried:
  assumes "ms1 = handleSendMessage ids txt urls ms"
    and "map chunkText ds = map Some cs"
    and "s = fold chatStep (map (\<lambda>d. Sse (SseMessage d)) ds @ [Sse (SseMessage (lit ''[DONE]''))]) (sendStreamRequest True ms1)"
    and "ms2 = handleSendMessage nids ntxt nurls (str_messages s)"
    and "reply = visibleContent (parseThinkTags (concat cs))"
  shows "\<exists>u u2. rq_messages (buildChatCompletionPayload ms1 config enabled)
        = rq_messages (buildChatCompletionPayload ms config enabled) @ [u]
    \<and> rq_messages (buildChatCompletionPayload ms2 config enabled)
        = rq_messages (buildChatCompletionPayload ms1 config enabled)
          @ (if trim reply = [] then [] else [\<lparr>cm_role = RoleAssistant, cm_content = PlainText reply\<rparr>]) @ [u2]
    \<and> cm_role u = RoleUser \<and> getTextContent (cm_content u) = txt \<and> contentImages (cm_content u) = filter (\<lambda>u. u \<noteq> []) (map trim urls)
    \<and> cm_role u2 = RoleUser \<and> getTextContent (cm_content u2) = ntxt \<and> contentImages (cm_content u2) = filter (\<lambda>u. u \<noteq> []) (map trim nurls)
    \<and> (\<forall>k v. (k, v) \<in> set (rq_params (buildChatCompletionPayload ms2 config enabled))
         \<longleftrightarrow> k \<in> set parameterKeys \<and> enabled k \<and> cfg_params config k = Some v)"
proof -
  let ?rq = "\<lambda>ms. rq_messages (buildChatCompletionPayload ms config enabled)"
  have app: "?rq (xs @ ys) = ?rq xs @ ?rq ys" for xs ys by (simp add: buildChatCompletionPayload_def)
  have sent: "?rq (handleSendMessage i t us xs) = ?rq xs @ [\<lparr>cm_role = RoleUser, cm_content = buildMessageContent t us\<rparr>]" for i t us xs
    unfolding handleSendMessage_def app
    by (simp add: buildChatCompletionPayload_def isValidMessage_def createUserMessage_def newAnswer_def createLoadingAssistantMessage_def
        createMessageVersion_def formatMessageForAPI_def getCurrentVersion_def comp_def case_prod_unfold)
  obtain us where ms1: "ms1 = (ms @ [us]) @ [newAnswer ids]" by (simp add: assms(1) handleSendMessage_def)
  obtain b where b: "str_messages s = (ms @ [us]) @ [b]" "sender b = RoleAssistant" "images b = images (newAnswer ids)"
      "versions b \<noteq> []" "mv_content (getCurrentVersion b) = reply"
    using answered [OF assms(2), of "newAnswer ids" "ms @ [us]"] assms(3,5) unfolding ms1 [symmetric]
    by (auto simp: newAnswer_def createLoadingAssistantMessage_def createMessageVersion_def getCurrentVersion_def)
  have "?rq [b] = (if trim reply = [] then [] else [\<lparr>cm_role = RoleAssistant, cm_content = PlainText reply\<rparr>])"
    using b(2-5) by (auto simp: buildChatCompletionPayload_def isValidMessage_def formatMessageForAPI_def newAnswer_def
        createLoadingAssistantMessage_def buildMessageContent_def getCurrentVersion_def split: list.splits)
  moreover have "?rq [newAnswer ids] = []"
    by (simp add: buildChatCompletionPayload_def isValidMessage_def newAnswer_def createLoadingAssistantMessage_def createMessageVersion_def)
  moreover have "\<forall>k v. (k, v) \<in> set (rq_params (buildChatCompletionPayload ms2 config enabled))
         \<longleftrightarrow> k \<in> set parameterKeys \<and> enabled k \<and> cfg_params config k = Some v"
    by (auto simp: buildChatCompletionPayload_def split: option.splits if_splits)
  moreover have "?rq ms1 = ?rq ms @ [\<lparr>cm_role = RoleUser, cm_content = buildMessageContent txt urls\<rparr>]"
    using sent by (simp add: assms(1))
  moreover have "?rq ms2 = ?rq (ms @ [us]) @ ?rq [b] @ [\<lparr>cm_role = RoleUser, cm_content = buildMessageContent ntxt nurls\<rparr>]"
    unfolding assms(4) sent b(1) app by simp
  moreover have "?rq ms1 = ?rq (ms @ [us]) @ ?rq [newAnswer ids]" unfolding ms1 by (rule app)
  ultimately show ?thesis by (auto simp: getTextContent_build contentImages_build)
qed

text \<open>A question with a picture, its answer in two chunks with reasoning, and a second question.\<close>

definition sampleIds :: new_ids where
  "sampleIds = \<lparr>id_user = lit ''u'', id_version = lit ''v'', id_image = (\<lambda>i. []), id_answer = lit ''a'', id_answer_version = lit ''w''\<rparr>"

definition sampleChunks :: "jstr list" where
  "sampleChunks = [lit ''{\"choices\":[{\"delta\":{\"content\":\"<think>x</think>hel\"}}]}'', lit ''{\"choices\":[{\"delta\":{\"content\":\"lo\"}}]}'']"

theorem conversation_carried_witness:
  "\<exists>u u2. rq_messages (buildChatCompletionPayload
        (handleSendMessage sampleIds (lit ''more'') [] (str_messages (fold chatStep
          (map (\<lambda>d. Sse (SseMessage d)) sampleChunks @ [Sse (SseMessage (lit ''[DONE]''))])
          (sendStreamRequest True (handleSendMessage sampleIds (lit ''hi'') [lit '' p ''] [])))))
        \<lparr>cfg_model = [], cfg_group = [], cfg_params = (\<lambda>_. None), cfg_stream = True\<rparr> (\<lambda>_. True))
      = [u, \<lparr>cm_role = RoleAssistant, cm_content = PlainText (lit ''hello'')\<rparr>, u2]
    \<and> getTextContent (cm_content u) = lit ''hi'' \<and> contentImages (cm_content u) = [lit ''p''] \<and> getTextContent (cm_content u2) = lit ''more''"
proof -
  let ?cs = "[lit ''<think>x</think>hel'', lit ''lo'']" and ?c = "\<lparr>cfg_model = [], cfg_group = [], cfg_params = (\<lambda>_. None), cfg_stream = True\<rparr>"
  have cs: "map chunkText sampleChunks = map Some ?cs" by code_simp
  have r: "visibleContent (parseThinkTags (concat ?cs)) = lit ''hello''" "trim (lit ''hello'') \<noteq> []" "filter (\<lambda>u. u \<noteq> []) (map trim [lit '' p '']) = [lit ''p'']"
    by code_simp+
  have e: "rq_messages (buildChatCompletionPayload [] ?c (\<lambda>_. True)) = []" by (simp add: buildChatCompletionPayload_def)
  note c = conversation_carried [of _ sampleIds "lit ''hi''" "[lit '' p '']" "[]" sampleChunks ?cs _ _ sampleIds "lit ''more''" "[]" _ ?c "\<lambda>_. True"]
  from c [OF refl cs refl refl refl]
  show ?thesis unfolding r(1) r(3) e using r(2) by auto
qed

end
