(* ===== verification/JS_Json_Laws.thy ===== *)
theory JS_Json_Laws
  imports JS_Json
begin

text \<open>
  The round trip of JSON texts: a value without undefined parts, whose numbers are read back from their own texts (all integers up to $2^{53}$ are), whose strings
  consist of 16-bit code units and whose objects list their properties in property order, is read back
  by \<open>json_parse\<close> from the text \<open>json_stringify\<close> writes, with any indentation.  The proof
  also shows that the parser's fuel, twice the length of the text, is enough for every such text.
\<close>

definition code_units :: "jstr \<Rightarrow> bool" where
  "code_units s = (\<forall>c\<in>set s. 0 \<le> c \<and> c < 65536)"

text \<open>An integer that is written with all its digits.\<close>

definition safe_integer :: "jsnum \<Rightarrow> bool" where
  "safe_integer n = (case n of Fin q \<Rightarrow> of_int \<lfloor>q\<rfloor> = q \<and> \<bar>\<lfloor>q\<rfloor>\<bar> \<le> 2 ^ 53 | _ \<Rightarrow> False)"

text \<open>A number whose text is read as the number.\<close>

definition prints_back :: "jsnum \<Rightarrow> bool" where
  "prints_back n = (is_finite n \<and> json_number (num_str n) = Some (n, []))"

fun json_plain :: "jsval \<Rightarrow> bool" where
  "json_plain JUndef = False"
| "json_plain JNull = True"
| "json_plain (JBool b) = True"
| "json_plain (JNum n) = prints_back n"
| "json_plain (JStr s) = code_units s"
| "json_plain (JArr xs) = (\<forall>x\<in>set xs. json_plain x)"
| "json_plain (JObj o') = (obj_of o' = o' \<and> (\<forall>kv\<in>set o'. code_units (fst kv) \<and> json_plain (snd kv)))"

lemma lit_code_units: "code_units (lit s)"
proof -
  have "0 \<le> (of_char c :: int) \<and> (of_char c :: int) < 65536" for c :: char
    using pos_mod_bound [of 256 "of_char c :: int"] pos_mod_sign [of 256 "of_char c :: int"] by simp
  then show ?thesis by (simp add: code_units_def lit_def)
qed

section \<open>String literals\<close>

lemma hex_digit_char: "0 \<le> d \<Longrightarrow> d < 16 \<Longrightarrow> hex_digit (hex_char d) = Some d"
  by (auto simp: hex_digit_def hex_char_def is_digit_def)

lemma hex4_digits:
  "\<forall>x\<in>{a, b, c, d}. 0 \<le> x \<and> x < 16 \<Longrightarrow>
   hex4 (map hex_char [a, b, c, d]) = Some (((a * 16 + b) * 16 + c) * 16 + d)"
  by (simp add: hex4_def hex_digit_char)

lemma hex4_escape:
  assumes "0 \<le> c" "c < 65536"
  shows "hex4 (map hex_char [c div 4096 mod 16, c div 256 mod 16, c div 16 mod 16, c mod 16]) = Some c"
proof -
  have "((c div 4096 mod 16 * 16 + c div 256 mod 16) * 16 + c div 16 mod 16) * 16 + c mod 16 = c"
  proof -
    have d: "c div 256 = c div 16 div 16" "c div 4096 = c div 16 div 16 div 16"
      using zdiv_zmult2_eq [of 16 c 16] zdiv_zmult2_eq [of 16 c 256] zdiv_zmult2_eq [of 16 "c div 16" 16] by simp_all
    have "c div 4096 < 16" "0 \<le> c div 4096" using assms by linarith+
    then have "c div 4096 mod 16 = c div 4096" by simp
    then show ?thesis unfolding d by (simp only: div_mult_mod_eq)
  qed
  moreover have "\<forall>x\<in>{c div 4096 mod 16, c div 256 mod 16, c div 16 mod 16, c mod 16}. 0 \<le> x \<and> x < 16"
    by (simp only: insert_iff ball_simps) simp
  ultimately show ?thesis by (simp only: hex4_digits)
qed

lemma json_string_escape:
  assumes "0 \<le> c" "c < 65536"
  shows "json_string (unicode_escape c @ r) = map_option (\<lambda>(t, q). (c # t, q)) (json_string r)"
  using hex4_escape [OF assms] by (simp add: unicode_escape_def lit_def)

lemma json_string_unit:
  assumes "0 \<le> c" "c < 65536"
  shows "json_string (quote_unit c @ r) = map_option (\<lambda>(t, q). (c # t, q)) (json_string r)"
  by (simp add: quote_unit_def simple_escape_def json_string_escape [OF assms])

lemma json_string_raw:
  "is_high_surrogate c \<or> is_low_surrogate c \<Longrightarrow>
   json_string (c # r) = map_option (\<lambda>(t, q). (c # t, q)) (json_string r)"
  by (auto simp: is_high_surrogate_def is_low_surrogate_def)

lemma json_string_quote: "code_units s \<Longrightarrow> json_string (quote_units s @ 34 # r) = Some (s, r)"
proof (induction s rule: quote_units.induct)
  case (2 c)
  then show ?case by (simp add: code_units_def json_string_escape json_string_unit)
next
  case (3 c d r)
  then have u: "0 \<le> c" "c < 65536" "code_units (d # r)" "code_units r" by (simp_all add: code_units_def)
  show ?case
  proof (cases "is_high_surrogate c \<and> is_low_surrogate d")
    case True
    with 3 u show ?thesis by (simp add: json_string_raw del: json_string.simps)
  next
    case False
    with 3 u show ?thesis by (auto simp: json_string_escape json_string_unit simp del: json_string.simps)
  qed
qed simp

section \<open>White space\<close>

lemma skip_ws_append: "\<forall>c\<in>set w. json_ws c \<Longrightarrow> skip_ws (w @ s) = skip_ws s"
  by (induction w) (simp_all add: skip_ws_def)

lemma skip_ws_id: "s \<noteq> [] \<Longrightarrow> \<not> json_ws (hd s) \<Longrightarrow> skip_ws s = s"
  by (cases s) (simp_all add: skip_ws_def)

lemma json_value_ws: "\<forall>c\<in>set w. json_ws c \<Longrightarrow> json_value n (w @ s) = json_value n s"
  by (cases n) (simp_all add: skip_ws_append)

lemma json_elems_ws: "\<forall>c\<in>set w. json_ws c \<Longrightarrow> json_elems n (w @ s) = json_elems n s"
  by (cases n) (simp_all add: json_value_ws)

lemma json_members_ws: "\<forall>c\<in>set w. json_ws c \<Longrightarrow> json_members n (w @ s) = json_members n s"
  by (cases n) (simp_all add: skip_ws_append)

section \<open>Items\<close>

text \<open>What may follow a value: the end, a separator, a closing bracket or white space.\<close>

definition ends_value :: "jstr \<Rightarrow> bool" where
  "ends_value r = (r = [] \<or> hd r \<in> {44, 93, 125} \<or> json_ws (hd r))"

lemma ends_value_simps [simp]: "ends_value []" "ends_value (44 # r)" "ends_value (93 # r)" "ends_value (125 # r)"
  by (simp_all add: ends_value_def)

lemma ends_value_ws: "\<forall>c\<in>set w. json_ws c \<Longrightarrow> ends_value r \<Longrightarrow> ends_value (w @ r)"
  by (cases w) (simp_all add: ends_value_def)

text \<open>A text that reads back as a value, with fuel twice its length.\<close>

definition reads :: "jstr \<Rightarrow> jsval \<Rightarrow> bool" where
  "reads t v = (t \<noteq> [] \<and> \<not> json_ws (hd t) \<and> hd t \<noteq> 93 \<and>
     (\<forall>n r. 2 * length t \<le> n \<longrightarrow> ends_value r \<longrightarrow> json_value n (t @ r) = Some (v, r)))"

definition reads_member :: "jstr \<Rightarrow> jstr \<times> jsval \<Rightarrow> bool" where
  "reads_member t kv = (\<exists>w tv. t = json_quote (fst kv) @ [58] @ w @ tv \<and> (\<forall>c\<in>set w. json_ws c)
     \<and> code_units (fst kv) \<and> reads tv (snd kv))"

lemma reads_value: "reads t v \<Longrightarrow> 2 * length t \<le> n \<Longrightarrow> ends_value r \<Longrightarrow> json_value n (t @ r) = Some (v, r)"
  by (simp add: reads_def)

lemma json_elems_items:
  assumes "list_all2 reads ts vs" "ts \<noteq> []" "\<forall>c\<in>set w. json_ws c" "\<forall>c\<in>set w'. json_ws c"
    and "2 * length (join (44 # w) ts) < m"
  shows "json_elems m (join (44 # w) ts @ w' @ 93 # r) = Some (vs, r)"
  using assms(1,2,5)
proof (induction ts arbitrary: vs m)
  case (Cons t ts)
  then obtain v us where vs: "vs = v # us" "reads t v" "list_all2 reads ts us" by (auto simp: list_all2_Cons1)
  obtain k where m: "m = Suc k" using Cons.prems by (cases m) auto
  have nw: "\<not> json_ws 93" "\<not> json_ws 44" by (simp_all add: json_ws_def)
  show ?case
  proof (cases "ts = []")
    case True
    then have k: "2 * length t \<le> k" using Cons.prems by (simp add: m)
    have "skip_ws (w' @ 93 # r) = 93 # r" using nw by (simp add: skip_ws_append [OF assms(4)] skip_ws_id)
    with True k vs show ?thesis by (simp add: m reads_value ends_value_ws [OF assms(4)])
  next
    case False
    then have k: "2 * length t \<le> k" "2 * length (join (44 # w) ts) < k"
      using Cons.prems by (auto simp: m join_Cons)
    have "json_elems k (join (44 # w) ts @ w' @ 93 # r) = Some (us, r)"
      using Cons.IH [OF vs(3) False k(2)] .
    moreover have "skip_ws (44 # s) = 44 # s" for s using nw by (simp add: skip_ws_id)
    ultimately show ?thesis
      using False k vs by (simp add: m join_Cons reads_value json_elems_ws [OF assms(3)])
  qed
qed simp

lemma json_members_step:
  assumes "reads_member t kv" "2 * length t \<le> k" "ends_value s"
  shows "json_members (Suc k) (t @ s) =
    (case skip_ws s of
       [] \<Rightarrow> None
     | e # r \<Rightarrow> if e = 44 then map_option (\<lambda>(ms, q). (kv # ms, q)) (json_members k r)
               else if e = 125 then Some ([kv], r) else None)"
proof -
  obtain w tv where t: "t = json_quote (fst kv) @ [58] @ w @ tv" "\<forall>c\<in>set w. json_ws c"
      "code_units (fst kv)" "reads tv (snd kv)"
    using assms(1) by (auto simp: reads_member_def)
  have nw: "skip_ws (34 # x) = 34 # x" "skip_ws (58 # x) = 58 # x" for x
    by (simp_all add: skip_ws_id json_ws_def)
  have js: "json_string (quote_units (fst kv) @ 34 # x) = Some (fst kv, x)" for x
    by (rule json_string_quote [OF t(3)])
  have v: "json_value k (w @ tv @ s) = Some (snd kv, s)"
    using assms(2,3) t by (simp add: json_value_ws reads_value)
  obtain a b where kv: "kv = (a, b)" by (cases kv)
  show ?thesis using js v unfolding t(1) kv by (simp add: json_quote_def nw)
qed

lemma json_members_items:
  assumes "list_all2 reads_member ts kvs" "ts \<noteq> []" "\<forall>c\<in>set w. json_ws c" "\<forall>c\<in>set w'. json_ws c"
    and "2 * length (join (44 # w) ts) < m"
  shows "json_members m (join (44 # w) ts @ w' @ 125 # r) = Some (kvs, r)"
  using assms(1,2,5)
proof (induction ts arbitrary: kvs m)
  case (Cons t ts)
  then obtain kv us where vs: "kvs = kv # us" "reads_member t kv" "list_all2 reads_member ts us"
    by (auto simp: list_all2_Cons1)
  obtain k where m: "m = Suc k" using Cons.prems by (cases m) auto
  have nw: "\<not> json_ws 125" "\<not> json_ws 44" by (simp_all add: json_ws_def)
  show ?case
  proof (cases "ts = []")
    case True
    then have k: "2 * length t \<le> k" using Cons.prems by (simp add: m)
    have "skip_ws (w' @ 125 # r) = 125 # r" using nw by (simp add: skip_ws_append [OF assms(4)] skip_ws_id)
    with True k vs show ?thesis by (simp add: m json_members_step ends_value_ws [OF assms(4)] del: json_members.simps)
  next
    case False
    then have k: "2 * length t \<le> k" "2 * length (join (44 # w) ts) < k"
      using Cons.prems by (auto simp: m join_Cons)
    have "json_members k (join (44 # w) ts @ w' @ 125 # r) = Some (us, r)"
      using Cons.IH [OF vs(3) False k(2)] .
    moreover have "skip_ws (44 # s) = 44 # s" for s using nw by (simp add: skip_ws_id)
    ultimately show ?thesis
      using False k vs
      by (simp add: m join_Cons json_members_step json_members_ws [OF assms(3)] del: json_members.simps)
  qed
qed simp

section \<open>The round trip\<close>

lemma reads_literal:
  "reads (lit ''null'') JNull" "reads (if b then lit ''true'' else lit ''false'') (JBool b)"
proof -
  have nz: "\<exists>m. n = Suc m" if "8 \<le> n" for n :: nat using that by (cases n) auto
  show "reads (lit ''null'') JNull"
    by (auto dest!: nz simp: reads_def lit_def json_ws_def skip_ws_def json_literal_def starts_with_def)
  show "reads (if b then lit ''true'' else lit ''false'') (JBool b)"
    by (cases b) (auto dest!: nz [OF order_trans, rotated] simp: reads_def lit_def json_ws_def skip_ws_def
        json_literal_def starts_with_def)
qed

lemma reads_string: "code_units s \<Longrightarrow> reads (json_quote s) (JStr s)"
proof -
  assume u: "code_units s"
  have "json_value n (json_quote s @ r) = Some (JStr s, r)" if "2 * length (json_quote s) \<le> n" for n r
    using that json_string_quote [OF u, of r]
    by (cases n) (simp_all add: json_quote_def skip_ws_def json_ws_def)
  then show ?thesis by (simp add: reads_def json_quote_def json_ws_def)
qed

lemma dec_nat_head: "0 < n \<Longrightarrow> hd (dec_nat n) \<noteq> 48"
proof (induction n rule: dec_nat.induct)
  case (1 n)
  show ?case
  proof (cases "n < 10")
    case True
    with 1 show ?thesis by (subst dec_nat.simps) simp
  next
    case False
    then have "hd (dec_nat n) = hd (dec_nat (n div 10))" by (subst dec_nat.simps) simp
    with 1 False show ?thesis by simp
  qed
qed

lemma not_digit_ends: "ends_value r \<Longrightarrow> r = [] \<or> \<not> is_digit (hd r) \<and> hd r \<noteq> 46 \<and> hd r \<noteq> 101 \<and> hd r \<noteq> 69"
  by (auto simp: ends_value_def json_ws_def is_digit_def)

lemma span_digits_append:
  assumes "\<forall>c\<in>set ds. is_digit c" "r = [] \<or> \<not> is_digit (hd r)"
  shows "span_digits (ds @ r) = (ds, r)"
  using assms by (cases r) (simp_all add: span_digits_def)

lemma json_number_digits:
  assumes "0 \<le> n" "n \<le> 2 ^ 53" "ends_value r"
  shows "json_number (dec_nat n @ r) = Some (jint n, r) \<and> json_number (45 # dec_nat n @ r) = Some (js_neg (jint n), r)"
proof -
  have d: "\<forall>c\<in>set (dec_nat n). is_digit c" using dec_nat_digits [OF assms(1)] by blast
  note e = not_digit_ends [OF assms(3)]
  have sp: "span_digits (dec_nat n @ r) = (dec_nat n, r)" using d e by (intro span_digits_append) auto
  have h: "hd (dec_nat n) \<noteq> 48 \<or> length (dec_nat n) = 1"
    using dec_nat_head [of n] assms(1) by (cases "n = 0") (simp_all add: dec_nat.simps)
  have x: "read_exp r = (0, r)" using e by (cases r) (auto simp: read_exp_def)
  have v: "rnd (of_int n) = jint n" using assms(1,2) by (simp add: rnd_of_int)
  obtain c t where ct: "dec_nat n = c # t" by (cases "dec_nat n") auto
  have c: "c \<noteq> 45" using d ct by (auto simp: is_digit_def)
  have r: "(case r of [] \<Rightarrow> (True, [], r) | c # t \<Rightarrow> if c = 46 then (fst (span_digits t) \<noteq> [], span_digits t) else (True, [], r)) = (True, [], r)"
    using e by (cases r) auto
  have b: "\<not> (r \<noteq> [] \<and> (hd r = 101 \<or> hd r = 69))" using e by auto
  have p: "parse_dec (dec_nat n) = n" using assms(1) by (rule parse_dec_dec_nat)
  show ?thesis
    using sp h x v c ct r b p unfolding json_number_def Let_def
    by (simp split: list.splits)
qed

lemma safe_integer_prints: "safe_integer n \<Longrightarrow> prints_back n"
proof -
  assume "safe_integer n"
  then obtain k where k: "n = jint k" "\<bar>k\<bar> \<le> 2 ^ 53" by (auto simp: safe_integer_def split: jsnum.splits)
  then have "json_number (dec_nat \<bar>k\<bar>) = Some (jint \<bar>k\<bar>, []) \<and> json_number (45 # dec_nat \<bar>k\<bar>) = Some (js_neg (jint \<bar>k\<bar>), [])"
    using json_number_digits [of "\<bar>k\<bar>" "[]"] by simp
  then show ?thesis using k by (cases "k < 0") (simp_all add: prints_back_def is_finite_def dec_int_def)
qed

text \<open>The text of a number ends where the number does.\<close>

lemma span_digits_more: "ends_value r \<Longrightarrow> span_digits (s @ r) = (fst (span_digits s), snd (span_digits s) @ r)"
proof -
  assume "ends_value r"
  then have r: "r = [] \<or> \<not> is_digit (hd r)" using not_digit_ends by blast
  have "span_digits ((fst (span_digits s) @ snd (span_digits s)) @ r) = (fst (span_digits s), snd (span_digits s) @ r)"
    unfolding append_assoc
  proof (rule span_digits_append)
    show "\<forall>c\<in>set (fst (span_digits s)). is_digit c" by (auto simp: span_digits_def dest: set_takeWhileD)
    show "snd (span_digits s) @ r = [] \<or> \<not> is_digit (hd (snd (span_digits s) @ r))"
    proof (cases "snd (span_digits s)")
      case (Cons c u)
      then show ?thesis using hd_dropWhile [of is_digit s] by (simp add: span_digits_def)
    qed (use r in simp)
  qed
  then show ?thesis by (simp add: span_digits_def)
qed

lemma read_exp_more: "ends_value r \<Longrightarrow> read_exp s = (x, []) \<Longrightarrow> read_exp (s @ r) = (x, r)"
proof -
  assume r: "ends_value r" and x: "read_exp s = (x, [])"
  note e = not_digit_ends [OF r]
  show ?thesis
  proof (cases s)
    case Nil
    then show ?thesis using x e by (cases r) (auto simp: read_exp_def)
  next
    case (Cons c t)
    with x have c: "c = 101 \<or> c = 69" by (auto simp: read_exp_def split: if_splits)
    show ?thesis
    proof (cases t)
      case Nil
      then show ?thesis using x Cons c by (auto simp: read_exp_def span_digits_def)
    next
      case (Cons d u)
      then show ?thesis
        using x \<open>s = c # t\<close> c span_digits_more [OF r, of u] span_digits_more [OF r, of t]
        by (auto simp: read_exp_def Let_def case_prod_unfold split: if_splits)
    qed
  qed
qed

definition number_parts :: "jstr \<Rightarrow> (jsnum \<times> jstr) option" where
  "number_parts r0 =
     (let ip = fst (span_digits r0); r1 = snd (span_digits r0)
      in if ip = [] \<or> (hd ip = 48 \<and> length ip \<noteq> 1) then None
         else let (ok, fp, r2) = (case r1 of
                    c # t \<Rightarrow> if c = 46 then (fst (span_digits t) \<noteq> [], span_digits t) else (True, [], r1)
                  | [] \<Rightarrow> (True, [], r1));
                  (ex, r3) = read_exp r2;
                  bad_exp = (r3 = r2 \<and> r2 \<noteq> [] \<and> (hd r2 = 101 \<or> hd r2 = 69));
                  v = rnd (of_int (parse_dec (ip @ fp)) * 10 powi (ex - int (length fp)))
              in if \<not> ok \<or> bad_exp then None else Some (v, r3))"

lemma json_number_parts:
  "json_number [] = None" "json_number (45 # t) = map_option (\<lambda>(v, r). (js_neg v, r)) (number_parts t)"
  "c \<noteq> 45 \<Longrightarrow> json_number (c # t) = number_parts (c # t)"
proof -
  show "json_number [] = None" by (simp add: json_number_def span_digits_def)
  show "json_number (c # t) = number_parts (c # t)" if c: "c \<noteq> 45"
  proof -
    obtain ip r1 where "span_digits (c # t) = (ip, r1)" by (metis surj_pair)
    then show ?thesis unfolding json_number_def number_parts_def using c by (simp cong: list.case_cong if_cong)
  qed
  show "json_number (45 # t) = map_option (\<lambda>(v, r). (js_neg v, r)) (number_parts t)"
  proof -
    obtain ip r1 where s: "span_digits t = (ip, r1)" by (metis surj_pair)
    obtain ok fp r2 where k: "(case r1 of c # t \<Rightarrow> if c = 46 then (fst (span_digits t) \<noteq> [], span_digits t) else (True, [], r1)
        | [] \<Rightarrow> (True, [], r1)) = (ok, fp, r2)" by (rule prod_cases3)
    obtain ex r3 where e: "read_exp r2 = (ex, r3)" by (metis surj_pair)
    show ?thesis unfolding json_number_def number_parts_def by (auto simp: s k e Let_def)
  qed
qed

lemma number_parts_more: "ends_value r \<Longrightarrow> number_parts s = Some (n, []) \<Longrightarrow> number_parts (s @ r) = Some (n, r)"
proof -
  assume r: "ends_value r" and p: "number_parts s = Some (n, [])"
  note e = not_digit_ends [OF r]
  define ip r1 where ir: "ip = fst (span_digits s)" "r1 = snd (span_digits s)"
  have ip: "\<not> (ip = [] \<or> (hd ip = 48 \<and> length ip \<noteq> 1))" using p by (auto simp: number_parts_def ir Let_def split: if_splits)
  have sp: "fst (span_digits (s @ r)) = ip" "snd (span_digits (s @ r)) = r1 @ r" using span_digits_more [OF r, of s] by (simp_all add: ir)
  show ?thesis
  proof (cases "r1 \<noteq> [] \<and> hd r1 = 46")
    case True
    then obtain t where t: "r1 = 46 # t" by (cases r1) auto
    obtain ex r3 where x: "read_exp (snd (span_digits t)) = (ex, r3)" by (metis surj_pair)
    have f: "fst (span_digits t) \<noteq> []" "r3 = []" "n = rnd (of_int (parse_dec (ip @ fst (span_digits t))) * 10 powi (ex - int (length (fst (span_digits t)))))"
      using p ip t x by (auto simp: number_parts_def ir [symmetric] Let_def case_prod_unfold split: if_splits)
    have "read_exp (snd (span_digits t) @ r) = (ex, r)" using read_exp_more [OF r] x f(2) by blast
    then show ?thesis
      using ip f(1,3) t sp span_digits_more [OF r, of t] x f(2) e
      by (cases "snd (span_digits t)") (auto simp: number_parts_def Let_def case_prod_unfold)
  next
    case False
    obtain ex r3 where x: "read_exp r1 = (ex, r3)" by (metis surj_pair)
    have f: "r3 = []" "n = rnd (of_int (parse_dec ip) * 10 powi ex)"
      using p ip x False by (auto simp: number_parts_def ir [symmetric] Let_def case_prod_unfold split: if_splits list.splits)
    have "read_exp (r1 @ r) = (ex, r)" using read_exp_more [OF r] x f(1) by blast
    then show ?thesis
      using ip f(2) sp x f(1) e False
      by (cases r1; cases r) (auto simp: number_parts_def Let_def case_prod_unfold)
  qed
qed

lemma json_number_more: "ends_value r \<Longrightarrow> json_number s = Some (n, []) \<Longrightarrow> json_number (s @ r) = Some (n, r)"
proof (cases s)
  case (Cons c t)
  assume r: "ends_value r" and j: "json_number s = Some (n, [])"
  show ?thesis
  proof (cases "c = 45")
    case True
    then obtain v where "number_parts t = Some (v, [])" "n = js_neg v" using j Cons by (auto simp: json_number_parts)
    then show ?thesis using number_parts_more [OF r, of t v] True Cons by (simp add: json_number_parts)
  next
    case False
    then show ?thesis using number_parts_more [OF r, of s n] j Cons by (simp add: json_number_parts)
  qed
qed (simp add: json_number_parts)

text \<open>It has no white space.\<close>

lemma digits_no_ws: "c \<in> set (fst (span_digits s)) \<Longrightarrow> \<not> is_ws c"
  using digit_not_ws by (auto simp: span_digits_def dest: set_takeWhileD)

lemma span_digits_eq: "fst (span_digits s) @ snd (span_digits s) = s"
  by (simp add: span_digits_def)

lemma read_exp_no_ws: "read_exp s = (x, []) \<Longrightarrow> c \<in> set s \<Longrightarrow> \<not> is_ws c"
proof -
  assume x: "read_exp s = (x, [])" "c \<in> set s"
  then obtain d t where s: "s = d # t" by (cases s) auto
  with x have d: "d = 101 \<or> d = 69" by (auto simp: read_exp_def split: if_splits)
  have u: "\<not> is_ws b" if "snd (span_digits v) = []" "b \<in> set v" for b v
    using that span_digits_eq [of v] digits_no_ws [of b v] by simp
  show ?thesis
  proof (cases t)
    case Nil
    then show ?thesis using x s d by (auto simp: is_ws_def)
  next
    case (Cons b v)
    then have "snd (span_digits t) = [] \<or> (b = 45 \<or> b = 43) \<and> snd (span_digits v) = []"
      using x(1) s d by (auto simp: read_exp_def Let_def case_prod_unfold split: if_splits)
    then show ?thesis using x(2) s d Cons u [of t c] u [of v c] by (auto simp: is_ws_def)
  qed
qed

lemma number_parts_no_ws: "number_parts s = Some (n, []) \<Longrightarrow> s \<noteq> [] \<and> is_digit (hd s) \<and> (\<forall>c\<in>set s. \<not> is_ws c)"
proof -
  assume p: "number_parts s = Some (n, [])"
  define ip r1 where ir: "ip = fst (span_digits s)" "r1 = snd (span_digits s)"
  have s: "s = ip @ r1" "ip \<noteq> []" using p span_digits_eq [of s] by (auto simp: number_parts_def ir Let_def split: if_splits)
  have "hd ip \<in> set ip" using s(2) by simp
  then have "is_digit (hd ip)" unfolding ir(1) span_digits_def by (auto dest: set_takeWhileD)
  then have h: "is_digit (hd s)" using s hd_append2 [OF s(2), of r1] by metis
  have "\<not> is_ws c" if c: "c \<in> set r1" for c
  proof (cases "hd r1 = 46")
    case True
    then obtain t where t: "r1 = 46 # t" using c by (cases r1) auto
    then have "snd (read_exp (snd (span_digits t))) = []"
      using p s(2) by (auto simp: number_parts_def ir [symmetric] Let_def case_prod_unfold split: if_splits)
    then have "c \<in> set (snd (span_digits t)) \<Longrightarrow> \<not> is_ws c" using read_exp_no_ws by (metis prod.collapse)
    moreover have "c = 46 \<or> c \<in> set (fst (span_digits t)) \<or> c \<in> set (snd (span_digits t))"
      using c t span_digits_eq [of t] by (metis Un_iff set_ConsD set_append)
    ultimately show ?thesis using digits_no_ws [of c t] by (auto simp: is_ws_def)
  next
    case False
    then have "snd (read_exp r1) = []"
      using p s(2) by (auto simp: number_parts_def ir [symmetric] Let_def case_prod_unfold split: if_splits list.splits)
    then show ?thesis using c read_exp_no_ws by (metis prod.collapse)
  qed
  moreover have "\<not> is_ws c" if "c \<in> set ip" for c using that digits_no_ws [of c s] by (simp add: ir)
  moreover have "set s = set ip \<union> set r1" using s(1) by (metis set_append)
  moreover have "s \<noteq> []" using s by (metis append_is_Nil_conv)
  ultimately show ?thesis using h by blast
qed

lemma json_number_no_ws:
  "json_number s = Some (n, []) \<Longrightarrow> s \<noteq> [] \<and> (hd s = 45 \<or> is_digit (hd s)) \<and> (\<forall>c\<in>set s. \<not> is_ws c)"
proof (cases s)
  case (Cons c t)
  assume j: "json_number s = Some (n, [])"
  show ?thesis
  proof (cases "c = 45")
    case True
    then obtain v where "number_parts t = Some (v, [])" using j Cons by (auto simp: json_number_parts)
    then show ?thesis using number_parts_no_ws [of t v] True Cons by (auto simp: is_ws_def)
  next
    case False
    then show ?thesis using number_parts_no_ws [of s n] j Cons by (simp add: json_number_parts)
  qed
qed (simp add: json_number_parts)

lemma reads_number: "prints_back n \<Longrightarrow> reads (num_str n) (JNum n)"
proof -
  assume p: "prints_back n"
  note w = json_number_no_ws [of "num_str n" n]
  have j: "json_number (num_str n) = Some (n, [])" using p by (simp add: prints_back_def)
  obtain d v where dv: "num_str n = d # v" "d = 45 \<or> is_digit d" using w [OF j] by (cases "num_str n") auto
  have lit: "json_literal (num_str n @ r) = Some (JNum n, r)" if "ends_value r" for r
  proof -
    have "\<not> starts_with (lit w) (num_str n @ r)" if "w \<in> {''true'', ''false'', ''null''}" for w
      using that dv by (auto simp: starts_with_def lit_def is_digit_def)
    then show ?thesis using json_number_more [OF that j] by (simp add: json_literal_def)
  qed
  have hd: "\<not> json_ws d" "d \<noteq> 93" "d \<noteq> 123" "d \<noteq> 91" "d \<noteq> 34" using dv(2) by (auto simp: json_ws_def is_digit_def)
  have "json_value x (num_str n @ r) = Some (JNum n, r)" if "2 * length (num_str n) \<le> x" "ends_value r" for x r
    using that lit [OF that(2)] hd dv(1) by (cases x) (simp_all add: skip_ws_id)
  then show ?thesis using hd dv(1) by (simp add: reads_def)
qed

text \<open>The separators \<open>wrap_items\<close> writes are white space around the items.\<close>

lemma wrap_items_shape:
  "\<exists>w w'. (\<forall>c\<in>set w. json_ws c) \<and> (\<forall>c\<in>set w'. json_ws c)
    \<and> (\<forall>l r items. items \<noteq> [] \<longrightarrow> wrap_items gap depth l r items = l @ w @ join (44 # w) items @ w' @ r)"
proof (cases "gap = 0")
  case True
  then show ?thesis by (intro exI [of _ "[]"]) (simp add: wrap_items_def lit_def)
next
  case False
  then show ?thesis
    by (intro exI [of _ "10 # replicate (gap * Suc depth) 32"] exI [of _ "10 # replicate (gap * depth) 32"])
      (simp add: wrap_items_def Let_def json_ws_def)
qed

lemma join_hd: "ts \<noteq> [] \<Longrightarrow> hd ts \<noteq> [] \<Longrightarrow> join sep ts \<noteq> [] \<and> hd (join sep ts) = hd (hd ts)"
  by (cases ts; cases "tl ts") auto

lemma reads_array:
  assumes "list_all2 reads ts vs"
  shows "reads (wrap_items gap depth (lit ''['') (lit '']'') ts) (JArr vs)"
proof (cases "ts = []")
  case True
  with assms have "json_value n (lit ''[]'' @ r) = Some (JArr vs, r)" if "4 \<le> n" for n r
    using that by (cases n) (simp_all add: lit_def skip_ws_def json_ws_def)
  with True show ?thesis by (simp add: reads_def wrap_items_def lit_def json_ws_def)
next
  case False
  obtain w w' where w: "\<forall>c\<in>set w. json_ws c" "\<forall>c\<in>set w'. json_ws c"
      "\<forall>l r items. items \<noteq> [] \<longrightarrow> wrap_items gap depth l r items = l @ w @ join (44 # w) items @ w' @ r"
    using wrap_items_shape [of gap depth] by blast
  let ?J = "join (44 # w) ts"
  have h: "?J \<noteq> []" "\<not> json_ws (hd ?J)" "hd ?J \<noteq> 93"
    using assms False join_hd [of ts "44 # w"] by (cases ts; auto simp: list_all2_Cons1 reads_def)+
  have shape: "wrap_items gap depth (lit ''['') (lit '']'') ts = 91 # w @ ?J @ w' @ [93]"
    using w(3) False by (simp add: lit_def)
  have "json_value n ((91 # w @ ?J @ w' @ [93]) @ r) = Some (JArr vs, r)"
    if fuel: "2 * length (91 # w @ ?J @ w' @ [93]) \<le> n" for n r
  proof -
    obtain m where n: "n = Suc m" "2 * length ?J < m" using fuel by (cases n) auto
    have "json_elems m (?J @ w' @ 93 # r) = Some (vs, r)"
      using json_elems_items [OF assms False w(1,2) n(2)] .
    moreover obtain d q where "?J @ w' @ 93 # r = d # q" "d \<noteq> 93"
      using h by (cases ?J) auto
    moreover have "skip_ws (w @ ?J @ w' @ 93 # r) = ?J @ w' @ 93 # r"
      using h by (simp add: skip_ws_append [OF w(1)] skip_ws_id)
    moreover have "skip_ws (91 # s) = 91 # s" for s by (simp add: skip_ws_id json_ws_def)
    ultimately show ?thesis by (simp add: n)
  qed
  then show ?thesis unfolding shape reads_def by (simp add: json_ws_def)
qed

lemma reads_object:
  assumes "list_all2 reads_member ts kvs" "obj_of kvs = kvs"
  shows "reads (wrap_items gap depth (lit ''{'') (lit ''}'') ts) (JObj kvs)"
proof (cases "ts = []")
  case True
  with assms have "json_value n (lit ''{}'' @ r) = Some (JObj kvs, r)" if "4 \<le> n" for n r
    using that by (cases n) (simp_all add: lit_def skip_ws_def json_ws_def)
  with True show ?thesis by (simp add: reads_def wrap_items_def lit_def json_ws_def)
next
  case False
  obtain w w' where w: "\<forall>c\<in>set w. json_ws c" "\<forall>c\<in>set w'. json_ws c"
      "\<forall>l r items. items \<noteq> [] \<longrightarrow> wrap_items gap depth l r items = l @ w @ join (44 # w) items @ w' @ r"
    using wrap_items_shape [of gap depth] by blast
  let ?J = "join (44 # w) ts"
  have h: "?J \<noteq> []" "hd ?J = 34"
    using assms(1) False join_hd [of ts "44 # w"]
    by (cases ts; auto simp: list_all2_Cons1 reads_member_def json_quote_def)+
  have shape: "wrap_items gap depth (lit ''{'') (lit ''}'') ts = 123 # w @ ?J @ w' @ [125]"
    using w(3) False by (simp add: lit_def)
  have "json_value n ((123 # w @ ?J @ w' @ [125]) @ r) = Some (JObj kvs, r)"
    if fuel: "2 * length (123 # w @ ?J @ w' @ [125]) \<le> n" for n r
  proof -
    obtain m where n: "n = Suc m" "2 * length ?J < m" using fuel by (cases n) auto
    have "json_members m (?J @ w' @ 125 # r) = Some (kvs, r)"
      using json_members_items [OF assms(1) False w(1,2) n(2)] .
    moreover obtain q where "?J @ w' @ 125 # r = 34 # q" using h by (cases ?J) auto
    moreover have "skip_ws (w @ ?J @ w' @ 125 # r) = ?J @ w' @ 125 # r"
      using h by (simp add: skip_ws_append [OF w(1)] skip_ws_id json_ws_def)
    moreover have "skip_ws (123 # s) = 123 # s" for s by (simp add: skip_ws_id json_ws_def)
    ultimately show ?thesis using assms(2) by (simp add: n)
  qed
  then show ?thesis unfolding shape reads_def by (simp add: json_ws_def)
qed

lemma json_str_reads: "json_plain v \<Longrightarrow> \<exists>t. json_str gap depth v = Some t \<and> reads t v"
proof (induction v arbitrary: depth)
  case (JArr xs)
  let ?f = "\<lambda>x. opt_or (json_str gap (Suc depth) x) (lit ''null'')"
  have "reads (?f x) x" if "x \<in> set xs" for x
    using JArr.IH [OF that, of "Suc depth"] JArr.prems that by auto
  then have "list_all2 reads (map ?f xs) xs" by (simp add: list_all2_conv_all_nth)
  then show ?case using reads_array by simp
next
  case (JObj kvs)
  let ?g = "\<lambda>(k, v). case json_str gap (Suc depth) v of
      None \<Rightarrow> [] | Some t \<Rightarrow> [json_quote k @ [58] @ (if gap = 0 then [] else [32]) @ t]"
  let ?m = "\<lambda>kv. json_quote (fst kv) @ [58] @ (if gap = 0 then [] else [32]) @ the (json_str gap (Suc depth) (snd kv))"
  have one: "?g kv = [?m kv] \<and> reads_member (?m kv) kv" if kv: "kv \<in> set kvs" for kv
  proof -
    have p: "json_plain (snd kv)" "code_units (fst kv)" using JObj.prems kv by auto
    have "snd kv \<in> Basic_BNFs.snds kv" by (cases kv) simp
    with p kv obtain t where "json_str gap (Suc depth) (snd kv) = Some t" "reads t (snd kv)"
      using JObj.IH [of kv "snd kv" "Suc depth"] by blast
    moreover from this p have "reads_member (?m kv) kv"
      unfolding reads_member_def
      by (intro exI [of _ "if gap = 0 then [] else [32]"] exI [of _ t]) (simp add: json_ws_def)
    ultimately show ?thesis by (cases kv) simp
  qed
  then have "map ?g kvs = map (\<lambda>kv. [?m kv]) kvs" by (intro map_cong refl) simp
  then have "concat (map ?g kvs) = map ?m kvs" by (simp only: concat_map_singleton)
  moreover have "list_all2 reads_member (map ?m kvs) kvs" using one by (simp add: list_all2_conv_all_nth)
  ultimately show ?case using JObj.prems reads_object by simp
next
  case (JNum n)
  then have "is_finite n" by (simp add: prints_back_def)
  with JNum reads_number show ?case by simp
qed (use reads_literal reads_string in auto)

lemma json_roundtrip: "json_plain v \<Longrightarrow> json_parse (json_stringify gap v) = Some v"
proof -
  assume "json_plain v"
  from json_str_reads [OF this, of gap 0] obtain t where t: "json_str gap 0 v = Some t" "reads t v" by blast
  then have "json_value (Suc (2 * length t)) (t @ []) = Some (v, [])" by (intro reads_value) auto
  with t show ?thesis by (simp add: json_parse_def json_stringify_def skip_ws_def del: json_value.simps)
qed

section \<open>Blank texts\<close>

text \<open>A text that parses as JSON has a character that is not white space.\<close>

lemma json_literal_ws: "is_ws c \<Longrightarrow> json_literal (c # r) = None"
proof -
  assume w: "is_ws c"
  have d: "\<not> is_digit c" "c \<noteq> 45" using w by (auto simp: is_ws_def is_digit_def)
  have "\<not> starts_with (lit ''true'') (c # r)" "\<not> starts_with (lit ''false'') (c # r)"
      "\<not> starts_with (lit ''null'') (c # r)"
    using w by (auto simp: starts_with_def lit_def is_ws_def)
  moreover have "json_number (c # r) = None" using d by (simp add: json_number_def span_digits_def)
  ultimately show ?thesis by (simp add: json_literal_def)
qed

lemma json_parse_not_blank: "json_parse s = Some v \<Longrightarrow> trim s \<noteq> []"
proof
  assume p: "json_parse s = Some v" and "trim s = []"
  then have w: "\<forall>c\<in>set s. is_ws c" by (simp add: trim_eq_Nil)
  have "json_value (Suc n) s = None" for n
  proof (cases "skip_ws s")
    case (Cons c r)
    then have "c \<in> set s" by (metis list.set_intros(1) set_dropWhileD skip_ws_def)
    with w have c: "is_ws c" by blast
    then have "c \<noteq> 123" "c \<noteq> 91" "c \<noteq> 34" by (auto simp: is_ws_def)
    with Cons json_literal_ws [OF c] show ?thesis by simp
  qed simp
  with p show False by (simp add: json_parse_def)
qed

end
