(* ===== verification/Channel_Rules.thy ===== *)
theory Channel_Rules
  imports JS_Json_Laws
begin

text \<open>
  The checks a channel goes through before it is saved: the list of models and the model
  mapping (\<open>features/channels/lib/model-mapping-validation.ts\<close>), the status code mapping
  (\<open>features/channels/lib/status-code-risk-guard.ts\<close>) and the submit handler that combines them
  (\<open>onSubmit\<close> of \<open>features/channels/components/drawers/channel-mutate-drawer.tsx\<close>).  The user's
  answers to the two confirmation dialogs are arguments of the handler.  The lemmas show the round
  trip of model lists, what is reported missing, exposed, invalid or risky, and what a channel
  that reaches the server satisfies.
\<close>

section \<open>Model lists and the model mapping\<close>

definition parseModelsString :: "jstr \<Rightarrow> jstr list" where
  "parseModelsString modelsStr =
     (if modelsStr \<noteq> [] then filter (\<lambda>m. m \<noteq> []) (map trim (split_char 44 modelsStr)) else [])"

definition formatModelsArray :: "jstr list \<Rightarrow> jstr" where
  "formatModelsArray models = join (lit '','') (uniq models)"

definition normalizeModelName :: "jstr \<Rightarrow> jstr" where
  "normalizeModelName model = trim model"

text \<open>
  \<open>JSON.parse\<close> followed by the guard that rejects falsy values, non-objects and arrays:
  the properties of a JSON object, and \<open>None\<close> for everything else.
\<close>

definition parsedObject :: "jstr \<Rightarrow> (jstr \<times> jsval) list option" where
  "parsedObject s = (case json_parse s of Some (JObj o') \<Rightarrow> Some o' | _ \<Rightarrow> None)"

definition extractMappingSourceModels :: "jstr \<Rightarrow> jstr list" where
  "extractMappingSourceModels modelMapping =
     (let trimmedText = trim modelMapping
      in if trimmedText = [] then []
         else case parsedObject trimmedText of
           None \<Rightarrow> []
         | Some o' \<Rightarrow> uniq (filter (\<lambda>k. k \<noteq> []) (map (\<lambda>kv. trim (fst kv)) o')))"

definition trimmedString :: "jsval \<Rightarrow> jstr option" where
  "trimmedString v = (case v of JStr s \<Rightarrow> Some (trim s) | _ \<Rightarrow> None)"

definition extractRedirectModels :: "jstr \<Rightarrow> jstr list" where
  "extractRedirectModels modelMapping =
     (let trimmedText = trim modelMapping
      in if trimmedText = [] then []
         else case parsedObject trimmedText of
           None \<Rightarrow> []
         | Some o' \<Rightarrow>
             uniq (filter (\<lambda>s. s \<noteq> []) (List.map_filter (\<lambda>kv. trimmedString (snd kv)) o')))"


definition findMissingModelsInMapping :: "jstr \<Rightarrow> jstr list \<Rightarrow> jstr list" where
  "findMissingModelsInMapping modelMapping currentModels =
     (if modelMapping = [] \<or> trim modelMapping = [] then []
      else case parsedObject modelMapping of
        None \<Rightarrow> []
      | Some o' \<Rightarrow>
          let modelSet = uniq (map normalizeModelName currentModels)
          in uniq (filter (\<lambda>k. k \<noteq> [] \<and> k \<notin> set modelSet)
               (map (\<lambda>kv. normalizeModelName (fst kv)) o')))"


definition findExposedTargetModels :: "jstr \<Rightarrow> jstr list \<Rightarrow> jstr list" where
  "findExposedTargetModels modelMapping currentModels =
     (let redirectModels = extractRedirectModels modelMapping
      in if length redirectModels = 0 then []
         else let modelSet = uniq (map normalizeModelName currentModels)
              in filter (\<lambda>model. normalizeModelName model \<in> set modelSet) redirectModels)"

record ModelCategories =
  normalizedCurrentModels :: "jstr list"
  normalizedRedirectModels :: "jstr list"
  classificationSet :: "jstr list"
  redirectOnlySet :: "jstr list"

definition categorizeModelsWithRedirect :: "jstr list \<Rightarrow> jstr list \<Rightarrow> ModelCategories" where
  "categorizeModelsWithRedirect currentModels redirectModels =
     (let cur = uniq (filter (\<lambda>m. m \<noteq> []) (map normalizeModelName currentModels));
          red = uniq (filter (\<lambda>m. m \<noteq> []) (map normalizeModelName redirectModels))
      in \<lparr>normalizedCurrentModels = cur,
          normalizedRedirectModels = red,
          classificationSet = uniq (cur @ red),
          redirectOnlySet = uniq (filter (\<lambda>m. m \<notin> set cur) red)\<rparr>)"

section \<open>The status code mapping\<close>

definition NON_REDIRECTABLE_STATUS_CODES :: "jsnum list" where
  "NON_REDIRECTABLE_STATUS_CODES = [Fin 504, Fin 524]"

text \<open>The pattern \<open>[1-5]\d{2}\<close> between both ends of the string.\<close>

definition statusCodePattern :: "jstr \<Rightarrow> bool" where
  "statusCodePattern s =
     (length s = 3 \<and> 49 \<le> hd s \<and> hd s \<le> 53 \<and> (\<forall>c\<in>set (tl s). is_digit c))"

definition parseStatusCodeKey :: "jstr \<Rightarrow> jsnum option" where
  "parseStatusCodeKey rawKey =
     (let normalized = trim rawKey
      in if \<not> statusCodePattern normalized then None else Some (parse_int10 normalized))"

definition parseStatusCodeMappingTarget :: "jsval \<Rightarrow> jsnum option" where
  "parseStatusCodeMappingTarget rawValue =
     (case rawValue of
        JNum n \<Rightarrow>
          if is_integer n
          then (if js_le (Fin 100) n \<and> js_le n (Fin 599) then Some n else None) else None
      | JStr s \<Rightarrow>
          let normalized = trim s
          in if \<not> statusCodePattern normalized then None
             else let code = parse_int10 normalized
                  in if js_le (Fin 100) code \<and> js_le code (Fin 599) then Some code else None
      | _ \<Rightarrow> None)"

text \<open>The loop body that flags an entry, with the arrow the message shows (code unit 8594).\<close>

definition invalidEntry :: "jstr \<times> jsval \<Rightarrow> jstr list" where
  "invalidEntry kv =
     (if parseStatusCodeKey (fst kv) = None \<or> parseStatusCodeMappingTarget (snd kv) = None
      then [fst kv @ [32, 8594, 32] @ to_string (snd kv)] else [])"

definition collectInvalidStatusCodeEntries :: "jstr \<Rightarrow> jstr list" where
  "collectInvalidStatusCodeEntries statusCodeMappingStr =
     (if trim statusCodeMappingStr = [] then []
      else case parsedObject statusCodeMappingStr of
        None \<Rightarrow> []
      | Some o' \<Rightarrow> concat (map invalidEntry o'))"

definition riskyMapping :: "jstr \<times> jsval \<Rightarrow> jstr list" where
  "riskyMapping kv =
     (case (parseStatusCodeKey (fst kv), parseStatusCodeMappingTarget (snd kv)) of
        (Some fromCode, Some toCode) \<Rightarrow>
          if fromCode \<notin> set NON_REDIRECTABLE_STATUS_CODES then []
          else if js_eq fromCode toCode then []
          else [num_str fromCode @ lit '' -> '' @ num_str toCode]
      | _ \<Rightarrow> [])"

definition collectDisallowedStatusCodeRedirects :: "jstr \<Rightarrow> jstr list" where
  "collectDisallowedStatusCodeRedirects statusCodeMappingStr =
     (if trim statusCodeMappingStr = [] then []
      else case parsedObject statusCodeMappingStr of
        None \<Rightarrow> []
      | Some o' \<Rightarrow> js_sort str_cmp (uniq (concat (map riskyMapping o'))))"

definition collectNewDisallowedStatusCodeRedirects :: "jstr \<Rightarrow> jstr \<Rightarrow> jstr list" where
  "collectNewDisallowedStatusCodeRedirects originalStr currentStr =
     (let currentRisky = collectDisallowedStatusCodeRedirects currentStr
      in if length currentRisky = 0 then []
         else let originalRiskySet = uniq (collectDisallowedStatusCodeRedirects originalStr)
              in filter (\<lambda>mapping. mapping \<notin> set originalRiskySet) currentRisky)"

section \<open>Submitting a channel\<close>

text \<open>The fields of the form the submit handler reads or writes; an absent field is \<open>None\<close>.\<close>

record ChannelFormValues =
  key :: "jstr option"
  models :: "jstr option"
  model_mapping :: "jstr option"
  status_code_mapping :: "jstr option"







section \<open>Parsed mappings\<close>

lemma parsedObject_not_blank: "parsedObject s = Some o' \<Longrightarrow> trim s \<noteq> [] \<and> s \<noteq> []"
  using json_parse_not_blank by (fastforce simp: parsedObject_def split: option.splits jsval.splits)

section \<open>Model lists\<close>

text \<open>What a model list can hold: names with nothing to trim and no comma.\<close>

definition modelName :: "jstr \<Rightarrow> bool" where
  "modelName m = (trimmed m \<and> m \<noteq> [] \<and> 44 \<notin> set m)"

lemma parseModelsString_names: "m \<in> set (parseModelsString s) \<Longrightarrow> modelName m"
  by (auto simp: parseModelsString_def modelName_def
      dest!: split_char_sep_free subsetD [OF set_trim_subset] split: if_splits)

lemma parse_format_models:
  assumes "\<forall>m\<in>set ms. modelName m"
  shows "parseModelsString (formatModelsArray ms) = uniq ms"
proof (cases "ms = []")
  case False
  then obtain x xs where u: "uniq ms = x # xs" by (cases "uniq ms") auto
  then have n: "\<forall>m\<in>set (x # xs). modelName m" using assms by (metis set_uniq)
  then have "split_char 44 (join [44] (x # xs)) = x # xs"
    by (intro split_char_join) (auto simp: modelName_def)
  moreover have "map trim (x # xs) = x # xs"
    using n by (intro map_idI) (auto simp: modelName_def trimmed_trim_id)
  moreover have "filter (\<lambda>m. m \<noteq> []) (x # xs) = x # xs"
    using n by (intro filter_True) (auto simp: modelName_def)
  moreover have "join [44] (x # xs) \<noteq> []" using n by (cases xs) (auto simp: modelName_def)
  moreover have "lit '','' = [44]" by (simp add: lit_def)
  ultimately show ?thesis by (simp only: parseModelsString_def formatModelsArray_def u) simp
qed (simp add: parseModelsString_def formatModelsArray_def)

text \<open>
   A list of model names survives being written to the form field and read back: the result is
  the list without its repetitions, whatever the names are as long as none is blank at an end,
  empty or contains a comma; and every list read from a form field satisfies that, so reading,
  writing and reading again changes nothing but repetitions.
\<close>

theorem models_roundtrip:
  "((\<forall>m\<in>set ms. modelName m) \<longrightarrow> parseModelsString (formatModelsArray ms) = uniq ms)
   \<and> (\<forall>m\<in>set (parseModelsString s). modelName m)
   \<and> parseModelsString (formatModelsArray (parseModelsString s)) = uniq (parseModelsString s)"
  by (simp add: parse_format_models parseModelsString_names)

theorem models_roundtrip_witness:
  "parseModelsString (formatModelsArray [lit ''gpt-4o'', lit ''o3 mini'', lit ''gpt-4o''])
     = [lit ''gpt-4o'', lit ''o3 mini'']"
proof -
  let ?ms = "[lit ''gpt-4o'', lit ''o3 mini'', lit ''gpt-4o'']"
  have "\<forall>m\<in>set ?ms. modelName m"
    by (simp add: modelName_def trimmed_def is_ws_def js_eval)
  moreover have "uniq ?ms = [lit ''gpt-4o'', lit ''o3 mini'']"
    by (simp add: uniq_def set_add_def js_eval)
  ultimately show ?thesis using models_roundtrip [of ?ms "[]"] by simp
qed

section \<open>Missing, exposed and redirected models\<close>

lemma findMissing_object:
  "parsedObject mapping = Some o' \<Longrightarrow>
   findMissingModelsInMapping mapping ms
     = uniq (filter (\<lambda>k. k \<noteq> [] \<and> k \<notin> trim ` set ms) (map (\<lambda>kv. trim (fst kv)) o'))"
  using parsedObject_not_blank [of mapping o']
  by (simp add: findMissingModelsInMapping_def normalizeModelName_def Let_def)

lemma set_findMissing:
  assumes "parsedObject mapping = Some o'"
  shows "set (findMissingModelsInMapping mapping ms)
    = {k. k \<noteq> [] \<and> (\<exists>kv\<in>set o'. trim (fst kv) = k) \<and> (\<forall>m\<in>set ms. trim m \<noteq> k)}"
  unfolding findMissing_object [OF assms] by (force simp: image_iff)

lemma findMissing_closed:
  "trim ` set (findMissingModelsInMapping mapping ms) \<subseteq> trim ` set ms' \<Longrightarrow> trim ` set ms \<subseteq> trim ` set ms'
   \<Longrightarrow> findMissingModelsInMapping mapping ms' = []"
proof (cases "parsedObject mapping")
  case None
  then show ?thesis by (simp add: findMissingModelsInMapping_def)
next
  case (Some o')
  assume sub: "trim ` set (findMissingModelsInMapping mapping ms) \<subseteq> trim ` set ms'"
    and ms: "trim ` set ms \<subseteq> trim ` set ms'"
  have "set (findMissingModelsInMapping mapping ms') = {}"
  proof (rule equals0I)
    fix k
    assume k: "k \<in> set (findMissingModelsInMapping mapping ms')"
    then have new: "k \<notin> trim ` set ms'" by (auto simp: set_findMissing [OF Some])
    then have "k \<in> set (findMissingModelsInMapping mapping ms)"
      using k ms by (auto simp: set_findMissing [OF Some])
    moreover have "trim k = k" using k by (auto simp: set_findMissing [OF Some])
    ultimately show False using sub new by force
  qed
  then show ?thesis by simp
qed

text \<open>
   For a model mapping that is a JSON object, the missing models are exactly the trimmed, non-empty
  source names that no listed model equals after trimming, each once; once they are
  added to the list nothing is missing any more.  A text that is not a JSON object has none.
\<close>

theorem missing_models_exact:
  assumes "parsedObject mapping = Some o'"
  shows "set (findMissingModelsInMapping mapping ms)
      = {k. k \<noteq> [] \<and> (\<exists>kv\<in>set o'. trim (fst kv) = k) \<and> (\<forall>m\<in>set ms. trim m \<noteq> k)}
    \<and> distinct (findMissingModelsInMapping mapping ms)
    \<and> findMissingModelsInMapping mapping (ms @ findMissingModelsInMapping mapping ms) = []
    \<and> (parsedObject other = None \<longrightarrow> findMissingModelsInMapping other ms = [])"
proof -
  have "distinct (findMissingModelsInMapping mapping ms)"
    by (simp add: findMissing_object [OF assms])
  moreover have "findMissingModelsInMapping mapping (ms @ findMissingModelsInMapping mapping ms) = []"
    by (rule findMissing_closed [of _ ms]) auto
  moreover have "parsedObject other = None \<longrightarrow> findMissingModelsInMapping other ms = []"
    by (simp add: findMissingModelsInMapping_def)
  ultimately show ?thesis using set_findMissing [OF assms] by blast
qed

definition sampleMapping :: jstr where
  "sampleMapping = [123,34] @ lit ''gpt-4'' @ [34,58,34] @ lit ''gpt-4o'' @ [34,44,34] @ lit ''o1 '' @ [34,58,34]
     @ lit ''o3'' @ [34,125]"

lemma sampleMapping_object:
  "parsedObject sampleMapping
     = Some [(lit ''gpt-4'', JStr (lit ''gpt-4o'')), (lit ''o1 '', JStr (lit ''o3''))]"
  by code_simp

theorem missing_models_exact_witness:
  "findMissingModelsInMapping sampleMapping ([lit ''gpt-4''] @ findMissingModelsInMapping sampleMapping [lit ''gpt-4'']) = []
   \<and> lit ''o1'' \<in> set (findMissingModelsInMapping sampleMapping [lit ''gpt-4''])"
proof
  show "findMissingModelsInMapping sampleMapping ([lit ''gpt-4''] @ findMissingModelsInMapping sampleMapping [lit ''gpt-4'']) = []"
    using missing_models_exact [OF sampleMapping_object, of "[lit ''gpt-4'']" "[]"] by blast
  show "lit ''o1'' \<in> set (findMissingModelsInMapping sampleMapping [lit ''gpt-4''])"
    by code_simp
qed

lemma extractRedirect_trimmed: "m \<in> set (extractRedirectModels mapping) \<Longrightarrow> trim m = m \<and> m \<noteq> []"
  by (auto simp: extractRedirectModels_def Let_def trimmedString_def map_filter_def
      split: if_splits option.splits jsval.splits)

lemma extractRedirect_normal:
  "uniq (filter (\<lambda>m. m \<noteq> []) (map normalizeModelName (extractRedirectModels mapping)))
     = extractRedirectModels mapping"
proof -
  have "map normalizeModelName (extractRedirectModels mapping) = extractRedirectModels mapping"
    by (intro map_idI) (simp add: normalizeModelName_def extractRedirect_trimmed)
  moreover have "filter (\<lambda>m. m \<noteq> []) (extractRedirectModels mapping) = extractRedirectModels mapping"
    by (intro filter_True) (simp add: extractRedirect_trimmed)
  moreover have "distinct (extractRedirectModels mapping)"
    by (simp add: extractRedirectModels_def Let_def split: option.split)
  ultimately show ?thesis by (simp add: uniq_distinct)
qed

text \<open>
   The targets of a mapping are split in two by the model list: those the list exposes and those
  shown as redirect-only; together they are all targets and no target is both.  The models offered for
  display are exactly the listed ones and the targets, each once.
\<close>

theorem redirect_partition:
  "let targets = extractRedirectModels mapping;
       exposed = findExposedTargetModels mapping ms;
       cats = categorizeModelsWithRedirect ms targets
   in set exposed \<union> set (redirectOnlySet cats) = set targets
      \<and> set exposed \<inter> set (redirectOnlySet cats) = {}
      \<and> set (classificationSet cats) = (trim ` set ms - {[]}) \<union> set targets
      \<and> distinct (classificationSet cats)"
proof -
  let ?T = "extractRedirectModels mapping"
  let ?C = "categorizeModelsWithRedirect ms ?T"
  have ex: "set (findExposedTargetModels mapping ms) = {t \<in> set ?T. t \<in> trim ` set ms}"
    using extractRedirect_trimmed [of _ mapping]
    by (auto simp: findExposedTargetModels_def Let_def normalizeModelName_def)
  have ro: "set (redirectOnlySet ?C) = {t \<in> set ?T. t \<notin> trim ` set ms}"
    using extractRedirect_trimmed [of _ mapping] extractRedirect_normal [of mapping]
    by (auto simp: categorizeModelsWithRedirect_def Let_def normalizeModelName_def)
  have cl: "set (classificationSet ?C) = (trim ` set ms - {[]}) \<union> set ?T"
    using extractRedirect_normal [of mapping]
    by (auto simp: categorizeModelsWithRedirect_def Let_def normalizeModelName_def)
  have "distinct (classificationSet ?C)" by (simp add: categorizeModelsWithRedirect_def Let_def)
  with ex ro cl show ?thesis unfolding Let_def by auto
qed

section \<open>Status code mappings\<close>

text \<open>A three-digit text of the pattern denotes a code of the range.\<close>

lemma statusCodePattern_value:
  assumes "statusCodePattern s"
  obtains n where "parse_int10 s = jint n" "100 \<le> n" "n \<le> 599"
proof -
  obtain a b c where s: "s = [a, b, c]"
    using assms by (auto simp: statusCodePattern_def numeral_3_eq_3 length_Suc_conv)
  have d: "49 \<le> a" "a \<le> 53" "is_digit b" "is_digit c" using assms by (auto simp: statusCodePattern_def s)
  have r: "100 \<le> parse_dec s" "parse_dec s \<le> 599" using d by (auto simp: s parse_dec_def is_digit_def)
  have "s \<noteq> []" "\<forall>x\<in>set s. is_digit x" using d by (auto simp: s is_digit_def)
  then have "parse_int10 s = jint (parse_dec s)" using r by (simp add: parse_int10_digits rnd_of_int)
  with r that show ?thesis by blast
qed

lemma parseStatusCodeKey_range:
  assumes "parseStatusCodeKey k = Some x"
  obtains n where "x = jint n" "100 \<le> n" "n \<le> 599"
  using assms statusCodePattern_value [of "trim k"]
  by (auto simp: parseStatusCodeKey_def Let_def split: if_splits)

lemma parseStatusCodeMappingTarget_range:
  assumes "parseStatusCodeMappingTarget v = Some x"
  obtains n where "x = jint n" "100 \<le> n" "n \<le> 599"
proof (cases v)
  case (JNum y)
  then have y: "is_integer y" "js_le (Fin 100) y" "js_le y (Fin 599)" "x = y"
    using assms by (auto simp: parseStatusCodeMappingTarget_def split: if_splits)
  then obtain n where "y = jint n" by (cases y) (auto simp: is_integer_def)
  with y that show ?thesis by simp
next
  case (JStr s)
  then have "statusCodePattern (trim s)" "x = parse_int10 (trim s)"
    using assms by (auto simp: parseStatusCodeMappingTarget_def Let_def split: if_splits)
  with statusCodePattern_value that show ?thesis by metis
qed (use assms in \<open>simp_all add: parseStatusCodeMappingTarget_def\<close>)

text \<open>A redirect of an entry: the entry is well formed and its codes are \<open>f\<close> and \<open>t\<close>.\<close>

definition redirects :: "jstr \<times> jsval \<Rightarrow> int \<Rightarrow> int \<Rightarrow> bool" where
  "redirects kv f t =
     (parseStatusCodeKey (fst kv) = Some (jint f) \<and> parseStatusCodeMappingTarget (snd kv) = Some (jint t))"

definition redirectLabel :: "int \<Rightarrow> int \<Rightarrow> jstr" where
  "redirectLabel f t = dec_nat f @ lit '' -> '' @ dec_nat t"

lemma redirects_range: "redirects kv f t \<Longrightarrow> 100 \<le> f \<and> f \<le> 599 \<and> 100 \<le> t \<and> t \<le> 599"
  unfolding redirects_def
  by (auto elim!: parseStatusCodeKey_range parseStatusCodeMappingTarget_range)

lemma set_riskyMapping:
  "x \<in> set (riskyMapping kv) \<longleftrightarrow>
   (\<exists>f t. redirects kv f t \<and> (f = 504 \<or> f = 524) \<and> f \<noteq> t \<and> x = redirectLabel f t)"
proof (cases "\<exists>f t. redirects kv f t")
  case True
  then obtain f t where r: "redirects kv f t" by blast
  then have p: "parseStatusCodeKey (fst kv) = Some (jint f)" "parseStatusCodeMappingTarget (snd kv) = Some (jint t)"
    by (auto simp: redirects_def)
  have b: "num_str (jint f) = dec_nat f" "num_str (jint t) = dec_nat t"
    using redirects_range [OF r] by (simp_all add: dec_int_def)
  have c: "jint f = Fin 504 \<longleftrightarrow> f = 504" "jint f = Fin 524 \<longleftrightarrow> f = 524"
    by (metis of_int_eq_iff of_int_numeral jsnum.inject)+
  have e: "js_eq (jint f) (jint t) \<longleftrightarrow> f = t" by (simp add: js_eq_def)
  have u: "redirects kv f' t' \<longleftrightarrow> f' = f \<and> t' = t" for f' t' using p by (auto simp: redirects_def)
  have "riskyMapping kv = (if (f = 504 \<or> f = 524) \<and> f \<noteq> t then [redirectLabel f t] else [])"
    unfolding riskyMapping_def p option.case prod.case e redirectLabel_def b
    by (simp only: NON_REDIRECTABLE_STATUS_CODES_def list.set insert_iff empty_iff c) auto
  then show ?thesis by (auto simp: u)
next
  case False
  have "riskyMapping kv = []"
  proof (rule ccontr)
    assume "riskyMapping kv \<noteq> []"
    then obtain x y where xy: "parseStatusCodeKey (fst kv) = Some x" "parseStatusCodeMappingTarget (snd kv) = Some y"
      by (auto simp: riskyMapping_def split: option.splits)
    obtain f where "x = jint f" by (rule parseStatusCodeKey_range [OF xy(1)])
    moreover obtain t where "y = jint t" by (rule parseStatusCodeMappingTarget_range [OF xy(2)])
    ultimately have "redirects kv f t" using xy by (simp add: redirects_def)
    with False show False by blast
  qed
  with False show ?thesis by auto
qed

lemma set_disallowed:
  "parsedObject s = Some o' \<Longrightarrow>
   set (collectDisallowedStatusCodeRedirects s)
     = {redirectLabel f t | f t. (f = 504 \<or> f = 524) \<and> f \<noteq> t \<and> (\<exists>kv\<in>set o'. redirects kv f t)}"
proof -
  assume p: "parsedObject s = Some o'"
  then have "set (collectDisallowedStatusCodeRedirects s) = (\<Union>kv\<in>set o'. set (riskyMapping kv))"
    using parsedObject_not_blank [OF p] by (simp add: collectDisallowedStatusCodeRedirects_def)
  then show ?thesis by (simp only: set_eq_iff UN_iff set_riskyMapping mem_Collect_eq) blast
qed

lemma disallowed_strict: "sorted_wrt str_less (collectDisallowedStatusCodeRedirects s)"
  by (simp add: collectDisallowedStatusCodeRedirects_def js_sort_str_strict split: option.split)

lemma set_newDisallowed:
  "set (collectNewDisallowedStatusCodeRedirects orig cur)
     = set (collectDisallowedStatusCodeRedirects cur) - set (collectDisallowedStatusCodeRedirects orig)"
  by (auto simp: collectNewDisallowedStatusCodeRedirects_def Let_def)

lemma newDisallowed_strict: "sorted_wrt str_less (collectNewDisallowedStatusCodeRedirects orig cur)"
  by (simp add: collectNewDisallowedStatusCodeRedirects_def Let_def disallowed_strict sorted_wrt_filter)

lemma redirects_iff:
  "(\<exists>f t. redirects kv f t) \<longleftrightarrow>
   parseStatusCodeKey (fst kv) \<noteq> None \<and> parseStatusCodeMappingTarget (snd kv) \<noteq> None"
proof
  assume "parseStatusCodeKey (fst kv) \<noteq> None \<and> parseStatusCodeMappingTarget (snd kv) \<noteq> None"
  then obtain x y where xy: "parseStatusCodeKey (fst kv) = Some x" "parseStatusCodeMappingTarget (snd kv) = Some y"
    by blast
  obtain f where "x = jint f" by (rule parseStatusCodeKey_range [OF xy(1)])
  moreover obtain t where "y = jint t" by (rule parseStatusCodeMappingTarget_range [OF xy(2)])
  ultimately show "\<exists>f t. redirects kv f t" using xy by (auto simp: redirects_def)
qed (auto simp: redirects_def)

lemma no_invalid_entries:
  "parsedObject s = Some o' \<Longrightarrow>
   collectInvalidStatusCodeEntries s = [] \<longleftrightarrow> (\<forall>kv\<in>set o'. \<exists>f t. redirects kv f t)"
proof -
  assume p: "parsedObject s = Some o'"
  then have "collectInvalidStatusCodeEntries s = concat (map invalidEntry o')"
    using parsedObject_not_blank [OF p] by (simp add: collectInvalidStatusCodeEntries_def)
  moreover have "invalidEntry kv = [] \<longleftrightarrow> (\<exists>f t. redirects kv f t)" for kv
    by (simp add: invalidEntry_def redirects_iff)
  ultimately show ?thesis by simp
qed

text \<open>
   For a status code mapping that is a JSON object: no entry is reported invalid exactly when every
  key and value is a code between 100 and 599; the redirects that need confirmation are exactly
  those of 504 and 524 to another code, in increasing order without repetition; and of
  those only the ones the saved mapping did not already have are new, so that an unchanged mapping
  never asks.
\<close>

theorem status_code_mapping_checked:
  assumes "parsedObject cur = Some o'"
  shows "(collectInvalidStatusCodeEntries cur = [] \<longleftrightarrow>
           (\<forall>kv\<in>set o'. \<exists>f t. redirects kv f t \<and> 100 \<le> f \<and> f \<le> 599 \<and> 100 \<le> t \<and> t \<le> 599))
    \<and> set (collectNewDisallowedStatusCodeRedirects orig cur)
        = {redirectLabel f t | f t. (f = 504 \<or> f = 524) \<and> f \<noteq> t \<and> (\<exists>kv\<in>set o'. redirects kv f t)}
          - set (collectDisallowedStatusCodeRedirects orig)
    \<and> sorted_wrt str_less (collectNewDisallowedStatusCodeRedirects orig cur)
    \<and> collectNewDisallowedStatusCodeRedirects cur cur = []"
proof -
  have "collectInvalidStatusCodeEntries cur = [] \<longleftrightarrow>
      (\<forall>kv\<in>set o'. \<exists>f t. redirects kv f t \<and> 100 \<le> f \<and> f \<le> 599 \<and> 100 \<le> t \<and> t \<le> 599)"
    unfolding no_invalid_entries [OF assms] using redirects_range by blast
  moreover have "collectNewDisallowedStatusCodeRedirects cur cur = []"
    using set_newDisallowed [of cur cur] by simp
  ultimately show ?thesis
    by (simp add: set_newDisallowed set_disallowed [OF assms] newDisallowed_strict)
qed

definition sampleCodes :: jstr where
  "sampleCodes = [123,34] @ lit ''504'' @ [34,58,34] @ lit ''200'' @ [34,44,34] @ lit ''429'' @ [34,58]
     @ lit ''500'' @ [125]"

lemma sampleCodes_object:
  "parsedObject sampleCodes = Some [(lit ''429'', JNum (Fin 500)), (lit ''504'', JStr (lit ''200''))]"
  by code_simp

theorem status_code_mapping_checked_witness:
  "collectInvalidStatusCodeEntries sampleCodes = []
   \<and> collectNewDisallowedStatusCodeRedirects [] sampleCodes = [lit ''504 -> 200'']
   \<and> collectNewDisallowedStatusCodeRedirects sampleCodes sampleCodes = []"
proof (intro conjI)
  show "collectInvalidStatusCodeEntries sampleCodes = []" by code_simp
  show "collectNewDisallowedStatusCodeRedirects [] sampleCodes = [lit ''504 -> 200'']" by code_simp
  show "collectNewDisallowedStatusCodeRedirects sampleCodes sampleCodes = []"
    using status_code_mapping_checked [OF sampleCodes_object] by blast
qed

section \<open>What a submitted channel satisfies\<close>










end
