(* ===== verification/Advanced_Custom.thy ===== *)
theory Advanced_Custom
  imports JS_Json_Laws "HOL-Library.Monad_Syntax"
begin

text \<open>
  The advanced custom configuration of a channel: \<open>features/channels/lib/advanced-custom.ts\<close>.  A
  configuration comes from JSON text, so its parts may have any type: it is a dynamic value, and an
  operation that reads a part of the wrong type throws (\<open>None\<close>).  \<open>typedConfig\<close> is what
  the interfaces of \<open>features/channels/types.ts\<close> promise.  The URL parser of the browser is the argument
  \<open>parseURL\<close>: the protocol and host of an accepted text.
\<close>

section \<open>Types\<close>

definition optString :: "jsval \<Rightarrow> bool" where
  "optString v = (v = JUndef \<or> str_value v \<noteq> None)"

definition typedRouteAuth :: "jsval \<Rightarrow> bool" where
  "typedRouteAuth v =
     (case v of
        JObj o' \<Rightarrow>
          obj_get (lit ''type'') o' \<in> set [JUndef, JStr (lit ''none''), JStr (lit ''header''), JStr (lit ''query'')]
          \<and> optString (obj_get (lit ''name'') o') \<and> optString (obj_get (lit ''value'') o')
      | _ \<Rightarrow> False)"

definition typedConverters :: "jstr list" where
  "typedConverters =
     [lit ''none'', lit ''anthropic_messages_to_openai_chat_completions'',
      lit ''openai_chat_completions_to_anthropic_messages'',
      lit ''openai_chat_completions_to_openai_responses'',
      lit ''gemini_generate_content_to_openai_chat_completions'',
      lit ''openai_chat_completions_to_gemini_generate_content'']"

definition typedRoute :: "jsval \<Rightarrow> bool" where
  "typedRoute v =
     (case v of
        JObj o' \<Rightarrow>
          optString (obj_get (lit ''incoming_path'') o') \<and> optString (obj_get (lit ''upstream_path'') o')
          \<and> obj_get (lit ''converter'') o' \<in> set (JUndef # map JStr typedConverters)
          \<and> (obj_get (lit ''auth'') o' = JUndef \<or> typedRouteAuth (obj_get (lit ''auth'') o'))
      | _ \<Rightarrow> False)"

definition typedConfig :: "jsval \<Rightarrow> bool" where
  "typedConfig v =
     (case v of
        JObj o' \<Rightarrow>
          (case obj_get (lit ''advanced_routes'') o' of
             JUndef \<Rightarrow> True
           | JArr rs \<Rightarrow> (\<forall>r\<in>set rs. typedRoute r)
           | _ \<Rightarrow> False)
      | _ \<Rightarrow> False)"

section \<open>Options and templates\<close>

definition ADVANCED_CUSTOM_CONVERTER_OPTIONS :: "(jstr \<times> jstr) list" where
  "ADVANCED_CUSTOM_CONVERTER_OPTIONS =
     [(lit ''none'', lit ''Native forwarding''),
      (lit ''anthropic_messages_to_openai_chat_completions'', lit ''Anthropic Messages to OpenAI Chat''),
      (lit ''openai_chat_completions_to_anthropic_messages'', lit ''OpenAI Chat to Anthropic Messages''),
      (lit ''openai_chat_completions_to_openai_responses'', lit ''OpenAI Chat to OpenAI Responses''),
      (lit ''gemini_generate_content_to_openai_chat_completions'', lit ''Gemini Generate Content to OpenAI Chat''),
      (lit ''openai_chat_completions_to_gemini_generate_content'', lit ''OpenAI Chat to Gemini Generate Content'')]"

definition ADVANCED_CUSTOM_AUTH_MODE_OPTIONS :: "(jstr \<times> jstr) list" where
  "ADVANCED_CUSTOM_AUTH_MODE_OPTIONS =
     [(lit ''default'', lit ''Default Bearer''), (lit ''none'', lit ''No Auth''),
      (lit ''header'', lit ''Header''), (lit ''query'', lit ''Query'')]"

definition ADVANCED_CUSTOM_INCOMING_PATH_OPTIONS :: "(jstr \<times> jstr) list" where
  "ADVANCED_CUSTOM_INCOMING_PATH_OPTIONS =
     [(lit ''/v1/chat/completions'', lit ''OpenAI Chat Completions''),
      (lit ''/v1/completions'', lit ''OpenAI Completions''),
      (lit ''/v1/responses'', lit ''OpenAI Responses''),
      (lit ''/v1/responses/compact'', lit ''OpenAI Responses Compact''),
      (lit ''/v1/embeddings'', lit ''OpenAI Embeddings''),
      (lit ''/v1/images/generations'', lit ''OpenAI Image Generations''),
      (lit ''/v1/images/edits'', lit ''OpenAI Image Edits''),
      (lit ''/v1/audio/speech'', lit ''OpenAI Audio Speech''),
      (lit ''/v1/audio/transcriptions'', lit ''OpenAI Audio Transcriptions''),
      (lit ''/v1/audio/translations'', lit ''OpenAI Audio Translations''),
      (lit ''/v1/rerank'', lit ''OpenAI Rerank''),
      (lit ''/v1/realtime'', lit ''OpenAI Realtime''),
      (lit ''/v1/messages'', lit ''Claude Messages''),
      (lit ''/v1beta/models/{model}:generateContent'', lit ''Gemini Generate Content''),
      (lit ''/v1beta/models/{model}:embedContent'', lit ''Gemini Embed Content''),
      (lit ''/v1beta/models/{model}:batchEmbedContents'', lit ''Gemini Batch Embed Contents'')]"

record AdvancedCustomValidationError =
  message :: jstr
  routeIndex :: "nat option"

definition authObj :: "jsval \<Rightarrow> jsval \<Rightarrow> jsval \<Rightarrow> jsval" where
  "authObj t n v = JObj [(lit ''type'', t), (lit ''name'', n), (lit ''value'', v)]"

definition bearerHeaderAuth :: jsval where
  "bearerHeaderAuth =
     authObj (JStr (lit ''header'')) (JStr (lit ''Authorization'')) (JStr (lit ''Bearer {api_key}''))"

definition apiKeyHeaderAuth :: jsval where
  "apiKeyHeaderAuth = authObj (JStr (lit ''header'')) (JStr (lit ''x-api-key'')) (JStr (lit ''{api_key}''))"

definition geminiQueryAuth :: jsval where
  "geminiQueryAuth = authObj (JStr (lit ''query'')) (JStr (lit ''key'')) (JStr (lit ''{api_key}''))"

definition routeObj :: "jsval \<Rightarrow> jsval \<Rightarrow> jsval \<Rightarrow> (jstr \<times> jsval) list \<Rightarrow> jsval" where
  "routeObj ip up conv rest =
     JObj ([(lit ''incoming_path'', ip), (lit ''upstream_path'', up), (lit ''converter'', conv)] @ rest)"

definition configObj :: "jsval list \<Rightarrow> jsval" where
  "configObj rs = JObj [(lit ''advanced_routes'', JArr rs)]"

text \<open>A route of a template, written with the paths and the converter it has in the source.\<close>

definition templateRoute :: "string \<Rightarrow> string \<Rightarrow> string \<Rightarrow> jsval \<Rightarrow> jsval" where
  "templateRoute ip up conv auth =
     routeObj (JStr (lit ip)) (JStr (lit up)) (JStr (lit conv)) [(lit ''auth'', auth)]"

definition ADVANCED_CUSTOM_TEMPLATE_OPTIONS :: "(jstr \<times> jstr \<times> jsval) list" where
  "ADVANCED_CUSTOM_TEMPLATE_OPTIONS =
     [(lit ''official_openai_chat'', lit ''Official OpenAI Chat'', configObj
        [templateRoute ''/v1/chat/completions'' ''/v1/chat/completions'' ''none'' bearerHeaderAuth]),
      (lit ''official_openai_responses'', lit ''Official OpenAI Responses'', configObj
        [templateRoute ''/v1/responses'' ''/v1/responses'' ''none'' bearerHeaderAuth]),
      (lit ''official_openai_embeddings'', lit ''Official OpenAI Embeddings'', configObj
        [templateRoute ''/v1/embeddings'' ''/v1/embeddings'' ''none'' bearerHeaderAuth]),
      (lit ''official_openai_images'', lit ''Official OpenAI Images'', configObj
        [templateRoute ''/v1/images/generations'' ''/v1/images/generations'' ''none'' bearerHeaderAuth,
         templateRoute ''/v1/images/edits'' ''/v1/images/edits'' ''none'' bearerHeaderAuth]),
      (lit ''official_claude_messages'', lit ''Official Claude Messages'', configObj
        [templateRoute ''/v1/messages'' ''/v1/messages'' ''none'' apiKeyHeaderAuth]),
      (lit ''official_gemini_native'', lit ''Official Gemini Native'', configObj
        [templateRoute ''/v1beta/models/{model}:generateContent'' ''/v1beta/models/{model}:generateContent''
           ''none'' geminiQueryAuth,
         templateRoute ''/v1beta/models/{model}:embedContent'' ''/v1beta/models/{model}:embedContent''
           ''none'' geminiQueryAuth,
         templateRoute ''/v1beta/models/{model}:batchEmbedContents'' ''/v1beta/models/{model}:batchEmbedContents''
           ''none'' geminiQueryAuth]),
      (lit ''official_gemini_from_openai_chat'', lit ''Official Gemini from OpenAI Chat'', configObj
        [templateRoute ''/v1/chat/completions'' ''/v1beta/models/{model}:generateContent''
           ''openai_chat_completions_to_gemini_generate_content'' geminiQueryAuth])]"

text \<open>\<open>JSON.parse(JSON.stringify(config))\<close>; \<open>None\<close> when it throws.\<close>

definition cloneAdvancedCustomConfig :: "jsval \<Rightarrow> jsval option" where
  "cloneAdvancedCustomConfig config = json_parse (json_stringify 0 config)"

definition getAdvancedCustomTemplateConfig :: "jstr \<Rightarrow> jsval option" where
  "getAdvancedCustomTemplateConfig templateKey =
     cloneAdvancedCustomConfig (snd (snd (opt_or
       (find (\<lambda>option. fst option = templateKey) ADVANCED_CUSTOM_TEMPLATE_OPTIONS)
       (ADVANCED_CUSTOM_TEMPLATE_OPTIONS ! 0))))"

definition createAdvancedCustomRoute :: jsval where
  "createAdvancedCustomRoute =
     routeObj (JStr (lit ''/v1/chat/completions'')) (JStr (lit ''/v1/chat/completions'')) (JStr (lit ''none'')) []"

definition createAdvancedCustomConfig :: jsval where
  "createAdvancedCustomConfig = configObj [createAdvancedCustomRoute]"

definition getAdvancedCustomUpstreamPathPlaceholder :: "jsval \<Rightarrow> jstr" where
  "getAdvancedCustomUpstreamPathPlaceholder converter =
     (if converter = JStr (lit ''openai_chat_completions_to_gemini_generate_content'')
      then lit ''/v1beta/models/{model}:generateContent''
      else if converter = JStr (lit ''openai_chat_completions_to_anthropic_messages'')
      then lit ''/v1/messages''
      else lit ''/v1/chat/completions'')"

definition isConverterPathAllowed :: "jstr \<Rightarrow> jsval \<Rightarrow> bool" where
  "isConverterPathAllowed incomingPath converter =
     (if converter = JStr (lit ''none'') then True
      else if converter = JStr (lit ''anthropic_messages_to_openai_chat_completions'')
      then incomingPath = lit ''/v1/messages''
      else if converter = JStr (lit ''openai_chat_completions_to_anthropic_messages'')
        \<or> converter = JStr (lit ''openai_chat_completions_to_openai_responses'')
        \<or> converter = JStr (lit ''openai_chat_completions_to_gemini_generate_content'')
      then incomingPath = lit ''/v1/chat/completions''
      else str_includes (lit '':generateContent'') incomingPath
        \<or> str_includes (lit '':streamGenerateContent'') incomingPath)"

definition getAdvancedCustomIncomingPathOptions :: "jsval \<Rightarrow> (jstr \<times> jstr) list" where
  "getAdvancedCustomIncomingPathOptions converter =
     filter (\<lambda>option. isConverterPathAllowed (fst option) converter) ADVANCED_CUSTOM_INCOMING_PATH_OPTIONS"

definition getDefaultAdvancedCustomIncomingPath :: "jsval \<Rightarrow> jstr" where
  "getDefaultAdvancedCustomIncomingPath converter =
     (case getAdvancedCustomIncomingPathOptions converter of
        (v, _) # _ \<Rightarrow> if v \<noteq> [] then v else lit ''/v1/chat/completions''
      | [] \<Rightarrow> lit ''/v1/chat/completions'')"

definition isAdvancedCustomIncomingPathAllowed :: "jsval \<Rightarrow> jsval \<Rightarrow> bool" where
  "isAdvancedCustomIncomingPathAllowed incomingPath converter =
     (\<exists>option\<in>set (getAdvancedCustomIncomingPathOptions converter). JStr (fst option) = incomingPath)"

definition getAdvancedCustomIncomingPathLabel :: "jstr \<Rightarrow> jstr" where
  "getAdvancedCustomIncomingPathLabel value =
     (case find (\<lambda>option. fst option = value) ADVANCED_CUSTOM_INCOMING_PATH_OPTIONS of
        Some (_, label) \<Rightarrow> if label \<noteq> [] then label else value
      | None \<Rightarrow> value)"

section \<open>Normalisation and texts\<close>

definition getAdvancedCustomRouteUpstreamPath :: "jsval \<Rightarrow> jstr option" where
  "getAdvancedCustomRouteUpstreamPath route =
     do { p \<leftarrow> get_prop (lit ''upstream_path'') route; call_trim (js_or p (JStr [])) }"

definition normalizeAuth :: "jsval \<Rightarrow> jsval" where
  "normalizeAuth auth =
     authObj (prop_get (lit ''type'') auth) (js_or (prop_get (lit ''name'') auth) (JStr []))
       (js_or (prop_get (lit ''value'') auth) (JStr []))"

definition normalizeAdvancedCustomRoute :: "jsval \<Rightarrow> jsval option" where
  "normalizeAdvancedCustomRoute route =
     do {
       ip \<leftarrow> get_prop (lit ''incoming_path'') route;
       up \<leftarrow> getAdvancedCustomRouteUpstreamPath route;
       conv \<leftarrow> get_prop (lit ''converter'') route;
       auth \<leftarrow> get_prop (lit ''auth'') route;
       Some (routeObj (js_or ip (JStr [])) (JStr up) (js_or conv (JStr (lit ''none'')))
         (if truthy auth then [(lit ''auth'', normalizeAuth auth)] else []))
     }"

definition normalizeAdvancedCustomConfig :: "jsval \<Rightarrow> jsval option" where
  "normalizeAdvancedCustomConfig config =
     do {
       rs \<leftarrow> get_prop (lit ''advanced_routes'') config;
       routes \<leftarrow> (case rs of JArr xs \<Rightarrow> those (map normalizeAdvancedCustomRoute xs) | _ \<Rightarrow> Some []);
       Some (configObj routes)
     }"

text \<open>Everything a thrown error ends in is caught: the result is \<open>null\<close> (\<open>None\<close>).\<close>

definition parseAdvancedCustomConfig :: "jstr option \<Rightarrow> jsval option" where
  "parseAdvancedCustomConfig value =
     (case value of
        None \<Rightarrow> None
      | Some s \<Rightarrow>
          if trim s = [] then None
          else case json_parse s of
            Some (JObj o') \<Rightarrow> normalizeAdvancedCustomConfig (JObj o')
          | _ \<Rightarrow> None)"

definition stringifyAdvancedCustomConfig :: "jsval \<Rightarrow> jstr option" where
  "stringifyAdvancedCustomConfig config = map_option (json_stringify 2) (normalizeAdvancedCustomConfig config)"

section \<open>Validation\<close>

type_synonym url_parser = "jstr \<Rightarrow> (jstr \<times> jstr) option"

definition isFullHttpURLOrAbsolutePath :: "url_parser \<Rightarrow> jstr \<Rightarrow> bool" where
  "isFullHttpURLOrAbsolutePath parseURL value =
     (if starts_with (lit ''/'') value then \<not> starts_with (lit ''//'') value
      else case parseURL value of
        None \<Rightarrow> False
      | Some (protocol, host) \<Rightarrow> host \<noteq> [] \<and> (protocol = lit ''http:'' \<or> protocol = lit ''https:''))"

definition isAdvancedCustomConverter :: "jsval \<Rightarrow> bool" where
  "isAdvancedCustomConverter value =
     (\<exists>option\<in>set ADVANCED_CUSTOM_CONVERTER_OPTIONS. JStr (fst option) = value)"

text \<open>The inner option is the error message; the outer one is \<open>None\<close> when the check throws.\<close>

definition validateRouteAuth :: "jsval \<Rightarrow> jstr option option" where
  "validateRouteAuth auth =
     (if \<not> truthy auth then Some None
      else let ty = prop_get (lit ''type'') auth
           in if ty = JStr (lit ''none'') then Some None
              else if ty \<noteq> JStr (lit ''header'') \<and> ty \<noteq> JStr (lit ''query'')
              then Some (Some (lit ''Auth type is invalid''))
              else do {
                name \<leftarrow> opt_trim (prop_get (lit ''name'') auth);
                if name = [] then Some (Some (lit ''Auth name is required''))
                else do {
                  value \<leftarrow> opt_trim (prop_get (lit ''value'') auth);
                  if value = [] then Some (Some (lit ''Auth value is required'')) else Some None
                }
              })"

text \<open>One turn of the loop: the message of a rejected route, or the incoming path to remember.\<close>

definition validateRoute :: "url_parser \<Rightarrow> jstr list \<Rightarrow> jsval \<Rightarrow> (jstr + jstr) option" where
  "validateRoute parseURL seenPaths route =
     do {
       ip \<leftarrow> get_prop (lit ''incoming_path'') route;
       incomingPath \<leftarrow> opt_trim ip;
       upstreamPath \<leftarrow> getAdvancedCustomRouteUpstreamPath route;
       conv \<leftarrow> get_prop (lit ''converter'') route;
       auth \<leftarrow> get_prop (lit ''auth'') route;
       (let converter = js_or conv (JStr (lit ''none'')) in
        if incomingPath = [] then Some (Inl (lit ''Incoming path is required''))
        else if \<not> starts_with (lit ''/'') incomingPath then Some (Inl (lit ''Incoming path must start with /''))
        else if str_includes (lit ''?'') incomingPath then Some (Inl (lit ''Incoming path must not include query''))
        else if incomingPath \<in> set seenPaths then Some (Inl (lit ''Incoming path must be unique''))
        else if upstreamPath = [] then Some (Inl (lit ''Upstream path is required''))
        else if \<not> isFullHttpURLOrAbsolutePath parseURL upstreamPath
        then Some (Inl (lit ''Upstream path must be a full URL or a path starting with /''))
        else if \<not> isAdvancedCustomConverter converter then Some (Inl (lit ''Converter is not registered''))
        else if \<not> isConverterPathAllowed incomingPath converter
        then Some (Inl (lit ''Converter does not match incoming path''))
        else do {
          authError \<leftarrow> validateRouteAuth auth;
          case authError of Some msg \<Rightarrow> Some (Inl msg) | None \<Rightarrow> Some (Inr incomingPath)
        })
     }"

fun validateRoutes :: "url_parser \<Rightarrow> nat \<Rightarrow> jstr list \<Rightarrow> jsval list \<Rightarrow> AdvancedCustomValidationError option option" where
  "validateRoutes parseURL index seenPaths [] = Some None"
| "validateRoutes parseURL index seenPaths (route # routes) =
     do {
       r \<leftarrow> validateRoute parseURL seenPaths route;
       case r of
         Inl msg \<Rightarrow> Some (Some \<lparr>message = msg, routeIndex = Some index\<rparr>)
       | Inr incomingPath \<Rightarrow> validateRoutes parseURL (Suc index) (set_add incomingPath seenPaths) routes
     }"

definition routesOf :: "jsval \<Rightarrow> jsval list" where
  "routesOf config = (case opt_prop (lit ''advanced_routes'') config of JArr rs \<Rightarrow> rs | _ \<Rightarrow> [])"

definition validateAdvancedCustomConfig ::
    "url_parser \<Rightarrow> jsval \<Rightarrow> AdvancedCustomValidationError option option" where
  "validateAdvancedCustomConfig parseURL config =
     (if \<not> truthy config
      then Some (Some \<lparr>message = lit ''Advanced custom configuration is required'', routeIndex = None\<rparr>)
      else do {
        normalized \<leftarrow> normalizeAdvancedCustomConfig config;
        let routes = routesOf normalized
        in if length routes = 0
           then Some (Some \<lparr>message = lit ''Advanced custom configuration requires at least one route'',
                            routeIndex = None\<rparr>)
           else validateRoutes parseURL 0 [] routes
      })"

definition advancedCustomConfigUsesRelativeUpstreamPath :: "jsval \<Rightarrow> bool option" where
  "advancedCustomConfigUsesRelativeUpstreamPath config =
     (if \<not> truthy config then Some False
      else do {
        normalized \<leftarrow> normalizeAdvancedCustomConfig config;
        paths \<leftarrow> those (map getAdvancedCustomRouteUpstreamPath (routesOf normalized));
        Some (\<exists>p\<in>set paths. starts_with (lit ''/'') p)
      })"

record AdvancedCustomStats =
  routeCount :: nat
  valid :: bool

definition getAdvancedCustomStats :: "url_parser \<Rightarrow> jstr option \<Rightarrow> AdvancedCustomStats option" where
  "getAdvancedCustomStats parseURL value =
     (case parseAdvancedCustomConfig value of
        None \<Rightarrow> Some \<lparr>routeCount = 0, valid = False\<rparr>
      | Some config \<Rightarrow>
          do {
            normalized \<leftarrow> normalizeAdvancedCustomConfig config;
            err \<leftarrow> validateAdvancedCustomConfig parseURL normalized;
            Some \<lparr>routeCount = length (routesOf normalized), valid = (err = None)\<rparr>
          })"

section \<open>Authentication modes\<close>

definition getAdvancedCustomAuthMode :: "jsval \<Rightarrow> jsval option" where
  "getAdvancedCustomAuthMode route =
     do {
       auth \<leftarrow> get_prop (lit ''auth'') route;
       Some (js_or (opt_prop (lit ''type'') auth) (JStr (lit ''default'')))
     }"

definition buildAdvancedCustomAuth :: "jstr \<Rightarrow> jsval \<Rightarrow> jsval" where
  "buildAdvancedCustomAuth mode previousAuth =
     (if mode = lit ''default'' then JUndef
      else if mode = lit ''none'' then JObj [(lit ''type'', JStr (lit ''none''))]
      else if mode = lit ''header''
      then authObj (JStr (lit ''header''))
             (js_or (opt_prop (lit ''name'') previousAuth) (JStr (lit ''Authorization'')))
             (js_or (opt_prop (lit ''value'') previousAuth) (JStr (lit ''Bearer {api_key}'')))
      else authObj (JStr (lit ''query''))
             (js_or (opt_prop (lit ''name'') previousAuth) (JStr (lit ''api_key'')))
             (js_or (opt_prop (lit ''value'') previousAuth) (JStr (lit ''{api_key}''))))"

end
