(* ===== verification/Advanced_Custom_Laws.thy ===== *)
theory Advanced_Custom_Laws
  imports Advanced_Custom
begin

text \<open>
  What the advanced custom configuration guarantees: normalisation is idempotent and keeps types,
  a configuration of the declared type never throws, validation accepts exactly the configurations
  described by \<open>routesAccepted\<close> and otherwise names the first offending route, the text of a
  configuration reads back, and every template is accepted.
\<close>

section \<open>Fields\<close>

lemma routeObj_fields [simp]:
  "get_prop (lit ''incoming_path'') (routeObj ip up conv rest) = Some ip"
  "get_prop (lit ''upstream_path'') (routeObj ip up conv rest) = Some up"
  "get_prop (lit ''converter'') (routeObj ip up conv rest) = Some conv"
  "get_prop (lit ''auth'') (routeObj ip up conv rest) = Some (obj_get (lit ''auth'') rest)"
  by (simp_all add: routeObj_def obj_get_def lit_def)

lemma authObj_fields [simp]:
  "prop_get (lit ''type'') (authObj t n v) = t"
  "prop_get (lit ''name'') (authObj t n v) = n"
  "prop_get (lit ''value'') (authObj t n v) = v"
  by (simp_all add: authObj_def obj_get_def lit_def)

lemma truthy_objs [simp]: "truthy (authObj t n v)" "truthy (routeObj ip up conv rest)" "truthy (configObj rs)"
  by (simp_all add: authObj_def routeObj_def configObj_def)

lemma configObj_routes [simp]:
  "get_prop (lit ''advanced_routes'') (configObj rs) = Some (JArr rs)" "routesOf (configObj rs) = rs"
  by (simp_all add: configObj_def routesOf_def obj_get_def)

lemma obj_get_single [simp]: "obj_get k [(k, v)] = v" "obj_get k [] = JUndef"
  by (simp_all add: obj_get_def)

section \<open>Normalisation\<close>

lemma those_Some: "those xs = Some ys \<longleftrightarrow> xs = map Some ys"
proof (induction xs arbitrary: ys)
  case (Cons x xs)
  then show ?case by (cases x; cases ys) (auto split: option.splits)
qed auto

text \<open>The shape of a normalised route.\<close>

definition normalRoute :: "jsval \<Rightarrow> bool" where
  "normalRoute n =
     (\<exists>ip up conv rest. n = routeObj (js_or ip (JStr [])) (JStr (trim up)) (js_or conv (JStr (lit ''none''))) rest
        \<and> (rest = [] \<or> (\<exists>a. rest = [(lit ''auth'', normalizeAuth a)])))"

lemma normalizeRoute_normal:
  assumes "normalizeAdvancedCustomRoute r = Some n"
  shows "normalRoute n"
proof -
  obtain ip s conv auth where n: "n = routeObj (js_or ip (JStr [])) (JStr (trim s)) (js_or conv (JStr (lit ''none'')))
      (if truthy auth then [(lit ''auth'', normalizeAuth auth)] else [])"
    using assms
    by (auto simp: normalizeAdvancedCustomRoute_def getAdvancedCustomRouteUpstreamPath_def call_trim_Some
        bind_eq_Some_conv)
  show ?thesis
    unfolding normalRoute_def n
    by (rule exI [of _ ip], rule exI [of _ s], rule exI [of _ conv],
        rule exI [of _ "if truthy auth then [(lit ''auth'', normalizeAuth auth)] else []"]) auto
qed

lemma normalizeAuth_idem [simp]: "normalizeAuth (normalizeAuth a) = normalizeAuth a"
  by (simp add: normalizeAuth_def)

lemma truthy_normalizeAuth [simp]: "truthy (normalizeAuth a)"
  by (simp add: normalizeAuth_def)

lemma upstream_normal:
  "getAdvancedCustomRouteUpstreamPath (routeObj ip (JStr up) conv rest) = Some (trim up)"
  by (simp add: getAdvancedCustomRouteUpstreamPath_def js_or_def)

lemma normalizeRoute_id: "normalRoute n \<Longrightarrow> normalizeAdvancedCustomRoute n = Some n"
  by (auto simp: normalRoute_def normalizeAdvancedCustomRoute_def upstream_normal)

lemma normalizeConfig_shape:
  assumes "normalizeAdvancedCustomConfig c = Some n"
  shows "\<exists>rs. n = configObj rs \<and> (\<forall>r\<in>set rs. normalRoute r)"
proof -
  obtain v rs where v: "get_prop (lit ''advanced_routes'') c = Some v" "n = configObj rs"
      "(case v of JArr xs \<Rightarrow> those (map normalizeAdvancedCustomRoute xs) | _ \<Rightarrow> Some []) = Some rs"
    using assms by (auto simp: normalizeAdvancedCustomConfig_def bind_eq_Some_conv)
  have "\<forall>r\<in>set rs. normalRoute r"
  proof (cases v)
    case (JArr xs)
    with v(3) have m: "map normalizeAdvancedCustomRoute xs = map Some rs" by (simp add: those_Some)
    show ?thesis
    proof
      fix r
      assume "r \<in> set rs"
      then have "Some r \<in> set (map normalizeAdvancedCustomRoute xs)" unfolding m by simp
      then show "normalRoute r" by (auto dest: normalizeRoute_normal [OF sym])
    qed
  qed (use v(3) in auto)
  with v(2) show ?thesis by blast
qed

lemma normalizeConfig_id: "\<forall>r\<in>set rs. normalRoute r \<Longrightarrow> normalizeAdvancedCustomConfig (configObj rs) = Some (configObj rs)"
proof -
  assume "\<forall>r\<in>set rs. normalRoute r"
  then have "those (map normalizeAdvancedCustomRoute rs) = Some rs" by (simp add: those_Some normalizeRoute_id)
  then show ?thesis by (simp add: normalizeAdvancedCustomConfig_def)
qed

lemma normalizeConfig_idem:
  "normalizeAdvancedCustomConfig c = Some n \<Longrightarrow> normalizeAdvancedCustomConfig n = Some n"
  using normalizeConfig_shape normalizeConfig_id by blast

section \<open>What is accepted\<close>

definition routePath :: "jsval \<Rightarrow> jstr" where
  "routePath r = opt_or (opt_trim (opt_prop (lit ''incoming_path'') r)) []"

definition authAccepted :: "jsval \<Rightarrow> bool" where
  "authAccepted a =
     (a = JUndef \<or> prop_get (lit ''type'') a = JStr (lit ''none'')
      \<or> prop_get (lit ''type'') a \<in> {JStr (lit ''header''), JStr (lit ''query'')}
        \<and> (\<exists>n v. prop_get (lit ''name'') a = JStr n \<and> prop_get (lit ''value'') a = JStr v
             \<and> trim n \<noteq> [] \<and> trim v \<noteq> []))"

definition pathAccepted :: "jstr \<Rightarrow> bool" where
  "pathAccepted p = (starts_with (lit ''/'') p \<and> 63 \<notin> set p)"

definition upstreamAccepted :: "url_parser \<Rightarrow> jstr \<Rightarrow> bool" where
  "upstreamAccepted parseURL u =
     (starts_with (lit ''/'') u \<and> \<not> starts_with (lit ''//'') u
      \<or> \<not> starts_with (lit ''/'') u \<and> u \<noteq> []
        \<and> (\<exists>p h. parseURL u = Some (p, h) \<and> h \<noteq> [] \<and> p \<in> {lit ''http:'', lit ''https:''}))"

definition routeAccepted :: "url_parser \<Rightarrow> jsval \<Rightarrow> bool" where
  "routeAccepted parseURL r =
     (\<exists>ip up conv rest. r = routeObj (JStr ip) (JStr up) (JStr conv) rest
        \<and> pathAccepted (trim ip) \<and> upstreamAccepted parseURL (trim up)
        \<and> conv \<in> set typedConverters \<and> isConverterPathAllowed (trim ip) (JStr conv)
        \<and> authAccepted (obj_get (lit ''auth'') rest))"

definition routesAccepted :: "url_parser \<Rightarrow> jsval list \<Rightarrow> bool" where
  "routesAccepted parseURL rs = (list_all (routeAccepted parseURL) rs \<and> distinct (map routePath rs))"

lemma starts_with_slash: "starts_with (lit ''/'') p \<longleftrightarrow> p \<noteq> [] \<and> hd p = 47"
  by (cases p) (simp_all add: starts_with_def lit_def)

lemma str_includes_single: "str_includes [c] s \<longleftrightarrow> c \<in> set s"
  by (auto simp: str_includes_iff in_set_conv_decomp)

lemma upstreamAccepted_iff:
  "upstreamAccepted parseURL u \<longleftrightarrow> u \<noteq> [] \<and> isFullHttpURLOrAbsolutePath parseURL u"
  by (auto simp: upstreamAccepted_def isFullHttpURLOrAbsolutePath_def starts_with_slash split: option.splits)

lemma isAdvancedCustomConverter_iff: "isAdvancedCustomConverter v \<longleftrightarrow> (\<exists>c\<in>set typedConverters. v = JStr c)"
  by (auto simp: isAdvancedCustomConverter_def ADVANCED_CUSTOM_CONVERTER_OPTIONS_def typedConverters_def)

lemma opt_trim_nonempty: "opt_trim v = Some t \<Longrightarrow> t \<noteq> [] \<Longrightarrow> \<exists>s. v = JStr s \<and> t = trim s"
  by (auto simp: opt_trim_def call_trim_Some split: if_splits)

lemma opt_trim_text: "(\<exists>s. v = JStr s \<and> trim s \<noteq> []) \<longleftrightarrow> (\<exists>t. opt_trim v = Some t \<and> t \<noteq> [])"
  using opt_trim_nonempty by fastforce

lemma authAccepted_texts:
  "authAccepted a \<longleftrightarrow>
     a = JUndef \<or> prop_get (lit ''type'') a = JStr (lit ''none'')
     \<or> prop_get (lit ''type'') a \<in> {JStr (lit ''header''), JStr (lit ''query'')}
       \<and> (\<exists>t. opt_trim (prop_get (lit ''name'') a) = Some t \<and> t \<noteq> [])
       \<and> (\<exists>t. opt_trim (prop_get (lit ''value'') a) = Some t \<and> t \<noteq> [])"
  unfolding authAccepted_def opt_trim_text [symmetric] by blast

lemma validateRouteAuth_iff:
  "validateRouteAuth a = Some None \<longleftrightarrow> \<not> truthy a \<or> (a \<noteq> JUndef \<and> authAccepted a)"
proof (cases "truthy a")
  case True
  then have "a \<noteq> JUndef" by auto
  then show ?thesis
    unfolding authAccepted_texts validateRouteAuth_def Let_def
    using True
    by (cases "opt_trim (prop_get (lit ''name'') a)"; cases "opt_trim (prop_get (lit ''value'') a)") simp_all
qed (simp add: validateRouteAuth_def)

lemma validateRouteAuth_rest:
  "rest = [] \<or> (\<exists>a. rest = [(lit ''auth'', normalizeAuth a)]) \<Longrightarrow>
   validateRouteAuth (obj_get (lit ''auth'') rest) = Some None \<longleftrightarrow> authAccepted (obj_get (lit ''auth'') rest)"
proof -
  assume "rest = [] \<or> (\<exists>a. rest = [(lit ''auth'', normalizeAuth a)])"
  moreover have "normalizeAuth a \<noteq> JUndef" for a by (simp add: normalizeAuth_def authObj_def)
  ultimately show ?thesis by (auto simp: validateRouteAuth_iff authAccepted_def)
qed

lemma routeObj_inject [simp]:
  "routeObj a b c d = routeObj a' b' c' d' \<longleftrightarrow> a = a' \<and> b = b' \<and> c = c' \<and> d = d'"
  by (simp add: routeObj_def)

lemma routePath_obj [simp]: "routePath (routeObj ip up conv rest) = opt_or (opt_trim ip) []"
  by (simp add: routePath_def routeObj_def obj_get_def)

lemma pathAccepted_iff:
  "pathAccepted p \<longleftrightarrow> p \<noteq> [] \<and> starts_with (lit ''/'') p \<and> \<not> str_includes (lit ''?'') p"
  by (auto simp: pathAccepted_def str_includes_single lit_def starts_with_def)

text \<open>One turn of the loop, without its error messages.\<close>

lemma validateRoute_step:
  assumes rest: "rest = [] \<or> (\<exists>a. rest = [(lit ''auth'', normalizeAuth a)])" and conv: "truthy conv"
  shows "validateRoute parseURL seen (routeObj ip (JStr up) conv rest) = Some (Inr p) \<longleftrightarrow>
     opt_trim ip = Some p \<and> pathAccepted p \<and> p \<notin> set seen \<and> upstreamAccepted parseURL (trim up)
     \<and> isAdvancedCustomConverter conv \<and> isConverterPathAllowed p conv \<and> authAccepted (obj_get (lit ''auth'') rest)"
proof (cases "opt_trim ip")
  case None
  then show ?thesis by (simp add: validateRoute_def)
next
  case (Some t)
  have c: "js_or conv d = conv" for d using conv by (simp add: js_or_def)
  show ?thesis
    unfolding validateRouteAuth_rest [OF rest, symmetric] upstreamAccepted_iff pathAccepted_iff
    using Some
    by (cases "validateRouteAuth (obj_get (lit ''auth'') rest)";
        cases "the (validateRouteAuth (obj_get (lit ''auth'') rest))")
      (auto simp: validateRoute_def upstream_normal c)
qed

lemma routeAccepted_obj:
  "routeAccepted parseURL (routeObj ip (JStr up) conv rest) \<longleftrightarrow>
     (\<exists>s. ip = JStr s \<and> pathAccepted (trim s) \<and> isConverterPathAllowed (trim s) conv)
     \<and> upstreamAccepted parseURL (trim up) \<and> isAdvancedCustomConverter conv
     \<and> authAccepted (obj_get (lit ''auth'') rest)"
  unfolding routeAccepted_def isAdvancedCustomConverter_iff routeObj_inject by auto

lemma validateRoute_accepts:
  assumes "normalRoute r"
  shows "validateRoute parseURL seen r = Some (Inr p) \<longleftrightarrow>
     routeAccepted parseURL r \<and> p = routePath r \<and> p \<notin> set seen"
proof -
  obtain ip up c rest where r: "r = routeObj ip (JStr up) c rest" and c: "truthy c"
      and rest: "rest = [] \<or> (\<exists>a. rest = [(lit ''auth'', normalizeAuth a)])"
  proof -
    have "truthy (js_or v (JStr (lit ''none'')))" for v by (simp add: js_or_def lit_def)
    with assms that show thesis unfolding normalRoute_def by blast
  qed
  have ip: "opt_trim ip = Some p \<and> pathAccepted p \<longleftrightarrow> (\<exists>s. ip = JStr s \<and> p = trim s \<and> pathAccepted p)"
    using opt_trim_nonempty [of ip p] by (auto simp: pathAccepted_iff)
  show ?thesis
  proof (cases "\<exists>s. ip = JStr s")
    case True
    then obtain s where s: "ip = JStr s" ..
    show ?thesis
      unfolding r validateRoute_step [OF rest c] routeAccepted_obj by (auto simp: s)
  next
    case False
    then show ?thesis
      unfolding r validateRoute_step [OF rest c] routeAccepted_obj using ip by blast
  qed
qed

lemma validateRoutes_accepts:
  assumes "\<forall>r\<in>set rs. normalRoute r"
  shows "validateRoutes parseURL i seen rs = Some None \<longleftrightarrow>
     routesAccepted parseURL rs \<and> set (map routePath rs) \<inter> set seen = {}"
  using assms
proof (induction rs arbitrary: i seen)
  case (Cons r rs)
  note step = validateRoute_accepts [of r parseURL seen]
  show ?case
  proof (cases "\<exists>p. validateRoute parseURL seen r = Some (Inr p)")
    case True
    then obtain p where v: "validateRoute parseURL seen r = Some (Inr p)" by blast
    then have p: "routeAccepted parseURL r" "p = routePath r" "p \<notin> set seen" using step Cons.prems by auto
    have "validateRoutes parseURL i seen (r # rs) = Some None \<longleftrightarrow>
        routesAccepted parseURL rs \<and> set (map routePath rs) \<inter> set (set_add p seen) = {}"
      using v Cons by simp
    then show ?thesis using p by (auto simp: routesAccepted_def)
  next
    case False
    then have "\<not> (routeAccepted parseURL r \<and> routePath r \<notin> set seen)" using step Cons.prems by auto
    moreover have "validateRoutes parseURL i seen (r # rs) \<noteq> Some None"
      using False by (auto simp: bind_eq_Some_conv split: sum.splits)
    ultimately show ?thesis by (auto simp: routesAccepted_def)
  qed
qed (simp add: routesAccepted_def)

text \<open>An error of the loop names the first route that spoils the list.\<close>

lemma validateRoutes_error:
  assumes "\<forall>r\<in>set rs. normalRoute r" "validateRoutes parseURL i seen rs = Some (Some e)"
  shows "\<exists>k<length rs. routeIndex e = Some (i + k)
    \<and> validateRoutes parseURL i seen (take k rs) = Some None
    \<and> validateRoutes parseURL i seen (take (Suc k) rs) \<noteq> Some None"
  using assms
proof (induction rs arbitrary: i seen)
  case (Cons r rs)
  then obtain v where v: "validateRoute parseURL seen r = Some v" by (auto simp: bind_eq_Some_conv)
  show ?case
  proof (cases v)
    case (Inl msg)
    with v Cons.prems show ?thesis by auto
  next
    case (Inr p)
    with v Cons.prems have "validateRoutes parseURL (Suc i) (set_add p seen) rs = Some (Some e)" by simp
    then obtain k where "k < length rs" "routeIndex e = Some (Suc i + k)"
        "validateRoutes parseURL (Suc i) (set_add p seen) (take k rs) = Some None"
        "validateRoutes parseURL (Suc i) (set_add p seen) (take (Suc k) rs) \<noteq> Some None"
      using Cons.IH [of "Suc i" "set_add p seen"] Cons.prems by auto
    then show ?thesis using v Inr by (intro exI [of _ "Suc k"]) simp
  qed
qed simp

lemma validateConfig_routes:
  assumes "normalizeAdvancedCustomConfig config = Some (configObj rs)"
  shows "validateAdvancedCustomConfig parseURL config =
    (if \<not> truthy config then Some (Some \<lparr>message = lit ''Advanced custom configuration is required'', routeIndex = None\<rparr>)
     else if rs = [] then Some (Some \<lparr>message = lit ''Advanced custom configuration requires at least one route'',
                            routeIndex = None\<rparr>)
     else validateRoutes parseURL 0 [] rs)"
  using assms by (simp add: validateAdvancedCustomConfig_def)

lemma falsy_no_routes:
  "\<not> truthy config \<Longrightarrow> normalizeAdvancedCustomConfig config = Some (configObj rs) \<Longrightarrow> rs = []"
  by (cases config) (auto simp: normalizeAdvancedCustomConfig_def get_prop_def nullish_def configObj_def)

text \<open>
  C16. Validation of an advanced custom configuration is exact.  It accepts exactly when there is a
  route, no two routes have the same incoming path, and every route has an incoming path that
  starts with a slash and has no query, an upstream path or an http(s) URL with a host, a registered
  converter that fits the path, and no, open, or completely filled-in authentication.  When it reports a
  route, that is the first one at which the list stops being acceptable.
\<close>

theorem validate_exact:
  assumes "normalizeAdvancedCustomConfig config = Some (configObj rs)"
  shows "(validateAdvancedCustomConfig parseURL config = Some None \<longleftrightarrow> rs \<noteq> [] \<and> routesAccepted parseURL rs)
    \<and> (\<forall>e. validateAdvancedCustomConfig parseURL config = Some (Some e) \<longrightarrow>
          (case routeIndex e of
             None \<Rightarrow> rs = []
           | Some i \<Rightarrow> i < length rs \<and> routesAccepted parseURL (take i rs) \<and> \<not> routesAccepted parseURL (take (Suc i) rs)))"
proof -
  have n: "\<forall>r\<in>set rs. normalRoute r"
    using normalizeConfig_shape [OF assms] by (auto simp: configObj_def)
  then have nt: "\<forall>r\<in>set (take k rs). normalRoute r" for k by (meson in_set_takeD)
  note v = validateConfig_routes [OF assms, of parseURL]
  have "validateAdvancedCustomConfig parseURL config = Some None \<longleftrightarrow> rs \<noteq> [] \<and> routesAccepted parseURL rs"
    using falsy_no_routes [OF _ assms] validateRoutes_accepts [OF n, of parseURL 0 "[]"] by (auto simp: v)
  moreover have "case routeIndex e of None \<Rightarrow> rs = []
      | Some i \<Rightarrow> i < length rs \<and> routesAccepted parseURL (take i rs) \<and> \<not> routesAccepted parseURL (take (Suc i) rs)"
    if e: "validateAdvancedCustomConfig parseURL config = Some (Some e)" for e
  proof (cases "truthy config \<and> rs \<noteq> []")
    case True
    then have "validateRoutes parseURL 0 [] rs = Some (Some e)" using e by (simp add: v)
    from validateRoutes_error [OF n this] show ?thesis by (auto simp: validateRoutes_accepts [OF nt])
  next
    case False
    then show ?thesis using e falsy_no_routes [OF _ assms] by (auto simp: v split: if_splits)
  qed
  ultimately show ?thesis by blast
qed

text \<open>A URL parser for the examples: https addresses only.\<close>

definition sampleURL :: url_parser where
  "sampleURL s = (if starts_with (lit ''https://'') s then Some (lit ''https:'', drop 8 s) else None)"

definition sampleRoutes :: "jsval list" where
  "sampleRoutes = [createAdvancedCustomRoute,
     routeObj (JStr (lit ''/v1/messages'')) (JStr (lit ''https://api.example.com/v1''))
       (JStr (lit ''anthropic_messages_to_openai_chat_completions'')) []]"

theorem validate_exact_witness:
  "routesAccepted sampleURL sampleRoutes
   \<and> \<not> routesAccepted sampleURL (sampleRoutes @ [createAdvancedCustomRoute])"
proof
  have "normalizeAdvancedCustomConfig (configObj sampleRoutes) = Some (configObj sampleRoutes)" by code_simp
  moreover have "validateAdvancedCustomConfig sampleURL (configObj sampleRoutes) = Some None" by code_simp
  ultimately show "routesAccepted sampleURL sampleRoutes" using validate_exact by blast
  have "normalizeAdvancedCustomConfig (configObj (sampleRoutes @ [createAdvancedCustomRoute]))
      = Some (configObj (sampleRoutes @ [createAdvancedCustomRoute]))" by code_simp
  moreover have "validateAdvancedCustomConfig sampleURL (configObj (sampleRoutes @ [createAdvancedCustomRoute])) \<noteq> Some None"
    by code_simp
  ultimately show "\<not> routesAccepted sampleURL (sampleRoutes @ [createAdvancedCustomRoute])"
    using validate_exact by blast
qed

section \<open>Typed configurations never throw\<close>

lemma optString_cases: "optString v \<Longrightarrow> (v = JUndef \<Longrightarrow> P) \<Longrightarrow> (\<And>s. v = JStr s \<Longrightarrow> P) \<Longrightarrow> P"
  by (auto simp: optString_def str_value_def split: jsval.splits)

lemma optString_or: "optString v \<Longrightarrow> \<exists>s. js_or v (JStr d) = JStr s"
  by (erule optString_cases) (auto simp: js_or_def)

lemma optString_JStr [simp]: "optString (JStr s)"
  by (simp add: optString_def str_value_def)

lemma typed_normalizeAuth: "typedRouteAuth a \<Longrightarrow> typedRouteAuth (normalizeAuth a)"
proof -
  assume t: "typedRouteAuth a"
  then obtain o' where a: "a = JObj o'" by (auto simp: typedRouteAuth_def split: jsval.splits)
  obtain n where "js_or (obj_get (lit ''name'') o') (JStr []) = JStr n"
    using t optString_or [of "obj_get (lit ''name'') o'" "[]"] by (auto simp: typedRouteAuth_def a)
  moreover obtain v where "js_or (obj_get (lit ''value'') o') (JStr []) = JStr v"
    using t optString_or [of "obj_get (lit ''value'') o'" "[]"] by (auto simp: typedRouteAuth_def a)
  moreover have "obj_get (lit ''type'') [(lit ''type'', x), (lit ''name'', y), (lit ''value'', z)] = x"
      "obj_get (lit ''name'') [(lit ''type'', x), (lit ''name'', y), (lit ''value'', z)] = y"
      "obj_get (lit ''value'') [(lit ''type'', x), (lit ''name'', y), (lit ''value'', z)] = z" for x y z
    by (simp_all add: obj_get_def lit_def)
  ultimately show ?thesis using t by (simp add: normalizeAuth_def authObj_def typedRouteAuth_def a)
qed

lemma typed_routeObj:
  "typedRoute (routeObj ip up conv rest) \<longleftrightarrow>
     optString ip \<and> optString up \<and> conv \<in> set (JUndef # map JStr typedConverters)
     \<and> (obj_get (lit ''auth'') rest = JUndef \<or> typedRouteAuth (obj_get (lit ''auth'') rest))"
  using routeObj_fields [of ip up conv rest] by (simp add: typedRoute_def routeObj_def)

lemma typed_normalizeRoute:
  assumes "typedRoute r"
  shows "\<exists>ip up conv rest. normalizeAdvancedCustomRoute r = Some (routeObj (JStr ip) (JStr up) (JStr conv) rest)
    \<and> typedRoute (routeObj (JStr ip) (JStr up) (JStr conv) rest)"
proof -
  obtain o' where r: "r = JObj o'" using assms by (auto simp: typedRoute_def split: jsval.splits)
  note t = assms [unfolded r typedRoute_def jsval.case]
  obtain ip where ip: "js_or (obj_get (lit ''incoming_path'') o') (JStr []) = JStr ip"
    using t optString_or by blast
  obtain up where up: "js_or (obj_get (lit ''upstream_path'') o') (JStr []) = JStr up"
    using t optString_or by blast
  obtain conv where conv: "js_or (obj_get (lit ''converter'') o') (JStr (lit ''none'')) = JStr conv"
      "conv \<in> set typedConverters"
    using t by (auto simp: js_or_def typedConverters_def lit_def)
  let ?auth = "obj_get (lit ''auth'') o'"
  let ?rest = "if truthy ?auth then [(lit ''auth'', normalizeAuth ?auth)] else []"
  have "normalizeAdvancedCustomRoute r = Some (routeObj (JStr ip) (JStr (trim up)) (JStr conv) ?rest)"
    by (simp add: normalizeAdvancedCustomRoute_def getAdvancedCustomRouteUpstreamPath_def r ip up conv)
  moreover have "typedRoute (routeObj (JStr ip) (JStr (trim up)) (JStr conv) ?rest)"
    using t conv(2) typed_normalizeAuth by (auto simp: typed_routeObj)
  ultimately show ?thesis by blast
qed

lemma typed_validateRouteAuth:
  assumes "a = JUndef \<or> typedRouteAuth a"
  shows "\<exists>e. validateRouteAuth a = Some e"
proof (cases "a = JUndef")
  case False
  then obtain o' where a: "a = JObj o'" "optString (obj_get (lit ''name'') o')" "optString (obj_get (lit ''value'') o')"
    using assms by (auto simp: typedRouteAuth_def split: jsval.splits)
  have "\<exists>t. opt_trim v = Some t" if "optString v" for v
    using that by (rule optString_cases) (auto simp: opt_trim_def nullish_def)
  with a obtain n v where "opt_trim (obj_get (lit ''name'') o') = Some n" "opt_trim (obj_get (lit ''value'') o') = Some v"
    by blast
  then show ?thesis by (simp add: validateRouteAuth_def a(1) Let_def)
qed (simp add: validateRouteAuth_def)

lemma typed_validateRoute:
  assumes "typedRoute (routeObj (JStr ip) (JStr up) (JStr conv) rest)"
  shows "\<exists>v. validateRoute parseURL seen (routeObj (JStr ip) (JStr up) (JStr conv) rest) = Some v"
proof -
  obtain e where "validateRouteAuth (obj_get (lit ''auth'') rest) = Some e"
    using assms typed_validateRouteAuth by (auto simp: typed_routeObj)
  then show ?thesis by (cases e) (simp_all add: validateRoute_def upstream_normal Let_def)
qed

lemma typed_validateRoutes:
  assumes "\<forall>r\<in>set rs. typedRoute r \<and> (\<exists>ip up conv rest. r = routeObj (JStr ip) (JStr up) (JStr conv) rest)"
  shows "\<exists>v. validateRoutes parseURL i seen rs = Some v"
  using assms
proof (induction rs arbitrary: i seen)
  case (Cons r rs)
  then obtain v where v: "validateRoute parseURL seen r = Some v" using typed_validateRoute by fastforce
  show ?case
  proof (cases v)
    case (Inr p)
    with v Cons show ?thesis by simp
  qed (use v in simp)
qed simp

lemma typed_normalizeConfig:
  assumes "typedConfig c"
  shows "\<exists>rs. normalizeAdvancedCustomConfig c = Some (configObj rs) \<and> typedConfig (configObj rs)
    \<and> (\<forall>r\<in>set rs. typedRoute r \<and> (\<exists>ip up conv rest. r = routeObj (JStr ip) (JStr up) (JStr conv) rest))"
proof -
  obtain o' where c: "c = JObj o'" using assms by (auto simp: typedConfig_def split: jsval.splits)
  have tc: "typedConfig (configObj rs) \<longleftrightarrow> (\<forall>r\<in>set rs. typedRoute r)" for rs
    by (simp add: typedConfig_def configObj_def)
  show ?thesis
  proof (cases "obj_get (lit ''advanced_routes'') o'")
    case (JArr xs)
    let ?f = "\<lambda>r. the (normalizeAdvancedCustomRoute r)"
    have x: "normalizeAdvancedCustomRoute r = Some (?f r) \<and> typedRoute (?f r)
        \<and> (\<exists>ip up conv rest. ?f r = routeObj (JStr ip) (JStr up) (JStr conv) rest)" if "r \<in> set xs" for r
      using typed_normalizeRoute [of r] assms that by (auto simp: typedConfig_def c JArr)
    then have "those (map normalizeAdvancedCustomRoute xs) = Some (map ?f xs)" by (simp add: those_Some)
    then have "normalizeAdvancedCustomConfig c = Some (configObj (map ?f xs))"
      by (simp add: normalizeAdvancedCustomConfig_def c JArr)
    with x show ?thesis by (intro exI [of _ "map ?f xs"]) (simp add: tc)
  next
    case JUndef
    then have "normalizeAdvancedCustomConfig c = Some (configObj [])"
      by (simp add: normalizeAdvancedCustomConfig_def c)
    then show ?thesis by (intro exI [of _ "[]"]) (simp add: tc)
  qed (use assms in \<open>simp_all add: typedConfig_def c\<close>)
qed

text \<open>
  C17. A configuration of the declared type never throws: it has a normal form of the same type,
  validation returns a verdict, it has a text, and the summary shown for a text that holds it is
  computed, with a count that is the number of its routes and a verdict that is the one of validation.
\<close>

theorem typed_config_total:
  assumes "typedConfig c"
  shows "\<exists>n. normalizeAdvancedCustomConfig c = Some n \<and> typedConfig n \<and> stringifyAdvancedCustomConfig c \<noteq> None
    \<and> (\<exists>v. validateAdvancedCustomConfig parseURL c = Some v
         \<and> (\<forall>s. json_parse s = Some c \<longrightarrow>
              getAdvancedCustomStats parseURL (Some s) = Some \<lparr>routeCount = length (routesOf n), valid = (v = None)\<rparr>))"
proof -
  obtain rs where rs: "normalizeAdvancedCustomConfig c = Some (configObj rs)" "typedConfig (configObj rs)"
      "\<forall>r\<in>set rs. typedRoute r \<and> (\<exists>ip up conv rest. r = routeObj (JStr ip) (JStr up) (JStr conv) rest)"
    using typed_normalizeConfig [OF assms] by blast
  obtain v where v: "validateRoutes parseURL 0 [] rs = Some v" using typed_validateRoutes [OF rs(3)] by blast
  obtain o' where c: "c = JObj o'" using assms by (auto simp: typedConfig_def split: jsval.splits)
  note idem = normalizeConfig_idem [OF rs(1)]
  have same: "validateAdvancedCustomConfig parseURL (configObj rs) = validateAdvancedCustomConfig parseURL c"
  proof -
    have "truthy c" by (simp add: c)
    then show ?thesis by (simp add: validateConfig_routes [OF rs(1)] validateConfig_routes [OF idem])
  qed
  have "\<exists>w. validateAdvancedCustomConfig parseURL c = Some w"
    using v by (simp add: validateConfig_routes [OF rs(1)])
  then obtain w where w: "validateAdvancedCustomConfig parseURL c = Some w" ..
  have "getAdvancedCustomStats parseURL (Some s) = Some \<lparr>routeCount = length rs, valid = (w = None)\<rparr>"
    if s: "json_parse s = Some c" for s
  proof -
    have "trim s \<noteq> []" using json_parse_not_blank [OF s] .
    then have "parseAdvancedCustomConfig (Some s) = Some (configObj rs)"
      using s rs(1) by (simp add: parseAdvancedCustomConfig_def c)
    then show ?thesis using idem same w by (simp add: getAdvancedCustomStats_def)
  qed
  with rs w show ?thesis by (auto simp: stringifyAdvancedCustomConfig_def)
qed

definition sampleConfigText :: jstr where
  "sampleConfigText = opt_or (stringifyAdvancedCustomConfig (configObj sampleRoutes)) []"

theorem typed_config_total_witness:
  "getAdvancedCustomStats sampleURL (Some sampleConfigText) = Some \<lparr>routeCount = 2, valid = True\<rparr>"
proof -
  have "typedConfig (configObj sampleRoutes)" by code_simp
  from typed_config_total [OF this, of sampleURL]
  obtain n v where n: "normalizeAdvancedCustomConfig (configObj sampleRoutes) = Some n"
      "validateAdvancedCustomConfig sampleURL (configObj sampleRoutes) = Some v"
      "\<forall>s. json_parse s = Some (configObj sampleRoutes) \<longrightarrow>
         getAdvancedCustomStats sampleURL (Some s) = Some \<lparr>routeCount = length (routesOf n), valid = (v = None)\<rparr>"
    by blast
  have "normalizeAdvancedCustomConfig (configObj sampleRoutes) = Some (configObj sampleRoutes)" by code_simp
  with n(1) have "length (routesOf n) = 2" by (simp add: sampleRoutes_def)
  moreover have "validateAdvancedCustomConfig sampleURL (configObj sampleRoutes) = Some None" by code_simp
  moreover have "json_parse sampleConfigText = Some (configObj sampleRoutes)" by code_simp
  ultimately show ?thesis using n by simp
qed

text \<open>
  A text whose route has a number for its incoming path is accepted by the parser, and the summary
  computed from it throws: the drawer that shows it fails to render.
\<close>

lemma stats_throws:
  "\<exists>s. (\<exists>c. parseAdvancedCustomConfig (Some s) = Some c) \<and> getAdvancedCustomStats parseURL (Some s) = None"
proof -
  let ?c = "configObj [JObj [(lit ''incoming_path'', JNum (Fin 5))]]"
  let ?s = "json_stringify 0 ?c"
  let ?n = "configObj [routeObj (JNum (Fin 5)) (JStr []) (JStr (lit ''none'')) []]"
  have "json_parse ?s = Some ?c" by code_simp
  moreover have n: "normalizeAdvancedCustomConfig ?c = Some ?n" by code_simp
  ultimately have p: "parseAdvancedCustomConfig (Some ?s) = Some ?n"
    using json_parse_not_blank by (auto simp: parseAdvancedCustomConfig_def configObj_def)
  have "validateRoutes parseURL 0 [] [routeObj (JNum (Fin 5)) (JStr []) (JStr (lit ''none'')) []] = None"
    by (simp add: validateRoute_def opt_trim_def nullish_def call_trim_def)
  then have "getAdvancedCustomStats parseURL (Some ?s) = None"
    by (simp add: getAdvancedCustomStats_def p normalizeConfig_idem [OF n]
        validateConfig_routes [OF normalizeConfig_idem [OF n]])
  with p show ?thesis by blast
qed

section \<open>Texts\<close>

lemma stringify_parse:
  assumes "normalizeAdvancedCustomConfig c = Some n" "json_plain n"
  shows "stringifyAdvancedCustomConfig c = Some (json_stringify 2 n)"
    "parseAdvancedCustomConfig (Some (json_stringify 2 n)) = Some n"
proof -
  show "stringifyAdvancedCustomConfig c = Some (json_stringify 2 n)"
    using assms(1) by (simp add: stringifyAdvancedCustomConfig_def)
  obtain rs where n: "n = configObj rs" using normalizeConfig_shape [OF assms(1)] by blast
  have p: "json_parse (json_stringify 2 n) = Some n" using assms(2) by (rule json_roundtrip)
  then show "parseAdvancedCustomConfig (Some (json_stringify 2 n)) = Some n"
    using json_parse_not_blank [OF p] normalizeConfig_idem [OF assms(1)]
    by (simp add: parseAdvancedCustomConfig_def n configObj_def)
qed

text \<open>
  C18. The text of a configuration reads back as its normal form, and the normal form is a fixed point:
  it has the same text, is its own copy, and gets the same verdict from validation as the
  configuration it came from.
\<close>

theorem config_text_roundtrip:
  assumes "normalizeAdvancedCustomConfig c = Some n" "json_plain n" "truthy c"
  shows "\<exists>s. stringifyAdvancedCustomConfig c = Some s \<and> parseAdvancedCustomConfig (Some s) = Some n
    \<and> stringifyAdvancedCustomConfig n = Some s \<and> cloneAdvancedCustomConfig n = Some n
    \<and> validateAdvancedCustomConfig parseURL n = validateAdvancedCustomConfig parseURL c"
proof -
  note idem = normalizeConfig_idem [OF assms(1)]
  obtain rs where n: "n = configObj rs" using normalizeConfig_shape [OF assms(1)] by blast
  have "validateAdvancedCustomConfig parseURL n = validateAdvancedCustomConfig parseURL c"
    using assms(3) validateConfig_routes [OF assms(1) [unfolded n]] validateConfig_routes [OF idem [unfolded n]]
    by (simp add: n)
  moreover have "cloneAdvancedCustomConfig n = Some n"
    unfolding cloneAdvancedCustomConfig_def using assms(2) by (rule json_roundtrip)
  ultimately show ?thesis
    using stringify_parse [OF assms(1,2)] stringify_parse(1) [OF idem assms(2)] by blast
qed

theorem config_text_roundtrip_witness:
  "\<exists>s. stringifyAdvancedCustomConfig (configObj sampleRoutes) = Some s
     \<and> parseAdvancedCustomConfig (Some s) = Some (configObj sampleRoutes)
     \<and> validateAdvancedCustomConfig sampleURL (configObj sampleRoutes) = Some None"
proof -
  have "normalizeAdvancedCustomConfig (configObj sampleRoutes) = Some (configObj sampleRoutes)" by code_simp
  moreover have "json_plain (configObj sampleRoutes)" by code_simp
  moreover have "truthy (configObj sampleRoutes)" by simp
  ultimately obtain s where "stringifyAdvancedCustomConfig (configObj sampleRoutes) = Some s"
      "parseAdvancedCustomConfig (Some s) = Some (configObj sampleRoutes)"
    using config_text_roundtrip [of "configObj sampleRoutes" "configObj sampleRoutes" sampleURL] by blast
  moreover have "validateAdvancedCustomConfig sampleURL (configObj sampleRoutes) = Some None" by code_simp
  ultimately show ?thesis by blast
qed

section \<open>Templates and defaults\<close>

lemma templates_plain: "list_all (\<lambda>(_, _, c). json_plain c) ADVANCED_CUSTOM_TEMPLATE_OPTIONS"
  by code_simp

lemma templates_accepted:
  "list_all (\<lambda>(_, _, c). validateAdvancedCustomConfig parseURL c = Some None) ADVANCED_CUSTOM_TEMPLATE_OPTIONS"
  by code_simp

lemma template_of_key:
  "\<exists>o'\<in>set ADVANCED_CUSTOM_TEMPLATE_OPTIONS. getAdvancedCustomTemplateConfig k = Some (snd (snd o'))"
proof -
  let ?o = "opt_or (find (\<lambda>option. fst option = k) ADVANCED_CUSTOM_TEMPLATE_OPTIONS)
    (ADVANCED_CUSTOM_TEMPLATE_OPTIONS ! 0)"
  have "?o \<in> set ADVANCED_CUSTOM_TEMPLATE_OPTIONS"
  proof (cases "find (\<lambda>option. fst option = k) ADVANCED_CUSTOM_TEMPLATE_OPTIONS")
    case None
    then show ?thesis by (simp add: ADVANCED_CUSTOM_TEMPLATE_OPTIONS_def)
  next
    case (Some o')
    then have "o' \<in> set ADVANCED_CUSTOM_TEMPLATE_OPTIONS" by (auto simp: find_Some_iff)
    with Some show ?thesis by simp
  qed
  moreover from this have "json_plain (snd (snd ?o))" using templates_plain by (auto simp: list_all_iff)
  ultimately show ?thesis
    by (auto simp: getAdvancedCustomTemplateConfig_def cloneAdvancedCustomConfig_def json_roundtrip)
qed

text \<open>
   Whatever is offered in the editor is acceptable: for every template key, known or not, the
  template is copied and passes validation, and for every converter the default incoming path and the
  suggested upstream path make a route that passes, whatever the URL parser does.
\<close>

theorem offers_accepted:
  "(\<exists>c. getAdvancedCustomTemplateConfig k = Some c \<and> validateAdvancedCustomConfig parseURL c = Some None)
   \<and> list_all (\<lambda>conv. validateAdvancedCustomConfig parseURL (configObj
        [routeObj (JStr (getDefaultAdvancedCustomIncomingPath (JStr conv)))
           (JStr (getAdvancedCustomUpstreamPathPlaceholder (JStr conv))) (JStr conv) []]) = Some None
        \<and> isAdvancedCustomIncomingPathAllowed (JStr (getDefaultAdvancedCustomIncomingPath (JStr conv))) (JStr conv))
      (map fst ADVANCED_CUSTOM_CONVERTER_OPTIONS)"
proof
  obtain o' where "o' \<in> set ADVANCED_CUSTOM_TEMPLATE_OPTIONS" "getAdvancedCustomTemplateConfig k = Some (snd (snd o'))"
    using template_of_key by blast
  then show "\<exists>c. getAdvancedCustomTemplateConfig k = Some c \<and> validateAdvancedCustomConfig parseURL c = Some None"
    using templates_accepted [of parseURL] by (auto simp: list_all_iff)
  show "list_all (\<lambda>conv. validateAdvancedCustomConfig parseURL (configObj
        [routeObj (JStr (getDefaultAdvancedCustomIncomingPath (JStr conv)))
           (JStr (getAdvancedCustomUpstreamPathPlaceholder (JStr conv))) (JStr conv) []]) = Some None
        \<and> isAdvancedCustomIncomingPathAllowed (JStr (getDefaultAdvancedCustomIncomingPath (JStr conv))) (JStr conv))
      (map fst ADVANCED_CUSTOM_CONVERTER_OPTIONS)"
    by code_simp
qed

end
