(* ===== verification/Advanced_Editor.thy ===== *)
theory Advanced_Editor
  imports Advanced_Custom_Laws
begin

text \<open>
  The editor of advanced custom configurations:
  \<open>features/channels/components/dialogs/advanced-custom-editor-dialog.tsx\<close>.  Its state is the
  configuration under edit, the mode (form or JSON text), the text with its error and the chosen
  template; \<open>saved\<close> records the texts handed to \<open>onSave\<close>.  A handler that throws has no result.  The
  translation function is the argument \<open>tr\<close>.  The reachable states are those an opened editor can get
  into; the lemmas show that every text it saves holds an accepted configuration, and that the form
  mode implements editing a list of routes.
\<close>

datatype AdvancedCustomEditMode = Visual | Json

record EditorState =
  config :: jsval
  editMode :: AdvancedCustomEditMode
  jsonText :: jstr
  jsonError :: jstr
  templateKey :: jstr
  saved :: "jstr list"
  opened :: bool

definition getOptionLabel :: "(jstr \<times> jstr) list \<Rightarrow> jstr \<Rightarrow> jstr" where
  "getOptionLabel options value =
     (case find (\<lambda>option. fst option = value) options of
        Some (_, label) \<Rightarrow> if label \<noteq> [] then label else value
      | None \<Rightarrow> value)"

definition openEditor :: "jstr \<Rightarrow> EditorState option" where
  "openEditor value =
     (let c = opt_or (parseAdvancedCustomConfig (Some value)) createAdvancedCustomConfig
      in do {
        text \<leftarrow> stringifyAdvancedCustomConfig c;
        Some \<lparr>config = c, editMode = Visual, jsonText = text, jsonError = [],
              templateKey = fst (ADVANCED_CUSTOM_TEMPLATE_OPTIONS ! 0), saved = [], opened = True\<rparr>
      })"

section \<open>The rows of the form\<close>

text \<open>\<open>{...r, ...patch}\<close>.\<close>

definition spread :: "jsval \<Rightarrow> (jstr \<times> jsval) list \<Rightarrow> jsval" where
  "spread r patch =
     (case r of
        JObj o' \<Rightarrow> JObj (fold (\<lambda>(k, v). obj_put k v) patch o')
      | _ \<Rightarrow> JObj (obj_of patch))"

definition routeConverter :: "jsval \<Rightarrow> jsval" where
  "routeConverter route = js_or (opt_prop (lit ''converter'') route) (JStr (lit ''none''))"

definition shownIncomingPath :: "jsval \<Rightarrow> jsval" where
  "shownIncomingPath route =
     js_or (opt_prop (lit ''incoming_path'') route)
       (JStr (getDefaultAdvancedCustomIncomingPath (routeConverter route)))"

definition setIncomingPath :: "jsval \<Rightarrow> jstr \<Rightarrow> (jstr \<times> jsval) list" where
  "setIncomingPath route value =
     [(lit ''incoming_path'',
       JStr (if value \<noteq> [] then value else getDefaultAdvancedCustomIncomingPath (routeConverter route)))]"

definition setConverter :: "jsval \<Rightarrow> jstr \<Rightarrow> (jstr \<times> jsval) list" where
  "setConverter route nextConverter =
     (lit ''converter'', JStr nextConverter)
       # (if isAdvancedCustomIncomingPathAllowed (shownIncomingPath route) (JStr nextConverter) then []
          else [(lit ''incoming_path'', JStr (getDefaultAdvancedCustomIncomingPath (JStr nextConverter)))])"

definition setAuthMode :: "jsval \<Rightarrow> jstr \<Rightarrow> (jstr \<times> jsval) list" where
  "setAuthMode route mode =
     [(lit ''auth'', buildAdvancedCustomAuth mode (opt_prop (lit ''auth'') route))]"

text \<open>Typing into a field of the authentication: no change without one, or when it is \<open>none\<close>.\<close>

definition updateAuth :: "jsval \<Rightarrow> jstr \<Rightarrow> jstr \<Rightarrow> (jstr \<times> jsval) list" where
  "updateAuth route field value =
     (let currentAuth = opt_prop (lit ''auth'') route
      in if \<not> truthy currentAuth \<or> prop_get (lit ''type'') currentAuth = JStr (lit ''none'') then []
         else [(lit ''auth'', JObj (obj_put field (JStr value)
                [(lit ''type'', prop_get (lit ''type'') currentAuth),
                 (lit ''name'', js_or (prop_get (lit ''name'') currentAuth) (JStr [])),
                 (lit ''value'', js_or (prop_get (lit ''value'') currentAuth) (JStr []))]))])"

section \<open>Handlers\<close>

text \<open>A row exists for every route of the normalised configuration; other positions have no handler.\<close>

definition updateRoute :: "nat \<Rightarrow> (jsval \<Rightarrow> (jstr \<times> jsval) list) \<Rightarrow> EditorState \<Rightarrow> EditorState option" where
  "updateRoute index patch st =
     do {
       next \<leftarrow> normalizeAdvancedCustomConfig (config st);
       let nextRoutes = routesOf next
       in if index < length nextRoutes
          then Some (st\<lparr>config := configObj (nextRoutes[index := spread (nextRoutes ! index) (patch (nextRoutes ! index))])\<rparr>)
          else None
     }"

definition addRoute :: "EditorState \<Rightarrow> EditorState option" where
  "addRoute st =
     do {
       next \<leftarrow> normalizeAdvancedCustomConfig (config st);
       Some (st\<lparr>config := configObj (routesOf next @ [createAdvancedCustomRoute])\<rparr>)
     }"

definition removeRoute :: "nat \<Rightarrow> EditorState \<Rightarrow> EditorState option" where
  "removeRoute index st =
     do {
       next \<leftarrow> normalizeAdvancedCustomConfig (config st);
       Some (st\<lparr>config := configObj (map snd (filter (\<lambda>(i, _). i \<noteq> index) (enumerate 0 (routesOf next))))\<rparr>)
     }"

definition parseJsonEditorConfig ::
    "url_parser \<Rightarrow> (jstr \<Rightarrow> jstr) \<Rightarrow> EditorState \<Rightarrow> (jsval option \<times> EditorState) option" where
  "parseJsonEditorConfig parseURL tr st =
     (case parseAdvancedCustomConfig (Some (jsonText st)) of
        None \<Rightarrow> Some (None, st\<lparr>jsonError := tr (lit ''Invalid JSON'')\<rparr>)
      | Some parsed \<Rightarrow>
          do {
            err \<leftarrow> validateAdvancedCustomConfig parseURL parsed;
            case err of
              Some e \<Rightarrow> Some (None, st\<lparr>jsonError := tr (message e)\<rparr>)
            | None \<Rightarrow> Some (Some parsed, st\<lparr>jsonError := []\<rparr>)
          })"

definition switchToVisualMode :: "url_parser \<Rightarrow> (jstr \<Rightarrow> jstr) \<Rightarrow> EditorState \<Rightarrow> EditorState option" where
  "switchToVisualMode parseURL tr st =
     do {
       (parsed, st') \<leftarrow> parseJsonEditorConfig parseURL tr st;
       case parsed of
         None \<Rightarrow> Some st'
       | Some c \<Rightarrow> Some (st'\<lparr>config := c, editMode := Visual\<rparr>)
     }"

definition switchToJsonMode :: "EditorState \<Rightarrow> EditorState option" where
  "switchToJsonMode st =
     do {
       normalized \<leftarrow> normalizeAdvancedCustomConfig (config st);
       text \<leftarrow> stringifyAdvancedCustomConfig normalized;
       Some (st\<lparr>jsonText := text, jsonError := [], editMode := Json\<rparr>)
     }"

definition handleJsonChange :: "jstr \<Rightarrow> EditorState \<Rightarrow> EditorState" where
  "handleJsonChange nextValue st =
     (let st' = st\<lparr>jsonText := nextValue\<rparr> in if jsonError st \<noteq> [] then st'\<lparr>jsonError := []\<rparr> else st')"

definition formatJson :: "url_parser \<Rightarrow> (jstr \<Rightarrow> jstr) \<Rightarrow> EditorState \<Rightarrow> EditorState option" where
  "formatJson parseURL tr st =
     do {
       (parsed, st') \<leftarrow> parseJsonEditorConfig parseURL tr st;
       case parsed of
         None \<Rightarrow> Some st'
       | Some c \<Rightarrow> do { text \<leftarrow> stringifyAdvancedCustomConfig c; Some (st'\<lparr>jsonText := text\<rparr>) }
     }"

definition finishTemplate :: "jsval \<Rightarrow> EditorState \<Rightarrow> EditorState option" where
  "finishTemplate nextConfig st =
     do {
       normalized \<leftarrow> normalizeAdvancedCustomConfig nextConfig;
       text \<leftarrow> stringifyAdvancedCustomConfig normalized;
       Some (st\<lparr>config := normalized, jsonText := text, jsonError := []\<rparr>)
     }"

definition appendRoutes :: "jsval \<Rightarrow> jsval \<Rightarrow> jsval option" where
  "appendRoutes baseConfig templateConfig =
     do {
       base \<leftarrow> normalizeAdvancedCustomConfig baseConfig;
       template \<leftarrow> normalizeAdvancedCustomConfig templateConfig;
       Some (configObj (routesOf base @ routesOf template))
     }"

definition applyTemplate :: "url_parser \<Rightarrow> (jstr \<Rightarrow> jstr) \<Rightarrow> bool \<Rightarrow> EditorState \<Rightarrow> EditorState option" where
  "applyTemplate parseURL tr append_mode st =
     do {
       templateConfig \<leftarrow> getAdvancedCustomTemplateConfig (templateKey st);
       if \<not> append_mode then finishTemplate templateConfig st
       else do {
         (baseConfig, st') \<leftarrow>
           (case editMode st of
              Json \<Rightarrow> parseJsonEditorConfig parseURL tr st
            | Visual \<Rightarrow> do { n \<leftarrow> normalizeAdvancedCustomConfig (config st); Some (Some n, st) });
         case baseConfig of
           None \<Rightarrow> Some st'
         | Some base \<Rightarrow> do { nextConfig \<leftarrow> appendRoutes base templateConfig; finishTemplate nextConfig st' }
       }
     }"

text \<open>A refusal only shows a message, besides the error the JSON check leaves in the state.\<close>

definition saveConfig :: "url_parser \<Rightarrow> (jstr \<Rightarrow> jstr) \<Rightarrow> EditorState \<Rightarrow> EditorState option" where
  "saveConfig parseURL tr st =
     (case editMode st of
        Json \<Rightarrow>
          do {
            (parsed, st') \<leftarrow> parseJsonEditorConfig parseURL tr st;
            case parsed of
              None \<Rightarrow> Some st'
            | Some c \<Rightarrow>
                do { text \<leftarrow> stringifyAdvancedCustomConfig c;
                     Some (st'\<lparr>saved := saved st' @ [text], opened := False\<rparr>) }
          }
      | Visual \<Rightarrow>
          do {
            normalized \<leftarrow> normalizeAdvancedCustomConfig (config st);
            validationError \<leftarrow> validateAdvancedCustomConfig parseURL normalized;
            case validationError of
              Some e \<Rightarrow> Some st
            | None \<Rightarrow>
                do { text \<leftarrow> stringifyAdvancedCustomConfig normalized;
                     Some (st\<lparr>saved := saved st @ [text], opened := False\<rparr>) }
          })"

datatype EditorEvent =
    ChooseIncoming nat jstr | TypeUpstream nat jstr | ChooseConverter nat jstr | ChooseAuth nat jstr
  | TypeAuth nat jstr jstr | AddRoute | RemoveRoute nat | SwitchVisual | SwitchJson | TypeJson jstr
  | FormatJson | ChooseTemplate jstr | FillTemplate | AppendTemplate | Save | Close

fun handle :: "url_parser \<Rightarrow> (jstr \<Rightarrow> jstr) \<Rightarrow> EditorEvent \<Rightarrow> EditorState \<Rightarrow> EditorState option" where
  "handle parseURL tr (ChooseIncoming i v) st = updateRoute i (\<lambda>r. setIncomingPath r v) st"
| "handle parseURL tr (TypeUpstream i v) st = updateRoute i (\<lambda>r. [(lit ''upstream_path'', JStr v)]) st"
| "handle parseURL tr (ChooseConverter i c) st = updateRoute i (\<lambda>r. setConverter r c) st"
| "handle parseURL tr (ChooseAuth i m) st = updateRoute i (\<lambda>r. setAuthMode r m) st"
| "handle parseURL tr (TypeAuth i f v) st = updateRoute i (\<lambda>r. updateAuth r f v) st"
| "handle parseURL tr AddRoute st = addRoute st"
| "handle parseURL tr (RemoveRoute i) st = removeRoute i st"
| "handle parseURL tr SwitchVisual st = switchToVisualMode parseURL tr st"
| "handle parseURL tr SwitchJson st = switchToJsonMode st"
| "handle parseURL tr (TypeJson s) st = Some (handleJsonChange s st)"
| "handle parseURL tr FormatJson st = formatJson parseURL tr st"
| "handle parseURL tr (ChooseTemplate k) st =
     Some (st\<lparr>templateKey := if k \<noteq> [] then k else fst (ADVANCED_CUSTOM_TEMPLATE_OPTIONS ! 0)\<rparr>)"
| "handle parseURL tr FillTemplate st = applyTemplate parseURL tr False st"
| "handle parseURL tr AppendTemplate st = applyTemplate parseURL tr True st"
| "handle parseURL tr Save st = saveConfig parseURL tr st"
| "handle parseURL tr Close st = Some (st\<lparr>opened := False\<rparr>)"

inductive editor_reachable :: "url_parser \<Rightarrow> (jstr \<Rightarrow> jstr) \<Rightarrow> jstr \<Rightarrow> EditorState \<Rightarrow> bool"
  for parseURL :: url_parser and tr :: "jstr \<Rightarrow> jstr" and initial :: jstr where
  open_dialog: "openEditor initial = Some st \<Longrightarrow> editor_reachable parseURL tr initial st"
| event: "editor_reachable parseURL tr initial st \<Longrightarrow> opened st \<Longrightarrow> handle parseURL tr ev st = Some st'
     \<Longrightarrow> editor_reachable parseURL tr initial st'"

section \<open>What is saved\<close>

definition savedConfig :: "url_parser \<Rightarrow> jstr \<Rightarrow> jsval \<Rightarrow> bool" where
  "savedConfig parseURL s n =
     (s = json_stringify 2 n \<and> normalizeAdvancedCustomConfig n = Some n
      \<and> validateAdvancedCustomConfig parseURL n = Some None)"

definition editor_inv :: "url_parser \<Rightarrow> EditorState \<Rightarrow> bool" where
  "editor_inv parseURL st =
     ((\<forall>s\<in>set (saved st). \<exists>n. savedConfig parseURL s n) \<and> length (saved st) \<le> (if opened st then 0 else 1))"

text \<open>Only saving changes what is saved, and every handler but saving and closing leaves the dialog open.\<close>

lemma parseJson_keeps:
  "parseJsonEditorConfig parseURL tr st = Some (p, st') \<Longrightarrow>
   saved st' = saved st \<and> opened st' = opened st \<and> config st' = config st \<and> editMode st' = editMode st"
  by (auto simp: parseJsonEditorConfig_def bind_eq_Some_conv split: option.splits)

lemma parseJson_accepted:
  assumes "parseJsonEditorConfig parseURL tr st = Some (Some c, st')"
  shows "normalizeAdvancedCustomConfig c = Some c \<and> validateAdvancedCustomConfig parseURL c = Some None"
proof -
  have p: "parseAdvancedCustomConfig (Some (jsonText st)) = Some c" "validateAdvancedCustomConfig parseURL c = Some None"
    using assms by (auto simp: parseJsonEditorConfig_def bind_eq_Some_conv split: option.splits)
  then obtain d where "normalizeAdvancedCustomConfig d = Some c"
    by (auto simp: parseAdvancedCustomConfig_def split: if_splits option.splits jsval.splits)
  with p(2) normalizeConfig_idem show ?thesis by blast
qed

lemma finishTemplate_keeps:
  "finishTemplate c st = Some st' \<Longrightarrow> saved st' = saved st \<and> opened st' = opened st"
  by (auto simp: finishTemplate_def bind_eq_Some_conv)

lemma handle_keeps:
  assumes "handle parseURL tr ev st = Some st'" "ev \<noteq> Save" "ev \<noteq> Close"
  shows "saved st' = saved st \<and> opened st' = opened st"
proof (cases ev)
  case FillTemplate
  with assms show ?thesis by (auto simp: applyTemplate_def bind_eq_Some_conv dest!: finishTemplate_keeps)
next
  case AppendTemplate
  with assms show ?thesis
    by (auto simp: applyTemplate_def bind_eq_Some_conv dest!: finishTemplate_keeps parseJson_keeps
        split: option.splits AdvancedCustomEditMode.splits)
qed (use assms in \<open>auto simp: updateRoute_def addRoute_def removeRoute_def switchToVisualMode_def
      switchToJsonMode_def handleJsonChange_def formatJson_def Let_def bind_eq_Some_conv
      dest!: parseJson_keeps split: option.splits if_splits\<close>)

lemma saveConfig_saves:
  assumes "saveConfig parseURL tr st = Some st'"
  shows "saved st' = saved st \<and> opened st' = opened st
    \<or> (\<exists>s n. saved st' = saved st @ [s] \<and> \<not> opened st' \<and> savedConfig parseURL s n)"
proof (cases "editMode st")
  case Json
  with assms obtain p st1 where p: "parseJsonEditorConfig parseURL tr st = Some (p, st1)"
      "(case p of None \<Rightarrow> Some st1 | Some c \<Rightarrow> do { text \<leftarrow> stringifyAdvancedCustomConfig c;
           Some (st1\<lparr>saved := saved st1 @ [text], opened := False\<rparr>) }) = Some st'"
    by (auto simp: saveConfig_def bind_eq_Some_conv)
  note k = parseJson_keeps [OF p(1)]
  show ?thesis
  proof (cases p)
    case None
    with p k show ?thesis by simp
  next
    case (Some c)
    with p parseJson_accepted have "normalizeAdvancedCustomConfig c = Some c"
        "validateAdvancedCustomConfig parseURL c = Some None" by blast+
    then have "savedConfig parseURL (json_stringify 2 c) c" by (simp add: savedConfig_def)
    moreover have "saved st' = saved st @ [json_stringify 2 c]" "\<not> opened st'"
      using p Some k \<open>normalizeAdvancedCustomConfig c = Some c\<close> by (auto simp: stringifyAdvancedCustomConfig_def)
    ultimately show ?thesis by blast
  qed
next
  case Visual
  with assms obtain n e where n: "normalizeAdvancedCustomConfig (config st) = Some n"
      "validateAdvancedCustomConfig parseURL n = Some e"
      "(case e of Some _ \<Rightarrow> Some st | None \<Rightarrow> do { text \<leftarrow> stringifyAdvancedCustomConfig n;
           Some (st\<lparr>saved := saved st @ [text], opened := False\<rparr>) }) = Some st'"
    by (auto simp: saveConfig_def bind_eq_Some_conv)
  note idem = normalizeConfig_idem [OF n(1)]
  show ?thesis
  proof (cases e)
    case None
    then have "savedConfig parseURL (json_stringify 2 n) n" using n idem by (simp add: savedConfig_def)
    moreover have "saved st' = saved st @ [json_stringify 2 n]" "\<not> opened st'"
      using n None idem by (auto simp: stringifyAdvancedCustomConfig_def)
    ultimately show ?thesis by blast
  qed (use n in simp)
qed

lemma editor_inv_step:
  assumes "editor_inv parseURL st" "opened st" "handle parseURL tr ev st = Some st'"
  shows "editor_inv parseURL st'"
proof -
  have none: "saved st = []" using assms(1,2) by (simp add: editor_inv_def)
  consider "ev = Save" | "ev = Close" | "ev \<noteq> Save" "ev \<noteq> Close" by blast
  then show ?thesis
  proof cases
    case 1
    then show ?thesis using saveConfig_saves [of parseURL tr st st'] assms(2,3) none by (auto simp: editor_inv_def)
  next
    case 2
    then show ?thesis using assms none by (auto simp: editor_inv_def)
  next
    case 3
    then show ?thesis using handle_keeps [OF assms(3)] assms(2) none by (simp add: editor_inv_def)
  qed
qed

lemma editor_inv_reachable: "editor_reachable parseURL tr initial st \<Longrightarrow> editor_inv parseURL st"
proof (induction rule: editor_reachable.induct)
  case (open_dialog st)
  then show ?case by (auto simp: openEditor_def editor_inv_def Let_def bind_eq_Some_conv)
next
  case (event st ev st')
  then show ?case using editor_inv_step by blast
qed

text \<open>
  C19. Whatever the user does in the editor, at most one text is saved per opening, only as the dialog
  closes, and it is the text of a configuration in normal form that passes validation; the
  text reads back as that configuration whenever its values are strings.
\<close>

theorem editor_saves_valid:
  assumes "editor_reachable parseURL tr initial st"
  shows "length (saved st) \<le> 1 \<and> (saved st \<noteq> [] \<longrightarrow> \<not> opened st)
    \<and> (\<forall>s\<in>set (saved st). \<exists>n. s = json_stringify 2 n \<and> normalizeAdvancedCustomConfig n = Some n
         \<and> validateAdvancedCustomConfig parseURL n = Some None
         \<and> (json_plain n \<longrightarrow> parseAdvancedCustomConfig (Some s) = Some n))"
proof -
  note inv = editor_inv_reachable [OF assms, unfolded editor_inv_def]
  have "\<exists>n. s = json_stringify 2 n \<and> normalizeAdvancedCustomConfig n = Some n
      \<and> validateAdvancedCustomConfig parseURL n = Some None
      \<and> (json_plain n \<longrightarrow> parseAdvancedCustomConfig (Some s) = Some n)" if s: "s \<in> set (saved st)" for s
  proof -
    obtain n where "savedConfig parseURL s n" using inv s by blast
    then show ?thesis unfolding savedConfig_def using stringify_parse(2) by blast
  qed
  moreover have "length (saved st) \<le> 1 \<and> (saved st \<noteq> [] \<longrightarrow> \<not> opened st)"
    using inv by (cases "opened st") simp_all
  ultimately show ?thesis by blast
qed

definition sampleEditor :: EditorState where
  "sampleEditor = the (openEditor [])"

theorem editor_saves_valid_witness:
  "\<exists>st s n. editor_reachable sampleURL (\<lambda>m. m) [] st \<and> saved st = [s]
     \<and> s = json_stringify 2 n \<and> validateAdvancedCustomConfig sampleURL n = Some None"
proof -
  let ?run = "\<lambda>ev st. the (handle sampleURL (\<lambda>m. m) ev st)"
  let ?a = "?run AppendTemplate sampleEditor"
  let ?b = "?run (RemoveRoute 1) ?a"
  let ?c = "?run Save ?b"
  have "openEditor [] = Some sampleEditor" by code_simp
  then have r0: "editor_reachable sampleURL (\<lambda>m. m) [] sampleEditor" by (rule editor_reachable.open_dialog)
  have "opened sampleEditor" "handle sampleURL (\<lambda>m. m) AppendTemplate sampleEditor = Some ?a" by code_simp+
  with r0 have r1: "editor_reachable sampleURL (\<lambda>m. m) [] ?a" by (rule editor_reachable.event)
  have "opened ?a" "handle sampleURL (\<lambda>m. m) (RemoveRoute 1) ?a = Some ?b" by code_simp+
  with r1 have r2: "editor_reachable sampleURL (\<lambda>m. m) [] ?b" by (rule editor_reachable.event)
  have "opened ?b" "handle sampleURL (\<lambda>m. m) Save ?b = Some ?c" by code_simp+
  with r2 have r3: "editor_reachable sampleURL (\<lambda>m. m) [] ?c" by (rule editor_reachable.event)
  have "length (saved ?c) = 1" by code_simp
  then obtain s where s: "saved ?c = [s]" by (auto simp: length_Suc_conv)
  then obtain n where "s = json_stringify 2 n" "validateAdvancedCustomConfig sampleURL n = Some None"
    using editor_saves_valid [OF r3] by auto
  with r3 s show ?thesis by blast
qed

end
