(* ===== verification/Editor_Refinement.thy ===== *)
theory Editor_Refinement
  imports Advanced_Editor
begin

text \<open>
  The form mode of the route editor implements editing a list of routes.  The abstract state is a list of
  records with the four parts of a route; every event of the form has an abstract counterpart that
  changes one part of one record, or the list.  The abstraction reads the normal form of the
  configuration under edit.
\<close>

record AbsRoute =
  a_incoming :: jsval
  a_upstream :: jstr
  a_converter :: jsval
  a_auth :: "(jsval \<times> jsval \<times> jsval) option"

definition absAuth :: "jsval \<Rightarrow> (jsval \<times> jsval \<times> jsval) option" where
  "absAuth a =
     (if truthy a
      then Some (prop_get (lit ''type'') a, js_or (prop_get (lit ''name'') a) (JStr []), js_or (prop_get (lit ''value'') a) (JStr []))
      else None)"

definition absRoute :: "jsval \<Rightarrow> AbsRoute" where
  "absRoute r =
     \<lparr>a_incoming = opt_prop (lit ''incoming_path'') r,
      a_upstream = opt_or (str_value (opt_prop (lit ''upstream_path'') r)) [],
      a_converter = opt_prop (lit ''converter'') r,
      a_auth = absAuth (opt_prop (lit ''auth'') r)\<rparr>"

definition absRoutes :: "jsval \<Rightarrow> AbsRoute list option" where
  "absRoutes c = map_option (\<lambda>n. map absRoute (routesOf n)) (normalizeAdvancedCustomConfig c)"

section \<open>The abstract operations\<close>

definition editAt :: "nat \<Rightarrow> ('a \<Rightarrow> 'a) \<Rightarrow> 'a list \<Rightarrow> 'a list option" where
  "editAt i f xs = (if i < length xs then Some (xs[i := f (xs ! i)]) else None)"

definition absConverter :: "jstr \<Rightarrow> AbsRoute \<Rightarrow> AbsRoute" where
  "absConverter c r =
     (let shown = js_or (a_incoming r) (JStr (getDefaultAdvancedCustomIncomingPath (a_converter r)));
          r' = r\<lparr>a_converter := js_or (JStr c) (JStr (lit ''none''))\<rparr>
      in if isAdvancedCustomIncomingPathAllowed shown (JStr c) then r'
         else r'\<lparr>a_incoming := JStr (getDefaultAdvancedCustomIncomingPath (JStr c))\<rparr>)"

definition absIncoming :: "jstr \<Rightarrow> AbsRoute \<Rightarrow> AbsRoute" where
  "absIncoming v r =
     r\<lparr>a_incoming := JStr (if v \<noteq> [] then v else getDefaultAdvancedCustomIncomingPath (a_converter r))\<rparr>"

text \<open>The authentication an abstract route stands for, and the change of its mode.\<close>

definition authOf :: "AbsRoute \<Rightarrow> jsval" where
  "authOf r = (case a_auth r of None \<Rightarrow> JUndef | Some (t, n, v) \<Rightarrow> authObj t n v)"

definition absAuthMode :: "jstr \<Rightarrow> AbsRoute \<Rightarrow> AbsRoute" where
  "absAuthMode m r = r\<lparr>a_auth := absAuth (buildAdvancedCustomAuth m (authOf r))\<rparr>"

text \<open>The template the event refers to, and the events of the form.\<close>

definition templateRoutes :: "jstr \<Rightarrow> AbsRoute list" where
  "templateRoutes k = opt_or (map_option (\<lambda>c. map absRoute (routesOf c)) (getAdvancedCustomTemplateConfig k)) []"

fun listEdit :: "jstr \<Rightarrow> EditorEvent \<Rightarrow> AbsRoute list \<Rightarrow> AbsRoute list option" where
  "listEdit k (ChooseIncoming i v) rs = editAt i (absIncoming v) rs"
| "listEdit k (TypeUpstream i v) rs = editAt i (\<lambda>r. r\<lparr>a_upstream := trim v\<rparr>) rs"
| "listEdit k (ChooseConverter i c) rs = editAt i (absConverter c) rs"
| "listEdit k (ChooseAuth i m) rs = editAt i (absAuthMode m) rs"
| "listEdit k AddRoute rs = Some (rs @ [absRoute createAdvancedCustomRoute])"
| "listEdit k (RemoveRoute i) rs = Some (take i rs @ drop (Suc i) rs)"
| "listEdit k FillTemplate rs = Some (templateRoutes k)"
| "listEdit k AppendTemplate rs = Some (rs @ templateRoutes k)"
| "listEdit k SwitchJson rs = Some rs"
| "listEdit k (ChooseTemplate k') rs = Some rs"
| "listEdit k _ rs = None"

section \<open>Rows\<close>

lemma spread_fields:
  "spread (routeObj ip up conv rest) [(lit ''incoming_path'', v)] = routeObj v up conv rest"
  "spread (routeObj ip up conv rest) [(lit ''upstream_path'', v)] = routeObj ip v conv rest"
  "spread (routeObj ip up conv rest) [(lit ''converter'', v)] = routeObj ip up v rest"
  "spread (routeObj ip up conv rest) [(lit ''converter'', v), (lit ''incoming_path'', w)] = routeObj w up v rest"
  by (simp_all add: spread_def routeObj_def obj_put_def lit_def)

lemma opt_prop_route [simp]:
  "opt_prop (lit ''incoming_path'') (routeObj ip up conv rest) = ip"
  "opt_prop (lit ''upstream_path'') (routeObj ip up conv rest) = up"
  "opt_prop (lit ''converter'') (routeObj ip up conv rest) = conv"
  "opt_prop (lit ''auth'') (routeObj ip up conv rest) = obj_get (lit ''auth'') rest"
  by (simp_all add: routeObj_def obj_get_def lit_def)

lemma absRoute_obj:
  "absRoute (routeObj ip (JStr up) conv rest)
     = \<lparr>a_incoming = ip, a_upstream = up, a_converter = conv, a_auth = absAuth (obj_get (lit ''auth'') rest)\<rparr>"
  by (simp add: absRoute_def str_value_def)

lemma absAuth_normal [simp]: "absAuth (normalizeAuth a) = Some (prop_get (lit ''type'') a,
    js_or (prop_get (lit ''name'') a) (JStr []), js_or (prop_get (lit ''value'') a) (JStr []))"
  by (simp add: absAuth_def normalizeAuth_def)

lemma normalize_obj:
  "normalizeAdvancedCustomRoute (routeObj ip (JStr up) conv rest)
     = Some (routeObj (js_or ip (JStr [])) (JStr (trim up)) (js_or conv (JStr (lit ''none'')))
         (if truthy (obj_get (lit ''auth'') rest) then [(lit ''auth'', normalizeAuth (obj_get (lit ''auth'') rest))] else []))"
  by (simp add: normalizeAdvancedCustomRoute_def upstream_normal)

text \<open>The abstract effect of normalising a route.\<close>

lemma absRoute_normalize:
  "\<exists>n. normalizeAdvancedCustomRoute (routeObj ip (JStr up) conv rest) = Some n
    \<and> absRoute n = \<lparr>a_incoming = js_or ip (JStr []), a_upstream = trim up, a_converter = js_or conv (JStr (lit ''none'')),
        a_auth = absAuth (obj_get (lit ''auth'') rest)\<rparr>"
  by (simp add: normalize_obj absRoute_obj absAuth_def normalizeAuth_def)

lemma normalRoute_cases:
  assumes "normalRoute r"
  obtains ip up conv rest where "r = routeObj ip (JStr up) conv rest" "js_or ip (JStr []) = ip"
    "trim up = up" "js_or conv (JStr (lit ''none'')) = conv"
  using assms unfolding normalRoute_def by (metis js_or_idem trim_trim)

text \<open>A row handler whose patch acts as the abstract edit on every normal route.\<close>

definition implements :: "(jsval \<Rightarrow> (jstr \<times> jsval) list) \<Rightarrow> (AbsRoute \<Rightarrow> AbsRoute) \<Rightarrow> bool" where
  "implements patch f \<longleftrightarrow>
     (\<forall>r. normalRoute r \<longrightarrow> (\<exists>n. normalizeAdvancedCustomRoute (spread r (patch r)) = Some n \<and> absRoute n = f (absRoute r)))"

lemma js_or_self [simp]: "js_or (JStr s) (JStr []) = JStr s"
  by (simp add: js_or_def)

lemma implements_incoming: "implements (\<lambda>r. setIncomingPath r v) (absIncoming v)"
  unfolding implements_def
proof (intro allI impI)
  fix r
  assume "normalRoute r"
  then obtain ip up conv rest where r: "r = routeObj ip (JStr up) conv rest" "js_or ip (JStr []) = ip"
      "trim up = up" "js_or conv (JStr (lit ''none'')) = conv" by (rule normalRoute_cases)
  show "\<exists>n. normalizeAdvancedCustomRoute (spread r (setIncomingPath r v)) = Some n \<and> absRoute n = absIncoming v (absRoute r)"
    using absRoute_normalize [of "JStr v" up conv rest]
      absRoute_normalize [of "JStr (getDefaultAdvancedCustomIncomingPath conv)" up conv rest]
    by (cases "v = []") (simp_all add: r(1) setIncomingPath_def spread_fields routeConverter_def r(3,4) absIncoming_def absRoute_obj)
qed

lemma implements_upstream: "implements (\<lambda>r. [(lit ''upstream_path'', JStr v)]) (\<lambda>r. r\<lparr>a_upstream := trim v\<rparr>)"
  unfolding implements_def
proof (intro allI impI)
  fix r
  assume "normalRoute r"
  then obtain ip up conv rest where r: "r = routeObj ip (JStr up) conv rest" "js_or ip (JStr []) = ip"
      "trim up = up" "js_or conv (JStr (lit ''none'')) = conv" by (rule normalRoute_cases)
  show "\<exists>n. normalizeAdvancedCustomRoute (spread r [(lit ''upstream_path'', JStr v)]) = Some n
      \<and> absRoute n = (absRoute r)\<lparr>a_upstream := trim v\<rparr>"
    using absRoute_normalize [of ip v conv rest] by (simp add: r(1) spread_fields r(2,4) absRoute_obj)
qed

lemma implements_converter: "implements (\<lambda>r. setConverter r c) (absConverter c)"
  unfolding implements_def
proof (intro allI impI)
  fix r
  assume "normalRoute r"
  then obtain ip up conv rest where r: "r = routeObj ip (JStr up) conv rest" "js_or ip (JStr []) = ip"
      "trim up = up" "js_or conv (JStr (lit ''none'')) = conv" by (rule normalRoute_cases)
  let ?d = "getDefaultAdvancedCustomIncomingPath (JStr c)"
  have s: "shownIncomingPath r = js_or ip (JStr (getDefaultAdvancedCustomIncomingPath conv))"
    by (simp add: shownIncomingPath_def routeConverter_def r(1,4))
  show "\<exists>n. normalizeAdvancedCustomRoute (spread r (setConverter r c)) = Some n \<and> absRoute n = absConverter c (absRoute r)"
  proof (cases "isAdvancedCustomIncomingPathAllowed (shownIncomingPath r) (JStr c)")
    case True
    then show ?thesis
      using absRoute_normalize [of ip up "JStr c" rest]
      by (simp add: setConverter_def s) (simp add: r(1) spread_fields r(2,3) absRoute_obj absConverter_def)
  next
    case False
    then show ?thesis
      using absRoute_normalize [of "JStr ?d" up "JStr c" rest]
      by (simp add: setConverter_def s) (simp add: r(1) spread_fields r(2,3) absRoute_obj absConverter_def)
  qed
qed

lemma implements_auth: "implements (\<lambda>r. setAuthMode r m) (absAuthMode m)"
  unfolding implements_def
proof (intro allI impI)
  fix r
  assume n: "normalRoute r"
  then obtain ip up conv rest where r: "r = routeObj ip (JStr up) conv rest" "js_or ip (JStr []) = ip"
      "trim up = up" "js_or conv (JStr (lit ''none'')) = conv" by (rule normalRoute_cases)
  have rest: "rest = [] \<or> (\<exists>a. rest = [(lit ''auth'', normalizeAuth a)])"
    using n unfolding normalRoute_def r(1) routeObj_inject by blast
  have a: "authOf (absRoute r) = obj_get (lit ''auth'') rest"
    using rest by (auto simp: authOf_def r(1) absRoute_obj normalizeAuth_def absAuth_def)
  have put: "spread (routeObj ip (JStr up) conv rest) [(lit ''auth'', x)] = routeObj ip (JStr up) conv [(lit ''auth'', x)]" for x
    using rest by (auto simp: spread_def routeObj_def obj_put_def lit_def key_index_def is_digit_def)
  let ?x = "buildAdvancedCustomAuth m (obj_get (lit ''auth'') rest)"
  show "\<exists>n. normalizeAdvancedCustomRoute (spread r (setAuthMode r m)) = Some n \<and> absRoute n = absAuthMode m (absRoute r)"
    using absRoute_normalize [of ip up conv "[(lit ''auth'', ?x)]"]
    by (simp add: absAuthMode_def a) (simp add: r(1) setAuthMode_def put r(2,3,4) absRoute_obj)
qed

section \<open>Lists\<close>

lemma those_map_update:
  assumes "\<forall>r\<in>set rs. f r = Some r" "f x = Some y" "i < length rs"
  shows "those (map f (rs[i := x])) = Some (rs[i := y])"
proof -
  have "map f (rs[i := x]) = map Some (rs[i := y])"
    using assms by (simp add: list_eq_iff_nth_eq nth_list_update)
  then show ?thesis by (simp add: those_Some)
qed

lemma updateRoute_refines:
  assumes "implements patch f" "absRoutes (config st) = Some rs" "i < length rs"
  shows "\<exists>st'. updateRoute i patch st = Some st' \<and> absRoutes (config st') = Some (rs[i := f (rs ! i)])"
proof -
  obtain n where n: "normalizeAdvancedCustomConfig (config st) = Some n" "rs = map absRoute (routesOf n)"
    using assms(2) by (auto simp: absRoutes_def)
  then obtain ns where ns: "n = configObj ns" "\<forall>r\<in>set ns. normalRoute r" using normalizeConfig_shape by blast
  with n assms(3) have i: "i < length ns" "rs = map absRoute ns" by simp_all
  then have "normalRoute (ns ! i)" using ns(2) by simp
  then obtain y where y: "normalizeAdvancedCustomRoute (spread (ns ! i) (patch (ns ! i))) = Some y" "absRoute y = f (absRoute (ns ! i))"
    using assms(1) unfolding implements_def by blast
  let ?st = "st\<lparr>config := configObj (ns[i := spread (ns ! i) (patch (ns ! i))])\<rparr>"
  have "those (map normalizeAdvancedCustomRoute (ns[i := spread (ns ! i) (patch (ns ! i))])) = Some (ns[i := y])"
    using ns(2) y(1) i(1) by (intro those_map_update) (simp_all add: normalizeRoute_id)
  then have "normalizeAdvancedCustomConfig (config ?st) = Some (configObj (ns[i := y]))"
    by (simp add: normalizeAdvancedCustomConfig_def)
  then have "absRoutes (config ?st) = Some (rs[i := f (rs ! i)])"
    using i y(2) by (simp add: absRoutes_def map_update)
  moreover have "updateRoute i patch st = Some ?st" using n ns i by (simp add: updateRoute_def)
  ultimately show ?thesis by blast
qed

lemma absRoutes_normal: "\<forall>r\<in>set rs. normalRoute r \<Longrightarrow> absRoutes (configObj rs) = Some (map absRoute rs)"
  by (simp add: absRoutes_def normalizeConfig_id)

lemma absRoutes_config:
  "absRoutes c = Some rs \<longleftrightarrow>
   (\<exists>ns. normalizeAdvancedCustomConfig c = Some (configObj ns) \<and> (\<forall>r\<in>set ns. normalRoute r) \<and> rs = map absRoute ns)"
  using normalizeConfig_shape by (fastforce simp: absRoutes_def)

lemma filter_enumerate:
  "map snd (filter (\<lambda>(j, _). j \<noteq> i) (enumerate 0 xs)) = take i xs @ drop (Suc i) xs"
proof -
  have "map snd (filter (\<lambda>(j, _). j \<noteq> k + i) (enumerate k xs)) = take i xs @ drop (Suc i) xs" for k
  proof (induction xs arbitrary: k i)
    case (Cons x xs)
    show ?case
    proof (cases i)
      case 0
      have "filter (\<lambda>(j, _). j \<noteq> k) (enumerate (Suc k) xs) = enumerate (Suc k) xs"
        by (rule filter_True) (auto simp: in_set_enumerate_eq)
      with 0 show ?thesis by simp
    next
      case (Suc m)
      with Cons.IH [of "Suc k" m] show ?thesis by simp
    qed
  qed simp
  from this [of 0] show ?thesis by simp
qed

lemma normal_created: "normalRoute createAdvancedCustomRoute"
proof -
  have "normalizeAdvancedCustomRoute createAdvancedCustomRoute = Some createAdvancedCustomRoute" by code_simp
  then show ?thesis by (rule normalizeRoute_normal)
qed

lemma template_normal:
  obtains ns where "getAdvancedCustomTemplateConfig k = Some (configObj ns)" "\<forall>r\<in>set ns. normalRoute r"
    "templateRoutes k = map absRoute ns"
proof -
  have all: "list_all (\<lambda>(_, _, c). normalizeAdvancedCustomConfig c = Some c) ADVANCED_CUSTOM_TEMPLATE_OPTIONS"
    by code_simp
  obtain o' where o: "o' \<in> set ADVANCED_CUSTOM_TEMPLATE_OPTIONS" "getAdvancedCustomTemplateConfig k = Some (snd (snd o'))"
    using template_of_key by blast
  then have "normalizeAdvancedCustomConfig (snd (snd o')) = Some (snd (snd o'))" using all by (auto simp: list_all_iff)
  then obtain ns where "snd (snd o') = configObj ns" "\<forall>r\<in>set ns. normalRoute r" using normalizeConfig_shape by blast
  with o(2) that show ?thesis by (simp add: templateRoutes_def)
qed

lemma finishTemplate_normal:
  "\<forall>r\<in>set ns. normalRoute r \<Longrightarrow>
   \<exists>st'. finishTemplate (configObj ns) st = Some st' \<and> absRoutes (config st') = Some (map absRoute ns)"
  by (simp add: finishTemplate_def stringifyAdvancedCustomConfig_def normalizeConfig_id absRoutes_normal)

text \<open>
  C20. In form mode the editor implements editing a list of routes: whenever the abstract edit of the
  list is defined (the row exists), the handler returns, and the list read off the new state is
  the edited list.  So choosing a path, converter or upstream changes that part of that route only
  (with the path corrected when the converter does not admit it), adding, removing, filling and
  appending change the list as a list, and leaving for the JSON view changes nothing.
\<close>

theorem editor_refines_list:
  assumes "absRoutes (config st) = Some rs" "editMode st = Visual"
    and "listEdit (templateKey st) ev rs = Some rs'"
  shows "\<exists>st'. handle parseURL tr ev st = Some st' \<and> absRoutes (config st') = Some rs'"
proof -
  obtain ns where ns: "normalizeAdvancedCustomConfig (config st) = Some (configObj ns)" "\<forall>r\<in>set ns. normalRoute r"
      "rs = map absRoute ns"
    using assms(1) unfolding absRoutes_config by blast
  have row: "\<exists>st'. updateRoute i patch st = Some st' \<and> absRoutes (config st') = Some rs'"
    if "implements patch f" "editAt i f rs = Some rs'" for i patch f
    using updateRoute_refines [OF that(1) assms(1), of i] that(2) by (auto simp: editAt_def split: if_splits)
  obtain ts where ts: "getAdvancedCustomTemplateConfig (templateKey st) = Some (configObj ts)"
      "\<forall>r\<in>set ts. normalRoute r" "templateRoutes (templateKey st) = map absRoute ts"
    by (rule template_normal)
  show ?thesis
  proof (cases ev)
    case (ChooseIncoming i v)
    then show ?thesis using row [OF implements_incoming] assms(3) by simp
  next
    case (TypeUpstream i v)
    then show ?thesis using row [OF implements_upstream] assms(3) by simp
  next
    case (ChooseConverter i c)
    then show ?thesis using row [OF implements_converter] assms(3) by simp
  next
    case (ChooseAuth i m)
    then show ?thesis using row [OF implements_auth] assms(3) by simp
  next
    case AddRoute
    have "absRoutes (configObj (ns @ [createAdvancedCustomRoute])) = Some (rs @ [absRoute createAdvancedCustomRoute])"
      using ns normal_created by (subst absRoutes_normal) auto
    then show ?thesis using AddRoute assms(3) ns by (simp add: addRoute_def)
  next
    case (RemoveRoute i)
    have "\<forall>r\<in>set (take i ns @ drop (Suc i) ns). normalRoute r"
      using ns(2) by (auto dest: in_set_takeD in_set_dropD)
    then have "absRoutes (configObj (take i ns @ drop (Suc i) ns)) = Some (take i rs @ drop (Suc i) rs)"
      using ns(3) by (simp only: absRoutes_normal) (simp add: take_map drop_map)
    then show ?thesis using RemoveRoute assms(3) ns by (simp add: removeRoute_def filter_enumerate)
  next
    case FillTemplate
    then show ?thesis using assms(3) ts finishTemplate_normal [of ts st] by (simp add: applyTemplate_def)
  next
    case AppendTemplate
    have "\<forall>r\<in>set (ns @ ts). normalRoute r" using ns ts by auto
    then show ?thesis
      using AppendTemplate assms ns ts finishTemplate_normal [of "ns @ ts" st]
      by (simp add: applyTemplate_def appendRoutes_def normalizeConfig_id)
  next
    case SwitchJson
    then show ?thesis
      using assms ns by (simp add: switchToJsonMode_def stringifyAdvancedCustomConfig_def normalizeConfig_id)
  qed (use assms in simp_all)
qed

theorem editor_refines_list_witness:
  "\<exists>st'. handle sampleURL (\<lambda>m. m) (ChooseConverter 0 (lit ''anthropic_messages_to_openai_chat_completions'')) sampleEditor = Some st'
     \<and> map_option (map a_incoming) (absRoutes (config st')) = Some [JStr (lit ''/v1/messages'')]"
proof -
  let ?ev = "ChooseConverter 0 (lit ''anthropic_messages_to_openai_chat_completions'')"
  let ?rs = "[absRoute createAdvancedCustomRoute]"
  have "absRoutes (config sampleEditor) = Some ?rs" by code_simp
  moreover have "editMode sampleEditor = Visual" by code_simp
  moreover have "listEdit (templateKey sampleEditor) ?ev ?rs
      = Some [absConverter (lit ''anthropic_messages_to_openai_chat_completions'') (absRoute createAdvancedCustomRoute)]"
    by (simp add: editAt_def)
  ultimately obtain st' where "handle sampleURL (\<lambda>m. m) ?ev sampleEditor = Some st'"
      "absRoutes (config st') = Some [absConverter (lit ''anthropic_messages_to_openai_chat_completions'') (absRoute createAdvancedCustomRoute)]"
    using editor_refines_list [of sampleEditor ?rs ?ev _ sampleURL "\<lambda>m. m"] by blast
  moreover have "a_incoming (absConverter (lit ''anthropic_messages_to_openai_chat_completions'') (absRoute createAdvancedCustomRoute))
      = JStr (lit ''/v1/messages'')" by code_simp
  ultimately show ?thesis by (intro exI [of _ st']) simp
qed

end
