(* ===== verification/JS_Regex.thy ===== *)
theory JS_Regex
  imports JS_Json_Laws
begin

text \<open>
  Regular expressions of the program's language, as far as the modelled code uses them: literals,
  character classes, alternation, greedy repetition, groups and references to groups.  Matching is by
  backtracking: \<open>rmatch r st\<close> lists the states a match of \<open>r\<close> can end in, in the order in which the
  matcher tries them, so that its first element is the match.  A state is the text that remains and
  the groups captured so far.  A repetition stops at an iteration that consumes nothing, as in the
  language; its fuel is the length of the text.
\<close>

type_synonym captures = "(nat \<times> jstr) list"
type_synonym rstate = "jstr \<times> captures"

datatype regex =
    Eps
  | Txt jstr
  | Cls bool "(int \<times> int) list"
  | Alt regex regex
  | Seq regex regex
  | Star regex
  | Grp nat regex
  | Ref nat
  | End

text \<open>A class: inside one of the ranges, or, when negated, outside all of them.\<close>

definition in_class :: "bool \<Rightarrow> (int \<times> int) list \<Rightarrow> int \<Rightarrow> bool" where
  "in_class neg rs c = ((\<exists>r\<in>set rs. fst r \<le> c \<and> c \<le> snd r) \<noteq> neg)"

fun star_iter :: "nat \<Rightarrow> (rstate \<Rightarrow> rstate list) \<Rightarrow> rstate \<Rightarrow> rstate list" where
  "star_iter 0 f st = [st]"
| "star_iter (Suc n) f st =
     concat (map (\<lambda>st'. if length (fst st') < length (fst st) then star_iter n f st' else []) (f st)) @ [st]"

fun rmatch :: "regex \<Rightarrow> rstate \<Rightarrow> rstate list" where
  "rmatch Eps st = [st]"
| "rmatch (Txt t) st = (if starts_with t (fst st) then [(drop (length t) (fst st), snd st)] else [])"
| "rmatch (Cls neg rs) st =
     (case fst st of c # s \<Rightarrow> if in_class neg rs c then [(s, snd st)] else [] | [] \<Rightarrow> [])"
| "rmatch (Alt a b) st = rmatch a st @ rmatch b st"
| "rmatch (Seq a b) st = concat (map (rmatch b) (rmatch a st))"
| "rmatch (Star a) st = star_iter (length (fst st)) (rmatch a) st"
| "rmatch (Grp n a) st =
     map (\<lambda>(s', cs). (s', AList.update n (take (length (fst st) - length s') (fst st)) cs)) (rmatch a st)"
| "rmatch (Ref n) st =
     (let t = opt_or (map_of (snd st) n) [] in
      if starts_with t (fst st) then [(drop (length t) (fst st), snd st)] else [])"
| "rmatch End st = (if fst st = [] then [st] else [])"

definition Plus :: "regex \<Rightarrow> regex" where
  "Plus r = Seq r (Star r)"

definition Opt :: "regex \<Rightarrow> regex" where
  "Opt r = Alt r Eps"

fun rseq :: "regex list \<Rightarrow> regex" where
  "rseq [] = Eps"
| "rseq [r] = r"
| "rseq (r # rs) = Seq r (rseq rs)"

fun ralt :: "regex list \<Rightarrow> regex" where
  "ralt [] = Cls False []"
| "ralt [r] = r"
| "ralt (r # rs) = Alt r (ralt rs)"

text \<open>\<open>s.match(/^...$/)\<close>: the captures of the first match that starts at the front.\<close>

definition match_at_start :: "regex \<Rightarrow> jstr \<Rightarrow> captures option" where
  "match_at_start r s = map_option snd (list_head (rmatch r (s, [])))"

definition matches_whole :: "regex \<Rightarrow> jstr \<Rightarrow> captures option" where
  "matches_whole r s = match_at_start (Seq r End) s"

definition test_whole :: "regex \<Rightarrow> jstr \<Rightarrow> bool" where
  "test_whole r s = (matches_whole r s \<noteq> None)"

definition group :: "nat \<Rightarrow> captures \<Rightarrow> jstr" where
  "group n cs = opt_or (map_of cs n) []"

section \<open>What a match consumes\<close>

lemma rmatch_Seq: "st'' \<in> set (rmatch (Seq a b) st) \<longleftrightarrow> (\<exists>st'\<in>set (rmatch a st). st'' \<in> set (rmatch b st'))"
  by auto

lemma rmatch_Txt: "(s', cs') \<in> set (rmatch (Txt t) (s, cs)) \<longleftrightarrow> s = t @ s' \<and> cs' = cs"
  by (auto simp: starts_with_iff)

lemma rmatch_Cls: "(s', cs') \<in> set (rmatch (Cls neg rs) (s, cs)) \<longleftrightarrow> (\<exists>c. in_class neg rs c \<and> s = c # s') \<and> cs' = cs"
  by (cases s) auto

lemma rmatch_End: "(s', cs') \<in> set (rmatch End (s, cs)) \<longleftrightarrow> s = [] \<and> s' = [] \<and> cs' = cs"
  by auto

lemma rmatch_Ref:
  "(s', cs') \<in> set (rmatch (Ref n) (s, cs)) \<longleftrightarrow> s = group n cs @ s' \<and> cs' = cs"
  by (auto simp: starts_with_iff group_def Let_def)

lemma rmatch_Grp:
  "(s', cs') \<in> set (rmatch (Grp n a) (s, cs)) \<longleftrightarrow>
   (\<exists>ds. (s', ds) \<in> set (rmatch a (s, cs)) \<and> cs' = AList.update n (take (length s - length s') s) ds)"
  by auto

lemma star_iter_suffix:
  assumes "\<And>s cs s' cs'. (s', cs') \<in> set (f (s, cs)) \<Longrightarrow> \<exists>u. s = u @ s' \<and> P u \<and> cs' = cs"
    and "P []" "\<And>u v. P u \<Longrightarrow> P v \<Longrightarrow> P (u @ v)"
  shows "(s', cs') \<in> set (star_iter n f (s, cs)) \<Longrightarrow> \<exists>u. s = u @ s' \<and> P u \<and> cs' = cs"
proof (induction n arbitrary: s cs)
  case (Suc n)
  then consider "s' = s" "cs' = cs"
    | t ds where "(t, ds) \<in> set (f (s, cs))" "(s', cs') \<in> set (star_iter n f (t, ds))"
    by (auto split: if_splits)
  then show ?case
  proof cases
    case 1
    then show ?thesis using assms(2) by simp
  next
    case 2
    from assms(1) [OF 2(1)] obtain u where u: "s = u @ t" "P u" "ds = cs" by blast
    from Suc.IH [OF 2(2)] obtain v where "t = v @ s'" "P v" "cs' = ds" by blast
    with u show ?thesis using assms(3) by (intro exI [of _ "u @ v"]) simp
  qed
qed (use assms(2) in simp)

text \<open>A repeated class consumes a run of its characters.\<close>

lemma rmatch_Star_Cls_only:
  "(s', cs') \<in> set (rmatch (Star (Cls neg rs)) (s, cs)) \<Longrightarrow> \<exists>u. s = u @ s' \<and> (\<forall>c\<in>set u. in_class neg rs c) \<and> cs' = cs"
  unfolding rmatch.simps
  by (rule star_iter_suffix [where P = "\<lambda>u. \<forall>c\<in>set u. in_class neg rs c"])
    (auto simp: rmatch_Cls simp del: rmatch.simps)

text \<open>Repeating pieces that each match and consume something.\<close>

lemma star_iter_pieces:
  assumes "\<forall>w\<in>set ws. w \<noteq> [] \<and> (\<forall>rest. (rest, cs) \<in> set (f (w @ rest, cs)))"
    and "length (concat ws) \<le> n"
  shows "(s', cs) \<in> set (star_iter n f (concat ws @ s', cs))"
  using assms
proof (induction ws arbitrary: n)
  case Nil
  then show ?case by (cases n) simp_all
next
  case (Cons w ws)
  then have "w \<noteq> []" by simp
  then obtain m where n: "n = Suc m" using Cons.prems by (cases n) auto
  have "length (concat ws) \<le> m" using Cons.prems \<open>w \<noteq> []\<close> by (cases w) (auto simp: n)
  then have "(s', cs) \<in> set (star_iter m f (concat ws @ s', cs))" using Cons by simp
  moreover have "(concat ws @ s', cs) \<in> set (f (w @ concat ws @ s', cs))" using Cons.prems by simp
  ultimately show ?case using \<open>w \<noteq> []\<close> by (force simp: n)
qed

lemma rmatch_Star_pieces:
  assumes "\<forall>w\<in>set ws. w \<noteq> [] \<and> (\<forall>rest. (rest, cs) \<in> set (rmatch r (w @ rest, cs)))"
  shows "(s', cs) \<in> set (rmatch (Star r) (concat ws @ s', cs))"
  using star_iter_pieces [OF assms, of "length (concat ws @ s')"] by simp

lemma rmatch_Star_Cls:
  "(s', cs') \<in> set (rmatch (Star (Cls neg rs)) (s, cs)) \<longleftrightarrow> (\<exists>u. s = u @ s' \<and> (\<forall>c\<in>set u. in_class neg rs c) \<and> cs' = cs)"
proof
  assume "\<exists>u. s = u @ s' \<and> (\<forall>c\<in>set u. in_class neg rs c) \<and> cs' = cs"
  then obtain u where u: "s = u @ s'" "\<forall>c\<in>set u. in_class neg rs c" "cs' = cs" by blast
  have "concat (map (\<lambda>c. [c]) u) = u" by (induction u) simp_all
  with rmatch_Star_pieces [of "map (\<lambda>c. [c]) u" cs "Cls neg rs" s'] u
  show "(s', cs') \<in> set (rmatch (Star (Cls neg rs)) (s, cs))" by simp
qed (rule rmatch_Star_Cls_only)

lemma rmatch_Plus_Cls:
  "(s', cs') \<in> set (rmatch (Plus (Cls neg rs)) (s, cs)) \<longleftrightarrow>
   (\<exists>u. s = u @ s' \<and> u \<noteq> [] \<and> (\<forall>c\<in>set u. in_class neg rs c) \<and> cs' = cs)"
proof
  assume "\<exists>u. s = u @ s' \<and> u \<noteq> [] \<and> (\<forall>c\<in>set u. in_class neg rs c) \<and> cs' = cs"
  then obtain c u where "s = c # u @ s'" "in_class neg rs c" "\<forall>c\<in>set u. in_class neg rs c" "cs' = cs"
    by (auto simp: neq_Nil_conv)
  then show "(s', cs') \<in> set (rmatch (Plus (Cls neg rs)) (s, cs))"
    unfolding Plus_def rmatch_Seq by (intro bexI [of _ "(u @ s', cs)"]) (auto simp only: rmatch_Cls rmatch_Star_Cls)
next
  assume "(s', cs') \<in> set (rmatch (Plus (Cls neg rs)) (s, cs))"
  then obtain t ds where "(t, ds) \<in> set (rmatch (Cls neg rs) (s, cs))" "(s', cs') \<in> set (rmatch (Star (Cls neg rs)) (t, ds))"
    unfolding Plus_def rmatch_Seq by auto
  then show "\<exists>u. s = u @ s' \<and> u \<noteq> [] \<and> (\<forall>c\<in>set u. in_class neg rs c) \<and> cs' = cs"
    unfolding rmatch_Cls rmatch_Star_Cls by (metis append_Cons list.distinct(1) set_ConsD)
qed

text \<open>Every match leaves a suffix.\<close>

lemma rmatch_suffix: "(s', cs') \<in> set (rmatch r (s, cs)) \<Longrightarrow> \<exists>u. s = u @ s'"
proof (induction r arbitrary: s cs s' cs')
  case (Seq a b)
  then obtain t ds where "(t, ds) \<in> set (rmatch a (s, cs))" "(s', cs') \<in> set (rmatch b (t, ds))" by auto
  with Seq.IH obtain u v where "s = u @ t" "t = v @ s'" by blast
  then show ?case by simp
next
  case (Star a)
  have "\<exists>u. s = u @ s'" if "(s', cs') \<in> set (star_iter n (rmatch a) (s, cs))" for n
    using that
  proof (induction n arbitrary: s cs)
    case (Suc n)
    then consider "s' = s" | t ds where "(t, ds) \<in> set (rmatch a (s, cs))" "(s', cs') \<in> set (star_iter n (rmatch a) (t, ds))"
      by (auto split: if_splits)
    then show ?case
    proof cases
      case 2
      from Star.IH [OF 2(1)] Suc.IH [OF 2(2)] show ?thesis by auto
    qed simp
  qed simp
  then show ?case using Star.prems by simp
next
  case (Cls neg rs)
  then show ?case by (cases s) (auto split: if_splits)
qed (auto simp: starts_with_iff Let_def split: if_splits)

section \<open>Unambiguous patterns\<close>

lemma rmatch_whole: "(t, cs) \<in> set (rmatch (Seq r End) st) \<longleftrightarrow> t = [] \<and> ([], cs) \<in> set (rmatch r st)"
  unfolding rmatch_Seq by (force simp: rmatch_End simp del: rmatch.simps)

text \<open>When all complete matches capture the same, that is what the matcher returns.\<close>

lemma matches_whole_unique:
  assumes "\<And>cs'. ([], cs') \<in> set (rmatch r (s, [])) \<Longrightarrow> cs' = cs" "([], cs) \<in> set (rmatch r (s, []))"
  shows "matches_whole r s = Some cs"
proof -
  let ?L = "rmatch (Seq r End) (s, [])"
  have "st = ([], cs)" if st: "st \<in> set ?L" for st
  proof -
    obtain t ds where p: "st = (t, ds)" by (cases st)
    with st have "t = [] \<and> ([], ds) \<in> set (rmatch r (s, []))" unfolding p rmatch_whole by blast
    with p assms(1) show ?thesis by simp
  qed
  moreover have "?L \<noteq> []"
  proof -
    have "([], cs) \<in> set ?L" using assms(2) rmatch_whole by blast
    then show ?thesis by (metis empty_iff empty_set)
  qed
  moreover from this have "list_head ?L = Some (hd ?L)" "hd ?L \<in> set ?L"
    by (simp_all add: list_head_def list.case_eq_if del: rmatch.simps)
  ultimately have "list_head ?L = Some ([], cs)" by metis
  then show ?thesis by (simp add: matches_whole_def match_at_start_def del: rmatch.simps)
qed

lemma matches_whole_captures:
  assumes "matches_whole r s = Some cs"
  shows "([], cs) \<in> set (rmatch r (s, []))"
proof -
  obtain st where "st \<in> set (rmatch (Seq r End) (s, []))" "cs = snd st"
    using assms unfolding matches_whole_def match_at_start_def list_head_def
    by (cases "rmatch (Seq r End) (s, [])") (auto simp del: rmatch.simps)
  moreover obtain t ds where "st = (t, ds)" by (cases st)
  ultimately show ?thesis using rmatch_whole by auto
qed

lemma test_whole_iff: "test_whole r s \<longleftrightarrow> (\<exists>cs. ([], cs) \<in> set (rmatch r (s, [])))"
proof
  assume "\<exists>cs. ([], cs) \<in> set (rmatch r (s, []))"
  then obtain cs where "([], cs) \<in> set (rmatch (Seq r End) (s, []))" using rmatch_whole by blast
  then have "rmatch (Seq r End) (s, []) \<noteq> []" by (auto simp del: rmatch.simps)
  then show "test_whole r s"
    by (simp add: test_whole_def matches_whole_def match_at_start_def del: rmatch.simps)
next
  assume "test_whole r s"
  then show "\<exists>cs. ([], cs) \<in> set (rmatch r (s, []))" using matches_whole_captures by (auto simp: test_whole_def)
qed

lemma matches_whole_None: "matches_whole r s = None \<longleftrightarrow> (\<nexists>cs. ([], cs) \<in> set (rmatch r (s, [])))"
  using test_whole_iff [of r s] by (cases "matches_whole r s") (auto simp: test_whole_def)

end
