(* ===== verification/Billing_Expr.thy ===== *)
theory Billing_Expr
  imports JS_Regex "HOL-Library.Monad_Syntax"
begin

text \<open>
  The request rules of billing expressions: the second half of \<open>features/pricing/lib/billing-expr.ts\<close>.
  A rule multiplies the price when conditions on the request hold, as in
  \<open>(header("x") == "y" ? 2 : 1)\<close>; rules are printed after the base expression, joined by \<open>*\<close>,
  and read back by regular expressions.  Reading may throw, since the literals found by the regular expressions
  are handed to \<open>JSON.parse\<close>: the outer \<open>None\<close> of a reader is a thrown error, the inner one \<open>null\<close>.
\<close>

section \<open>Data\<close>

definition MATCH_EQ :: jstr where "MATCH_EQ = lit ''eq''"
definition MATCH_CONTAINS :: jstr where "MATCH_CONTAINS = lit ''contains''"
definition MATCH_GT :: jstr where "MATCH_GT = lit ''gt''"
definition MATCH_GTE :: jstr where "MATCH_GTE = lit ''gte''"
definition MATCH_LT :: jstr where "MATCH_LT = lit ''lt''"
definition MATCH_LTE :: jstr where "MATCH_LTE = lit ''lte''"
definition MATCH_EXISTS :: jstr where "MATCH_EXISTS = lit ''exists''"
definition MATCH_RANGE :: jstr where "MATCH_RANGE = lit ''range''"

lemmas match_modes = MATCH_EQ_def MATCH_CONTAINS_def MATCH_GT_def MATCH_GTE_def MATCH_LT_def MATCH_LTE_def
  MATCH_EXISTS_def MATCH_RANGE_def

definition TIME_FUNCS :: "jstr list" where
  "TIME_FUNCS = [lit ''hour'', lit ''minute'', lit ''weekday'', lit ''month'', lit ''day'']"

datatype ParamSource = SourceParam | SourceHeader

record ParamHeaderCondition =
  ph_source :: ParamSource
  ph_path :: jstr
  ph_mode :: jstr
  ph_value :: jstr

record TimeCondition =
  timeFunc :: jstr
  timezone :: jstr
  t_mode :: jstr
  t_value :: jstr
  rangeStart :: jstr
  rangeEnd :: jstr

datatype RequestCondition = Time TimeCondition | ParamHeader ParamHeaderCondition

record RequestRuleGroup =
  conditions :: "RequestCondition list"
  multiplier :: jstr

section \<open>Regular expressions\<close>

definition digit_cls :: regex where
  "digit_cls = Cls False [(48, 57)]"

text \<open>\<open>[\d.eE+-]\<close>, \<open>[^"]\<close> and \<open>.\<close>.\<close>

definition num_cls :: regex where
  "num_cls = Cls False [(48, 57), (46, 46), (101, 101), (69, 69), (43, 43), (45, 45)]"

definition not_quote :: regex where
  "not_quote = Cls True [(34, 34)]"

definition dot :: regex where
  "dot = Cls True [(10, 10), (13, 13), (8232, 8233)]"

definition any_char :: regex where
  "any_char = Cls True []"

definition T :: "string \<Rightarrow> regex" where
  "T s = Txt (lit s)"

definition NUMERIC_LITERAL_REGEX :: regex where
  "NUMERIC_LITERAL_REGEX =
     rseq [Opt (T ''-''),
       Alt (rseq [Plus digit_cls, Opt (T ''.''), Star digit_cls]) (rseq [T ''.'', Plus digit_cls]),
       Opt (rseq [Cls False [(101, 101), (69, 69)], Opt (Cls False [(43, 43), (45, 45)]), Plus digit_cls])]"

definition time_func_re :: regex where
  "time_func_re = Grp 1 (ralt (map Txt TIME_FUNCS))"

text \<open>A double-quoted name without quotes, captured as the given group.\<close>

definition quoted_name :: "nat \<Rightarrow> regex" where
  "quoted_name n = rseq [Txt [34], Grp n (Plus not_quote), Txt [34]]"

definition time_range_re :: regex where
  "time_range_re = rseq [time_func_re, T ''('', quoted_name 2, T '') >= '', Grp 3 (Plus num_cls), T '' || '', Ref 1, T ''('',
     Txt [34], Ref 2, Txt [34], T '') < '', Grp 4 (Plus num_cls)]"

definition time_range_paren_re :: regex where
  "time_range_paren_re = rseq [T ''('', time_func_re, T ''('', quoted_name 2, T '') >= '', Grp 3 (Plus num_cls), T '' || '',
     Ref 1, T ''('', Txt [34], Ref 2, Txt [34], T '') < '', Grp 4 (Plus num_cls), T '')'']"

definition time_compare_re :: regex where
  "time_compare_re = rseq [time_func_re, T ''('', quoted_name 2, T '') '',
     Grp 3 (ralt [T ''=='', T ''>='', T ''<'']), T '' '', Grp 4 (Plus num_cls)]"

definition header_exists_re :: regex where
  "header_exists_re = rseq [T ''header('', quoted_name 1, T '') != '', Txt [34, 34]]"

definition param_exists_re :: regex where
  "param_exists_re = rseq [T ''param('', quoted_name 1, T '') != nil'']"

text \<open>\<open>"(?:[^"\\]|\\.)*"\<close>.\<close>

definition string_literal_re :: regex where
  "string_literal_re = rseq [Txt [34], Star (Alt (Cls True [(34, 34), (92, 92)]) (Seq (Txt [92]) dot)), Txt [34]]"

definition header_contains_re :: regex where
  "header_contains_re = rseq [T ''has(header('', quoted_name 1, T ''), '', Grp 2 string_literal_re, T '')'']"

definition param_contains_re :: regex where
  "param_contains_re = rseq [T ''param('', quoted_name 1, T '') != nil && has(param('', quoted_name 2, T ''), '',
     Grp 3 string_literal_re, T '')'']"

definition param_compare_re :: regex where
  "param_compare_re = rseq [T ''param('', quoted_name 1, T '') != nil && param('', quoted_name 2, T '') '',
     Grp 3 (ralt [T ''>'', T ''>='', T ''<'', T ''<='']), T '' '', Grp 4 (Plus num_cls)]"

definition equals_re :: regex where
  "equals_re = rseq [Grp 1 (ralt [T ''param'', T ''header'']), T ''('', quoted_name 2, T '') == '', Grp 3 (Plus dot)]"

definition rule_factor_re :: regex where
  "rule_factor_re = rseq [T ''('', Grp 1 (Plus any_char), T '' ? '', Grp 2 (Plus num_cls), T '' : 1)'']"

section \<open>Splitting at the top level\<close>

text \<open>
  The loop of \<open>splitTopLevelMultiply\<close> and \<open>splitTopLevelAnd\<close>: the depth of parentheses and the part read
  since the last separator; parentheses inside string literals are counted as well.
\<close>

definition depth_after :: "int \<Rightarrow> int \<Rightarrow> int" where
  "depth_after c depth = (if c = 40 then depth + 1 else if c = 41 then depth - 1 else depth)"

function splitLoop :: "jstr \<Rightarrow> int \<Rightarrow> jstr \<Rightarrow> jstr \<Rightarrow> jstr list" where
  "splitLoop sep depth part [] = [trim part]"
| "splitLoop sep depth part (c # s) =
     (let d = depth_after c depth in
      if d = 0 \<and> starts_with sep (c # s) then trim part # splitLoop sep d [] (drop (length sep - 1) s)
      else splitLoop sep d (part @ [c]) s)"
  by pat_completeness auto
termination
  by (relation "measure (\<lambda>(sep, depth, part, s). length s)") auto

definition splitTopLevelMultiply :: "jstr \<Rightarrow> jstr list" where
  "splitTopLevelMultiply expr = filter (\<lambda>p. p \<noteq> []) (splitLoop (lit '' * '') 0 [] expr)"

definition splitTopLevelAnd :: "jstr \<Rightarrow> jstr list" where
  "splitTopLevelAnd expr = filter (\<lambda>p. p \<noteq> []) (splitLoop (lit '' && '') 0 [] expr)"

section \<open>Reading rules\<close>

text \<open>\<open>null\<close> is \<open>JNull\<close>; everything else is the value of the literal.\<close>

definition parseExprLiteral :: "jstr \<Rightarrow> jsval" where
  "parseExprLiteral raw =
     (let text = trim raw in
      if text = lit ''true'' \<or> text = lit ''false'' then JStr text
      else if test_whole NUMERIC_LITERAL_REGEX text then JStr text
      else case json_parse text of Some v \<Rightarrow> v | None \<Rightarrow> JNull)"

definition timeOpMode :: "jstr \<Rightarrow> jstr" where
  "timeOpMode op =
     (if op = lit ''=='' then MATCH_EQ else if op = lit ''>='' then MATCH_GTE
      else if op = lit ''<'' then MATCH_LT else MATCH_EQ)"

definition rangeCondition :: "captures \<Rightarrow> RequestCondition" where
  "rangeCondition m = Time \<lparr>timeFunc = group 1 m, timezone = group 2 m, t_mode = MATCH_RANGE, t_value = [],
     rangeStart = group 3 m, rangeEnd = group 4 m\<rparr>"

definition tryParseTimeCondition :: "jstr \<Rightarrow> RequestCondition option" where
  "tryParseTimeCondition expr =
     (case matches_whole time_range_re expr of
        Some m \<Rightarrow> Some (rangeCondition m)
      | None \<Rightarrow>
     (case matches_whole time_range_paren_re expr of
        Some m \<Rightarrow> Some (rangeCondition m)
      | None \<Rightarrow>
     (case matches_whole time_compare_re expr of
        Some m \<Rightarrow> Some (Time \<lparr>timeFunc = group 1 m, timezone = group 2 m, t_mode = timeOpMode (group 3 m),
          t_value = group 4 m, rangeStart = [], rangeEnd = []\<rparr>)
      | None \<Rightarrow> None)))"

definition compareMode :: "jstr \<Rightarrow> jstr" where
  "compareMode op =
     (if op = lit ''>'' then MATCH_GT else if op = lit ''>='' then MATCH_GTE
      else if op = lit ''<'' then MATCH_LT else MATCH_LTE)"

definition phCond :: "ParamSource \<Rightarrow> jstr \<Rightarrow> jstr \<Rightarrow> jstr \<Rightarrow> RequestCondition" where
  "phCond src path mode value = ParamHeader \<lparr>ph_source = src, ph_path = path, ph_mode = mode, ph_value = value\<rparr>"

text \<open>The last pattern of the chain: equality with a literal.\<close>

definition tryParseEquals :: "jstr \<Rightarrow> RequestCondition option" where
  "tryParseEquals expr =
     (case matches_whole equals_re expr of
        Some m \<Rightarrow>
          (let parsedValue = parseExprLiteral (group 3 m) in
           if parsedValue = JNull then None
           else Some (phCond (if group 1 m = lit ''param'' then SourceParam else SourceHeader) (group 2 m) MATCH_EQ
                  (to_string parsedValue)))
      | None \<Rightarrow> None)"

definition tryParseParamNil :: "jstr \<Rightarrow> RequestCondition option option" where
  "tryParseParamNil expr =
     (case matches_whole param_contains_re expr of
        Some m \<Rightarrow>
          if group 1 m = group 2 m
          then map_option (\<lambda>v. Some (phCond SourceParam (group 1 m) MATCH_CONTAINS (to_string v))) (json_parse (group 3 m))
          else (case matches_whole param_compare_re expr of
                  Some m' \<Rightarrow> if group 1 m' = group 2 m'
                    then Some (Some (phCond SourceParam (group 1 m') (compareMode (group 3 m')) (group 4 m')))
                    else Some (tryParseEquals expr)
                | None \<Rightarrow> Some (tryParseEquals expr))
      | None \<Rightarrow>
     (case matches_whole param_compare_re expr of
        Some m' \<Rightarrow> if group 1 m' = group 2 m'
          then Some (Some (phCond SourceParam (group 1 m') (compareMode (group 3 m')) (group 4 m')))
          else Some (tryParseEquals expr)
      | None \<Rightarrow> Some (tryParseEquals expr)))"

definition tryParseRequestCondition :: "jstr \<Rightarrow> RequestCondition option option" where
  "tryParseRequestCondition expr =
     (case tryParseTimeCondition expr of
        Some tc \<Rightarrow> Some (Some tc)
      | None \<Rightarrow>
     (case matches_whole header_exists_re expr of
        Some m \<Rightarrow> Some (Some (phCond SourceHeader (group 1 m) MATCH_EXISTS []))
      | None \<Rightarrow>
     (case matches_whole param_exists_re expr of
        Some m \<Rightarrow> Some (Some (phCond SourceParam (group 1 m) MATCH_EXISTS []))
      | None \<Rightarrow>
     (case matches_whole header_contains_re expr of
        Some m \<Rightarrow> map_option (\<lambda>v. Some (phCond SourceHeader (group 1 m) MATCH_CONTAINS (to_string v))) (json_parse (group 2 m))
      | None \<Rightarrow> tryParseParamNil expr))))"

text \<open>Reading the conditions of a factor stops at the first that is not one.\<close>

fun parseConditions :: "jstr list \<Rightarrow> RequestCondition list option option" where
  "parseConditions [] = Some (Some [])"
| "parseConditions (ap # aps) =
     do {
       c \<leftarrow> tryParseRequestCondition (trim ap);
       case c of
         None \<Rightarrow> Some None
       | Some cond \<Rightarrow> do { cs \<leftarrow> parseConditions aps; Some (map_option ((#) cond) cs) }
     }"

definition tryParseRuleGroupFactor :: "jstr \<Rightarrow> RequestRuleGroup option option" where
  "tryParseRuleGroupFactor part =
     (case matches_whole rule_factor_re part of
        None \<Rightarrow> Some None
      | Some m \<Rightarrow>
          do {
            cs \<leftarrow> parseConditions (splitTopLevelAnd (group 1 m));
            case cs of
              None \<Rightarrow> Some None
            | Some conds \<Rightarrow> if conds = [] then Some None
                           else Some (Some \<lparr>conditions = conds, multiplier = group 2 m\<rparr>)
          })"

fun parseFactors :: "jstr list \<Rightarrow> RequestRuleGroup list option option" where
  "parseFactors [] = Some (Some [])"
| "parseFactors (part # parts) =
     do {
       g \<leftarrow> tryParseRuleGroupFactor part;
       case g of
         None \<Rightarrow> Some None
       | Some gr \<Rightarrow> do { gs \<leftarrow> parseFactors parts; Some (map_option ((#) gr) gs) }
     }"

definition tryParseRequestRuleExpr :: "jstr \<Rightarrow> RequestRuleGroup list option option" where
  "tryParseRequestRuleExpr expr =
     (let trimmedText = trim expr in
      if trimmedText = [] then Some (Some [])
      else parseFactors (splitTopLevelMultiply trimmedText))"

section \<open>Splitting and combining\<close>

fun parenLoop :: "int \<Rightarrow> jstr \<Rightarrow> bool" where
  "parenLoop depth [] = (depth = 0)"
| "parenLoop depth (c # s) =
     (let d = depth_after c depth in if d = 0 \<and> s \<noteq> [] then False else parenLoop d s)"

definition hasFullOuterParens :: "jstr \<Rightarrow> bool" where
  "hasFullOuterParens expr =
     (if \<not> starts_with (lit ''('') expr \<or> \<not> ends_with (lit '')'') expr then False else parenLoop 0 expr)"

lemma length_trim: "length (trim s) \<le> length s"
  unfolding trim_def trim_end_def trim_start_def
  by (metis length_dropWhile_le length_rev order_trans)

text \<open>The loop that takes outer parentheses off ends because every turn shortens the text.\<close>

function unwrapLoop :: "jstr \<Rightarrow> jstr" where
  "unwrapLoop current =
     (if hasFullOuterParens current then unwrapLoop (trim (butlast (tl current))) else current)"
  by pat_completeness auto
termination
proof (relation "measure length", goal_cases)
  case (2 current)
  then have "current \<noteq> []" by (auto simp: hasFullOuterParens_def starts_with_def lit_def)
  then have "length (butlast (tl current)) < length current" by (cases current) auto
  with length_trim [of "butlast (tl current)"] show ?case by simp
qed simp

declare unwrapLoop.simps [simp del]

definition unwrapOuterParens :: "jstr \<Rightarrow> jstr" where
  "unwrapOuterParens expr = unwrapLoop (trim expr)"

record SplitExpr =
  billingExpr :: jstr
  requestRuleExpr :: jstr

text \<open>Which parts are rules; \<open>None\<close> when reading one throws.\<close>

fun partitionParts :: "jstr list \<Rightarrow> (jstr list \<times> jstr list) option" where
  "partitionParts [] = Some ([], [])"
| "partitionParts (part # parts) =
     do {
       parsed \<leftarrow> tryParseRequestRuleExpr part;
       (ruleParts, baseParts) \<leftarrow> partitionParts parts;
       Some (case parsed of
               Some gs \<Rightarrow> if gs \<noteq> [] then (part # ruleParts, baseParts) else (ruleParts, part # baseParts)
             | None \<Rightarrow> (ruleParts, part # baseParts))
     }"

definition splitBillingExprAndRequestRules :: "jstr \<Rightarrow> SplitExpr option" where
  "splitBillingExprAndRequestRules expr =
     (let trimmedText = trim expr in
      if trimmedText = [] then Some \<lparr>billingExpr = [], requestRuleExpr = []\<rparr>
      else let parts = splitTopLevelMultiply trimmedText in
        if length parts \<le> 1 then Some \<lparr>billingExpr = trimmedText, requestRuleExpr = []\<rparr>
        else do {
          (ruleParts, baseParts) \<leftarrow> partitionParts parts;
          if length ruleParts = 0 \<or> length baseParts \<noteq> 1
          then Some \<lparr>billingExpr = trimmedText, requestRuleExpr = []\<rparr>
          else Some \<lparr>billingExpr = unwrapOuterParens (baseParts ! 0), requestRuleExpr = join (lit '' * '') ruleParts\<rparr>
        })"

definition combineBillingExpr :: "jstr \<Rightarrow> jstr \<Rightarrow> jstr" where
  "combineBillingExpr baseExpr ruleExpr =
     (let base = trim baseExpr; rules = trim ruleExpr in
      if base = [] then []
      else if rules = [] then base
      else lit ''('' @ base @ lit '') * '' @ rules)"

section \<open>Writing rules\<close>

definition createEmptyCondition :: RequestCondition where
  "createEmptyCondition = phCond SourceParam [] MATCH_EQ []"

definition createEmptyTimeCondition :: RequestCondition where
  "createEmptyTimeCondition = Time \<lparr>timeFunc = lit ''hour'', timezone = lit ''Asia/Shanghai'', t_mode = MATCH_GTE,
     t_value = [], rangeStart = [], rangeEnd = []\<rparr>"

definition createEmptyRuleGroup :: RequestRuleGroup where
  "createEmptyRuleGroup = \<lparr>conditions = [createEmptyCondition], multiplier = []\<rparr>"

definition createEmptyTimeRuleGroup :: RequestRuleGroup where
  "createEmptyTimeRuleGroup = \<lparr>conditions = [createEmptyTimeCondition], multiplier = []\<rparr>"

datatype RuleSource = RTime | RParam ParamSource

definition getRequestRuleMatchOptions :: "RuleSource \<Rightarrow> (jstr \<times> jstr) list" where
  "getRequestRuleMatchOptions source =
     (case source of
        RTime \<Rightarrow> [(MATCH_EQ, lit ''Equals''), (MATCH_GTE, lit ''Greater than or equal''),
                  (MATCH_LT, lit ''Less than''), (MATCH_RANGE, lit ''Overnight range'')]
      | RParam src \<Rightarrow>
          [(MATCH_EQ, lit ''Equals''), (MATCH_CONTAINS, lit ''Contains''), (MATCH_EXISTS, lit ''Exists'')]
          @ (if src = SourceHeader then []
             else [(MATCH_GT, lit ''Greater than''), (MATCH_GTE, lit ''Greater than or equal''),
                   (MATCH_LT, lit ''Less than''), (MATCH_LTE, lit ''Less than or equal'')]))"

text \<open>\<open>normalizeCondition\<close>, on conditions that have all their fields.\<close>

definition normalizeTime :: "TimeCondition \<Rightarrow> TimeCondition" where
  "normalizeTime c =
     c\<lparr>timeFunc := if timeFunc c \<in> set TIME_FUNCS then timeFunc c else lit ''hour'',
       timezone := if timezone c \<noteq> [] then timezone c else lit ''Asia/Shanghai'',
       t_mode := if t_mode c \<in> fst ` set (getRequestRuleMatchOptions RTime) then t_mode c else MATCH_GTE\<rparr>"

definition normalizeParamHeader :: "ParamHeaderCondition \<Rightarrow> ParamHeaderCondition" where
  "normalizeParamHeader c =
     c\<lparr>ph_mode := if ph_mode c \<in> fst ` set (getRequestRuleMatchOptions (RParam (ph_source c))) then ph_mode c else MATCH_EQ\<rparr>"

definition buildExprLiteral :: "jstr \<Rightarrow> jstr \<Rightarrow> jstr" where
  "buildExprLiteral mode value =
     (let text = trim value in
      if mode = MATCH_CONTAINS then json_quote text
      else if text = lit ''true'' \<or> text = lit ''false'' then text
      else if test_whole NUMERIC_LITERAL_REGEX text then text
      else json_quote text)"

definition timeOp :: "jstr \<Rightarrow> jstr" where
  "timeOp mode = (if mode = MATCH_GTE then lit ''>='' else if mode = MATCH_LT then lit ''<'' else lit ''=='')"

definition buildTimeConditionExpr :: "TimeCondition \<Rightarrow> jstr" where
  "buildTimeConditionExpr cond =
     (let normalized = normalizeTime cond;
          fn = timeFunc normalized @ lit ''('' @ json_quote (timezone normalized) @ lit '')''
      in if t_mode normalized = MATCH_RANGE
         then let s = trim (rangeStart normalized); e = trim (rangeEnd normalized)
              in if \<not> test_whole NUMERIC_LITERAL_REGEX s \<or> \<not> test_whole NUMERIC_LITERAL_REGEX e then []
                 else fn @ lit '' >= '' @ s @ lit '' || '' @ fn @ lit '' < '' @ e
         else let v = trim (t_value normalized)
              in if \<not> test_whole NUMERIC_LITERAL_REGEX v then []
                 else fn @ lit '' '' @ timeOp (t_mode normalized) @ lit '' '' @ v)"

definition compareOp :: "jstr \<Rightarrow> jstr" where
  "compareOp mode =
     (if mode = MATCH_GT then lit ''>'' else if mode = MATCH_GTE then lit ''>=''
      else if mode = MATCH_LT then lit ''<'' else lit ''<='')"

definition buildRequestConditionExpr :: "RequestCondition \<Rightarrow> jstr" where
  "buildRequestConditionExpr cond =
     (case cond of
        Time t \<Rightarrow> buildTimeConditionExpr t
      | ParamHeader ph \<Rightarrow>
          let normalized = normalizeParamHeader ph; path = trim (ph_path normalized);
              header = (ph_source normalized = SourceHeader); mode = ph_mode normalized;
              sourceExpr = (if header then lit ''header('' else lit ''param('') @ json_quote path @ lit '')''
          in if path = [] then []
             else if mode = MATCH_EXISTS then sourceExpr @ (if header then lit '' != '' @ [34, 34] else lit '' != nil'')
             else if mode = MATCH_CONTAINS
             then (if header then [] else sourceExpr @ lit '' != nil && '')
                  @ lit ''has('' @ sourceExpr @ lit '', '' @ buildExprLiteral mode (ph_value normalized) @ lit '')''
             else if mode \<in> set [MATCH_GT, MATCH_GTE, MATCH_LT, MATCH_LTE]
             then let numText = trim (ph_value normalized)
                  in if \<not> test_whole NUMERIC_LITERAL_REGEX numText then []
                     else sourceExpr @ lit '' != nil && '' @ sourceExpr @ lit '' '' @ compareOp mode @ lit '' '' @ numText
             else sourceExpr @ lit '' == '' @ buildExprLiteral mode (ph_value normalized))"

definition buildRuleGroupFactor :: "RequestRuleGroup \<Rightarrow> jstr" where
  "buildRuleGroupFactor g =
     (let mult = trim (multiplier g) in
      if \<not> test_whole NUMERIC_LITERAL_REGEX mult then []
      else let condExprs = filter (\<lambda>e. e \<noteq> []) (map buildRequestConditionExpr (conditions g))
           in if length condExprs = 0 then []
              else let combined =
                     (if length condExprs = 1 then condExprs ! 0
                      else join (lit '' && '') (map (\<lambda>e. if str_includes (lit '' || '') e then lit ''('' @ e @ lit '')'' else e) condExprs))
                   in lit ''('' @ combined @ lit '' ? '' @ mult @ lit '' : 1)'')"

definition buildRequestRuleExpr :: "RequestRuleGroup list \<Rightarrow> jstr" where
  "buildRequestRuleExpr groups = join (lit '' * '') (filter (\<lambda>f. f \<noteq> []) (map buildRuleGroupFactor groups))"

end
