(* ===== verification/Billing_Match.thy ===== *)
theory Billing_Match
  imports Billing_Expr
begin

text \<open>
  What the regular expressions of the request rules match.  Every pattern but one begins with the call of
  a named function on a quoted name, \<open>callForm\<close>; since the function's name has no parenthesis and the
  quoted name no quote, the parts of such a text are determined by it, and so are the captures of each
  pattern.
\<close>

section \<open>Building blocks\<close>

lemma split_at:
  "a @ c # x = b @ c # y \<Longrightarrow> c \<notin> set a \<Longrightarrow> c \<notin> set b \<Longrightarrow> a = b \<and> x = y"
proof (induction a arbitrary: b)
  case Nil
  then show ?case by (cases b) auto
next
  case (Cons d a)
  then show ?case by (cases b) auto
qed

lemma rmatch_Seq_ex:
  "(s', cs') \<in> set (rmatch (Seq a b) (s, cs)) \<longleftrightarrow>
   (\<exists>t ds. (t, ds) \<in> set (rmatch a (s, cs)) \<and> (s', cs') \<in> set (rmatch b (t, ds)))"
  unfolding rmatch_Seq by auto

lemma rmatch_T: "(s', cs') \<in> set (rmatch (T w) (s, cs)) \<longleftrightarrow> s = lit w @ s' \<and> cs' = cs"
  unfolding T_def by (rule rmatch_Txt)

lemma rmatch_Grp_Plus:
  "(s', cs') \<in> set (rmatch (Grp n (Plus (Cls neg rs))) (s, cs)) \<longleftrightarrow>
   (\<exists>u. s = u @ s' \<and> u \<noteq> [] \<and> (\<forall>c\<in>set u. in_class neg rs c) \<and> cs' = AList.update n u cs)"
  unfolding rmatch_Grp rmatch_Plus_Cls by auto

lemma rmatch_ralt: "st \<in> set (rmatch (ralt rs) st0) \<longleftrightarrow> (\<exists>r\<in>set rs. st \<in> set (rmatch r st0))"
  by (induction rs rule: ralt.induct) (auto simp: in_class_def split: list.splits)

lemma rmatch_Grp_words:
  "(s', cs') \<in> set (rmatch (Grp n (ralt (map Txt ts))) (s, cs)) \<longleftrightarrow>
   (\<exists>t\<in>set ts. s = t @ s' \<and> cs' = AList.update n t cs)"
proof -
  have w: "(s', ds) \<in> set (rmatch (ralt (map Txt ts)) (s, cs)) \<longleftrightarrow> (\<exists>t\<in>set ts. s = t @ s' \<and> ds = cs)" for ds
    unfolding rmatch_ralt by (simp only: set_map bex_simps rmatch_Txt)
  show ?thesis unfolding rmatch_Grp w by auto
qed

lemma T_words: "ralt [T a, T b] = ralt (map Txt [lit a, lit b])"
  "ralt [T a, T b, T c] = ralt (map Txt [lit a, lit b, lit c])"
  "ralt [T a, T b, T c, T d] = ralt (map Txt [lit a, lit b, lit c, lit d])"
  by (simp_all add: T_def)

lemma in_class_quote: "in_class True [(34, 34)] c \<longleftrightarrow> c \<noteq> 34"
  by (auto simp: in_class_def)

lemma rmatch_quoted_name:
  "(s', cs') \<in> set (rmatch (quoted_name n) (s, cs)) \<longleftrightarrow>
   (\<exists>p. s = 34 # p @ 34 # s' \<and> p \<noteq> [] \<and> 34 \<notin> set p \<and> cs' = AList.update n p cs)"
  unfolding quoted_name_def rseq.simps rmatch_Seq_ex not_quote_def rmatch_Txt rmatch_Grp_Plus in_class_quote by auto

text \<open>Texts made of the characters of \<open>[\d.eE+-]\<close>.\<close>

definition numChars :: "jstr \<Rightarrow> bool" where
  "numChars u = (\<forall>c\<in>set u. in_class False [(48, 57), (46, 46), (101, 101), (69, 69), (43, 43), (45, 45)] c)"

lemma numChars_not:
  "numChars u \<Longrightarrow> c \<in> set u \<Longrightarrow> c \<notin> {32, 34, 38, 40, 41, 124, 10, 13, 8232, 8233, 92} \<and> \<not> is_ws c"
  by (auto simp: numChars_def in_class_def is_ws_def)

lemma rmatch_number:
  "(s', cs') \<in> set (rmatch (Grp n (Plus num_cls)) (s, cs)) \<longleftrightarrow>
   (\<exists>u. s = u @ s' \<and> u \<noteq> [] \<and> numChars u \<and> cs' = AList.update n u cs)"
  unfolding num_cls_def rmatch_Grp_Plus numChars_def ..

text \<open>A numeric literal consists of such characters.\<close>

definition numeric :: "jstr \<Rightarrow> bool" where
  "numeric u = test_whole NUMERIC_LITERAL_REGEX u"

lemma numChars_append [simp]: "numChars (u @ v) \<longleftrightarrow> numChars u \<and> numChars v"
  by (auto simp: numChars_def)

lemma num_consumes:
  "(s', cs') \<in> set (rmatch NUMERIC_LITERAL_REGEX (s, cs)) \<Longrightarrow> \<exists>u. s = u @ s' \<and> u \<noteq> [] \<and> numChars u"
proof -
  assume m: "(s', cs') \<in> set (rmatch NUMERIC_LITERAL_REGEX (s, cs))"
  have opt: "\<exists>u. s = u @ s' \<and> numChars u" if "(s', cs') \<in> set (rmatch (Opt r) (s, cs))"
      "\<And>s cs s' cs'. (s', cs') \<in> set (rmatch r (s, cs)) \<Longrightarrow> \<exists>u. s = u @ s' \<and> numChars u" for r s cs s' cs'
    using that(1) that(2) [of s' cs' s cs] by (auto simp: Opt_def numChars_def)
  have word: "\<exists>u. s = u @ s' \<and> numChars u" if "(s', cs') \<in> set (rmatch (T w) (s, cs))" "numChars (lit w)" for w s cs s' cs'
    using that by (auto simp: rmatch_T)
  have digits: "\<exists>u. s = u @ s' \<and> u \<noteq> [] \<and> numChars u" if "(s', cs') \<in> set (rmatch (Plus digit_cls) (s, cs))" for s cs s' cs'
    using that unfolding digit_cls_def rmatch_Plus_Cls by (auto simp: numChars_def in_class_def)
  have digits0: "\<exists>u. s = u @ s' \<and> numChars u" if "(s', cs') \<in> set (rmatch (Star digit_cls) (s, cs))" for s cs s' cs'
    using that unfolding digit_cls_def rmatch_Star_Cls by (auto simp: numChars_def in_class_def)
  have cls: "\<exists>u. s = u @ s' \<and> numChars u"
    if ab: "(s', cs') \<in> set (rmatch (Cls False [(a, a), (b, b)]) (s, cs))" "numChars [a, b]" for a b s cs s' cs'
  proof -
    obtain c where "s = c # s'" "c = a \<or> c = b" using ab(1) unfolding rmatch_Cls by (auto simp: in_class_def)
    then show ?thesis using ab(2) by (intro exI [of _ "[c]"]) (auto simp: numChars_def)
  qed
  have sym: "numChars (lit ''-'')" "numChars (lit ''.'')" "numChars [101, 69]" "numChars [43, 45]"
    by (simp_all add: numChars_def in_class_def lit_def)
  have exponent: "\<exists>u. s = u @ s' \<and> numChars u"
    if e: "(s', cs') \<in> set (rmatch (rseq [Cls False [(101, 101), (69, 69)], Opt (Cls False [(43, 43), (45, 45)]), Plus digit_cls]) (s, cs))"
    for s cs s' cs'
  proof -
    obtain t ds t' ds' where "(t, ds) \<in> set (rmatch (Cls False [(101, 101), (69, 69)]) (s, cs))"
        "(t', ds') \<in> set (rmatch (Opt (Cls False [(43, 43), (45, 45)])) (t, ds))"
        "(s', cs') \<in> set (rmatch (Plus digit_cls) (t', ds'))"
      using e unfolding rseq.simps rmatch_Seq_ex by blast
    note parts = this
    obtain a where a: "s = a @ t" "numChars a" using cls [OF parts(1)] sym(3) by blast
    obtain b where b: "t = b @ t'" "numChars b" using opt [OF parts(2)] cls sym(4) by blast
    obtain d where "t' = d @ s'" "numChars d" using digits [OF parts(3)] by blast
    with a b show ?thesis by (intro exI [of _ "a @ b @ d"]) simp
  qed
  obtain t ds t' ds' where p: "(t, ds) \<in> set (rmatch (Opt (T ''-'')) (s, cs))"
      "(t', ds') \<in> set (rmatch (Alt (rseq [Plus digit_cls, Opt (T ''.''), Star digit_cls]) (rseq [T ''.'', Plus digit_cls])) (t, ds))"
      "(s', cs') \<in> set (rmatch (Opt (rseq [Cls False [(101, 101), (69, 69)], Opt (Cls False [(43, 43), (45, 45)]), Plus digit_cls])) (t', ds'))"
    using m unfolding NUMERIC_LITERAL_REGEX_def rseq.simps rmatch_Seq_ex by blast
  from opt [OF p(1)] word sym(1) obtain u1 where u1: "s = u1 @ t" "numChars u1" by metis
  from opt [OF p(3)] exponent obtain u3 where u3: "t' = u3 @ s'" "numChars u3" by metis
  have "\<exists>u. t = u @ t' \<and> u \<noteq> [] \<and> numChars u"
  proof -
    consider "(t', ds') \<in> set (rmatch (rseq [Plus digit_cls, Opt (T ''.''), Star digit_cls]) (t, ds))"
      | "(t', ds') \<in> set (rmatch (rseq [T ''.'', Plus digit_cls]) (t, ds))" using p(2) by auto
    then show ?thesis
    proof cases
      case 1
      then obtain a as b bs where "(a, as) \<in> set (rmatch (Plus digit_cls) (t, ds))" "(b, bs) \<in> set (rmatch (Opt (T ''.'')) (a, as))"
          "(t', ds') \<in> set (rmatch (Star digit_cls) (b, bs))"
        unfolding rseq.simps rmatch_Seq_ex by blast
      note parts = this
      obtain x where x: "t = x @ a" "x \<noteq> []" "numChars x" using digits [OF parts(1)] by blast
      obtain y where y: "a = y @ b" "numChars y" using opt [OF parts(2)] word sym(2) by blast
      obtain z where "b = z @ t'" "numChars z" using digits0 [OF parts(3)] by blast
      with x y show ?thesis by (intro exI [of _ "x @ y @ z"]) simp
    next
      case 2
      then obtain a as where "(a, as) \<in> set (rmatch (T ''.'') (t, ds))" "(t', ds') \<in> set (rmatch (Plus digit_cls) (a, as))"
        unfolding rseq.simps rmatch_Seq_ex by blast
      note parts = this
      obtain x where x: "t = x @ a" "numChars x" using word [OF parts(1)] sym(2) by blast
      obtain y where "a = y @ t'" "y \<noteq> []" "numChars y" using digits [OF parts(2)] by blast
      with x show ?thesis by (intro exI [of _ "x @ y"]) simp
    qed
  qed
  then obtain u2 where "t = u2 @ t'" "u2 \<noteq> []" "numChars u2" by blast
  with u1 u3 show ?thesis by (intro exI [of _ "u1 @ u2 @ u3"]) simp
qed

lemma numeric_chars: "numeric u \<Longrightarrow> u \<noteq> [] \<and> numChars u"
  using num_consumes unfolding numeric_def test_whole_iff by fastforce

lemma numeric_trim: "numeric u \<Longrightarrow> trim u = u"
  using numeric_chars numChars_not by (intro trim_no_ws) blast

section \<open>Calls\<close>

definition callForm :: "jstr \<Rightarrow> jstr \<Rightarrow> jstr \<Rightarrow> jstr" where
  "callForm f p tail = f @ 40 # 34 # p @ 34 # 41 # tail"

lemma callForm_inject:
  assumes "callForm f p t = callForm f' p' t'" "40 \<notin> set f" "40 \<notin> set f'" "34 \<notin> set p" "34 \<notin> set p'"
  shows "f = f' \<and> p = p' \<and> t = t'"
proof -
  have "f = f'" "34 # p @ 34 # 41 # t = 34 # p' @ 34 # 41 # t'"
    using split_at [of f 40 _ f'] assms(1-3) by (auto simp: callForm_def)
  then show ?thesis using split_at [of p 34 "41 # t" p' "41 # t'"] assms(4,5) by simp
qed

lemma TIME_FUNCS_plain: "f \<in> set TIME_FUNCS \<Longrightarrow> 40 \<notin> set f \<and> f \<noteq> lit ''header'' \<and> f \<noteq> lit ''param'' \<and> f \<noteq> lit ''has'' \<and> f \<noteq> []"
  by (auto simp: TIME_FUNCS_def lit_def)

section \<open>The complete matches of each pattern\<close>

definition wholeMatch :: "regex \<Rightarrow> jstr \<Rightarrow> captures \<Rightarrow> bool" where
  "wholeMatch r s cs = (([], cs) \<in> set (rmatch r (s, [])))"

text \<open>Reading a match off a text, part by part.\<close>

lemmas pattern_simps = rseq.simps rmatch_Seq_ex rmatch_T rmatch_Txt rmatch_quoted_name rmatch_number rmatch_Ref
  T_words time_func_re_def rmatch_Grp_words

text \<open>Building a match of a text, part by part.\<close>

lemma seqI:
  "(t, ds) \<in> set (rmatch a (s, cs)) \<Longrightarrow> (s', es) \<in> set (rmatch b (t, ds)) \<Longrightarrow> (s', es) \<in> set (rmatch (Seq a b) (s, cs))"
  unfolding rmatch_Seq_ex by blast

lemma txtI: "(t, cs) \<in> set (rmatch (Txt w) (w @ t, cs))"
  unfolding rmatch_Txt by simp

lemma wordI: "(t, cs) \<in> set (rmatch (T w) (lit w @ t, cs))"
  unfolding rmatch_T by simp

lemma nameI: "p \<noteq> [] \<Longrightarrow> 34 \<notin> set p \<Longrightarrow> (t, AList.update n p cs) \<in> set (rmatch (quoted_name n) (34 # p @ 34 # t, cs))"
  unfolding rmatch_quoted_name by blast

lemma numberI: "u \<noteq> [] \<Longrightarrow> numChars u \<Longrightarrow> (t, AList.update n u cs) \<in> set (rmatch (Grp n (Plus num_cls)) (u @ t, cs))"
  unfolding rmatch_number by blast

lemma choiceI: "w \<in> set ts \<Longrightarrow> (t, AList.update n w cs) \<in> set (rmatch (Grp n (ralt (map Txt ts))) (w @ t, cs))"
  unfolding rmatch_Grp_words by blast

lemma refI: "w = group n cs \<Longrightarrow> (t, cs) \<in> set (rmatch (Ref n) (w @ t, cs))"
  unfolding rmatch_Ref by simp

lemma runI:
  "u \<noteq> [] \<Longrightarrow> \<forall>c\<in>set u. in_class neg rs c \<Longrightarrow>
   (t, AList.update n u cs) \<in> set (rmatch (Grp n (Plus (Cls neg rs))) (u @ t, cs))"
  unfolding rmatch_Grp_Plus by blast

lemmas buildI = seqI txtI wordI nameI numberI choiceI refI runI

subsection \<open>Existence\<close>

lemma header_exists_match:
  "wholeMatch header_exists_re s cs \<Longrightarrow>
   \<exists>p. s = callForm (lit ''header'') p (lit '' != '' @ [34, 34]) \<and> p \<noteq> [] \<and> 34 \<notin> set p \<and> cs = [(1, p)]"
  unfolding wholeMatch_def header_exists_re_def pattern_simps by (auto simp: callForm_def lit_def)

lemma header_exists_build:
  "p \<noteq> [] \<Longrightarrow> 34 \<notin> set p \<Longrightarrow> wholeMatch header_exists_re (callForm (lit ''header'') p (lit '' != '' @ [34, 34])) [(1, p)]"
proof -
  assume p: "p \<noteq> []" "34 \<notin> set p"
  have "([], AList.update 1 p []) \<in> set (rmatch header_exists_re (lit ''header('' @ 34 # p @ 34 # lit '') != '' @ [34, 34] @ [], []))"
    unfolding header_exists_re_def rseq.simps by (rule buildI p)+
  then show ?thesis by (simp add: wholeMatch_def callForm_def lit_def del: rmatch.simps)
qed

lemma param_exists_match:
  "wholeMatch param_exists_re s cs \<Longrightarrow>
   \<exists>p. s = callForm (lit ''param'') p (lit '' != nil'') \<and> p \<noteq> [] \<and> 34 \<notin> set p \<and> cs = [(1, p)]"
  unfolding wholeMatch_def param_exists_re_def pattern_simps by (auto simp: callForm_def lit_def)

lemma param_exists_build:
  "p \<noteq> [] \<Longrightarrow> 34 \<notin> set p \<Longrightarrow> wholeMatch param_exists_re (callForm (lit ''param'') p (lit '' != nil'')) [(1, p)]"
proof -
  assume p: "p \<noteq> []" "34 \<notin> set p"
  have "([], AList.update 1 p []) \<in> set (rmatch param_exists_re (lit ''param('' @ 34 # p @ 34 # lit '') != nil'' @ [], []))"
    unfolding param_exists_re_def rseq.simps by (rule buildI p)+
  then show ?thesis by (simp add: wholeMatch_def callForm_def lit_def del: rmatch.simps)
qed

subsection \<open>Times\<close>

definition compareTail :: "jstr \<Rightarrow> jstr \<Rightarrow> jstr" where
  "compareTail op v = lit '' '' @ op @ lit '' '' @ v"

definition rangeTail :: "jstr \<Rightarrow> jstr \<Rightarrow> jstr \<Rightarrow> jstr \<Rightarrow> jstr" where
  "rangeTail f p a b = lit '' >= '' @ a @ lit '' || '' @ callForm f p (lit '' < '' @ b)"

lemma time_compare_match:
  "wholeMatch time_compare_re s cs \<Longrightarrow>
   \<exists>f p op v. s = callForm f p (compareTail op v) \<and> f \<in> set TIME_FUNCS \<and> op \<in> {lit ''=='', lit ''>='', lit ''<''}
      \<and> p \<noteq> [] \<and> 34 \<notin> set p \<and> v \<noteq> [] \<and> numChars v \<and> cs = [(1, f), (2, p), (3, op), (4, v)]"
  unfolding wholeMatch_def time_compare_re_def pattern_simps
  by (auto simp: callForm_def compareTail_def lit_def)

lemma time_compare_build:
  assumes "f \<in> set TIME_FUNCS" "op \<in> {lit ''=='', lit ''>='', lit ''<''}" "p \<noteq> []" "34 \<notin> set p" "v \<noteq> []" "numChars v"
  shows "wholeMatch time_compare_re (callForm f p (compareTail op v)) [(1, f), (2, p), (3, op), (4, v)]"
proof -
  have op: "op \<in> set [lit ''=='', lit ''>='', lit ''<'']" using assms(2) by simp
  have "([], AList.update 4 v (AList.update 3 op (AList.update 2 p (AList.update 1 f []))))
      \<in> set (rmatch time_compare_re (f @ lit ''('' @ 34 # p @ 34 # lit '') '' @ op @ lit '' '' @ v @ [], []))"
    unfolding time_compare_re_def rseq.simps T_words time_func_re_def
    by (rule buildI assms op)+
  then show ?thesis by (simp add: wholeMatch_def callForm_def compareTail_def lit_def del: rmatch.simps)
qed

lemma time_range_match:
  "wholeMatch time_range_re s cs \<Longrightarrow>
   \<exists>f p a b. s = callForm f p (rangeTail f p a b) \<and> f \<in> set TIME_FUNCS
      \<and> p \<noteq> [] \<and> 34 \<notin> set p \<and> a \<noteq> [] \<and> numChars a \<and> b \<noteq> [] \<and> numChars b \<and> cs = [(1, f), (2, p), (3, a), (4, b)]"
  unfolding wholeMatch_def time_range_re_def pattern_simps
  by (auto simp: callForm_def rangeTail_def lit_def group_def)

lemma time_range_build:
  assumes "f \<in> set TIME_FUNCS" "p \<noteq> []" "34 \<notin> set p" "a \<noteq> []" "numChars a" "b \<noteq> []" "numChars b"
  shows "wholeMatch time_range_re (callForm f p (rangeTail f p a b)) [(1, f), (2, p), (3, a), (4, b)]"
proof -
  have "([], AList.update 4 b (AList.update 3 a (AList.update 2 p (AList.update 1 f []))))
      \<in> set (rmatch time_range_re (f @ lit ''('' @ 34 # p @ 34 # lit '') >= '' @ a @ lit '' || '' @ f @ lit ''('' @ [34] @ p @ [34]
          @ lit '') < '' @ b @ [], []))"
    unfolding time_range_re_def rseq.simps time_func_re_def
    by (rule buildI assms | (simp add: group_def)[1])+
  then show ?thesis by (simp add: wholeMatch_def callForm_def rangeTail_def lit_def del: rmatch.simps)
qed

lemma time_range_paren_match:
  "wholeMatch time_range_paren_re s cs \<Longrightarrow>
   \<exists>f p a b. s = 40 # callForm f p (rangeTail f p a b) @ [41] \<and> f \<in> set TIME_FUNCS
      \<and> p \<noteq> [] \<and> 34 \<notin> set p \<and> a \<noteq> [] \<and> numChars a \<and> b \<noteq> [] \<and> numChars b \<and> cs = [(1, f), (2, p), (3, a), (4, b)]"
  unfolding wholeMatch_def time_range_paren_re_def pattern_simps
  by (auto simp: callForm_def rangeTail_def lit_def group_def)

lemma time_range_paren_build:
  assumes "f \<in> set TIME_FUNCS" "p \<noteq> []" "34 \<notin> set p" "a \<noteq> []" "numChars a" "b \<noteq> []" "numChars b"
  shows "wholeMatch time_range_paren_re (40 # callForm f p (rangeTail f p a b) @ [41]) [(1, f), (2, p), (3, a), (4, b)]"
proof -
  have "([], AList.update 4 b (AList.update 3 a (AList.update 2 p (AList.update 1 f []))))
      \<in> set (rmatch time_range_paren_re (lit ''('' @ f @ lit ''('' @ 34 # p @ 34 # lit '') >= '' @ a @ lit '' || '' @ f @ lit ''('' @ [34] @ p @ [34]
          @ lit '') < '' @ b @ lit '')'' @ [], []))"
    unfolding time_range_paren_re_def rseq.simps time_func_re_def
    by (rule buildI assms | (simp add: group_def)[1])+
  then show ?thesis by (simp add: wholeMatch_def callForm_def rangeTail_def lit_def del: rmatch.simps)
qed

subsection \<open>Equality\<close>

lemma in_class_dot: "in_class True [(10, 10), (13, 13), (8232, 8233)] c \<longleftrightarrow> c \<notin> {10, 13, 8232, 8233}"
  by (auto simp: in_class_def)

lemma equals_match:
  "wholeMatch equals_re s cs \<Longrightarrow>
   \<exists>f p v. s = callForm f p (lit '' == '' @ v) \<and> f \<in> {lit ''param'', lit ''header''} \<and> p \<noteq> [] \<and> 34 \<notin> set p
      \<and> cs = [(1, f), (2, p), (3, v)]"
  unfolding wholeMatch_def equals_re_def pattern_simps dot_def rmatch_Grp_Plus in_class_dot
  by (auto simp: callForm_def lit_def)

lemma equals_build:
  assumes "f \<in> set [lit ''param'', lit ''header'']" "p \<noteq> []" "34 \<notin> set p" "v \<noteq> []" "\<forall>c\<in>set v. c \<notin> {10, 13, 8232, 8233}"
  shows "wholeMatch equals_re (callForm f p (lit '' == '' @ v)) [(1, f), (2, p), (3, v)]"
proof -
  have v: "\<forall>c\<in>set v. in_class True [(10, 10), (13, 13), (8232, 8233)] c" using assms(5) by (simp only: in_class_dot)
  have "([], AList.update 3 v (AList.update 2 p (AList.update 1 f [])))
      \<in> set (rmatch equals_re (f @ lit ''('' @ 34 # p @ 34 # lit '') == '' @ v @ [], []))"
    unfolding equals_re_def rseq.simps T_words dot_def by (rule buildI assms v)+
  then show ?thesis by (simp add: wholeMatch_def callForm_def lit_def del: rmatch.simps)
qed

subsection \<open>Containment and comparison\<close>

lemma param_compare_match:
  "wholeMatch param_compare_re s cs \<Longrightarrow>
   \<exists>p tail. s = callForm (lit ''param'') p (lit '' != nil && '' @ tail) \<and> p \<noteq> [] \<and> 34 \<notin> set p"
  unfolding wholeMatch_def param_compare_re_def pattern_simps by (auto simp: callForm_def lit_def)

lemma param_contains_match:
  "wholeMatch param_contains_re s cs \<Longrightarrow>
   \<exists>p tail. s = callForm (lit ''param'') p (lit '' != nil && '' @ tail) \<and> p \<noteq> [] \<and> 34 \<notin> set p"
  unfolding wholeMatch_def param_contains_re_def pattern_simps by (auto simp: callForm_def lit_def)

text \<open>A pattern without groups leaves the captures alone.\<close>

fun groups_free :: "regex \<Rightarrow> bool" where
  "groups_free (Grp n r) = False"
| "groups_free (Alt a b) = (groups_free a \<and> groups_free b)"
| "groups_free (Seq a b) = (groups_free a \<and> groups_free b)"
| "groups_free (Star a) = groups_free a"
| "groups_free _ = True"

lemma groups_free_captures: "groups_free r \<Longrightarrow> (s', cs') \<in> set (rmatch r (s, cs)) \<Longrightarrow> cs' = cs"
proof (induction r arbitrary: s cs s' cs')
  case (Star a)
  have "cs' = cs" if "(s', cs') \<in> set (star_iter n (rmatch a) (s, cs))" for n
    using that
  proof (induction n arbitrary: s cs)
    case (Suc n)
    then consider "cs' = cs" | t ds where "(t, ds) \<in> set (rmatch a (s, cs))" "(s', cs') \<in> set (star_iter n (rmatch a) (t, ds))"
      by (auto split: if_splits)
    then show ?case
    proof cases
      case 2
      with Star.IH Star.prems(1) Suc.IH show ?thesis by fastforce
    qed
  qed simp
  then show ?case using Star.prems by simp
next
  case (Seq a b)
  then show ?case unfolding rmatch_Seq_ex by (metis groups_free.simps(3))
next
  case (Cls neg rs)
  then show ?case by (cases s) (auto split: if_splits)
qed (auto simp: Let_def split: if_splits)

lemma rmatch_Grp_text:
  "groups_free r \<Longrightarrow> (s', cs') \<in> set (rmatch (Grp n r) (s, cs)) \<longleftrightarrow>
   (\<exists>u. s = u @ s' \<and> (s', cs) \<in> set (rmatch r (s, cs)) \<and> cs' = AList.update n u cs)"
  unfolding rmatch_Grp
  using groups_free_captures rmatch_suffix by (metis append_take_drop_id append_eq_conv_conj length_append add_diff_cancel_right' same_append_eq append_same_eq)

lemma literal_groups_free: "groups_free string_literal_re"
  by (simp add: string_literal_re_def dot_def)

lemma header_contains_match:
  "wholeMatch header_contains_re s cs \<Longrightarrow>
   \<exists>p l. s = lit ''has('' @ callForm (lit ''header'') p (lit '', '' @ l @ lit '')'') \<and> p \<noteq> [] \<and> 34 \<notin> set p
     \<and> cs = [(1, p), (2, l)]"
  unfolding wholeMatch_def header_contains_re_def pattern_simps rmatch_Grp_text [OF literal_groups_free]
  by (auto simp: callForm_def lit_def)

text \<open>The escaped text of a string is made of the pieces the literal pattern repeats.\<close>

definition piece :: "jstr \<Rightarrow> bool" where
  "piece w = ((\<exists>c. w = [c] \<and> c \<notin> {34, 92}) \<or> (\<exists>c. w = [92, c] \<and> c \<notin> {10, 13, 8232, 8233}))"

definition pieces :: "jstr \<Rightarrow> bool" where
  "pieces s = (\<exists>ws. s = concat ws \<and> (\<forall>w\<in>set ws. piece w))"

lemma pieces_append: "pieces u \<Longrightarrow> pieces v \<Longrightarrow> pieces (u @ v)"
  unfolding pieces_def by (metis Un_iff concat_append set_append)

lemma pieces_single: "piece w \<Longrightarrow> pieces w"
  unfolding pieces_def by (intro exI [of _ "[w]"]) simp

lemma pieces_char: "c \<notin> {34, 92} \<Longrightarrow> pieces v \<Longrightarrow> pieces (c # v)"
  using pieces_append [OF pieces_single [of "[c]"]] by (simp add: piece_def)

lemma pieces_Nil: "pieces []"
  unfolding pieces_def by (intro exI [of _ "[]"]) simp

lemma hex_char_plain: "0 \<le> d \<Longrightarrow> d < 16 \<Longrightarrow> hex_char d \<notin> {34, 92}"
  by (auto simp: hex_char_def)

lemma pieces_unicode: "pieces (unicode_escape c)"
proof -
  have "pieces (map hex_char [c div 4096 mod 16, c div 256 mod 16, c div 16 mod 16, c mod 16])"
    by (simp only: list.map) (intro pieces_char pieces_Nil hex_char_plain; simp)
  moreover have "pieces [92, 117]" by (intro pieces_single) (simp add: piece_def)
  ultimately have "pieces ([92, 117] @ map hex_char [c div 4096 mod 16, c div 256 mod 16, c div 16 mod 16, c mod 16])"
    by (rule pieces_append [rotated])
  then show ?thesis by (simp add: unicode_escape_def lit_def)
qed

lemma pieces_unit: "pieces (quote_unit c)"
  using pieces_unicode by (auto simp: quote_unit_def intro!: pieces_single simp: piece_def)

lemma pieces_quote: "pieces (quote_units s)"
proof (induction s rule: quote_units.induct)
  case (3 c d r)
  have plain: "c \<notin> {34, 92}" "d \<notin> {34, 92}" if "is_high_surrogate c" "is_low_surrogate d"
    using that by (auto simp: is_high_surrogate_def is_low_surrogate_def)
  show ?case
    using 3 plain
    by (auto intro!: pieces_append pieces_unicode pieces_unit pieces_char)
qed (auto simp: pieces_Nil pieces_unicode pieces_unit)

lemma literal_build: "(t, cs) \<in> set (rmatch string_literal_re (json_quote v @ t, cs))"
proof -
  obtain ws where ws: "quote_units v = concat ws" "\<forall>w\<in>set ws. piece w" using pieces_quote unfolding pieces_def by blast
  let ?r = "Alt (Cls True [(34, 34), (92, 92)]) (Seq (Txt [92]) dot)"
  have "w \<noteq> [] \<and> (\<forall>rest. (rest, cs) \<in> set (rmatch ?r (w @ rest, cs)))" if "w \<in> set ws" for w
    using ws(2) that by (auto simp: piece_def in_class_def dot_def starts_with_def)
  then have "(34 # t, cs) \<in> set (rmatch (Star ?r) (concat ws @ 34 # t, cs))" by (intro rmatch_Star_pieces) blast
  then have "(t, cs) \<in> set (rmatch string_literal_re ([34] @ concat ws @ [34] @ t, cs))"
    unfolding string_literal_re_def rseq.simps by (intro seqI [OF txtI] seqI [OF _ txtI]) simp
  then show ?thesis by (simp only: json_quote_def ws(1) append.assoc)
qed

lemma header_contains_build:
  assumes "p \<noteq> []" "34 \<notin> set p"
  shows "wholeMatch header_contains_re (lit ''has('' @ callForm (lit ''header'') p (lit '', '' @ json_quote v @ lit '')''))
     [(1, p), (2, json_quote v)]"
proof -
  have l: "(t, AList.update 2 (json_quote v) cs) \<in> set (rmatch (Grp 2 string_literal_re) (json_quote v @ t, cs))" for t cs
    unfolding rmatch_Grp_text [OF literal_groups_free] using literal_build by blast
  have "([], AList.update 2 (json_quote v) (AList.update 1 p []))
      \<in> set (rmatch header_contains_re (lit ''has(header('' @ 34 # p @ 34 # lit ''), '' @ json_quote v @ lit '')'' @ [], []))"
    unfolding header_contains_re_def rseq.simps by (rule buildI assms l)+
  then show ?thesis by (simp add: wholeMatch_def callForm_def lit_def del: rmatch.simps)
qed

subsection \<open>Factors\<close>

lemma rule_factor_match:
  "wholeMatch rule_factor_re s cs \<Longrightarrow>
   \<exists>a m. s = 40 # a @ lit '' ? '' @ m @ lit '' : 1)'' \<and> m \<noteq> [] \<and> numChars m \<and> cs = [(1, a), (2, m)]"
  unfolding wholeMatch_def rule_factor_re_def pattern_simps any_char_def rmatch_Grp_Plus
  by (auto simp: lit_def)

lemma rule_factor_build:
  assumes "a \<noteq> []" "m \<noteq> []" "numChars m"
  shows "wholeMatch rule_factor_re (40 # a @ lit '' ? '' @ m @ lit '' : 1)'') [(1, a), (2, m)]"
proof -
  have a: "\<forall>c\<in>set a. in_class True [] c" by (simp add: in_class_def)
  have "([], AList.update 2 m (AList.update 1 a []))
      \<in> set (rmatch rule_factor_re (lit ''('' @ a @ lit '' ? '' @ m @ lit '' : 1)'' @ [], []))"
    unfolding rule_factor_re_def rseq.simps any_char_def by (rule buildI assms a)+
  then show ?thesis by (simp add: wholeMatch_def lit_def del: rmatch.simps)
qed

end
