(* ===== verification/Billing_Rules.thy ===== *)
theory Billing_Rules
  imports Billing_Match
begin

text \<open>
  Request rules read back: the text written for a list of rules is read as that list, for the
  conditions that the reader covers (\<open>readable\<close>); splitting a combined expression returns its
  parts.  Comparisons and containment of parameters are written in a form that the reader, which first
  splits at every \<open>&&\<close>, cannot read.
\<close>

section \<open>Texts that survive\<close>

text \<open>Characters that have a meaning for the splitting loops or end a line.\<close>

definition special :: "int set" where
  "special = {38, 40, 41, 124, 8232, 8233, 10, 13}"

definition plainName :: "jstr \<Rightarrow> bool" where
  "plainName p = (p \<noteq> [] \<and> trimmed p \<and> (\<forall>c\<in>set p. 32 \<le> c \<and> c < 55296 \<and> c \<notin> {34, 92} \<and> c \<notin> special))"

definition plainValue :: "jstr \<Rightarrow> bool" where
  "plainValue v = (trimmed v \<and> code_units v \<and> (\<forall>c\<in>set v. c \<in> special \<longrightarrow> c \<in> {10, 13}))"

definition readableTime :: "TimeCondition \<Rightarrow> bool" where
  "readableTime t =
     (timeFunc t \<in> set TIME_FUNCS \<and> plainName (timezone t) \<and>
      (t_mode t = MATCH_RANGE \<and> t_value t = [] \<and> numeric (rangeStart t) \<and> numeric (rangeEnd t)
       \<or> t_mode t \<in> {MATCH_EQ, MATCH_GTE, MATCH_LT} \<and> numeric (t_value t) \<and> rangeStart t = [] \<and> rangeEnd t = []))"

definition readableParamHeader :: "ParamHeaderCondition \<Rightarrow> bool" where
  "readableParamHeader c =
     (plainName (ph_path c) \<and>
      (ph_mode c = MATCH_EXISTS \<and> ph_value c = []
       \<or> ph_mode c = MATCH_EQ \<and> plainValue (ph_value c)
       \<or> ph_mode c = MATCH_CONTAINS \<and> ph_source c = SourceHeader \<and> plainValue (ph_value c)))"

fun readable :: "RequestCondition \<Rightarrow> bool" where
  "readable (Time t) = readableTime t"
| "readable (ParamHeader c) = readableParamHeader c"

definition readableGroup :: "RequestRuleGroup \<Rightarrow> bool" where
  "readableGroup g = (conditions g \<noteq> [] \<and> (\<forall>c\<in>set (conditions g). readable c) \<and> numeric (multiplier g))"

lemma quote_units_plain:
  "\<forall>c\<in>set p. 32 \<le> c \<and> c < 55296 \<and> c \<notin> {34, 92} \<Longrightarrow> quote_units p = p"
proof (induction p rule: quote_units.induct)
  case (2 c)
  then show ?case by (auto simp: is_high_surrogate_def is_low_surrogate_def quote_unit_def)
next
  case (3 c d r)
  then show ?case by (auto simp: is_high_surrogate_def is_low_surrogate_def quote_unit_def)
qed simp

lemma json_quote_name: "plainName p \<Longrightarrow> json_quote p = 34 # p @ [34]"
  by (simp add: json_quote_def plainName_def quote_units_plain)

lemma hex_char_special: "0 \<le> d \<Longrightarrow> d < 16 \<Longrightarrow> hex_char d \<notin> special"
  by (auto simp: hex_char_def special_def)

lemma unicode_escape_special: "c \<in> set (unicode_escape d) \<Longrightarrow> c \<notin> special"
  using hex_char_special [of "d div 4096 mod 16"] hex_char_special [of "d div 256 mod 16"]
    hex_char_special [of "d div 16 mod 16"] hex_char_special [of "d mod 16"]
  by (auto simp: unicode_escape_def lit_def special_def)

lemma quote_unit_special: "(d \<in> special \<longrightarrow> d \<in> {10, 13}) \<Longrightarrow> c \<in> set (quote_unit d) \<Longrightarrow> c \<notin> special"
  using unicode_escape_special [of c d] by (auto simp: quote_unit_def special_def split: if_splits)

lemma quote_units_special:
  "\<forall>d\<in>set v. d \<in> special \<longrightarrow> d \<in> {10, 13} \<Longrightarrow> c \<in> set (quote_units v) \<Longrightarrow> c \<notin> special"
proof (induction v rule: quote_units.induct)
  case (2 d)
  then show ?case using quote_unit_special unicode_escape_special by (auto split: if_splits)
next
  case (3 d e r)
  have sur: "x \<notin> {10, 13}" if "is_high_surrogate x \<or> is_low_surrogate x" for x
    using that by (auto simp: is_high_surrogate_def is_low_surrogate_def)
  show ?case
  proof (cases "is_high_surrogate d \<and> is_low_surrogate e")
    case True
    then have "d \<notin> special" "e \<notin> special" using 3(5) sur by auto
    with True 3 show ?thesis by auto
  next
    case False
    then consider "c \<in> set (quote_unit d)" | "c \<in> set (unicode_escape d)" | "c \<in> set (quote_units (e # r))"
      using 3(6) by (auto split: if_splits)
    then show ?thesis
    proof cases
      case 1
      then show ?thesis using quote_unit_special [of d c] "3.prems"(1) by simp
    next
      case 2
      then show ?thesis by (rule unicode_escape_special)
    next
      case 3
      then show ?thesis using "3.IH" "3.prems" False by (cases "is_high_surrogate d") (simp_all split: if_splits)
    qed
  qed
qed simp

lemma json_quote_special: "plainValue v \<Longrightarrow> c \<in> set (json_quote v) \<Longrightarrow> c \<notin> special"
proof -
  assume v: "plainValue v" "c \<in> set (json_quote v)"
  then consider "c = 34" | "c \<in> set (quote_units v)" by (auto simp: json_quote_def)
  then show ?thesis
  proof cases
    case 1
    then show ?thesis by (simp add: special_def)
  next
    case 2
    show ?thesis using v(1) by (intro quote_units_special [OF _ 2]) (simp add: plainValue_def)
  qed
qed

lemma trim_quote: "trim (json_quote v) = json_quote v"
  by (rule trimmed_trim_id) (simp add: trimmed_def json_quote_def is_ws_def)

section \<open>Literals\<close>

lemma numChars_special: "numChars u \<Longrightarrow> c \<in> set u \<Longrightarrow> c \<notin> special"
  using numChars_not [of u c] by (auto simp: special_def)

lemma quote_not_numeric: "\<not> numeric (json_quote v)"
proof
  assume "numeric (json_quote v)"
  then have "numChars (json_quote v)" using numeric_chars by blast
  then show False using numChars_not [of "json_quote v" 34] by (simp add: json_quote_def)
qed

lemma parse_quote: "code_units v \<Longrightarrow> json_parse (json_quote v) = Some (JStr v)"
  using json_roundtrip [of "JStr v" 0] by (simp add: json_stringify_def)

lemma literal_roundtrip:
  assumes "plainValue v"
  shows "parseExprLiteral (buildExprLiteral MATCH_EQ v) = JStr v"
    and "buildExprLiteral MATCH_EQ v \<noteq> []" "\<forall>c\<in>set (buildExprLiteral MATCH_EQ v). c \<notin> special"
    and "trimmed (buildExprLiteral MATCH_EQ v)"
proof -
  have tv: "trim v = v" using assms by (simp add: plainValue_def trimmed_trim_id)
  have ne: "MATCH_EQ \<noteq> MATCH_CONTAINS" by (simp add: match_modes lit_def)
  define l where "l = buildExprLiteral MATCH_EQ v"
  have l: "l = (if v = lit ''true'' \<or> v = lit ''false'' then v else if numeric v then v else json_quote v)"
    unfolding l_def buildExprLiteral_def Let_def tv numeric_def using ne by simp
  consider "v = lit ''true'' \<or> v = lit ''false''"
    | "\<not> (v = lit ''true'' \<or> v = lit ''false'')" "numeric v"
    | "\<not> (v = lit ''true'' \<or> v = lit ''false'')" "\<not> numeric v"
    by blast
  then have "parseExprLiteral l = JStr v \<and> l \<noteq> [] \<and> (\<forall>c\<in>set l. c \<notin> special) \<and> trimmed l"
  proof cases
    case 1
    have "\<forall>c\<in>set (lit ''true'') \<union> set (lit ''false''). c \<notin> special" by (simp add: special_def lit_def)
    then have "\<forall>c\<in>set v. c \<notin> special" using 1 by blast
    moreover have "v \<noteq> []" using 1 by (auto simp: lit_def)
    moreover have "parseExprLiteral v = JStr v" unfolding parseExprLiteral_def Let_def tv using 1 by simp
    ultimately show ?thesis using assms l 1 by (simp add: plainValue_def)
  next
    case 2
    have "\<forall>c\<in>set v. c \<notin> special" "v \<noteq> []" using numeric_chars [OF 2(2)] numChars_special by blast+
    moreover have "parseExprLiteral v = JStr v"
      unfolding parseExprLiteral_def Let_def tv numeric_def [symmetric] using 2 by simp
    ultimately show ?thesis using assms l 2 by (simp add: plainValue_def)
  next
    case 3
    have "json_quote v \<noteq> lit ''true''" "json_quote v \<noteq> lit ''false''" by (simp_all add: json_quote_def lit_def)
    moreover have "code_units v" using assms by (simp add: plainValue_def)
    ultimately have "parseExprLiteral (json_quote v) = JStr v"
      using quote_not_numeric parse_quote by (simp add: parseExprLiteral_def trim_quote numeric_def [symmetric])
    moreover have "trimmed (json_quote v)" by (metis trim_quote trimmed_trim)
    moreover have "l = json_quote v" using l 3 by simp
    moreover have "json_quote v \<noteq> []" by (simp add: json_quote_def)
    ultimately show ?thesis using json_quote_special [OF assms] by simp
  qed
  then show "parseExprLiteral (buildExprLiteral MATCH_EQ v) = JStr v" "buildExprLiteral MATCH_EQ v \<noteq> []"
    "\<forall>c\<in>set (buildExprLiteral MATCH_EQ v). c \<notin> special" "trimmed (buildExprLiteral MATCH_EQ v)"
    unfolding l_def by blast+
qed

section \<open>Patterns that do not match\<close>

lemma matches_None: "(\<And>cs. \<not> wholeMatch r s cs) \<Longrightarrow> matches_whole r s = None"
  by (simp add: matches_whole_None wholeMatch_def)

lemma matches_Some: "wholeMatch r s cs \<Longrightarrow> (\<And>cs'. wholeMatch r s cs' \<Longrightarrow> cs' = cs) \<Longrightarrow> matches_whole r s = Some cs"
  unfolding wholeMatch_def by (rule matches_whole_unique)

text \<open>A call is only matched by the patterns of the same function.\<close>

lemma callForm_head: "callForm f p t = g @ 40 # x \<Longrightarrow> 40 \<notin> set f \<Longrightarrow> 40 \<notin> set g \<Longrightarrow> f = g"
  using split_at [of f 40 "34 # p @ 34 # 41 # t" g x] unfolding callForm_def by blast

lemma names_plain: "40 \<notin> set (lit ''header'')" "40 \<notin> set (lit ''param'')" "40 \<notin> set (lit ''has'')"
  by (simp_all add: lit_def)

lemma no_time:
  assumes "40 \<notin> set g" "g \<noteq> []" "g \<notin> set TIME_FUNCS"
  shows "tryParseTimeCondition (g @ 40 # x) = None"
proof -
  have "\<not> wholeMatch time_range_re (g @ 40 # x) cs" "\<not> wholeMatch time_compare_re (g @ 40 # x) cs" for cs
    using time_range_match [of "g @ 40 # x" cs] time_compare_match [of "g @ 40 # x" cs] assms(1,3)
      callForm_head [OF sym, of g x] TIME_FUNCS_plain by metis+
  moreover have "\<not> wholeMatch time_range_paren_re (g @ 40 # x) cs" for cs
    using time_range_paren_match [of "g @ 40 # x" cs] assms(1,2) by (cases g) auto
  ultimately show ?thesis by (simp add: tryParseTimeCondition_def matches_None)
qed

lemma no_header_exists: "40 \<notin> set g \<Longrightarrow> g \<noteq> lit ''header'' \<Longrightarrow> matches_whole header_exists_re (g @ 40 # x) = None"
  using header_exists_match callForm_head [OF sym] names_plain by (intro matches_None) metis

lemma no_param_exists: "40 \<notin> set g \<Longrightarrow> g \<noteq> lit ''param'' \<Longrightarrow> matches_whole param_exists_re (g @ 40 # x) = None"
  using param_exists_match callForm_head [OF sym] names_plain by (intro matches_None) metis

lemma no_header_contains: "40 \<notin> set g \<Longrightarrow> g \<noteq> lit ''has'' \<Longrightarrow> matches_whole header_contains_re (g @ 40 # x) = None"
proof (rule matches_None)
  fix cs
  assume g: "40 \<notin> set g" "g \<noteq> lit ''has''"
  show "\<not> wholeMatch header_contains_re (g @ 40 # x) cs"
  proof
    assume "wholeMatch header_contains_re (g @ 40 # x) cs"
    then obtain y where "g @ 40 # x = lit ''has('' @ y" using header_contains_match by blast
    then have "g @ 40 # x = lit ''has'' @ 40 # y" by (simp add: lit_def)
    with split_at [OF this g(1) names_plain(3)] g(2) show False by simp
  qed
qed

lemma no_param_nil:
  assumes "40 \<notin> set g" "g \<noteq> lit ''param''"
  shows "tryParseParamNil (g @ 40 # x) = Some (tryParseEquals (g @ 40 # x))"
proof -
  have "\<not> wholeMatch param_contains_re (g @ 40 # x) cs" "\<not> wholeMatch param_compare_re (g @ 40 # x) cs" for cs
    using param_contains_match [of "g @ 40 # x" cs] param_compare_match [of "g @ 40 # x" cs] assms
      callForm_head [OF sym, of g x] names_plain by metis+
  then show ?thesis by (simp add: tryParseParamNil_def matches_None)
qed

section \<open>Conditions read back\<close>

lemma plainName_quote: "plainName p \<Longrightarrow> p \<noteq> [] \<and> 34 \<notin> set p \<and> trim p = p"
  by (auto simp: plainName_def trimmed_trim_id)

lemma compareTail_inject:
  assumes "compareTail op v = compareTail op' v'" "32 \<notin> set op" "32 \<notin> set op'"
  shows "op = op' \<and> v = v'"
  using split_at [of op 32 v op' v'] assms by (simp add: compareTail_def lit_def)

lemma rangeTail_inject:
  assumes "rangeTail f p a b = rangeTail f p a' b'" "numChars a" "numChars a'"
  shows "a = a' \<and> b = b'"
proof -
  have "32 \<notin> set a" "32 \<notin> set a'" using assms(2,3) numChars_not by blast+
  then show ?thesis
    using split_at [of a 32 "124 # 124 # 32 # callForm f p (lit '' < '' @ b)" a' "124 # 124 # 32 # callForm f p (lit '' < '' @ b')"] assms(1)
    by (simp add: rangeTail_def callForm_def lit_def)
qed

lemma ops_no_space: "op \<in> {lit ''=='', lit ''>='', lit ''<''} \<Longrightarrow> 32 \<notin> set op \<and> 124 \<notin> set op"
  by (auto simp: lit_def)

lemma compare_not_range:
  assumes "op \<in> {lit ''=='', lit ''>='', lit ''<''}" "numChars v"
  shows "compareTail op v \<noteq> rangeTail f p a b"
proof
  assume "compareTail op v = rangeTail f p a b"
  then have "124 \<in> set (compareTail op v)" by (simp add: rangeTail_def lit_def)
  then show False using ops_no_space [OF assms(1)] numChars_not [OF assms(2), of 124] by (auto simp: compareTail_def lit_def)
qed

lemma TIME_FUNCS_not_paren: "f \<in> set TIME_FUNCS \<Longrightarrow> callForm f p t \<noteq> 40 # x"
  by (auto simp: TIME_FUNCS_def lit_def callForm_def)

lemma read_time_compare:
  assumes "f \<in> set TIME_FUNCS" "op \<in> {lit ''=='', lit ''>='', lit ''<''}" "p \<noteq> []" "34 \<notin> set p" "v \<noteq> []" "numChars v"
  shows "tryParseTimeCondition (callForm f p (compareTail op v)) =
     Some (Time \<lparr>timeFunc = f, timezone = p, t_mode = timeOpMode op, t_value = v, rangeStart = [], rangeEnd = []\<rparr>)"
proof -
  let ?s = "callForm f p (compareTail op v)"
  have "\<not> wholeMatch time_range_re ?s cs" for cs
  proof
    assume "wholeMatch time_range_re ?s cs"
    from time_range_match [OF this] obtain f' p' a b where *: "?s = callForm f' p' (rangeTail f' p' a b)" "f' \<in> set TIME_FUNCS"
        "34 \<notin> set p'" by blast
    with callForm_inject [OF *(1)] TIME_FUNCS_plain assms(1,4) have "compareTail op v = rangeTail f' p' a b" by blast
    with compare_not_range [OF assms(2,6)] show False by blast
  qed
  moreover have "\<not> wholeMatch time_range_paren_re ?s cs" for cs
    using time_range_paren_match [of ?s cs] TIME_FUNCS_not_paren [OF assms(1)] by blast
  moreover have "matches_whole time_compare_re ?s = Some [(1, f), (2, p), (3, op), (4, v)]"
  proof (rule matches_Some [OF time_compare_build [OF assms]])
    fix cs
    assume "wholeMatch time_compare_re ?s cs"
    from time_compare_match [OF this] obtain f' p' op' v' where *: "?s = callForm f' p' (compareTail op' v')"
        "f' \<in> set TIME_FUNCS" "op' \<in> {lit ''=='', lit ''>='', lit ''<''}" "34 \<notin> set p'" "cs = [(1, f'), (2, p'), (3, op'), (4, v')]"
      by blast
    then have e: "f = f' \<and> p = p' \<and> compareTail op v = compareTail op' v'"
      using callForm_inject [OF *(1)] TIME_FUNCS_plain assms(1,4) by blast
    then have "op = op' \<and> v = v'"
      using compareTail_inject ops_no_space [OF assms(2)] ops_no_space [OF *(3)] by blast
    with e *(5) show "cs = [(1, f), (2, p), (3, op), (4, v)]" by simp
  qed
  ultimately show ?thesis by (simp add: tryParseTimeCondition_def matches_None group_def)
qed

lemma range_captures:
  assumes "callForm f p (rangeTail f p a b) = callForm f' p' (rangeTail f' p' a' b')" "f \<in> set TIME_FUNCS" "f' \<in> set TIME_FUNCS"
    "34 \<notin> set p" "34 \<notin> set p'" "numChars a" "numChars a'"
  shows "f = f' \<and> p = p' \<and> a = a' \<and> b = b'"
proof -
  have "f = f' \<and> p = p' \<and> rangeTail f p a b = rangeTail f' p' a' b'"
    using callForm_inject [OF assms(1)] TIME_FUNCS_plain assms(2-5) by blast
  then show ?thesis using rangeTail_inject assms(6,7) by blast
qed

lemma read_time_range:
  assumes "f \<in> set TIME_FUNCS" "p \<noteq> []" "34 \<notin> set p" "a \<noteq> []" "numChars a" "b \<noteq> []" "numChars b"
    and s: "s = callForm f p (rangeTail f p a b) \<or> s = 40 # callForm f p (rangeTail f p a b) @ [41]"
  shows "tryParseTimeCondition s =
     Some (Time \<lparr>timeFunc = f, timezone = p, t_mode = MATCH_RANGE, t_value = [], rangeStart = a, rangeEnd = b\<rparr>)"
proof -
  let ?s = "callForm f p (rangeTail f p a b)" and ?cs = "[(1, f), (2, p), (3, a), (4, b)]"
  consider "s = ?s" | "s = 40 # ?s @ [41]" using s by blast
  then show ?thesis
  proof cases
    case 1
    have "matches_whole time_range_re ?s = Some ?cs"
    proof (rule matches_Some [OF time_range_build [OF assms(1-7)]])
      fix cs
      assume "wholeMatch time_range_re ?s cs"
      from time_range_match [OF this] obtain f' p' a' b' where *: "?s = callForm f' p' (rangeTail f' p' a' b')"
          "f' \<in> set TIME_FUNCS" "34 \<notin> set p'" "numChars a'" "cs = [(1, f'), (2, p'), (3, a'), (4, b')]" by blast
      with range_captures [OF *(1)] assms show "cs = ?cs" by simp
    qed
    with 1 show ?thesis by (simp add: tryParseTimeCondition_def rangeCondition_def group_def)
  next
    case 2
    have "\<not> wholeMatch time_range_re s cs" for cs
      using time_range_match [of s cs] TIME_FUNCS_not_paren 2 by metis
    moreover have "matches_whole time_range_paren_re (40 # ?s @ [41]) = Some ?cs"
    proof (rule matches_Some [OF time_range_paren_build [OF assms(1-7)]])
      fix cs
      assume "wholeMatch time_range_paren_re (40 # ?s @ [41]) cs"
      from time_range_paren_match [OF this] obtain f' p' a' b' where *: "?s = callForm f' p' (rangeTail f' p' a' b')"
          "f' \<in> set TIME_FUNCS" "34 \<notin> set p'" "numChars a'" "cs = [(1, f'), (2, p'), (3, a'), (4, b')]" by auto
      with range_captures [OF *(1)] assms show "cs = ?cs" by simp
    qed
    ultimately show ?thesis using 2 by (simp add: tryParseTimeCondition_def rangeCondition_def group_def matches_None)
  qed
qed

text \<open>Calls of \<open>header\<close>, \<open>param\<close> and \<open>has\<close>.\<close>

definition sourceName :: "ParamSource \<Rightarrow> jstr" where
  "sourceName src = (case src of SourceParam \<Rightarrow> lit ''param'' | SourceHeader \<Rightarrow> lit ''header'')"

lemma callForm_paren: "callForm f p t = f @ 40 # (34 # p @ 34 # 41 # t)"
  by (simp add: callForm_def)

lemma sourceName_plain: "40 \<notin> set (sourceName src)" "sourceName src \<noteq> []" "sourceName src \<notin> set TIME_FUNCS"
    "sourceName src \<noteq> lit ''has''"
  by (cases src; simp add: sourceName_def lit_def TIME_FUNCS_def)+

lemma read_exists:
  assumes "p \<noteq> []" "34 \<notin> set p"
  shows "tryParseRequestCondition (callForm (sourceName src) p (if src = SourceHeader then lit '' != '' @ [34, 34] else lit '' != nil''))
     = Some (Some (phCond src p MATCH_EXISTS []))"
proof (cases src)
  case SourceParam
  let ?s = "callForm (lit ''param'') p (lit '' != nil'')"
  have t: "tryParseTimeCondition ?s = None"
    using no_time [of "lit ''param''"] sourceName_plain [of SourceParam] by (simp add: callForm_paren sourceName_def)
  have h: "matches_whole header_exists_re ?s = None"
    unfolding callForm_paren by (rule no_header_exists) (simp_all add: lit_def)
  have "matches_whole param_exists_re ?s = Some [(1, p)]"
  proof (rule matches_Some [OF param_exists_build [OF assms]])
    fix cs
    assume "wholeMatch param_exists_re ?s cs"
    then obtain q where "?s = callForm (lit ''param'') q (lit '' != nil'')" "34 \<notin> set q" "cs = [(1, q)]"
      using param_exists_match by blast
    then show "cs = [(1, p)]" using callForm_inject names_plain assms by blast
  qed
  with t h SourceParam show ?thesis by (simp add: tryParseRequestCondition_def sourceName_def group_def)
next
  case SourceHeader
  let ?s = "callForm (lit ''header'') p (lit '' != '' @ [34, 34])"
  have t: "tryParseTimeCondition ?s = None"
    using no_time [of "lit ''header''"] sourceName_plain [of SourceHeader] by (simp add: callForm_paren sourceName_def)
  have "matches_whole header_exists_re ?s = Some [(1, p)]"
  proof (rule matches_Some [OF header_exists_build [OF assms]])
    fix cs
    assume "wholeMatch header_exists_re ?s cs"
    then obtain q where "?s = callForm (lit ''header'') q (lit '' != '' @ [34, 34])" "34 \<notin> set q" "cs = [(1, q)]"
      using header_exists_match by blast
    then show "cs = [(1, p)]" using callForm_inject names_plain assms by blast
  qed
  with t SourceHeader show ?thesis by (simp add: tryParseRequestCondition_def sourceName_def group_def)
qed

lemma read_contains:
  assumes "p \<noteq> []" "34 \<notin> set p" "code_units v"
  shows "tryParseRequestCondition (lit ''has('' @ callForm (lit ''header'') p (lit '', '' @ json_quote v @ lit '')''))
     = Some (Some (phCond SourceHeader p MATCH_CONTAINS v))"
proof -
  let ?s = "lit ''has('' @ callForm (lit ''header'') p (lit '', '' @ json_quote v @ lit '')'')"
  have s: "?s = lit ''has'' @ 40 # callForm (lit ''header'') p (lit '', '' @ json_quote v @ lit '')'')" by (simp add: lit_def)
  have t: "tryParseTimeCondition ?s = None"
    unfolding s by (rule no_time) (simp_all add: lit_def TIME_FUNCS_def)
  have h: "matches_whole header_exists_re ?s = None"
    unfolding s by (rule no_header_exists) (simp_all add: lit_def)
  have n: "matches_whole param_exists_re ?s = None"
    unfolding s by (rule no_param_exists) (simp_all add: lit_def)
  have "matches_whole header_contains_re ?s = Some [(1, p), (2, json_quote v)]"
  proof (rule matches_Some [OF header_contains_build [OF assms(1,2)]])
    fix cs
    assume "wholeMatch header_contains_re ?s cs"
    from header_contains_match [OF this] obtain q l where
      *: "callForm (lit ''header'') p (lit '', '' @ json_quote v @ lit '')'') = callForm (lit ''header'') q (lit '', '' @ l @ lit '')'')"
        "34 \<notin> set q" "cs = [(1, q), (2, l)]" by blast
    from callForm_inject [OF *(1) names_plain(1,1) assms(2) *(2)] *(3) show "cs = [(1, p), (2, json_quote v)]" by simp
  qed
  with t h n show ?thesis using parse_quote [OF assms(3)]
    by (simp add: tryParseRequestCondition_def group_def)
qed

lemma read_equals_literal:
  assumes "p \<noteq> []" "34 \<notin> set p" "l \<noteq> []" "\<forall>c\<in>set l. c \<notin> {10, 13, 8232, 8233}" "parseExprLiteral l = JStr v"
  shows "tryParseRequestCondition (callForm (sourceName src) p (lit '' == '' @ l)) = Some (Some (phCond src p MATCH_EQ v))"
proof -
  let ?s = "callForm (sourceName src) p (lit '' == '' @ l)"
  have tails: "\<not> (\<exists>f q t. ?s = callForm f q (lit '' != '' @ t) \<and> 40 \<notin> set f \<and> 34 \<notin> set q)"
  proof (intro notI, elim exE conjE)
    fix f q t
    assume q: "?s = callForm f q (lit '' != '' @ t)" "40 \<notin> set f" "34 \<notin> set q"
    from callForm_inject [OF q(1) sourceName_plain(1) q(2) assms(2) q(3)] show False by (simp add: lit_def)
  qed
  have bang: "lit '' != nil'' = lit '' != '' @ lit ''nil''" "lit '' != nil && '' = lit '' != '' @ lit ''nil && ''" by (simp_all add: lit_def)
  have t: "tryParseTimeCondition ?s = None"
    unfolding callForm_paren by (rule no_time) (simp_all add: sourceName_plain)
  have h: "matches_whole header_exists_re ?s = None"
    using header_exists_match tails names_plain by (intro matches_None) blast
  have n: "matches_whole param_exists_re ?s = None"
    using param_exists_match [unfolded bang] tails names_plain by (intro matches_None) blast
  have c: "matches_whole header_contains_re ?s = None"
    unfolding callForm_paren by (rule no_header_contains) (simp_all add: sourceName_plain)
  have "matches_whole param_contains_re ?s = None"
    using param_contains_match [unfolded bang append.assoc] tails names_plain by (intro matches_None) blast
  moreover have "matches_whole param_compare_re ?s = None"
    using param_compare_match [unfolded bang append.assoc] tails names_plain by (intro matches_None) blast
  ultimately have nil: "tryParseParamNil ?s = Some (tryParseEquals ?s)" by (simp add: tryParseParamNil_def)
  have src: "sourceName src \<in> set [lit ''param'', lit ''header'']" by (cases src) (simp_all add: sourceName_def)
  have "matches_whole equals_re ?s = Some [(1, sourceName src), (2, p), (3, l)]"
  proof (rule matches_Some [OF equals_build [OF src assms(1-4)]])
    fix cs
    assume "wholeMatch equals_re ?s cs"
    from equals_match [OF this] obtain f q w where *: "?s = callForm f q (lit '' == '' @ w)" "f \<in> {lit ''param'', lit ''header''}"
        "34 \<notin> set q" "cs = [(1, f), (2, q), (3, w)]" by blast
    have "40 \<notin> set f" using *(2) names_plain by blast
    from callForm_inject [OF *(1) sourceName_plain(1) this assms(2) *(3)] *(4)
    show "cs = [(1, sourceName src), (2, p), (3, l)]" by simp
  qed
  moreover have "(if sourceName src = lit ''param'' then SourceParam else SourceHeader) = src"
    by (cases src) (simp_all add: sourceName_def lit_def)
  ultimately have "tryParseEquals ?s = Some (phCond src p MATCH_EQ v)"
    using assms(5) by (simp add: tryParseEquals_def group_def)
  with t h n c nil show ?thesis by (simp add: tryParseRequestCondition_def)
qed

end
