(* ===== verification/Billing_Roundtrip.thy ===== *)
theory Billing_Roundtrip
  imports Billing_Rules
begin

text \<open>
  The whole way: rules are written, joined to a base expression, split off again and read.  The
  first section is about the splitting loop, which counts parentheses: a list of parts that are
  balanced and hide their separators is split into those parts.
\<close>

section \<open>Balanced texts\<close>

text \<open>The depth after a text, \<open>None\<close> when it falls below zero on the way.\<close>

fun bal :: "int \<Rightarrow> jstr \<Rightarrow> int option" where
  "bal d [] = Some d"
| "bal d (c # s) = (if depth_after c d < 0 then None else bal (depth_after c d) s)"

definition balanced :: "jstr \<Rightarrow> bool" where
  "balanced s = (bal 0 s = Some 0)"

lemma bal_append: "bal d (u @ v) = Option.bind (bal d u) (\<lambda>e. bal e v)"
  by (induction u arbitrary: d) auto

lemma bal_shift: "bal d s = Some e \<Longrightarrow> 0 \<le> k \<Longrightarrow> bal (d + k) s = Some (e + k)"
proof (induction s arbitrary: d)
  case (Cons c s)
  have "depth_after c (d + k) = depth_after c d + k" by (simp add: depth_after_def)
  with Cons show ?case by (auto split: if_splits)
qed simp

lemma bal_fold: "bal d s = Some e \<Longrightarrow> fold depth_after s d = e"
  by (induction s arbitrary: d) (auto split: if_splits)

lemma bal_balanced: "balanced s \<Longrightarrow> 0 \<le> k \<Longrightarrow> bal k s = Some k"
  using bal_shift [of 0 s 0 k] by (simp add: balanced_def)

lemma balanced_append [intro]: "balanced u \<Longrightarrow> balanced v \<Longrightarrow> balanced (u @ v)"
  by (simp add: balanced_def bal_append)

lemma balanced_paren [intro]: "balanced s \<Longrightarrow> balanced (40 # s @ [41])"
  by (simp add: balanced_def depth_after_def bal_append bal_balanced [unfolded balanced_def])

lemma balanced_flat: "40 \<notin> set s \<Longrightarrow> 41 \<notin> set s \<Longrightarrow> balanced s"
proof -
  have "bal d s = Some d" if "40 \<notin> set s" "41 \<notin> set s" "0 \<le> d" for d
    using that by (induction s) (auto simp: depth_after_def)
  then show "40 \<notin> set s \<Longrightarrow> 41 \<notin> set s \<Longrightarrow> balanced s" by (simp add: balanced_def)
qed

lemma balanced_call:
  assumes "40 \<notin> set f" "41 \<notin> set f" "40 \<notin> set p" "41 \<notin> set p" "balanced t"
  shows "balanced (callForm f p t)"
proof -
  have "balanced (f @ (40 # (34 # p @ [34]) @ [41]) @ t)"
    by (intro balanced_append balanced_paren assms(5); (rule balanced_flat)?) (use assms(1-4) in auto)
  then show ?thesis by (simp add: callForm_def)
qed

section \<open>Splitting a joined list\<close>

text \<open>No separator is seen at depth zero while the text is read.\<close>

fun passes :: "jstr \<Rightarrow> int \<Rightarrow> jstr \<Rightarrow> jstr \<Rightarrow> bool" where
  "passes sep d [] rest = True"
| "passes sep d (c # u) rest =
     ((depth_after c d = 0 \<longrightarrow> \<not> starts_with sep (c # u @ rest)) \<and> passes sep (depth_after c d) u rest)"

lemma splitLoop_passes:
  "passes sep d u rest \<Longrightarrow> splitLoop sep d part (u @ rest) = splitLoop sep (fold depth_after u d) (part @ u) rest"
  by (induction u arbitrary: d part) (auto simp: Let_def)

definition separable :: "jstr \<Rightarrow> jstr \<Rightarrow> bool" where
  "separable sep u =
     (trimmed u \<and> fold depth_after u 0 = 0 \<and> passes sep 0 u [] \<and> (\<forall>rest. passes sep 0 u (sep @ rest)))"

lemma splitLoop_sep:
  assumes "sep = 32 # sep'"
  shows "splitLoop sep 0 part (sep @ rest) = trim part # splitLoop sep 0 [] rest"
  using assms by (simp add: Let_def depth_after_def starts_with_def)

lemma splitLoop_join:
  assumes "sep = 32 # sep'" "us \<noteq> []" "\<forall>u\<in>set us. separable sep u"
  shows "splitLoop sep 0 [] (join sep us) = us"
  using assms(2,3)
proof (induction us rule: induct_list012)
  case (2 x)
  then have "splitLoop sep 0 [] (x @ []) = splitLoop sep 0 x []"
    using splitLoop_passes [of sep 0 x "[]" "[]"] by (simp add: separable_def)
  with 2 show ?case by (simp add: separable_def trimmed_trim_id)
next
  case (3 x y xs)
  then have "splitLoop sep 0 [] (x @ sep @ join sep (y # xs)) = splitLoop sep 0 x (sep @ join sep (y # xs))"
    using splitLoop_passes [of sep 0 x "sep @ join sep (y # xs)" "[]"] by (simp add: separable_def)
  also have "\<dots> = x # y # xs"
    unfolding splitLoop_sep [OF assms(1)] using 3 by (simp add: separable_def trimmed_trim_id)
  finally show ?case by simp
qed simp

lemma passes_free:
  assumes "sep = 32 # b # sep'" "b \<notin> set u" "rest = [] \<or> hd rest \<noteq> b"
  shows "passes sep d u rest"
  using assms(2,3)
proof (induction u arbitrary: d)
  case (Cons c u)
  have "\<not> starts_with sep (c # u @ rest)"
    using Cons.prems assms(1) by (cases u; cases rest) (auto simp: starts_with_def)
  with Cons show ?case by simp
qed simp

lemma separable_and:
  assumes "trimmed u" "balanced u" "38 \<notin> set u"
  shows "separable (lit '' && '') u"
proof -
  have "passes (lit '' && '') 0 u rest" if "rest = [] \<or> hd rest \<noteq> 38" for rest
    using that assms(3) by (intro passes_free) (simp_all add: lit_def)
  moreover have "hd (lit '' && '' @ rest) \<noteq> 38" for rest by (simp add: lit_def)
  ultimately show ?thesis using assms bal_fold by (simp add: separable_def balanced_def)
qed

lemma passes_deep:
  assumes "bal d u = Some e" "1 \<le> k" "0 \<le> d"
  shows "passes sep (d + k) u rest"
  using assms(1,3)
proof (induction u arbitrary: d)
  case (Cons c u)
  have "depth_after c (d + k) = depth_after c d + k" by (simp add: depth_after_def)
  with Cons assms(2) show ?case by (auto split: if_splits)
qed simp

lemma passes_append: "passes sep d (u @ v) rest \<longleftrightarrow> passes sep d u (v @ rest) \<and> passes sep (fold depth_after u d) v rest"
  by (induction u arbitrary: d) auto

text \<open>Inside parentheses nothing is split.\<close>

lemma separable_paren:
  assumes "balanced s" "sep = 32 # sep'"
  shows "separable sep (40 # s @ [41])"
proof -
  have "passes sep 1 s rest" for rest
    using passes_deep [of 0 s 0 1] assms(1) by (simp add: balanced_def)
  moreover have f: "fold depth_after s 1 = 1" using bal_fold bal_balanced [OF assms(1), of 1] by simp
  ultimately have "passes sep 0 (40 # s @ [41]) rest" for rest
    using assms(2) by (simp add: passes_append depth_after_def starts_with_def)
  moreover have "trimmed (40 # s @ [41])" by (simp add: trimmed_def is_ws_def)
  ultimately show ?thesis using f by (simp add: separable_def depth_after_def)
qed

lemma split_and: "us \<noteq> [] \<Longrightarrow> \<forall>u\<in>set us. separable (lit '' && '') u \<and> u \<noteq> [] \<Longrightarrow> splitTopLevelAnd (join (lit '' && '') us) = us"
  unfolding splitTopLevelAnd_def by (subst splitLoop_join) (auto simp: lit_def)

lemma split_multiply: "us \<noteq> [] \<Longrightarrow> \<forall>u\<in>set us. separable (lit '' * '') u \<and> u \<noteq> [] \<Longrightarrow> splitTopLevelMultiply (join (lit '' * '') us) = us"
  unfolding splitTopLevelMultiply_def by (subst splitLoop_join) (auto simp: lit_def)

section \<open>Texts of conditions\<close>

text \<open>A text that can be one of several conditions of a factor, and reads as the given one.\<close>

definition writes :: "RequestCondition \<Rightarrow> jstr \<Rightarrow> bool" where
  "writes c u =
     (u \<noteq> [] \<and> trimmed u \<and> 38 \<notin> set u \<and> balanced u \<and> tryParseRequestCondition u = Some (Some c) \<and>
      (124 \<in> set u \<longrightarrow> tryParseRequestCondition (40 # u @ [41]) = Some (Some c)))"

lemma special_not: "x \<notin> special \<Longrightarrow> x \<noteq> 38 \<and> x \<noteq> 40 \<and> x \<noteq> 41 \<and> x \<noteq> 124 \<and> x \<noteq> 10 \<and> x \<noteq> 13 \<and> x \<noteq> 8232 \<and> x \<noteq> 8233"
  by (auto simp: special_def)

lemma plainName_chars: "plainName p \<Longrightarrow> 38 \<notin> set p \<and> 40 \<notin> set p \<and> 41 \<notin> set p \<and> 124 \<notin> set p"
  using special_not unfolding plainName_def by blast

lemma call_chars: "x \<in> set (callForm f p t) \<longleftrightarrow> x \<in> set f \<or> x \<in> set p \<or> x \<in> set t \<or> x \<in> {40, 34, 41}"
  by (auto simp: callForm_def)

lemma call_trimmed: "f \<noteq> [] \<Longrightarrow> \<not> is_ws (hd f) \<Longrightarrow> t \<noteq> [] \<Longrightarrow> \<not> is_ws (last t) \<Longrightarrow> trimmed (callForm f p t)"
  by (simp add: trimmed_def callForm_def)

lemma function_chars:
  "f \<in> set TIME_FUNCS \<union> {lit ''header'', lit ''param'', lit ''has''} \<Longrightarrow>
   f \<noteq> [] \<and> \<not> is_ws (hd f) \<and> 38 \<notin> set f \<and> 40 \<notin> set f \<and> 41 \<notin> set f \<and> 124 \<notin> set f"
  by (auto simp: TIME_FUNCS_def lit_def is_ws_def)

lemma sourceName_function: "sourceName src \<in> set TIME_FUNCS \<union> {lit ''header'', lit ''param'', lit ''has''}"
  by (cases src) (simp_all add: sourceName_def)

lemma json_quote_call: "plainName p \<Longrightarrow> f @ lit ''('' @ json_quote p @ lit '')'' @ t = callForm f p t"
  by (simp add: json_quote_name callForm_def lit_def)

text \<open>A call with a plain rest.\<close>

lemma writes_call:
  assumes "f \<in> set TIME_FUNCS \<union> {lit ''header'', lit ''param'', lit ''has''}" "plainName p" "t \<noteq> []" "\<not> is_ws (last t)"
    "38 \<notin> set t" "balanced t" "tryParseRequestCondition (callForm f p t) = Some (Some c)"
    "124 \<in> set t \<Longrightarrow> tryParseRequestCondition (40 # callForm f p t @ [41]) = Some (Some c)"
  shows "writes c (callForm f p t)"
proof -
  note f = function_chars [OF assms(1)] and p = plainName_chars [OF assms(2)]
  have "trimmed (callForm f p t)" using f assms(3,4) by (intro call_trimmed) blast+
  moreover have "balanced (callForm f p t)" using f p assms(6) by (intro balanced_call) blast+
  moreover have "38 \<notin> set (callForm f p t)" using f p assms(5) by (simp add: call_chars)
  moreover have "124 \<in> set (callForm f p t) \<longrightarrow> 124 \<in> set t" using f p by (simp add: call_chars)
  moreover have "callForm f p t \<noteq> []" by (simp add: callForm_def)
  ultimately show ?thesis using assms(7,8) by (simp add: writes_def)
qed

lemma time_text:
  assumes "tryParseTimeCondition u = Some c"
  shows "tryParseRequestCondition u = Some (Some c)"
  using assms by (simp add: tryParseRequestCondition_def)

lemma numeric_last: "numeric v \<Longrightarrow> v \<noteq> [] \<and> numChars v \<and> \<not> is_ws (last v) \<and> 38 \<notin> set v \<and> 40 \<notin> set v \<and> 41 \<notin> set v \<and> 124 \<notin> set v"
  using numeric_chars [of v] numChars_not [of v "last v"] numChars_not [of v 38] numChars_not [of v 40]
    numChars_not [of v 41] numChars_not [of v 124] by auto

lemma writes_time_compare:
  assumes "f \<in> set TIME_FUNCS" "op \<in> {lit ''=='', lit ''>='', lit ''<''}" "plainName p" "numeric v"
  shows "writes (Time \<lparr>timeFunc = f, timezone = p, t_mode = timeOpMode op, t_value = v, rangeStart = [], rangeEnd = []\<rparr>)
     (callForm f p (compareTail op v))"
proof (rule writes_call)
  note v = numeric_last [OF assms(4)] and p = plainName_quote [OF assms(3)]
  have op: "x \<in> {38, 40, 41, 124} \<Longrightarrow> x \<notin> set (lit '' '') \<union> set op" for x using assms(2) by (auto simp: lit_def)
  then have no: "x \<in> {38, 40, 41, 124} \<Longrightarrow> x \<notin> set (compareTail op v)" for x
    using v unfolding compareTail_def by auto
  show "f \<in> set TIME_FUNCS \<union> {lit ''header'', lit ''param'', lit ''has''}" using assms(1) by blast
  show "compareTail op v \<noteq> []" "\<not> is_ws (last (compareTail op v))" using v by (simp_all add: compareTail_def lit_def)
  show "38 \<notin> set (compareTail op v)" using no by blast
  show "balanced (compareTail op v)" using no by (intro balanced_flat) blast+
  show "tryParseRequestCondition (callForm f p (compareTail op v)) =
      Some (Some (Time \<lparr>timeFunc = f, timezone = p, t_mode = timeOpMode op, t_value = v, rangeStart = [], rangeEnd = []\<rparr>))"
    using read_time_compare assms(1,2) p v by (intro time_text) blast
  show "tryParseRequestCondition (40 # callForm f p (compareTail op v) @ [41]) =
      Some (Some (Time \<lparr>timeFunc = f, timezone = p, t_mode = timeOpMode op, t_value = v, rangeStart = [], rangeEnd = []\<rparr>))"
    if "124 \<in> set (compareTail op v)" using that no by blast
qed (rule assms(3))

lemma writes_time_range:
  assumes "f \<in> set TIME_FUNCS" "plainName p" "numeric a" "numeric b"
  shows "writes (Time \<lparr>timeFunc = f, timezone = p, t_mode = MATCH_RANGE, t_value = [], rangeStart = a, rangeEnd = b\<rparr>)
     (callForm f p (rangeTail f p a b))"
proof (rule writes_call)
  note a = numeric_last [OF assms(3)] and b = numeric_last [OF assms(4)] and p = plainName_quote [OF assms(2)] plainName_chars [OF assms(2)]
  have f: "f \<in> set TIME_FUNCS \<union> {lit ''header'', lit ''param'', lit ''has''}" using assms(1) by blast
  note fc = function_chars [OF f]
  show "f \<in> set TIME_FUNCS \<union> {lit ''header'', lit ''param'', lit ''has''}" by (rule f)
  show "rangeTail f p a b \<noteq> []" "\<not> is_ws (last (rangeTail f p a b))"
    using b by (simp_all add: rangeTail_def callForm_def lit_def)
  show "38 \<notin> set (rangeTail f p a b)" using a b p fc by (simp add: rangeTail_def call_chars lit_def)
  have flat: "balanced (lit '' < '' @ b)" "balanced (lit '' >= '' @ a @ lit '' || '')"
    using a b by (intro balanced_flat; auto simp: lit_def)+
  have "balanced (callForm f p (lit '' < '' @ b))" using fc p flat(1) by (intro balanced_call) blast+
  from balanced_append [OF flat(2) this] show "balanced (rangeTail f p a b)" by (simp add: rangeTail_def)
  show "tryParseRequestCondition (callForm f p (rangeTail f p a b)) =
      Some (Some (Time \<lparr>timeFunc = f, timezone = p, t_mode = MATCH_RANGE, t_value = [], rangeStart = a, rangeEnd = b\<rparr>))"
    using read_time_range assms(1) p a b by (intro time_text) blast
  show "tryParseRequestCondition (40 # callForm f p (rangeTail f p a b) @ [41]) =
      Some (Some (Time \<lparr>timeFunc = f, timezone = p, t_mode = MATCH_RANGE, t_value = [], rangeStart = a, rangeEnd = b\<rparr>))"
    using read_time_range assms(1) p a b by (intro time_text) blast
qed (rule assms(2))

lemma writes_exists:
  assumes "plainName p"
  shows "writes (phCond src p MATCH_EXISTS [])
     (callForm (sourceName src) p (if src = SourceHeader then lit '' != '' @ [34, 34] else lit '' != nil''))"
proof (rule writes_call [OF sourceName_function assms])
  let ?t = "if src = SourceHeader then lit '' != '' @ [34, 34] else lit '' != nil''"
  show "?t \<noteq> []" "\<not> is_ws (last ?t)" "38 \<notin> set ?t" by (simp_all add: lit_def is_ws_def)
  show "balanced ?t" by (rule balanced_flat) (simp_all add: lit_def)
  show "tryParseRequestCondition (callForm (sourceName src) p ?t) = Some (Some (phCond src p MATCH_EXISTS []))"
    using read_exists plainName_quote [OF assms] by blast
  assume "124 \<in> set ?t"
  then have False by (simp add: lit_def split: if_splits)
  then show "tryParseRequestCondition (40 # callForm (sourceName src) p ?t @ [41]) = Some (Some (phCond src p MATCH_EXISTS []))" ..
qed

lemma last_not_ws: "trimmed u \<Longrightarrow> u \<noteq> [] \<Longrightarrow> \<not> is_ws (last u)"
  by (simp add: trimmed_def)

lemma writes_equals:
  assumes "plainName p" "plainValue v"
  shows "writes (phCond src p MATCH_EQ v) (callForm (sourceName src) p (lit '' == '' @ buildExprLiteral MATCH_EQ v))"
proof (rule writes_call [OF sourceName_function assms(1)])
  let ?l = "buildExprLiteral MATCH_EQ v"
  note l = literal_roundtrip [OF assms(2)]
  have "\<forall>c\<in>set (lit '' == ''). c \<notin> special" by (simp add: lit_def special_def)
  then have s: "x \<in> special \<Longrightarrow> x \<notin> set (lit '' == '' @ ?l)" for x using l(3) unfolding set_append by blast
  show "lit '' == '' @ ?l \<noteq> []" "\<not> is_ws (last (lit '' == '' @ ?l))" using l(2) last_not_ws [OF l(4)] by simp_all
  show "38 \<notin> set (lit '' == '' @ ?l)" by (rule s) (simp add: special_def)
  show "balanced (lit '' == '' @ ?l)" by (rule balanced_flat; rule s; simp add: special_def)
  have "\<forall>c\<in>set ?l. c \<notin> {10, 13, 8232, 8233}" using l(3) special_not by blast
  then show "tryParseRequestCondition (callForm (sourceName src) p (lit '' == '' @ ?l)) = Some (Some (phCond src p MATCH_EQ v))"
    using read_equals_literal plainName_quote [OF assms(1)] l(1,2) by blast
  assume "124 \<in> set (lit '' == '' @ ?l)"
  with s [of 124] have False by (simp add: special_def)
  then show "tryParseRequestCondition (40 # callForm (sourceName src) p (lit '' == '' @ ?l) @ [41]) = Some (Some (phCond src p MATCH_EQ v))" ..
qed

lemma writes_contains:
  assumes "plainName p" "plainValue v"
  shows "writes (phCond SourceHeader p MATCH_CONTAINS v)
     (lit ''has('' @ callForm (lit ''header'') p (lit '', '' @ json_quote v @ lit '')''))"
proof -
  let ?c = "callForm (lit ''header'') p (lit '', '' @ json_quote v)"
  let ?u = "lit ''has('' @ callForm (lit ''header'') p (lit '', '' @ json_quote v @ lit '')'')"
  have u: "?u = lit ''has'' @ 40 # ?c @ [41]" by (simp add: lit_def callForm_def)
  have comma: "\<forall>c\<in>set (lit '', ''). c \<notin> special" by (simp add: lit_def special_def)
  have q: "x \<in> special \<Longrightarrow> x \<notin> set (lit '', '' @ json_quote v)" for x
    using json_quote_special [OF assms(2)] comma unfolding set_append by blast
  have sp: "38 \<in> special" "40 \<in> special" "41 \<in> special" "124 \<in> special" by (simp_all add: special_def)
  note p = plainName_chars [OF assms(1)] plainName_quote [OF assms(1)]
  have flat: "balanced (lit '', '' @ json_quote v)" using q sp(2,3) by (intro balanced_flat) blast+
  have "balanced ?c" by (intro balanced_call flat) (use p in \<open>simp_all add: lit_def\<close>)
  moreover have "balanced (lit ''has'')" by (rule balanced_flat) (simp_all add: lit_def)
  ultimately have b: "balanced ?u" unfolding u by (intro balanced_append balanced_paren)
  have "trimmed ?u" unfolding u by (simp add: trimmed_def lit_def is_ws_def)
  moreover have "x \<notin> set ?c" if "x \<in> {38, 124}" for x
    using that p q sp by (auto simp: call_chars lit_def)
  then have "x \<notin> set ?u" if "x \<in> {38, 124}" for x
    using that unfolding u by (auto simp: lit_def)
  moreover have "code_units v" using assms(2) by (simp add: plainValue_def)
  with read_contains p have "tryParseRequestCondition ?u = Some (Some (phCond SourceHeader p MATCH_CONTAINS v))" by blast
  moreover have "?u \<noteq> []" by (simp add: lit_def)
  ultimately show ?thesis using b unfolding writes_def by blast
qed

lemma time_mode_op:
  "m \<in> {MATCH_EQ, MATCH_GTE, MATCH_LT} \<Longrightarrow> timeOp m \<in> {lit ''=='', lit ''>='', lit ''<''} \<and> timeOpMode (timeOp m) = m \<and> m \<noteq> MATCH_RANGE"
  by (auto simp: timeOp_def timeOpMode_def match_modes lit_def)

lemma time_modes_offered: "m \<in> {MATCH_EQ, MATCH_GTE, MATCH_LT, MATCH_RANGE} \<Longrightarrow> m \<in> fst ` set (getRequestRuleMatchOptions RTime)"
  by (auto simp: getRequestRuleMatchOptions_def)

lemma ph_modes_offered: "m \<in> {MATCH_EQ, MATCH_CONTAINS, MATCH_EXISTS} \<Longrightarrow> m \<in> fst ` set (getRequestRuleMatchOptions (RParam src))"
  by (auto simp: getRequestRuleMatchOptions_def)

lemma normalize_time_id:
  assumes "timeFunc t \<in> set TIME_FUNCS" "timezone t \<noteq> []" "t_mode t \<in> {MATCH_EQ, MATCH_GTE, MATCH_LT, MATCH_RANGE}"
  shows "normalizeTime t = t"
  unfolding normalizeTime_def using assms(1,2) time_modes_offered [OF assms(3)] by simp

lemma normalize_ph_id: "ph_mode c \<in> {MATCH_EQ, MATCH_CONTAINS, MATCH_EXISTS} \<Longrightarrow> normalizeParamHeader c = c"
  unfolding normalizeParamHeader_def using ph_modes_offered [of "ph_mode c" "ph_source c"] by simp

lemma time_writes:
  assumes "readableTime t"
  shows "writes (Time t) (buildTimeConditionExpr t)"
proof -
  obtain f p m v a b where t: "t = \<lparr>timeFunc = f, timezone = p, t_mode = m, t_value = v, rangeStart = a, rangeEnd = b\<rparr>"
    by (cases t) blast
  have f: "f \<in> set TIME_FUNCS" and p: "plainName p" using assms t by (simp_all add: readableTime_def)
  consider "m = MATCH_RANGE" "v = []" "numeric a" "numeric b" | "m \<in> {MATCH_EQ, MATCH_GTE, MATCH_LT}" "numeric v" "a = []" "b = []"
    using assms t unfolding readableTime_def by auto
  then show ?thesis
  proof cases
    case 1
    have n: "normalizeTime t = t" by (rule normalize_time_id) (use t f plainName_quote [OF p] 1(1) in simp_all)
    have "buildTimeConditionExpr t = callForm f p (rangeTail f p a b)"
      unfolding buildTimeConditionExpr_def Let_def n numeric_def [symmetric]
      by (simp add: t 1 numeric_trim json_quote_name [OF p] callForm_def rangeTail_def lit_def)
    with writes_time_range [OF f p 1(3,4)] t 1 show ?thesis by simp
  next
    case 2
    have n: "normalizeTime t = t" by (rule normalize_time_id) (use t f plainName_quote [OF p] 2(1) in auto)
    note op = time_mode_op [OF 2(1)]
    have "buildTimeConditionExpr t = callForm f p (compareTail (timeOp m) v)"
      unfolding buildTimeConditionExpr_def Let_def n numeric_def [symmetric]
      using op by (simp add: t 2(2-4) numeric_trim json_quote_name [OF p] callForm_def compareTail_def lit_def)
    with writes_time_compare [OF f _ p 2(2), of "timeOp m"] op t 2 show ?thesis by simp
  qed
qed

lemma modes_distinct:
  "MATCH_EXISTS \<noteq> MATCH_CONTAINS" "MATCH_EQ \<noteq> MATCH_CONTAINS" "MATCH_EQ \<noteq> MATCH_EXISTS"
  "MATCH_EQ \<notin> set [MATCH_GT, MATCH_GTE, MATCH_LT, MATCH_LTE]"
  by (simp_all add: match_modes lit_def)

lemma source_text:
  "plainName p \<Longrightarrow> (if src = SourceHeader then lit ''header('' else lit ''param('') @ json_quote p @ lit '')'' @ t = callForm (sourceName src) p t"
  by (cases src) (simp_all add: json_quote_name callForm_def sourceName_def lit_def)

lemma param_header_writes:
  assumes "readableParamHeader c"
  shows "writes (ParamHeader c) (buildRequestConditionExpr (ParamHeader c))"
proof -
  obtain src p m v where c: "c = \<lparr>ph_source = src, ph_path = p, ph_mode = m, ph_value = v\<rparr>" by (cases c) blast
  have p: "plainName p" "trim p = p" "p \<noteq> []" using assms c plainName_quote by (simp_all add: readableParamHeader_def)
  consider "m = MATCH_EXISTS" "v = []" | "m = MATCH_EQ" "plainValue v" | "m = MATCH_CONTAINS" "src = SourceHeader" "plainValue v"
    using assms c unfolding readableParamHeader_def by auto
  then show ?thesis
  proof cases
    case 1
    have n: "normalizeParamHeader c = c" by (rule normalize_ph_id) (simp add: c 1)
    have "buildRequestConditionExpr (ParamHeader c)
        = callForm (sourceName src) p (if src = SourceHeader then lit '' != '' @ [34, 34] else lit '' != nil'')"
      unfolding buildRequestConditionExpr_def RequestCondition.case Let_def n source_text [OF p(1), symmetric] by (simp add: c 1 p)
    with writes_exists [OF p(1)] show ?thesis by (simp add: c 1 phCond_def)
  next
    case 2
    have n: "normalizeParamHeader c = c" by (rule normalize_ph_id) (simp add: c 2)
    have "buildRequestConditionExpr (ParamHeader c) = callForm (sourceName src) p (lit '' == '' @ buildExprLiteral MATCH_EQ v)"
      unfolding buildRequestConditionExpr_def RequestCondition.case Let_def n source_text [OF p(1), symmetric]
      using modes_distinct by (simp add: c 2 p)
    with writes_equals [OF p(1) 2(2)] show ?thesis by (simp add: c 2 phCond_def)
  next
    case 3
    have n: "normalizeParamHeader c = c" by (rule normalize_ph_id) (simp add: c 3)
    have q: "buildExprLiteral MATCH_CONTAINS v = json_quote v"
      using 3(3) by (simp add: buildExprLiteral_def plainValue_def trimmed_trim_id)
    have "buildRequestConditionExpr (ParamHeader c)
        = lit ''has('' @ callForm (sourceName src) p (lit '', '' @ json_quote v @ lit '')'')"
      unfolding buildRequestConditionExpr_def RequestCondition.case Let_def n source_text [OF p(1), symmetric]
      using modes_distinct by (simp add: c 3(1,2) p q)
    with writes_contains [OF p(1) 3(3)] show ?thesis by (simp add: c 3(1,2) phCond_def sourceName_def)
  qed
qed

lemma readable_writes: "readable c \<Longrightarrow> writes c (buildRequestConditionExpr c)"
proof (cases c)
  case (Time t)
  assume "readable c"
  with Time time_writes show ?thesis by (simp add: buildRequestConditionExpr_def)
next
  case (ParamHeader ph)
  assume "readable c"
  with ParamHeader param_header_writes show ?thesis by simp
qed

section \<open>Factors\<close>

lemma includes_mem: "str_includes pat u \<Longrightarrow> x \<in> set pat \<Longrightarrow> x \<in> set u"
proof -
  have "index_of pat u \<noteq> None \<Longrightarrow> set pat \<subseteq> set u"
  proof (induction u)
    case (Cons y u)
    show ?case
    proof (cases "starts_with pat (y # u)")
      case True
      then show ?thesis using set_take_subset unfolding starts_with_def by metis
    qed (use Cons in auto)
  qed (simp split: if_splits)
  then show "str_includes pat u \<Longrightarrow> x \<in> set pat \<Longrightarrow> x \<in> set u" unfolding str_includes_def by blast
qed

text \<open>The text of a condition among several.\<close>

definition wrapText :: "jstr \<Rightarrow> jstr" where
  "wrapText e = (if str_includes (lit '' || '') e then lit ''('' @ e @ lit '')'' else e)"

lemma wrap_reads:
  assumes "writes c u"
  shows "tryParseRequestCondition (wrapText u) = Some (Some c)" "separable (lit '' && '') (wrapText u)" "wrapText u \<noteq> []"
    "balanced (wrapText u)"
proof -
  note u = assms [unfolded writes_def]
  have bar: "124 \<in> set u" if "str_includes (lit '' || '') u" using includes_mem [OF that, of 124] by (simp add: lit_def)
  show "tryParseRequestCondition (wrapText u) = Some (Some c)" using u bar by (auto simp: wrapText_def lit_def)
  show "wrapText u \<noteq> []" using u by (simp add: wrapText_def lit_def)
  show "separable (lit '' && '') (wrapText u)"
    using u separable_and separable_paren [of u "lit '' && ''"] by (simp add: wrapText_def lit_def)
  show "balanced (wrapText u)" using u balanced_paren [of u] by (simp add: wrapText_def lit_def)
qed

lemma writes_separable: "writes c u \<Longrightarrow> separable (lit '' && '') u"
  by (simp add: writes_def separable_and)

lemma parse_conditions:
  assumes "list_all2 (\<lambda>c u. tryParseRequestCondition u = Some (Some c) \<and> trimmed u) cs us"
  shows "parseConditions us = Some (Some cs)"
  using assms by (induction) (simp_all add: trimmed_trim_id)

lemma balanced_join: "balanced sep \<Longrightarrow> \<forall>u\<in>set us. balanced u \<Longrightarrow> balanced (join sep us)"
  by (induction us rule: induct_list012) (auto simp: balanced_def [of "[]"])

text \<open>The text of several conditions: split and read it gives them back.\<close>

definition combinedText :: "RequestCondition list \<Rightarrow> jstr" where
  "combinedText cs =
     (let us = map buildRequestConditionExpr cs
      in if length us = 1 then us ! 0 else join (lit '' && '') (map wrapText us))"

lemma combined_reads:
  assumes "cs \<noteq> []" "\<forall>c\<in>set cs. readable c"
  shows "parseConditions (splitTopLevelAnd (combinedText cs)) = Some (Some cs)" "balanced (combinedText cs)" "combinedText cs \<noteq> []"
proof -
  let ?us = "map buildRequestConditionExpr cs"
  have w: "writes c (buildRequestConditionExpr c)" if "c \<in> set cs" for c using that assms(2) readable_writes by blast
  define vs where "vs = (if length cs = 1 then ?us else map wrapText ?us)"
  have vs: "combinedText cs = join (lit '' && '') vs"
    using assms(1) by (auto simp: combinedText_def vs_def Let_def length_Suc_conv)
  let ?ok = "\<lambda>c v. tryParseRequestCondition v = Some (Some c) \<and> separable (lit '' && '') v \<and> v \<noteq> [] \<and> balanced v"
  have ok: "list_all2 ?ok cs vs"
  proof -
    have "?ok c (buildRequestConditionExpr c) \<and> ?ok c (wrapText (buildRequestConditionExpr c))" if "c \<in> set cs" for c
      using w [OF that] writes_separable [OF w [OF that]] wrap_reads [OF w [OF that]] by (simp add: writes_def)
    then show ?thesis unfolding vs_def by (simp add: list_all2_conv_all_nth)
  qed
  then have all: "\<forall>v\<in>set vs. separable (lit '' && '') v \<and> v \<noteq> [] \<and> balanced v"
    by (auto simp: list_all2_conv_all_nth in_set_conv_nth)
  moreover have ne: "vs \<noteq> []" using ok assms(1) by auto
  ultimately have "splitTopLevelAnd (combinedText cs) = vs" unfolding vs by (intro split_and) blast+
  then show "parseConditions (splitTopLevelAnd (combinedText cs)) = Some (Some cs)"
    using list_all2_mono [OF ok] by (intro parse_conditions) (simp add: separable_def)
  have "balanced (lit '' && '')" by (rule balanced_flat) (simp_all add: lit_def)
  then show "balanced (combinedText cs)" unfolding vs using all by (intro balanced_join) blast+
  show "combinedText cs \<noteq> []" unfolding vs using all ne by (cases vs; cases "tl vs") auto
qed

definition factorText :: "RequestRuleGroup \<Rightarrow> jstr" where
  "factorText g = 40 # combinedText (conditions g) @ lit '' ? '' @ multiplier g @ lit '' : 1)''"

lemma build_factor:
  assumes "readableGroup g"
  shows "buildRuleGroupFactor g = factorText g"
proof -
  note g = assms [unfolded readableGroup_def]
  have "buildRequestConditionExpr c \<noteq> []" if "c \<in> set (conditions g)" for c
    using that g readable_writes unfolding writes_def by blast
  then have "filter (\<lambda>e. e \<noteq> []) (map buildRequestConditionExpr (conditions g)) = map buildRequestConditionExpr (conditions g)"
    by (auto simp: filter_id_conv)
  moreover have "trim (multiplier g) = multiplier g" using g numeric_trim by blast
  moreover have "wrapText = (\<lambda>e. if str_includes (lit '' || '') e then lit ''('' @ e @ lit '')'' else e)"
    by (simp add: fun_eq_iff wrapText_def)
  ultimately show ?thesis
    using g unfolding buildRuleGroupFactor_def factorText_def combinedText_def Let_def numeric_def [symmetric]
    by (simp add: lit_def)
qed

lemma rule_factor_unique:
  assumes "a @ lit '' ? '' @ m @ lit '' : 1)'' = a' @ lit '' ? '' @ m' @ lit '' : 1)''" "numChars m" "numChars m'"
  shows "a = a' \<and> m = m'"
proof -
  have "(a @ lit '' ? '' @ m) @ lit '' : 1)'' = (a' @ lit '' ? '' @ m') @ lit '' : 1)''" using assms(1) by simp
  then have "rev (a @ lit '' ? '' @ m) = rev (a' @ lit '' ? '' @ m')" unfolding append_same_eq by simp
  then have "rev m @ 32 # 63 # 32 # rev a = rev m' @ 32 # 63 # 32 # rev a'" by (simp add: lit_def)
  moreover have "32 \<notin> set (rev m)" "32 \<notin> set (rev m')" using assms(2,3) numChars_not by (metis insertCI set_rev)+
  ultimately show ?thesis using split_at [of "rev m" 32 "63 # 32 # rev a" "rev m'" "63 # 32 # rev a'"] by simp
qed

lemma factor_match:
  assumes "a \<noteq> []" "numeric m"
  shows "matches_whole rule_factor_re (40 # a @ lit '' ? '' @ m @ lit '' : 1)'') = Some [(1, a), (2, m)]"
proof (rule matches_Some [OF rule_factor_build])
  fix cs
  assume "wholeMatch rule_factor_re (40 # a @ lit '' ? '' @ m @ lit '' : 1)'') cs"
  from rule_factor_match [OF this] obtain a' m' where *: "a @ lit '' ? '' @ m @ lit '' : 1)'' = a' @ lit '' ? '' @ m' @ lit '' : 1)''"
      "numChars m'" "cs = [(1, a'), (2, m')]" by auto
  with rule_factor_unique [OF *(1) _ *(2)] numeric_chars [OF assms(2)] show "cs = [(1, a), (2, m)]" by simp
qed (use assms numeric_chars in blast)+

lemma factor_separable:
  assumes "balanced a" "numeric m"
  shows "separable (lit '' * '') (40 # a @ lit '' ? '' @ m @ lit '' : 1)'')"
proof -
  have "balanced (lit '' ? '' @ m @ lit '' : 1'')"
    using numeric_last [OF assms(2)] by (intro balanced_flat) (auto simp: lit_def)
  with assms(1) have b: "balanced (a @ lit '' ? '' @ m @ lit '' : 1'')" by (intro balanced_append [of a])
  have f: "40 # a @ lit '' ? '' @ m @ lit '' : 1)'' = 40 # (a @ lit '' ? '' @ m @ lit '' : 1'') @ [41]" by (simp add: lit_def)
  show ?thesis unfolding f using b by (rule separable_paren) (simp add: lit_def)
qed

lemma factor_reads:
  assumes "readableGroup g"
  shows "tryParseRuleGroupFactor (factorText g) = Some (Some g)" "separable (lit '' * '') (factorText g)"
proof -
  have g: "conditions g \<noteq> []" "\<forall>c\<in>set (conditions g). readable c" "numeric (multiplier g)"
    using assms by (simp_all add: readableGroup_def)
  note c = combined_reads [OF g(1,2)]
  show "tryParseRuleGroupFactor (factorText g) = Some (Some g)"
    using c(1) g(1) factor_match [OF c(3) g(3)] by (simp add: tryParseRuleGroupFactor_def factorText_def group_def)
  show "separable (lit '' * '') (factorText g)" unfolding factorText_def by (rule factor_separable [OF c(2) g(3)])
qed

lemma factorText_ne: "factorText g \<noteq> []"
  by (simp add: factorText_def)

lemma build_rules:
  assumes "\<forall>g\<in>set groups. readableGroup g"
  shows "buildRequestRuleExpr groups = join (lit '' * '') (map factorText groups)"
proof -
  have "map buildRuleGroupFactor groups = map factorText groups" using assms build_factor by simp
  then show ?thesis unfolding buildRequestRuleExpr_def by (simp only:) (simp add: factorText_ne filter_id_conv)
qed

lemma parse_factors: "\<forall>g\<in>set groups. readableGroup g \<Longrightarrow> parseFactors (map factorText groups) = Some (Some groups)"
  by (induction groups) (simp_all add: factor_reads)

lemma separable_trimmed: "separable sep u \<Longrightarrow> trimmed u"
  by (simp add: separable_def)

lemma trimmed_join:
  assumes "us \<noteq> []" "\<forall>u\<in>set us. trimmed u \<and> u \<noteq> []"
  shows "trimmed (join sep us) \<and> join sep us \<noteq> [] \<and> hd (join sep us) = hd (hd us)"
  using assms
proof (induction us rule: induct_list012)
  case (3 x y xs)
  then have "trimmed (join sep (y # xs))" "join sep (y # xs) \<noteq> []" "trimmed x" "x \<noteq> []" by simp_all
  then show ?case by (simp add: trimmed_def)
qed simp_all

lemma split_rules:
  assumes "groups \<noteq> []" "\<forall>g\<in>set groups. readableGroup g"
  shows "trim (buildRequestRuleExpr groups) = buildRequestRuleExpr groups" "buildRequestRuleExpr groups \<noteq> []"
    "splitTopLevelMultiply (buildRequestRuleExpr groups) = map factorText groups"
proof -
  have s: "\<forall>u\<in>set (map factorText groups). separable (lit '' * '') u \<and> u \<noteq> []"
    using assms(2) factor_reads factorText_ne by simp
  then have "\<forall>u\<in>set (map factorText groups). trimmed u \<and> u \<noteq> []" using separable_trimmed by blast
  with trimmed_join [of "map factorText groups" "lit '' * ''"] assms(1)
  show "trim (buildRequestRuleExpr groups) = buildRequestRuleExpr groups" "buildRequestRuleExpr groups \<noteq> []"
    unfolding build_rules [OF assms(2)] by (simp_all add: trimmed_trim_id)
  show "splitTopLevelMultiply (buildRequestRuleExpr groups) = map factorText groups"
    unfolding build_rules [OF assms(2)] using s assms(1) by (intro split_multiply) simp_all
qed

lemma rules_read:
  assumes "\<forall>g\<in>set groups. readableGroup g"
  shows "tryParseRequestRuleExpr (buildRequestRuleExpr groups) = Some (Some groups)"
proof (cases "groups = []")
  case True
  then show ?thesis by (simp add: tryParseRequestRuleExpr_def buildRequestRuleExpr_def trim_no_ws)
next
  case False
  then show ?thesis
    using split_rules [OF False assms] parse_factors [OF assms] by (simp add: tryParseRequestRuleExpr_def)
qed

section \<open>Outer parentheses\<close>

lemma parenLoop_deep:
  "bal d u = Some e \<Longrightarrow> 1 \<le> k \<Longrightarrow> 0 \<le> d \<Longrightarrow> rest \<noteq> [] \<Longrightarrow> parenLoop (d + k) (u @ rest) = parenLoop (e + k) rest"
proof (induction u arbitrary: d)
  case (Cons c u)
  have "depth_after c (d + k) = depth_after c d + k" by (simp add: depth_after_def)
  with Cons show ?case by (auto simp: Let_def split: if_splits)
qed simp

lemma outer_paren:
  assumes "balanced s"
  shows "hasFullOuterParens (40 # s @ [41])"
proof -
  have "parenLoop 1 (s @ [41]) = parenLoop 1 [41]"
    using parenLoop_deep [of 0 s 0 1 "[41]"] assms by (simp add: balanced_def)
  then show ?thesis
    by (simp add: hasFullOuterParens_def starts_with_def ends_with_def lit_def depth_after_def)
qed

lemma unwrap_paren: "balanced s \<Longrightarrow> unwrapOuterParens (40 # s @ [41]) = unwrapOuterParens s"
proof -
  assume "balanced s"
  then have "hasFullOuterParens (40 # s @ [41])" by (rule outer_paren)
  moreover have "trim (40 # s @ [41]) = 40 # s @ [41]" by (rule trimmed_trim_id) (simp add: trimmed_def is_ws_def)
  ultimately show ?thesis unfolding unwrapOuterParens_def by (subst unwrapLoop.simps) simp
qed

section \<open>Splitting rules off\<close>

lemma partition_rules:
  assumes "\<forall>g\<in>set groups. readableGroup g"
  shows "partitionParts (map factorText groups) = Some (map factorText groups, [])"
  using assms
proof (induction groups)
  case (Cons g gs)
  have "buildRequestRuleExpr [g] = factorText g" using build_rules [of "[g]"] Cons.prems by simp
  then have "tryParseRequestRuleExpr (factorText g) = Some (Some [g])" using rules_read [of "[g]"] Cons.prems by simp
  with Cons show ?case by simp
qed simp

lemma not_a_rule:
  assumes "balanced s" "\<not> ends_with (lit '' : 1'') s"
  shows "tryParseRequestRuleExpr (40 # s @ [41]) = Some None"
proof -
  let ?u = "40 # s @ [41]"
  have "separable (lit '' * '') ?u" using assms(1) by (rule separable_paren) (simp add: lit_def)
  then have split: "splitTopLevelMultiply ?u = [?u]" "trim ?u = ?u"
    using split_multiply [of "[?u]"] by (simp_all add: separable_def trimmed_trim_id)
  have "\<not> wholeMatch rule_factor_re ?u cs" for cs
  proof
    assume "wholeMatch rule_factor_re ?u cs"
    from rule_factor_match [OF this] obtain a m where "s @ [41] = a @ lit '' ? '' @ m @ lit '' : 1)''" by auto
    then have "s @ [41] = (a @ lit '' ? '' @ m @ lit '' : 1'') @ [41]" by (simp add: lit_def)
    then have "s = a @ lit '' ? '' @ m @ lit '' : 1''" unfolding append_same_eq .
    then show False using assms(2) by (simp add: ends_with_def starts_with_def lit_def)
  qed
  with split show ?thesis by (simp add: tryParseRequestRuleExpr_def tryParseRuleGroupFactor_def matches_None)
qed

lemma split_combined:
  assumes "trim base \<noteq> []" "balanced (trim base)" "\<not> ends_with (lit '' : 1'') (trim base)"
    and g: "groups \<noteq> []" "\<forall>g\<in>set groups. readableGroup g"
  shows "splitBillingExprAndRequestRules (combineBillingExpr base (buildRequestRuleExpr groups))
     = Some \<lparr>billingExpr = unwrapOuterParens base, requestRuleExpr = buildRequestRuleExpr groups\<rparr>"
proof -
  let ?b = "40 # trim base @ [41]" and ?fs = "map factorText groups" and ?rules = "buildRequestRuleExpr groups"
  have sep: "separable (lit '' * '') ?b" using assms(2) by (rule separable_paren) (simp add: lit_def)
  have "combineBillingExpr base ?rules = ?b @ lit '' * '' @ ?rules"
    using assms(1) split_rules [OF g] by (simp add: combineBillingExpr_def lit_def)
  also have "\<dots> = join (lit '' * '') (?b # ?fs)" using g build_rules [OF g(2)] by (simp add: join_Cons)
  finally have c: "combineBillingExpr base ?rules = join (lit '' * '') (?b # ?fs)" .
  have all: "\<forall>u\<in>set (?b # ?fs). separable (lit '' * '') u \<and> u \<noteq> []"
    using sep g(2) factor_reads factorText_ne by simp
  then have "trim (join (lit '' * '') (?b # ?fs)) = join (lit '' * '') (?b # ?fs)" "join (lit '' * '') (?b # ?fs) \<noteq> []"
    using trimmed_join [of "?b # ?fs" "lit '' * ''"] separable_trimmed trimmed_trim_id by blast+
  moreover have "splitTopLevelMultiply (join (lit '' * '') (?b # ?fs)) = ?b # ?fs" using all by (intro split_multiply) simp_all
  moreover have "partitionParts (?b # ?fs) = Some (?fs, [?b])"
    using not_a_rule [OF assms(2,3)] partition_rules [OF g(2)] by simp
  moreover have "unwrapOuterParens ?b = unwrapOuterParens base" using unwrap_paren [OF assms(2)] by (simp add: unwrapOuterParens_def)
  ultimately show ?thesis unfolding c splitBillingExprAndRequestRules_def Let_def
    using g by (simp add: build_rules [OF g(2)] del: splitLoop.simps)
qed

text \<open>One turn of the loop that takes parentheses off.\<close>

definition peel :: "jstr \<Rightarrow> jstr" where
  "peel s = trim (butlast (tl s))"

lemma peel_length: "hasFullOuterParens s \<Longrightarrow> length (peel s) + 2 \<le> length s"
proof -
  assume "hasFullOuterParens s"
  then have "starts_with (lit ''('') s" "ends_with (lit '')'') s" by (auto simp: hasFullOuterParens_def split: if_splits)
  then have "2 \<le> length s"
    by (cases s; cases "tl s") (auto simp: starts_with_def ends_with_def lit_def)
  with length_trim [of "butlast (tl s)"] show ?thesis by (simp add: peel_def)
qed

lemma unwrapLoop_peels:
  "\<exists>n. 2 * n \<le> length s \<and> unwrapLoop s = (peel ^^ n) s \<and> \<not> hasFullOuterParens ((peel ^^ n) s) \<and>
     (\<forall>k<n. hasFullOuterParens ((peel ^^ k) s))"
proof (induction s rule: unwrapLoop.induct)
  case (1 s)
  show ?case
  proof (cases "hasFullOuterParens s")
    case True
    with 1 obtain n where n: "2 * n \<le> length (peel s)" "unwrapLoop (peel s) = (peel ^^ n) (peel s)"
        "\<not> hasFullOuterParens ((peel ^^ n) (peel s))" "\<forall>k<n. hasFullOuterParens ((peel ^^ k) (peel s))"
      unfolding peel_def by blast
    have "unwrapLoop s = unwrapLoop (peel s)" using True by (subst unwrapLoop.simps) (simp add: peel_def)
    moreover have "(peel ^^ k) (peel s) = (peel ^^ Suc k) s" for k by (simp add: funpow_swap1)
    ultimately have "unwrapLoop s = (peel ^^ Suc n) s" "\<not> hasFullOuterParens ((peel ^^ Suc n) s)"
      using n(2,3) by simp_all
    moreover have "hasFullOuterParens ((peel ^^ k) s)" if "k < Suc n" for k
      using that True n(4) by (cases k) (simp_all add: funpow_swap1)
    moreover have "2 * Suc n \<le> length s" using n(1) peel_length [OF True] by simp
    ultimately show ?thesis by blast
  next
    case False
    then have "unwrapLoop s = s" by (subst unwrapLoop.simps) simp
    with False show ?thesis by (intro exI [of _ 0]) simp
  qed
qed

section \<open>Conditions that are not read back\<close>

text \<open>Neither a comparison of a parameter nor containment in one is a condition by itself.\<close>

lemma bare_compare_unread:
  assumes "plainName p" "op \<in> {lit ''>'', lit ''>='', lit ''<'', lit ''<=''}"
  shows "tryParseRequestCondition (callForm (lit ''param'') p (compareTail op v)) = Some None"
proof -
  let ?s = "callForm (lit ''param'') p (compareTail op v)"
  note p = plainName_quote [OF assms(1)]
  have other: "\<not> (\<exists>f q x t. ?s = callForm f q (32 # x # t) \<and> x \<in> {33, 61} \<and> 40 \<notin> set f \<and> 34 \<notin> set q)"
  proof (intro notI, elim exE conjE)
    fix f q x t
    assume q: "?s = callForm f q (32 # x # t)" "x \<in> {33, 61}" "40 \<notin> set f" "34 \<notin> set q"
    with callForm_inject [OF q(1) names_plain(2) q(3) _ q(4)] p have "compareTail op v = 32 # x # t" by blast
    with assms(2) q(2) show False by (auto simp: compareTail_def lit_def)
  qed
  have tails: "lit '' != nil'' = 32 # 33 # lit ''= nil''" "lit '' != nil && '' @ t = 32 # 33 # lit ''= nil && '' @ t"
    "lit '' == '' @ t = 32 # 61 # lit ''= '' @ t" for t by (simp_all add: lit_def)
  have "tryParseTimeCondition ?s = None"
    unfolding callForm_paren by (rule no_time) (simp_all add: lit_def TIME_FUNCS_def)
  moreover have "matches_whole header_exists_re ?s = None"
    unfolding callForm_paren by (rule no_header_exists) (simp_all add: lit_def)
  moreover have "matches_whole header_contains_re ?s = None"
    unfolding callForm_paren by (rule no_header_contains) (simp_all add: lit_def)
  moreover have "matches_whole param_exists_re ?s = None"
    using param_exists_match [unfolded tails] other names_plain by (intro matches_None) blast
  moreover have "matches_whole param_contains_re ?s = None"
    using param_contains_match [unfolded tails] other names_plain by (intro matches_None) blast
  moreover have "matches_whole param_compare_re ?s = None"
    using param_compare_match [unfolded tails] other names_plain by (intro matches_None) blast
  moreover have "matches_whole equals_re ?s = None"
    using equals_match [unfolded tails] other names_plain by (intro matches_None) blast
  ultimately show ?thesis by (simp add: tryParseRequestCondition_def tryParseParamNil_def tryParseEquals_def)
qed

lemma bare_has_unread: "tryParseRequestCondition (lit ''has(param('' @ t) = Some None"
proof -
  let ?s = "lit ''has(param('' @ t"
  have s: "?s = lit ''has'' @ 40 # lit ''param('' @ t" by (simp add: lit_def)
  have "\<not> wholeMatch header_contains_re ?s cs" for cs
  proof
    assume "wholeMatch header_contains_re ?s cs"
    from header_contains_match [OF this] show False by (auto simp: callForm_def lit_def)
  qed
  moreover have "\<not> wholeMatch equals_re ?s cs" for cs
  proof
    assume "wholeMatch equals_re ?s cs"
    from equals_match [OF this] show False by (auto simp: callForm_def lit_def)
  qed
  moreover have "tryParseTimeCondition ?s = None" unfolding s by (rule no_time) (simp_all add: lit_def TIME_FUNCS_def)
  moreover have "matches_whole header_exists_re ?s = None" unfolding s by (rule no_header_exists) (simp_all add: lit_def)
  moreover have "matches_whole param_exists_re ?s = None" unfolding s by (rule no_param_exists) (simp_all add: lit_def)
  moreover have "tryParseParamNil ?s = Some (tryParseEquals ?s)" unfolding s by (rule no_param_nil) (simp_all add: lit_def)
  ultimately show ?thesis by (simp add: tryParseRequestCondition_def tryParseEquals_def matches_None)
qed

lemma unread_factor:
  assumes "us \<noteq> []" "\<forall>u\<in>set us. separable (lit '' && '') u \<and> u \<noteq> [] \<and> balanced u" "parseConditions us = Some None" "numeric m"
  shows "tryParseRequestRuleExpr (40 # join (lit '' && '') us @ lit '' ? '' @ m @ lit '' : 1)'') = Some None"
proof -
  let ?a = "join (lit '' && '') us"
  let ?f = "40 # ?a @ lit '' ? '' @ m @ lit '' : 1)''"
  have "balanced (lit '' && '')" by (rule balanced_flat) (simp_all add: lit_def)
  then have "balanced ?a" using assms(2) by (intro balanced_join) blast+
  then have s: "separable (lit '' * '') ?f" using assms(4) by (rule factor_separable)
  have "?a \<noteq> []" using assms(1,2) by (cases us; cases "tl us") auto
  then have "matches_whole rule_factor_re ?f = Some [(1, ?a), (2, m)]" using assms(4) by (rule factor_match)
  moreover have "splitTopLevelAnd ?a = us" using assms(1,2) by (intro split_and) blast+
  moreover have "splitTopLevelMultiply ?f = [?f]" using split_multiply [of "[?f]"] s by simp
  moreover have "trim ?f = ?f" using separable_trimmed [OF s] by (rule trimmed_trim_id)
  ultimately show ?thesis
    using assms(3) by (simp add: tryParseRequestRuleExpr_def tryParseRuleGroupFactor_def group_def)
qed

text \<open>How a comparison of a parameter, or containment in one, is written.\<close>

definition paramTest :: "jstr \<Rightarrow> jstr \<Rightarrow> jstr \<Rightarrow> jstr" where
  "paramTest p mode v =
     (if mode = MATCH_CONTAINS then lit ''has('' @ callForm (lit ''param'') p (lit '', '' @ json_quote v @ lit '')'')
      else callForm (lit ''param'') p (compareTail (compareOp mode) v))"

definition guarded :: "jstr \<Rightarrow> jstr \<Rightarrow> bool" where
  "guarded mode v = (mode \<in> {MATCH_GT, MATCH_GTE, MATCH_LT, MATCH_LTE} \<and> numeric v \<or> mode = MATCH_CONTAINS \<and> plainValue v)"

lemma compare_modes_distinct:
  "mode \<in> {MATCH_GT, MATCH_GTE, MATCH_LT, MATCH_LTE} \<Longrightarrow> mode \<noteq> MATCH_CONTAINS \<and> mode \<noteq> MATCH_EXISTS"
  by (auto simp: match_modes lit_def)

lemma build_guarded:
  assumes "plainName p" "guarded mode v"
  shows "buildRequestConditionExpr (phCond SourceParam p mode v)
     = callForm (lit ''param'') p (lit '' != nil'') @ lit '' && '' @ paramTest p mode v"
proof -
  let ?c = "\<lparr>ph_source = SourceParam, ph_path = p, ph_mode = mode, ph_value = v\<rparr>"
  have p: "trim p = p" "p \<noteq> []" using plainName_quote [OF assms(1)] by blast+
  have n: "normalizeParamHeader ?c = ?c"
    unfolding normalizeParamHeader_def using assms(2) by (auto simp: getRequestRuleMatchOptions_def guarded_def)
  consider "mode = MATCH_CONTAINS" "plainValue v" | "mode \<in> {MATCH_GT, MATCH_GTE, MATCH_LT, MATCH_LTE}" "numeric v"
    using assms(2) unfolding guarded_def by blast
  then show ?thesis
  proof cases
    case 1
    have "buildExprLiteral MATCH_CONTAINS v = json_quote v"
      using 1(2) by (simp add: buildExprLiteral_def plainValue_def trimmed_trim_id)
    with 1 p modes_distinct(1) show ?thesis
      unfolding buildRequestConditionExpr_def phCond_def RequestCondition.case Let_def n
      by (simp add: paramTest_def json_quote_name [OF assms(1)] callForm_def lit_def)
  next
    case 2
    have "mode \<in> set [MATCH_GT, MATCH_GTE, MATCH_LT, MATCH_LTE]" using 2(1) by simp
    with 2(2) p compare_modes_distinct [OF 2(1)] show ?thesis
      unfolding buildRequestConditionExpr_def phCond_def RequestCondition.case Let_def n numeric_def [symmetric]
      by (simp add: paramTest_def numeric_trim json_quote_name [OF assms(1)] callForm_def compareTail_def lit_def del: list.set)
  qed
qed

lemma compareOp_chars: "compareOp mode \<in> {lit ''>'', lit ''>='', lit ''<'', lit ''<=''}"
  by (simp add: compareOp_def)

lemma paramTest_text:
  assumes "plainName p" "guarded mode v"
  shows "tryParseRequestCondition (paramTest p mode v) = Some None" "trimmed (paramTest p mode v)" "balanced (paramTest p mode v)"
    "38 \<notin> set (paramTest p mode v)" "paramTest p mode v \<noteq> []"
proof -
  note p = plainName_chars [OF assms(1)]
  have f: "lit ''param'' \<noteq> []" "\<not> is_ws (hd (lit ''param''))" "40 \<notin> set (lit ''param'')" "41 \<notin> set (lit ''param'')" "38 \<notin> set (lit ''param'')"
    by (simp_all add: lit_def is_ws_def)
  consider "mode = MATCH_CONTAINS" "plainValue v" | "mode \<noteq> MATCH_CONTAINS" "numeric v"
    using assms(2) compare_modes_distinct unfolding guarded_def by blast
  then have "tryParseRequestCondition (paramTest p mode v) = Some None \<and> trimmed (paramTest p mode v) \<and> balanced (paramTest p mode v)
    \<and> 38 \<notin> set (paramTest p mode v) \<and> paramTest p mode v \<noteq> []"
  proof cases
    case 1
    let ?c = "callForm (lit ''param'') p (lit '', '' @ json_quote v)"
    have t: "paramTest p mode v = lit ''has'' @ 40 # ?c @ [41]" using 1 by (simp add: paramTest_def callForm_def lit_def)
    have "paramTest p mode v = lit ''has(param('' @ 34 # p @ 34 # lit ''), '' @ json_quote v @ lit '')''"
      unfolding t by (simp add: callForm_def lit_def)
    then have r: "tryParseRequestCondition (paramTest p mode v) = Some None" using bare_has_unread by simp
    have comma: "\<forall>c\<in>set (lit '', ''). c \<notin> special" by (simp add: lit_def special_def)
    have q: "x \<in> special \<Longrightarrow> x \<notin> set (lit '', '' @ json_quote v)" for x
      using json_quote_special [OF 1(2)] comma unfolding set_append by blast
    have sp: "38 \<in> special" "40 \<in> special" "41 \<in> special" by (simp_all add: special_def)
    have "balanced (lit '', '' @ json_quote v)" using q sp(2,3) by (intro balanced_flat) blast+
    then have "balanced ?c" using f p by (intro balanced_call) blast+
    moreover have "balanced (lit ''has'')" by (rule balanced_flat) (simp_all add: lit_def)
    ultimately have "balanced (paramTest p mode v)" unfolding t by (intro balanced_append balanced_paren)
    moreover have "38 \<notin> set ?c" using f p q [OF sp(1)] unfolding call_chars by simp
    then have "38 \<notin> set (paramTest p mode v)" unfolding t by (simp add: lit_def)
    moreover have "trimmed (paramTest p mode v)" unfolding t by (simp add: trimmed_def lit_def is_ws_def)
    ultimately show ?thesis using r t by (simp add: lit_def)
  next
    case 2
    let ?t = "compareTail (compareOp mode) v"
    have t: "paramTest p mode v = callForm (lit ''param'') p ?t" using 2(1) by (simp add: paramTest_def)
    note v = numeric_last [OF 2(2)]
    have "x \<notin> set (lit '' '') \<union> set (compareOp mode)" if "x \<in> {38, 40, 41}" for x
      using compareOp_chars [of mode] that by (auto simp: lit_def)
    then have no: "x \<notin> set ?t" if "x \<in> {38, 40, 41}" for x using that v unfolding compareTail_def by auto
    have "?t \<noteq> []" "\<not> is_ws (last ?t)" using v by (simp_all add: compareTail_def lit_def)
    then have "trimmed (paramTest p mode v)" unfolding t using f by (intro call_trimmed)
    moreover have "balanced ?t" using no by (intro balanced_flat) blast+
    then have "balanced (paramTest p mode v)" unfolding t using f p by (intro balanced_call) blast+
    moreover have "38 \<notin> set (paramTest p mode v)" unfolding t call_chars using f p no by simp
    moreover have "tryParseRequestCondition (paramTest p mode v) = Some None"
      unfolding t using bare_compare_unread [OF assms(1) compareOp_chars] .
    ultimately show ?thesis using t by (simp add: callForm_def)
  qed
  then show "tryParseRequestCondition (paramTest p mode v) = Some None" "trimmed (paramTest p mode v)" "balanced (paramTest p mode v)"
    "38 \<notin> set (paramTest p mode v)" "paramTest p mode v \<noteq> []" by blast+
qed

lemma guarded_unread:
  assumes "plainName p" "guarded mode v" "numeric m"
  shows "tryParseRequestRuleExpr (buildRequestRuleExpr [\<lparr>conditions = [phCond SourceParam p mode v], multiplier = m\<rparr>]) = Some None"
proof -
  let ?e = "callForm (lit ''param'') p (lit '' != nil'')" and ?t = "paramTest p mode v"
  have e: "writes (phCond SourceParam p MATCH_EXISTS []) ?e" using writes_exists [OF assms(1), of SourceParam] by (simp add: sourceName_def)
  note t = paramTest_text [OF assms(1,2)]
  have a: "buildRequestConditionExpr (phCond SourceParam p mode v) = join (lit '' && '') [?e, ?t]"
    using build_guarded [OF assms(1,2)] by simp
  have "join (lit '' && '') [?e, ?t] \<noteq> []" by (simp add: lit_def)
  then have "buildRequestRuleExpr [\<lparr>conditions = [phCond SourceParam p mode v], multiplier = m\<rparr>]
      = 40 # join (lit '' && '') [?e, ?t] @ lit '' ? '' @ m @ lit '' : 1)''"
    using assms(3) unfolding buildRequestRuleExpr_def buildRuleGroupFactor_def Let_def numeric_def [symmetric]
    by (simp add: a numeric_trim del: join.simps) (simp add: lit_def)
  moreover have "tryParseRequestRuleExpr (40 # join (lit '' && '') [?e, ?t] @ lit '' ? '' @ m @ lit '' : 1)'') = Some None"
  proof (rule unread_factor)
    show "\<forall>u\<in>set [?e, ?t]. separable (lit '' && '') u \<and> u \<noteq> [] \<and> balanced u"
      using e writes_separable [OF e] t separable_and by (simp add: writes_def)
    show "parseConditions [?e, ?t] = Some None"
      using e t(1,2) by (simp add: writes_def trimmed_trim_id)
  qed (use assms(3) in simp_all)
  ultimately show ?thesis by simp
qed

section \<open>Sample rules\<close>

text \<open>
  \<open>(hour("Asia/Shanghai") >= 22 || hour("Asia/Shanghai") < 6) && header("x-mode") == "fast" ? 2 : 1\<close> and
  \<open>has(header("user-agent"), "bot") ? 0.5 : 1\<close>.
\<close>

definition sampleRules :: "RequestRuleGroup list" where
  "sampleRules =
     [\<lparr>conditions =
         [Time \<lparr>timeFunc = lit ''hour'', timezone = lit ''Asia/Shanghai'', t_mode = MATCH_RANGE, t_value = [],
            rangeStart = lit ''22'', rangeEnd = lit ''6''\<rparr>,
          phCond SourceHeader (lit ''x-mode'') MATCH_EQ (lit ''fast'')],
       multiplier = lit ''2''\<rparr>,
      \<lparr>conditions = [phCond SourceHeader (lit ''user-agent'') MATCH_CONTAINS (lit ''bot'')], multiplier = lit ''0.5''\<rparr>]"

lemma sample_numeric: "numeric (lit ''2'')" "numeric (lit ''22'')" "numeric (lit ''6'')" "numeric (lit ''0.5'')"
  unfolding numeric_def by code_simp+

lemma sample_names: "plainName (lit ''Asia/Shanghai'')" "plainName (lit ''x-mode'')" "plainName (lit ''user-agent'')"
    "plainValue (lit ''fast'')" "plainValue (lit ''bot'')"
  by (simp_all add: plainName_def plainValue_def trimmed_def is_ws_def special_def code_units_def lit_def)

lemma sample_readable: "\<forall>g\<in>set sampleRules. readableGroup g"
  using sample_numeric sample_names
  by (simp add: sampleRules_def readableGroup_def phCond_def readableTime_def readableParamHeader_def TIME_FUNCS_def)

section \<open>Properties\<close>

text \<open>
  C21.  Rules written as text are read back: for rules whose conditions are comparisons of times,
  overnight ranges, existence and equality of parameters and headers, and containment in headers, with
  numeric literals and names and values free of the characters that structure an expression,
  \<open>tryParseRequestRuleExpr\<close> applied to \<open>buildRequestRuleExpr\<close> gives exactly the rules, in order.
\<close>

theorem rules_roundtrip:
  assumes "\<forall>g\<in>set groups. readableGroup g"
  shows "tryParseRequestRuleExpr (buildRequestRuleExpr groups) = Some (Some groups)"
  using assms by (rule rules_read)

theorem rules_roundtrip_witness:
  "sampleRules \<noteq> [] \<and> tryParseRequestRuleExpr (buildRequestRuleExpr sampleRules) = Some (Some sampleRules)"
  using rules_roundtrip [OF sample_readable] by (simp add: sampleRules_def)

text \<open>
    Rules split off again: from a base expression with balanced parentheses that does not itself end
  as a rule does, combined with a non-empty list of readable rules, \<open>splitBillingExprAndRequestRules\<close> returns
  the base without outer parentheses and the text of the rules, without throwing.
\<close>

theorem split_combine:
  assumes "trim base \<noteq> []" "balanced (trim base)" "\<not> ends_with (lit '' : 1'') (trim base)"
    and "groups \<noteq> []" "\<forall>g\<in>set groups. readableGroup g"
  shows "splitBillingExprAndRequestRules (combineBillingExpr base (buildRequestRuleExpr groups))
     = Some \<lparr>billingExpr = unwrapOuterParens base, requestRuleExpr = buildRequestRuleExpr groups\<rparr>"
  using assms by (rule split_combined)

theorem split_combine_witness:
  "splitBillingExprAndRequestRules (combineBillingExpr (lit '' (p * 2 + c * 8) '') (buildRequestRuleExpr sampleRules))
     = Some \<lparr>billingExpr = lit ''p * 2 + c * 8'', requestRuleExpr = buildRequestRuleExpr sampleRules\<rparr>"
proof -
  let ?b = "lit '' (p * 2 + c * 8) ''"
  have "trim ?b \<noteq> []" "balanced (trim ?b)" "\<not> ends_with (lit '' : 1'') (trim ?b)" "sampleRules \<noteq> []" by code_simp+
  moreover have "unwrapOuterParens ?b = lit ''p * 2 + c * 8''" by code_simp
  ultimately show ?thesis using split_combine [of ?b sampleRules] sample_readable by simp
qed

text \<open>
  C22.  The loop of \<open>unwrapOuterParens\<close> ends: it takes at most half as many turns as the text has
  characters, every turn starts from a text in parentheses, and the text it ends with is the first one
  that is not.
\<close>

theorem unwrap_ends:
  "\<exists>n. 2 * n \<le> length expr \<and> unwrapOuterParens expr = (peel ^^ n) (trim expr) \<and>
     \<not> hasFullOuterParens (unwrapOuterParens expr) \<and> (\<forall>k<n. hasFullOuterParens ((peel ^^ k) (trim expr)))"
proof -
  obtain n where n: "2 * n \<le> length (trim expr)" "unwrapLoop (trim expr) = (peel ^^ n) (trim expr)"
      "\<not> hasFullOuterParens ((peel ^^ n) (trim expr))" "\<forall>k<n. hasFullOuterParens ((peel ^^ k) (trim expr))"
    using unwrapLoop_peels by blast
  moreover have "2 * n \<le> length expr" using n(1) length_trim [of expr] by linarith
  ultimately show ?thesis unfolding unwrapOuterParens_def by auto
qed

theorem unwrap_ends_witness:
  "hasFullOuterParens (lit ''( (p) )'') \<and>
   (\<exists>n. 2 * n \<le> length (lit ''( (p) )'') \<and> unwrapOuterParens (lit ''( (p) )'') = (peel ^^ n) (trim (lit ''( (p) )'')) \<and>
     \<not> hasFullOuterParens (unwrapOuterParens (lit ''( (p) )'')) \<and>
     (\<forall>k<n. hasFullOuterParens ((peel ^^ k) (trim (lit ''( (p) )'')))))"
proof
  show "hasFullOuterParens (lit ''( (p) )'')" by code_simp
qed (rule unwrap_ends)

text \<open>
    Rules on parameters that are lost: a rule with one comparison of a parameter (greater or less than a
  number) or with containment in a parameter is written as two tests joined by a conjunction, which the reader
  splits apart; it never reads such a rule back, although it has patterns for these texts.
\<close>

theorem param_rule_unread:
  assumes "plainName p" "guarded mode v" "numeric m"
  shows "tryParseRequestRuleExpr (buildRequestRuleExpr [\<lparr>conditions = [phCond SourceParam p mode v], multiplier = m\<rparr>]) = Some None"
  using assms by (rule guarded_unread)

theorem param_rule_unread_witness:
  "tryParseRequestRuleExpr (buildRequestRuleExpr
      [\<lparr>conditions = [phCond SourceParam (lit ''max_tokens'') MATCH_GT (lit ''22'')], multiplier = lit ''2''\<rparr>]) = Some None"
proof (rule param_rule_unread)
  show "plainName (lit ''max_tokens'')"
    by (simp add: plainName_def trimmed_def is_ws_def special_def lit_def)
  show "guarded MATCH_GT (lit ''22'')" using sample_numeric by (simp add: guarded_def)
qed (rule sample_numeric)

end
