(* ===== verification/JS_Object.thy ===== *)
theory JS_Object
  imports JS_Json_Laws
begin

text \<open>
  Enumerating and copying the own properties of a value: \<open>Object.entries\<close> and the spread of objects,
  arrays and strings; the keys of an object read by \<open>JSON.parse\<close> are distinct at every level.  The lists of
  properties in property order are characterised; setting and deleting properties keeps them.  Properties inherited from
  prototypes are not modelled.
\<close>

section \<open>Own properties\<close>

definition index_keys :: "'a list \<Rightarrow> (jstr \<times> 'a) list" where
  "index_keys xs = map (\<lambda>(i, x). (num_str (Fin (of_nat i)), x)) (enumerate 0 xs)"

fun own_entries :: "jsval \<Rightarrow> (jstr \<times> jsval) list" where
  "own_entries (JObj o') = o'"
| "own_entries (JArr xs) = index_keys xs"
| "own_entries (JStr s) = index_keys (map (\<lambda>c. JStr [c]) s)"
| "own_entries _ = []"

text \<open>\<open>Object.entries(v)\<close> throws on null and undefined; the spread does not.\<close>

definition object_entries :: "jsval \<Rightarrow> (jstr \<times> jsval) list option" where
  "object_entries v = (if nullish v then None else Some (own_entries v))"

text \<open>\<open>{...o, ...v}\<close>.\<close>

definition obj_assign :: "(jstr \<times> 'v) list \<Rightarrow> (jstr \<times> 'v) list \<Rightarrow> (jstr \<times> 'v) list" where
  "obj_assign o' kvs = fold (\<lambda>(k, v). obj_put k v) kvs o'"

lemma obj_assign_simps [simp]:
  "obj_assign o' [] = o'" "obj_assign o' ((k, v) # kvs) = obj_assign (obj_put k v o') kvs"
  by (simp_all add: obj_assign_def)

lemma obj_of_assign: "obj_of kvs = obj_assign [] kvs"
  by (simp add: obj_of_def obj_assign_def)

lemma map_of_assign: "distinct (map fst kvs) \<Longrightarrow> map_of (obj_assign o' kvs) = map_of o' ++ map_of kvs"
proof (induction kvs arbitrary: o')
  case (Cons kv kvs)
  obtain a b where kv: "kv = (a, b)" by (cases kv)
  with Cons.prems have d: "a \<notin> dom (map_of kvs)" "distinct (map fst kvs)" by (simp_all add: dom_map_of_conv_image_fst)
  have "map_of (obj_assign o' (kv # kvs)) = (map_of o')(a \<mapsto> b) ++ map_of kvs"
    using Cons.IH [OF d(2)] kv by (simp only: obj_assign_simps map_of_obj_put)
  also have "\<dots> = (map_of o' ++ map_of kvs)(a \<mapsto> b)" using d(1) by (rule map_add_upd_left)
  also have "\<dots> = map_of o' ++ map_of (kv # kvs)" using kv by simp
  finally show ?case .
qed simp

lemma distinct_assign: "distinct (map fst o') \<Longrightarrow> distinct (map fst (obj_assign o' kvs))"
  by (induction kvs arbitrary: o') (auto simp: distinct_obj_put)

lemma distinct_obj_of: "distinct (map fst (obj_of kvs))"
  by (simp add: obj_of_assign distinct_assign)

lemma map_of_obj_of: "distinct (map fst kvs) \<Longrightarrow> map_of (obj_of kvs) = map_of kvs"
  by (simp add: obj_of_assign map_of_assign)

section \<open>Objects of converted values\<close>

definition map_vals :: "('v \<Rightarrow> 'w) \<Rightarrow> (jstr \<times> 'v) list \<Rightarrow> (jstr \<times> 'w) list" where
  "map_vals f o' = map (\<lambda>(k, v). (k, f v)) o'"

lemma map_vals_simps [simp]: "map_vals f [] = []" "map_vals f ((k, v) # o') = (k, f v) # map_vals f o'"
  "map_vals f (a @ b) = map_vals f a @ map_vals f b"
  by (simp_all add: map_vals_def)

lemma keys_map_vals [simp]: "map fst (map_vals f o') = map fst o'"
  by (induction o') auto

lemma map_of_map_vals: "map_of (map_vals f o') k = map_option f (map_of o' k)"
  by (induction o') auto

lemma update_map_vals: "AList.update k (f v) (map_vals f o') = map_vals f (AList.update k v o')"
  by (induction o') auto

lemma insert_index_map_vals: "insert_index i k (f v) (map_vals f o') = map_vals f (insert_index i k v o')"
  by (induction i k v o' rule: insert_index.induct) (auto split: option.splits)

lemma obj_put_map_vals: "obj_put k (f v) (map_vals f o') = map_vals f (obj_put k v o')"
  by (simp add: obj_put_def update_map_vals insert_index_map_vals split: option.splits)

lemma obj_of_map_vals: "obj_of (map_vals f kvs) = map_vals f (obj_of kvs)"
proof -
  have "obj_assign (map_vals f o') (map_vals f kvs) = map_vals f (obj_assign o' kvs)" for o'
    by (induction kvs arbitrary: o') (auto simp: obj_put_map_vals)
  from this [of "[]"] show ?thesis by (simp add: obj_of_assign)
qed

lemma object_plain:
  assumes "obj_of s = s" "\<forall>(k, v)\<in>set s. code_units k \<and> json_plain (f v)"
  shows "json_plain (JObj (map_vals f s))"
proof -
  have "obj_of (map_vals f s) = map_vals f s" using assms(1) by (simp add: obj_of_map_vals)
  moreover have "\<forall>kv\<in>set (map_vals f s). code_units (fst kv) \<and> json_plain (snd kv)"
    using assms(2) by (auto simp: map_vals_def)
  ultimately show ?thesis by simp
qed

section \<open>Keys of parsed objects\<close>

fun unique_keys :: "jsval \<Rightarrow> bool" where
  "unique_keys (JObj o') = (distinct (map fst o') \<and> (\<forall>kv\<in>set o'. unique_keys (snd kv)))"
| "unique_keys (JArr xs) = (\<forall>x\<in>set xs. unique_keys x)"
| "unique_keys _ = True"

lemma set_obj_put: "set (obj_put k v o') \<subseteq> insert (k, v) (set o')"
  unfolding obj_put_def using set_update_subset [of k v o'] by (auto simp: set_insert_index split: if_splits option.splits)

lemma set_assign: "set (obj_assign o' kvs) \<subseteq> set o' \<union> set kvs"
proof (induction kvs arbitrary: o')
  case (Cons kv kvs)
  then show ?case using set_obj_put by (cases kv) fastforce
qed simp

lemma unique_obj_of: "\<forall>kv\<in>set kvs. unique_keys (snd kv) \<Longrightarrow> unique_keys (JObj (obj_of kvs))"
  using set_assign [of "[]" kvs] by (auto simp: distinct_obj_of obj_of_assign [symmetric])

lemma unique_nil: "unique_keys (JObj [])"
  by simp

lemma literal_unique: "json_literal s = Some (v, r) \<Longrightarrow> unique_keys v"
  by (auto simp: json_literal_def split: if_splits)

lemma json_value_unique:
  "json_value n s = Some (v, r) \<Longrightarrow> unique_keys v"
  "json_elems n s = Some (vs, r) \<Longrightarrow> \<forall>v\<in>set vs. unique_keys v"
  "json_members n s = Some (ms, r) \<Longrightarrow> \<forall>kv\<in>set ms. unique_keys (snd kv)"
proof (induction n s and n s and n s arbitrary: v r and vs r and ms r rule: json_value_json_elems_json_members.induct)
  case (2 n s)
  then show ?case
    by (auto simp del: unique_keys.simps(1) simp: unique_nil split: list.splits if_splits
        dest!: literal_unique intro!: unique_obj_of) fastforce
next
  case (4 n s)
  then show ?case by (auto split: option.splits list.splits if_splits prod.splits)
next
  case (6 n s)
  then show ?case by (auto split: option.splits list.splits if_splits prod.splits) fastforce
qed auto

lemma json_parse_unique: "json_parse s = Some v \<Longrightarrow> unique_keys v"
  by (auto simp: json_parse_def simp del: json_value.simps split: option.splits if_splits dest: json_value_unique(1))

lemma unique_member: "unique_keys (JObj o') \<Longrightarrow> map_of o' k = Some v \<Longrightarrow> unique_keys v"
  using map_of_SomeD by fastforce

section \<open>Property order\<close>

text \<open>Index keys come first, in increasing order; the other keys follow in any order.\<close>

definition key_before :: "jstr \<Rightarrow> jstr \<Rightarrow> bool" where
  "key_before a b = (case (key_index a, key_index b) of
     (Some i, Some j) \<Rightarrow> i < j | (None, Some _) \<Rightarrow> False | _ \<Rightarrow> True)"

definition canonical :: "(jstr \<times> 'v) list \<Rightarrow> bool" where
  "canonical o' = (distinct (map fst o') \<and> sorted_wrt key_before (map fst o'))"

lemma dec_nat_parse_dec:
  "list_all is_digit k \<Longrightarrow> k \<noteq> [] \<Longrightarrow> hd k \<noteq> 48 \<or> length k = 1 \<Longrightarrow> dec_nat (parse_dec k) = k"
proof (induction k rule: rev_induct)
  case (snoc c k)
  have c: "48 \<le> c" "c \<le> 57" using snoc.prems(1) by (auto simp: is_digit_def)
  show ?case
  proof (cases "k = []")
    case True
    then have "parse_dec (k @ [c]) = c - 48" using parse_dec_snoc [of "[]" c] by (simp add: parse_dec_def)
    then show ?thesis using True c by (subst dec_nat.simps) simp
  next
    case False
    have k: "list_all is_digit k" "hd k \<noteq> 48" using snoc.prems False by auto
    then have ih: "dec_nat (parse_dec k) = k" using snoc.IH False by simp
    have nn: "0 \<le> parse_dec k" using k(1) by (intro parse_dec_nonneg) (simp add: list_all_iff)
    have "parse_dec k \<noteq> 0"
    proof
      assume "parse_dec k = 0"
      then have "k = [48]" using ih by (simp add: dec_nat.simps)
      with k(2) show False by simp
    qed
    with nn have p: "1 \<le> parse_dec k" by simp
    have "parse_dec (k @ [c]) = parse_dec k * 10 + (c - 48)" by (rule parse_dec_snoc)
    moreover have "(parse_dec k * 10 + (c - 48)) div 10 = parse_dec k" "(parse_dec k * 10 + (c - 48)) mod 10 = c - 48"
      using c by auto
    ultimately show ?thesis using p ih c by (subst dec_nat.simps) simp
  qed
qed simp

lemma key_index_inj: "key_index a = Some i \<Longrightarrow> key_index b = Some i \<Longrightarrow> a = b"
  by (metis dec_nat_parse_dec key_index_def option.distinct(1) option.inject)

lemma insert_index_after:
  "\<forall>k'\<in>fst ` set o'. key_before k' k \<Longrightarrow> key_index k = Some i \<Longrightarrow> insert_index i k v o' = o' @ [(k, v)]"
  by (induction o') (auto simp: key_before_def split: option.splits)

lemma canonical_snoc: "canonical (o' @ [(k, v)]) \<Longrightarrow> obj_put k v o' = o' @ [(k, v)]"
proof -
  assume c: "canonical (o' @ [(k, v)])"
  then have f: "k \<notin> set (map fst o')" "\<forall>k'\<in>fst ` set o'. key_before k' k" by (auto simp: canonical_def sorted_wrt_append)
  then show ?thesis using insert_index_after [OF f(2)] by (auto simp: obj_put_def split: option.split)
qed

lemma obj_of_canonical: "canonical o' \<Longrightarrow> obj_of o' = o'"
proof (induction o' rule: rev_induct)
  case (snoc kv o')
  obtain k v where kv: "kv = (k, v)" by (cases kv)
  have "canonical o'" using snoc.prems by (simp add: canonical_def sorted_wrt_append)
  with snoc kv canonical_snoc [of o' k v] show ?case by (simp add: obj_of_def)
qed (simp add: obj_of_def)

lemma keys_insert_index: "\<exists>a b. map fst o' = a @ b \<and> map fst (insert_index i k v o') = a @ k # b \<and>
    (\<forall>x\<in>set a. \<exists>j<i. key_index x = Some j) \<and> (b = [] \<or> (\<forall>j. key_index (hd b) = Some j \<longrightarrow> i \<le> j))"
proof (induction i k v o' rule: insert_index.induct)
  case (2 i k v k' v' o')
  show ?case
  proof (cases "\<exists>j<i. key_index k' = Some j")
    case True
    then obtain j where j: "key_index k' = Some j" "j < i" by blast
    from 2 [OF j] obtain a b where "map fst o' = a @ b" "map fst (insert_index i k v o') = a @ k # b"
        "\<forall>x\<in>set a. \<exists>j<i. key_index x = Some j" "b = [] \<or> (\<forall>j. key_index (hd b) = Some j \<longrightarrow> i \<le> j)"
      by blast
    with j show ?thesis by (intro exI [of _ "k' # a"] exI [of _ b]) auto
  next
    case False
    then have "insert_index i k v ((k', v') # o') = (k, v) # (k', v') # o'" by (auto split: option.split)
    with False show ?thesis by (intro exI [of _ "[]"] exI [of _ "k' # map fst o'"]) (auto simp: not_less)
  qed
qed simp

lemma canonical_put: "canonical o' \<Longrightarrow> canonical (obj_put k v o')"
proof -
  assume c: "canonical o'"
  show ?thesis
  proof (cases "k \<in> set (map fst o')")
    case True
    then have "map fst (obj_put k v o') = map fst o'" by (induction o') (auto simp: obj_put_def)
    with c show ?thesis by (simp add: canonical_def)
  next
    case False
    show ?thesis
    proof (cases "key_index k")
      case None
      then have "\<forall>x. key_before x k" by (auto simp: key_before_def split: option.split)
      with None False c show ?thesis by (auto simp: obj_put_def canonical_def sorted_wrt_append)
    next
      case (Some i)
      obtain a b where ab: "map fst o' = a @ b" "map fst (insert_index i k v o') = a @ k # b"
          "\<forall>x\<in>set a. \<exists>j<i. key_index x = Some j" "b = [] \<or> (\<forall>j. key_index (hd b) = Some j \<longrightarrow> i \<le> j)"
        using keys_insert_index [of o' i k v] by blast
      have s: "sorted_wrt key_before (a @ b)" "k \<notin> set (a @ b)" using c False ab(1) by (auto simp: canonical_def)
      have "key_before x k" if "x \<in> set a" for x using that ab(3) Some by (auto simp: key_before_def)
      moreover have "key_before k y" if y: "y \<in> set b" for y
      proof (cases "key_index y")
        case (Some j)
        obtain h t where b: "b = h # t" using y by (cases b) auto
        have "y = h \<or> key_before h y" using s(1) y b by (auto simp: sorted_wrt_append)
        then obtain l where l: "key_index h = Some l" "l \<le> j" using Some by (auto simp: key_before_def split: option.splits)
        have "i \<le> l" using ab(4) b l by simp
        moreover have "i \<noteq> j" using key_index_inj [of k i y] Some \<open>key_index k = Some i\<close> s(2) y by auto
        ultimately show ?thesis using l Some \<open>key_index k = Some i\<close> by (simp add: key_before_def)
      qed (simp add: key_before_def split: option.split)
      ultimately have "sorted_wrt key_before (a @ k # b)" using s(1) by (auto simp: sorted_wrt_append)
      moreover have "distinct (a @ k # b)" using c False ab(1) by (auto simp: canonical_def)
      ultimately show ?thesis using ab(2) False Some by (simp add: obj_put_def canonical_def)
    qed
  qed
qed

lemma canonical_iff: "obj_of o' = o' \<longleftrightarrow> canonical o'"
proof -
  have "canonical (obj_assign o'' kvs)" if "canonical o''" for o'' kvs :: "(jstr \<times> 'a) list"
    using that by (induction kvs arbitrary: o'') (auto simp: canonical_put)
  from this [of "[]" o'] show ?thesis using obj_of_canonical by (auto simp: obj_of_assign canonical_def)
qed

lemma canonical_delete: "canonical o' \<Longrightarrow> canonical (obj_delete k o')"
proof -
  assume c: "canonical o'"
  have "map fst (obj_delete k o') = filter (\<lambda>x. x \<noteq> k) (map fst o')" by (simp add: obj_delete_def filter_map comp_def)
  with c show ?thesis by (simp add: canonical_def sorted_wrt_filter)
qed

lemma plain_put_obj: "json_plain (JObj o') \<Longrightarrow> code_units k \<Longrightarrow> json_plain v \<Longrightarrow> json_plain (JObj (obj_put k v o'))"
  using set_obj_put [of k v o'] by (auto simp: canonical_iff canonical_put)

lemma plain_delete_obj: "json_plain (JObj o') \<Longrightarrow> json_plain (JObj (obj_delete k o'))"
  using canonical_delete [of o' k] by (auto simp: canonical_iff) (auto simp: obj_delete_def)

lemma obj_get_delete: "obj_get k (obj_delete k' o') = (if k = k' then JUndef else obj_get k o')"
proof -
  have "map_of (obj_delete k' o') k = (if k = k' then None else map_of o' k)"
    by (induction o') (auto simp: obj_delete_def)
  then show ?thesis by (simp add: obj_get_def opt_or_def)
qed

lemma obj_get_put: "obj_get k (obj_put k' v o') = (if k = k' then v else obj_get k o')"
  by (simp add: obj_get_def map_of_obj_put opt_or_def)

section \<open>Lower case\<close>

text \<open>
  \<open>s.toLowerCase()\<close> for a comparison with a text of the letters in true and false and of digits:
  no character outside ASCII has one of these as its lower case.
\<close>

definition ascii_lower :: "jstr \<Rightarrow> jstr" where
  "ascii_lower s = map (\<lambda>c. if 65 \<le> c \<and> c \<le> 90 then c + 32 else c) s"

end
