(* ===== verification/Nav_Modules.thy ===== *)
theory Nav_Modules
  imports JS_Object
begin

text \<open>
  The header navigation: \<open>lib/nav-modules.ts\<close>, the settings page's reader and writer of the same
  option in \<open>features/system-settings/maintenance/config.ts\<close>, the links of \<open>hooks/use-top-nav-links.ts\<close>
  and the guards of the public routes.  An option is a dynamic value (\<open>jsval\<close>), since it comes from the
  server; \<open>localStorage\<close> is the text stored under \<open>status\<close>.
\<close>

section \<open>Data\<close>

record ModuleAccess =
  access_enabled :: bool
  requireAuth :: bool

datatype NavModule = Flag bool | Access ModuleAccess

text \<open>The seven modules and any other key of the option, in property order.\<close>

type_synonym HeaderNavModules = "(jstr \<times> NavModule) list"

definition PRICING :: jstr where "PRICING = lit ''pricing''"
definition RANKINGS :: jstr where "RANKINGS = lit ''rankings''"

definition openAccess :: ModuleAccess where
  "openAccess = \<lparr>access_enabled = True, requireAuth = False\<rparr>"

definition DEFAULT_HEADER_NAV_MODULES :: HeaderNavModules where
  "DEFAULT_HEADER_NAV_MODULES =
     [(lit ''home'', Flag True), (lit ''console'', Flag True), (PRICING, Access openAccess),
      (RANKINGS, Access openAccess), (lit ''playground'', Flag True), (lit ''docs'', Flag True), (lit ''about'', Flag True)]"

section \<open>Reading the option\<close>

definition flagText :: "jstr \<Rightarrow> bool \<Rightarrow> bool" where
  "flagText s fallback =
     (let normalized = ascii_lower (trim s) in
      if normalized = lit ''true'' \<or> normalized = lit ''1'' then True
      else if normalized = lit ''false'' \<or> normalized = lit ''0'' then False
      else fallback)"

fun parseHeaderNavBoolean :: "jsval \<Rightarrow> bool \<Rightarrow> bool" where
  "parseHeaderNavBoolean (JBool b) fallback = b"
| "parseHeaderNavBoolean (JNum n) fallback = (if n = Fin 1 then True else if n = Fin 0 then False else fallback)"
| "parseHeaderNavBoolean (JStr s) fallback = flagText s fallback"
| "parseHeaderNavBoolean _ fallback = fallback"

text \<open>\<open>typeof v\<close> is boolean, number or string.\<close>

fun is_scalar :: "jsval \<Rightarrow> bool" where
  "is_scalar (JBool _) = True"
| "is_scalar (JNum _) = True"
| "is_scalar (JStr _) = True"
| "is_scalar _ = False"

definition parseAccess :: "jsval \<Rightarrow> ModuleAccess \<Rightarrow> ModuleAccess" where
  "parseAccess raw fallback =
     (if is_scalar raw
      then \<lparr>access_enabled = parseHeaderNavBoolean raw (access_enabled fallback), requireAuth = requireAuth fallback\<rparr>
      else if truthy raw \<and> type_object raw
      then \<lparr>access_enabled = parseHeaderNavBoolean (prop_get (lit ''enabled'') raw) (access_enabled fallback),
            requireAuth = parseHeaderNavBoolean (prop_get (lit ''requireAuth'') raw) (requireAuth fallback)\<rparr>
      else fallback)"

text \<open>\<open>JNull\<close> is the null it returns.\<close>

definition parseHeaderNavRecord :: "jsval \<Rightarrow> jsval" where
  "parseHeaderNavRecord raw =
     (if \<not> truthy raw \<or> trim (to_string raw) = [] then JNull
      else if type_object raw then raw
      else opt_or (json_parse (to_string raw)) JNull)"

text \<open>\<open>result.pricing\<close> and \<open>result.rankings\<close>: always an access object (\<open>nav_typed\<close> below).\<close>

definition accessOf :: "jstr \<Rightarrow> HeaderNavModules \<Rightarrow> ModuleAccess" where
  "accessOf key m = (case map_of m key of Some (Access a) \<Rightarrow> a | _ \<Rightarrow> openAccess)"

definition flagOf :: "jstr \<Rightarrow> HeaderNavModules \<Rightarrow> bool option" where
  "flagOf key m = (case map_of m key of Some (Flag b) \<Rightarrow> Some b | _ \<Rightarrow> None)"

definition navStep :: "jstr \<times> jsval \<Rightarrow> HeaderNavModules \<Rightarrow> HeaderNavModules" where
  "navStep kv m =
     (let key = fst kv; v = snd kv in
      if key = PRICING \<or> key = RANKINGS then obj_put key (Access (parseAccess v (accessOf key m))) m
      else if flagOf key m \<noteq> None \<or> is_scalar v
      then obj_put key (Flag (parseHeaderNavBoolean v (opt_or (flagOf key m) True))) m
      else m)"

definition parseHeaderNavModules :: "jsval \<Rightarrow> HeaderNavModules" where
  "parseHeaderNavModules raw =
     (let parsed = parseHeaderNavRecord raw in
      if \<not> truthy parsed then DEFAULT_HEADER_NAV_MODULES
      else fold navStep (own_entries parsed) DEFAULT_HEADER_NAV_MODULES)"

definition parseHeaderNavModulesFromStatus :: "jsval \<Rightarrow> HeaderNavModules" where
  "parseHeaderNavModulesFromStatus status = parseHeaderNavModules (opt_prop (lit ''HeaderNavModules'') status)"

section \<open>The cached status and access to modules\<close>

definition getCachedStatus :: "jstr option \<Rightarrow> jsval" where
  "getCachedStatus storage =
     (case storage of None \<Rightarrow> JNull | Some raw \<Rightarrow> if raw = [] then JNull else opt_or (json_parse raw) JNull)"

text \<open>Writing may fail without notice, for instance when the quota is exceeded.\<close>

definition cacheStatus :: "bool \<Rightarrow> jsval \<Rightarrow> jstr option \<Rightarrow> jstr option" where
  "cacheStatus writable status storage =
     (if truthy status \<and> writable then Some (json_stringify 0 status) else storage)"

definition getModuleAccessFromStatus :: "jsval \<Rightarrow> jstr \<Rightarrow> ModuleAccess" where
  "getModuleAccessFromStatus status name = accessOf name (parseHeaderNavModulesFromStatus status)"

definition getModuleAccess :: "jstr option \<Rightarrow> jstr \<Rightarrow> ModuleAccess" where
  "getModuleAccess storage name = getModuleAccessFromStatus (getCachedStatus storage) name"

text \<open>The answer of the request for the status; \<open>None\<close> when it fails.\<close>

definition getFreshModuleAccess :: "jsval option \<Rightarrow> bool \<Rightarrow> jstr \<Rightarrow> jstr option \<Rightarrow> ModuleAccess \<times> jstr option" where
  "getFreshModuleAccess response writable name storage =
     (case response of
        None \<Rightarrow> (\<lparr>access_enabled = False, requireAuth = True\<rparr>, storage)
      | Some status \<Rightarrow> (getModuleAccessFromStatus status name, cacheStatus writable status storage))"

text \<open>\<open>beforeLoad\<close> of the routes pricing, pricing/modelId and rankings.\<close>

datatype GuardResult = Load | RedirectHome | RedirectSignIn jstr

definition moduleGuard :: "jstr \<Rightarrow> jsval option \<Rightarrow> bool \<Rightarrow> bool \<Rightarrow> jstr \<Rightarrow> jstr option \<Rightarrow> GuardResult \<times> jstr option" where
  "moduleGuard name response writable signedIn href storage =
     (let (access, storage') = getFreshModuleAccess response writable name storage in
      (if \<not> access_enabled access then RedirectHome
       else if requireAuth access \<and> \<not> signedIn then RedirectSignIn href
       else Load, storage'))"

section \<open>The links of the header\<close>

record TopNavLink =
  link_title :: jstr
  href :: jstr
  requiresAuth :: "bool option"

definition flagLink :: "(string \<Rightarrow> jstr) \<Rightarrow> HeaderNavModules \<Rightarrow> string \<Rightarrow> string \<Rightarrow> string \<Rightarrow> bool option \<Rightarrow> TopNavLink list" where
  "flagLink tr modules key title path auth =
     (if map_of modules (lit key) \<noteq> Some (Flag False)
      then [\<lparr>link_title = tr title, href = lit path, requiresAuth = auth\<rparr>] else [])"

definition accessLink :: "(string \<Rightarrow> jstr) \<Rightarrow> HeaderNavModules \<Rightarrow> bool \<Rightarrow> jstr \<Rightarrow> string \<Rightarrow> string \<Rightarrow> TopNavLink list" where
  "accessLink tr modules signedIn key title path =
     (case map_of modules key of
        Some (Access a) \<Rightarrow>
          if access_enabled a
          then [\<lparr>link_title = tr title, href = lit path, requiresAuth = Some (requireAuth a \<and> \<not> signedIn)\<rparr>] else []
      | _ \<Rightarrow> [])"

definition useTopNavLinks :: "(string \<Rightarrow> jstr) \<Rightarrow> jsval \<Rightarrow> bool \<Rightarrow> TopNavLink list" where
  "useTopNavLinks tr status signedIn =
     (let modules = parseHeaderNavModulesFromStatus status in
      flagLink tr modules ''home'' ''Home'' ''/'' None
      @ flagLink tr modules ''console'' ''Console'' ''/dashboard/models'' None
      @ accessLink tr modules signedIn PRICING ''Model Square'' ''/pricing''
      @ accessLink tr modules signedIn RANKINGS ''Rankings'' ''/rankings''
      @ flagLink tr modules ''playground'' ''Playground'' ''/playground'' (Some (\<not> signedIn))
      @ flagLink tr modules ''docs'' ''Docs'' ''/docs'' None
      @ flagLink tr modules ''about'' ''About'' ''/about'' None)"

section \<open>The settings page\<close>

fun toBoolean :: "jsval \<Rightarrow> bool \<Rightarrow> bool" where
  "toBoolean (JBool b) fallback = b"
| "toBoolean (JNum n) fallback = (n = Fin 1)"
| "toBoolean (JStr s) fallback = flagText s fallback"
| "toBoolean _ fallback = fallback"

definition parseAccessModule :: "jsval \<Rightarrow> ModuleAccess \<Rightarrow> ModuleAccess" where
  "parseAccessModule raw fallback =
     (if is_scalar raw
      then \<lparr>access_enabled = toBoolean raw (access_enabled fallback), requireAuth = requireAuth fallback\<rparr>
      else if truthy raw \<and> type_object raw
      then \<lparr>access_enabled = toBoolean (prop_get (lit ''enabled'') raw) (access_enabled fallback),
            requireAuth = toBoolean (prop_get (lit ''requireAuth'') raw) (requireAuth fallback)\<rparr>
      else fallback)"

definition HEADER_NAV_DEFAULT :: HeaderNavModules where
  "HEADER_NAV_DEFAULT =
     [(lit ''home'', Flag True), (lit ''console'', Flag True), (PRICING, Access openAccess),
      (RANKINGS, Access openAccess), (lit ''playground'', Flag True), (lit ''docs'', Flag True), (lit ''about'', Flag True)]"

fun nav_truthy :: "NavModule option \<Rightarrow> bool" where
  "nav_truthy None = False"
| "nav_truthy (Some (Flag b)) = b"
| "nav_truthy (Some (Access a)) = True"

definition settingsNavStep :: "jstr \<times> jsval \<Rightarrow> HeaderNavModules \<Rightarrow> HeaderNavModules" where
  "settingsNavStep kv m =
     (let key = fst kv; raw = snd kv in
      if key = PRICING \<or> key = RANKINGS then obj_put key (Access (parseAccessModule raw (accessOf key HEADER_NAV_DEFAULT))) m
      else if is_scalar raw then obj_put key (Flag (toBoolean raw (nav_truthy (map_of HEADER_NAV_DEFAULT key)))) m
      else m)"

text \<open>\<open>parseHeaderNavModules\<close> of the settings page.\<close>

definition settingsParseHeaderNavModules :: "jstr option \<Rightarrow> HeaderNavModules" where
  "settingsParseHeaderNavModules text =
     (case text of
        None \<Rightarrow> HEADER_NAV_DEFAULT
      | Some s \<Rightarrow>
          if s = [] then HEADER_NAV_DEFAULT
          else case json_parse s of
            None \<Rightarrow> HEADER_NAV_DEFAULT
          | Some parsed \<Rightarrow>
              (case object_entries parsed of
                 None \<Rightarrow> HEADER_NAV_DEFAULT
               | Some kvs \<Rightarrow> fold settingsNavStep kvs HEADER_NAV_DEFAULT))"

fun moduleJson :: "NavModule \<Rightarrow> jsval" where
  "moduleJson (Flag b) = JBool b"
| "moduleJson (Access a) = JObj [(lit ''enabled'', JBool (access_enabled a)), (lit ''requireAuth'', JBool (requireAuth a))]"

definition serializeHeaderNavModules :: "HeaderNavModules \<Rightarrow> jstr" where
  "serializeHeaderNavModules config = json_stringify 0 (JObj (map_vals moduleJson config))"

section \<open>Readers of flags\<close>

text \<open>
  The site and the settings page read the option with functions of their own.  What both
  promise is enough to read an access object that was written as one.
\<close>

locale access_reader =
  fixes flag :: "jsval \<Rightarrow> bool \<Rightarrow> bool"
    and access :: "jsval \<Rightarrow> ModuleAccess \<Rightarrow> ModuleAccess"
  assumes flag_bool: "flag (JBool b) fallback = b"
    and access_obj: "access (JObj o') d =
      \<lparr>access_enabled = flag (obj_get (lit ''enabled'') o') (access_enabled d),
       requireAuth = flag (obj_get (lit ''requireAuth'') o') (requireAuth d)\<rparr>"
begin

lemma reads_access: "access (moduleJson (Access a)) d = a"
  by (simp add: access_obj flag_bool obj_get_def lit_def)

lemma reads_flag: "flag (moduleJson (Flag b)) d = b"
  by (simp add: flag_bool)

end

interpretation site: access_reader parseHeaderNavBoolean parseAccess
  by unfold_locales (simp_all add: parseAccess_def)

interpretation settings: access_reader toBoolean parseAccessModule
  by unfold_locales (simp_all add: parseAccessModule_def)

section \<open>The kinds of the modules\<close>

text \<open>The seven modules are present, and exactly the two access modules are access objects.\<close>

definition nav_typed :: "HeaderNavModules \<Rightarrow> bool" where
  "nav_typed m =
     ((\<forall>k\<in>set (map fst DEFAULT_HEADER_NAV_MODULES). map_of m k \<noteq> None) \<and>
      (\<forall>k v. map_of m k = Some v \<longrightarrow> ((\<exists>a. v = Access a) \<longleftrightarrow> k = PRICING \<or> k = RANKINGS)))"

lemma PRICING_RANKINGS: "PRICING \<noteq> RANKINGS"
  by (simp add: PRICING_def RANKINGS_def lit_def)

lemma default_typed: "nav_typed DEFAULT_HEADER_NAV_MODULES"
  by (auto simp: nav_typed_def DEFAULT_HEADER_NAV_MODULES_def PRICING_def RANKINGS_def lit_def split: if_splits)

lemma nav_typed_put:
  assumes "nav_typed m" "(\<exists>a. v = Access a) \<longleftrightarrow> key = PRICING \<or> key = RANKINGS"
  shows "nav_typed (obj_put key v m)"
  using assms unfolding nav_typed_def map_of_obj_put by simp

lemma navStep_typed: "nav_typed m \<Longrightarrow> nav_typed (navStep kv m)"
  unfolding navStep_def Let_def by (auto intro!: nav_typed_put)

lemma parse_typed: "nav_typed (parseHeaderNavModules raw)"
proof -
  have "nav_typed (fold navStep kvs m)" if "nav_typed m" for kvs m
    using that by (induction kvs arbitrary: m) (simp_all add: navStep_typed)
  then show ?thesis by (simp add: parseHeaderNavModules_def Let_def default_typed)
qed

lemma typed_access: "nav_typed m \<Longrightarrow> key = PRICING \<or> key = RANKINGS \<Longrightarrow> map_of m key = Some (Access (accessOf key m))"
proof -
  assume m: "nav_typed m" "key = PRICING \<or> key = RANKINGS"
  then have "key \<in> set (map fst DEFAULT_HEADER_NAV_MODULES)" by (auto simp: DEFAULT_HEADER_NAV_MODULES_def)
  with m obtain v where v: "map_of m key = Some v" unfolding nav_typed_def by blast
  with m obtain a where "v = Access a" unfolding nav_typed_def by blast
  with v show ?thesis by (simp add: accessOf_def)
qed

section \<open>Reading what was written\<close>

text \<open>A loop whose step stores every written module, started from defaults that the written option covers.\<close>

definition module_at :: "jstr \<Rightarrow> NavModule \<Rightarrow> bool" where
  "module_at k v = ((\<exists>a. v = Access a) \<longleftrightarrow> k = PRICING \<or> k = RANKINGS)"

locale nav_reader =
  fixes step :: "jstr \<times> jsval \<Rightarrow> HeaderNavModules \<Rightarrow> HeaderNavModules"
  assumes step_written: "module_at k v \<Longrightarrow> step (k, moduleJson v) m = obj_put k v m"
begin

lemma fold_written: "\<forall>(k, v)\<in>set cfg. module_at k v \<Longrightarrow> fold step (map_vals moduleJson cfg) m = obj_assign m cfg"
  by (induction cfg arbitrary: m) (auto simp: step_written)

lemma reads_config:
  assumes "\<forall>(k, v)\<in>set cfg. module_at k v" "distinct (map fst cfg)" "set (map fst m) \<subseteq> set (map fst cfg)"
  shows "map_of (fold step (map_vals moduleJson cfg) m) = map_of cfg"
proof -
  have "dom (map_of m) \<subseteq> dom (map_of cfg)" using assms(3) by (simp add: dom_map_of_conv_image_fst)
  then have "map_of m ++ map_of cfg = map_of cfg" by (auto simp: map_add_def fun_eq_iff split: option.splits)
  then show ?thesis using fold_written [OF assms(1)] map_of_assign [OF assms(2)] by simp
qed

end

interpretation site_reader: nav_reader navStep
proof
  fix k v m
  assume "module_at k v"
  then show "navStep (k, moduleJson v) m = obj_put k v m"
    by (cases v) (auto simp: module_at_def navStep_def Let_def site.reads_access simp del: moduleJson.simps(2))
qed

interpretation settings_reader: nav_reader settingsNavStep
proof
  fix k v m
  assume "module_at k v"
  then show "settingsNavStep (k, moduleJson v) m = obj_put k v m"
    by (cases v) (auto simp: module_at_def settingsNavStep_def Let_def settings.reads_access simp del: moduleJson.simps(2))
qed

text \<open>An option the settings page can hold: the seven modules and further flags, as an object.\<close>

definition nav_option :: "HeaderNavModules \<Rightarrow> bool" where
  "nav_option cfg =
     (obj_of cfg = cfg \<and> (\<forall>(k, v)\<in>set cfg. code_units k \<and> module_at k v) \<and>
      set (map fst DEFAULT_HEADER_NAV_MODULES) \<subseteq> set (map fst cfg))"

lemma option_plain:
  assumes "nav_option cfg"
  shows "json_plain (JObj (map_vals moduleJson cfg))"
proof -
  have "json_plain (moduleJson v)" for v
    by (cases v) (simp_all add: obj_of_def obj_put_def key_index_def code_units_def lit_def is_digit_def)
  then show ?thesis using assms by (intro object_plain) (auto simp: nav_option_def)
qed

lemma option_parses: "nav_option cfg \<Longrightarrow> json_parse (serializeHeaderNavModules cfg) = Some (JObj (map_vals moduleJson cfg))"
  unfolding serializeHeaderNavModules_def by (intro json_roundtrip option_plain)

lemma option_text: "nav_option cfg \<Longrightarrow> trim (serializeHeaderNavModules cfg) \<noteq> [] \<and> serializeHeaderNavModules cfg \<noteq> []"
  using json_parse_not_blank [OF option_parses, of cfg] trim_no_ws [of "[]"] by auto

lemma nav_option_facts:
  assumes "nav_option cfg"
  shows "\<forall>(k, v)\<in>set cfg. module_at k v" "distinct (map fst cfg)" "set (map fst DEFAULT_HEADER_NAV_MODULES) \<subseteq> set (map fst cfg)"
proof -
  show "distinct (map fst cfg)" using assms distinct_obj_of [of cfg] by (simp add: nav_option_def)
qed (use assms in \<open>auto simp: nav_option_def\<close>)

lemma site_reads:
  assumes "nav_option cfg"
  shows "map_of (parseHeaderNavModules (JStr (serializeHeaderNavModules cfg))) = map_of cfg"
proof -
  have "parseHeaderNavRecord (JStr (serializeHeaderNavModules cfg)) = JObj (map_vals moduleJson cfg)"
    using option_text [OF assms] option_parses [OF assms] by (simp add: parseHeaderNavRecord_def)
  then show ?thesis
    using site_reader.reads_config [OF nav_option_facts [OF assms]] by (simp add: parseHeaderNavModules_def)
qed

lemma settings_reads:
  assumes "nav_option cfg"
  shows "map_of (settingsParseHeaderNavModules (Some (serializeHeaderNavModules cfg))) = map_of cfg"
proof -
  have "HEADER_NAV_DEFAULT = DEFAULT_HEADER_NAV_MODULES" by (simp add: HEADER_NAV_DEFAULT_def DEFAULT_HEADER_NAV_MODULES_def)
  then show ?thesis
    using settings_reader.reads_config [OF nav_option_facts [OF assms]] option_text [OF assms] option_parses [OF assms]
    by (simp add: settingsParseHeaderNavModules_def object_entries_def nullish_def)
qed

section \<open>Links and guards\<close>

lemma flagLink_href: "l \<in> set (flagLink tr ms key title path auth) \<Longrightarrow> href l = lit path"
  by (auto simp: flagLink_def split: if_splits)

lemma accessLink_iff:
  assumes "nav_typed ms" "key = PRICING \<or> key = RANKINGS"
  shows "set (accessLink tr ms signedIn key title path) =
    (if access_enabled (accessOf key ms)
     then {\<lparr>link_title = tr title, href = lit path, requiresAuth = Some (requireAuth (accessOf key ms) \<and> \<not> signedIn)\<rparr>} else {})"
  using typed_access [OF assms] by (simp add: accessLink_def)

definition guardedRoutes :: "(jstr \<times> jstr) set" where
  "guardedRoutes = {(PRICING, lit ''/pricing''), (RANKINGS, lit ''/rankings'')}"

lemma guarded_links:
  assumes "(name, path) \<in> guardedRoutes"
  shows "(\<exists>l\<in>set (useTopNavLinks tr status signedIn). href l = path \<and> requiresAuth l = auth) \<longleftrightarrow>
    access_enabled (getModuleAccessFromStatus status name) \<and>
    auth = Some (requireAuth (getModuleAccessFromStatus status name) \<and> \<not> signedIn)"
proof -
  let ?ms = "parseHeaderNavModulesFromStatus status"
  have t: "nav_typed ?ms" by (simp add: parseHeaderNavModulesFromStatus_def parse_typed)
  note [simp] = accessLink_iff [OF t]
  have ne: "lit p \<noteq> path" if "p \<in> {''/'', ''/dashboard/models'', ''/playground'', ''/docs'', ''/about''}" for p
    using assms that by (auto simp: guardedRoutes_def lit_def)
  have other: "href l \<noteq> path" if "l \<in> set (flagLink tr ?ms key title p auth')"
      "p \<in> {''/'', ''/dashboard/models'', ''/playground'', ''/docs'', ''/about''}" for l key title p auth'
    using flagLink_href [OF that(1)] ne [OF that(2)] by simp
  have "l \<in> set (useTopNavLinks tr status signedIn) \<and> href l = path \<longleftrightarrow>
      l \<in> set (accessLink tr ?ms signedIn PRICING ''Model Square'' ''/pricing'') \<union>
        set (accessLink tr ?ms signedIn RANKINGS ''Rankings'' ''/rankings'') \<and> href l = path" for l
    using other unfolding useTopNavLinks_def Let_def by fastforce
  then have "(\<exists>l\<in>set (useTopNavLinks tr status signedIn). href l = path \<and> requiresAuth l = auth) \<longleftrightarrow>
      (\<exists>l\<in>set (accessLink tr ?ms signedIn PRICING ''Model Square'' ''/pricing'') \<union>
        set (accessLink tr ?ms signedIn RANKINGS ''Rankings'' ''/rankings''). href l = path \<and> requiresAuth l = auth)"
    by blast
  also have "\<dots> \<longleftrightarrow> access_enabled (accessOf name ?ms) \<and> auth = Some (requireAuth (accessOf name ?ms) \<and> \<not> signedIn)"
    using assms by (auto simp: guardedRoutes_def lit_def split: if_splits)
  finally show ?thesis by (simp add: getModuleAccessFromStatus_def)
qed

lemma moduleGuard_cases:
  "fst (moduleGuard name (Some status) w signedIn hr st) =
     (let access = getModuleAccessFromStatus status name in
      if \<not> access_enabled access then RedirectHome
      else if requireAuth access \<and> \<not> signedIn then RedirectSignIn hr else Load)"
  by (simp add: moduleGuard_def getFreshModuleAccess_def Let_def)

section \<open>Properties\<close>

text \<open>
  C23.  The header option means what the settings page shows: an option with the seven modules and any further flags,
  saved by the settings page, is read back unchanged both by the settings page and by the site.
\<close>

theorem header_option_roundtrip:
  assumes "nav_option cfg"
  shows "map_of (settingsParseHeaderNavModules (Some (serializeHeaderNavModules cfg))) = map_of cfg \<and>
    map_of (parseHeaderNavModules (JStr (serializeHeaderNavModules cfg))) = map_of cfg"
  using settings_reads [OF assms] site_reads [OF assms] by (rule conjI)

theorem header_option_roundtrip_witness:
  "map_of (parseHeaderNavModules (JStr (serializeHeaderNavModules
      [(lit ''home'', Flag False), (lit ''console'', Flag True), (PRICING, Access \<lparr>access_enabled = True, requireAuth = True\<rparr>),
       (RANKINGS, Access openAccess), (lit ''playground'', Flag True), (lit ''docs'', Flag False), (lit ''about'', Flag True),
       (lit ''blog'', Flag False)]))) PRICING
   = Some (Access \<lparr>access_enabled = True, requireAuth = True\<rparr>)"
proof -
  let ?cfg = "[(lit ''home'', Flag False), (lit ''console'', Flag True), (PRICING, Access \<lparr>access_enabled = True, requireAuth = True\<rparr>),
       (RANKINGS, Access openAccess), (lit ''playground'', Flag True), (lit ''docs'', Flag False), (lit ''about'', Flag True),
       (lit ''blog'', Flag False)]"
  have "nav_option ?cfg"
    by (simp add: nav_option_def module_at_def obj_of_def obj_put_def key_index_def code_units_def is_digit_def
        DEFAULT_HEADER_NAV_MODULES_def PRICING_def RANKINGS_def lit_def)
  from header_option_roundtrip [OF this] show ?thesis by (simp add: PRICING_def RANKINGS_def lit_def)
qed

text \<open>
  C24.  Links and guards agree: for the pricing and rankings pages and any status the server answers, the page is loaded
  exactly when the header shows its link as open to the visitor, the visitor is sent to sign in exactly when
  the link is marked as requiring it, and sent home exactly when there is no link; when the status
  cannot be fetched, the page is not loaded and the cached status stays.
\<close>

theorem guard_matches_links:
  assumes "(name, path) \<in> guardedRoutes"
  shows "(fst (moduleGuard name (Some status) w signedIn hr st) = Load \<longleftrightarrow>
      (\<exists>l\<in>set (useTopNavLinks tr status signedIn). href l = path \<and> requiresAuth l = Some False)) \<and>
    (fst (moduleGuard name (Some status) w signedIn hr st) = RedirectSignIn hr \<longleftrightarrow>
      (\<exists>l\<in>set (useTopNavLinks tr status signedIn). href l = path \<and> requiresAuth l = Some True)) \<and>
    (fst (moduleGuard name (Some status) w signedIn hr st) = RedirectHome \<longleftrightarrow>
      \<not> (\<exists>l\<in>set (useTopNavLinks tr status signedIn). href l = path)) \<and>
    moduleGuard name None w signedIn hr st = (RedirectHome, st)"
proof -
  let ?L = "set (useTopNavLinks tr status signedIn)"
  have any: "(\<exists>l\<in>?L. href l = path) \<longleftrightarrow> access_enabled (getModuleAccessFromStatus status name)"
    using guarded_links [OF assms, of tr status signedIn] by metis
  show ?thesis
    unfolding any guarded_links [OF assms] moduleGuard_cases Let_def
    by (simp add: moduleGuard_def getFreshModuleAccess_def)
qed

theorem guard_matches_links_witness:
  "fst (moduleGuard PRICING (Some (JObj [(lit ''HeaderNavModules'', JStr (lit ''{\"pricing\":{\"requireAuth\":true}}''))])) True False
      (lit ''/pricing'') None) = RedirectSignIn (lit ''/pricing'')"
proof -
  let ?st = "JObj [(lit ''HeaderNavModules'', JStr (lit ''{\"pricing\":{\"requireAuth\":true}}''))]"
  have m: "(PRICING, lit ''/pricing'') \<in> guardedRoutes" by (simp add: guardedRoutes_def)
  have "\<exists>l\<in>set (useTopNavLinks lit ?st False). href l = lit ''/pricing'' \<and> requiresAuth l = Some True" by code_simp
  with guard_matches_links [OF m, of ?st True False "lit ''/pricing''" None lit] show ?thesis by blast
qed

text \<open>
  The two readers of the header option differ on numbers: the settings page takes every number but 1 as off, the site
  keeps its default, so an option \<open>{"pricing":2}\<close> is shown as off and in effect on.
\<close>

lemma readers_differ:
  "accessOf PRICING (settingsParseHeaderNavModules (Some (lit ''{\"pricing\":2}''))) = \<lparr>access_enabled = False, requireAuth = False\<rparr>"
  "accessOf PRICING (parseHeaderNavModules (JStr (lit ''{\"pricing\":2}''))) = openAccess"
  by code_simp+

end
