(* ===== verification/Sidebar_Config.thy ===== *)
theory Sidebar_Config
  imports Nav_Modules
begin

text \<open>
  The sidebar: \<open>hooks/use-sidebar-config.ts\<close>, the route guard \<open>isSidebarModuleEnabled\<close> of \<open>lib/nav-modules.ts\<close>
  and the settings page's reader and writer of \<open>SidebarModulesAdmin\<close> in
  \<open>features/system-settings/maintenance/config.ts\<close>.  The administrator's and the user's options are JSON texts;
  the sections found in them are dynamic values.
\<close>

section \<open>The default modules\<close>

type_synonym SidebarSection = "(jstr \<times> bool) list"
type_synonym SidebarModules = "(jstr \<times> SidebarSection) list"

definition ENABLED :: jstr where "ENABLED = lit ''enabled''"

definition all_on :: "string list \<Rightarrow> SidebarSection" where
  "all_on ms = map (\<lambda>m. (lit m, True)) ms"

definition DEFAULT_SIDEBAR_MODULES :: SidebarModules where
  "DEFAULT_SIDEBAR_MODULES =
     [(lit ''chat'', all_on [''enabled'', ''playground'', ''chat'']),
      (lit ''console'', all_on [''enabled'', ''detail'', ''token'', ''log'', ''midjourney'', ''task'']),
      (lit ''personal'', all_on [''enabled'', ''topup'', ''personal'']),
      (lit ''admin'', all_on [''enabled'', ''channel'', ''models'', ''redemption'', ''user'', ''setting'', ''subscription''])]"

fun sectionJson :: "SidebarSection \<Rightarrow> jsval" where
  "sectionJson s = JObj (map_vals JBool s)"

declare sectionJson.simps [simp del]

section \<open>The administrator's option\<close>

definition mergeSection :: "SidebarSection \<Rightarrow> jsval \<Rightarrow> jsval" where
  "mergeSection defaultSection existing =
     JObj (fold (\<lambda>(moduleKey, d) s. if obj_get moduleKey s = JUndef then obj_put moduleKey (JBool d) s else s) defaultSection
       (obj_assign (map_vals JBool defaultSection) (own_entries existing)))"

definition mergeSidebarStep :: "jstr \<times> SidebarSection \<Rightarrow> (jstr \<times> jsval) list \<Rightarrow> (jstr \<times> jsval) list" where
  "mergeSidebarStep kv merged =
     (let sectionKey = fst kv; defaultSection = snd kv; existingSection = obj_get sectionKey merged in
      if \<not> truthy existingSection then obj_put sectionKey (sectionJson defaultSection) merged
      else obj_put sectionKey (mergeSection defaultSection existingSection) merged)"

definition mergeWithDefaultSidebarModules :: "jsval \<Rightarrow> (jstr \<times> jsval) list" where
  "mergeWithDefaultSidebarModules config = fold mergeSidebarStep DEFAULT_SIDEBAR_MODULES (obj_of (own_entries config))"

definition parseSidebarConfig :: "jstr option \<Rightarrow> (jstr \<times> jsval) list" where
  "parseSidebarConfig text =
     (case text of
        None \<Rightarrow> map_vals sectionJson DEFAULT_SIDEBAR_MODULES
      | Some s \<Rightarrow>
          if trim s = [] then map_vals sectionJson DEFAULT_SIDEBAR_MODULES
          else case json_parse s of
            None \<Rightarrow> map_vals sectionJson DEFAULT_SIDEBAR_MODULES
          | Some parsed \<Rightarrow> mergeWithDefaultSidebarModules parsed)"

text \<open>The user's option; \<open>JNull\<close> does not narrow anything.\<close>

definition parseUserSidebarConfig :: "jstr option \<Rightarrow> jsval" where
  "parseUserSidebarConfig text =
     (case text of
        None \<Rightarrow> JNull
      | Some s \<Rightarrow>
          if trim s = [] then JNull
          else case json_parse s of
            None \<Rightarrow> JNull
          | Some parsed \<Rightarrow> if \<not> truthy parsed \<or> \<not> type_object parsed then JNull else parsed)"

section \<open>Which modules are shown\<close>

definition URL_TO_CONFIG_MAP :: "(jstr \<times> jstr \<times> jstr) list" where
  "URL_TO_CONFIG_MAP = map (\<lambda>(url, s, m). (lit url, lit s, lit m))
     [(''/playground'', ''chat'', ''playground''), (''/dashboard'', ''console'', ''detail''),
      (''/dashboard/overview'', ''console'', ''detail''), (''/dashboard/models'', ''console'', ''detail''),
      (''/dashboard/users'', ''console'', ''detail''), (''/keys'', ''console'', ''token''),
      (''/usage-logs'', ''console'', ''log''), (''/usage-logs/common'', ''console'', ''log''),
      (''/usage-logs/drawing'', ''console'', ''midjourney''), (''/usage-logs/task'', ''console'', ''task''),
      (''/wallet'', ''personal'', ''topup''), (''/billing'', ''personal'', ''topup''),
      (''/profile'', ''personal'', ''personal''), (''/channels'', ''admin'', ''channel''),
      (''/models'', ''admin'', ''models''), (''/models/metadata'', ''admin'', ''models''),
      (''/models/deployments'', ''admin'', ''models''), (''/users'', ''admin'', ''user''),
      (''/redemption-codes'', ''admin'', ''redemption''), (''/subscriptions'', ''admin'', ''subscription''),
      (''/system-settings'', ''admin'', ''setting''), (''/system-settings/site'', ''admin'', ''setting'')]"

definition adminAllows :: "(jstr \<times> jsval) list \<Rightarrow> jstr \<Rightarrow> jstr \<Rightarrow> bool" where
  "adminAllows adminConfig sec m =
     (let adminSection = obj_get sec adminConfig in
      truthy adminSection \<and> truthy (prop_get ENABLED adminSection) \<and> prop_get m adminSection = JBool True)"

definition userKeeps :: "jsval \<Rightarrow> jstr \<Rightarrow> jstr \<Rightarrow> bool" where
  "userKeeps userConfig sec m =
     (if \<not> truthy userConfig then True
      else let userSection = prop_get sec userConfig in
        if \<not> truthy userSection then True
        else if prop_get ENABLED userSection = JBool False then False
        else prop_get m userSection \<noteq> JBool False)"

definition isModuleEnabled :: "jstr \<Rightarrow> (jstr \<times> jsval) list \<Rightarrow> jsval \<Rightarrow> bool" where
  "isModuleEnabled url adminConfig userConfig =
     (case map_of URL_TO_CONFIG_MAP url of
        None \<Rightarrow> True
      | Some (sec, m) \<Rightarrow> if \<not> adminAllows adminConfig sec m then False else userKeeps userConfig sec m)"

record BaseNavItem =
  nav_title :: jstr
  configUrls :: "jstr list option"

record NavSubItem = BaseNavItem +
  sub_url :: jstr

datatype NavItem =
  NavLink BaseNavItem jstr
| NavCollapsible BaseNavItem "NavSubItem list"
| NavChatPresets BaseNavItem

fun isNavItemVisible :: "NavItem \<Rightarrow> (jstr \<times> jsval) list \<Rightarrow> jsval \<Rightarrow> bool" where
  "isNavItemVisible (NavChatPresets b) adminConfig userConfig =
     (if \<not> adminAllows adminConfig (lit ''chat'') (lit ''chat'') then False
      else userKeeps userConfig (lit ''chat'') (lit ''chat''))"
| "isNavItemVisible (NavLink b url) adminConfig userConfig =
     (if url \<noteq> [] then list_ex (\<lambda>u. isModuleEnabled u adminConfig userConfig) (opt_or (configUrls b) [url]) else True)"
| "isNavItemVisible (NavCollapsible b items) adminConfig userConfig =
     list_ex (\<lambda>s. isModuleEnabled (sub_url s) adminConfig userConfig) items"

definition filterNavItems :: "NavItem list \<Rightarrow> (jstr \<times> jsval) list \<Rightarrow> jsval \<Rightarrow> NavItem list" where
  "filterNavItems items adminConfig userConfig =
     filter (\<lambda>item. isNavItemVisible item adminConfig userConfig)
       (map (\<lambda>item. case item of
               NavCollapsible b subs \<Rightarrow> NavCollapsible b (filter (\<lambda>s. isModuleEnabled (sub_url s) adminConfig userConfig) subs)
             | _ \<Rightarrow> item) items)"

record NavGroup =
  group_title :: jstr
  group_items :: "NavItem list"

text \<open>
  The inputs of the hook: the administrator's text, the permission \<open>sidebar_settings\<close> of the user and
  the user's text, each absent when the object that holds it is.
\<close>

definition userOverlay :: "bool option \<Rightarrow> jstr option \<Rightarrow> jsval" where
  "userOverlay sidebar_settings userText =
     (if sidebar_settings = Some False then JNull else parseUserSidebarConfig userText)"

definition useSidebarConfig :: "NavGroup list \<Rightarrow> jstr option \<Rightarrow> bool option \<Rightarrow> jstr option \<Rightarrow> NavGroup list" where
  "useSidebarConfig navGroups adminText sidebar_settings userText =
     (let adminConfig = parseSidebarConfig adminText; userConfig = userOverlay sidebar_settings userText in
      filter (\<lambda>g. length (group_items g) > 0)
        (map (\<lambda>g. g\<lparr>group_items := filterNavItems (group_items g) adminConfig userConfig\<rparr>) navGroups))"

definition useIsSidebarModuleVisible :: "jstr \<Rightarrow> jstr option \<Rightarrow> bool option \<Rightarrow> jstr option \<Rightarrow> bool" where
  "useIsSidebarModuleVisible url adminText sidebar_settings userText =
     isModuleEnabled url (parseSidebarConfig adminText) (userOverlay sidebar_settings userText)"

section \<open>The guard of a route\<close>

definition isSidebarModuleEnabled :: "jstr option \<Rightarrow> jstr \<Rightarrow> jstr \<Rightarrow> bool" where
  "isSidebarModuleEnabled storage sec m =
     (let status = getCachedStatus storage in
      if \<not> truthy status then True
      else let raw = prop_get (lit ''SidebarModulesAdmin'') status in
        if \<not> truthy raw \<or> trim (to_string raw) = [] then True
        else case json_parse (to_string raw) of
          None \<Rightarrow> True
        | Some parsed \<Rightarrow>
            (case get_prop sec parsed of
               None \<Rightarrow> True
             | Some sectionConfig \<Rightarrow>
                 if \<not> truthy sectionConfig then True
                 else if prop_get ENABLED sectionConfig = JBool False then False
                 else if prop_get m sectionConfig = JBool False then False
                 else True))"

section \<open>The settings page\<close>

definition SIDEBAR_MODULES_DEFAULT :: SidebarModules where
  "SIDEBAR_MODULES_DEFAULT =
     [(lit ''chat'', all_on [''enabled'', ''playground'', ''chat'']),
      (lit ''console'', all_on [''enabled'', ''detail'', ''token'', ''log'', ''midjourney'', ''task'']),
      (lit ''personal'', all_on [''enabled'', ''topup'', ''personal'']),
      (lit ''admin'', all_on [''enabled'', ''channel'', ''models'', ''redemption'', ''user'', ''setting'', ''subscription''])]"

definition readSection :: "SidebarSection \<Rightarrow> jsval \<Rightarrow> SidebarSection" where
  "readSection defaultSection raw =
     fold (\<lambda>(moduleKey, v) s. if moduleKey = ENABLED then s
             else obj_put moduleKey (toBoolean v (opt_or (map_of defaultSection moduleKey) True)) s)
       (own_entries raw)
       [(ENABLED, toBoolean (prop_get ENABLED raw) (opt_or (map_of defaultSection ENABLED) True))]"

definition readSectionStep :: "jstr \<times> jsval \<Rightarrow> SidebarModules \<Rightarrow> SidebarModules" where
  "readSectionStep kv result =
     (if \<not> truthy (snd kv) \<or> \<not> type_object (snd kv) then result
      else obj_put (fst kv)
        (readSection (opt_or (map_of SIDEBAR_MODULES_DEFAULT (fst kv)) [(ENABLED, True)]) (snd kv)) result)"

definition fillSectionStep :: "jstr \<times> SidebarSection \<Rightarrow> SidebarModules \<Rightarrow> SidebarModules" where
  "fillSectionStep kv result =
     (case map_of result (fst kv) of
        None \<Rightarrow> obj_put (fst kv) (snd kv) result
      | Some sec \<Rightarrow>
          obj_put (fst kv) (fold (\<lambda>(moduleKey, v) s. if map_of s moduleKey = None then obj_put moduleKey v s else s) (snd kv) sec) result)"

definition parseSidebarModulesAdmin :: "jstr option \<Rightarrow> SidebarModules" where
  "parseSidebarModulesAdmin text =
     (case text of
        None \<Rightarrow> SIDEBAR_MODULES_DEFAULT
      | Some s \<Rightarrow>
          if trim s = [] then SIDEBAR_MODULES_DEFAULT
          else case json_parse s of
            None \<Rightarrow> SIDEBAR_MODULES_DEFAULT
          | Some parsed \<Rightarrow>
              (case object_entries parsed of
                 None \<Rightarrow> SIDEBAR_MODULES_DEFAULT
               | Some kvs \<Rightarrow> fold fillSectionStep SIDEBAR_MODULES_DEFAULT (fold readSectionStep kvs [])))"

definition serializeSidebarModulesAdmin :: "SidebarModules \<Rightarrow> jstr" where
  "serializeSidebarModulesAdmin config = json_stringify 0 (JObj (map_vals sectionJson config))"

end
