(* ===== verification/Sidebar_Laws.thy ===== *)
theory Sidebar_Laws
  imports Sidebar_Config
begin

text \<open>
  What the sidebar shows: exactly the entries both layers allow, and never more because of the user's layer;
  the settings page, the sidebar and the route guard agree on every option the settings page saves.
\<close>

section \<open>Lookups in merged options\<close>

lemma filter_key: "distinct (map fst xs) \<Longrightarrow> (k, d) \<in> set xs \<Longrightarrow> filter (\<lambda>x. fst x = k) xs = [(k, d)]"
proof (induction xs)
  case (Cons x xs)
  show ?case
  proof (cases "fst x = k")
    case True
    with Cons.prems have "x = (k, d)" by (auto simp: image_iff)
    moreover have "filter (\<lambda>x. fst x = k) xs = []" using Cons.prems True by (auto simp: filter_empty_conv image_iff)
    ultimately show ?thesis by simp
  qed (use Cons in auto)
qed simp

lemma filter_key_none: "k \<notin> fst ` set xs \<Longrightarrow> filter (\<lambda>x. fst x = k) xs = []"
  by (auto simp: filter_empty_conv)

lemma default_distinct: "distinct (map fst DEFAULT_SIDEBAR_MODULES)"
  by (simp add: DEFAULT_SIDEBAR_MODULES_def lit_def)

lemma default_same: "SIDEBAR_MODULES_DEFAULT = DEFAULT_SIDEBAR_MODULES"
  by (simp add: SIDEBAR_MODULES_DEFAULT_def DEFAULT_SIDEBAR_MODULES_def)

lemma default_sections:
  assumes "(sec, d) \<in> set DEFAULT_SIDEBAR_MODULES"
  shows "distinct (map fst d) \<and> map_of d ENABLED = Some True"
proof -
  have "\<forall>x\<in>set DEFAULT_SIDEBAR_MODULES. distinct (map fst (snd x)) \<and> map_of (snd x) ENABLED = Some True"
    by (simp add: DEFAULT_SIDEBAR_MODULES_def all_on_def ENABLED_def lit_def)
  with assms show ?thesis by force
qed

lemma default_on: "(sec, d) \<in> set DEFAULT_SIDEBAR_MODULES \<Longrightarrow> map_of d k = Some b \<Longrightarrow> b"
proof -
  assume a: "(sec, d) \<in> set DEFAULT_SIDEBAR_MODULES" "map_of d k = Some b"
  have "\<forall>x\<in>set DEFAULT_SIDEBAR_MODULES. \<forall>y\<in>set (snd x). snd y" by (simp add: DEFAULT_SIDEBAR_MODULES_def all_on_def)
  with a map_of_SomeD [OF a(2)] show b by force
qed

text \<open>The modules of the sidebar's addresses are in the defaults.\<close>

lemma url_known:
  assumes "map_of URL_TO_CONFIG_MAP url = Some (sec, m)"
  shows "\<exists>d. (sec, d) \<in> set DEFAULT_SIDEBAR_MODULES \<and> map_of d m = Some True"
proof -
  have "\<forall>x\<in>set URL_TO_CONFIG_MAP. map_of (opt_or (map_of DEFAULT_SIDEBAR_MODULES (fst (snd x))) []) (snd (snd x)) = Some True"
    by (simp add: URL_TO_CONFIG_MAP_def DEFAULT_SIDEBAR_MODULES_def all_on_def lit_def)
  with map_of_SomeD [OF assms] have k: "map_of (opt_or (map_of DEFAULT_SIDEBAR_MODULES sec) []) m = Some True" by force
  then obtain d where "map_of DEFAULT_SIDEBAR_MODULES sec = Some d" by (cases "map_of DEFAULT_SIDEBAR_MODULES sec") auto
  with k show ?thesis using map_of_SomeD by force
qed

lemma fill_keeps:
  "map_of s k = Some v \<Longrightarrow> v \<noteq> JUndef \<Longrightarrow>
   map_of (fold (\<lambda>(mk, b) s. if obj_get mk s = JUndef then obj_put mk (JBool b) s else s) d s) k = Some v"
proof (induction d arbitrary: s)
  case (Cons x d)
  obtain mk b where x: "x = (mk, b)" by (cases x)
  have "map_of (if obj_get mk s = JUndef then obj_put mk (JBool b) s else s) k = Some v"
    using Cons.prems by (auto simp: map_of_obj_put obj_get_def)
  from Cons.IH [OF this Cons.prems(2)] x show ?case by simp
qed simp

lemma mergeSection_get:
  assumes "distinct (map fst o')" "map_of (map_vals JBool d) k = Some w \<or> map_of o' k \<noteq> None" "\<forall>v. map_of o' k = Some v \<longrightarrow> v \<noteq> JUndef"
  shows "prop_get k (mergeSection d (JObj o')) = opt_or (map_of o' k) w"
proof -
  let ?s = "obj_assign (map_vals JBool d) o'"
  have s: "map_of ?s k = Some (opt_or (map_of o' k) w)"
    using assms(2) map_of_assign [OF assms(1), of "map_vals JBool d"] by (auto simp: map_add_def split: option.splits)
  have "opt_or (map_of o' k) w \<noteq> JUndef"
    using assms(2,3) by (cases "map_of o' k") (auto simp: map_of_map_vals)
  from fill_keeps [OF s this] show ?thesis by (simp add: mergeSection_def obj_get_def)
qed

lemma truthy_mergeSection: "truthy (mergeSection d e)"
  by (simp add: mergeSection_def)

lemma mergeStep_put:
  "mergeSidebarStep = (\<lambda>x m. obj_put (fst x)
     (let e = opt_or (map_of m (fst x)) JUndef in if truthy e then mergeSection (snd x) e else sectionJson (snd x)) m)"
  by (simp add: fun_eq_iff mergeSidebarStep_def obj_get_def Let_def)

lemma merged_get:
  assumes "(sec, d) \<in> set DEFAULT_SIDEBAR_MODULES"
  shows "obj_get sec (mergeWithDefaultSidebarModules config) =
    (let e = obj_get sec (obj_of (own_entries config)) in if truthy e then mergeSection d e else sectionJson d)"
proof -
  have "map_of (mergeWithDefaultSidebarModules config) sec =
      Some (let e = obj_get sec (obj_of (own_entries config)) in if truthy e then mergeSection d e else sectionJson d)"
    unfolding mergeWithDefaultSidebarModules_def mergeStep_put
    using js_obj.get_fold_put [OF distinct_obj_of [of "own_entries config"], where key = fst
        and f = "\<lambda>x old. let e = opt_or old JUndef in if truthy e then mergeSection (snd x) e else sectionJson (snd x)"
        and xs = DEFAULT_SIDEBAR_MODULES and k = sec]
    by (simp add: filter_key [OF default_distinct assms] obj_get_def Let_def)
  then show ?thesis by (simp add: obj_get_def)
qed

lemma default_get:
  assumes "(sec, d) \<in> set DEFAULT_SIDEBAR_MODULES"
  shows "obj_get sec (map_vals sectionJson DEFAULT_SIDEBAR_MODULES) = sectionJson d"
  using assms default_distinct by (simp add: obj_get_def map_of_map_vals)

lemma section_get: "prop_get k (sectionJson d) = opt_or (map_option JBool (map_of d k)) JUndef"
  by (simp add: sectionJson.simps obj_get_def map_of_map_vals)

section \<open>The guard and the sidebar\<close>

lemma truthy_prop: "prop_get k v \<noteq> JUndef \<Longrightarrow> \<exists>o'. v = JObj o'"
  by (cases v) auto

lemma merged_off:
  assumes "(sec, d) \<in> set DEFAULT_SIDEBAR_MODULES" "unique_keys (JObj p)" "obj_get sec p = JObj o'" "obj_get k o' = JBool False"
  shows "prop_get k (obj_get sec (mergeWithDefaultSidebarModules (JObj p))) = JBool False"
proof -
  have "map_of p sec = Some (JObj o')" using assms(3) by (cases "map_of p sec") (auto simp: obj_get_def)
  then have u: "distinct (map fst o')" using unique_member [OF assms(2)] by fastforce
  have "obj_get sec (obj_of p) = JObj o'" using assms(2,3) map_of_obj_of [of p] by (simp add: obj_get_def)
  then have m: "obj_get sec (mergeWithDefaultSidebarModules (JObj p)) = mergeSection d (JObj o')"
    using merged_get [OF assms(1), of "JObj p"] by simp
  have k: "map_of o' k = Some (JBool False)" using assms(4) by (cases "map_of o' k") (auto simp: obj_get_def)
  have "prop_get k (mergeSection d (JObj o')) = opt_or (map_of o' k) JUndef"
    by (rule mergeSection_get [OF u]) (simp_all add: k)
  with m k show ?thesis by simp
qed

lemma guard_false:
  assumes "\<not> isSidebarModuleEnabled storage sec m" "prop_get (lit ''SidebarModulesAdmin'') (getCachedStatus storage) = JStr text"
  shows "\<exists>p o'. trim text \<noteq> [] \<and> json_parse text = Some (JObj p) \<and> obj_get sec p = JObj o' \<and>
    (obj_get ENABLED o' = JBool False \<or> obj_get m o' = JBool False)"
proof -
  obtain v sc where v: "trim text \<noteq> []" "json_parse text = Some v" "get_prop sec v = Some sc" "truthy sc"
      "prop_get ENABLED sc = JBool False \<or> prop_get m sc = JBool False"
    using assms by (auto simp: isSidebarModuleEnabled_def Let_def split: if_splits option.splits)
  from v(5) truthy_prop obtain o' where o: "sc = JObj o'" by (metis jsval.distinct(3))
  have "prop_get sec v = JObj o'" using v(3) o by (simp add: get_prop_def split: if_splits)
  moreover from this truthy_prop obtain p where "v = JObj p" by (metis jsval.distinct(11))
  ultimately show ?thesis using v o by auto
qed

lemma shown_passes:
  assumes "(sec, d) \<in> set DEFAULT_SIDEBAR_MODULES" "adminAllows (parseSidebarConfig (Some text)) sec m"
    "prop_get (lit ''SidebarModulesAdmin'') (getCachedStatus storage) = JStr text"
  shows "isSidebarModuleEnabled storage sec m"
proof (rule ccontr)
  assume "\<not> isSidebarModuleEnabled storage sec m"
  from guard_false [OF this assms(3)] obtain p o' where g: "trim text \<noteq> []" "json_parse text = Some (JObj p)"
      "obj_get sec p = JObj o'" "obj_get ENABLED o' = JBool False \<or> obj_get m o' = JBool False" by blast
  have a: "parseSidebarConfig (Some text) = mergeWithDefaultSidebarModules (JObj p)" using g(1,2) by (simp add: parseSidebarConfig_def)
  note off = merged_off [OF assms(1) json_parse_unique [OF g(2)] g(3)]
  from g(4) assms(2) off [of ENABLED] off [of m] show False unfolding a adminAllows_def Let_def by auto
qed

section \<open>Options saved by the settings page\<close>

definition sidebar_option :: "SidebarModules \<Rightarrow> bool" where
  "sidebar_option cfg =
     (obj_of cfg = cfg \<and> (\<forall>(sec, s)\<in>set cfg. code_units sec \<and> obj_of s = s \<and> (\<forall>k\<in>fst ` set s. code_units k)))"

text \<open>A switch of the settings page: on when it was never set.\<close>

definition switch :: "SidebarModules \<Rightarrow> jstr \<Rightarrow> jstr \<Rightarrow> bool" where
  "switch cfg sec k = (case map_of cfg sec of None \<Rightarrow> True | Some s \<Rightarrow> opt_or (map_of s k) True)"

lemma section_plain: "obj_of s = s \<Longrightarrow> \<forall>k\<in>fst ` set s. code_units k \<Longrightarrow> json_plain (sectionJson s)"
  unfolding sectionJson.simps by (rule object_plain) auto

lemma sidebar_parses:
  assumes "sidebar_option cfg"
  shows "json_parse (serializeSidebarModulesAdmin cfg) = Some (JObj (map_vals sectionJson cfg))"
proof -
  have "json_plain (JObj (map_vals sectionJson cfg))"
    using assms section_plain by (intro object_plain) (auto simp: sidebar_option_def)
  then show ?thesis unfolding serializeSidebarModulesAdmin_def by (rule json_roundtrip)
qed

lemma sidebar_text: "sidebar_option cfg \<Longrightarrow> trim (serializeSidebarModulesAdmin cfg) \<noteq> []"
  using json_parse_not_blank [OF sidebar_parses] by blast

lemma option_section:
  assumes "sidebar_option cfg" "map_of cfg sec = Some s"
  shows "distinct (map fst s)"
proof -
  have "obj_of s = s" using assms map_of_SomeD unfolding sidebar_option_def by fast
  then show ?thesis by (metis distinct_obj_of)
qed

lemma option_get:
  "obj_get sec (map_vals sectionJson cfg) = (case map_of cfg sec of None \<Rightarrow> JUndef | Some s \<Rightarrow> sectionJson s)"
  by (simp add: obj_get_def map_of_map_vals split: option.splits)

lemma truthy_section: "truthy (sectionJson s)"
  by (simp add: sectionJson.simps)

lemma saved_get:
  assumes "sidebar_option cfg" "(sec, d) \<in> set DEFAULT_SIDEBAR_MODULES" "map_of d k = Some True"
  shows "prop_get k (obj_get sec (parseSidebarConfig (Some (serializeSidebarModulesAdmin cfg)))) = JBool (switch cfg sec k)"
proof -
  have "obj_of (map_vals sectionJson cfg) = map_vals sectionJson cfg"
    using assms(1) by (simp add: obj_of_map_vals sidebar_option_def)
  then have m: "obj_get sec (parseSidebarConfig (Some (serializeSidebarModulesAdmin cfg))) =
      (let e = obj_get sec (map_vals sectionJson cfg) in if truthy e then mergeSection d e else sectionJson d)"
    using sidebar_text [OF assms(1)] sidebar_parses [OF assms(1)] merged_get [OF assms(2), of "JObj (map_vals sectionJson cfg)"]
    by (simp add: parseSidebarConfig_def)
  show ?thesis
  proof (cases "map_of cfg sec")
    case None
    with m assms(3) show ?thesis by (simp add: option_get section_get switch_def)
  next
    case (Some s)
    have "prop_get k (mergeSection d (JObj (map_vals JBool s))) = opt_or (map_of (map_vals JBool s) k) (JBool True)"
      by (rule mergeSection_get) (use option_section [OF assms(1) Some] assms(3) in \<open>auto simp: map_of_map_vals\<close>)
    then have "prop_get k (mergeSection d (sectionJson s)) = JBool (switch cfg sec k)"
      using Some by (cases "map_of s k") (simp_all add: sectionJson.simps map_of_map_vals switch_def)
    with m Some show ?thesis by (simp add: option_get truthy_section)
  qed
qed

lemma saved_allows:
  assumes "sidebar_option cfg" "(sec, d) \<in> set DEFAULT_SIDEBAR_MODULES" "map_of d m = Some True"
  shows "adminAllows (parseSidebarConfig (Some (serializeSidebarModulesAdmin cfg))) sec m \<longleftrightarrow> switch cfg sec ENABLED \<and> switch cfg sec m"
proof -
  have e: "map_of d ENABLED = Some True" using default_sections [OF assms(2)] by blast
  let ?s = "obj_get sec (parseSidebarConfig (Some (serializeSidebarModulesAdmin cfg)))"
  have "truthy ?s" using saved_get [OF assms(1,2) e] truthy_prop [of ENABLED ?s] by auto
  then show ?thesis unfolding adminAllows_def Let_def saved_get [OF assms] saved_get [OF assms(1,2) e] by simp
qed

lemma saved_guard:
  assumes "sidebar_option cfg"
    "prop_get (lit ''SidebarModulesAdmin'') (getCachedStatus storage) = JStr (serializeSidebarModulesAdmin cfg)"
  shows "isSidebarModuleEnabled storage sec m \<longleftrightarrow> switch cfg sec ENABLED \<and> switch cfg sec m"
proof -
  let ?t = "serializeSidebarModulesAdmin cfg"
  have st: "truthy (getCachedStatus storage)" using assms(2) truthy_prop [of _ "getCachedStatus storage"] by fastforce
  have t: "?t \<noteq> []" using sidebar_text [OF assms(1)] trim_no_ws [of "[]"] by auto
  have b: "opt_or (map_option JBool x) JUndef = JBool False \<longleftrightarrow> x = Some False" for x by (cases x) auto
  show ?thesis
    unfolding isSidebarModuleEnabled_def Let_def
    using st t sidebar_text [OF assms(1)] sidebar_parses [OF assms(1)]
    by (cases "map_of cfg sec"; cases "map_of (opt_or (map_of cfg sec) []) ENABLED"; cases "map_of (opt_or (map_of cfg sec) []) m")
       (auto simp: assms(2) option_get truthy_section section_get b switch_def)
qed

subsection \<open>The settings page reads its own option\<close>

lemma readSection_get:
  assumes "distinct (map fst s)"
  shows "map_of (fold (\<lambda>(mk, v) s. if mk = ENABLED then s else obj_put mk (toBoolean v (f mk)) s) (map_vals JBool s) init) k
    = (if k = ENABLED then map_of init k else case map_of s k of Some b \<Rightarrow> Some b | None \<Rightarrow> map_of init k)"
  using assms
proof (induction s arbitrary: init)
  case (Cons x s)
  obtain mk b where x: "x = (mk, b)" by (cases x)
  then have "map_of s mk = None" using Cons.prems by (simp add: map_of_eq_None_iff)
  then show ?case using Cons x by (auto simp: map_of_obj_put split: option.splits)
qed simp

definition dfltSection :: "jstr \<Rightarrow> SidebarSection" where
  "dfltSection sec = opt_or (map_of SIDEBAR_MODULES_DEFAULT sec) [(ENABLED, True)]"

lemma dfltSection_enabled: "map_of (dfltSection sec) ENABLED = Some True"
  unfolding dfltSection_def default_same
  using default_sections [of sec] map_of_SomeD [of DEFAULT_SIDEBAR_MODULES sec]
  by (cases "map_of DEFAULT_SIDEBAR_MODULES sec") auto

lemma readSection_switch:
  assumes "distinct (map fst s)"
  shows "opt_or (map_of (readSection (dfltSection sec) (sectionJson s)) k) True = opt_or (map_of s k) True"
proof -
  let ?init = "[(ENABLED, toBoolean (prop_get ENABLED (sectionJson s)) (opt_or (map_of (dfltSection sec) ENABLED) True))]"
  have e: "toBoolean (prop_get ENABLED (sectionJson s)) True = opt_or (map_of s ENABLED) True"
    by (cases "map_of s ENABLED") (simp_all add: section_get)
  have "map_of (readSection (dfltSection sec) (sectionJson s)) k =
      (if k = ENABLED then map_of ?init k else case map_of s k of Some b \<Rightarrow> Some b | None \<Rightarrow> map_of ?init k)"
    unfolding readSection_def sectionJson.simps own_entries.simps
    by (rule readSection_get [OF assms, where f = "\<lambda>mk. opt_or (map_of (dfltSection sec) mk) True"])
  then show ?thesis using e by (auto simp: dfltSection_enabled split: option.splits)
qed

lemma readSections_get:
  assumes "distinct (map fst cfg)"
  shows "map_of (fold readSectionStep (map_vals sectionJson cfg) []) sec
    = map_option (\<lambda>s. readSection (dfltSection sec) (sectionJson s)) (map_of cfg sec)"
proof -
  let ?kvs = "map (\<lambda>(k, s). (k, readSection (dfltSection k) (sectionJson s))) cfg"
  have "fold readSectionStep (map_vals sectionJson cfg) r = obj_assign r ?kvs" for r
    by (induction cfg arbitrary: r) (auto simp: readSectionStep_def truthy_section sectionJson.simps dfltSection_def)
  moreover have "distinct (map fst ?kvs)" using assms by (simp add: comp_def case_prod_beta)
  moreover have "map_of ?kvs sec = map_option (\<lambda>s. readSection (dfltSection sec) (sectionJson s)) (map_of cfg sec)"
    by (induction cfg) auto
  ultimately show ?thesis by (simp add: map_of_assign)
qed

lemma fill_switch:
  "\<forall>y\<in>set d. snd y \<Longrightarrow>
   opt_or (map_of (fold (\<lambda>(mk, v) s. if map_of s mk = None then obj_put mk v s else s) d s) k) True = opt_or (map_of s k) True"
proof (induction d arbitrary: s)
  case (Cons y d)
  obtain mk v where y: "y = (mk, v)" by (cases y)
  define s' where "s' = (if map_of s mk = None then obj_put mk v s else s)"
  have "opt_or (map_of s' k) True = opt_or (map_of s k) True"
    using Cons.prems y by (auto simp: map_of_obj_put s'_def)
  moreover have "fold (\<lambda>(mk, v) s. if map_of s mk = None then obj_put mk v s else s) (y # d) s =
      fold (\<lambda>(mk, v) s. if map_of s mk = None then obj_put mk v s else s) d s'" by (simp add: y s'_def)
  moreover have "\<forall>y\<in>set d. snd y" using Cons.prems by simp
  ultimately show ?case using Cons.IH [of s'] by (simp only:)
qed simp

lemma fillStep_put:
  "fillSectionStep = (\<lambda>x m. obj_put (fst x)
     ((\<lambda>old. case old of None \<Rightarrow> snd x
        | Some sec \<Rightarrow> fold (\<lambda>(mk, v) s. if map_of s mk = None then obj_put mk v s else s) (snd x) sec) (map_of m (fst x))) m)"
  by (simp add: fun_eq_iff fillSectionStep_def split: option.splits)

lemma fill_all_switch:
  assumes "distinct (map fst r)"
  shows "switch (fold fillSectionStep DEFAULT_SIDEBAR_MODULES r) sec k = switch r sec k"
proof -
  let ?f = "\<lambda>x old. case old of None \<Rightarrow> snd x
        | Some sec \<Rightarrow> fold (\<lambda>(mk, v) s. if map_of s mk = None then obj_put mk v s else s) (snd x) sec"
  have g: "map_of (fold fillSectionStep DEFAULT_SIDEBAR_MODULES r) sec =
      fold (\<lambda>x old. Some (?f x old)) (filter (\<lambda>x. fst x = sec) DEFAULT_SIDEBAR_MODULES) (map_of r sec)"
    unfolding fillStep_put using js_obj.get_fold_put [OF assms, where key = fst and f = ?f] .
  show ?thesis
  proof (cases "sec \<in> fst ` set DEFAULT_SIDEBAR_MODULES")
    case True
    then obtain d where d: "(sec, d) \<in> set DEFAULT_SIDEBAR_MODULES" by auto
    have on: "\<forall>y\<in>set d. snd y"
    proof -
      have "\<forall>x\<in>set DEFAULT_SIDEBAR_MODULES. \<forall>y\<in>set (snd x). snd y" by (simp add: DEFAULT_SIDEBAR_MODULES_def all_on_def)
      with d show ?thesis by force
    qed
    then have "opt_or (map_of d k) True" using map_of_SomeD [of d k] by (cases "map_of d k") auto
    then show ?thesis
      using g fill_switch [OF on] by (cases "map_of r sec") (auto simp: filter_key [OF default_distinct d] switch_def)
  next
    case False
    with g show ?thesis by (simp add: filter_key_none switch_def)
  qed
qed

lemma settings_switch:
  assumes "sidebar_option cfg"
  shows "switch (parseSidebarModulesAdmin (Some (serializeSidebarModulesAdmin cfg))) sec k = switch cfg sec k"
proof -
  let ?r = "fold readSectionStep (map_vals sectionJson cfg) []"
  have d: "distinct (map fst cfg)" using assms distinct_obj_of [of cfg] by (simp add: sidebar_option_def)
  have "distinct (map fst (fold readSectionStep kvs r))" if "distinct (map fst r)" for kvs r
    using that by (induction kvs arbitrary: r) (simp_all add: readSectionStep_def distinct_obj_put)
  then have "distinct (map fst ?r)" by simp
  then have "switch (parseSidebarModulesAdmin (Some (serializeSidebarModulesAdmin cfg))) sec k = switch ?r sec k"
    using sidebar_text [OF assms] sidebar_parses [OF assms] fill_all_switch
    by (simp add: parseSidebarModulesAdmin_def object_entries_def nullish_def default_same)
  also have "\<dots> = switch cfg sec k"
    using option_section [OF assms] readSection_switch
    by (cases "map_of cfg sec") (simp_all add: switch_def readSections_get [OF d])
  finally show ?thesis .
qed

section \<open>What the sidebar shows\<close>



lemma userKeeps_null: "userKeeps JNull sec m"
  by (simp add: userKeeps_def)






section \<open>Properties\<close>




text \<open>
    The sidebar option means what the settings page shows: after an option is saved, every switch reads back as it was set; an
  address is in the sidebar, as far as the administrator decides, exactly when the switches of its section and of its module
  are on; and the guard of a route decides by the same two switches.
\<close>

theorem sidebar_option_agreed:
  assumes "sidebar_option cfg" "map_of URL_TO_CONFIG_MAP url = Some (sec, m)"
    "prop_get (lit ''SidebarModulesAdmin'') (getCachedStatus storage) = JStr (serializeSidebarModulesAdmin cfg)"
  shows "switch (parseSidebarModulesAdmin (Some (serializeSidebarModulesAdmin cfg))) = switch cfg \<and>
    (useIsSidebarModuleVisible url (Some (serializeSidebarModulesAdmin cfg)) (Some False) userText \<longleftrightarrow> switch cfg sec ENABLED \<and> switch cfg sec m) \<and>
    (isSidebarModuleEnabled storage sec m \<longleftrightarrow> switch cfg sec ENABLED \<and> switch cfg sec m)"
proof (intro conjI)
  show "switch (parseSidebarModulesAdmin (Some (serializeSidebarModulesAdmin cfg))) = switch cfg"
    using settings_switch [OF assms(1)] by (simp add: fun_eq_iff)
  obtain d where "(sec, d) \<in> set DEFAULT_SIDEBAR_MODULES" "map_of d m = Some True" using url_known [OF assms(2)] by blast
  then show "useIsSidebarModuleVisible url (Some (serializeSidebarModulesAdmin cfg)) (Some False) userText \<longleftrightarrow> switch cfg sec ENABLED \<and> switch cfg sec m"
    using saved_allows [OF assms(1)] assms(2)
    by (simp add: useIsSidebarModuleVisible_def userOverlay_def isModuleEnabled_def userKeeps_null)
  show "isSidebarModuleEnabled storage sec m \<longleftrightarrow> switch cfg sec ENABLED \<and> switch cfg sec m"
    using saved_guard [OF assms(1,3)] .
qed

definition sampleSidebar :: SidebarModules where
  "sampleSidebar = [(lit ''chat'', [(ENABLED, True), (lit ''playground'', False)])]"

theorem sidebar_option_agreed_witness:
  "\<not> isSidebarModuleEnabled
      (Some (json_stringify 0 (JObj [(lit ''SidebarModulesAdmin'', JStr (serializeSidebarModulesAdmin sampleSidebar))])))
      (lit ''chat'') (lit ''playground'')"
proof -
  let ?st = "Some (json_stringify 0 (JObj [(lit ''SidebarModulesAdmin'', JStr (serializeSidebarModulesAdmin sampleSidebar))]))"
  have "sidebar_option sampleSidebar"
    by (simp add: sidebar_option_def sampleSidebar_def obj_of_def obj_put_def key_index_def code_units_def ENABLED_def is_digit_def lit_def)
  moreover have "map_of URL_TO_CONFIG_MAP (lit ''/playground'') = Some (lit ''chat'', lit ''playground'')" by code_simp
  moreover have "prop_get (lit ''SidebarModulesAdmin'') (getCachedStatus ?st) = JStr (serializeSidebarModulesAdmin sampleSidebar)"
    by code_simp
  moreover have "\<not> switch sampleSidebar (lit ''chat'') (lit ''playground'')" by code_simp
  ultimately show ?thesis using sidebar_option_agreed [of sampleSidebar "lit ''/playground''" "lit ''chat''" "lit ''playground''" ?st None] by blast
qed

text \<open>
    Whatever the text of the option is, a link that the sidebar shows is not turned away by the guard of its
  route: if the administrator's layer lets an address appear, the guard that reads the same text from the cached
  status lets its module load.
\<close>

theorem shown_link_passes_guard:
  assumes "map_of URL_TO_CONFIG_MAP url = Some (sec, m)"
    "useIsSidebarModuleVisible url (Some text) p userText"
    "prop_get (lit ''SidebarModulesAdmin'') (getCachedStatus storage) = JStr text"
  shows "isSidebarModuleEnabled storage sec m"
proof -
  obtain d where "(sec, d) \<in> set DEFAULT_SIDEBAR_MODULES" using url_known [OF assms(1)] by blast
  moreover have "adminAllows (parseSidebarConfig (Some text)) sec m"
    using assms(1,2) by (simp add: useIsSidebarModuleVisible_def isModuleEnabled_def split: if_splits)
  ultimately show ?thesis using shown_passes assms(3) by blast
qed

theorem shown_link_passes_guard_witness:
  "isSidebarModuleEnabled (Some (json_stringify 0 (JObj [(lit ''SidebarModulesAdmin'', JStr (lit ''{\"chat\":{\"chat\":0}}''))])))
     (lit ''chat'') (lit ''playground'')"
proof (rule shown_link_passes_guard)
  show "map_of URL_TO_CONFIG_MAP (lit ''/playground'') = Some (lit ''chat'', lit ''playground'')" by code_simp
  show "useIsSidebarModuleVisible (lit ''/playground'') (Some (lit ''{\"chat\":{\"chat\":0}}'')) None None" by code_simp
  show "prop_get (lit ''SidebarModulesAdmin'') (getCachedStatus (Some (json_stringify 0
      (JObj [(lit ''SidebarModulesAdmin'', JStr (lit ''{\"chat\":{\"chat\":0}}''))])))) = JStr (lit ''{\"chat\":{\"chat\":0}}'')" by code_simp
qed

end
