(* ===== verification/Param_Override.thy ===== *)
theory Param_Override
  imports JS_Object "HOL-Library.Monad_Syntax"
begin

text \<open>
  Parameter override rules of a channel: the functions before the component in
  \<open>features/channels/components/dialogs/param-override-editor-dialog.tsx\<close>.  Rules are edited as records with texts
  and saved as JSON.  Rules found in a text are dynamic values; reading a property of null throws, which is \<open>None\<close>.
  Every rule and condition carries a local identifier \<open>po_<time>_<seed>\<close>, made from a clock and a counter; identifiers are only
  compared, so the model keeps the pair.  The clock is the argument \<open>clk\<close>: the time at which the n-th identifier is made.
\<close>

section \<open>Data\<close>

datatype LocalId = PoId jsnum nat

record ParamOverrideCondition =
  c_id :: LocalId
  c_path :: jstr
  c_mode :: jstr
  c_value_text :: jstr
  c_invert :: bool
  c_pass_missing_key :: bool

record ParamOverrideOperation =
  op_id :: LocalId
  op_description :: jstr
  op_path :: jstr
  op_mode :: jstr
  op_from :: jstr
  op_to :: jstr
  op_value_text :: jstr
  op_keep_origin :: bool
  op_logic :: jstr
  op_conditions :: "ParamOverrideCondition list"

section \<open>Constants\<close>

definition OPERATION_MODE_OPTIONS :: "(jstr \<times> jstr) list" where
  "OPERATION_MODE_OPTIONS = map (\<lambda>(label, v). (lit label, lit v))
     [(''Set Field'', ''set''), (''Delete Field'', ''delete''), (''Append to End'', ''append''),
      (''Prepend to Start'', ''prepend''), (''Copy Field'', ''copy''), (''Move Field'', ''move''),
      (''String Replace'', ''replace''), (''Regex Replace'', ''regex_replace''), (''Trim Prefix'', ''trim_prefix''),
      (''Trim Suffix'', ''trim_suffix''), (''Ensure Prefix'', ''ensure_prefix''), (''Ensure Suffix'', ''ensure_suffix''),
      (''Trim Space'', ''trim_space''), (''To Lowercase'', ''to_lower''), (''To Uppercase'', ''to_upper''),
      (''Return Custom Error'', ''return_error''), (''Prune Object Items'', ''prune_objects''),
      (''Pass Through Headers'', ''pass_headers''), (''Sync Fields'', ''sync_fields''),
      (''Set Request Header'', ''set_header''), (''Delete Request Header'', ''delete_header''),
      (''Copy Request Header'', ''copy_header''), (''Move Request Header'', ''move_header'')]"

definition OPERATION_MODE_VALUES :: "jstr list" where
  "OPERATION_MODE_VALUES = map snd OPERATION_MODE_OPTIONS"

definition CONDITION_MODE_OPTIONS :: "(jstr \<times> jstr) list" where
  "CONDITION_MODE_OPTIONS = map (\<lambda>(label, v). (lit label, lit v))
     [(''Exact Match'', ''full''), (''Prefix'', ''prefix''), (''Suffix'', ''suffix''), (''Contains'', ''contains''),
      (''Greater Than'', ''gt''), (''Greater Than or Equal'', ''gte''), (''Less Than'', ''lt''),
      (''Less Than or Equal'', ''lte'')]"

definition CONDITION_MODE_VALUES :: "jstr list" where
  "CONDITION_MODE_VALUES = map snd CONDITION_MODE_OPTIONS"

text \<open>The entries of \<open>MODE_META\<close>; a missing field is false.\<close>

record ModeMeta =
  m_path :: bool
  m_pathOptional :: bool
  m_value :: bool
  m_from :: bool
  m_to :: bool
  m_keepOrigin :: bool
  m_pathAlias :: bool

definition meta :: "string list \<Rightarrow> ModeMeta" where
  "meta fs = \<lparr>m_path = (''path'' \<in> set fs), m_pathOptional = (''pathOptional'' \<in> set fs), m_value = (''value'' \<in> set fs),
     m_from = (''from'' \<in> set fs), m_to = (''to'' \<in> set fs), m_keepOrigin = (''keepOrigin'' \<in> set fs),
     m_pathAlias = (''pathAlias'' \<in> set fs)\<rparr>"

definition MODE_META :: "(jstr \<times> ModeMeta) list" where
  "MODE_META = map (\<lambda>(m, fs). (lit m, meta fs))
     [(''delete'', [''path'']), (''set'', [''path'', ''value'', ''keepOrigin'']),
      (''append'', [''path'', ''value'', ''keepOrigin'']), (''prepend'', [''path'', ''value'', ''keepOrigin'']),
      (''copy'', [''from'', ''to'']), (''move'', [''from'', ''to'']),
      (''replace'', [''path'', ''from'']), (''regex_replace'', [''path'', ''from'']),
      (''trim_prefix'', [''path'', ''value'']), (''trim_suffix'', [''path'', ''value'']),
      (''ensure_prefix'', [''path'', ''value'']), (''ensure_suffix'', [''path'', ''value'']),
      (''trim_space'', [''path'']), (''to_lower'', [''path'']), (''to_upper'', [''path'']),
      (''return_error'', [''value'']), (''prune_objects'', [''pathOptional'', ''value'']),
      (''pass_headers'', [''value'', ''keepOrigin'']), (''sync_fields'', [''from'', ''to'']),
      (''set_header'', [''path'', ''value'', ''keepOrigin'']), (''delete_header'', [''path'']),
      (''copy_header'', [''from'', ''to'', ''keepOrigin'', ''pathAlias'']),
      (''move_header'', [''from'', ''to'', ''keepOrigin'', ''pathAlias''])]"

definition VALUE_REQUIRED_MODES :: "jstr list" where
  "VALUE_REQUIRED_MODES = map lit [''trim_prefix'', ''trim_suffix'', ''ensure_prefix'', ''ensure_suffix'', ''set_header'',
     ''return_error'', ''prune_objects'', ''pass_headers'']"

definition FROM_REQUIRED_MODES :: "jstr list" where
  "FROM_REQUIRED_MODES = map lit [''copy'', ''move'', ''replace'', ''regex_replace'', ''copy_header'', ''move_header'', ''sync_fields'']"

definition TO_REQUIRED_MODES :: "jstr list" where
  "TO_REQUIRED_MODES = map lit [''copy'', ''move'', ''copy_header'', ''move_header'', ''sync_fields'']"

section \<open>Texts and values\<close>

definition toValueText :: "jsval \<Rightarrow> jstr" where
  "toValueText v = (case v of JUndef \<Rightarrow> [] | JStr s \<Rightarrow> s | _ \<Rightarrow> json_stringify 0 v)"

definition parseLooseValue :: "jstr \<Rightarrow> jsval" where
  "parseLooseValue valueText =
     (let raw = trim valueText in if raw = [] then JStr [] else opt_or (json_parse raw) (JStr raw))"

definition verifyJSON :: "jstr \<Rightarrow> bool" where
  "verifyJSON s = (json_parse s \<noteq> None)"

text \<open>\<open>s.toUpperCase()\<close> for a comparison with AND or OR, which no character outside ASCII becomes.\<close>

definition ascii_upper :: "jstr \<Rightarrow> jstr" where
  "ascii_upper s = map (\<lambda>c. if 97 \<le> c \<and> c \<le> 122 then c - 32 else c) s"

section \<open>Rules from values\<close>

definition nextLocalId :: "(nat \<Rightarrow> jsnum) \<Rightarrow> nat \<Rightarrow> LocalId" where
  "nextLocalId clk seed = PoId (clk seed) seed"

definition strField :: "string \<Rightarrow> jsval \<Rightarrow> jstr" where
  "strField k v = (case prop_get (lit k) v of JStr s \<Rightarrow> s | _ \<Rightarrow> [])"

definition modeField :: "jstr list \<Rightarrow> string \<Rightarrow> jsval \<Rightarrow> jstr" where
  "modeField modes dflt v =
     (case prop_get (lit ''mode'') v of JStr s \<Rightarrow> if s \<in> set modes then s else lit dflt | _ \<Rightarrow> lit dflt)"

definition isTrue :: "string \<Rightarrow> jsval \<Rightarrow> bool" where
  "isTrue k v = (prop_get (lit k) v = JBool True)"

text \<open>A default argument replaces undefined; null is kept and throws.\<close>

definition argument :: "jsval \<Rightarrow> jsval option" where
  "argument v = (if v = JUndef then Some (JObj []) else if v = JNull then None else Some v)"

definition normalizeCondition :: "(nat \<Rightarrow> jsnum) \<Rightarrow> jsval \<Rightarrow> nat \<Rightarrow> (ParamOverrideCondition \<times> nat) option" where
  "normalizeCondition clk arg seed =
     do {
       condition \<leftarrow> argument arg;
       Some (\<lparr>c_id = nextLocalId clk seed, c_path = strField ''path'' condition,
              c_mode = modeField CONDITION_MODE_VALUES ''full'' condition,
              c_value_text = toValueText (prop_get (lit ''value'') condition),
              c_invert = isTrue ''invert'' condition, c_pass_missing_key = isTrue ''pass_missing_key'' condition\<rparr>, Suc seed)
     }"

text \<open>\<open>xs.map(f)\<close> for a function that takes identifiers and may throw.\<close>

fun mapAlloc :: "(jsval \<Rightarrow> nat \<Rightarrow> ('a \<times> nat) option) \<Rightarrow> jsval list \<Rightarrow> nat \<Rightarrow> ('a list \<times> nat) option" where
  "mapAlloc f [] seed = Some ([], seed)"
| "mapAlloc f (x # xs) seed =
     do { (y, seed1) \<leftarrow> f x seed; (ys, seed2) \<leftarrow> mapAlloc f xs seed1; Some (y # ys, seed2) }"

definition logicOf :: "jsval \<Rightarrow> jstr" where
  "logicOf v = (if ascii_upper (to_string (js_or v (JStr (lit ''OR'')))) = lit ''AND'' then lit ''AND'' else lit ''OR'')"

definition normalizeOperation :: "(nat \<Rightarrow> jsnum) \<Rightarrow> jsval \<Rightarrow> nat \<Rightarrow> (ParamOverrideOperation \<times> nat) option" where
  "normalizeOperation clk arg seed =
     do {
       operation \<leftarrow> argument arg;
       (conds, seed') \<leftarrow> (case prop_get (lit ''conditions'') operation of
                           JArr cs \<Rightarrow> mapAlloc (normalizeCondition clk) cs (Suc seed)
                         | _ \<Rightarrow> Some ([], Suc seed));
       Some (\<lparr>op_id = nextLocalId clk seed, op_description = strField ''description'' operation,
              op_path = strField ''path'' operation, op_mode = modeField OPERATION_MODE_VALUES ''set'' operation,
              op_from = strField ''from'' operation, op_to = strField ''to'' operation,
              op_value_text = toValueText (prop_get (lit ''value'') operation),
              op_keep_origin = isTrue ''keep_origin'' operation,
              op_logic = logicOf (prop_get (lit ''logic'') operation), op_conditions = conds\<rparr>, seed')
     }"

definition createDefaultCondition :: "(nat \<Rightarrow> jsnum) \<Rightarrow> nat \<Rightarrow> ParamOverrideCondition" where
  "createDefaultCondition clk seed =
     \<lparr>c_id = nextLocalId clk seed, c_path = [], c_mode = lit ''full'', c_value_text = [], c_invert = False, c_pass_missing_key = False\<rparr>"

definition createDefaultOperation :: "(nat \<Rightarrow> jsnum) \<Rightarrow> nat \<Rightarrow> ParamOverrideOperation" where
  "createDefaultOperation clk seed =
     \<lparr>op_id = nextLocalId clk seed, op_description = [], op_path = [], op_mode = lit ''set'', op_from = [], op_to = [],
      op_value_text = [], op_keep_origin = False, op_logic = lit ''OR'', op_conditions = []\<rparr>"

text \<open>These are \<open>normalizeCondition({})\<close> and \<open>normalizeOperation({ mode: 'set' })\<close>.\<close>

lemma createDefaultCondition_normalize:
  "normalizeCondition clk (JObj []) seed = Some (createDefaultCondition clk seed, Suc seed)"
  by (simp add: normalizeCondition_def argument_def createDefaultCondition_def strField_def modeField_def isTrue_def
      obj_get_def toValueText_def)

lemma createDefaultOperation_normalize:
  "normalizeOperation clk (JObj [(lit ''mode'', JStr (lit ''set''))]) seed = Some (createDefaultOperation clk seed, Suc seed)"
  by (simp add: normalizeOperation_def argument_def createDefaultOperation_def strField_def modeField_def isTrue_def
      obj_get_def toValueText_def logicOf_def js_or_def ascii_upper_def OPERATION_MODE_VALUES_def OPERATION_MODE_OPTIONS_def lit_def)

section \<open>Lists of rules\<close>

definition find_index :: "('a \<Rightarrow> bool) \<Rightarrow> 'a list \<Rightarrow> nat option" where
  "find_index P xs = (let i = length (takeWhile (\<lambda>x. \<not> P x) xs) in if i < length xs then Some i else None)"

definition splice_in :: "nat \<Rightarrow> 'a \<Rightarrow> 'a list \<Rightarrow> 'a list" where
  "splice_in i x xs = take i xs @ x # drop i xs"

definition splice_out :: "nat \<Rightarrow> 'a list \<Rightarrow> 'a list" where
  "splice_out i xs = take i xs @ drop (Suc i) xs"

datatype DropPosition = Before | After

text \<open>No identifier, the empty text in the code, is \<open>None\<close>.\<close>

definition reorderOperations ::
  "ParamOverrideOperation list \<Rightarrow> LocalId option \<Rightarrow> LocalId option \<Rightarrow> DropPosition \<Rightarrow> ParamOverrideOperation list" where
  "reorderOperations ops sourceId targetId position =
     (if sourceId = None \<or> targetId = None \<or> sourceId = targetId then ops
      else case find_index (\<lambda>o'. Some (op_id o') = sourceId) ops of
        None \<Rightarrow> ops
      | Some srcIdx \<Rightarrow>
          let moved = ops ! srcIdx; next = splice_out srcIdx ops
          in case find_index (\<lambda>o'. Some (op_id o') = targetId) next of
               None \<Rightarrow> ops
             | Some i \<Rightarrow> splice_in (if position = After then i + 1 else i) moved next)"

definition conditionFilled :: "ParamOverrideCondition \<Rightarrow> bool" where
  "conditionFilled c =
     (trim (c_path c) \<noteq> [] \<or> trim (c_value_text c) \<noteq> [] \<or> c_mode c \<noteq> lit ''full'' \<or> c_invert c \<or> c_pass_missing_key c)"

definition isOperationBlank :: "ParamOverrideOperation \<Rightarrow> bool" where
  "isOperationBlank operation =
     (op_mode operation = lit ''set'' \<and> trim (op_path operation) = [] \<and> trim (op_from operation) = [] \<and>
      trim (op_to operation) = [] \<and> trim (op_value_text operation) = [] \<and> \<not> op_keep_origin operation \<and>
      \<not> list_ex conditionFilled (op_conditions operation))"

text \<open>The separator is a middle dot between blanks.\<close>

definition first_filled :: "jstr list \<Rightarrow> jstr" where
  "first_filled ts = opt_or (find (\<lambda>t. t \<noteq> []) ts) (lit ''-'')"

definition modeOf :: "ParamOverrideOperation \<Rightarrow> jstr" where
  "modeOf operation = (if op_mode operation = [] then lit ''set'' else op_mode operation)"

definition getOperationSummary :: "ParamOverrideOperation \<Rightarrow> nat \<Rightarrow> jstr" where
  "getOperationSummary operation index =
     (let mode = modeOf operation;
          modeLabel = opt_or (map_of (map (\<lambda>(l, v). (v, l)) OPERATION_MODE_OPTIONS) mode) mode;
          path = trim (op_path operation); from = trim (op_from operation); to = trim (op_to operation)
      in num_str (Fin (of_nat (index + 1))) @ lit ''. '' @ modeLabel @ [32, 183, 32] @
         first_filled (if mode = lit ''sync_fields'' then [from, to] else [path, from, to]))"

section \<open>Endpoints of a field synchronisation\<close>

definition parseSyncTargetSpec :: "jstr \<Rightarrow> jstr \<times> jstr" where
  "parseSyncTargetSpec spec =
     (let raw = trim spec in
      if raw = [] then (lit ''json'', [])
      else case index_of (lit '':'') raw of
        None \<Rightarrow> (lit ''json'', raw)
      | Some idx \<Rightarrow>
          let prefix = ascii_lower (trim (take idx raw)); key = trim (drop (idx + 1) raw)
          in (if prefix = lit ''header'' then lit ''header'' else lit ''json'', key))"

definition buildSyncTargetSpec :: "jstr \<Rightarrow> jstr \<Rightarrow> jstr" where
  "buildSyncTargetSpec type key =
     (let normalizedType = (if type = lit ''header'' then lit ''header'' else lit ''json''); normalizedKey = trim key
      in if normalizedKey = [] then [] else normalizedType @ lit '':'' @ normalizedKey)"

section \<open>Custom errors\<close>

record ReturnErrorDraft =
  re_message :: jstr
  re_statusCode :: jsnum
  re_code :: jstr
  re_type :: jstr
  re_skipRetry :: bool
  re_simpleMode :: bool

text \<open>\<open>parsed && typeof parsed === 'object' && !Array.isArray(parsed)\<close>.\<close>

definition plain_object :: "jsval \<Rightarrow> bool" where
  "plain_object v = (case v of JObj _ \<Rightarrow> True | _ \<Rightarrow> False)"

definition validStatus :: "jsnum \<Rightarrow> jsnum" where
  "validStatus n = (if is_integer n \<and> js_le (jint 100) n \<and> js_le n (jint 599) then n else jint 400)"

definition returnErrorDefaults :: ReturnErrorDraft where
  "returnErrorDefaults = \<lparr>re_message = [], re_statusCode = jint 400, re_code = [], re_type = [], re_skipRetry = True, re_simpleMode = True\<rparr>"

definition parseReturnErrorDraft :: "jstr \<Rightarrow> ReturnErrorDraft" where
  "parseReturnErrorDraft valueText =
     (let raw = trim valueText;
          plain = returnErrorDefaults\<lparr>re_message := raw, re_simpleMode := True\<rparr>
      in if raw = [] then returnErrorDefaults
         else case json_parse raw of
           None \<Rightarrow> plain
         | Some parsed \<Rightarrow>
             if plain_object parsed then
               let get = (\<lambda>k. prop_get (lit k) parsed);
                   statusRaw = (if get ''status_code'' \<noteq> JUndef then get ''status_code'' else get ''status'')
               in \<lparr>re_message = trim (to_string (js_or (get ''message'') (js_or (get ''msg'') (JStr [])))),
                   re_statusCode = validStatus (to_num statusRaw),
                   re_code = trim (to_string (js_or (get ''code'') (JStr []))),
                   re_type = trim (to_string (js_or (get ''type'') (JStr []))),
                   re_skipRetry = (get ''skip_retry'' \<noteq> JBool False), re_simpleMode = False\<rparr>
             else plain)"

definition put_if :: "bool \<Rightarrow> string \<Rightarrow> jsval \<Rightarrow> (jstr \<times> jsval) list \<Rightarrow> (jstr \<times> jsval) list" where
  "put_if b k v o' = (if b then obj_put (lit k) v o' else o')"

definition buildReturnErrorValueText :: "ReturnErrorDraft \<Rightarrow> jstr" where
  "buildReturnErrorValueText draft =
     (let message = trim (re_message draft); code = trim (re_code draft); type = trim (re_type draft);
          p0 = [(lit ''message'', JStr message), (lit ''status_code'', JNum (validStatus (re_statusCode draft)))];
          p1 = put_if (code \<noteq> []) ''code'' (JStr code) p0;
          p2 = put_if (type \<noteq> []) ''type'' (JStr type) p1;
          p3 = put_if (\<not> re_skipRetry draft) ''skip_retry'' (JBool False) p2
      in if re_simpleMode draft then message else json_stringify 0 (JObj p3))"

section \<open>Pruning of objects\<close>

type_synonym PruneRule = ParamOverrideCondition

record PruneObjectsDraft =
  pr_simpleMode :: bool
  pr_typeText :: jstr
  pr_logic :: jstr
  pr_recursive :: bool
  pr_rules :: "PruneRule list"

definition normalizePruneRule :: "(nat \<Rightarrow> jsnum) \<Rightarrow> jsval \<Rightarrow> nat \<Rightarrow> PruneRule" where
  "normalizePruneRule clk rule seed =
     \<lparr>c_id = nextLocalId clk seed, c_path = strField ''path'' rule, c_mode = modeField CONDITION_MODE_VALUES ''full'' rule,
      c_value_text = toValueText (prop_get (lit ''value'') rule), c_invert = isTrue ''invert'' rule,
      c_pass_missing_key = isTrue ''pass_missing_key'' rule\<rparr>"

fun pushRules :: "(nat \<Rightarrow> jsnum) \<Rightarrow> jsval list \<Rightarrow> nat \<Rightarrow> PruneRule list" where
  "pushRules clk [] seed = []"
| "pushRules clk (v # vs) seed = normalizePruneRule clk v seed # pushRules clk vs (Suc seed)"

definition entryRules :: "jsval \<Rightarrow> jsval list" where
  "entryRules v = map (\<lambda>(path, value'). JObj [(lit ''path'', JStr path), (lit ''mode'', JStr (lit ''full'')), (lit ''value'', value')])
     (own_entries v)"

text \<open>The values the rules of a draft are made from, in the order of the loops.\<close>

definition ruleSources :: "jsval \<Rightarrow> jsval list" where
  "ruleSources parsed =
     (let wh = prop_get (lit ''where'') parsed; cs = prop_get (lit ''conditions'') parsed
      in (if plain_object wh then entryRules wh else []) @
         (case cs of
            JArr items \<Rightarrow> filter (\<lambda>item. truthy item \<and> type_object item) items
          | _ \<Rightarrow> if plain_object cs then entryRules cs else []))"

definition pruneDefaults :: PruneObjectsDraft where
  "pruneDefaults = \<lparr>pr_simpleMode = True, pr_typeText = [], pr_logic = lit ''AND'', pr_recursive = True, pr_rules = []\<rparr>"

definition pruneLogic :: "jsval \<Rightarrow> jstr" where
  "pruneLogic v = (if ascii_upper (to_string (js_or v (JStr (lit ''AND'')))) = lit ''OR'' then lit ''OR'' else lit ''AND'')"

definition parsePruneObjectsDraft :: "(nat \<Rightarrow> jsnum) \<Rightarrow> jstr \<Rightarrow> nat \<Rightarrow> PruneObjectsDraft \<times> nat" where
  "parsePruneObjectsDraft clk valueText seed =
     (let raw = trim valueText; typed = (\<lambda>t. pruneDefaults\<lparr>pr_typeText := t\<rparr>)
      in if raw = [] then (pruneDefaults, seed)
         else case json_parse raw of
           None \<Rightarrow> (typed raw, seed)
         | Some parsed \<Rightarrow>
             (case parsed of
                JStr s \<Rightarrow> (typed (trim s), seed)
              | JObj _ \<Rightarrow>
                  let get = (\<lambda>k. prop_get (lit k) parsed);
                      rules = pushRules clk (ruleSources parsed) seed;
                      hasAdvancedFields =
                        (get ''logic'' \<noteq> JUndef \<or> get ''recursive'' \<noteq> JUndef \<or> get ''where'' \<noteq> JUndef \<or> get ''conditions'' \<noteq> JUndef)
                  in (\<lparr>pr_simpleMode = (\<not> hasAdvancedFields),
                       pr_typeText = (if get ''type'' = JUndef then [] else trim (to_string (get ''type''))),
                       pr_logic = pruneLogic (get ''logic''), pr_recursive = (get ''recursive'' \<noteq> JBool False),
                       pr_rules = rules\<rparr>, seed + length rules)
              | _ \<Rightarrow> (typed (if nullish parsed then [] else trim (to_string parsed)), seed)))"

definition pruneCondition :: "PruneRule \<Rightarrow> jsval" where
  "pruneCondition rule =
     (let valueRaw = trim (c_value_text rule);
          p0 = [(lit ''path'', JStr (trim (c_path rule))),
                (lit ''mode'', JStr (if c_mode rule \<in> set CONDITION_MODE_VALUES then c_mode rule else lit ''full''))];
          p1 = put_if (valueRaw \<noteq> []) ''value'' (parseLooseValue valueRaw) p0;
          p2 = put_if (c_invert rule) ''invert'' (JBool True) p1
      in JObj (put_if (c_pass_missing_key rule) ''pass_missing_key'' (JBool True) p2))"

definition buildPruneObjectsValueText :: "PruneObjectsDraft \<Rightarrow> jstr" where
  "buildPruneObjectsValueText draft =
     (let typeText = trim (pr_typeText draft);
          conditions = map pruneCondition (filter (\<lambda>r. trim (c_path r) \<noteq> []) (pr_rules draft));
          p1 = put_if (typeText \<noteq> []) ''type'' (JStr typeText) [];
          p2 = put_if (pruneLogic (JStr (pr_logic draft)) = lit ''OR'') ''logic'' (JStr (lit ''OR'')) p1;
          p3 = put_if (\<not> pr_recursive draft) ''recursive'' (JBool False) p2;
          p4 = put_if (conditions \<noteq> []) ''conditions'' (JArr conditions) p3
      in if pr_simpleMode draft then typeText
         else if typeText = [] \<and> conditions = [] then json_stringify 0 (JObj [(lit ''logic'', JStr (lit ''AND''))])
         else json_stringify 0 (JObj p4))"

end
