(* ===== verification/Param_Payload.thy ===== *)
theory Param_Payload
  imports Param_Override
begin

text \<open>
  From rules to the saved text and back: validation, the payload, and the state the editor opens with
  (\<open>param-override-editor-dialog.tsx\<close>).  Translation is the parameter \<open>tr\<close>, applied to a key and, where the code passes one,
  the line of the rule.  A thrown message is \<open>Inl\<close>.
\<close>

type_synonym translator = "jstr \<Rightarrow> nat option \<Rightarrow> jstr"

section \<open>Validation\<close>

definition headerText :: "jsval \<Rightarrow> jstr" where
  "headerText i = (if nullish i then [] else trim (to_string i))"

definition nonempty_texts :: "jstr list \<Rightarrow> jstr list" where
  "nonempty_texts = filter (\<lambda>s. s \<noteq> [])"

definition parsePassHeaderNames :: "jsval \<Rightarrow> jstr list" where
  "parsePassHeaderNames rawValue =
     (case rawValue of
        JArr xs \<Rightarrow> nonempty_texts (map headerText xs)
      | JObj o' \<Rightarrow>
          (case obj_get (lit ''headers'') o' of
             JArr xs \<Rightarrow> nonempty_texts (map headerText xs)
           | _ \<Rightarrow> if obj_get (lit ''header'') o' \<noteq> JUndef then nonempty_texts [headerText (obj_get (lit ''header'') o')] else [])
      | JStr s \<Rightarrow> nonempty_texts (map trim (split_char 44 s))
      | _ \<Rightarrow> [])"

definition buildConditionPayload :: "ParamOverrideCondition \<Rightarrow> jsval option" where
  "buildConditionPayload condition =
     (let path = trim (c_path condition);
          p0 = [(lit ''path'', JStr path), (lit ''mode'', JStr (if c_mode condition = [] then lit ''full'' else c_mode condition)),
                (lit ''value'', parseLooseValue (c_value_text condition))];
          p1 = put_if (c_invert condition) ''invert'' (JBool True) p0;
          p2 = put_if (c_pass_missing_key condition) ''pass_missing_key'' (JBool True) p1
      in if path = [] then None else Some (JObj p2))"

definition metaOf :: "jstr \<Rightarrow> ModeMeta" where
  "metaOf mode = opt_or (map_of MODE_META mode) (meta [''path'', ''value'', ''keepOrigin''])"

definition noMessage :: "jstr \<Rightarrow> bool" where
  "noMessage raw =
     (case json_parse raw of
        Some parsed \<Rightarrow> plain_object parsed \<and> trim (to_string (js_or (prop_get (lit ''message'') parsed) (JStr []))) = []
      | None \<Rightarrow> False)"

text \<open>The key of the message for a rule, \<open>None\<close> when the checks of the loop body all pass.\<close>

definition ruleProblem :: "ParamOverrideOperation \<Rightarrow> jstr option" where
  "ruleProblem op =
     (let mode = modeOf op; m = metaOf mode;
          pathValue = trim (op_path op); fromValue = trim (op_from op); toValue = trim (op_to op); raw = trim (op_value_text op)
      in if m_path m \<and> pathValue = [] then Some (lit ''Rule {{line}} is missing target path'')
         else if mode \<in> set FROM_REQUIRED_MODES \<and> fromValue = [] \<and> \<not> (m_pathAlias m \<and> pathValue \<noteq> [])
           then Some (lit ''Rule {{line}} is missing source field'')
         else if mode \<in> set TO_REQUIRED_MODES \<and> toValue = [] \<and> \<not> (m_pathAlias m \<and> pathValue \<noteq> [])
           then Some (lit ''Rule {{line}} is missing target field'')
         else if mode \<in> set VALUE_REQUIRED_MODES \<and> raw = [] then Some (lit ''Rule {{line}} is missing value'')
         else if mode = lit ''return_error'' \<and> raw = [] then Some (lit ''Rule {{line}} is missing value'')
         else if mode = lit ''return_error'' \<and> noMessage raw then Some (lit ''Rule {{line}} return_error requires a message field'')
         else if mode = lit ''prune_objects'' \<and> raw = [] then Some (lit ''Rule {{line}} prune_objects is missing conditions'')
         else if mode = lit ''pass_headers'' \<and> raw = [] then Some (lit ''Rule {{line}} pass_headers is missing header names'')
         else if mode = lit ''pass_headers'' \<and> parsePassHeaderNames (parseLooseValue raw) = []
           then Some (lit ''Rule {{line}} pass_headers format is invalid'')
         else None)"

fun validateFrom :: "translator \<Rightarrow> nat \<Rightarrow> ParamOverrideOperation list \<Rightarrow> jstr" where
  "validateFrom tr i [] = []"
| "validateFrom tr i (op # ops) =
     (case ruleProblem op of Some key \<Rightarrow> tr key (Some (i + 1)) | None \<Rightarrow> validateFrom tr (i + 1) ops)"

definition validateOperations :: "translator \<Rightarrow> ParamOverrideOperation list \<Rightarrow> jstr" where
  "validateOperations tr operations = validateFrom tr 0 operations"

section \<open>Building the text\<close>

definition operationPayload :: "ParamOverrideOperation \<Rightarrow> jsval" where
  "operationPayload operation =
     (let mode = modeOf operation; m = metaOf mode;
          descriptionValue = trim (op_description operation); pathValue = trim (op_path operation);
          fromValue = trim (op_from operation); toValue = trim (op_to operation);
          p0 = [(lit ''mode'', JStr mode)];
          p1 = put_if (descriptionValue \<noteq> []) ''description'' (JStr descriptionValue) p0;
          p2 = put_if (m_path m) ''path'' (JStr pathValue) p1;
          p3 = put_if (m_pathOptional m \<and> pathValue \<noteq> []) ''path'' (JStr pathValue) p2;
          p4 = put_if (m_value m) ''value'' (parseLooseValue (op_value_text operation)) p3;
          p5 = put_if (m_keepOrigin m \<and> op_keep_origin operation) ''keep_origin'' (JBool True) p4;
          p6 = put_if (m_from m) ''from'' (JStr fromValue) p5;
          p7 = put_if (\<not> m_to m \<and> toValue \<noteq> []) ''to'' (JStr toValue) p6;
          p8 = put_if (m_to m) ''to'' (JStr toValue) p7;
          p9 = put_if (m_pathAlias m \<and> \<not> truthy (obj_get (lit ''from'') p8) \<and> pathValue \<noteq> []) ''from'' (JStr pathValue) p8;
          p10 = put_if (m_pathAlias m \<and> \<not> truthy (obj_get (lit ''to'') p9) \<and> pathValue \<noteq> []) ''to'' (JStr pathValue) p9;
          conditions = List.map_filter buildConditionPayload (op_conditions operation);
          p11 = put_if (conditions \<noteq> []) ''conditions'' (JArr conditions) p10
      in JObj (put_if (conditions \<noteq> []) ''logic'' (JStr (if op_logic operation = lit ''AND'' then lit ''AND'' else lit ''OR'')) p11))"

definition operationsText :: "ParamOverrideOperation list \<Rightarrow> jstr" where
  "operationsText ops = json_stringify 2 (JObj [(lit ''operations'', JArr (map operationPayload ops))])"

definition buildOperationsJson :: "translator \<Rightarrow> bool \<Rightarrow> ParamOverrideOperation list \<Rightarrow> jstr + jstr" where
  "buildOperationsJson tr validate sourceOperations =
     (let filteredOps = filter (\<lambda>o'. \<not> isOperationBlank o') sourceOperations; message = validateOperations tr filteredOps
      in if filteredOps = [] then Inr []
         else if validate \<and> message \<noteq> [] then Inl message
         else Inr (operationsText filteredOps))"

section \<open>The opening state\<close>

datatype EditMode = Visual | Json
datatype VisualMode = Operations | Legacy

record EditorState =
  es_editMode :: EditMode
  es_visualMode :: VisualMode
  es_legacyValue :: jstr
  es_operations :: "ParamOverrideOperation list"
  es_jsonText :: jstr
  es_jsonError :: jstr

text \<open>The rules of a parsed text, at least one; \<open>None\<close> when a rule or condition is null.\<close>

definition operationsFrom :: "(nat \<Rightarrow> jsnum) \<Rightarrow> jsval list \<Rightarrow> nat \<Rightarrow> (ParamOverrideOperation list \<times> nat) option" where
  "operationsFrom clk vs seed =
     (if vs = [] then Some ([createDefaultOperation clk seed], Suc seed) else mapAlloc (normalizeOperation clk) vs seed)"

definition parseInitialState :: "(nat \<Rightarrow> jsnum) \<Rightarrow> jstr \<Rightarrow> nat \<Rightarrow> (EditorState \<times> nat) option" where
  "parseInitialState clk raw seed =
     (let trimmed' = trim raw;
          dflt = ([createDefaultOperation clk seed], Suc seed);
          state = (\<lambda>em vm legacy ops j e. \<lparr>es_editMode = em, es_visualMode = vm, es_legacyValue = legacy, es_operations = ops,
                     es_jsonText = j, es_jsonError = e\<rparr>)
      in if trimmed' = [] then Some (state Visual Operations [] (fst dflt) [] [], snd dflt)
         else case json_parse trimmed' of
           None \<Rightarrow> Some (state Json Operations [] (fst dflt) raw (lit ''Invalid JSON format''), snd dflt)
         | Some parsed \<Rightarrow>
             let pretty = json_stringify 2 parsed
             in if plain_object parsed then
                  case prop_get (lit ''operations'') parsed of
                    JArr vs \<Rightarrow> map_option (\<lambda>(ops, seed'). (state Visual Operations [] ops pretty [], seed')) (operationsFrom clk vs seed)
                  | _ \<Rightarrow> Some (state Visual Legacy pretty (fst dflt) pretty [], snd dflt)
                else Some (state Json Operations [] (fst dflt) pretty [], snd dflt))"

end
