(* ===== verification/Param_Laws.thy ===== *)
theory Param_Laws
  imports Param_Payload
begin

text \<open>
  What survives of parameter override rules: the texts of loose values, drafts of custom errors and endpoints of
  synchronisations round trip, validation accepts exactly the complete rules, and the text saved for rules opens as rules that are saved as the same text.
\<close>

section \<open>Payload objects\<close>

text \<open>Objects without index keys, in the order their properties were added.\<close>

definition named_obj :: "(jstr \<times> jsval) list \<Rightarrow> bool" where
  "named_obj o' = (distinct (map fst o') \<and> (\<forall>k\<in>fst ` set o'. key_index k = None))"

definition plain_members :: "(jstr \<times> jsval) list \<Rightarrow> bool" where
  "plain_members o' = (named_obj o' \<and> (\<forall>kv\<in>set o'. code_units (fst kv) \<and> json_plain (snd kv)))"

lemma obj_of_named: "named_obj o' \<Longrightarrow> obj_of o' = o'"
proof (induction o' rule: rev_induct)
  case (snoc kv o')
  obtain k v where kv: "kv = (k, v)" by (cases kv)
  with snoc.prems have "named_obj o'" "k \<notin> set (map fst o')" "key_index k = None" by (auto simp: named_obj_def)
  with snoc.IH kv show ?case by (simp add: obj_of_def obj_put_def)
qed (simp add: obj_of_def)

lemma plain_members_plain: "plain_members o' \<Longrightarrow> json_plain (JObj o')"
  by (simp add: plain_members_def obj_of_named)

lemma plain_put:
  assumes "plain_members o'" "key_index (lit k) = None" "b \<Longrightarrow> json_plain v"
  shows "plain_members (put_if b k v o')"
proof (cases b)
  case True
  have "set (obj_put (lit k) v o') \<subseteq> insert (lit k, v) (set o')" by (rule set_obj_put)
  moreover have "distinct (map fst (obj_put (lit k) v o'))"
    by (rule distinct_obj_put) (use assms(1) in \<open>simp add: plain_members_def named_obj_def\<close>)
  ultimately show ?thesis
    using assms True by (fastforce simp: plain_members_def named_obj_def put_if_def lit_code_units)
qed (use assms in \<open>simp add: put_if_def\<close>)

lemma get_put_if: "obj_get k (put_if b k' v o') = (if b \<and> k = lit k' then v else obj_get k o')"
  by (simp add: put_if_def obj_get_def map_of_obj_put opt_or_def)

lemma get_Cons: "obj_get k ((k', v) # o') = (if k = k' then v else obj_get k o')" "obj_get k [] = JUndef"
  by (simp_all add: obj_get_def opt_or_def)

section \<open>Loose values\<close>

lemma trimmed_ends: "\<not> is_ws (hd t) \<Longrightarrow> \<not> is_ws (last t) \<Longrightarrow> trim t = t"
  by (cases "t = []") (simp_all add: trimmed_trim_id trimmed_def)

lemma wrap_items_ends:
  "hd (wrap_items gap depth [l] [r] items) = l \<and> last (wrap_items gap depth [l] [r] items) = r"
  by (auto simp: wrap_items_def Let_def)

lemma trim_json: "json_plain v \<Longrightarrow> trim (json_stringify gap v) = json_stringify gap v"
proof (cases v)
  case (JNum n)
  assume "json_plain v"
  with JNum have n: "is_finite n" "json_number (num_str n) = Some (n, [])" by (simp_all add: prints_back_def)
  from json_number_no_ws [OF n(2)] show ?thesis using JNum n(1) by (simp add: json_stringify_def opt_or_def trim_no_ws)
next
  case (JArr xs)
  then show ?thesis
    using wrap_items_ends [of gap 0 91 93] by (intro trimmed_ends) (simp_all add: json_stringify_def opt_or_def lit_def is_ws_def)
next
  case (JObj o')
  then show ?thesis
    using wrap_items_ends [of gap 0 123 125] by (intro trimmed_ends) (simp_all add: json_stringify_def opt_or_def lit_def is_ws_def)
qed (intro trimmed_ends; simp add: json_stringify_def opt_or_def lit_def is_ws_def json_quote_def)+

text \<open>A text that is no JSON string literal, whose JSON value, if any, is plain.\<close>

definition keeps :: "jstr \<Rightarrow> bool" where
  "keeps s = (code_units s \<and> (case json_parse (trim s) of None \<Rightarrow> True | Some v \<Rightarrow> json_plain v \<and> str_value v = None))"

lemma code_units_trim: "code_units s \<Longrightarrow> code_units (trim s)"
  using set_trim_subset [of s] by (auto simp: code_units_def)

lemma parseLooseValue_trim [simp]: "parseLooseValue (trim s) = parseLooseValue s"
  by (simp add: parseLooseValue_def)

lemma keeps_text:
  assumes "keeps s"
  shows "json_plain (parseLooseValue s) \<and> parseLooseValue (toValueText (parseLooseValue s)) = parseLooseValue s \<and>
    trim (toValueText (parseLooseValue s)) = toValueText (parseLooseValue s) \<and>
    (toValueText (parseLooseValue s) = [] \<longleftrightarrow> trim s = []) \<and> noMessage (toValueText (parseLooseValue s)) = noMessage (trim s)"
proof (cases "json_parse (trim s)")
  case None
  then have "parseLooseValue s = JStr (trim s)" by (simp add: parseLooseValue_def opt_or_def Let_def)
  with None assms show ?thesis
    by (simp add: keeps_def code_units_trim toValueText_def parseLooseValue_def opt_or_def Let_def)
next
  case (Some v)
  have v: "json_plain v" "str_value v = None" using assms Some by (simp_all add: keeps_def)
  have ne: "trim s \<noteq> []" using json_parse_not_blank [OF Some] by simp
  have p: "parseLooseValue s = v" using Some ne by (simp add: parseLooseValue_def opt_or_def)
  have t: "toValueText v = json_stringify 0 v"
    using v by (cases v) (simp_all add: toValueText_def str_value_def)
  have rt: "json_parse (json_stringify 0 v) = Some v" using v(1) by (rule json_roundtrip)
  then have ne': "json_stringify 0 v \<noteq> []" using json_parse_not_blank by fastforce
  show ?thesis
    using v ne ne' rt Some by (simp add: p t trim_json parseLooseValue_def opt_or_def noMessage_def)
qed

section \<open>Modes\<close>

lemma metaOf_in: "(m, M) \<in> set MODE_META \<Longrightarrow> metaOf m = M"
proof -
  have "distinct (map fst MODE_META)" by (simp add: MODE_META_def lit_def)
  then show "(m, M) \<in> set MODE_META \<Longrightarrow> metaOf m = M" by (simp add: metaOf_def opt_or_def)
qed

lemma metaOf_all: "list_all P (map snd MODE_META) \<Longrightarrow> P (metaOf m)"
proof -
  assume a: "list_all P (map snd MODE_META)"
  have "\<exists>k. (k, metaOf m) \<in> set MODE_META"
  proof (cases "map_of MODE_META m")
    case None
    moreover have "(lit ''set'', meta [''path'', ''value'', ''keepOrigin'']) \<in> set MODE_META" by (simp add: MODE_META_def)
    ultimately show ?thesis by (auto simp: metaOf_def opt_or_def)
  next
    case (Some M)
    then show ?thesis using map_of_SomeD by (fastforce simp: metaOf_def opt_or_def)
  qed
  with a show ?thesis by (auto simp: list_all_iff)
qed

lemma alias_meta:
  "m_pathAlias (metaOf m) \<Longrightarrow>
     m_from (metaOf m) \<and> m_to (metaOf m) \<and> \<not> m_path (metaOf m) \<and> \<not> m_pathOptional (metaOf m) \<and> \<not> m_value (metaOf m)"
  using metaOf_all [of "\<lambda>M. m_pathAlias M \<longrightarrow> m_from M \<and> m_to M \<and> \<not> m_path M \<and> \<not> m_pathOptional M \<and> \<not> m_value M" m]
  by (simp add: MODE_META_def meta_def)

lemma required_meta:
  "m \<in> set FROM_REQUIRED_MODES \<Longrightarrow> m_from (metaOf m)"
  "m \<in> set TO_REQUIRED_MODES \<Longrightarrow> m_to (metaOf m)"
  "m \<in> set VALUE_REQUIRED_MODES \<Longrightarrow> m_value (metaOf m)"
proof -
  have "list_all (\<lambda>m. m_from (metaOf m)) FROM_REQUIRED_MODES" by code_simp
  then show "m \<in> set FROM_REQUIRED_MODES \<Longrightarrow> m_from (metaOf m)" by (simp add: list_all_iff)
  have "list_all (\<lambda>m. m_to (metaOf m)) TO_REQUIRED_MODES" by code_simp
  then show "m \<in> set TO_REQUIRED_MODES \<Longrightarrow> m_to (metaOf m)" by (simp add: list_all_iff)
  have "list_all (\<lambda>m. m_value (metaOf m)) VALUE_REQUIRED_MODES" by code_simp
  then show "m \<in> set VALUE_REQUIRED_MODES \<Longrightarrow> m_value (metaOf m)" by (simp add: list_all_iff)
qed

lemma set_meta: "m_path (metaOf (lit ''set''))"
  by (simp add: metaOf_def MODE_META_def meta_def opt_or_def lit_def)

lemma mode_not_empty: "m \<in> set OPERATION_MODE_VALUES \<Longrightarrow> m \<noteq> []" "m \<in> set CONDITION_MODE_VALUES \<Longrightarrow> m \<noteq> []"
  by (auto simp: OPERATION_MODE_VALUES_def OPERATION_MODE_OPTIONS_def CONDITION_MODE_VALUES_def CONDITION_MODE_OPTIONS_def lit_def)

lemma payload_keys [simp]:
  "key_index (lit ''description'') = None" "key_index (lit ''path'') = None" "key_index (lit ''value'') = None"
  "key_index (lit ''keep_origin'') = None" "key_index (lit ''from'') = None" "key_index (lit ''to'') = None"
  "key_index (lit ''conditions'') = None" "key_index (lit ''logic'') = None" "key_index (lit ''mode'') = None"
  "key_index (lit ''invert'') = None" "key_index (lit ''pass_missing_key'') = None" "key_index (lit ''message'') = None"
  "key_index (lit ''status_code'') = None" "key_index (lit ''code'') = None" "key_index (lit ''type'') = None"
  "key_index (lit ''skip_retry'') = None" "key_index (lit ''operations'') = None"
  by (simp_all add: key_index_def lit_def is_digit_def)

section \<open>Conditions\<close>

definition conditionKept :: "ParamOverrideCondition \<Rightarrow> bool" where
  "conditionKept c = (c_mode c \<in> set CONDITION_MODE_VALUES \<and> code_units (c_path c) \<and> keeps (c_value_text c))"

lemma modeField_known: "prop_get (lit ''mode'') v = JStr m \<Longrightarrow> m \<in> set modes \<Longrightarrow> modeField modes d v = m"
  by (simp add: modeField_def)

lemma condition_known_units: "m \<in> set CONDITION_MODE_VALUES \<Longrightarrow> code_units m"
  by (auto simp: CONDITION_MODE_VALUES_def CONDITION_MODE_OPTIONS_def lit_code_units)

lemma operation_known_units: "m \<in> set OPERATION_MODE_VALUES \<Longrightarrow> code_units m"
  by (auto simp: OPERATION_MODE_VALUES_def OPERATION_MODE_OPTIONS_def lit_code_units)

lemma conditionPayload_plain:
  assumes "conditionKept c" "buildConditionPayload c = Some v"
  shows "json_plain v"
proof -
  have "plain_members [(lit ''path'', JStr (trim (c_path c))), (lit ''mode'', JStr (c_mode c)), (lit ''value'', parseLooseValue (c_value_text c))]"
    using assms(1) keeps_text [of "c_value_text c"]
    by (simp add: plain_members_def named_obj_def conditionKept_def lit_code_units code_units_trim condition_known_units lit_eq_iff)
  then show ?thesis
    using assms mode_not_empty(2) [of "c_mode c"]
    by (auto simp: buildConditionPayload_def Let_def conditionKept_def split: if_splits intro!: plain_members_plain plain_put)
qed

lemma condition_roundtrip:
  assumes "conditionKept c" "buildConditionPayload c = Some v"
  shows "\<exists>c'. normalizeCondition clk v seed = Some (c', Suc seed) \<and> buildConditionPayload c' = Some v \<and> conditionFilled c'"
proof -
  have k: "c_mode c \<noteq> []" "c_mode c \<in> set CONDITION_MODE_VALUES" "keeps (c_value_text c)"
    using assms(1) mode_not_empty(2) by (simp_all add: conditionKept_def)
  have p: "trim (c_path c) \<noteq> []" using assms(2) by (auto simp: buildConditionPayload_def Let_def split: if_splits)
  define c' where "c' = c\<lparr>c_id := nextLocalId clk seed, c_path := trim (c_path c),
    c_value_text := toValueText (parseLooseValue (c_value_text c))\<rparr>"
  have "normalizeCondition clk v seed = Some (c', Suc seed)"
    using assms(2) k p
    by (auto simp: buildConditionPayload_def Let_def normalizeCondition_def argument_def strField_def isTrue_def
        modeField_known get_put_if get_Cons lit_eq_iff c'_def)
  moreover have "buildConditionPayload c' = Some v"
    using assms(2) k(1) p keeps_text [OF k(3)] by (simp add: buildConditionPayload_def c'_def)
  moreover have "conditionFilled c'" using p by (simp add: conditionFilled_def c'_def)
  ultimately show ?thesis by blast
qed

section \<open>Rules\<close>

definition ruleKept :: "ParamOverrideOperation \<Rightarrow> bool" where
  "ruleKept op =
     (op_mode op \<in> set OPERATION_MODE_VALUES \<and> code_units (op_description op) \<and> code_units (op_path op) \<and>
      code_units (op_from op) \<and> code_units (op_to op) \<and> (m_value (metaOf (op_mode op)) \<longrightarrow> keeps (op_value_text op)) \<and>
      list_all conditionKept (op_conditions op))"

lemma mapAlloc_all2:
  assumes "\<And>x seed. x \<in> set xs \<Longrightarrow> \<exists>y seed'. f x seed = Some (y, seed') \<and> Q x y"
  shows "\<exists>ys seed'. mapAlloc f xs seed = Some (ys, seed') \<and> list_all2 Q xs ys"
  using assms
proof (induction xs arbitrary: seed)
  case (Cons x xs)
  obtain y s1 where y: "f x seed = Some (y, s1)" "Q x y" using Cons.prems by (meson list.set_intros(1))
  obtain ys s2 where "mapAlloc f xs s1 = Some (ys, s2)" "list_all2 Q xs ys"
    using Cons.IH [of s1] Cons.prems by (meson list.set_intros(2))
  with y show ?case by simp
qed simp

lemma map_filter_all2: "list_all2 (\<lambda>x y. f y = Some x) xs ys \<Longrightarrow> List.map_filter f ys = xs"
  by (induction xs ys rule: list_all2_induct) (simp_all add: List.map_filter_simps)

lemma map_filter_member: "v \<in> set (List.map_filter f xs) \<longleftrightarrow> (\<exists>x\<in>set xs. f x = Some v)"
  by (induction xs) (auto simp: List.map_filter_simps split: option.splits)

lemma conditions_roundtrip:
  assumes "list_all conditionKept cs" "vs = List.map_filter buildConditionPayload cs"
  shows "(\<forall>v\<in>set vs. json_plain v) \<and>
    (\<exists>cs' seed'. mapAlloc (normalizeCondition clk) vs seed = Some (cs', seed') \<and> List.map_filter buildConditionPayload cs' = vs)"
proof -
  have src: "\<exists>c. conditionKept c \<and> buildConditionPayload c = Some v" if "v \<in> set vs" for v
    using that assms by (auto simp: map_filter_member list_all_iff)
  have "\<exists>cs' seed'. mapAlloc (normalizeCondition clk) vs seed = Some (cs', seed') \<and>
      list_all2 (\<lambda>v c'. buildConditionPayload c' = Some v) vs cs'"
    by (rule mapAlloc_all2) (meson src condition_roundtrip)
  then show ?thesis using src conditionPayload_plain map_filter_all2 by blast
qed

text \<open>The fields of a rule that are written.\<close>

definition writtenFrom :: "ParamOverrideOperation \<Rightarrow> jstr" where
  "writtenFrom op = (let m = metaOf (modeOf op); f = trim (op_from op) in
     if m_pathAlias m \<and> f = [] then trim (op_path op) else if m_from m then f else [])"

definition writtenTo :: "ParamOverrideOperation \<Rightarrow> jstr" where
  "writtenTo op = (let m = metaOf (modeOf op); f = trim (op_to op) in if m_pathAlias m \<and> f = [] then trim (op_path op) else f)"

definition writtenPath :: "ParamOverrideOperation \<Rightarrow> jstr" where
  "writtenPath op = (let m = metaOf (modeOf op) in if m_path m \<or> m_pathOptional m then trim (op_path op) else [])"

definition payloadObj :: "ParamOverrideOperation \<Rightarrow> (jstr \<times> jsval) list" where
  "payloadObj op = (case operationPayload op of JObj o' \<Rightarrow> o' | _ \<Rightarrow> [])"

lemma payload_object: "operationPayload op = JObj (payloadObj op)"
  by (simp add: payloadObj_def operationPayload_def Let_def)

lemma payload_gets:
  "strField ''path'' (operationPayload op) = writtenPath op"
  "strField ''from'' (operationPayload op) = writtenFrom op"
  "strField ''to'' (operationPayload op) = writtenTo op"
  "strField ''description'' (operationPayload op) = trim (op_description op)"
  "prop_get (lit ''mode'') (operationPayload op) = JStr (modeOf op)"
  "prop_get (lit ''value'') (operationPayload op) =
     (if m_value (metaOf (modeOf op)) then parseLooseValue (op_value_text op) else JUndef)"
  "isTrue ''keep_origin'' (operationPayload op) = (m_keepOrigin (metaOf (modeOf op)) \<and> op_keep_origin op)"
  "prop_get (lit ''conditions'') (operationPayload op) =
     (if List.map_filter buildConditionPayload (op_conditions op) = [] then JUndef
      else JArr (List.map_filter buildConditionPayload (op_conditions op)))"
  "prop_get (lit ''logic'') (operationPayload op) =
     (if List.map_filter buildConditionPayload (op_conditions op) = [] then JUndef
      else JStr (if op_logic op = lit ''AND'' then lit ''AND'' else lit ''OR''))"
  using alias_meta [of "modeOf op"]
  by (auto simp: operationPayload_def Let_def get_put_if get_Cons lit_eq_iff strField_def isTrue_def writtenPath_def writtenFrom_def writtenTo_def)

text \<open>The payload in terms of the written fields.\<close>

definition writtenPayload :: "jstr \<Rightarrow> jstr \<Rightarrow> jstr \<Rightarrow> jsval \<Rightarrow> bool \<Rightarrow> jstr \<Rightarrow> jstr \<Rightarrow> jsval list \<Rightarrow> jstr \<Rightarrow> jsval" where
  "writtenPayload mode desc path v keep from to conditions logic =
     (let m = metaOf mode;
          p1 = put_if (desc \<noteq> []) ''description'' (JStr desc) [(lit ''mode'', JStr mode)];
          p2 = put_if (m_path m \<or> m_pathOptional m \<and> path \<noteq> []) ''path'' (JStr path) p1;
          p3 = put_if (m_value m) ''value'' v p2;
          p4 = put_if (m_keepOrigin m \<and> keep) ''keep_origin'' (JBool True) p3;
          p5 = put_if (m_from m) ''from'' (JStr from) p4;
          p6 = put_if (m_to m \<or> to \<noteq> []) ''to'' (JStr to) p5;
          p7 = put_if (conditions \<noteq> []) ''conditions'' (JArr conditions) p6
      in JObj (put_if (conditions \<noteq> []) ''logic'' (JStr (if logic = lit ''AND'' then lit ''AND'' else lit ''OR'')) p7))"

lemma meta_path_once: "\<not> (m_path (metaOf m) \<and> m_pathOptional (metaOf m))"
  using metaOf_all [of "\<lambda>M. \<not> (m_path M \<and> m_pathOptional M)" m] by (simp add: MODE_META_def meta_def)

lemma alias_puts:
  assumes "o' = put_if b1 ''keep_origin'' k (put_if b2 ''description'' d [(lit ''mode'', JStr m)])"
  shows "put_if bt ''to'' (JStr p) (put_if bf ''from'' (JStr p) (put_if True ''to'' (JStr t) (put_if True ''from'' (JStr f) o')))
    = put_if True ''to'' (JStr (if bt then p else t)) (put_if True ''from'' (JStr (if bf then p else f)) o')"
  unfolding assms by (cases b1; cases b2; cases bt; cases bf) (simp_all add: put_if_def obj_put_def lit_eq_iff)

lemma payload_written:
  "operationPayload op = writtenPayload (modeOf op) (trim (op_description op)) (writtenPath op) (parseLooseValue (op_value_text op))
     (op_keep_origin op) (writtenFrom op) (writtenTo op) (List.map_filter buildConditionPayload (op_conditions op)) (op_logic op)"
proof (cases "m_pathAlias (metaOf (modeOf op))")
  case True
  note a = alias_meta [OF True]
  have off: "put_if False k v o' = o'" for k v o' by (simp add: put_if_def)
  show ?thesis
    using True a alias_puts [OF refl]
    by (simp add: operationPayload_def writtenPayload_def Let_def writtenFrom_def writtenTo_def writtenPath_def off get_put_if get_Cons lit_eq_iff
        cong: if_cong)
next
  case False
  have "put_if False k v o' = o'" for k v o' by (simp add: put_if_def)
  then show ?thesis
    using False meta_path_once [of "modeOf op"]
    by (cases "m_path (metaOf (modeOf op))"; cases "m_to (metaOf (modeOf op))"; cases "m_pathOptional (metaOf (modeOf op))";
       simp add: operationPayload_def writtenPayload_def Let_def writtenFrom_def writtenTo_def writtenPath_def; cases "m_from (metaOf (modeOf op))"; simp)
qed

lemma payload_plain:
  assumes "ruleKept op"
  shows "json_plain (operationPayload op)"
proof -
  have k: "op_mode op \<in> set OPERATION_MODE_VALUES" "modeOf op = op_mode op"
    using assms mode_not_empty(1) by (auto simp: ruleKept_def modeOf_def)
  have u: "code_units (writtenPath op)" "code_units (writtenFrom op)" "code_units (writtenTo op)" "code_units (trim (op_description op))"
    using assms by (auto simp: ruleKept_def writtenPath_def writtenFrom_def writtenTo_def Let_def code_units_trim) (simp_all add: code_units_def)
  have "plain_members [(lit ''mode'', JStr (op_mode op))]"
    using k(1) by (simp add: plain_members_def named_obj_def lit_code_units operation_known_units)
  moreover have "\<forall>v\<in>set (List.map_filter buildConditionPayload (op_conditions op)). json_plain v"
    using assms conditions_roundtrip [OF _ refl, of "op_conditions op"] by (simp add: ruleKept_def)
  moreover have "m_value (metaOf (op_mode op)) \<Longrightarrow> json_plain (parseLooseValue (op_value_text op))"
    using assms keeps_text by (simp add: ruleKept_def)
  ultimately show ?thesis
    unfolding payload_written writtenPayload_def Let_def k(2)
    using u by (intro plain_members_plain plain_put) (simp_all add: lit_code_units)
qed

lemma written_trim [simp]:
  "trim (writtenPath op) = writtenPath op" "trim (writtenFrom op) = writtenFrom op" "trim (writtenTo op) = writtenTo op"
  by (simp_all add: writtenPath_def writtenFrom_def writtenTo_def Let_def)

lemma missing_values: "toValueText JUndef = []" "logicOf JUndef = lit ''OR''"
  by (simp_all add: toValueText_def logicOf_def js_or_def ascii_upper_def lit_def)

lemma logicOf_written: "logicOf (JStr (lit ''AND'')) = lit ''AND''" "logicOf (JStr (lit ''OR'')) = lit ''OR''"
  by (simp_all add: logicOf_def js_or_def ascii_upper_def lit_def)

text \<open>The rule read from the payload of a rule, with the conditions read from its conditions.\<close>

definition reopened :: "LocalId \<Rightarrow> ParamOverrideCondition list \<Rightarrow> ParamOverrideOperation \<Rightarrow> ParamOverrideOperation" where
  "reopened i cs op =
     \<lparr>op_id = i, op_description = trim (op_description op), op_path = writtenPath op, op_mode = op_mode op,
      op_from = writtenFrom op, op_to = writtenTo op,
      op_value_text = (if m_value (metaOf (op_mode op)) then toValueText (parseLooseValue (op_value_text op)) else []),
      op_keep_origin = (m_keepOrigin (metaOf (op_mode op)) \<and> op_keep_origin op),
      op_logic = (if cs \<noteq> [] \<and> op_logic op = lit ''AND'' then lit ''AND'' else lit ''OR''), op_conditions = cs\<rparr>"

lemma reopened_fields [simp]:
  "op_description (reopened i cs op) = trim (op_description op)" "op_path (reopened i cs op) = writtenPath op"
  "op_mode (reopened i cs op) = op_mode op" "op_from (reopened i cs op) = writtenFrom op" "op_to (reopened i cs op) = writtenTo op"
  "op_value_text (reopened i cs op) = (if m_value (metaOf (op_mode op)) then toValueText (parseLooseValue (op_value_text op)) else [])"
  "op_keep_origin (reopened i cs op) = (m_keepOrigin (metaOf (op_mode op)) \<and> op_keep_origin op)"
  "op_logic (reopened i cs op) = (if cs \<noteq> [] \<and> op_logic op = lit ''AND'' then lit ''AND'' else lit ''OR'')"
  "op_conditions (reopened i cs op) = cs" "op_id (reopened i cs op) = i" "modeOf (reopened i cs op) = modeOf op"
  by (simp_all add: reopened_def modeOf_def)

lemma written_reopened [simp]:
  "writtenPath (reopened i cs op) = writtenPath op" "writtenFrom (reopened i cs op) = writtenFrom op"
  "writtenTo (reopened i cs op) = writtenTo op"
  using alias_meta [of "modeOf op"] by (simp_all add: writtenPath_def writtenFrom_def writtenTo_def Let_def)

lemma writtenPayload_cong:
  assumes "m_value (metaOf m) \<Longrightarrow> v = v'" "m_keepOrigin (metaOf m) \<Longrightarrow> k = k'" "vs \<noteq> [] \<Longrightarrow> (l = lit ''AND'') = (l' = lit ''AND'')"
  shows "writtenPayload m d p v k f t vs l = writtenPayload m d p v' k' f t vs l'"
  using assms
  by (cases "m_value (metaOf m)"; cases "m_keepOrigin (metaOf m)"; cases "vs = []") (simp_all add: writtenPayload_def put_if_def)

lemma normalize_payload:
  assumes "ruleKept op"
  shows "\<exists>cs seed'. normalizeOperation clk (operationPayload op) seed = Some (reopened (nextLocalId clk seed) cs op, seed') \<and>
    List.map_filter buildConditionPayload cs = List.map_filter buildConditionPayload (op_conditions op) \<and>
    (cs = [] \<longleftrightarrow> List.map_filter buildConditionPayload (op_conditions op) = [])"
proof -
  let ?vs = "List.map_filter buildConditionPayload (op_conditions op)"
  have k: "op_mode op \<in> set OPERATION_MODE_VALUES" "modeOf op = op_mode op"
    using assms mode_not_empty(1) by (auto simp: ruleKept_def modeOf_def)
  have m: "modeField OPERATION_MODE_VALUES ''set'' (operationPayload op) = op_mode op"
    using k by (intro modeField_known) (simp_all add: payload_gets)
  have arg: "argument (operationPayload op) = Some (operationPayload op)" by (simp add: argument_def payload_object)
  obtain cs seed' where cs: "mapAlloc (normalizeCondition clk) ?vs (Suc seed) = Some (cs, seed')" "List.map_filter buildConditionPayload cs = ?vs"
    using conditions_roundtrip [OF _ refl, of "op_conditions op" clk "Suc seed"] assms by (auto simp: ruleKept_def)
  have e: "cs = [] \<longleftrightarrow> ?vs = []" using cs by (cases ?vs) (auto simp: List.map_filter_simps split: bind_splits)
  have "normalizeOperation clk (operationPayload op) seed = Some (reopened (nextLocalId clk seed) cs op, seed')"
  proof (cases "?vs = []")
    case True
    then have "cs = []" "seed' = Suc seed" using cs e by simp_all
    with True show ?thesis
      using k(2) by (simp add: normalizeOperation_def arg m payload_gets reopened_def missing_values)
  next
    case False
    then show ?thesis
      using k(2) e cs(1) by (simp add: normalizeOperation_def arg m payload_gets reopened_def logicOf_written missing_values)
  qed
  with cs(2) e show ?thesis by blast
qed

lemma payload_reopened:
  assumes "ruleKept op" "List.map_filter buildConditionPayload cs = List.map_filter buildConditionPayload (op_conditions op)"
    "cs = [] \<longleftrightarrow> List.map_filter buildConditionPayload (op_conditions op) = []"
  shows "operationPayload (reopened i cs op) = operationPayload op"
proof -
  have k: "modeOf op = op_mode op" using assms(1) mode_not_empty(1) by (auto simp: ruleKept_def modeOf_def)
  have v: "m_value (metaOf (op_mode op)) \<Longrightarrow> parseLooseValue (toValueText (parseLooseValue (op_value_text op))) = parseLooseValue (op_value_text op)"
    using assms(1) keeps_text by (simp add: ruleKept_def)
  show ?thesis
    unfolding payload_written reopened_fields written_reopened trim_trim assms(2)
    by (rule writtenPayload_cong) (use k v assms(3) in \<open>auto simp: lit_eq_iff\<close>)
qed

text \<open>What a rule needs: the checks without their order and repetitions.\<close>

definition ruleComplete :: "ParamOverrideOperation \<Rightarrow> bool" where
  "ruleComplete op =
     (let mode = modeOf op; m = metaOf mode; path = trim (op_path op); raw = trim (op_value_text op); aliased = (m_pathAlias m \<and> path \<noteq> []) in
      (m_path m \<longrightarrow> path \<noteq> []) \<and> (mode \<in> set FROM_REQUIRED_MODES \<longrightarrow> trim (op_from op) \<noteq> [] \<or> aliased) \<and>
      (mode \<in> set TO_REQUIRED_MODES \<longrightarrow> trim (op_to op) \<noteq> [] \<or> aliased) \<and> (mode \<in> set VALUE_REQUIRED_MODES \<longrightarrow> raw \<noteq> []) \<and>
      (mode = lit ''return_error'' \<longrightarrow> \<not> noMessage raw) \<and>
      (mode = lit ''pass_headers'' \<longrightarrow> parsePassHeaderNames (parseLooseValue raw) \<noteq> []))"

lemma value_modes: "lit ''return_error'' \<in> set VALUE_REQUIRED_MODES" "lit ''prune_objects'' \<in> set VALUE_REQUIRED_MODES"
  "lit ''pass_headers'' \<in> set VALUE_REQUIRED_MODES"
  by (simp_all add: VALUE_REQUIRED_MODES_def)

lemma ruleProblem_None: "ruleProblem op = None \<longleftrightarrow> ruleComplete op"
  unfolding ruleProblem_def ruleComplete_def Let_def using value_modes by (auto split: if_splits)

lemma complete_written:
  assumes "ruleComplete op"
  shows "m_path (metaOf (modeOf op)) \<Longrightarrow> writtenPath op \<noteq> []" "modeOf op \<in> set FROM_REQUIRED_MODES \<Longrightarrow> writtenFrom op \<noteq> []"
    "modeOf op \<in> set TO_REQUIRED_MODES \<Longrightarrow> writtenTo op \<noteq> []"
  using assms required_meta(1,2) [of "modeOf op"]
  by (auto simp: ruleComplete_def Let_def writtenPath_def writtenFrom_def writtenTo_def)

lemma complete_reopened:
  assumes "ruleKept op" "ruleComplete op"
  shows "ruleComplete (reopened i cs op)" "\<not> isOperationBlank (reopened i cs op)"
proof -
  have k: "modeOf op = op_mode op" using assms(1) mode_not_empty(1) by (auto simp: ruleKept_def modeOf_def)
  have v: "op_mode op \<in> set VALUE_REQUIRED_MODES \<Longrightarrow> m_value (metaOf (op_mode op)) \<and> keeps (op_value_text op)"
    using assms(1) required_meta(3) by (simp add: ruleKept_def)
  note w = complete_written [OF assms(2), unfolded k]
  show "\<not> isOperationBlank (reopened i cs op)" using w(1) set_meta by (auto simp: isOperationBlank_def)
  have t: "m_value (metaOf (op_mode op)) \<and> toValueText (parseLooseValue (op_value_text op)) \<noteq> [] \<and>
      trim (toValueText (parseLooseValue (op_value_text op))) = toValueText (parseLooseValue (op_value_text op)) \<and>
      (op_mode op = lit ''return_error'' \<longrightarrow> \<not> noMessage (toValueText (parseLooseValue (op_value_text op)))) \<and>
      (op_mode op = lit ''pass_headers'' \<longrightarrow> parsePassHeaderNames (parseLooseValue (toValueText (parseLooseValue (op_value_text op)))) \<noteq> [])"
    if "op_mode op \<in> set VALUE_REQUIRED_MODES"
    using that v keeps_text [of "op_value_text op"] assms(2) k by (simp add: ruleComplete_def Let_def)
  show "ruleComplete (reopened i cs op)"
  proof (cases "op_mode op \<in> set VALUE_REQUIRED_MODES")
    case True
    then show ?thesis using t [OF True] w unfolding ruleComplete_def Let_def reopened_fields written_trim k
      by (simp add: required_meta(3) value_modes)
  next
    case False
    then have "op_mode op \<noteq> lit ''return_error''" "op_mode op \<noteq> lit ''pass_headers''" using value_modes by auto
    with False show ?thesis using w unfolding ruleComplete_def Let_def reopened_fields written_trim k by simp
  qed
qed

section \<open>Validation\<close>

lemma validateFrom_first:
  "list_all ruleComplete xs \<Longrightarrow> ruleProblem op = Some key \<Longrightarrow> validateFrom tr i (xs @ op # ys) = tr key (Some (i + length xs + 1))"
  by (induction xs arbitrary: i) (auto simp: ruleProblem_None [symmetric])

lemma validate_ok:
  assumes "\<And>k l. tr k l \<noteq> []"
  shows "validateOperations tr ops = [] \<longleftrightarrow> list_all ruleComplete ops"
proof -
  have "validateFrom tr i ops = [] \<longleftrightarrow> list_all ruleComplete ops" for i
    using assms by (induction ops arbitrary: i) (auto simp: ruleProblem_None [symmetric] split: option.splits)
  then show ?thesis by (simp add: validateOperations_def)
qed

section \<open>Opening a saved text\<close>

lemma operationsText_parse:
  assumes "list_all ruleKept ops"
  shows "json_parse (operationsText ops) = Some (JObj [(lit ''operations'', JArr (map operationPayload ops))])"
    "trim (operationsText ops) = operationsText ops"
proof -
  have "json_plain (JObj [(lit ''operations'', JArr (map operationPayload ops))])"
    using assms payload_plain
    by (intro plain_members_plain) (simp add: plain_members_def named_obj_def lit_code_units list_all_iff)
  then show "json_parse (operationsText ops) = Some (JObj [(lit ''operations'', JArr (map operationPayload ops))])"
      "trim (operationsText ops) = operationsText ops"
    unfolding operationsText_def by (simp_all only: json_roundtrip trim_json)
qed

lemma rules_reopen:
  assumes "list_all ruleKept ops" "list_all ruleComplete ops" "ops \<noteq> []"
  shows "\<exists>ops' seed'. operationsFrom clk (map operationPayload ops) seed = Some (ops', seed') \<and> map operationPayload ops' = map operationPayload ops \<and>
    list_all ruleComplete ops' \<and> list_all (\<lambda>op. \<not> isOperationBlank op) ops'"
proof -
  let ?Q = "\<lambda>v op'. operationPayload op' = v \<and> ruleComplete op' \<and> \<not> isOperationBlank op'"
  have "\<exists>op' s'. normalizeOperation clk v s = Some (op', s') \<and> ?Q v op'" if "v \<in> set (map operationPayload ops)" for v s
  proof -
    from that assms obtain op where op: "v = operationPayload op" "ruleKept op" "ruleComplete op" by (auto simp: list_all_iff)
    with normalize_payload [OF op(2)] payload_reopened [OF op(2)] complete_reopened [OF op(2,3)] show ?thesis by metis
  qed
  then obtain ops' seed' where o: "mapAlloc (normalizeOperation clk) (map operationPayload ops) seed = Some (ops', seed')"
      "list_all2 ?Q (map operationPayload ops) ops'"
    using mapAlloc_all2 [of "map operationPayload ops" "normalizeOperation clk" ?Q seed] by blast
  have "map operationPayload ops' = map operationPayload ops \<and> list_all ruleComplete ops' \<and> list_all (\<lambda>op. \<not> isOperationBlank op) ops'"
    using o(2) by (auto simp: list_all2_conv_all_nth list_all_length intro!: nth_equalityI)
  with o(1) assms(3) show ?thesis by (simp add: operationsFrom_def)
qed

lemma build_complete:
  assumes "\<And>k l. tr k l \<noteq> []"
  shows "buildOperationsJson tr True ops = Inr saved \<and> saved \<noteq> [] \<longleftrightarrow>
    filter (\<lambda>op. \<not> isOperationBlank op) ops \<noteq> [] \<and> list_all ruleComplete (filter (\<lambda>op. \<not> isOperationBlank op) ops) \<and>
    saved = operationsText (filter (\<lambda>op. \<not> isOperationBlank op) ops)"
proof -
  have "operationsText xs \<noteq> []" for xs by (simp add: operationsText_def json_stringify_def opt_or_def wrap_items_def lit_def Let_def)
  then show ?thesis using validate_ok [OF assms] by (auto simp: buildOperationsJson_def Let_def)
qed

lemma reopen_same_text:
  assumes tr: "\<And>k l. tr k l \<noteq> []" and b: "buildOperationsJson tr True ops = Inr saved" "saved \<noteq> []"
    and k: "list_all ruleKept (filter (\<lambda>op. \<not> isOperationBlank op) ops)"
  shows "\<exists>st seed'. parseInitialState clk saved seed = Some (st, seed') \<and> es_editMode st = Visual \<and> es_visualMode st = Operations \<and>
    es_jsonText st = saved \<and> es_jsonError st = [] \<and> length (es_operations st) = length (filter (\<lambda>op. \<not> isOperationBlank op) ops) \<and>
    buildOperationsJson tr True (es_operations st) = Inr saved"
proof -
  let ?f = "filter (\<lambda>op. \<not> isOperationBlank op) ops"
  have f: "?f \<noteq> []" "list_all ruleComplete ?f" "saved = operationsText ?f" using build_complete [of tr ops saved, OF tr] b by simp_all
  obtain ops' seed' where o: "operationsFrom clk (map operationPayload ?f) seed = Some (ops', seed')"
      "map operationPayload ops' = map operationPayload ?f" "list_all ruleComplete ops'" "list_all (\<lambda>op. \<not> isOperationBlank op) ops'"
    using rules_reopen [OF k f(2,1)] by blast
  have l: "length ops' = length ?f" using o(2) by (metis length_map)
  have t: "operationsText ops' = saved" using o(2) f(3) by (simp only: operationsText_def)
  have "filter (\<lambda>op. \<not> isOperationBlank op) ops' = ops'" using o(4) by (simp add: list_all_iff)
  moreover have "ops' \<noteq> []" using l f(1) by auto
  ultimately have "buildOperationsJson tr True ops' = Inr saved"
    using validate_ok [OF tr] o(3) t by (simp add: buildOperationsJson_def Let_def)
  moreover have "json_parse saved = Some (JObj [(lit ''operations'', JArr (map operationPayload ?f))])" "trim saved = saved"
    using operationsText_parse [OF k] f(3) by simp_all
  ultimately show ?thesis
    using b(2) o(1) l f(3)
    by (auto simp: parseInitialState_def Let_def plain_object_def get_Cons operationsText_def intro!: exI)
qed

end
