(* ===== verification/Param_Editor.thy ===== *)
theory Param_Editor
  imports Param_Laws
begin

text \<open>
  The parameter override dialog (\<open>param-override-editor-dialog.tsx\<close>): templates, the state of the component, its handlers,
  and the states an opened dialog can get into.  \<open>saved\<close> records what is passed to \<open>onSave\<close>, with the mode it was saved in; \<open>toasts\<close> the messages shown.
  A handler that may throw returns \<open>None\<close> when it does.
\<close>

section \<open>Templates\<close>

definition js_text :: "string \<Rightarrow> jsval" where
  "js_text s = JStr (lit s)"

definition js_object :: "(string \<times> jsval) list \<Rightarrow> jsval" where
  "js_object kvs = JObj (map (\<lambda>(k, v). (lit k, v)) kvs)"

definition LEGACY_TEMPLATE :: jsval where
  "LEGACY_TEMPLATE = js_object [(''temperature'', JNum (jint 0)), (''max_tokens'', JNum (jint 1000))]"

definition OPERATION_TEMPLATE :: jsval where
  "OPERATION_TEMPLATE = js_object [(''operations'', JArr [js_object
     [(''description'', js_text ''Set default temperature for openai/* models.''), (''path'', js_text ''temperature''),
      (''mode'', js_text ''set''), (''value'', JNum (rnd (7 / 10))),
      (''conditions'', JArr [js_object [(''path'', js_text ''model''), (''mode'', js_text ''prefix''), (''value'', js_text ''openai/'')]]),
      (''logic'', js_text ''AND'')]])]"

definition HEADER_PASSTHROUGH_TEMPLATE :: jsval where
  "HEADER_PASSTHROUGH_TEMPLATE = js_object [(''operations'', JArr [js_object
     [(''description'', js_text ''Pass through X-Request-Id header to upstream.''), (''mode'', js_text ''pass_headers''),
      (''value'', JArr [js_text ''X-Request-Id'']), (''keep_origin'', JBool True)]])]"

definition GEMINI_IMAGE_4K_TEMPLATE :: jsval where
  "GEMINI_IMAGE_4K_TEMPLATE = js_object [(''operations'', JArr [js_object
     [(''description'', js_text ''Set imageSize to 4K when model contains gemini/image and ends with 4k.''), (''mode'', js_text ''set''),
      (''path'', js_text ''generationConfig.imageConfig.imageSize''), (''value'', js_text ''4K''),
      (''conditions'', JArr (map (\<lambda>(m, v). js_object [(''path'', js_text ''original_model''), (''mode'', js_text m), (''value'', js_text v)])
         [(''contains'', ''gemini''), (''contains'', ''image''), (''suffix'', ''4k'')])),
      (''logic'', js_text ''AND'')]])]"

definition CODEX_CLI_HEADER_PASSTHROUGH_HEADERS :: "string list" where
  "CODEX_CLI_HEADER_PASSTHROUGH_HEADERS =
     [''Originator'', ''Session_id'', ''User-Agent'', ''X-Codex-Beta-Features'', ''X-Codex-Turn-Metadata'']"

definition CLAUDE_CLI_HEADER_PASSTHROUGH_HEADERS :: "string list" where
  "CLAUDE_CLI_HEADER_PASSTHROUGH_HEADERS =
     [''X-Stainless-Arch'', ''X-Stainless-Lang'', ''X-Stainless-Os'', ''X-Stainless-Package-Version'', ''X-Stainless-Retry-Count'',
      ''X-Stainless-Runtime'', ''X-Stainless-Runtime-Version'', ''X-Stainless-Timeout'', ''User-Agent'', ''X-App'', ''Anthropic-Beta'',
      ''Anthropic-Dangerous-Direct-Browser-Access'', ''Anthropic-Version'']"

definition buildPassHeadersTemplate :: "string list \<Rightarrow> jsval" where
  "buildPassHeadersTemplate headers = js_object [(''operations'', JArr [js_object
     [(''mode'', js_text ''pass_headers''), (''value'', JArr (map js_text headers)), (''keep_origin'', JBool True)]])]"

definition BEDROCK_BETA_TOKENS :: "(string \<times> string option) list" where
  "BEDROCK_BETA_TOKENS =
     [(''advanced-tool-use-2025-11-20'', Some ''tool-search-tool-2025-10-19''), (''bash_20241022'', None), (''bash_20250124'', None),
      (''code-execution-2025-08-25'', None), (''compact-2026-01-12'', Some ''compact-2026-01-12''),
      (''computer-use-2025-01-24'', Some ''computer-use-2025-01-24''), (''computer-use-2025-11-24'', Some ''computer-use-2025-11-24''),
      (''context-1m-2025-08-07'', Some ''context-1m-2025-08-07''),
      (''context-management-2025-06-27'', Some ''context-management-2025-06-27''), (''effort-2025-11-24'', None),
      (''fast-mode-2026-02-01'', None), (''files-api-2025-04-14'', None), (''fine-grained-tool-streaming-2025-05-14'', None),
      (''interleaved-thinking-2025-05-14'', Some ''interleaved-thinking-2025-05-14''), (''mcp-client-2025-11-20'', None),
      (''mcp-client-2025-04-04'', None), (''mcp-servers-2025-12-04'', None), (''output-128k-2025-02-19'', None),
      (''structured-output-2024-03-01'', None), (''prompt-caching-scope-2026-01-05'', None), (''skills-2025-10-02'', None),
      (''structured-outputs-2025-11-13'', None), (''text_editor_20241022'', None), (''text_editor_20250124'', None),
      (''token-efficient-tools-2025-02-19'', None), (''tool-search-tool-2025-10-19'', Some ''tool-search-tool-2025-10-19''),
      (''web-fetch-2025-09-10'', None), (''web-search-2025-03-05'', None), (''oauth-2025-04-20'', None)]"

definition AWS_BEDROCK_ANTHROPIC_COMPAT_TEMPLATE :: jsval where
  "AWS_BEDROCK_ANTHROPIC_COMPAT_TEMPLATE = js_object [(''operations'', JArr
     [js_object [(''description'', js_text ''Normalize anthropic-beta header tokens for Bedrock compatibility.''),
        (''mode'', js_text ''set_header''), (''path'', js_text ''anthropic-beta''),
        (''value'', js_object (map (\<lambda>(k, v). (k, case v of None \<Rightarrow> JNull | Some s \<Rightarrow> js_text s)) BEDROCK_BETA_TOKENS))],
      js_object [(''description'', js_text ''Remove all tools[*].custom.input_examples before upstream relay.''),
        (''mode'', js_text ''delete''), (''path'', js_text ''tools.*.custom.input_examples'')]])]"

definition TEMPLATE_PRESET_CONFIG :: "(jstr \<times> VisualMode \<times> jsval) list" where
  "TEMPLATE_PRESET_CONFIG = map (\<lambda>(k, c). (lit k, c))
     [(''operations_default'', Operations, OPERATION_TEMPLATE), (''legacy_default'', Legacy, LEGACY_TEMPLATE),
      (''pass_headers_auth'', Operations, HEADER_PASSTHROUGH_TEMPLATE), (''gemini_image_4k'', Operations, GEMINI_IMAGE_4K_TEMPLATE),
      (''claude_cli_headers_passthrough'', Operations, buildPassHeadersTemplate CLAUDE_CLI_HEADER_PASSTHROUGH_HEADERS),
      (''codex_cli_headers_passthrough'', Operations, buildPassHeadersTemplate CODEX_CLI_HEADER_PASSTHROUGH_HEADERS),
      (''aws_bedrock_anthropic_beta_override'', Operations, AWS_BEDROCK_ANTHROPIC_COMPAT_TEMPLATE)]"

definition presetOf :: "jstr \<Rightarrow> VisualMode \<times> jsval" where
  "presetOf key = opt_or (map_of TEMPLATE_PRESET_CONFIG key) (Operations, OPERATION_TEMPLATE)"

section \<open>State\<close>

record Editor =
  editMode :: EditMode
  visualMode :: VisualMode
  legacyValue :: jstr
  operations :: "ParamOverrideOperation list"
  jsonText :: jstr
  jsonError :: jstr
  operationSearch :: jstr
  selectedOperationId :: "LocalId option"
  expandedConditions :: "LocalId \<rightharpoonup> bool"
  draggedOperationId :: "LocalId option"
  dragOverOperationId :: "LocalId option"
  dragOverPosition :: DropPosition
  templatePresetKey :: jstr
  localIdSeed :: nat
  toasts :: "jstr list"
  saved :: "(EditMode \<times> jstr) list"
  opened :: bool

definition firstId :: "ParamOverrideOperation list \<Rightarrow> LocalId option" where
  "firstId ops = (case ops of [] \<Rightarrow> None | o' # _ \<Rightarrow> Some (op_id o'))"

text \<open>The effect that runs when the dialog opens or its value changes.\<close>

definition openDialog :: "(nat \<Rightarrow> jsnum) \<Rightarrow> jstr \<Rightarrow> Editor \<Rightarrow> Editor option" where
  "openDialog clk v st =
     do {
       (state, seed) \<leftarrow> parseInitialState clk v (localIdSeed st);
       Some (st\<lparr>editMode := es_editMode state, visualMode := es_visualMode state, legacyValue := es_legacyValue state,
         operations := es_operations state, jsonText := es_jsonText state, jsonError := es_jsonError state, operationSearch := [],
         selectedOperationId := firstId (es_operations state), expandedConditions := Map.empty, draggedOperationId := None,
         dragOverOperationId := None, dragOverPosition := Before,
         templatePresetKey := (if es_visualMode state = Legacy then lit ''legacy_default'' else lit ''operations_default''),
         localIdSeed := seed, opened := True\<rparr>)
     }"

text \<open>The state before the dialog is first opened.\<close>

definition mounted :: "(nat \<Rightarrow> jsnum) \<Rightarrow> nat \<Rightarrow> Editor" where
  "mounted clk seed =
     \<lparr>editMode = Visual, visualMode = Operations, legacyValue = [], operations = [createDefaultOperation clk seed], jsonText = [],
      jsonError = [], operationSearch = [], selectedOperationId = None, expandedConditions = Map.empty, draggedOperationId = None,
      dragOverOperationId = None, dragOverPosition = Before, templatePresetKey = lit ''operations_default'',
      localIdSeed = Suc seed, toasts = [], saved = [], opened = False\<rparr>"

text \<open>The effect that keeps the selection valid.\<close>

definition settle :: "Editor \<Rightarrow> Editor" where
  "settle st =
     (case operations st of
        [] \<Rightarrow> st\<lparr>selectedOperationId := None\<rparr>
      | o' # _ \<Rightarrow>
          if list_ex (\<lambda>p. Some (op_id p) = selectedOperationId st) (operations st) then st
          else st\<lparr>selectedOperationId := Some (op_id o')\<rparr>)"

definition operationCount :: "Editor \<Rightarrow> nat" where
  "operationCount st = length (filter (\<lambda>o'. \<not> isOperationBlank o') (operations st))"

definition selectedOperation :: "Editor \<Rightarrow> ParamOverrideOperation option" where
  "selectedOperation st = find (\<lambda>o'. Some (op_id o') = selectedOperationId st) (operations st)"

definition returnErrorDraft :: "Editor \<Rightarrow> ReturnErrorDraft option" where
  "returnErrorDraft st =
     (case selectedOperation st of
        None \<Rightarrow> None
      | Some o' \<Rightarrow> if op_mode o' \<noteq> lit ''return_error'' then None else Some (parseReturnErrorDraft (op_value_text o')))"

definition pruneObjectsDraft :: "(nat \<Rightarrow> jsnum) \<Rightarrow> Editor \<Rightarrow> PruneObjectsDraft option \<times> Editor" where
  "pruneObjectsDraft clk st =
     (case selectedOperation st of
        None \<Rightarrow> (None, st)
      | Some o' \<Rightarrow>
          if op_mode o' \<noteq> lit ''prune_objects'' then (None, st)
          else let (draft, seed) = parsePruneObjectsDraft clk (op_value_text o') (localIdSeed st) in (Some draft, st\<lparr>localIdSeed := seed\<rparr>))"

section \<open>Rules and conditions\<close>

text \<open>The fields the form changes; a patch is a list of them.\<close>

datatype OpField =
  Description jstr | Path jstr | Mode jstr | From jstr | To jstr | ValueText jstr | KeepOrigin bool | Logic jstr

fun setOpField :: "OpField \<Rightarrow> ParamOverrideOperation \<Rightarrow> ParamOverrideOperation" where
  "setOpField (Description s) o' = o'\<lparr>op_description := s\<rparr>"
| "setOpField (Path s) o' = o'\<lparr>op_path := s\<rparr>"
| "setOpField (Mode s) o' = o'\<lparr>op_mode := s\<rparr>"
| "setOpField (From s) o' = o'\<lparr>op_from := s\<rparr>"
| "setOpField (To s) o' = o'\<lparr>op_to := s\<rparr>"
| "setOpField (ValueText s) o' = o'\<lparr>op_value_text := s\<rparr>"
| "setOpField (KeepOrigin b) o' = o'\<lparr>op_keep_origin := b\<rparr>"
| "setOpField (Logic s) o' = o'\<lparr>op_logic := s\<rparr>"

datatype CondField = CPath jstr | CMode jstr | CValueText jstr | CInvert bool | CPassMissingKey bool

fun setCondField :: "CondField \<Rightarrow> ParamOverrideCondition \<Rightarrow> ParamOverrideCondition" where
  "setCondField (CPath s) c = c\<lparr>c_path := s\<rparr>"
| "setCondField (CMode s) c = c\<lparr>c_mode := s\<rparr>"
| "setCondField (CValueText s) c = c\<lparr>c_value_text := s\<rparr>"
| "setCondField (CInvert b) c = c\<lparr>c_invert := b\<rparr>"
| "setCondField (CPassMissingKey b) c = c\<lparr>c_pass_missing_key := b\<rparr>"

text \<open>\<open>prev.map((o) => (o.id === id ? f(o) : o))\<close>.\<close>

definition mapRule :: "LocalId \<Rightarrow> (ParamOverrideOperation \<Rightarrow> ParamOverrideOperation) \<Rightarrow> Editor \<Rightarrow> Editor" where
  "mapRule i f st = st\<lparr>operations := map (\<lambda>o'. if op_id o' = i then f o' else o') (operations st)\<rparr>"

definition updateOperation :: "LocalId \<Rightarrow> OpField list \<Rightarrow> Editor \<Rightarrow> Editor" where
  "updateOperation operationId patch st = mapRule operationId (fold setOpField patch) st"

definition addOperation :: "(nat \<Rightarrow> jsnum) \<Rightarrow> Editor \<Rightarrow> Editor" where
  "addOperation clk st =
     (let created = createDefaultOperation clk (localIdSeed st)
      in st\<lparr>operations := operations st @ [created], selectedOperationId := Some (op_id created), localIdSeed := Suc (localIdSeed st)\<rparr>)"

definition conditionCopy :: "ParamOverrideCondition \<Rightarrow> jsval" where
  "conditionCopy c = js_object
     [(''path'', JStr (c_path c)), (''mode'', JStr (c_mode c)), (''value'', parseLooseValue (c_value_text c)),
      (''invert'', JBool (c_invert c)), (''pass_missing_key'', JBool (c_pass_missing_key c))]"

definition operationCopy :: "ParamOverrideOperation \<Rightarrow> jsval" where
  "operationCopy source = js_object
     [(''description'', JStr (op_description source)), (''path'', JStr (op_path source)), (''mode'', JStr (op_mode source)),
      (''value'', parseLooseValue (op_value_text source)), (''keep_origin'', JBool (op_keep_origin source)),
      (''from'', JStr (op_from source)), (''to'', JStr (op_to source)), (''logic'', JStr (op_logic source)),
      (''conditions'', JArr (map conditionCopy (op_conditions source)))]"

text \<open>
  The selection follows only when React runs the updater at once, \<open>eager\<close>; otherwise \<open>insertedId\<close> is still empty when it is read.
\<close>

definition duplicateOperation :: "(nat \<Rightarrow> jsnum) \<Rightarrow> bool \<Rightarrow> LocalId \<Rightarrow> Editor \<Rightarrow> Editor option" where
  "duplicateOperation clk eager operationId st =
     (case find_index (\<lambda>o'. op_id o' = operationId) (operations st) of
        None \<Rightarrow> Some st
      | Some idx \<Rightarrow>
          do {
            (cloned, seed) \<leftarrow> normalizeOperation clk (operationCopy (operations st ! idx)) (localIdSeed st);
            Some (st\<lparr>operations := splice_in (idx + 1) cloned (operations st), localIdSeed := seed,
              selectedOperationId := (if eager then Some (op_id cloned) else selectedOperationId st)\<rparr>)
          })"

definition removeOperation :: "(nat \<Rightarrow> jsnum) \<Rightarrow> LocalId \<Rightarrow> Editor \<Rightarrow> Editor" where
  "removeOperation clk operationId st =
     (if length (operations st) \<le> 1
      then st\<lparr>operations := [createDefaultOperation clk (localIdSeed st)], localIdSeed := Suc (localIdSeed st)\<rparr>
      else st\<lparr>operations := filter (\<lambda>o'. op_id o' \<noteq> operationId) (operations st)\<rparr>)"

definition addCondition :: "(nat \<Rightarrow> jsnum) \<Rightarrow> LocalId \<Rightarrow> Editor \<Rightarrow> Editor" where
  "addCondition clk operationId st =
     (let created = createDefaultCondition clk (localIdSeed st);
          st' = mapRule operationId (\<lambda>o'. o'\<lparr>op_conditions := op_conditions o' @ [created]\<rparr>) st
      in st'\<lparr>expandedConditions := (expandedConditions st)(c_id created \<mapsto> True), localIdSeed := Suc (localIdSeed st)\<rparr>)"

definition updateCondition :: "LocalId \<Rightarrow> LocalId \<Rightarrow> CondField list \<Rightarrow> Editor \<Rightarrow> Editor" where
  "updateCondition operationId conditionId patch st =
     mapRule operationId (\<lambda>o'. o'\<lparr>op_conditions :=
       map (\<lambda>c. if c_id c = conditionId then fold setCondField patch c else c) (op_conditions o')\<rparr>) st"

definition removeCondition :: "LocalId \<Rightarrow> LocalId \<Rightarrow> Editor \<Rightarrow> Editor" where
  "removeCondition operationId conditionId st =
     mapRule operationId (\<lambda>o'. o'\<lparr>op_conditions := filter (\<lambda>c. c_id c \<noteq> conditionId) (op_conditions o')\<rparr>) st"

section \<open>Drafts\<close>

datatype ReturnErrorField =
  ReMessage jstr | ReStatusCode jsnum | ReCode jstr | ReType jstr | ReSkipRetry bool | ReSimpleMode bool

fun setReturnErrorField :: "ReturnErrorField \<Rightarrow> ReturnErrorDraft \<Rightarrow> ReturnErrorDraft" where
  "setReturnErrorField (ReMessage s) d = d\<lparr>re_message := s\<rparr>"
| "setReturnErrorField (ReStatusCode n) d = d\<lparr>re_statusCode := n\<rparr>"
| "setReturnErrorField (ReCode s) d = d\<lparr>re_code := s\<rparr>"
| "setReturnErrorField (ReType s) d = d\<lparr>re_type := s\<rparr>"
| "setReturnErrorField (ReSkipRetry b) d = d\<lparr>re_skipRetry := b\<rparr>"
| "setReturnErrorField (ReSimpleMode b) d = d\<lparr>re_simpleMode := b\<rparr>"

definition updateReturnErrorDraft :: "LocalId \<Rightarrow> ReturnErrorField list \<Rightarrow> Editor \<Rightarrow> Editor" where
  "updateReturnErrorDraft operationId draftPatch st =
     mapRule operationId (\<lambda>o'. o'\<lparr>op_value_text :=
       buildReturnErrorValueText (fold setReturnErrorField draftPatch (parseReturnErrorDraft (op_value_text o')))\<rparr>) st"

text \<open>The updater may make identifiers itself; a plain patch makes none.\<close>

fun updatePruneRules ::
  "(nat \<Rightarrow> jsnum) \<Rightarrow> LocalId \<Rightarrow> (PruneObjectsDraft \<Rightarrow> nat \<Rightarrow> PruneObjectsDraft \<times> nat) \<Rightarrow> ParamOverrideOperation list \<Rightarrow> nat
     \<Rightarrow> ParamOverrideOperation list \<times> nat" where
  "updatePruneRules clk operationId updater [] seed = ([], seed)"
| "updatePruneRules clk operationId updater (o' # ops) seed =
     (let (p, seed') =
            (if op_id o' \<noteq> operationId then (o', seed)
             else let (draft, s1) = parsePruneObjectsDraft clk (op_value_text o') seed; (nextDraft, s2) = updater draft s1
                  in (o'\<lparr>op_value_text := buildPruneObjectsValueText nextDraft\<rparr>, s2));
          (ps, seed'') = updatePruneRules clk operationId updater ops seed'
      in (p # ps, seed''))"

definition updatePruneObjectsDraft ::
  "(nat \<Rightarrow> jsnum) \<Rightarrow> LocalId \<Rightarrow> (PruneObjectsDraft \<Rightarrow> nat \<Rightarrow> PruneObjectsDraft \<times> nat) \<Rightarrow> Editor \<Rightarrow> Editor" where
  "updatePruneObjectsDraft clk operationId updater st =
     (let (ops, seed) = updatePruneRules clk operationId updater (operations st) (localIdSeed st)
      in st\<lparr>operations := ops, localIdSeed := seed\<rparr>)"

datatype PruneField = PrSimpleMode bool | PrTypeText jstr | PrLogic jstr | PrRecursive bool

fun setPruneField :: "PruneField \<Rightarrow> PruneObjectsDraft \<Rightarrow> PruneObjectsDraft" where
  "setPruneField (PrSimpleMode b) d = d\<lparr>pr_simpleMode := b\<rparr>"
| "setPruneField (PrTypeText s) d = d\<lparr>pr_typeText := s\<rparr>"
| "setPruneField (PrLogic s) d = d\<lparr>pr_logic := s\<rparr>"
| "setPruneField (PrRecursive b) d = d\<lparr>pr_recursive := b\<rparr>"

definition patchPruneDraft :: "(nat \<Rightarrow> jsnum) \<Rightarrow> LocalId \<Rightarrow> PruneField list \<Rightarrow> Editor \<Rightarrow> Editor" where
  "patchPruneDraft clk operationId patch st =
     updatePruneObjectsDraft clk operationId (\<lambda>draft seed. (fold setPruneField patch draft, seed)) st"

definition addPruneRule :: "(nat \<Rightarrow> jsnum) \<Rightarrow> LocalId \<Rightarrow> Editor \<Rightarrow> Editor" where
  "addPruneRule clk operationId st =
     updatePruneObjectsDraft clk operationId
       (\<lambda>draft seed. (draft\<lparr>pr_simpleMode := False, pr_rules := pr_rules draft @ [normalizePruneRule clk (JObj []) seed]\<rparr>, Suc seed)) st"

definition updatePruneRule :: "(nat \<Rightarrow> jsnum) \<Rightarrow> LocalId \<Rightarrow> LocalId \<Rightarrow> CondField list \<Rightarrow> Editor \<Rightarrow> Editor" where
  "updatePruneRule clk operationId ruleId patch st =
     updatePruneObjectsDraft clk operationId
       (\<lambda>draft seed. (draft\<lparr>pr_rules := map (\<lambda>r. if c_id r = ruleId then fold setCondField patch r else r) (pr_rules draft)\<rparr>, seed)) st"

definition removePruneRule :: "(nat \<Rightarrow> jsnum) \<Rightarrow> LocalId \<Rightarrow> LocalId \<Rightarrow> Editor \<Rightarrow> Editor" where
  "removePruneRule clk operationId ruleId st =
     updatePruneObjectsDraft clk operationId
       (\<lambda>draft seed. (draft\<lparr>pr_rules := filter (\<lambda>r. c_id r \<noteq> ruleId) (pr_rules draft)\<rparr>, seed)) st"

section \<open>Drag and drop\<close>

definition resetDragState :: "Editor \<Rightarrow> Editor" where
  "resetDragState st = st\<lparr>draggedOperationId := None, dragOverOperationId := None, dragOverPosition := Before\<rparr>"

definition handleDragStart :: "LocalId \<Rightarrow> Editor \<Rightarrow> Editor" where
  "handleDragStart operationId st = st\<lparr>draggedOperationId := Some operationId, selectedOperationId := Some operationId\<rparr>"

text \<open>\<open>position\<close>: whether the pointer is in the lower half of the row.\<close>

definition handleDragOver :: "LocalId \<Rightarrow> DropPosition \<Rightarrow> Editor \<Rightarrow> Editor" where
  "handleDragOver operationId position st =
     (if draggedOperationId st = None \<or> draggedOperationId st = Some operationId then st
      else st\<lparr>dragOverOperationId := Some operationId, dragOverPosition := position\<rparr>)"

text \<open>\<open>transferred\<close>: the identifier in the data of the drag.\<close>

definition handleDrop :: "LocalId option \<Rightarrow> LocalId \<Rightarrow> Editor \<Rightarrow> Editor" where
  "handleDrop transferred operationId st =
     (let sourceId = (if draggedOperationId st \<noteq> None then draggedOperationId st else transferred);
          position = (if dragOverOperationId st = Some operationId then dragOverPosition st else Before);
          st' = (if sourceId \<noteq> None \<and> sourceId \<noteq> Some operationId
                 then st\<lparr>operations := reorderOperations (operations st) sourceId (Some operationId) position, selectedOperationId := sourceId\<rparr>
                 else st)
      in resetDragState st')"

section \<open>Texts\<close>

definition toast :: "jstr \<Rightarrow> Editor \<Rightarrow> Editor" where
  "toast m st = st\<lparr>toasts := toasts st @ [m]\<rparr>"

definition buildVisualJson :: "translator \<Rightarrow> Editor \<Rightarrow> jstr + jstr" where
  "buildVisualJson tr st =
     (case visualMode st of
        Legacy \<Rightarrow>
          (let trimmed' = trim (legacyValue st) in
           if trimmed' = [] then Inr []
           else case json_parse trimmed' of
             None \<Rightarrow> Inl (tr (lit ''Parameter override must be valid JSON format'') None)
           | Some parsed \<Rightarrow>
               if \<not> plain_object parsed then Inl (tr (lit ''Legacy format must be a JSON object'') None)
               else Inr (json_stringify 2 parsed))
      | Operations \<Rightarrow> buildOperationsJson tr True (operations st))"

definition switchToJsonMode :: "translator \<Rightarrow> Editor \<Rightarrow> Editor" where
  "switchToJsonMode tr st =
     (if editMode st = Json then st
      else case buildVisualJson tr st of
        Inr t \<Rightarrow> st\<lparr>jsonText := t, jsonError := [], editMode := Json\<rparr>
      | Inl m \<Rightarrow>
          (toast m st)\<lparr>jsonText := (case visualMode st of Legacy \<Rightarrow> legacyValue st
               | Operations \<Rightarrow> (case buildOperationsJson tr False (operations st) of Inr t \<Rightarrow> t | Inl _ \<Rightarrow> [])),
             jsonError := (if m \<noteq> [] then m else tr (lit ''Parameter configuration error'') None), editMode := Json\<rparr>)"

definition startEmpty :: "(nat \<Rightarrow> jsnum) \<Rightarrow> Editor \<Rightarrow> Editor" where
  "startEmpty clk st =
     (let fallback = createDefaultOperation clk (localIdSeed st)
      in st\<lparr>operations := [fallback], selectedOperationId := Some (op_id fallback), jsonError := [], editMode := Visual,
           localIdSeed := Suc (localIdSeed st)\<rparr>)"

definition switchToVisualMode :: "(nat \<Rightarrow> jsnum) \<Rightarrow> translator \<Rightarrow> Editor \<Rightarrow> Editor option" where
  "switchToVisualMode clk tr st =
     (let trimmed' = trim (jsonText st) in
      if editMode st = Visual then Some st
      else if trimmed' = [] then Some ((startEmpty clk st)\<lparr>visualMode := Operations, legacyValue := []\<rparr>)
      else case json_parse trimmed' of
        None \<Rightarrow> Some (toast (tr (lit ''Parameter override must be valid JSON format'') None) st)
      | Some parsed \<Rightarrow>
          if \<not> plain_object parsed then Some (toast (tr (lit ''Parameter override must be a valid JSON object'') None) st)
          else case prop_get (lit ''operations'') parsed of
            JArr vs \<Rightarrow>
              do {
                (nextOps, seed) \<leftarrow> operationsFrom clk vs (localIdSeed st);
                Some (st\<lparr>visualMode := Operations, operations := nextOps, selectedOperationId := firstId nextOps, legacyValue := [],
                  jsonError := [], editMode := Visual, templatePresetKey := lit ''operations_default'', localIdSeed := seed\<rparr>)
              }
          | _ \<Rightarrow> Some ((startEmpty clk st)\<lparr>visualMode := Legacy, legacyValue := json_stringify 2 parsed,
                    templatePresetKey := lit ''legacy_default''\<rparr>))"

definition fillLegacy :: "(nat \<Rightarrow> jsnum) \<Rightarrow> jstr \<Rightarrow> Editor \<Rightarrow> Editor" where
  "fillLegacy clk t st =
     st\<lparr>visualMode := Legacy, legacyValue := t, operations := [createDefaultOperation clk (localIdSeed st)], jsonText := t,
       jsonError := [], editMode := Visual, localIdSeed := Suc (localIdSeed st)\<rparr>"

definition templateOperations :: "jsval \<Rightarrow> jsval list" where
  "templateOperations payload = (case prop_get (lit ''operations'') payload of JArr vs \<Rightarrow> vs | _ \<Rightarrow> [])"

definition appendTemplate :: "(nat \<Rightarrow> jsnum) \<Rightarrow> jsval list \<Rightarrow> Editor \<Rightarrow> Editor option" where
  "appendTemplate clk operationsPayload st =
     do {
       (appended, seed) \<leftarrow> mapAlloc (normalizeOperation clk) operationsPayload (localIdSeed st);
       let existing = (if visualMode st = Operations then filter (\<lambda>o'. \<not> isOperationBlank o') (operations st) else []);
           nextOps = existing @ appended
       in Some (st\<lparr>visualMode := Operations, operations := (if nextOps \<noteq> [] then nextOps else appended),
            selectedOperationId := (if firstId nextOps \<noteq> None then firstId nextOps else firstId appended), legacyValue := [],
            jsonError := [], editMode := Visual, jsonText := [], localIdSeed := seed\<rparr>)
     }"

definition fillTemplate :: "(nat \<Rightarrow> jsnum) \<Rightarrow> translator \<Rightarrow> bool \<Rightarrow> Editor \<Rightarrow> Editor option" where
  "fillTemplate clk tr append_mode st =
     (let (kind, payload) = presetOf (templatePresetKey st); operationsPayload = templateOperations payload in
      case kind of
        Legacy \<Rightarrow>
          if append_mode \<and> visualMode st = Legacy then
            let trimmed' = trim (legacyValue st);
                merge = (\<lambda>parsedCurrent. fillLegacy clk (json_stringify 2 (JObj (obj_assign (own_entries payload) parsedCurrent))) st)
            in if trimmed' = [] then Some (merge [])
               else (case json_parse trimmed' of
                 None \<Rightarrow> Some (toast (tr (lit ''Current legacy JSON is invalid, cannot append'') None) st)
               | Some parsedCurrent \<Rightarrow> Some (merge (own_entries parsedCurrent)))
          else Some (fillLegacy clk (json_stringify 2 payload) st)
      | Operations \<Rightarrow>
          if append_mode then appendTemplate clk operationsPayload st
          else do {
            (finalOps, seed) \<leftarrow> operationsFrom clk operationsPayload (localIdSeed st);
            Some (st\<lparr>visualMode := Operations, operations := finalOps, selectedOperationId := firstId finalOps,
              jsonText := json_stringify 2 (JObj [(lit ''operations'', JArr operationsPayload)]), jsonError := [], editMode := Visual,
              localIdSeed := seed\<rparr>)
          })"

definition resetEditorState :: "(nat \<Rightarrow> jsnum) \<Rightarrow> Editor \<Rightarrow> Editor" where
  "resetEditorState clk st =
     (startEmpty clk st)\<lparr>visualMode := Operations, legacyValue := [], jsonText := [], templatePresetKey := lit ''operations_default''\<rparr>"

definition handleJsonChange :: "translator \<Rightarrow> jstr \<Rightarrow> Editor \<Rightarrow> Editor" where
  "handleJsonChange tr nextValue st =
     (let trimmed' = trim nextValue
      in st\<lparr>jsonText := nextValue,
           jsonError := (if trimmed' = [] \<or> verifyJSON trimmed' then [] else tr (lit ''JSON format error'') None)\<rparr>)"

definition formatJson :: "translator \<Rightarrow> Editor \<Rightarrow> Editor" where
  "formatJson tr st =
     (let trimmed' = trim (jsonText st) in
      if trimmed' = [] then st
      else case json_parse trimmed' of
        None \<Rightarrow> toast (tr (lit ''Parameter override must be valid JSON format'') None) st
      | Some v \<Rightarrow> st\<lparr>jsonText := json_stringify 2 v, jsonError := []\<rparr>)"

definition visualValidationError :: "translator \<Rightarrow> Editor \<Rightarrow> jstr" where
  "visualValidationError tr st =
     (if editMode st \<noteq> Visual then []
      else case buildVisualJson tr st of Inr _ \<Rightarrow> [] | Inl m \<Rightarrow> if m \<noteq> [] then m else tr (lit ''Parameter configuration error'') None)"

text \<open>The text to save, or the message shown instead.\<close>

definition savedText :: "translator \<Rightarrow> Editor \<Rightarrow> jstr + jstr" where
  "savedText tr st =
     (if editMode st = Json then
        let trimmed' = trim (jsonText st) in
        if trimmed' = [] then Inr []
        else case json_parse trimmed' of
          None \<Rightarrow> Inl (tr (lit ''Parameter override must be valid JSON format'') None)
        | Some v \<Rightarrow> Inr (json_stringify 2 v)
      else buildVisualJson tr st)"

definition handleSave :: "translator \<Rightarrow> Editor \<Rightarrow> Editor" where
  "handleSave tr st =
     (case savedText tr st of
        Inr result \<Rightarrow> st\<lparr>saved := saved st @ [(editMode st, result)], opened := False\<rparr>
      | Inl m \<Rightarrow> toast m st)"

definition setAllExpanded :: "bool \<Rightarrow> Editor \<Rightarrow> Editor" where
  "setAllExpanded b st =
     (case selectedOperation st of
        None \<Rightarrow> st
      | Some o' \<Rightarrow> st\<lparr>expandedConditions := expandedConditions st ++ map_of (map (\<lambda>c. (c_id c, b)) (op_conditions o'))\<rparr>)"

end
