(* ===== verification/Param_Dialog.thy ===== *)
theory Param_Dialog
  imports Param_Editor
begin

text \<open>
  The states the parameter override dialog can get into, as sequences of events each followed by the effect on the selection, and their
  invariant: there is always a rule, identifiers are unique, one existing rule is selected, and what was saved is empty or well-formed JSON, complete rules when saved from the form.
\<close>

section \<open>Events\<close>

datatype Event =
    Open jstr | Close | Elapse nat | SelectRule LocalId | Search jstr | LegacyChange jstr | Preset jstr
  | UpdateRule LocalId "OpField list" | AddRule | DuplicateRule bool LocalId | RemoveRule LocalId
  | AddCondition LocalId | UpdateCondition LocalId LocalId "CondField list" | RemoveCondition LocalId LocalId
  | ReturnErrorPatch LocalId "ReturnErrorField list" | PrunePatch LocalId "PruneField list" | AddPruneRule LocalId
  | UpdatePruneRule LocalId LocalId "CondField list" | RemovePruneRule LocalId LocalId
  | DragStart LocalId | DragOver LocalId DropPosition | Drop "LocalId option" LocalId | DragEnd
  | ToJson | ToVisual | Fill bool | Reset | JsonChange jstr | Format | Save | ExpandAll bool

fun handle :: "(nat \<Rightarrow> jsnum) \<Rightarrow> translator \<Rightarrow> Event \<Rightarrow> Editor \<Rightarrow> Editor option" where
  "handle clk tr (Open v) st = openDialog clk v st"
| "handle clk tr Close st = Some (st\<lparr>opened := False\<rparr>)"
| "handle clk tr (Elapse n) st = Some (st\<lparr>localIdSeed := localIdSeed st + n\<rparr>)"
| "handle clk tr (SelectRule i) st = Some (st\<lparr>selectedOperationId := Some i\<rparr>)"
| "handle clk tr (Search s) st = Some (st\<lparr>operationSearch := s\<rparr>)"
| "handle clk tr (LegacyChange s) st = Some (st\<lparr>legacyValue := s\<rparr>)"
| "handle clk tr (Preset k) st = Some (st\<lparr>templatePresetKey := (if k \<noteq> [] then k else lit ''operations_default'')\<rparr>)"
| "handle clk tr (UpdateRule i p) st = Some (updateOperation i p st)"
| "handle clk tr AddRule st = Some (addOperation clk st)"
| "handle clk tr (DuplicateRule eager i) st = duplicateOperation clk eager i st"
| "handle clk tr (RemoveRule i) st = Some (removeOperation clk i st)"
| "handle clk tr (AddCondition i) st = Some (addCondition clk i st)"
| "handle clk tr (UpdateCondition i c p) st = Some (updateCondition i c p st)"
| "handle clk tr (RemoveCondition i c) st = Some (removeCondition i c st)"
| "handle clk tr (ReturnErrorPatch i p) st = Some (updateReturnErrorDraft i p st)"
| "handle clk tr (PrunePatch i p) st = Some (patchPruneDraft clk i p st)"
| "handle clk tr (AddPruneRule i) st = Some (addPruneRule clk i st)"
| "handle clk tr (UpdatePruneRule i r p) st = Some (updatePruneRule clk i r p st)"
| "handle clk tr (RemovePruneRule i r) st = Some (removePruneRule clk i r st)"
| "handle clk tr (DragStart i) st = Some (handleDragStart i st)"
| "handle clk tr (DragOver i p) st = Some (handleDragOver i p st)"
| "handle clk tr (Drop d i) st = Some (handleDrop d i st)"
| "handle clk tr DragEnd st = Some (resetDragState st)"
| "handle clk tr ToJson st = Some (switchToJsonMode tr st)"
| "handle clk tr ToVisual st = switchToVisualMode clk tr st"
| "handle clk tr (Fill append_mode) st = fillTemplate clk tr append_mode st"
| "handle clk tr Reset st = Some (resetEditorState clk st)"
| "handle clk tr (JsonChange s) st = Some (handleJsonChange tr s st)"
| "handle clk tr Format st = Some (formatJson tr st)"
| "handle clk tr Save st = Some (handleSave tr st)"
| "handle clk tr (ExpandAll b) st = Some (setAllExpanded b st)"

text \<open>The selectors of the form offer only the modes and logics of the code.\<close>

fun offeredField :: "OpField \<Rightarrow> bool" where
  "offeredField (Mode m) = (m \<in> set OPERATION_MODE_VALUES)"
| "offeredField (Logic l) = (l \<in> {lit ''AND'', lit ''OR''})"
| "offeredField _ = True"

fun offeredCond :: "CondField \<Rightarrow> bool" where
  "offeredCond (CMode m) = (m \<in> set CONDITION_MODE_VALUES)"
| "offeredCond _ = True"

fun offered :: "Event \<Rightarrow> bool" where
  "offered (UpdateRule i p) = list_all offeredField p"
| "offered (UpdateCondition i c p) = list_all offeredCond p"
| "offered (UpdatePruneRule i r p) = list_all offeredCond p"
| "offered _ = True"

inductive reachable :: "(nat \<Rightarrow> jsnum) \<Rightarrow> translator \<Rightarrow> Editor \<Rightarrow> bool" for clk tr where
  start: "reachable clk tr (settle (mounted clk seed))"
| event: "reachable clk tr st \<Longrightarrow> offered e \<Longrightarrow> handle clk tr e st = Some st' \<Longrightarrow> reachable clk tr (settle st')"

section \<open>Identifiers\<close>

fun idSeed :: "LocalId \<Rightarrow> nat" where
  "idSeed (PoId t n) = n"

lemma idSeed_next [simp]: "idSeed (nextLocalId clk n) = n"
  by (simp add: nextLocalId_def)

text \<open>Making objects with identifiers: each takes the next one and may take more.\<close>

locale allocator =
  fixes make :: "jsval \<Rightarrow> nat \<Rightarrow> ('a \<times> nat) option" and ident :: "'a \<Rightarrow> LocalId" and fine :: "nat \<Rightarrow> 'a \<Rightarrow> bool"
  assumes make_id: "make v seed = Some (y, seed') \<Longrightarrow> idSeed (ident y) = seed \<and> seed < seed' \<and> fine seed' y"
    and fine_mono: "fine m y \<Longrightarrow> m \<le> n \<Longrightarrow> fine n y"
begin

lemma mapAlloc_ids:
  "mapAlloc make vs seed = Some (ys, seed') \<Longrightarrow>
     seed \<le> seed' \<and> distinct (map ident ys) \<and> length ys = length vs \<and> (\<forall>y\<in>set ys. seed \<le> idSeed (ident y) \<and> idSeed (ident y) < seed' \<and> fine seed' y)"
proof (induction vs arbitrary: seed ys)
  case (Cons v vs)
  then obtain y s1 zs where y: "make v seed = Some (y, s1)" "mapAlloc make vs s1 = Some (zs, seed')" "ys = y # zs"
    by (auto split: bind_splits)
  note m = make_id [OF y(1)] and z = Cons.IH [OF y(2)]
  have "ident y \<notin> ident ` set zs" using m z by fastforce
  moreover have "fine seed' y" using m z fine_mono by blast
  ultimately show ?case using m z y(3) by fastforce
qed simp

end

definition conditionFine :: "nat \<Rightarrow> ParamOverrideCondition \<Rightarrow> bool" where
  "conditionFine seed c = (idSeed (c_id c) < seed \<and> c_mode c \<in> set CONDITION_MODE_VALUES)"

definition ruleFine :: "nat \<Rightarrow> ParamOverrideOperation \<Rightarrow> bool" where
  "ruleFine seed o' =
     (idSeed (op_id o') < seed \<and> op_mode o' \<in> set OPERATION_MODE_VALUES \<and> op_logic o' \<in> {lit ''AND'', lit ''OR''} \<and>
      distinct (map c_id (op_conditions o')) \<and> (\<forall>c\<in>set (op_conditions o'). conditionFine seed c))"

definition rulesFine :: "nat \<Rightarrow> ParamOverrideOperation list \<Rightarrow> bool" where
  "rulesFine seed ops = (ops \<noteq> [] \<and> distinct (map op_id ops) \<and> (\<forall>o'\<in>set ops. ruleFine seed o'))"

lemma ruleFine_mono: "ruleFine m o' \<Longrightarrow> m \<le> n \<Longrightarrow> ruleFine n o'"
  by (fastforce simp: ruleFine_def conditionFine_def)

lemma rulesFine_mono: "rulesFine m ops \<Longrightarrow> m \<le> n \<Longrightarrow> rulesFine n ops"
  using ruleFine_mono by (auto simp: rulesFine_def)

lemma default_modes: "lit ''full'' \<in> set CONDITION_MODE_VALUES" "lit ''set'' \<in> set OPERATION_MODE_VALUES"
  by (simp_all add: CONDITION_MODE_VALUES_def CONDITION_MODE_OPTIONS_def OPERATION_MODE_VALUES_def OPERATION_MODE_OPTIONS_def)

lemma modeField_in: "lit d \<in> set modes \<Longrightarrow> modeField modes d v \<in> set modes"
  by (simp add: modeField_def split: jsval.splits)

interpretation conditions: allocator "normalizeCondition clk" c_id conditionFine for clk
  by unfold_locales
    (auto simp: normalizeCondition_def conditionFine_def modeField_in default_modes split: bind_splits)

lemma normalizeOperation_fine:
  assumes "normalizeOperation clk v seed = Some (o', seed')"
  shows "idSeed (op_id o') = seed \<and> seed < seed' \<and> ruleFine seed' o'"
proof -
  obtain operation conds s where c: "argument v = Some operation"
      "(case prop_get (lit ''conditions'') operation of JArr cs \<Rightarrow> mapAlloc (normalizeCondition clk) cs (Suc seed) | _ \<Rightarrow> Some ([], Suc seed)) = Some (conds, s)"
    and o: "seed' = s" "op_id o' = nextLocalId clk seed" "op_conditions o' = conds" "op_mode o' \<in> set OPERATION_MODE_VALUES"
      "op_logic o' \<in> {lit ''AND'', lit ''OR''}"
    using assms by (auto simp: normalizeOperation_def modeField_in default_modes logicOf_def split: bind_splits)
  have "Suc seed \<le> s \<and> distinct (map c_id conds) \<and> (\<forall>c\<in>set conds. conditionFine s c)"
    using c(2) conditions.mapAlloc_ids [of clk _ "Suc seed" conds s] by (auto split: jsval.splits)
  then show ?thesis using o by (simp add: ruleFine_def)
qed

interpretation rules: allocator "normalizeOperation clk" op_id ruleFine for clk
  by unfold_locales (auto dest: normalizeOperation_fine ruleFine_mono)

section \<open>Reordering\<close>

lemma find_index_split:
  "find_index P (a @ x # b) = Some (length a)" if "P x" "\<forall>y\<in>set a. \<not> P y"
  using that by (simp add: find_index_def takeWhile_append2)

lemma find_index_None: "find_index P xs = None \<longleftrightarrow> (\<forall>x\<in>set xs. \<not> P x)"
proof -
  have "length (takeWhile (\<lambda>x. \<not> P x) xs) = length xs \<longleftrightarrow> (\<forall>x\<in>set xs. \<not> P x)"
    by (metis takeWhile_eq_all_conv takeWhile_eq_take take_all_iff order_refl)
  then show ?thesis using length_takeWhile_le [of "\<lambda>x. \<not> P x" xs] by (auto simp: find_index_def Let_def)
qed

lemma reorder_known:
  assumes d: "distinct (map op_id ops)" and m: "s \<in> set ops" "t \<in> set ops" "s \<noteq> t"
  shows "\<exists>a b. filter (\<lambda>o'. op_id o' \<noteq> op_id s) ops = a @ t # b \<and>
    reorderOperations ops (Some (op_id s)) (Some (op_id t)) pos = a @ (if pos = Before then [s, t] else [t, s]) @ b"
proof -
  obtain p q where o: "ops = p @ s # q" using m(1) by (meson split_list)
  have ne: "op_id s \<noteq> op_id t" using d m by (auto simp: distinct_map inj_on_def)
  have "op_id s \<notin> op_id ` set (p @ q)" using d o by auto
  then have pq: "\<forall>y\<in>set (p @ q). op_id y \<noteq> op_id s" by (metis imageI)
  have f: "filter (\<lambda>o'. op_id o' \<noteq> op_id s) ops = p @ q" using pq o by simp
  have "t \<in> set (p @ q)" using m o by simp
  then obtain a b where ab: "p @ q = a @ t # b" by (meson split_list)
  have "distinct (map op_id (p @ q))" using d o by simp
  then have "op_id t \<notin> op_id ` set a" unfolding ab by auto
  then have at: "\<forall>y\<in>set a. op_id y \<noteq> op_id t" by (metis imageI)
  have src: "find_index (\<lambda>o'. Some (op_id o') = Some (op_id s)) ops = Some (length p)"
    unfolding o using pq by (intro find_index_split) auto
  have tgt: "find_index (\<lambda>o'. Some (op_id o') = Some (op_id t)) (p @ q) = Some (length a)"
    unfolding ab using at by (intro find_index_split) auto
  have out: "splice_out (length p) ops = p @ q" "ops ! length p = s" using o by (simp_all add: splice_out_def)
  have ins: "splice_in (length a) s (a @ t # b) = a @ s # t # b" "splice_in (Suc (length a)) s (a @ t # b) = a @ t # s # b"
    by (simp_all add: splice_in_def)
  have "reorderOperations ops (Some (op_id s)) (Some (op_id t)) pos = splice_in (if pos = After then length a + 1 else length a) s (p @ q)"
    unfolding reorderOperations_def src using ne out tgt by simp
  then show ?thesis using f ab ins by (cases pos) auto
qed

lemma reorder_unknown:
  assumes "(\<forall>o'\<in>set ops. Some (op_id o') \<noteq> i) \<or> (\<forall>o'\<in>set ops. Some (op_id o') \<noteq> j) \<or> i = j"
  shows "reorderOperations ops i j pos = ops"
proof -
  have "set (splice_out n ops) \<subseteq> set ops" for n
    by (auto simp: splice_out_def dest: in_set_takeD in_set_dropD)
  then have "(\<forall>o'\<in>set ops. Some (op_id o') \<noteq> j) \<Longrightarrow> find_index (\<lambda>o'. Some (op_id o') = j) (splice_out n ops) = None" for n
    by (auto simp: find_index_None)
  moreover have "(\<forall>o'\<in>set ops. Some (op_id o') \<noteq> i) \<Longrightarrow> find_index (\<lambda>o'. Some (op_id o') = i) ops = None"
    by (simp add: find_index_None)
  ultimately show ?thesis using assms by (auto simp: reorderOperations_def Let_def split: option.splits)
qed

lemma mset_out: "s \<in> set ops \<Longrightarrow> distinct (map op_id ops) \<Longrightarrow> mset ops = add_mset s (mset (filter (\<lambda>o'. op_id o' \<noteq> op_id s) ops))"
proof (induction ops)
  case (Cons o' ops)
  show ?case
  proof (cases "o' = s")
    case True
    then have "op_id s \<notin> op_id ` set ops" using Cons.prems by simp
    then have "filter (\<lambda>o'. op_id o' \<noteq> op_id s) ops = ops" by (intro filter_True) (metis imageI)
    with True show ?thesis by simp
  next
    case False
    then have s: "s \<in> set ops" "op_id o' \<noteq> op_id s" using Cons.prems by auto
    with Cons show ?thesis by simp
  qed
qed simp

lemma reorder_mset: "distinct (map op_id ops) \<Longrightarrow> mset (reorderOperations ops i j pos) = mset ops"
proof -
  assume d: "distinct (map op_id ops)"
  show ?thesis
  proof (cases "(\<forall>o'\<in>set ops. Some (op_id o') \<noteq> i) \<or> (\<forall>o'\<in>set ops. Some (op_id o') \<noteq> j) \<or> i = j")
    case False
    then obtain s t where st: "s \<in> set ops" "t \<in> set ops" "i = Some (op_id s)" "j = Some (op_id t)" "s \<noteq> t" by auto
    obtain a b where "filter (\<lambda>o'. op_id o' \<noteq> op_id s) ops = a @ t # b"
        "reorderOperations ops i j pos = a @ (if pos = Before then [s, t] else [t, s]) @ b"
      using reorder_known [OF d st(1,2,5)] st(3,4) by blast
    with mset_out [OF st(1) d] show ?thesis by simp
  qed (simp add: reorder_unknown)
qed

section \<open>Handlers keep the rules in order\<close>

lemma default_rule_fine: "rulesFine (Suc n) [createDefaultOperation clk n]"
  by (simp add: rulesFine_def ruleFine_def createDefaultOperation_def default_modes)

lemma operationsFrom_fine:
  assumes "operationsFrom clk vs seed = Some (ops, seed')"
  shows "rulesFine seed' ops \<and> seed < seed'"
proof (cases "vs = []")
  case True
  then show ?thesis using assms default_rule_fine by (auto simp: operationsFrom_def)
next
  case False
  with assms have "mapAlloc (normalizeOperation clk) vs seed = Some (ops, seed')" by (simp add: operationsFrom_def)
  with rules.mapAlloc_ids [OF this] False show ?thesis by (cases ops) (auto simp: rulesFine_def)
qed

lemma rulesFineI:
  "rulesFine m ops \<Longrightarrow> map op_id ops' = map op_id ops \<Longrightarrow> (\<And>o'. o' \<in> set ops' \<Longrightarrow> ruleFine n o') \<Longrightarrow> rulesFine n ops'"
  unfolding rulesFine_def by (metis map_is_Nil_conv)

lemma map_rules_fine:
  assumes "rulesFine seed ops" "seed \<le> seed'" "\<And>o'. o' \<in> set ops \<Longrightarrow> ruleFine seed o' \<Longrightarrow> op_id (f o') = op_id o' \<and> ruleFine seed' (f o')"
  shows "rulesFine seed' (map (\<lambda>o'. if op_id o' = i then f o' else o') ops)"
proof (rule rulesFineI [OF assms(1)])
  show "map op_id (map (\<lambda>o'. if op_id o' = i then f o' else o') ops) = map op_id ops"
    using assms by (auto simp: rulesFine_def)
  show "ruleFine seed' o'" if "o' \<in> set (map (\<lambda>o'. if op_id o' = i then f o' else o') ops)" for o'
    using that assms ruleFine_mono [of seed _ seed'] by (auto simp: rulesFine_def split: if_splits)
qed

lemma setOpField_fine: "offeredField p \<Longrightarrow> ruleFine n o' \<Longrightarrow> op_id (setOpField p o') = op_id o' \<and> ruleFine n (setOpField p o')"
  by (cases p) (auto simp: ruleFine_def)

lemma patch_fine: "list_all offeredField ps \<Longrightarrow> ruleFine n o' \<Longrightarrow> op_id (fold setOpField ps o') = op_id o' \<and> ruleFine n (fold setOpField ps o')"
  by (induction ps arbitrary: o') (auto simp: setOpField_fine)

lemma condition_patch_fine:
  "list_all offeredCond ps \<Longrightarrow> conditionFine n c \<Longrightarrow> c_id (fold setCondField ps c) = c_id c \<and> conditionFine n (fold setCondField ps c)"
proof (induction ps arbitrary: c)
  case (Cons p ps)
  then show ?case by (cases p) (auto simp: conditionFine_def)
qed simp

lemma parsePrune_seed: "seed \<le> snd (parsePruneObjectsDraft clk t seed)"
  by (simp add: parsePruneObjectsDraft_def Let_def split: option.split jsval.split)

lemma prune_rules_fine:
  assumes "\<And>d s. s \<le> snd (updater d s)" "\<forall>o'\<in>set ops. ruleFine seed o'"
  shows "seed \<le> snd (updatePruneRules clk i updater ops seed) \<and> map op_id (fst (updatePruneRules clk i updater ops seed)) = map op_id ops \<and>
    (\<forall>o'\<in>set (fst (updatePruneRules clk i updater ops seed)). ruleFine (snd (updatePruneRules clk i updater ops seed)) o')"
  using assms(2)
proof (induction ops arbitrary: seed)
  case (Cons o' ops)
  obtain p s where p: "(if op_id o' \<noteq> i then (o', seed)
      else let (draft, s1) = parsePruneObjectsDraft clk (op_value_text o') seed; (nextDraft, s2) = updater draft s1
           in (o'\<lparr>op_value_text := buildPruneObjectsValueText nextDraft\<rparr>, s2)) = (p, s)" by (metis surj_pair)
  have s: "seed \<le> s" "op_id p = op_id o'" "ruleFine s p"
  proof -
    obtain draft s1 where d: "parsePruneObjectsDraft clk (op_value_text o') seed = (draft, s1)" by (metis surj_pair)
    have le: "seed \<le> s1" using parsePrune_seed [of seed clk "op_value_text o'"] d by simp
    obtain nd s2 where n: "updater draft s1 = (nd, s2)" by (metis surj_pair)
    have "s1 \<le> s2" using assms(1) [of s1 draft] n by simp
    then have "seed \<le> s \<and> op_id p = op_id o' \<and> op_mode p = op_mode o' \<and> op_logic p = op_logic o' \<and> op_conditions p = op_conditions o'"
      using p d n le by (auto split: if_splits)
    then show "seed \<le> s" "op_id p = op_id o'" "ruleFine s p"
      using Cons.prems ruleFine_mono [of seed o' s] by (auto simp: ruleFine_def)
  qed
  obtain ps s'' where r: "updatePruneRules clk i updater ops s = (ps, s'')" by (metis surj_pair)
  have "\<forall>x\<in>set ops. ruleFine s x" using Cons.prems ruleFine_mono [OF _ s(1)] by simp
  with Cons.IH [of s] r have "s \<le> s''" "map op_id ps = map op_id ops" "\<forall>x\<in>set ps. ruleFine s'' x" by simp_all
  then show ?case using p r s ruleFine_mono [OF s(3)] by simp
qed simp

definition stateFine :: "Editor \<Rightarrow> bool" where
  "stateFine st = rulesFine (localIdSeed st) (operations st)"

lemma mapRule_fine:
  assumes "stateFine st" "\<And>o'. o' \<in> set (operations st) \<Longrightarrow> ruleFine (localIdSeed st) o' \<Longrightarrow> op_id (f o') = op_id o' \<and> ruleFine (localIdSeed st) (f o')"
  shows "stateFine (mapRule i f st)"
  using map_rules_fine [of "localIdSeed st" "operations st" "localIdSeed st" f i] assms by (simp add: stateFine_def mapRule_def)

lemma prune_fine:
  assumes "stateFine st" "\<And>d s. s \<le> snd (updater d s)"
  shows "stateFine (updatePruneObjectsDraft clk i updater st)"
proof -
  obtain ops seed where r: "updatePruneRules clk i updater (operations st) (localIdSeed st) = (ops, seed)" by (metis surj_pair)
  have "map op_id ops = map op_id (operations st)" "\<forall>o'\<in>set ops. ruleFine seed o'"
    using prune_rules_fine [where updater = updater and ops = "operations st" and seed = "localIdSeed st" and clk = clk and i = i,
        OF assms(2)] assms(1) r
    by (simp_all add: stateFine_def rulesFine_def)
  then have "rulesFine seed ops" using assms(1) rulesFineI [of "localIdSeed st" "operations st" ops seed] by (simp add: stateFine_def)
  then show ?thesis using r by (simp add: stateFine_def updatePruneObjectsDraft_def)
qed

lemma append_fine:
  assumes "rulesFine m ops" "distinct (map op_id ops')" "\<forall>o'\<in>set ops'. m \<le> idSeed (op_id o') \<and> ruleFine n o'" "m \<le> n"
  shows "rulesFine n (ops @ ops')"
proof -
  have "op_id ` set ops \<inter> op_id ` set ops' = {}" using assms(1,3) by (fastforce simp: rulesFine_def ruleFine_def)
  then show ?thesis using assms rulesFine_mono [OF assms(1,4)] by (auto simp: rulesFine_def)
qed

lemma filter_fine: "rulesFine n ops \<Longrightarrow> filter P ops \<noteq> [] \<Longrightarrow> rulesFine n (filter P ops)"
  by (auto simp: rulesFine_def distinct_map_filter)

lemma addOperation_fine: "stateFine st \<Longrightarrow> stateFine (addOperation clk st)"
  using append_fine [of "localIdSeed st" "operations st" "[createDefaultOperation clk (localIdSeed st)]" "Suc (localIdSeed st)"]
    default_rule_fine [of "localIdSeed st" clk]
  by (simp add: stateFine_def addOperation_def Let_def rulesFine_def) (simp add: createDefaultOperation_def)

lemma normalize_object: "\<exists>o' s. normalizeOperation clk (operationCopy r) seed = Some (o', s)"
proof -
  have "\<exists>y s'. normalizeCondition clk (conditionCopy c) s = Some (y, s') \<and> True" for c s
    by (simp add: normalizeCondition_def argument_def conditionCopy_def js_object_def)
  then have "\<exists>y s'. normalizeCondition clk x s = Some (y, s') \<and> True" if "x \<in> set (map conditionCopy (op_conditions r))" for x s
    using that by auto
  from mapAlloc_all2 [where f = "normalizeCondition clk" and xs = "map conditionCopy (op_conditions r)", OF this]
  have "\<exists>ys s'. mapAlloc (normalizeCondition clk) (map conditionCopy (op_conditions r)) (Suc seed) = Some (ys, s')" by blast
  then show ?thesis by (auto simp: normalizeOperation_def argument_def operationCopy_def js_object_def get_Cons lit_eq_iff)
qed

lemma mset_fine: "rulesFine n ops \<Longrightarrow> mset ops' = mset ops \<Longrightarrow> rulesFine n ops'"
proof -
  assume r: "rulesFine n ops" and m: "mset ops' = mset ops"
  then have "set ops' = set ops" "length ops' = length ops" "mset (map op_id ops') = mset (map op_id ops)"
    by (metis set_mset_mset, metis size_mset, simp)
  then show ?thesis using r by (metis rulesFine_def length_0_conv mset_eq_imp_distinct_iff)
qed

lemma duplicate_fine:
  assumes "stateFine st" "duplicateOperation clk eager i st = Some st'"
  shows "stateFine st'"
proof (cases "find_index (\<lambda>o'. op_id o' = i) (operations st)")
  case None
  then show ?thesis using assms by (simp add: duplicateOperation_def)
next
  case (Some idx)
  then obtain cloned seed where c: "normalizeOperation clk (operationCopy (operations st ! idx)) (localIdSeed st) = Some (cloned, seed)"
      "operations st' = splice_in (idx + 1) cloned (operations st)" "localIdSeed st' = seed"
    using assms(2) by (auto simp: duplicateOperation_def split: bind_splits)
  have n: "idSeed (op_id cloned) = localIdSeed st" "localIdSeed st < seed" "ruleFine seed cloned"
    using normalizeOperation_fine [OF c(1)] by simp_all
  have "rulesFine seed (operations st @ [cloned])"
    using assms(1) n by (intro append_fine [of "localIdSeed st"]) (simp_all add: stateFine_def)
  moreover have "mset (splice_in k x xs) = mset (xs @ [x])" for k and x :: ParamOverrideOperation and xs
    by (simp add: splice_in_def) (metis append_take_drop_id mset_append)
  ultimately show ?thesis using mset_fine c(2,3) by (simp add: stateFine_def)
qed

lemma remove_fine: "stateFine st \<Longrightarrow> stateFine (removeOperation clk i st)"
proof (cases "length (operations st) \<le> 1")
  case True
  then show ?thesis using default_rule_fine by (simp add: stateFine_def removeOperation_def)
next
  case False
  assume f: "stateFine st"
  obtain a b r where o: "operations st = a # b # r" using False by (cases "operations st"; cases "tl (operations st)") auto
  have "op_id a \<noteq> op_id b" using f o by (simp add: stateFine_def rulesFine_def)
  then have "filter (\<lambda>o'. op_id o' \<noteq> i) (operations st) \<noteq> []" using o by auto
  then show ?thesis using f False filter_fine by (simp add: stateFine_def removeOperation_def)
qed

lemma condition_handlers_fine:
  assumes "stateFine st"
  shows "stateFine (addCondition clk i st)" "stateFine (removeCondition i c st)"
    "list_all offeredCond ps \<Longrightarrow> stateFine (updateCondition i c ps st)"
proof -
  have "rulesFine (Suc (localIdSeed st)) (map (\<lambda>o'. if op_id o' = i
      then o'\<lparr>op_conditions := op_conditions o' @ [createDefaultCondition clk (localIdSeed st)]\<rparr> else o') (operations st))"
  proof (rule map_rules_fine)
    fix o' assume r: "ruleFine (localIdSeed st) o'"
    define c where "c = createDefaultCondition clk (localIdSeed st)"
    have c: "conditionFine (Suc (localIdSeed st)) c" "idSeed (c_id c) = localIdSeed st"
      by (simp_all add: c_def conditionFine_def createDefaultCondition_def default_modes)
    then have "c_id c \<notin> c_id ` set (op_conditions o')" using r by (auto simp: ruleFine_def conditionFine_def)
    then show "op_id (o'\<lparr>op_conditions := op_conditions o' @ [createDefaultCondition clk (localIdSeed st)]\<rparr>) = op_id o' \<and>
        ruleFine (Suc (localIdSeed st)) (o'\<lparr>op_conditions := op_conditions o' @ [createDefaultCondition clk (localIdSeed st)]\<rparr>)"
      using c(1) ruleFine_mono [OF r, of "Suc (localIdSeed st)"] unfolding c_def [symmetric] by (simp add: ruleFine_def)
  qed (use assms in \<open>simp_all add: stateFine_def\<close>)
  then show "stateFine (addCondition clk i st)" by (simp add: stateFine_def addCondition_def Let_def mapRule_def)
  show "stateFine (removeCondition i c st)"
    unfolding removeCondition_def using assms by (rule mapRule_fine) (auto simp: ruleFine_def distinct_map_filter)
  assume p: "list_all offeredCond ps"
  have ids: "map c_id (map (\<lambda>x. if c_id x = c then fold setCondField ps x else x) cs) = map c_id cs"
    if "\<forall>x\<in>set cs. conditionFine n x" for cs n
    using that condition_patch_fine [OF p] by (auto simp: fun_eq_iff)
  show "stateFine (updateCondition i c ps st)"
    unfolding updateCondition_def
  proof (rule mapRule_fine [OF assms])
    fix o' assume "ruleFine (localIdSeed st) o'"
    then show "op_id (o'\<lparr>op_conditions := map (\<lambda>x. if c_id x = c then fold setCondField ps x else x) (op_conditions o')\<rparr>) = op_id o' \<and>
        ruleFine (localIdSeed st) (o'\<lparr>op_conditions := map (\<lambda>x. if c_id x = c then fold setCondField ps x else x) (op_conditions o')\<rparr>)"
      using ids [of "op_conditions o'" "localIdSeed st"] condition_patch_fine [OF p] by (auto simp: ruleFine_def simp del: map_map)
  qed
qed

lemma initial_fine:
  assumes "parseInitialState clk v seed = Some (state, seed')"
  shows "rulesFine seed' (es_operations state)"
  using assms default_rule_fine [of seed clk]
  by (auto simp: parseInitialState_def Let_def split: if_splits option.splits jsval.splits dest: operationsFrom_fine)

lemma open_fine: "openDialog clk v st = Some st' \<Longrightarrow> stateFine st'"
  using initial_fine by (fastforce simp: openDialog_def stateFine_def split: bind_splits)

lemma startEmpty_fine: "stateFine (startEmpty clk st)"
  using default_rule_fine by (simp add: startEmpty_def stateFine_def Let_def)

lemma toVisual_fine: "stateFine st \<Longrightarrow> switchToVisualMode clk tr st = Some st' \<Longrightarrow> stateFine st'"
  using startEmpty_fine [of clk st]
  by (auto simp: switchToVisualMode_def Let_def stateFine_def toast_def split: if_splits option.splits jsval.splits bind_splits
      dest: operationsFrom_fine)

lemma presets_have_rules: "fst (presetOf k) = Operations \<Longrightarrow> templateOperations (snd (presetOf k)) \<noteq> []"
proof -
  have "list_all (\<lambda>(k, kind, payload). kind = Operations \<longrightarrow> templateOperations payload \<noteq> []) TEMPLATE_PRESET_CONFIG"
    by (simp add: TEMPLATE_PRESET_CONFIG_def templateOperations_def OPERATION_TEMPLATE_def HEADER_PASSTHROUGH_TEMPLATE_def
        GEMINI_IMAGE_4K_TEMPLATE_def buildPassHeadersTemplate_def AWS_BEDROCK_ANTHROPIC_COMPAT_TEMPLATE_def js_object_def get_Cons)
  moreover have "\<exists>k'. (k', presetOf k) \<in> set TEMPLATE_PRESET_CONFIG"
  proof (cases "map_of TEMPLATE_PRESET_CONFIG k")
    case None
    moreover have "(lit ''operations_default'', Operations, OPERATION_TEMPLATE) \<in> set TEMPLATE_PRESET_CONFIG"
      by (simp add: TEMPLATE_PRESET_CONFIG_def)
    ultimately show ?thesis by (auto simp: presetOf_def opt_or_def)
  next
    case (Some p)
    then show ?thesis using map_of_SomeD by (fastforce simp: presetOf_def opt_or_def)
  qed
  ultimately show "fst (presetOf k) = Operations \<Longrightarrow> templateOperations (snd (presetOf k)) \<noteq> []"
    by (cases "presetOf k") (fastforce simp: list_all_iff)
qed

lemma appendTemplate_fine:
  assumes "stateFine st" "appendTemplate clk vs st = Some st'" "vs \<noteq> []"
  shows "stateFine st'"
proof -
  define existing where "existing = (if visualMode st = Operations then filter (\<lambda>o'. \<not> isOperationBlank o') (operations st) else [])"
  obtain appended seed where a: "mapAlloc (normalizeOperation clk) vs (localIdSeed st) = Some (appended, seed)"
      "localIdSeed st' = seed" "operations st' = (if existing @ appended \<noteq> [] then existing @ appended else appended)"
    using assms(2) by (auto simp: appendTemplate_def Let_def existing_def split: bind_splits)
  note m = rules.mapAlloc_ids [OF a(1)]
  have f: "rulesFine seed appended" using m assms(3) by (cases appended) (auto simp: rulesFine_def)
  have "rulesFine seed (existing @ appended)"
  proof (cases "existing = []")
    case False
    then have "rulesFine (localIdSeed st) existing"
      using assms(1) filter_fine by (auto simp: existing_def stateFine_def split: if_splits)
    then show ?thesis using m by (intro append_fine [of "localIdSeed st"]) auto
  qed (use f in simp)
  then show ?thesis using a f by (auto simp: stateFine_def)
qed

lemma fillTemplate_fine:
  assumes "stateFine st" "fillTemplate clk tr append_mode st = Some st'"
  shows "stateFine st'"
proof -
  obtain kind payload where p: "presetOf (templatePresetKey st) = (kind, payload)" by (metis surj_pair)
  have l: "stateFine (fillLegacy clk t st)" for t using default_rule_fine by (simp add: fillLegacy_def stateFine_def)
  show ?thesis
  proof (cases kind)
    case Operations
    then have "templateOperations payload \<noteq> []" using presets_have_rules [of "templatePresetKey st"] p by simp
    with Operations p assms show ?thesis
      using appendTemplate_fine
      by (auto simp: fillTemplate_def Let_def stateFine_def split: if_splits bind_splits dest: operationsFrom_fine)
  next
    case Legacy
    with p assms l show ?thesis by (auto simp: fillTemplate_def Let_def stateFine_def toast_def split: if_splits option.splits)
  qed
qed

lemma untouched:
  "operations (switchToJsonMode tr st) = operations st" "localIdSeed (switchToJsonMode tr st) = localIdSeed st"
  "operations (formatJson tr st) = operations st" "localIdSeed (formatJson tr st) = localIdSeed st"
  "operations (handleSave tr st) = operations st" "localIdSeed (handleSave tr st) = localIdSeed st"
  "operations (setAllExpanded b st) = operations st" "localIdSeed (setAllExpanded b st) = localIdSeed st"
  "operations (handleJsonChange tr s st) = operations st" "localIdSeed (handleJsonChange tr s st) = localIdSeed st"
  "operations (handleDragStart i st) = operations st" "localIdSeed (handleDragStart i st) = localIdSeed st"
  "operations (handleDragOver i p st) = operations st" "localIdSeed (handleDragOver i p st) = localIdSeed st"
  "operations (resetDragState st) = operations st" "localIdSeed (resetDragState st) = localIdSeed st"
  "operations (settle st) = operations st" "localIdSeed (settle st) = localIdSeed st"
  by (auto simp: switchToJsonMode_def formatJson_def handleSave_def setAllExpanded_def handleJsonChange_def handleDragStart_def
      handleDragOver_def resetDragState_def settle_def toast_def Let_def split: sum.split option.split list.split)

lemma prune_handlers_fine:
  assumes "stateFine st"
  shows "stateFine (patchPruneDraft clk i ps st)" "stateFine (addPruneRule clk i st)" "stateFine (updatePruneRule clk i r cs st)"
    "stateFine (removePruneRule clk i r st)"
  unfolding patchPruneDraft_def addPruneRule_def updatePruneRule_def removePruneRule_def
  by (rule prune_fine [OF assms], simp)+

lemma handle_fine:
  assumes "stateFine st" "offered e" "handle clk tr e st = Some st'"
  shows "stateFine st'"
proof (cases e)
  case (UpdateRule i p)
  then show ?thesis using assms patch_fine by (auto simp: updateOperation_def intro: mapRule_fine)
next
  case (ReturnErrorPatch i p)
  then show ?thesis using assms by (auto simp: updateReturnErrorDraft_def ruleFine_def intro!: mapRule_fine)
next
  case (Drop d i)
  have "mset (reorderOperations (operations st) x y pos) = mset (operations st)" for x y pos
    using assms(1) by (intro reorder_mset) (simp add: stateFine_def rulesFine_def)
  then have "rulesFine (localIdSeed st) (reorderOperations (operations st) x y pos)" for x y pos
    using assms(1) mset_fine by (simp add: stateFine_def)
  then show ?thesis using Drop assms by (auto simp: handleDrop_def Let_def resetDragState_def stateFine_def)
next
  case (Elapse n)
  then show ?thesis using assms rulesFine_mono [of "localIdSeed st" "operations st"] by (auto simp: stateFine_def)
next
  case ToVisual
  then show ?thesis using assms toVisual_fine by simp
next
  case (Fill b)
  then show ?thesis using assms fillTemplate_fine by simp
next
  case Reset
  then show ?thesis using assms startEmpty_fine [of clk st] by (auto simp: resetEditorState_def stateFine_def)
next
  case (DuplicateRule b i)
  then show ?thesis using assms duplicate_fine by simp
next
  case (Open v)
  then show ?thesis using assms open_fine by simp
qed (use assms condition_handlers_fine addOperation_fine remove_fine prune_handlers_fine in \<open>auto simp: stateFine_def untouched\<close>)

end
