(* ===== verification/Param_Properties.thy ===== *)
theory Param_Properties
  imports Param_Dialog
begin

text \<open>
  The properties of the parameter override editor: the invariant of the dialog and what it saves, the text of rules read back,
  validation, reordering, and the drafts of custom errors, synchronised fields and pruning rules.
\<close>

section \<open>What is saved\<close>

definition savedOk :: "EditMode \<Rightarrow> jstr \<Rightarrow> bool" where
  "savedOk m t =
     (t = [] \<or> m = Visual \<and> (\<exists>ops. ops \<noteq> [] \<and> list_all ruleComplete ops \<and> t = operationsText ops) \<or>
      (\<exists>s v. json_parse s = Some v \<and> t = json_stringify 2 v \<and> (m = Visual \<longrightarrow> plain_object v)))"

lemma savedText_ok:
  assumes "\<And>k l. tr k l \<noteq> []" "savedText tr st = Inr t"
  shows "savedOk (editMode st) t"
proof (cases "editMode st")
  case Json
  then show ?thesis using assms(2) by (auto simp: savedText_def savedOk_def Let_def split: if_splits option.splits)
next
  case Visual
  show ?thesis
  proof (cases "visualMode st")
    case Operations
    then have b: "buildOperationsJson tr True (operations st) = Inr t"
      using Visual assms(2) by (simp add: savedText_def buildVisualJson_def)
    show ?thesis
    proof (cases "t = []")
      case False
      then show ?thesis using build_complete [of tr "operations st" t, OF assms(1)] b Visual by (auto simp: savedOk_def)
    qed (simp add: savedOk_def)
  next
    case Legacy
    then show ?thesis
      using Visual assms(2)
      by (auto simp: savedText_def buildVisualJson_def savedOk_def Let_def split: if_splits option.splits)
  qed
qed

lemma saved_kept:
  "saved (settle st) = saved st" "saved (toast m st) = saved st" "saved (mapRule i f st) = saved st"
  "saved (updatePruneObjectsDraft clk i u st) = saved st" "saved (startEmpty clk st) = saved st" "saved (fillLegacy clk s st) = saved st"
  "saved (resetDragState st) = saved st"
  by (simp_all add: settle_def toast_def mapRule_def updatePruneObjectsDraft_def startEmpty_def fillLegacy_def resetDragState_def Let_def
      split: list.split prod.split)

lemma saved_Some:
  "openDialog clk v st = Some st' \<Longrightarrow> saved st' = saved st"
  "duplicateOperation clk b i st = Some st' \<Longrightarrow> saved st' = saved st"
  "switchToVisualMode clk tr st = Some st' \<Longrightarrow> saved st' = saved st"
  "fillTemplate clk tr a st = Some st' \<Longrightarrow> saved st' = saved st"
  by (auto simp: openDialog_def duplicateOperation_def switchToVisualMode_def fillTemplate_def appendTemplate_def Let_def saved_kept
      split: option.splits bind_splits if_splits jsval.splits VisualMode.splits prod.splits)

lemma handle_saved:
  assumes "handle clk tr e st = Some st'"
  shows "saved st' = saved st \<or> (\<exists>t. savedText tr st = Inr t \<and> saved st' = saved st @ [(editMode st, t)])"
proof (cases e)
  case Save
  then show ?thesis using assms by (auto simp: handleSave_def saved_kept split: sum.splits)
next
  case ToJson
  then show ?thesis using assms by (auto simp: switchToJsonMode_def toast_def split: sum.splits)
qed (use assms saved_Some in \<open>auto simp: saved_kept updateOperation_def addOperation_def removeOperation_def addCondition_def
    updateCondition_def removeCondition_def updateReturnErrorDraft_def patchPruneDraft_def addPruneRule_def updatePruneRule_def
    removePruneRule_def handleDragStart_def handleDragOver_def handleDrop_def resetEditorState_def handleJsonChange_def formatJson_def
    setAllExpanded_def Let_def split: option.splits if_splits\<close>)

lemma settle_selected:
  "operations st \<noteq> [] \<Longrightarrow> list_ex (\<lambda>o'. Some (op_id o') = selectedOperationId (settle st)) (operations (settle st))"
  by (auto simp: settle_def list_ex_iff split: list.split)

lemma reachable_fine:
  assumes "reachable clk tr st" "\<And>k l. tr k l \<noteq> []"
  shows "stateFine st \<and> list_ex (\<lambda>o'. Some (op_id o') = selectedOperationId st) (operations st) \<and> list_all (\<lambda>(m, t). savedOk m t) (saved st)"
  using assms(1)
proof (induction rule: reachable.induct)
  case (start seed)
  have "stateFine (mounted clk seed)" using default_rule_fine by (simp add: stateFine_def mounted_def)
  moreover have "operations (mounted clk seed) \<noteq> []" "saved (mounted clk seed) = []" by (simp_all add: mounted_def)
  ultimately show ?case using settle_selected by (simp add: stateFine_def untouched saved_kept)
next
  case (event st e st')
  have f: "stateFine st'" using handle_fine event by blast
  then have "operations st' \<noteq> []" by (simp add: stateFine_def rulesFine_def)
  moreover have "list_all (\<lambda>(m, t). savedOk m t) (saved st')"
    using handle_saved [OF event.hyps(3)] event.IH savedText_ok [OF assms(2)] by auto
  ultimately show ?case using f settle_selected by (simp add: stateFine_def untouched saved_kept)
qed

section \<open>Drafts\<close>

lemma validStatus_range: "\<exists>k. validStatus n = jint k \<and> 100 \<le> k \<and> k \<le> 599"
  by (cases n) (auto simp: validStatus_def is_integer_def js_le_def js_eq_def)

lemma validStatus_idem [simp]: "validStatus (validStatus n) = validStatus n"
  by (simp add: validStatus_def)

lemma return_error_advanced:
  assumes "code_units (re_message d)" "code_units (re_code d)" "code_units (re_type d)" "\<not> re_simpleMode d"
  shows "parseReturnErrorDraft (buildReturnErrorValueText d) =
    d\<lparr>re_message := trim (re_message d), re_statusCode := validStatus (re_statusCode d), re_code := trim (re_code d), re_type := trim (re_type d)\<rparr>"
proof -
  define p where "p = put_if (\<not> re_skipRetry d) ''skip_retry'' (JBool False)
     (put_if (trim (re_type d) \<noteq> []) ''type'' (JStr (trim (re_type d)))
     (put_if (trim (re_code d) \<noteq> []) ''code'' (JStr (trim (re_code d)))
       [(lit ''message'', JStr (trim (re_message d))), (lit ''status_code'', JNum (validStatus (re_statusCode d)))]))"
  have t: "buildReturnErrorValueText d = json_stringify 0 (JObj p)"
    using assms(4) by (simp add: buildReturnErrorValueText_def p_def Let_def)
  obtain k where k: "validStatus (re_statusCode d) = jint k" "100 \<le> k" "k \<le> 599" using validStatus_range by blast
  then have "prints_back (validStatus (re_statusCode d))" by (intro safe_integer_prints) (simp add: safe_integer_def)
  then have "plain_members [(lit ''message'', JStr (trim (re_message d))), (lit ''status_code'', JNum (validStatus (re_statusCode d)))]"
    using assms(1) by (simp add: plain_members_def named_obj_def lit_code_units code_units_trim lit_eq_iff)
  then have pl: "json_plain (JObj p)"
    unfolding p_def using assms(2,3) by (intro plain_members_plain plain_put) (simp_all add: code_units_trim)
  have j: "json_parse (json_stringify 0 (JObj p)) = Some (JObj p)" "trim (json_stringify 0 (JObj p)) = json_stringify 0 (JObj p)"
    using json_roundtrip [OF pl] trim_json [OF pl] by simp_all
  have ne: "json_stringify 0 (JObj p) \<noteq> []" using json_parse_not_blank [OF j(1)] by auto
  have g: "obj_get (lit ''message'') p = JStr (trim (re_message d))" "obj_get (lit ''status_code'') p = JNum (validStatus (re_statusCode d))"
    "obj_get (lit ''code'') p = (if trim (re_code d) = [] then JUndef else JStr (trim (re_code d)))"
    "obj_get (lit ''type'') p = (if trim (re_type d) = [] then JUndef else JStr (trim (re_type d)))"
    "obj_get (lit ''skip_retry'') p = (if re_skipRetry d then JUndef else JBool False)" "obj_get (lit ''msg'') p = JUndef"
    by (auto simp: p_def get_put_if get_Cons lit_eq_iff)
  show ?thesis
    unfolding t parseReturnErrorDraft_def Let_def j using ne assms(4)
    by (simp add: j(1) plain_object_def g js_or_def)
qed

lemma return_error_simple:
  assumes "re_simpleMode d" "\<not> (case json_parse (trim (re_message d)) of Some v \<Rightarrow> plain_object v | None \<Rightarrow> False)"
  shows "parseReturnErrorDraft (buildReturnErrorValueText d) = returnErrorDefaults\<lparr>re_message := trim (re_message d)\<rparr>"
  using assms by (auto simp: parseReturnErrorDraft_def buildReturnErrorValueText_def Let_def returnErrorDefaults_def split: option.splits)

text \<open>Blanks at the end of a text do not reach the draft.\<close>

lemma trim_blank_end: "is_ws w \<Longrightarrow> trim (s @ [w]) = trim s"
proof (cases "\<forall>c\<in>set s. is_ws c")
  case True
  then show "is_ws w \<Longrightarrow> trim (s @ [w]) = trim s" by (metis append_Nil2 set_append Un_iff empty_iff empty_set set_ConsD trim_eq_Nil)
next
  case False
  then obtain c where c: "c \<in> set s" "\<not> is_ws c" by blast
  assume "is_ws w"
  moreover have "dropWhile is_ws (s @ [w]) = dropWhile is_ws s @ [w]" using c by (rule dropWhile_append1)
  ultimately show ?thesis by (simp add: trim_def trim_start_def trim_end_def)
qed

lemma sync_target_roundtrip:
  assumes "type \<in> {lit ''json'', lit ''header''}" "trim key \<noteq> []"
  shows "parseSyncTargetSpec (buildSyncTargetSpec type key) = (type, trim key)"
proof -
  have w: "\<not> is_ws (last (trim key))" using trimmed_trim [of key] assms(2) by (simp add: trimmed_def)
  have tr: "trim (type @ lit '':'' @ trim key) = type @ lit '':'' @ trim key"
  proof (rule trimmed_ends)
    show "\<not> is_ws (last (type @ lit '':'' @ trim key))" using assms(2) w by (simp add: lit_def)
    show "\<not> is_ws (hd (type @ lit '':'' @ trim key))" using assms(1) by (elim insertE emptyE) (simp_all add: lit_def is_ws_def)
  qed
  have i: "index_of (lit '':'') (type @ lit '':'' @ trim key) = Some (length type)"
    using assms(1) by (elim insertE emptyE) (simp_all add: lit_def starts_with_def)
  have l: "ascii_lower (trim type) = type"
    using assms(1) by (elim insertE emptyE) (simp_all add: lit_def ascii_lower_def trim_no_ws is_ws_def)
  have ne: "type @ lit '':'' @ trim key \<noteq> []" "(if type = lit ''header'' then lit ''header'' else lit ''json'') = type"
    using assms by auto
  have b: "buildSyncTargetSpec type key = type @ lit '':'' @ trim key"
    using assms(2) ne(2) by (simp add: buildSyncTargetSpec_def Let_def)
  have d: "take (length type) (type @ lit '':'' @ trim key) = type" "drop (length type + 1) (type @ lit '':'' @ trim key) = trim key"
    by (simp_all add: lit_def)
  show ?thesis unfolding b parseSyncTargetSpec_def tr Let_def i option.case d l trim_trim using ne assms(2) by simp
qed

lemma pushRules_ids: "r \<in> set (pushRules clk vs seed) \<Longrightarrow> seed \<le> idSeed (c_id r) \<and> idSeed (c_id r) < seed + length vs"
proof (induction vs arbitrary: seed)
  case (Cons v vs)
  from Cons.prems consider "r = normalizePruneRule clk v seed" | "r \<in> set (pushRules clk vs (Suc seed))" by auto
  then show ?case
  proof cases
    case 2
    from Cons.IH [OF this] show ?thesis by simp
  qed (simp add: normalizePruneRule_def)
qed simp

lemma length_pushRules [simp]: "length (pushRules clk vs seed) = length vs"
  by (induction vs arbitrary: seed) auto

lemma draft_rule_ids:
  "r \<in> set (pr_rules (fst (parsePruneObjectsDraft clk t seed))) \<Longrightarrow>
     seed \<le> idSeed (c_id r) \<and> idSeed (c_id r) < snd (parsePruneObjectsDraft clk t seed)"
  by (auto simp: parsePruneObjectsDraft_def Let_def pruneDefaults_def dest!: pushRules_ids split: option.splits jsval.splits if_splits)

lemma updatePruneRules_eq:
  assumes u: "\<And>t s s'. n \<le> s \<Longrightarrow> n \<le> s' \<Longrightarrow>
      buildPruneObjectsValueText (fst (case_prod u (parsePruneObjectsDraft clk t s))) =
      buildPruneObjectsValueText (fst (case_prod u' (parsePruneObjectsDraft clk t s')))"
    and m: "\<And>d s. s \<le> snd (u d s)" "\<And>d s. s \<le> snd (u' d s)" and n: "n \<le> s" "n \<le> s'"
  shows "fst (updatePruneRules clk i u ops s) = fst (updatePruneRules clk i u' ops s')"
  using n
proof (induction ops arbitrary: s s')
  case (Cons o' ops)
  define t where "t = op_value_text o'"
  obtain d1 x1 where d1: "parsePruneObjectsDraft clk t s = (d1, x1)" by (metis surj_pair)
  obtain d2 x2 where d2: "parsePruneObjectsDraft clk t s' = (d2, x2)" by (metis surj_pair)
  obtain e1 y1 where e1: "u d1 x1 = (e1, y1)" by (metis surj_pair)
  obtain e2 y2 where e2: "u' d2 x2 = (e2, y2)" by (metis surj_pair)
  have y1: "n \<le> y1" using parsePrune_seed [of s clk t] d1 m(1) [of x1 d1] e1 Cons.prems by simp
  have y2: "n \<le> y2" using parsePrune_seed [of s' clk t] d2 m(2) [of x2 d2] e2 Cons.prems by simp
  have "buildPruneObjectsValueText e1 = buildPruneObjectsValueText e2" using u [OF Cons.prems, of t] d1 d2 e1 e2 by simp
  moreover have "fst (updatePruneRules clk i u ops y1) = fst (updatePruneRules clk i u' ops y2)" using y1 y2 by (intro Cons.IH)
  moreover have "fst (updatePruneRules clk i u ops s) = fst (updatePruneRules clk i u' ops s')" using Cons.prems by (intro Cons.IH)
  ultimately show ?case
    using d1 d2 e1 e2 by (simp add: case_prod_unfold Let_def t_def [symmetric])
qed simp

lemma pruned_conditions_seed:
  "map pruneCondition (filter (\<lambda>r. trim (c_path r) \<noteq> []) (pushRules clk vs s)) =
   map pruneCondition (filter (\<lambda>r. trim (c_path r) \<noteq> []) (pushRules clk vs s'))"
proof (induction vs arbitrary: s s')
  case (Cons v vs)
  have "c_path (normalizePruneRule clk v s) = c_path (normalizePruneRule clk v s')"
    "pruneCondition (normalizePruneRule clk v s) = pruneCondition (normalizePruneRule clk v s')"
    by (simp_all add: normalizePruneRule_def pruneCondition_def)
  then show ?case using Cons [of "Suc s" "Suc s'"] by simp
qed simp

lemma rebuilt_seed:
  assumes "pr_rules (fst (parsePruneObjectsDraft clk t s)) = rs" "rs' = rs \<or> (\<exists>r. trim (c_path r) = [] \<and> rs' = rs @ [r])"
  shows "buildPruneObjectsValueText ((fst (parsePruneObjectsDraft clk t s))\<lparr>pr_simpleMode := b, pr_rules := rs'\<rparr>) =
    buildPruneObjectsValueText ((fst (parsePruneObjectsDraft clk t s'))\<lparr>pr_simpleMode := b\<rparr>)"
proof -
  have f: "map pruneCondition (filter (\<lambda>r. trim (c_path r) \<noteq> []) rs') = map pruneCondition (filter (\<lambda>r. trim (c_path r) \<noteq> []) rs)"
    using assms(2) by auto
  have c: "map pruneCondition (filter (\<lambda>r. trim (c_path r) \<noteq> []) rs) =
      map pruneCondition (filter (\<lambda>r. trim (c_path r) \<noteq> []) (pr_rules (fst (parsePruneObjectsDraft clk t s'))))"
    unfolding assms(1) [symmetric]
    by (simp add: parsePruneObjectsDraft_def Let_def pruneDefaults_def pruned_conditions_seed [of clk _ s s'] split: option.split jsval.split)
  have e: "pr_typeText (fst (parsePruneObjectsDraft clk t s)) = pr_typeText (fst (parsePruneObjectsDraft clk t s'))"
    "pr_logic (fst (parsePruneObjectsDraft clk t s)) = pr_logic (fst (parsePruneObjectsDraft clk t s'))"
    "pr_recursive (fst (parsePruneObjectsDraft clk t s)) = pr_recursive (fst (parsePruneObjectsDraft clk t s'))"
    by (simp_all add: parsePruneObjectsDraft_def Let_def split: option.split jsval.split)
  show ?thesis unfolding buildPruneObjectsValueText_def Let_def by (simp add: f c e)
qed

text \<open>Rules of a draft read again have other identifiers.\<close>

lemma stale_rule:
  assumes "idSeed i < n" "n \<le> s" "r \<in> set (pr_rules (fst (parsePruneObjectsDraft clk t s)))"
  shows "c_id r \<noteq> i"
  using draft_rule_ids [OF assms(3)] assms(1,2) by auto

lemma prune_edits:
  assumes "idSeed r < localIdSeed st"
  shows "operations (updatePruneRule clk i r ps st) = operations (patchPruneDraft clk i [] st)"
    "operations (removePruneRule clk i r st) = operations (patchPruneDraft clk i [] st)"
    "operations (addPruneRule clk i st) = operations (patchPruneDraft clk i [PrSimpleMode False] st)"
proof -
  let ?n = "localIdSeed st"
  have ops: "operations (updatePruneObjectsDraft clk i u st) = fst (updatePruneRules clk i u (operations st) (localIdSeed st))" for u
    by (simp add: updatePruneObjectsDraft_def case_prod_unfold Let_def)
  have same: "buildPruneObjectsValueText ((fst (parsePruneObjectsDraft clk t s))\<lparr>pr_rules := rs\<rparr>) =
      buildPruneObjectsValueText (fst (parsePruneObjectsDraft clk t s'))"
    if "rs = pr_rules (fst (parsePruneObjectsDraft clk t s))" for t s s' rs
  proof -
    have "pr_simpleMode (fst (parsePruneObjectsDraft clk t s)) = pr_simpleMode (fst (parsePruneObjectsDraft clk t s'))"
      by (simp add: parsePruneObjectsDraft_def Let_def split: option.split jsval.split)
    then have "(fst (parsePruneObjectsDraft clk t s'))\<lparr>pr_simpleMode := pr_simpleMode (fst (parsePruneObjectsDraft clk t s))\<rparr> =
        fst (parsePruneObjectsDraft clk t s')" by simp
    moreover have "buildPruneObjectsValueText ((fst (parsePruneObjectsDraft clk t s))
        \<lparr>pr_simpleMode := pr_simpleMode (fst (parsePruneObjectsDraft clk t s)), pr_rules := rs\<rparr>) =
      buildPruneObjectsValueText ((fst (parsePruneObjectsDraft clk t s'))\<lparr>pr_simpleMode := pr_simpleMode (fst (parsePruneObjectsDraft clk t s))\<rparr>)"
      using that by (intro rebuilt_seed [OF refl]) simp
    ultimately show ?thesis by simp
  qed
  show "operations (updatePruneRule clk i r ps st) = operations (patchPruneDraft clk i [] st)"
    unfolding updatePruneRule_def patchPruneDraft_def ops
  proof (rule updatePruneRules_eq [where n = ?n])
    fix t s s' assume s: "?n \<le> s" "?n \<le> s'"
    have "map (\<lambda>r'. if c_id r' = r then fold setCondField ps r' else r') (pr_rules (fst (parsePruneObjectsDraft clk t s)))
        = pr_rules (fst (parsePruneObjectsDraft clk t s))"
      using stale_rule [OF assms s(1)] by (intro map_idI) auto
    from same [OF this, of s'] show "buildPruneObjectsValueText (fst (case parsePruneObjectsDraft clk t s of (draft, seed) \<Rightarrow>
        (draft\<lparr>pr_rules := map (\<lambda>r'. if c_id r' = r then fold setCondField ps r' else r') (pr_rules draft)\<rparr>, seed))) =
      buildPruneObjectsValueText (fst (case parsePruneObjectsDraft clk t s' of (draft, seed) \<Rightarrow> (fold setPruneField [] draft, seed)))"
      by (simp add: case_prod_unfold)
  qed simp_all
  show "operations (removePruneRule clk i r st) = operations (patchPruneDraft clk i [] st)"
    unfolding removePruneRule_def patchPruneDraft_def ops
  proof (rule updatePruneRules_eq [where n = ?n])
    fix t s s' assume s: "?n \<le> s" "?n \<le> s'"
    have "filter (\<lambda>r'. c_id r' \<noteq> r) (pr_rules (fst (parsePruneObjectsDraft clk t s))) = pr_rules (fst (parsePruneObjectsDraft clk t s))"
      using stale_rule [OF assms s(1)] by (intro filter_True) auto
    from same [OF this, of s'] show "buildPruneObjectsValueText (fst (case parsePruneObjectsDraft clk t s of (draft, seed) \<Rightarrow>
        (draft\<lparr>pr_rules := filter (\<lambda>r'. c_id r' \<noteq> r) (pr_rules draft)\<rparr>, seed))) =
      buildPruneObjectsValueText (fst (case parsePruneObjectsDraft clk t s' of (draft, seed) \<Rightarrow> (fold setPruneField [] draft, seed)))"
      by (simp add: case_prod_unfold)
  qed simp_all
  show "operations (addPruneRule clk i st) = operations (patchPruneDraft clk i [PrSimpleMode False] st)"
    unfolding addPruneRule_def patchPruneDraft_def ops
  proof (rule updatePruneRules_eq [where n = ?n])
    fix t s s'
    have "trim (c_path (normalizePruneRule clk (JObj []) k)) = []" for k by (simp add: normalizePruneRule_def strField_def get_Cons)
    then show "buildPruneObjectsValueText (fst (case parsePruneObjectsDraft clk t s of (draft, seed) \<Rightarrow>
        (draft\<lparr>pr_simpleMode := False, pr_rules := pr_rules draft @ [normalizePruneRule clk (JObj []) seed]\<rparr>, Suc seed))) =
      buildPruneObjectsValueText (fst (case parsePruneObjectsDraft clk t s' of (draft, seed) \<Rightarrow> (fold setPruneField [PrSimpleMode False] draft, seed)))"
      using rebuilt_seed [OF refl] by (simp add: case_prod_unfold)
  qed simp_all
qed

section \<open>Properties\<close>

text \<open>A rule with a condition, for the concrete instances below.\<close>

definition sampleRule :: ParamOverrideOperation where
  "sampleRule = (createDefaultOperation (\<lambda>_. jint 0) 0)
     \<lparr>op_path := lit ''temperature'', op_value_text := lit '' 1'', op_keep_origin := True,
      op_conditions := [(createDefaultCondition (\<lambda>_. jint 0) 1)\<lparr>c_path := lit ''model'', c_value_text := lit ''gpt''\<rparr>]\<rparr>"

definition sampleTr :: translator where
  "sampleTr = (\<lambda>key line. lit ''!'')"

lemma sampleTr_ne: "sampleTr k l \<noteq> []"
  by (simp add: sampleTr_def lit_def)

text \<open>
  C26. Rules that pass validation and whose value texts are no JSON string literals: the saved text opens in the form as as many rules,
  and saving these unchanged gives the same text, whatever the clock and the identifiers.
\<close>

theorem reopen_stable:
  "(\<forall>k l. tr k l \<noteq> []) \<Longrightarrow> buildOperationsJson tr True ops = Inr t \<Longrightarrow> t \<noteq> [] \<Longrightarrow>
   list_all ruleKept (filter (\<lambda>op. \<not> isOperationBlank op) ops) \<Longrightarrow>
   \<exists>st seed'. parseInitialState clk t seed = Some (st, seed') \<and> es_editMode st = Visual \<and> es_visualMode st = Operations \<and>
     es_jsonText st = t \<and> es_jsonError st = [] \<and>
     length (es_operations st) = length (filter (\<lambda>op. \<not> isOperationBlank op) ops) \<and>
     buildOperationsJson tr True (es_operations st) = Inr t"
  by (rule reopen_same_text) blast+

theorem reopen_stable_witness:
  "\<exists>t st seed'. buildOperationsJson sampleTr True [sampleRule] = Inr t \<and> t \<noteq> [] \<and>
     parseInitialState (\<lambda>_. jint 5) t 7 = Some (st, seed') \<and> length (es_operations st) = 1 \<and>
     buildOperationsJson sampleTr True (es_operations st) = Inr t"
proof -
  have k: "list_all ruleKept [sampleRule]" "\<not> isOperationBlank sampleRule" "list_all ruleComplete [sampleRule]" by code_simp+
  obtain t where t: "buildOperationsJson sampleTr True [sampleRule] = Inr t" "t \<noteq> []"
    using build_complete [of sampleTr "[sampleRule]" "operationsText [sampleRule]", OF sampleTr_ne] k by auto
  with reopen_stable [of sampleTr "[sampleRule]" t "\<lambda>_. jint 5" 7] sampleTr_ne k show ?thesis by auto
qed

text \<open>
  C28. Validation returns no message exactly when every rule has what its mode requires; otherwise the message is that of the first rule that has not,
  with its position.  A complete rule is written with a non-empty path, source and target wherever its mode requires one.
\<close>

theorem rules_validated:
  "(\<forall>k l. tr k l \<noteq> []) \<Longrightarrow>
   (validateOperations tr ops = [] \<longleftrightarrow> list_all ruleComplete ops) \<and>
   (list_all ruleComplete xs \<longrightarrow> ruleProblem op = Some key \<longrightarrow> validateOperations tr (xs @ op # ys) = tr key (Some (length xs + 1))) \<and>
   (ruleComplete op \<longrightarrow>
      (m_path (metaOf (modeOf op)) \<longrightarrow> strField ''path'' (operationPayload op) \<noteq> []) \<and>
      (modeOf op \<in> set FROM_REQUIRED_MODES \<longrightarrow> strField ''from'' (operationPayload op) \<noteq> []) \<and>
      (modeOf op \<in> set TO_REQUIRED_MODES \<longrightarrow> strField ''to'' (operationPayload op) \<noteq> []))"
  using validate_ok [of tr ops] validateFrom_first [of xs op key tr 0 ys] complete_written [of op]
  by (simp add: payload_gets validateOperations_def)

theorem rules_validated_witness:
  "validateOperations sampleTr [sampleRule, sampleRule\<lparr>op_path := [32]\<rparr>] = sampleTr (lit ''Rule {{line}} is missing target path'') (Some 2) \<and>
   strField ''path'' (operationPayload sampleRule) \<noteq> []"
proof -
  have s: "list_all ruleComplete [sampleRule]" "ruleComplete sampleRule" "m_path (metaOf (modeOf sampleRule))"
    "ruleProblem (sampleRule\<lparr>op_path := [32]\<rparr>) = Some (lit ''Rule {{line}} is missing target path'')" by code_simp+
  show ?thesis
    using rules_validated [of sampleTr "[]" "[sampleRule]" "sampleRule\<lparr>op_path := [32]\<rparr>" "lit ''Rule {{line}} is missing target path''" "[]"]
      rules_validated [of sampleTr "[]" "[]" sampleRule "[]" "[]"] sampleTr_ne s by (simp add: numeral_2_eq_2)
qed

text \<open>
  C27. In every state the dialog can get into: there is a rule, the identifiers of rules are distinct, modes and logics are known ones,
  the selected rule exists, and every text saved is empty, or JSON, an object when it was saved from the form, whose rules are complete when they come from the form.
\<close>

theorem dialog_invariant:
  "reachable clk tr st \<Longrightarrow> (\<forall>k l. tr k l \<noteq> []) \<Longrightarrow>
   operations st \<noteq> [] \<and> distinct (map op_id (operations st)) \<and> list_all (ruleFine (localIdSeed st)) (operations st) \<and>
   list_ex (\<lambda>o'. Some (op_id o') = selectedOperationId st) (operations st) \<and> list_all (\<lambda>(m, t). savedOk m t) (saved st)"
  using reachable_fine [of clk tr st] by (simp add: stateFine_def rulesFine_def list_all_iff)

theorem dialog_invariant_witness:
  "\<exists>st :: Editor. length (saved st) = 1 \<and> operations st \<noteq> [] \<and> list_ex (\<lambda>o'. Some (op_id o') = selectedOperationId st) (operations st) \<and>
     list_all (\<lambda>(m, t). savedOk m t) (saved st)"
proof -
  let ?clk = "\<lambda>_. jint 0"
  define s1 where "s1 = settle (mounted ?clk 0)"
  define s2 where "s2 = settle (updateOperation (PoId (jint 0) 0) [Path (lit ''a''), ValueText (lit ''1'')] s1)"
  define s3 where "s3 = settle (handleSave sampleTr s2)"
  have "reachable ?clk sampleTr s1" unfolding s1_def by (rule reachable.start)
  then have "reachable ?clk sampleTr s2"
    unfolding s2_def by (rule reachable.event [where e = "UpdateRule (PoId (jint 0) 0) [Path (lit ''a''), ValueText (lit ''1'')]"]) simp_all
  then have "reachable ?clk sampleTr s3" unfolding s3_def by (rule reachable.event [where e = Save]) simp_all
  moreover have "length (saved s3) = 1" unfolding s3_def s2_def s1_def by code_simp
  ultimately show ?thesis using dialog_invariant [of ?clk sampleTr s3] sampleTr_ne by blast
qed

text \<open>
   Dropping a rule on another places it directly before or after that rule, the other rules keep their order, and no rule is lost or repeated.
\<close>

theorem reorder_places:
  "distinct (map op_id ops) \<Longrightarrow>
   mset (reorderOperations ops i j pos) = mset ops \<and>
   (s \<in> set ops \<longrightarrow> t \<in> set ops \<longrightarrow> s \<noteq> t \<longrightarrow>
     (\<exists>a b. filter (\<lambda>o'. op_id o' \<noteq> op_id s) ops = a @ t # b \<and>
       reorderOperations ops (Some (op_id s)) (Some (op_id t)) pos = a @ (if pos = Before then [s, t] else [t, s]) @ b))"
  using reorder_mset reorder_known by blast

theorem reorder_places_witness:
  "mset (reorderOperations [sampleRule, sampleRule\<lparr>op_id := PoId NaN 9\<rparr>] (Some (PoId NaN 9)) (Some (op_id sampleRule)) Before) =
     mset [sampleRule, sampleRule\<lparr>op_id := PoId NaN 9\<rparr>] \<and>
   (\<exists>a b. reorderOperations [sampleRule, sampleRule\<lparr>op_id := PoId NaN 9\<rparr>] (Some (PoId NaN 9)) (Some (op_id sampleRule)) Before =
     a @ [sampleRule\<lparr>op_id := PoId NaN 9\<rparr>, sampleRule] @ b)"
proof -
  let ?x = "sampleRule\<lparr>op_id := PoId NaN 9\<rparr>"
  have d: "distinct (map op_id [sampleRule, ?x])" by code_simp
  then have "op_id ?x \<noteq> op_id sampleRule" by simp
  then have "?x \<noteq> sampleRule" by metis
  with reorder_places [OF d, of "Some (PoId NaN 9)" "Some (op_id sampleRule)" Before ?x sampleRule] show ?thesis by auto
qed

text \<open>
   What the detailed form of a custom error writes is read back with its texts trimmed and a status code from 100 to 599; a plain message that is no JSON object
  is read back trimmed.  An endpoint of a synchronisation with a non-blank key is read back.
\<close>

theorem draft_roundtrip:
  "(code_units (re_message d) \<longrightarrow> code_units (re_code d) \<longrightarrow> code_units (re_type d) \<longrightarrow> \<not> re_simpleMode d \<longrightarrow>
      parseReturnErrorDraft (buildReturnErrorValueText d) =
        d\<lparr>re_message := trim (re_message d), re_statusCode := validStatus (re_statusCode d), re_code := trim (re_code d), re_type := trim (re_type d)\<rparr>) \<and>
   (re_simpleMode d \<longrightarrow> \<not> (case json_parse (trim (re_message d)) of Some v \<Rightarrow> plain_object v | None \<Rightarrow> False) \<longrightarrow>
      parseReturnErrorDraft (buildReturnErrorValueText d) = returnErrorDefaults\<lparr>re_message := trim (re_message d)\<rparr>) \<and>
   (type \<in> {lit ''json'', lit ''header''} \<longrightarrow> trim key \<noteq> [] \<longrightarrow>
      parseSyncTargetSpec (buildSyncTargetSpec type key) = (type, trim key))"
  using return_error_advanced return_error_simple sync_target_roundtrip by blast

theorem draft_roundtrip_witness:
  "parseReturnErrorDraft (buildReturnErrorValueText (returnErrorDefaults\<lparr>re_message := lit ''no access '', re_code := lit ''denied'', re_simpleMode := False\<rparr>)) =
     returnErrorDefaults\<lparr>re_message := lit ''no access'', re_code := lit ''denied'', re_simpleMode := False\<rparr> \<and>
   parseSyncTargetSpec (buildSyncTargetSpec (lit ''header'') (lit '' a:b'')) = (lit ''header'', lit ''a:b'')"
proof -
  let ?d = "returnErrorDefaults\<lparr>re_message := lit ''no access '', re_code := lit ''denied'', re_simpleMode := False\<rparr>"
  have u: "code_units (re_message ?d)" "code_units (re_code ?d)" "code_units (re_type ?d)" "\<not> re_simpleMode ?d" by code_simp+
  have e: "?d\<lparr>re_message := trim (re_message ?d), re_statusCode := validStatus (re_statusCode ?d), re_code := trim (re_code ?d), re_type := trim (re_type ?d)\<rparr>
      = returnErrorDefaults\<lparr>re_message := lit ''no access'', re_code := lit ''denied'', re_simpleMode := False\<rparr>" by code_simp
  have k: "trim (lit '' a:b'') = lit ''a:b''" "lit ''a:b'' \<noteq> []" by code_simp+
  show ?thesis using draft_roundtrip [of ?d "lit ''header''" "lit '' a:b''"] u e k by simp
qed

text \<open>
   Editing or deleting a condition shown for a pruning rule changes no more than rewriting the draft does, and the button that adds a condition only leaves the simple form:
  the draft is read again, with other identifiers, before the change is applied, and a condition without path is not written.
\<close>

theorem prune_edits_lost:
  "pruneObjectsDraft clk st = (Some d, st') \<Longrightarrow> r \<in> set (pr_rules d) \<Longrightarrow>
   operations (updatePruneRule clk i (c_id r) ps st') = operations (patchPruneDraft clk i [] st') \<and>
   operations (removePruneRule clk i (c_id r) st') = operations (patchPruneDraft clk i [] st') \<and>
   operations (addPruneRule clk i st') = operations (patchPruneDraft clk i [PrSimpleMode False] st')"
proof -
  assume p: "pruneObjectsDraft clk st = (Some d, st')" "r \<in> set (pr_rules d)"
  then obtain o' where o: "selectedOperation st = Some o'" "parsePruneObjectsDraft clk (op_value_text o') (localIdSeed st) = (d, localIdSeed st')"
    by (auto simp: pruneObjectsDraft_def split: option.splits if_splits prod.splits)
  have "idSeed (c_id r) < localIdSeed st'" using draft_rule_ids [of r clk "op_value_text o'" "localIdSeed st"] o(2) p(2) by simp
  then show ?thesis by (simp add: prune_edits)
qed

theorem prune_edits_lost_witness:
  "\<exists>d st' r. pruneObjectsDraft (\<lambda>_. jint 0) (settle ((mounted (\<lambda>_. jint 0) 0)\<lparr>operations := [sampleRule\<lparr>op_mode := lit ''prune_objects'',
       op_value_text := lit ''{\"conditions\":[{\"path\":\"type\"}]}''\<rparr>]\<rparr>)) = (Some d, st') \<and> pr_rules d = [r] \<and>
     operations (updatePruneRule (\<lambda>_. jint 0) (PoId (jint 0) 0) (c_id r) [CPath (lit ''kind'')] st') = operations (patchPruneDraft (\<lambda>_. jint 0) (PoId (jint 0) 0) [] st')"
proof -
  let ?clk = "\<lambda>_. jint 0"
  define st where "st = settle ((mounted ?clk 0)\<lparr>operations := [sampleRule\<lparr>op_mode := lit ''prune_objects'',
       op_value_text := lit ''{\"conditions\":[{\"path\":\"type\"}]}''\<rparr>]\<rparr>)"
  have "case pruneObjectsDraft ?clk st of (Some d, st') \<Rightarrow> length (pr_rules d) = 1 | _ \<Rightarrow> False" unfolding st_def by code_simp
  then obtain d st' r where p: "pruneObjectsDraft ?clk st = (Some d, st')" "pr_rules d = [r]"
    by (auto split: prod.splits option.splits simp: length_Suc_conv)
  with prune_edits_lost [OF p(1), of r "PoId (jint 0) 0" "[CPath (lit ''kind'')]"] show ?thesis unfolding st_def by auto
qed

end
