(* ===== verification/Model_Pricing.thy ===== *)
theory Model_Pricing
  imports Param_Laws Billing_Roundtrip
begin

text \<open>
  Prices of models in the system settings: \<open>features/system-settings/models\<close> (\<open>pricing-format.ts\<close>, \<open>model-pricing-core.ts\<close>,
  \<open>model-pricing-snapshots.ts\<close>, the handlers of \<open>model-ratio-visual-editor.tsx\<close>) and \<open>safeJsonParse\<close> of \<open>utils/json-parser.ts\<close>.
  Ten settings hold one JSON object each, from model names to prices, ratios, modes and expressions.  The six dependent ratios are kept as functions of
  the lane they belong to, which \<open>ratioFieldByLane\<close> names; a field that may be missing is the empty text, which the code treats alike.  A text whose JSON is no object
  gives no result: the code throws on null and does not store properties in other values.
\<close>

section \<open>Numbers\<close>

definition SNAP_EPSILON :: jsnum where
  "SNAP_EPSILON = rnd (1 / 10 ^ 12)"

definition NUMBER_EPSILON :: jsnum where
  "NUMBER_EPSILON = Fin (1 / 2 ^ 52)"

definition hasValue :: "jsval \<Rightarrow> bool" where
  "hasValue v = (v \<noteq> JStr [] \<and> v \<noteq> JNull \<and> v \<noteq> JUndef \<and> v \<noteq> JBool False)"

definition toNumberOrNull :: "jsval \<Rightarrow> jsnum option" where
  "toNumberOrNull v = (if \<not> hasValue v then None else let num = to_num v in if is_finite num then Some num else None)"

definition roundToDecimals :: "jsnum \<Rightarrow> nat \<Rightarrow> jsnum" where
  "roundToDecimals v decimals = (let factor = rnd (10 ^ decimals) in js_div (js_round (js_mul v factor)) factor)"

fun snapLoop :: "jsnum \<Rightarrow> jsnum \<Rightarrow> nat list \<Rightarrow> jsnum" where
  "snapLoop v tolerance [] = v"
| "snapLoop v tolerance (d # ds) =
     (let rounded = roundToDecimals v d in if js_le (js_abs (js_sub v rounded)) tolerance then rounded else snapLoop v tolerance ds)"

definition snapFloatDrift :: "jsnum \<Rightarrow> jsnum" where
  "snapFloatDrift v = snapLoop v (js_max SNAP_EPSILON (js_mul (js_mul (js_abs v) NUMBER_EPSILON) (jint 8))) [0..<9]"

definition formatPricingNumber :: "jsval \<Rightarrow> jstr" where
  "formatPricingNumber v =
     (case toNumberOrNull v of None \<Rightarrow> [] | Some num \<Rightarrow> num_str (parse_float (to_fixed (snapFloatDrift num) 12)))"

section \<open>Data\<close>

datatype PricingMode = PerToken | PerRequest | TieredExpr

datatype LaneKey = Completion | Cache | CreateCache | Image | AudioInput | AudioOutput

record ModelRatioData =
  md_name :: jstr
  md_price :: jstr
  md_ratio :: jstr
  md_lanes :: "LaneKey \<Rightarrow> jstr"
  md_billingMode :: PricingMode
  md_billingExpr :: jstr
  md_requestRuleExpr :: jstr

record ModelPricingSnapshot =
  ms_name :: jstr
  ms_price :: jstr
  ms_ratio :: jstr
  ms_lanes :: "LaneKey \<Rightarrow> jstr"
  ms_billingMode :: PricingMode
  ms_billingExpr :: jstr
  ms_requestRuleExpr :: jstr
  ms_hasConflict :: bool

record ModelPricingSnapshotInput =
  in_modelPrice :: jstr
  in_modelRatio :: jstr
  in_lanes :: "LaneKey \<Rightarrow> jstr"
  in_billingMode :: jstr
  in_billingExpr :: jstr

text \<open>The objects the texts hold.\<close>

type_synonym jsobj = "(jstr \<times> jsval) list"

record PricingMaps =
  priceMap :: jsobj
  ratioMap :: jsobj
  laneMaps :: "LaneKey \<Rightarrow> jsobj"
  billingModeMap :: jsobj
  billingExprMap :: jsobj

text \<open>The lanes in the order of the settings and in the order of the form.\<close>

definition settingLanes :: "LaneKey list" where
  "settingLanes = [Cache, CreateCache, Completion, Image, AudioInput, AudioOutput]"

definition laneConfigs :: "LaneKey list" where
  "laneConfigs = [Completion, Cache, CreateCache, Image, AudioInput, AudioOutput]"

section \<open>Reading\<close>

definition safeJsonParse :: "jstr \<Rightarrow> jsval \<Rightarrow> jsval" where
  "safeJsonParse t fallback = (if trim t = [] then fallback else opt_or (json_parse (trim t)) fallback)"

definition mapText :: "jstr \<Rightarrow> jsobj option" where
  "mapText t = (case safeJsonParse t (JObj []) of JObj o' \<Rightarrow> Some o' | _ \<Rightarrow> None)"

definition readMaps :: "ModelPricingSnapshotInput \<Rightarrow> PricingMaps option" where
  "readMaps texts =
     do {
       prices \<leftarrow> mapText (in_modelPrice texts);
       ratios \<leftarrow> mapText (in_modelRatio texts);
       modes \<leftarrow> mapText (in_billingMode texts);
       exprs \<leftarrow> mapText (in_billingExpr texts);
       if list_all (\<lambda>lane. mapText (in_lanes texts lane) \<noteq> None) settingLanes
       then Some \<lparr>priceMap = prices, ratioMap = ratios, laneMaps = (\<lambda>lane. opt_or (mapText (in_lanes texts lane)) []),
              billingModeMap = modes, billingExprMap = exprs\<rparr>
       else None
     }"

definition modelNames :: "PricingMaps \<Rightarrow> jstr list" where
  "modelNames maps = uniq (map fst (priceMap maps) @ map fst (ratioMap maps) @
     concat (map (\<lambda>lane. map fst (laneMaps maps lane)) settingLanes) @ map fst (billingModeMap maps) @ map fst (billingExprMap maps))"

text \<open>\<open>map[name]?.toString() || ''\<close>.\<close>

definition valueText :: "jsobj \<Rightarrow> jstr \<Rightarrow> jstr" where
  "valueText o' name = (let v = obj_get name o' in if nullish v then [] else to_string v)"

definition snapshotOf :: "PricingMaps \<Rightarrow> jstr \<Rightarrow> ModelPricingSnapshot option" where
  "snapshotOf maps name =
     (let price = valueText (priceMap maps) name; ratio = valueText (ratioMap maps) name;
          lanes = (\<lambda>lane. valueText (laneMaps maps lane) name);
          base = \<lparr>ms_name = name, ms_price = price, ms_ratio = ratio, ms_lanes = lanes,
            ms_billingMode = (if price \<noteq> [] then PerRequest else PerToken), ms_billingExpr = [], ms_requestRuleExpr = [],
            ms_hasConflict = (price \<noteq> [] \<and> (ratio \<noteq> [] \<or> list_ex (\<lambda>lane. lanes lane \<noteq> []) settingLanes))\<rparr>
      in if obj_get name (billingModeMap maps) = JStr (lit ''tiered_expr'') then
           do {
             fullExpr \<leftarrow> str_value (js_or (obj_get name (billingExprMap maps)) (JStr []));
             parts \<leftarrow> splitBillingExprAndRequestRules fullExpr;
             Some (base\<lparr>ms_billingMode := TieredExpr, ms_billingExpr := billingExpr parts,
               ms_requestRuleExpr := requestRuleExpr parts, ms_hasConflict := False\<rparr>)
           }
         else Some base)"

fun mapSnapshots :: "PricingMaps \<Rightarrow> jstr list \<Rightarrow> ModelPricingSnapshot list option" where
  "mapSnapshots maps [] = Some []"
| "mapSnapshots maps (n # ns) = do { s \<leftarrow> snapshotOf maps n; ss \<leftarrow> mapSnapshots maps ns; Some (s # ss) }"

definition buildModelSnapshots :: "ModelPricingSnapshotInput \<Rightarrow> ModelPricingSnapshot list option" where
  "buildModelSnapshots texts = do { maps \<leftarrow> readMaps texts; mapSnapshots maps (modelNames maps) }"

section \<open>Writing\<close>

definition setIfPresent :: "jstr \<Rightarrow> jstr \<Rightarrow> jsobj \<Rightarrow> jsobj" where
  "setIfPresent name v target =
     (if v = [] then target
      else let parsed = parse_float v in if is_finite parsed then obj_put name (JNum parsed) target else target)"

definition eraseModel :: "jstr \<Rightarrow> PricingMaps \<Rightarrow> PricingMaps" where
  "eraseModel name maps =
     \<lparr>priceMap = obj_delete name (priceMap maps), ratioMap = obj_delete name (ratioMap maps),
      laneMaps = (\<lambda>lane. obj_delete name (laneMaps maps lane)),
      billingModeMap = obj_delete name (billingModeMap maps), billingExprMap = obj_delete name (billingExprMap maps)\<rparr>"

definition setRatios :: "ModelRatioData \<Rightarrow> jstr \<Rightarrow> PricingMaps \<Rightarrow> PricingMaps" where
  "setRatios d name maps =
     maps\<lparr>ratioMap := setIfPresent name (md_ratio d) (ratioMap maps),
          laneMaps := (\<lambda>lane. setIfPresent name (md_lanes d lane) (laneMaps maps lane))\<rparr>"

definition setPrice :: "ModelRatioData \<Rightarrow> jstr \<Rightarrow> PricingMaps \<Rightarrow> PricingMaps" where
  "setPrice d name maps = maps\<lparr>priceMap := setIfPresent name (md_price d) (priceMap maps)\<rparr>"

definition storeModel :: "ModelRatioData \<Rightarrow> jstr \<Rightarrow> PricingMaps \<Rightarrow> PricingMaps" where
  "storeModel d name maps =
     (if md_billingMode d = TieredExpr then
        let combined = combineBillingExpr (md_billingExpr d) (md_requestRuleExpr d);
            maps' = (if combined \<noteq> []
                     then maps\<lparr>billingModeMap := obj_put name (JStr (lit ''tiered_expr'')) (billingModeMap maps),
                               billingExprMap := obj_put name (JStr combined) (billingExprMap maps)\<rparr>
                     else maps)
        in setRatios d name (setPrice d name maps')
      else if md_price d \<noteq> [] then setPrice d name maps
      else setRatios d name maps)"

definition writeTexts :: "PricingMaps \<Rightarrow> ModelPricingSnapshotInput" where
  "writeTexts maps =
     (let text_of = (\<lambda>o'. json_stringify 2 (JObj o'))
      in \<lparr>in_modelPrice = text_of (priceMap maps), in_modelRatio = text_of (ratioMap maps),
          in_lanes = (\<lambda>lane. text_of (laneMaps maps lane)), in_billingMode = text_of (billingModeMap maps),
          in_billingExpr = text_of (billingExprMap maps)\<rparr>)"

definition persistMaps :: "ModelRatioData \<Rightarrow> jstr list \<Rightarrow> PricingMaps \<Rightarrow> PricingMaps" where
  "persistMaps d targetNames maps = fold (\<lambda>name m. storeModel d name (eraseModel name m)) targetNames maps"

definition persistPricingData :: "ModelRatioData \<Rightarrow> jstr list \<Rightarrow> ModelPricingSnapshotInput \<Rightarrow> ModelPricingSnapshotInput option" where
  "persistPricingData d targetNames texts =
     map_option (\<lambda>maps. writeTexts (persistMaps d targetNames maps)) (readMaps texts)"

definition deleteTexts :: "jstr \<Rightarrow> ModelPricingSnapshotInput \<Rightarrow> ModelPricingSnapshotInput option" where
  "deleteTexts name texts = map_option (\<lambda>maps. writeTexts (eraseModel name maps)) (readMaps texts)"

definition editDataOf :: "ModelPricingSnapshot \<Rightarrow> ModelRatioData" where
  "editDataOf s =
     \<lparr>md_name = ms_name s, md_price = ms_price s, md_ratio = ms_ratio s, md_lanes = ms_lanes s,
      md_billingMode = (if ms_billingMode s = TieredExpr then TieredExpr else if ms_price s \<noteq> [] then PerRequest else PerToken),
      md_billingExpr = ms_billingExpr s, md_requestRuleExpr = ms_requestRuleExpr s\<rparr>"

section \<open>Rows\<close>

definition modeText :: "PricingMode \<Rightarrow> jstr" where
  "modeText m = (case m of PerToken \<Rightarrow> lit ''per-token'' | PerRequest \<Rightarrow> lit ''per-request'' | TieredExpr \<Rightarrow> lit ''tiered_expr'')"

definition getSnapshotSignature :: "ModelPricingSnapshot option \<Rightarrow> jstr" where
  "getSnapshotSignature snapshot =
     (case snapshot of
        None \<Rightarrow> []
      | Some s \<Rightarrow> json_stringify 0 (JObj (map (\<lambda>(k, t). (lit k, JStr t))
          [(''price'', ms_price s), (''ratio'', ms_ratio s), (''cacheRatio'', ms_lanes s Cache),
           (''createCacheRatio'', ms_lanes s CreateCache), (''completionRatio'', ms_lanes s Completion),
           (''imageRatio'', ms_lanes s Image), (''audioRatio'', ms_lanes s AudioInput),
           (''audioCompletionRatio'', ms_lanes s AudioOutput), (''billingMode'', modeText (ms_billingMode s)),
           (''billingExpr'', ms_billingExpr s), (''requestRuleExpr'', ms_requestRuleExpr s)])))"

record ModelRow =
  displayed :: ModelPricingSnapshot
  row_saved :: "ModelPricingSnapshot option"
  row_draft :: "ModelPricingSnapshot option"
  isDraftChanged :: bool
  isDraftDeleted :: bool
  isDraftNew :: bool

definition byName :: "ModelPricingSnapshot list \<Rightarrow> jstr \<rightharpoonup> ModelPricingSnapshot" where
  "byName rows = map_of (map (\<lambda>r. (ms_name r, r)) (rev rows))"

definition modelRow :: "ModelPricingSnapshot list \<Rightarrow> ModelPricingSnapshot list \<Rightarrow> jstr \<Rightarrow> ModelRow option" where
  "modelRow savedRows draftRows name =
     (let sv = byName savedRows name; dr = byName draftRows name
      in map_option (\<lambda>d. \<lparr>displayed = d, row_saved = sv, row_draft = dr,
             isDraftChanged = (getSnapshotSignature sv \<noteq> getSnapshotSignature dr),
             isDraftDeleted = (sv \<noteq> None \<and> dr = None), isDraftNew = (sv = None \<and> dr \<noteq> None)\<rparr>)
           (if sv \<noteq> None then sv else dr))"

text \<open>The comparison of names in the language of the user is the argument \<open>lc\<close>.\<close>

definition models :: "(jstr \<Rightarrow> jstr \<Rightarrow> jsnum) \<Rightarrow> ModelPricingSnapshotInput \<Rightarrow> ModelPricingSnapshotInput \<Rightarrow> ModelRow list option" where
  "models lc savedTexts texts =
     do {
       savedRows \<leftarrow> buildModelSnapshots savedTexts;
       draftRows \<leftarrow> buildModelSnapshots texts;
       let names = uniq (map ms_name savedRows @ map ms_name draftRows);
           rows = filter (\<lambda>r. \<not> isDraftDeleted r) (List.map_filter (modelRow savedRows draftRows) names)
       in Some (js_sort (\<lambda>a b. lc (ms_name (displayed a)) (ms_name (displayed b))) rows)
     }"

end
