(* ===== verification/Model_Pricing_Laws.thy ===== *)
theory Model_Pricing_Laws
  imports Model_Pricing
begin

text \<open>
  What the pricing settings keep: storing the prices of some models and deleting one changes the entries of these models only, what is stored is read back, and
  a model that is opened and stored unchanged keeps its entries.
\<close>

section \<open>Texts and objects\<close>

definition plainMaps :: "PricingMaps \<Rightarrow> bool" where
  "plainMaps maps =
     (json_plain (JObj (priceMap maps)) \<and> json_plain (JObj (ratioMap maps)) \<and>
      list_all (\<lambda>lane. json_plain (JObj (laneMaps maps lane))) settingLanes \<and>
      json_plain (JObj (billingModeMap maps)) \<and> json_plain (JObj (billingExprMap maps)))"

lemma all_lanes: "list_all P settingLanes \<longleftrightarrow> (\<forall>lane. P lane)"
  by (auto simp: settingLanes_def) (metis LaneKey.exhaust)

lemma mapText_write: "json_plain (JObj o') \<Longrightarrow> mapText (json_stringify 2 (JObj o')) = Some o'"
proof -
  assume p: "json_plain (JObj o')"
  have "json_parse (json_stringify 2 (JObj o')) = Some (JObj o')" "trim (json_stringify 2 (JObj o')) = json_stringify 2 (JObj o')"
    using json_roundtrip [OF p] trim_json [OF p] by blast+
  moreover from this have "json_stringify 2 (JObj o') \<noteq> []" using json_parse_not_blank by force
  ultimately show ?thesis by (simp add: mapText_def safeJsonParse_def opt_or_def)
qed

lemma readMaps_write: "plainMaps maps \<Longrightarrow> readMaps (writeTexts maps) = Some maps"
  by (simp add: plainMaps_def readMaps_def writeTexts_def Let_def mapText_write all_lanes opt_or_def)

section \<open>Entries\<close>

text \<open>The text a stored price or ratio is read back as.\<close>

definition numberText :: "jstr \<Rightarrow> jstr" where
  "numberText v = (if v = [] \<or> \<not> is_finite (parse_float v) then [] else num_str (parse_float v))"

lemma value_set:
  "valueText (setIfPresent name v (obj_delete name o')) name = numberText v"
  "name' \<noteq> name \<Longrightarrow> valueText (setIfPresent name v o') name' = valueText o' name'"
  "valueText (obj_delete name o') name' = (if name' = name then [] else valueText o' name')"
  by (auto simp: valueText_def setIfPresent_def numberText_def obj_get_put obj_get_delete nullish_def Let_def)

definition storedPrice :: "ModelRatioData \<Rightarrow> jstr" where
  "storedPrice d = (if md_billingMode d = TieredExpr \<or> md_price d \<noteq> [] then numberText (md_price d) else [])"

definition storedRatio :: "ModelRatioData \<Rightarrow> jstr \<Rightarrow> jstr" where
  "storedRatio d v = (if md_billingMode d = TieredExpr \<or> md_price d = [] then numberText v else [])"

definition storedExpr :: "ModelRatioData \<Rightarrow> jstr" where
  "storedExpr d = (if md_billingMode d = TieredExpr then combineBillingExpr (md_billingExpr d) (md_requestRuleExpr d) else [])"

text \<open>What the settings hold for a model.\<close>

definition entryIs :: "PricingMaps \<Rightarrow> jstr \<Rightarrow> ModelRatioData \<Rightarrow> bool" where
  "entryIs maps name d =
     (valueText (priceMap maps) name = storedPrice d \<and> valueText (ratioMap maps) name = storedRatio d (md_ratio d) \<and>
      list_all (\<lambda>lane. valueText (laneMaps maps lane) name = storedRatio d (md_lanes d lane)) settingLanes \<and>
      obj_get name (billingModeMap maps) = (if storedExpr d = [] then JUndef else JStr (lit ''tiered_expr'')) \<and>
      obj_get name (billingExprMap maps) = (if storedExpr d = [] then JUndef else JStr (storedExpr d)))"

definition sameEntry :: "PricingMaps \<Rightarrow> PricingMaps \<Rightarrow> jstr \<Rightarrow> bool" where
  "sameEntry maps maps' name =
     (valueText (priceMap maps') name = valueText (priceMap maps) name \<and> valueText (ratioMap maps') name = valueText (ratioMap maps) name \<and>
      list_all (\<lambda>lane. valueText (laneMaps maps' lane) name = valueText (laneMaps maps lane) name) settingLanes \<and>
      obj_get name (billingModeMap maps') = obj_get name (billingModeMap maps) \<and>
      obj_get name (billingExprMap maps') = obj_get name (billingExprMap maps))"

lemma sameEntry_snapshot: "sameEntry maps maps' name \<Longrightarrow> snapshotOf maps' name = snapshotOf maps name"
  by (simp add: sameEntry_def all_lanes snapshotOf_def Let_def)

lemma sameEntry_trans: "sameEntry a b n \<Longrightarrow> sameEntry b c n \<Longrightarrow> sameEntry a c n"
  by (simp add: sameEntry_def all_lanes)

lemma sameEntry_is: "sameEntry a b n \<Longrightarrow> entryIs a n d \<Longrightarrow> entryIs b n d"
  by (simp add: sameEntry_def entryIs_def all_lanes)

lemma erase_same: "name' \<noteq> name \<Longrightarrow> sameEntry maps (eraseModel name maps) name'"
  by (simp add: sameEntry_def all_lanes eraseModel_def value_set obj_get_delete)

lemma store_same: "name' \<noteq> name \<Longrightarrow> sameEntry maps (storeModel d name maps) name'"
  by (simp add: sameEntry_def all_lanes storeModel_def setRatios_def setPrice_def value_set obj_get_put Let_def)

lemma replace_same: "name' \<noteq> name \<Longrightarrow> sameEntry maps (storeModel d name (eraseModel name maps)) name'"
  by (rule sameEntry_trans [OF erase_same store_same])

lemma store_entry: "entryIs (storeModel d name (eraseModel name maps)) name d"
  by (simp add: entryIs_def all_lanes storeModel_def eraseModel_def setRatios_def setPrice_def value_set obj_get_put obj_get_delete Let_def
      storedPrice_def storedRatio_def storedExpr_def)

lemma persist_same: "name \<notin> set targets \<Longrightarrow> sameEntry maps (persistMaps d targets maps) name"
proof (induction targets arbitrary: maps)
  case Nil
  then show ?case by (simp add: persistMaps_def sameEntry_def all_lanes)
next
  case (Cons t targets)
  then have a: "sameEntry maps (storeModel d t (eraseModel t maps)) name" by (intro replace_same) auto
  have "sameEntry (storeModel d t (eraseModel t maps)) (persistMaps d targets (storeModel d t (eraseModel t maps))) name"
    using Cons.prems by (intro Cons.IH) auto
  then show ?case using sameEntry_trans [OF a] by (simp add: persistMaps_def)
qed

lemma persist_entry: "name \<in> set targets \<Longrightarrow> entryIs (persistMaps d targets maps) name d"
proof (induction targets rule: rev_induct)
  case (snoc t targets)
  define m where "m = persistMaps d targets maps"
  have e: "persistMaps d (targets @ [t]) maps = storeModel d t (eraseModel t m)" by (simp add: persistMaps_def m_def)
  show ?case
  proof (cases "name = t")
    case True
    then show ?thesis using store_entry by (simp add: e)
  next
    case False
    then have "entryIs m name d" using snoc by (simp add: m_def)
    then show ?thesis unfolding e by (rule sameEntry_is [OF replace_same [OF False]])
  qed
qed simp

definition snapshotOfData :: "ModelRatioData \<Rightarrow> jstr \<Rightarrow> ModelPricingSnapshot option" where
  "snapshotOfData d name =
     (let base = \<lparr>ms_name = name, ms_price = storedPrice d, ms_ratio = storedRatio d (md_ratio d),
            ms_lanes = (\<lambda>lane. storedRatio d (md_lanes d lane)),
            ms_billingMode = (if storedPrice d \<noteq> [] then PerRequest else PerToken), ms_billingExpr = [], ms_requestRuleExpr = [],
            ms_hasConflict = (storedPrice d \<noteq> [] \<and> (storedRatio d (md_ratio d) \<noteq> [] \<or>
              list_ex (\<lambda>lane. storedRatio d (md_lanes d lane) \<noteq> []) settingLanes))\<rparr>
      in if storedExpr d \<noteq> [] then
           map_option (\<lambda>parts. base\<lparr>ms_billingMode := TieredExpr, ms_billingExpr := billingExpr parts,
             ms_requestRuleExpr := requestRuleExpr parts, ms_hasConflict := False\<rparr>) (splitBillingExprAndRequestRules (storedExpr d))
         else Some base)"

lemma entry_snapshot: "entryIs maps name d \<Longrightarrow> snapshotOf maps name = snapshotOfData d name"
  by (auto simp: entryIs_def all_lanes snapshotOf_def snapshotOfData_def Let_def js_or_def str_value_def split: option.splits bind_splits)

definition storable :: "ModelRatioData \<Rightarrow> bool" where
  "storable d = (code_units (storedExpr d) \<and>
     list_all (\<lambda>v. v \<noteq> [] \<and> is_finite (parse_float v) \<longrightarrow> prints_back (parse_float v)) (md_price d # md_ratio d # map (md_lanes d) settingLanes))"

lemma plain_set:
  "json_plain (JObj o') \<Longrightarrow> code_units name \<Longrightarrow> (v \<noteq> [] \<and> is_finite (parse_float v) \<longrightarrow> prints_back (parse_float v)) \<Longrightarrow>
     json_plain (JObj (setIfPresent name v o'))"
  unfolding setIfPresent_def Let_def using plain_put_obj [of o' name "JNum (parse_float v)"]
  by (simp del: json_plain.simps(7))

lemma plain_store:
  assumes "plainMaps maps" "code_units name" "storable d"
  shows "plainMaps (storeModel d name (eraseModel name maps))"
proof -
  have e: "plainMaps (eraseModel name maps)"
    using assms(1) plain_delete_obj by (simp add: plainMaps_def eraseModel_def all_lanes del: json_plain.simps(7))
  have v: "v = md_price d \<or> v = md_ratio d \<or> (\<exists>lane. v = md_lanes d lane) \<Longrightarrow> v \<noteq> [] \<and> is_finite (parse_float v) \<longrightarrow> prints_back (parse_float v)" for v
    using assms(3) all_lanes [of "\<lambda>lane. md_lanes d lane \<noteq> [] \<and> is_finite (parse_float (md_lanes d lane)) \<longrightarrow> prints_back (parse_float (md_lanes d lane))"]
    by (auto simp: storable_def list_all_iff)
  have p: "plainMaps (setPrice d name m)" "plainMaps (setRatios d name m)" if "plainMaps m" for m
    using that plain_set [OF _ assms(2) v] by (auto simp: plainMaps_def setPrice_def setRatios_def all_lanes simp del: json_plain.simps(7))
  have "code_units (lit ''tiered_expr'')" by (rule lit_code_units)
  moreover have "md_billingMode d = TieredExpr \<Longrightarrow> code_units (combineBillingExpr (md_billingExpr d) (md_requestRuleExpr d))"
    using assms(3) by (simp add: storable_def storedExpr_def)
  ultimately show ?thesis
    using e p plain_put_obj [OF _ assms(2)]
    by (auto simp: storeModel_def Let_def plainMaps_def all_lanes simp del: json_plain.simps(7))
qed

lemma plain_persist: "plainMaps maps \<Longrightarrow> list_all code_units targets \<Longrightarrow> storable d \<Longrightarrow> plainMaps (persistMaps d targets maps)"
  by (induction targets arbitrary: maps) (simp_all add: persistMaps_def plain_store)

lemma erase_gone: "name \<notin> set (modelNames (eraseModel name maps))"
  by (auto simp: modelNames_def eraseModel_def obj_delete_def)

lemma delete_exact:
  assumes "readMaps texts = Some maps" "plainMaps maps"
  shows "deleteTexts name texts = Some (writeTexts (eraseModel name maps)) \<and> readMaps (writeTexts (eraseModel name maps)) = Some (eraseModel name maps)"
proof -
  have "plainMaps (eraseModel name maps)"
    using assms(2) plain_delete_obj by (simp add: plainMaps_def eraseModel_def all_lanes del: json_plain.simps(7))
  then show ?thesis using assms(1) readMaps_write by (simp add: deleteTexts_def)
qed

section \<open>Storing a model unchanged\<close>

lemma parse_no_rules: "tryParseRequestRuleExpr [] = Some (Some [])"
  by (simp add: tryParseRequestRuleExpr_def)

lemma partition_filled: "partitionParts ps = Some (rs, bs) \<Longrightarrow> [] \<notin> set rs"
proof (induction ps arbitrary: rs bs)
  case (Cons p ps)
  then show ?case by (cases "p = []") (auto simp: parse_no_rules split: bind_splits option.splits if_splits)
qed simp

lemma join_filled: "[] \<notin> set xs \<Longrightarrow> xs \<noteq> [] \<Longrightarrow> join sep xs \<noteq> []"
  by (cases xs; cases "tl xs") auto

lemma split_trim: "splitBillingExprAndRequestRules (trim e) = splitBillingExprAndRequestRules e"
  by (simp add: splitBillingExprAndRequestRules_def)

lemma split_plain:
  assumes "splitBillingExprAndRequestRules e = Some parts" "requestRuleExpr parts = []"
  shows "splitBillingExprAndRequestRules (combineBillingExpr (billingExpr parts) []) = Some parts"
proof -
  have "billingExpr parts = trim e"
    using assms partition_filled join_filled
    by (auto simp: splitBillingExprAndRequestRules_def Let_def split: if_splits bind_splits)
  then have "combineBillingExpr (billingExpr parts) [] = trim e" by (simp add: combineBillingExpr_def Let_def)
  with assms(1) show ?thesis by (simp add: split_trim)
qed

text \<open>
  An expression that is joined to its rules as it was: without rules, or with rules that the editor of rules writes and a balanced base without outer parentheses.
\<close>

definition exprKept :: "jstr \<Rightarrow> jstr \<Rightarrow> bool" where
  "exprKept e r = (r = [] \<or> trim e \<noteq> [] \<and> balanced (trim e) \<and> \<not> ends_with (lit '' : 1'') (trim e) \<and> unwrapOuterParens e = e \<and>
     (\<exists>groups. groups \<noteq> [] \<and> list_all readableGroup groups \<and> r = buildRequestRuleExpr groups))"

lemma split_kept:
  assumes "splitBillingExprAndRequestRules e = Some parts" "exprKept (billingExpr parts) (requestRuleExpr parts)"
  shows "splitBillingExprAndRequestRules (combineBillingExpr (billingExpr parts) (requestRuleExpr parts)) = Some parts"
proof (cases "requestRuleExpr parts = []")
  case True
  then show ?thesis using split_plain [OF assms(1)] by simp
next
  case False
  then obtain groups where g: "groups \<noteq> []" "\<forall>g\<in>set groups. readableGroup g" "requestRuleExpr parts = buildRequestRuleExpr groups"
      "trim (billingExpr parts) \<noteq> []" "balanced (trim (billingExpr parts))" "\<not> ends_with (lit '' : 1'') (trim (billingExpr parts))"
      "unwrapOuterParens (billingExpr parts) = billingExpr parts"
    using assms(2) by (auto simp: exprKept_def list_all_iff)
  show ?thesis using split_combined [OF g(4,5,6,1,2)] g(3,7) by simp
qed

lemma edit_keeps:
  assumes s: "snapshotOf maps name = Some s" and c: "\<not> ms_hasConflict s"
    and n: "list_all (\<lambda>v. numberText v = v) (ms_price s # ms_ratio s # map (ms_lanes s) settingLanes)"
    and e: "ms_billingMode s = TieredExpr \<longrightarrow> trim (ms_billingExpr s) \<noteq> [] \<and> exprKept (ms_billingExpr s) (ms_requestRuleExpr s)"
  shows "snapshotOfData (editDataOf s) name = Some s"
proof -
  have l: "numberText (ms_lanes s lane) = ms_lanes s lane" for lane
    using n all_lanes [of "\<lambda>lane. numberText (ms_lanes s lane) = ms_lanes s lane"] by (auto simp: list_all_iff)
  have pr: "numberText (ms_price s) = ms_price s" "numberText (ms_ratio s) = ms_ratio s" using n by simp_all
  show ?thesis
  proof (cases "ms_billingMode s = TieredExpr")
    case True
    then obtain fe parts where f: "splitBillingExprAndRequestRules fe = Some parts" "ms_billingExpr s = billingExpr parts"
        "ms_requestRuleExpr s = requestRuleExpr parts" "ms_name s = name"
      using s by (auto simp: snapshotOf_def Let_def split: if_splits bind_splits)
    have "splitBillingExprAndRequestRules (combineBillingExpr (ms_billingExpr s) (ms_requestRuleExpr s)) = Some parts"
      using split_kept [OF f(1)] e True f(2,3) by simp
    moreover have "combineBillingExpr (ms_billingExpr s) (ms_requestRuleExpr s) \<noteq> []"
      using e True by (simp add: combineBillingExpr_def Let_def lit_def)
    ultimately show ?thesis
      using True f c l pr
      by (simp add: snapshotOfData_def editDataOf_def storedExpr_def storedPrice_def storedRatio_def Let_def)
  next
    case False
    have b: "ms_billingExpr s = []" "ms_requestRuleExpr s = []" "ms_name s = name" "ms_billingMode s = (if ms_price s \<noteq> [] then PerRequest else PerToken)"
        "ms_hasConflict s = (ms_price s \<noteq> [] \<and> (ms_ratio s \<noteq> [] \<or> list_ex (\<lambda>lane. ms_lanes s lane \<noteq> []) settingLanes))"
      using s False by (auto simp: snapshotOf_def Let_def split: if_splits bind_splits)
    have "ms_price s \<noteq> [] \<Longrightarrow> ms_ratio s = [] \<and> (\<forall>lane. ms_lanes s lane = [])"
      using c b(5) all_lanes [of "\<lambda>lane. ms_lanes s lane = []"] by (auto simp: list_ex_iff list_all_iff)
    then show ?thesis
      using False b l pr c
      by (cases "ms_price s = []")
        (simp_all add: snapshotOfData_def editDataOf_def storedExpr_def storedPrice_def storedRatio_def Let_def fun_eq_iff)
  qed
qed

end
