(* ===== verification/Pricing_Panel.thy ===== *)
theory Pricing_Panel
  imports Model_Pricing_Laws
begin

text \<open>
  The panel that edits the prices of one model: \<open>features/system-settings/models/model-pricing-sheet.tsx\<close> and the lane prices of
  \<open>model-pricing-core.ts\<close>.  The form shows prices and stores ratios: every handler that changes a price sets the ratios that depend on it.  Validation
  errors shown in the form are not kept; a refused commit has no result.
\<close>

section \<open>Prices from ratios\<close>

definition ratioToBasePrice :: "jstr \<Rightarrow> jstr" where
  "ratioToBasePrice ratio =
     (case toNumberOrNull (JStr ratio) of None \<Rightarrow> [] | Some num \<Rightarrow> formatPricingNumber (JNum (js_mul num (jint 2))))"

definition deriveLanePrice :: "jstr \<Rightarrow> jstr \<Rightarrow> jstr" where
  "deriveLanePrice ratio denominator =
     (case (toNumberOrNull (JStr ratio), toNumberOrNull (JStr denominator)) of
        (Some r, Some d) \<Rightarrow> formatPricingNumber (JNum (js_mul r d))
      | _ \<Rightarrow> [])"

record LaneState =
  ls_promptPrice :: jstr
  ls_prices :: "LaneKey \<Rightarrow> jstr"
  ls_enabled :: "LaneKey \<Rightarrow> bool"

definition createInitialLaneState :: "ModelRatioData option \<Rightarrow> LaneState" where
  "createInitialLaneState data' =
     (case data' of
        None \<Rightarrow> \<lparr>ls_promptPrice = [], ls_prices = (\<lambda>_. []), ls_enabled = (\<lambda>_. False)\<rparr>
      | Some d \<Rightarrow>
          let promptPrice = ratioToBasePrice (md_ratio d); audioInputPrice = deriveLanePrice (md_lanes d AudioInput) promptPrice
          in \<lparr>ls_promptPrice = promptPrice,
              ls_prices = (\<lambda>lane. if lane = AudioInput then audioInputPrice
                             else if lane = AudioOutput then deriveLanePrice (md_lanes d lane) audioInputPrice
                             else deriveLanePrice (md_lanes d lane) promptPrice),
              ls_enabled = (\<lambda>lane. hasValue (JStr (md_lanes d lane)))\<rparr>)"

section \<open>The panel\<close>

record Panel =
  pricingMode :: PricingMode
  promptPrice :: jstr
  lanePrices :: "LaneKey \<Rightarrow> jstr"
  laneEnabled :: "LaneKey \<Rightarrow> bool"
  panelExpr :: jstr
  panelRules :: jstr
  form_name :: jstr
  form_price :: jstr
  form_ratio :: jstr
  form_lanes :: "LaneKey \<Rightarrow> jstr"

definition initPanel :: "ModelRatioData option \<Rightarrow> Panel" where
  "initPanel editData =
     (let st = createInitialLaneState editData;
          empty = \<lparr>pricingMode = PerToken, promptPrice = ls_promptPrice st, lanePrices = ls_prices st, laneEnabled = ls_enabled st,
            panelExpr = [], panelRules = [], form_name = [], form_price = [], form_ratio = [], form_lanes = (\<lambda>_. [])\<rparr>
      in case editData of
           None \<Rightarrow> empty
         | Some d \<Rightarrow> empty\<lparr>form_name := md_name d, form_price := md_price d, form_ratio := md_ratio d, form_lanes := md_lanes d,
             pricingMode := (if md_billingMode d = TieredExpr then TieredExpr else if md_price d \<noteq> [] then PerRequest else PerToken),
             panelExpr := md_billingExpr d, panelRules := md_requestRuleExpr d\<rparr>)"

definition deriveLaneRatio :: "LaneKey \<Rightarrow> jstr \<Rightarrow> jstr \<Rightarrow> (LaneKey \<Rightarrow> jstr) \<Rightarrow> jstr" where
  "deriveLaneRatio lane price nextPromptPrice nextLanePrices =
     (case toNumberOrNull (JStr price) of
        None \<Rightarrow> []
      | Some priceNumber \<Rightarrow>
          (case toNumberOrNull (JStr (if lane = AudioOutput then nextLanePrices AudioInput else nextPromptPrice)) of
             None \<Rightarrow> []
           | Some base \<Rightarrow> if base = Fin 0 then [] else formatPricingNumber (JNum (js_div priceNumber base))))"

definition inputRatio :: "jstr \<Rightarrow> jstr" where
  "inputRatio price =
     (case toNumberOrNull (JStr price) of Some inputPrice \<Rightarrow> formatPricingNumber (JNum (js_div inputPrice (jint 2))) | None \<Rightarrow> [])"

definition syncLaneRatios :: "Panel \<Rightarrow> Panel" where
  "syncLaneRatios p =
     fold (\<lambda>key q. q\<lparr>form_lanes := (form_lanes q)(key :=
         if \<not> laneEnabled p key then [] else deriveLaneRatio key (lanePrices p key) (promptPrice p) (lanePrices p))\<rparr>)
       laneConfigs (p\<lparr>form_ratio := inputRatio (promptPrice p)\<rparr>)"

definition numericDraftRegex :: regex where
  "numericDraftRegex =
     (let digit = Cls False [(48, 57)]
      in Opt (Grp 1 (Alt (Seq (Plus digit) (Opt (Grp 2 (Seq (Txt (lit ''.'')) (Star digit))))) (Seq (Txt (lit ''.'')) (Star digit)))))"

definition handlePromptPriceChange :: "jstr \<Rightarrow> Panel \<Rightarrow> Panel" where
  "handlePromptPriceChange v p = (if \<not> test_whole numericDraftRegex v then p else syncLaneRatios (p\<lparr>promptPrice := v\<rparr>))"

definition handleLanePriceChange :: "LaneKey \<Rightarrow> jstr \<Rightarrow> Panel \<Rightarrow> Panel" where
  "handleLanePriceChange lane v p =
     (if \<not> test_whole numericDraftRegex v then p
      else let nextLanePrices = (lanePrices p)(lane := v);
               p1 = p\<lparr>lanePrices := nextLanePrices\<rparr>;
               p2 = (if laneEnabled p lane
                     then p1\<lparr>form_lanes := (form_lanes p1)(lane := deriveLaneRatio lane v (promptPrice p) nextLanePrices)\<rparr> else p1)
           in if lane = AudioInput \<and> laneEnabled p AudioOutput
              then p2\<lparr>form_lanes := (form_lanes p2)(AudioOutput :=
                     deriveLaneRatio AudioOutput (nextLanePrices AudioOutput) (promptPrice p) nextLanePrices)\<rparr>
              else p2)"

definition handleLaneToggle :: "LaneKey \<Rightarrow> bool \<Rightarrow> Panel \<Rightarrow> Panel" where
  "handleLaneToggle lane checked p =
     (if checked then
        p\<lparr>laneEnabled := (laneEnabled p)(lane := True),
          form_lanes := (form_lanes p)(lane := deriveLaneRatio lane (lanePrices p lane) (promptPrice p) (lanePrices p))\<rparr>
      else
        let q = p\<lparr>laneEnabled := (laneEnabled p)(lane := False), lanePrices := (lanePrices p)(lane := []),
                  form_lanes := (form_lanes p)(lane := [])\<rparr>
        in if lane = AudioInput
           then q\<lparr>laneEnabled := (laneEnabled q)(AudioOutput := False), lanePrices := (lanePrices q)(AudioOutput := []),
                  form_lanes := (form_lanes q)(AudioOutput := [])\<rparr>
           else q)"

definition handleModeChange :: "PricingMode \<Rightarrow> Panel \<Rightarrow> Panel" where
  "handleModeChange nextMode p =
     (let q = p\<lparr>pricingMode := nextMode\<rparr>
      in if nextMode = TieredExpr \<and> panelExpr p = [] then q\<lparr>panelExpr := lit ''tier(\"base\", p * 0 + c * 0)''\<rparr> else q)"

definition dependentMissing :: "Panel \<Rightarrow> bool" where
  "dependentMissing p =
     (pricingMode p = PerToken \<and> toNumberOrNull (JStr (promptPrice p)) = None \<and>
      list_ex (\<lambda>key. laneEnabled p key \<and> hasValue (JStr (lanePrices p key))) laneConfigs)"

definition audioMissing :: "Panel \<Rightarrow> bool" where
  "audioMissing p = (pricingMode p = PerToken \<and> laneEnabled p AudioOutput \<and> \<not> hasValue (JStr (lanePrices p AudioInput)))"

definition validatePricingValues :: "Panel \<Rightarrow> bool" where
  "validatePricingValues p = (\<not> dependentMissing p \<and> \<not> audioMissing p)"

definition buildSubmitData :: "Panel \<Rightarrow> ModelRatioData" where
  "buildSubmitData p =
     \<lparr>md_name = trim (form_name p), md_price = form_price p, md_ratio = form_ratio p, md_lanes = form_lanes p,
      md_billingMode = pricingMode p,
      md_billingExpr = (if pricingMode p = TieredExpr then panelExpr p else []),
      md_requestRuleExpr = (if pricingMode p = TieredExpr then panelRules p else [])\<rparr>"

text \<open>The schema of the form asks for a name.\<close>

definition commitDraft :: "Panel \<Rightarrow> ModelRatioData option" where
  "commitDraft p = (if form_name p = [] \<or> \<not> validatePricingValues p then None else Some (buildSubmitData p))"

section \<open>Edits\<close>

datatype PanelEvent =
  PromptPrice jstr | LanePrice LaneKey jstr | LaneToggle LaneKey bool | ModeChange PricingMode
| NameChange jstr | PriceChange jstr | ExprChange jstr | RulesChange jstr

fun panelStep :: "PanelEvent \<Rightarrow> Panel \<Rightarrow> Panel" where
  "panelStep (PromptPrice v) p = handlePromptPriceChange v p"
| "panelStep (LanePrice lane v) p = handleLanePriceChange lane v p"
| "panelStep (LaneToggle lane b) p = handleLaneToggle lane b p"
| "panelStep (ModeChange m) p = handleModeChange m p"
| "panelStep (NameChange v) p = p\<lparr>form_name := v\<rparr>"
| "panelStep (PriceChange v) p = (if test_whole numericDraftRegex v then p\<lparr>form_price := v\<rparr> else p)"
| "panelStep (ExprChange v) p = p\<lparr>panelExpr := v\<rparr>"
| "panelStep (RulesChange v) p = p\<lparr>panelRules := v\<rparr>"

text \<open>The ratios in the form are those of the prices shown.\<close>

definition inSync :: "Panel \<Rightarrow> bool" where
  "inSync p =
     (form_ratio p = inputRatio (promptPrice p) \<and>
      list_all (\<lambda>lane. form_lanes p lane =
        (if laneEnabled p lane then deriveLaneRatio lane (lanePrices p lane) (promptPrice p) (lanePrices p) else [])) laneConfigs)"

lemma all_configs: "list_all P laneConfigs \<longleftrightarrow> (\<forall>lane. P lane)"
  by (auto simp: laneConfigs_def) (metis LaneKey.exhaust)

lemma derive_other:
  assumes "lane \<noteq> AudioOutput \<or> q AudioInput = r AudioInput"
  shows "deriveLaneRatio lane v m q = deriveLaneRatio lane v m r"
proof (cases "lane = AudioOutput")
  case True
  with assms have "q AudioInput = r AudioInput" by simp
  then show ?thesis by (simp only: deriveLaneRatio_def)
qed (simp add: deriveLaneRatio_def)

lemma new_panel_sync: "inSync (initPanel None)"
  by (simp add: inSync_def all_configs initPanel_def createInitialLaneState_def inputRatio_def toNumberOrNull_def hasValue_def)

lemma sync_lanes:
  "syncLaneRatios p = p\<lparr>form_ratio := inputRatio (promptPrice p), form_lanes := (\<lambda>lane. if laneEnabled p lane
     then deriveLaneRatio lane (lanePrices p lane) (promptPrice p) (lanePrices p) else [])\<rparr>"
proof -
  define g where "g = (\<lambda>lane. if \<not> laneEnabled p lane then [] else deriveLaneRatio lane (lanePrices p lane) (promptPrice p) (lanePrices p))"
  have "fold (\<lambda>key q. q\<lparr>form_lanes := (form_lanes q)(key := g key)\<rparr>) laneConfigs q = q\<lparr>form_lanes := g\<rparr>" for q
  proof -
    have "(form_lanes q)(Completion := g Completion, Cache := g Cache, CreateCache := g CreateCache, Image := g Image,
        AudioInput := g AudioInput, AudioOutput := g AudioOutput) = g" (is "?f = g")
    proof
      show "?f lane = g lane" for lane by (cases lane) simp_all
    qed
    then show ?thesis by (simp add: laneConfigs_def)
  qed
  then have "syncLaneRatios p = p\<lparr>form_ratio := inputRatio (promptPrice p), form_lanes := g\<rparr>"
    by (simp only: syncLaneRatios_def g_def)
  then show ?thesis by (simp add: g_def fun_eq_iff cong: if_cong)
qed

lemma prompt_sync: "test_whole numericDraftRegex v \<Longrightarrow> inSync (handlePromptPriceChange v p)"
  by (simp add: handlePromptPriceChange_def sync_lanes inSync_def all_configs)

lemma derive_upd [simp]:
  "lane' \<noteq> AudioInput \<Longrightarrow> deriveLaneRatio lane v m (q(lane' := w)) = deriveLaneRatio lane v m q"
  "lane \<noteq> AudioOutput \<Longrightarrow> deriveLaneRatio lane v m (q(lane' := w)) = deriveLaneRatio lane v m q"
  by (auto intro: derive_other)

lemma inSync_iff:
  "inSync p \<longleftrightarrow> form_ratio p = inputRatio (promptPrice p) \<and>
     (\<forall>lane. form_lanes p lane = (if laneEnabled p lane then deriveLaneRatio lane (lanePrices p lane) (promptPrice p) (lanePrices p) else []))"
  by (simp add: inSync_def all_configs)

lemma lane_price_sync:
  assumes "inSync p"
  shows "inSync (handleLanePriceChange lane v p)"
proof (cases "test_whole numericDraftRegex v")
  case True
  have "form_lanes (handleLanePriceChange lane v p) l =
      (if laneEnabled p l then deriveLaneRatio l (((lanePrices p)(lane := v)) l) (promptPrice p) ((lanePrices p)(lane := v)) else [])" for l
    using assms True by (cases "lane = AudioInput"; cases "l = AudioOutput") (auto simp: inSync_iff handleLanePriceChange_def Let_def)
  then show ?thesis using assms True by (simp add: inSync_iff handleLanePriceChange_def Let_def)
qed (use assms in \<open>simp add: handleLanePriceChange_def\<close>)

lemma lane_toggle_sync:
  assumes "inSync p"
  shows "inSync (handleLaneToggle lane b p)"
proof -
  define q where "q = handleLaneToggle lane b p"
  have "form_lanes q l = (if laneEnabled q l then deriveLaneRatio l (lanePrices q l) (promptPrice q) (lanePrices q) else [])" for l
    using assms by (cases b; cases "lane = AudioInput"; cases "l = AudioOutput") (auto simp: q_def inSync_iff handleLaneToggle_def Let_def)
  moreover have "form_ratio q = inputRatio (promptPrice q)"
    using assms by (simp add: q_def inSync_iff handleLaneToggle_def Let_def)
  ultimately show ?thesis by (simp add: q_def inSync_iff)
qed

lemma inSync_other [simp]:
  "inSync (p\<lparr>form_name := v\<rparr>) = inSync p" "inSync (p\<lparr>form_price := v\<rparr>) = inSync p" "inSync (p\<lparr>pricingMode := m\<rparr>) = inSync p"
  "inSync (p\<lparr>panelExpr := v\<rparr>) = inSync p" "inSync (p\<lparr>panelRules := v\<rparr>) = inSync p"
  by (simp_all add: inSync_iff)

lemma step_sync: "inSync p \<Longrightarrow> inSync (panelStep e p)"
proof (cases e)
  case (PromptPrice v)
  then show "inSync p \<Longrightarrow> ?thesis" using prompt_sync by (cases "test_whole numericDraftRegex v") (simp_all add: handlePromptPriceChange_def)
qed (simp_all add: lane_price_sync lane_toggle_sync handleModeChange_def Let_def)

end
