(* ===== verification/Pricing_Editor.thy ===== *)
theory Pricing_Editor
  imports Pricing_Panel
begin

text \<open>
  The table of model prices with its panel, \<open>features/system-settings/models/model-ratio-visual-editor.tsx\<close> and the texts its rows and its preview show
  (\<open>model-pricing-snapshots.ts\<close>, \<open>buildPreviewRows\<close> of \<open>model-pricing-core.ts\<close>).  The layout is the one with the panel beside the table: the panel is there
  while the editor is open, and is set up again whenever the edited data are replaced.  In the tiered mode the panel also mounts the editor of tiered prices, which may change the
  panel's expression; that editor is in \<open>Tier_Editor\<close>, and the operations here are composed with it in \<open>Spec2Isabelle\<close> (\<open>syncTier\<close>, \<open>hostedEdit\<close>, \<open>hostedCommit\<close>).  Messages, selections and filters of the table are left out.
\<close>

section \<open>Texts shown\<close>

text \<open>The argument \<open>t\<close> is the translation; \<open>middleDot\<close> is the separator of the source.\<close>

definition middleDot :: jstr where
  "middleDot = [32, 183, 32]"

record PreviewRow =
  pv_key :: jstr
  pv_label :: jstr
  pv_value :: jstr
  pv_multiline :: bool

definition lanePreview :: "(jstr \<Rightarrow> jstr) \<Rightarrow> Panel \<Rightarrow> string \<Rightarrow> string \<Rightarrow> LaneKey \<Rightarrow> PreviewRow" where
  "lanePreview t p key label lane =
     \<lparr>pv_key = lit key, pv_label = t (lit label),
      pv_value = (if laneEnabled p lane \<and> lanePrices p lane \<noteq> [] then lit ''$'' @ lanePrices p lane else t (lit ''Empty'')), pv_multiline = False\<rparr>"

definition buildPreviewRows :: "(jstr \<Rightarrow> jstr) \<Rightarrow> Panel \<Rightarrow> PreviewRow list" where
  "buildPreviewRows t p =
     (if pricingMode p = TieredExpr then
        let effectiveExpr = combineBillingExpr (panelExpr p) (panelRules p)
        in [\<lparr>pv_key = lit ''mode'', pv_label = lit ''BillingMode'', pv_value = lit ''tiered_expr'', pv_multiline = False\<rparr>,
            \<lparr>pv_key = lit ''expr'', pv_label = t (lit ''Expression''),
             pv_value = (if effectiveExpr \<noteq> [] then effectiveExpr else t (lit ''Empty'')), pv_multiline = True\<rparr>]
      else if pricingMode p = PerRequest then
        [\<lparr>pv_key = lit ''price'', pv_label = lit ''ModelPrice'',
          pv_value = (if form_price p \<noteq> [] then form_price p else t (lit ''Empty'')), pv_multiline = False\<rparr>]
      else
        [\<lparr>pv_key = lit ''inputPrice'', pv_label = t (lit ''Input price''),
          pv_value = (if promptPrice p \<noteq> [] then lit ''$'' @ promptPrice p else t (lit ''Empty'')), pv_multiline = False\<rparr>,
         lanePreview t p ''completion'' ''Completion price'' Completion,
         lanePreview t p ''cache'' ''Cache read price'' Cache,
         lanePreview t p ''createCache'' ''Cache write price'' CreateCache,
         lanePreview t p ''image'' ''Image input price'' Image,
         lanePreview t p ''audio'' ''Audio input price'' AudioInput,
         lanePreview t p ''audioCompletion'' ''Audio output price'' AudioOutput])"

definition warnings :: "(jstr \<Rightarrow> jstr) \<Rightarrow> ModelRatioData option \<Rightarrow> Panel \<Rightarrow> jstr list" where
  "warnings t editData p =
     (let hasConflict = (case editData of None \<Rightarrow> False
            | Some d \<Rightarrow> md_price d \<noteq> [] \<and> list_ex (\<lambda>v. hasValue (JStr v)) (md_ratio d # map (md_lanes d) laneConfigs))
      in (if hasConflict then [t (lit (''This model has both fixed-price and token-price settings. '' @
            ''Saving the current mode will rewrite the conflicting fields.''))] else []) @
         (if dependentMissing p then [t (lit ''Input price is required before saving dependent prices.'')] else []) @
         (if audioMissing p then [t (lit ''Audio output price requires an audio input price.'')] else []))"

definition hasPricingValue :: "jstr \<Rightarrow> bool" where
  "hasPricingValue v = (v \<noteq> [])"

definition snapshotNumber :: "jstr \<Rightarrow> jsnum option" where
  "snapshotNumber v = (if \<not> hasPricingValue v then None else let num = to_num (JStr v) in if is_finite num then Some num else None)"

definition ratioToPrice :: "jstr \<Rightarrow> jstr \<Rightarrow> jstr" where
  "ratioToPrice ratio denominator =
     (case (snapshotNumber ratio, if denominator \<noteq> [] then snapshotNumber denominator else Some (jint 2)) of
        (Some r, Some d) \<Rightarrow> formatPricingNumber (JNum (js_mul r d))
      | _ \<Rightarrow> [])"

definition getModeLabel :: "PricingMode \<Rightarrow> jstr" where
  "getModeLabel mode = (case mode of PerRequest \<Rightarrow> lit ''Per-request'' | TieredExpr \<Rightarrow> lit ''Expression'' | PerToken \<Rightarrow> lit ''Per-token'')"

text \<open>Two matches of \<open>tier(\<close> do not overlap, so they are the places where it stands.\<close>

definition tierCount :: "jstr \<Rightarrow> nat" where
  "tierCount expr = length (filter (\<lambda>i. starts_with (lit ''tier('') (drop i expr)) [0..<length expr])"

definition getExpressionSummary :: "(jstr \<Rightarrow> jstr) \<Rightarrow> ModelPricingSnapshot \<Rightarrow> jstr" where
  "getExpressionSummary t row =
     (if tierCount (ms_billingExpr row) > 0
      then t (lit ''Tiered pricing'') @ middleDot @ num_str (Fin (of_nat (tierCount (ms_billingExpr row)))) @ lit '' '' @ t (lit ''tiers'')
      else t (lit ''Expression pricing''))"

definition getPriceSummary :: "(jstr \<Rightarrow> jstr) \<Rightarrow> ModelPricingSnapshot \<Rightarrow> jstr" where
  "getPriceSummary t row =
     (if ms_billingMode row = TieredExpr then getExpressionSummary t row
      else if ms_billingMode row = PerRequest
      then (if ms_price row \<noteq> [] then lit ''$'' @ ms_price row @ lit '' / '' @ t (lit ''request'') else t (lit ''Unset price''))
      else let inputPrice = ratioToPrice (ms_ratio row) []
           in if inputPrice = [] then t (lit ''Unset price'')
              else let extraCount = length (filter hasPricingValue (map (ms_lanes row) laneConfigs));
                       shown = t (lit ''Input'') @ lit '' $'' @ inputPrice
                   in if extraCount > 0 then shown @ middleDot @ num_str (Fin (of_nat extraCount)) @ lit '' '' @ t (lit ''extras'') else shown)"

definition getPriceDetail :: "(jstr \<Rightarrow> jstr) \<Rightarrow> ModelPricingSnapshot \<Rightarrow> jstr" where
  "getPriceDetail t row =
     (if ms_billingMode row = TieredExpr
      then (if ms_requestRuleExpr row \<noteq> [] then t (lit ''Includes request rules'') else t (lit ''Expression based''))
      else if ms_billingMode row = PerRequest then t (lit ''Fixed request price'')
      else let inputPrice = ratioToPrice (ms_ratio row) []
           in if inputPrice = [] then t (lit ''No base input price'')
              else let part = (\<lambda>lane label. if ms_lanes row lane = [] then [] else t (lit label) @ lit '' $'' @ ratioToPrice (ms_lanes row lane) inputPrice);
                       details = take 2 (filter (\<lambda>v. v \<noteq> []) [part Completion ''Output'', part Cache ''Cache'', part CreateCache ''Cache write''])
                   in if details \<noteq> [] then join middleDot details else t (lit ''Base input price only''))"

definition modeCounts :: "ModelRow list \<Rightarrow> PricingMode \<Rightarrow> nat" where
  "modeCounts rows mode = length (filter (\<lambda>r. ms_billingMode (displayed r) = mode) rows)"

section \<open>The editor\<close>

record VisualEditor =
  ve_texts :: ModelPricingSnapshotInput
  editorOpen :: bool
  editData :: "ModelRatioData option"
  ve_panel :: Panel

definition openWith :: "ModelRatioData option \<Rightarrow> VisualEditor \<Rightarrow> VisualEditor" where
  "openWith d st = st\<lparr>editorOpen := True, editData := d, ve_panel := initPanel d\<rparr>"

definition handleEdit :: "ModelRow \<Rightarrow> VisualEditor \<Rightarrow> VisualEditor" where
  "handleEdit row st =
     (let editableModel = opt_or (row_draft row) (opt_or (row_saved row) (displayed row)) in openWith (Some (editDataOf editableModel)) st)"

definition handleAdd :: "VisualEditor \<Rightarrow> VisualEditor" where
  "handleAdd st = (if editorOpen st \<and> editData st = None then st else openWith None st)"

definition handleGlobalFilterChange :: "jstr \<Rightarrow> jstr \<Rightarrow> VisualEditor \<Rightarrow> VisualEditor" where
  "handleGlobalFilterChange previous next' st = (if next' \<noteq> previous then st\<lparr>editData := None, editorOpen := False\<rparr> else st)"

definition handleDelete :: "jstr \<Rightarrow> VisualEditor \<Rightarrow> VisualEditor option" where
  "handleDelete name st =
     map_option (\<lambda>texts. let st' = st\<lparr>ve_texts := texts\<rparr>
         in if map_option md_name (editData st) = Some name then st'\<lparr>editData := None, editorOpen := False\<rparr> else st')
       (deleteTexts name (ve_texts st))"

definition handleBatchCopy :: "jstr list \<Rightarrow> VisualEditor \<Rightarrow> VisualEditor option" where
  "handleBatchCopy targetNames st =
     (case editData st of
        None \<Rightarrow> Some st
      | Some d \<Rightarrow> if targetNames = [] then Some st
                  else map_option (\<lambda>texts. st\<lparr>ve_texts := texts\<rparr>) (persistPricingData d targetNames (ve_texts st)))"

definition commitOpenEditor :: "VisualEditor \<Rightarrow> (bool \<times> VisualEditor) option" where
  "commitOpenEditor st =
     (if \<not> editorOpen st then Some (True, st)
      else case commitDraft (ve_panel st) of
             None \<Rightarrow> Some (False, st)
           | Some d \<Rightarrow> map_option (\<lambda>texts. (True, openWith (Some d) (st\<lparr>ve_texts := texts\<rparr>))) (persistPricingData d [md_name d] (ve_texts st)))"

section \<open>What is stored\<close>

lemma num_str_filled [simp]: "num_str x \<noteq> []"
proof -
  have "num_str_pos q \<noteq> []" for q
    by (auto simp: num_str_pos_def Let_def split: prod.split)
  then show ?thesis by (auto simp: num_str_def dec_int_def lit_def split: jsnum.split)
qed

lemma format_empty: "formatPricingNumber (JNum x) = [] \<longleftrightarrow> \<not> is_finite x"
  by (simp add: formatPricingNumber_def toNumberOrNull_def hasValue_def)

text \<open>The price a lane is relative to.\<close>

definition laneBase :: "Panel \<Rightarrow> LaneKey \<Rightarrow> jsnum option" where
  "laneBase p lane = toNumberOrNull (JStr (if lane = AudioOutput then lanePrices p AudioInput else promptPrice p))"

lemma derive_cases:
  "deriveLaneRatio lane v (promptPrice p) (lanePrices p) =
     (case (toNumberOrNull (JStr v), laneBase p lane) of
        (Some x, Some b) \<Rightarrow> if b = Fin 0 then [] else formatPricingNumber (JNum (js_div x b)) | _ \<Rightarrow> [])"
  by (simp add: deriveLaneRatio_def laneBase_def split: option.split)

lemma run_sync: "inSync p \<Longrightarrow> inSync (fold panelStep es p)"
  by (induction es arbitrary: p) (simp_all add: step_sync)

lemma commit_some: "commitDraft p = Some d \<longleftrightarrow> form_name p \<noteq> [] \<and> validatePricingValues p \<and> d = buildSubmitData p"
  by (auto simp: commitDraft_def)

lemma commit_base:
  assumes "commitDraft p = Some d" "pricingMode p = PerToken" "laneEnabled p lane" "lanePrices p lane \<noteq> []" "lane \<noteq> AudioOutput"
  shows "laneBase p lane \<noteq> None"
  using assms all_configs [of "\<lambda>key. \<not> (laneEnabled p key \<and> lanePrices p key \<noteq> [])"]
  by (auto simp: commit_some validatePricingValues_def dependentMissing_def laneBase_def hasValue_def list_ex_iff list_all_iff)

lemma persist_reads:
  assumes "readMaps texts = Some maps" "plainMaps maps" "storable d" "list_all code_units targets"
  shows "persistPricingData d targets texts = Some (writeTexts (persistMaps d targets maps))"
    "readMaps (writeTexts (persistMaps d targets maps)) = Some (persistMaps d targets maps)"
    "snapshotOf (persistMaps d targets maps) name = (if name \<in> set targets then snapshotOfData d name else snapshotOf maps name)"
proof -
  show "persistPricingData d targets texts = Some (writeTexts (persistMaps d targets maps))"
    using assms(1) by (simp add: persistPricingData_def)
  show "readMaps (writeTexts (persistMaps d targets maps)) = Some (persistMaps d targets maps)"
    using plain_persist [OF assms(2,4,3)] by (rule readMaps_write)
  show "snapshotOf (persistMaps d targets maps) name = (if name \<in> set targets then snapshotOfData d name else snapshotOf maps name)"
    using entry_snapshot [OF persist_entry] sameEntry_snapshot [OF persist_same] by simp
qed

lemma open_same: "ms_name s = trim (ms_name s) \<Longrightarrow> commitDraft (initPanel (Some (editDataOf s))) = Some d \<Longrightarrow>
  (ms_billingMode s \<noteq> TieredExpr \<longrightarrow> ms_billingExpr s = [] \<and> ms_requestRuleExpr s = []) \<Longrightarrow> d = editDataOf s"
  by (auto simp: commit_some buildSubmitData_def initPanel_def editDataOf_def Let_def)

lemma snapshot_plain: "snapshotOf maps name = Some s \<Longrightarrow>
  ms_name s = name \<and> (ms_billingMode s \<noteq> TieredExpr \<longrightarrow> ms_billingExpr s = [] \<and> ms_requestRuleExpr s = [])"
  by (auto simp: snapshotOf_def Let_def split: if_splits bind_splits)

lemma fixed_price_stored:
  assumes "md_billingMode d \<noteq> TieredExpr" "md_price d \<noteq> []"
  shows "snapshotOfData d name = Some \<lparr>ms_name = name, ms_price = numberText (md_price d), ms_ratio = [], ms_lanes = (\<lambda>_. []),
    ms_billingMode = (if numberText (md_price d) \<noteq> [] then PerRequest else PerToken), ms_billingExpr = [], ms_requestRuleExpr = [], ms_hasConflict = False\<rparr>"
  using assms by (simp add: snapshotOfData_def storedExpr_def storedPrice_def storedRatio_def Let_def list_ex_iff)

lemma no_number [simp]: "toNumberOrNull (JStr []) = None"
  by (simp add: toNumberOrNull_def hasValue_def)

lemma initial_dependent: "\<not> dependentMissing (initPanel data')"
proof (cases data')
  case (Some d)
  have "toNumberOrNull (JStr (promptPrice (initPanel data'))) = None \<Longrightarrow> lanePrices (initPanel data') lane = []" for lane
    by (simp add: Some initPanel_def createInitialLaneState_def Let_def deriveLanePrice_def split: option.split)
  then show ?thesis by (auto simp: dependentMissing_def hasValue_def list_ex_iff)
qed (simp add: dependentMissing_def initPanel_def createInitialLaneState_def hasValue_def list_ex_iff)

section \<open>Rows\<close>

text \<open>The fields a signature is made of.\<close>

definition snapshotFields :: "ModelPricingSnapshot \<Rightarrow> jstr list" where
  "snapshotFields s = ms_price s # ms_ratio s # map (ms_lanes s) settingLanes @ [modeText (ms_billingMode s), ms_billingExpr s, ms_requestRuleExpr s]"

definition signatureKeys :: "string list" where
  "signatureKeys = [''price'', ''ratio'', ''cacheRatio'', ''createCacheRatio'', ''completionRatio'', ''imageRatio'', ''audioRatio'',
     ''audioCompletionRatio'', ''billingMode'', ''billingExpr'', ''requestRuleExpr'']"

lemma signature_fields:
  "getSnapshotSignature (Some s) = json_stringify 0 (JObj (zip (map lit signatureKeys) (map JStr (snapshotFields s))))"
  by (simp add: getSnapshotSignature_def snapshotFields_def signatureKeys_def settingLanes_def)

lemma signature_plain:
  assumes "list_all code_units (snapshotFields s)"
  shows "json_plain (JObj (zip (map lit signatureKeys) (map JStr (snapshotFields s))))"
proof -
  define o' where "o' = zip (map lit signatureKeys) (map JStr (snapshotFields s))"
  have "map fst o' = map lit signatureKeys" by (simp add: o'_def snapshotFields_def signatureKeys_def settingLanes_def)
  moreover have "distinct (map lit signatureKeys) \<and> sorted_wrt key_before (map lit signatureKeys)" by code_simp
  ultimately have "obj_of o' = o'" by (simp add: canonical_iff canonical_def)
  moreover have "code_units (fst kv) \<and> json_plain (snd kv)" if "kv \<in> set o'" for kv
  proof -
    from that have "(fst kv, snd kv) \<in> set (zip (map lit signatureKeys) (map JStr (snapshotFields s)))" by (simp add: o'_def)
    then have "fst kv \<in> set (map lit signatureKeys)" "snd kv \<in> set (map JStr (snapshotFields s))"
      by (rule set_zip_leftD, rule set_zip_rightD)
    then show ?thesis using assms lit_code_units by (auto simp: list_all_iff)
  qed
  ultimately show ?thesis by (simp add: o'_def)
qed

lemma signature_inj:
  assumes "list_all code_units (snapshotFields s)" "list_all code_units (snapshotFields d)"
  shows "getSnapshotSignature (Some s) = getSnapshotSignature (Some d) \<longleftrightarrow> snapshotFields s = snapshotFields d"
proof
  define o' where "o' = (\<lambda>s. zip (map lit signatureKeys) (map JStr (snapshotFields s)))"
  have r: "json_parse (json_stringify 0 (JObj (o' s))) = Some (JObj (o' s))" "json_parse (json_stringify 0 (JObj (o' d))) = Some (JObj (o' d))"
    unfolding o'_def by (rule json_roundtrip [OF signature_plain [OF assms(1)]], rule json_roundtrip [OF signature_plain [OF assms(2)]])
  assume "getSnapshotSignature (Some s) = getSnapshotSignature (Some d)"
  then have "json_stringify 0 (JObj (o' s)) = json_stringify 0 (JObj (o' d))" by (simp only: signature_fields o'_def)
  with r(1) have "json_parse (json_stringify 0 (JObj (o' d))) = Some (JObj (o' s))" by simp
  with r(2) have "o' s = o' d" by simp
  then have "map snd (o' s) = map snd (o' d)" by (rule arg_cong)
  then have "map JStr (snapshotFields s) = map JStr (snapshotFields d)"
    by (simp add: o'_def signatureKeys_def snapshotFields_def settingLanes_def)
  then show "snapshotFields s = snapshotFields d" by (simp add: inj_on_def inj_map_eq_map)
qed (simp add: signature_fields)

lemma signature_filled: "list_all code_units (snapshotFields s) \<Longrightarrow> getSnapshotSignature (Some s) \<noteq> []"
  using json_roundtrip [OF signature_plain, of s 0] json_parse_not_blank unfolding signature_fields by force

lemma snapshots_names: "mapSnapshots maps ns = Some ss \<Longrightarrow> map ms_name ss = ns"
  by (induction ns arbitrary: ss) (auto split: bind_splits dest: snapshot_plain)

lemma built_names: "buildModelSnapshots texts = Some ss \<Longrightarrow> distinct (map ms_name ss)"
  by (auto simp: buildModelSnapshots_def modelNames_def split: bind_splits dest: snapshots_names)

lemma byName_some: "distinct (map ms_name ss) \<Longrightarrow> byName ss n = Some s \<longleftrightarrow> s \<in> set ss \<and> ms_name s = n"
proof -
  assume "distinct (map ms_name ss)"
  then have "distinct (map fst (map (\<lambda>r. (ms_name r, r)) (rev ss)))" by (simp add: comp_def rev_map [symmetric])
  then have "byName ss n = Some s \<longleftrightarrow> (n, s) \<in> set (map (\<lambda>r. (ms_name r, r)) (rev ss))" unfolding byName_def by (rule map_of_eq_Some_iff)
  then show ?thesis by auto
qed

lemma byName_none: "distinct (map ms_name ss) \<Longrightarrow> byName ss n = None \<longleftrightarrow> n \<notin> ms_name ` set ss"
  using byName_some [of ss n] by (metis (no_types, lifting) image_iff not_None_eq)

text \<open>The marks of a row say how the draft differs from the saved entries.\<close>

definition marksExact :: "ModelPricingSnapshot list \<Rightarrow> ModelRow \<Rightarrow> bool" where
  "marksExact saved r =
     (let d = the (row_draft r)
      in (isDraftNew r \<longleftrightarrow> ms_name d \<notin> ms_name ` set saved) \<and> \<not> isDraftDeleted r \<and>
         (isDraftChanged r \<longleftrightarrow> isDraftNew r \<or> (\<exists>s\<in>set saved. ms_name s = ms_name d \<and> snapshotFields s \<noteq> snapshotFields d)))"

lemma row_flags:
  assumes "distinct (map ms_name saved)" "distinct (map ms_name drafts)" "list_all (\<lambda>s. list_all code_units (snapshotFields s)) (saved @ drafts)"
    and "n \<in> ms_name ` set drafts"
  shows "marksExact saved (the (modelRow saved drafts n))"
proof -
  from assms(4) obtain d where d: "byName drafts n = Some d" "d \<in> set drafts" "ms_name d = n" using byName_some [OF assms(2)] by auto
  show ?thesis
  proof (cases "byName saved n")
    case None
    then have "n \<notin> ms_name ` set saved" using byName_none [OF assms(1)] by simp
    moreover have "getSnapshotSignature (Some d) \<noteq> []" using assms(3) d(2) by (intro signature_filled) (auto simp: list_all_iff)
    ultimately show ?thesis using None d by (auto simp: marksExact_def modelRow_def getSnapshotSignature_def)
  next
    case (Some s)
    then have s: "s \<in> set saved" "ms_name s = n" "\<forall>s'\<in>set saved. ms_name s' = n \<longrightarrow> s' = s"
      by (simp_all add: byName_some [OF assms(1)]) (metis Some byName_some [OF assms(1)] option.inject)
    then have "(\<exists>s'\<in>set saved. ms_name s' = n \<and> snapshotFields s' \<noteq> snapshotFields d) \<longleftrightarrow> snapshotFields s \<noteq> snapshotFields d" by blast
    moreover have "getSnapshotSignature (Some s) = getSnapshotSignature (Some d) \<longleftrightarrow> snapshotFields s = snapshotFields d"
      using assms(3) s(1) d(2) by (intro signature_inj) (auto simp: list_all_iff)
    moreover have "n \<in> ms_name ` set saved" using s by blast
    ultimately show ?thesis using Some d(1,3) by (simp add: marksExact_def modelRow_def)
  qed
qed

section \<open>Properties\<close>

definition exampleTexts :: ModelPricingSnapshotInput where
  "exampleTexts =
     \<lparr>in_modelPrice = lit ''{\"img\": 4}'', in_modelRatio = lit ''{\"chat\": 3, \"pair\": 1}'',
      in_lanes = (\<lambda>lane. if lane = Completion then lit ''{\"chat\": 5}'' else []),
      in_billingMode = [], in_billingExpr = lit ''{}''\<rparr>"

definition exampleMaps :: PricingMaps where
  "exampleMaps = the (readMaps exampleTexts)"

definition exampleRow :: "jstr \<Rightarrow> ModelRow" where
  "exampleRow name = (let s = snapshotOf exampleMaps name
     in \<lparr>displayed = the s, row_saved = s, row_draft = s, isDraftChanged = False, isDraftDeleted = False, isDraftNew = False\<rparr>)"

definition exampleEditor :: VisualEditor where
  "exampleEditor = \<lparr>ve_texts = exampleTexts, editorOpen = False, editData = None, ve_panel = initPanel None\<rparr>"

lemma example_reads: "readMaps exampleTexts = Some exampleMaps"
proof -
  have "\<not> Option.is_none (readMaps exampleTexts)" by code_simp
  then show ?thesis by (simp add: exampleMaps_def Option.is_none_def)
qed

lemma example_plain: "plainMaps exampleMaps"
  by code_simp

text \<open>
  C29. Storing the prices of a model under some names replaces what the ten settings hold for these names by what the data say, in the mode the data say, and keeps what they
  hold for every other model; deleting a model removes its name from all settings and keeps every other model.  This is what is read back from the texts that are written.
\<close>

theorem pricing_store_exact:
  assumes "readMaps texts = Some maps" "plainMaps maps" "storable d" "list_all code_units targets"
  shows "\<exists>texts' maps' texts'' maps''.
    persistPricingData d targets texts = Some texts' \<and> readMaps texts' = Some maps' \<and>
    (\<forall>name. snapshotOf maps' name = (if name \<in> set targets then snapshotOfData d name else snapshotOf maps name)) \<and>
    deleteTexts n texts = Some texts'' \<and> readMaps texts'' = Some maps'' \<and> n \<notin> set (modelNames maps'') \<and>
    (\<forall>name. name \<noteq> n \<longrightarrow> snapshotOf maps'' name = snapshotOf maps name)"
  using persist_reads [OF assms] delete_exact [OF assms(1,2), of n] erase_gone [of n maps] sameEntry_snapshot [OF erase_same]
  by auto

theorem pricing_store_exact_witness:
  "\<exists>texts' maps'. persistPricingData (editDataOf (displayed (exampleRow (lit ''chat'')))) [lit ''copy''] exampleTexts = Some texts' \<and>
     readMaps texts' = Some maps' \<and> snapshotOf maps' (lit ''img'') = snapshotOf exampleMaps (lit ''img'')"
proof -
  have "storable (editDataOf (displayed (exampleRow (lit ''chat''))))" "lit ''img'' \<notin> set [lit ''copy'']" by code_simp+
  then show ?thesis
    using pricing_store_exact [OF example_reads example_plain, of _ "[lit ''copy'']"] lit_code_units by fastforce
qed

text \<open>
  Saving what the panel shows of an entry keeps the entries of every model, whether the panel accepts or not, when the entry has no conflict, its numbers are written as they are
  printed, and its expression is joined to its rules as it was.  The panel accepts unless the name is empty or an audio output price has no audio input price.
\<close>

lemma commit_kept:
  assumes "readMaps (ve_texts st) = Some maps" "plainMaps maps" "snapshotOf maps name = Some s" "row_draft row = Some s"
    and "trim name = name" "code_units name" "storable (editDataOf s)" "\<not> ms_hasConflict s"
    and "list_all (\<lambda>v. numberText v = v) (ms_price s # ms_ratio s # map (ms_lanes s) settingLanes)"
    and "ms_billingMode s = TieredExpr \<longrightarrow> trim (ms_billingExpr s) \<noteq> [] \<and> exprKept (ms_billingExpr s) (ms_requestRuleExpr s)"
  shows "\<exists>accepted st' maps'. commitOpenEditor (handleEdit row st) = Some (accepted, st') \<and> readMaps (ve_texts st') = Some maps' \<and>
    (\<forall>n. snapshotOf maps' n = snapshotOf maps n) \<and> editData st' = Some (editDataOf s) \<and> ve_panel st' = initPanel (Some (editDataOf s)) \<and>
    (accepted \<longleftrightarrow> name \<noteq> [] \<and> \<not> audioMissing (initPanel (Some (editDataOf s))))"
proof -
  define p where "p = initPanel (Some (editDataOf s))"
  have e: "handleEdit row st = openWith (Some (editDataOf s)) st" using assms(4) by (simp add: handleEdit_def)
  have acc: "commitDraft p \<noteq> None \<longleftrightarrow> name \<noteq> [] \<and> \<not> audioMissing p"
    using snapshot_plain [OF assms(3)] initial_dependent [of "Some (editDataOf s)"]
    by (auto simp: p_def commitDraft_def validatePricingValues_def initPanel_def Let_def editDataOf_def)
  show ?thesis
  proof (cases "commitDraft p")
    case None
    then show ?thesis using acc assms(1) by (simp add: e openWith_def commitOpenEditor_def p_def)
  next
    case (Some d)
    have d: "d = editDataOf s" "md_name d = name"
      using open_same [of s d] Some snapshot_plain [OF assms(3)] assms(5) by (auto simp: p_def editDataOf_def)
    have c: "list_all code_units [md_name d]" using d assms(6) by simp
    note r = persist_reads [OF assms(1,2) assms(7) c [unfolded d(1)]]
    have "snapshotOfData (editDataOf s) name = snapshotOf maps name"
      using edit_keeps [OF assms(3,8,9,10)] assms(3) by simp
    then have "\<forall>n. snapshotOf (persistMaps d [md_name d] maps) n = snapshotOf maps n" using r(3) d by auto
    then show ?thesis using Some acc r(1,2) d by (auto simp: e openWith_def commitOpenEditor_def p_def)
  qed
qed

text \<open>
  C30. In a panel opened for a new model, and in any panel once a new input price is typed, after any edits: a commit in the mode of token prices takes half the input price as
  ratio, and for every enabled lane with a price the quotient of this price and the price it is relative to, unless that is zero, no number, or the quotient is infinite; in these cases, and for
  disabled lanes, it takes no ratio.  A dependent price is never accepted without an input price.
\<close>

theorem committed_prices:
  assumes "p = fold panelStep es p0" "p0 = initPanel None \<or> (\<exists>v q. test_whole numericDraftRegex v \<and> p0 = handlePromptPriceChange v q)"
    and "commitDraft p = Some d" "pricingMode p = PerToken"
  shows "md_ratio d = inputRatio (promptPrice p) \<and>
    (\<forall>lane. md_lanes d lane =
      (case (toNumberOrNull (JStr (lanePrices p lane)), laneBase p lane) of
         (Some x, Some b) \<Rightarrow> if laneEnabled p lane \<and> b \<noteq> Fin 0 \<and> is_finite (js_div x b) then formatPricingNumber (JNum (js_div x b)) else []
       | _ \<Rightarrow> [])) \<and>
    (\<forall>lane. laneEnabled p lane \<and> lanePrices p lane \<noteq> [] \<and> lane \<noteq> AudioOutput \<longrightarrow> laneBase p lane \<noteq> None)"
proof -
  have i: "inSync p" using assms(1,2) new_panel_sync prompt_sync run_sync by blast
  have d: "md_ratio d = form_ratio p" "md_lanes d = form_lanes p" using assms(3) by (auto simp: commit_some buildSubmitData_def)
  have "md_lanes d lane = (case (toNumberOrNull (JStr (lanePrices p lane)), laneBase p lane) of
         (Some x, Some b) \<Rightarrow> if laneEnabled p lane \<and> b \<noteq> Fin 0 \<and> is_finite (js_div x b) then formatPricingNumber (JNum (js_div x b)) else []
       | _ \<Rightarrow> [])" for lane
    using i by (simp add: d inSync_iff derive_cases format_empty split: option.split)
  then show ?thesis using i commit_base [OF assms(3,4)] by (simp add: d inSync_iff)
qed

definition exampleEdits :: "PanelEvent list" where
  "exampleEdits = [NameChange (lit ''chat''), PromptPrice (lit ''3''), LaneToggle Completion True, LanePrice Completion (lit ''15'')]"

lemmas panel_eval = handlePromptPriceChange_def handleLanePriceChange_def handleLaneToggle_def handleModeChange_def sync_lanes
  initPanel_def createInitialLaneState_def Let_def

lemma example_drafts: "test_whole numericDraftRegex (lit ''3'')" "test_whole numericDraftRegex (lit ''15'')"
  by code_simp+

theorem committed_prices_witness:
  "\<exists>d. commitDraft (fold panelStep exampleEdits (initPanel None)) = Some d \<and> md_ratio d = lit ''1.5'' \<and> md_lanes d Completion = lit ''5''"
proof -
  define p where "p = fold panelStep exampleEdits (initPanel None)"
  have f: "form_name p = lit ''chat''" "pricingMode p = PerToken" "promptPrice p = lit ''3''" "lanePrices p Completion = lit ''15''"
      "laneEnabled p Completion" "\<not> laneEnabled p AudioOutput"
    using example_drafts by (simp_all add: p_def exampleEdits_def panel_eval)
  moreover have n: "inputRatio (lit ''3'') = lit ''1.5''" "toNumberOrNull (JStr (lit ''15'')) = Some (Fin 15)" "toNumberOrNull (JStr (lit ''3'')) = Some (Fin 3)"
      "formatPricingNumber (JNum (js_div (Fin 15) (Fin 3))) = lit ''5''" "is_finite (js_div (Fin 15) (Fin 3))" "Fin 3 \<noteq> Fin 0" "lit ''chat'' \<noteq> []"
    by code_simp+
  ultimately have "commitDraft p = Some (buildSubmitData p)"
    by (simp add: commit_some validatePricingValues_def dependentMissing_def audioMissing_def)
  moreover note committed_prices [OF p_def _ this]
  ultimately show ?thesis using f n by (simp add: p_def laneBase_def)
qed

text \<open>
  C31. A commit in the mode of token prices while the form still holds a fixed price is accepted, but stores the fixed price alone: no ratio is stored, the model stays in the mode of fixed prices,
  and so does the panel.
\<close>

theorem fixed_price_kept:
  assumes "readMaps (ve_texts st) = Some maps" "plainMaps maps" "editorOpen st"
    and "commitDraft (ve_panel st) = Some d" "storable d" "code_units (md_name d)"
    and "pricingMode (ve_panel st) = PerToken" "form_price (ve_panel st) \<noteq> []" "is_finite (parse_float (form_price (ve_panel st)))"
  shows "\<exists>st' maps' s. commitOpenEditor st = Some (True, st') \<and> readMaps (ve_texts st') = Some maps' \<and> snapshotOf maps' (md_name d) = Some s \<and>
    ms_billingMode s = PerRequest \<and> ms_price s = num_str (parse_float (form_price (ve_panel st))) \<and> ms_ratio s = [] \<and>
    (\<forall>lane. ms_lanes s lane = []) \<and> pricingMode (ve_panel st') = PerRequest"
proof -
  have d: "md_billingMode d = PerToken" "md_price d = form_price (ve_panel st)"
    using assms(4,7) by (auto simp: commit_some buildSubmitData_def)
  have "numberText (md_price d) = num_str (parse_float (form_price (ve_panel st)))" using assms(8,9) d by (simp add: numberText_def)
  moreover have "list_all code_units [md_name d]" using assms(6) by simp
  note r = persist_reads [OF assms(1,2,5) this]
  ultimately show ?thesis
    using fixed_price_stored [of d "md_name d"] assms(3,4,8) d r by (simp add: commitOpenEditor_def openWith_def initPanel_def Let_def)
qed

definition exampleSwitch :: VisualEditor where
  "exampleSwitch = (let st = handleEdit (exampleRow (lit ''img'')) exampleEditor
     in st\<lparr>ve_panel := fold panelStep [ModeChange PerToken, PromptPrice (lit ''3'')] (ve_panel st)\<rparr>)"

theorem fixed_price_kept_witness:
  "\<exists>st' maps' s. commitOpenEditor exampleSwitch = Some (True, st') \<and> readMaps (ve_texts st') = Some maps' \<and>
     snapshotOf maps' (lit ''img'') = Some s \<and> ms_billingMode s = PerRequest \<and> ms_ratio s = []"
proof -
  have t: "readMaps (ve_texts exampleSwitch) = Some exampleMaps" "editorOpen exampleSwitch"
    using example_reads by (simp_all add: exampleSwitch_def handleEdit_def openWith_def exampleEditor_def Let_def)
  have c: "form_name (ve_panel exampleSwitch) = lit ''img''" "form_price (ve_panel exampleSwitch) = lit ''4''"
      "pricingMode (ve_panel exampleSwitch) = PerToken" "form_ratio (ve_panel exampleSwitch) = lit ''1.5''"
      "map (form_lanes (ve_panel exampleSwitch)) settingLanes = replicate 6 []"
      "validatePricingValues (ve_panel exampleSwitch)"
    by code_simp+
  have n: "is_finite (parse_float (lit ''4''))" "lit ''4'' \<noteq> []" "lit ''img'' \<noteq> []" "trim (lit ''img'') = lit ''img''"
      "list_all (\<lambda>v. v \<noteq> [] \<and> is_finite (parse_float v) \<longrightarrow> prints_back (parse_float v)) (lit ''4'' # lit ''1.5'' # replicate 6 [])"
    by code_simp+
  define d where "d = buildSubmitData (ve_panel exampleSwitch)"
  have d: "commitDraft (ve_panel exampleSwitch) = Some d" "md_name d = lit ''img''" using c n by (simp_all add: commit_some d_def buildSubmitData_def)
  have "storable d"
    using c n(5) by (simp add: storable_def d_def buildSubmitData_def storedExpr_def code_units_def)
  then show ?thesis
    using fixed_price_kept [OF t(1) example_plain t(2) d(1)] d(2) c n lit_code_units by auto
qed

text \<open>
  C32. The table lists exactly the models of the draft, each once, in both cases with the entry of the draft; a row is marked as new exactly when nothing is saved for its model, and
  as changed exactly when it is new or some field of its entry differs from the saved one.
\<close>

theorem rows_exact:
  assumes "buildModelSnapshots savedTexts = Some saved" "buildModelSnapshots texts = Some drafts"
    and "list_all (\<lambda>s. list_all code_units (snapshotFields s)) (saved @ drafts)"
  shows "\<exists>rows. models lc savedTexts texts = Some rows \<and> mset (map row_draft rows) = mset (map Some drafts) \<and>
    list_all (marksExact saved) rows"
proof -
  define names where "names = uniq (map ms_name saved @ map ms_name drafts)"
  define shown where "shown = filter (\<lambda>n. n \<in> ms_name ` set drafts) names"
  define g where "g = (\<lambda>n. the (modelRow saved drafts n))"
  note dist = built_names [OF assms(1)] built_names [OF assms(2)]
  have r: "modelRow saved drafts n = Some (g n) \<and> row_draft (g n) = byName drafts n \<and> (isDraftDeleted (g n) \<longleftrightarrow> n \<notin> ms_name ` set drafts)"
    if "n \<in> set names" for n
  proof -
    have "byName saved n \<noteq> None \<or> byName drafts n \<noteq> None" "byName drafts n = None \<longleftrightarrow> n \<notin> ms_name ` set drafts"
      using that byName_none [OF dist(1), of n] byName_none [OF dist(2), of n] by (simp_all add: names_def)
    then show ?thesis by (cases "byName saved n"; cases "byName drafts n") (simp_all add: g_def modelRow_def Let_def)
  qed
  have "List.map_filter (modelRow saved drafts) names = map g names"
    unfolding map_filter_def g_def comp_def using r by (subst filter_True) auto
  moreover have "filter (\<lambda>n. \<not> isDraftDeleted (g n)) names = shown" unfolding shown_def using r by (intro filter_cong) auto
  ultimately have "filter (\<lambda>r. \<not> isDraftDeleted r) (List.map_filter (modelRow saved drafts) names) = map g shown"
    by (simp add: filter_map comp_def)
  then have m: "models lc savedTexts texts = Some (js_sort (\<lambda>a b. lc (ms_name (displayed a)) (ms_name (displayed b))) (map g shown))"
    using assms(1,2) by (simp add: models_def names_def)
  have "mset shown = mset (map ms_name drafts)"
    using dist(2) by (subst set_eq_iff_mset_eq_distinct [symmetric]) (auto simp: shown_def names_def)
  then have "mset (map (byName drafts) shown) = mset (map (byName drafts) (map ms_name drafts))" by (metis mset_map)
  moreover have "map row_draft (map g shown) = map (byName drafts) shown" using r by (simp add: shown_def)
  moreover have "map (byName drafts) (map ms_name drafts) = map Some drafts" using byName_some [OF dist(2)] by auto
  ultimately have d: "mset (map row_draft (map g shown)) = mset (map Some drafts)" by (simp only:)
  define rows where "rows = js_sort (\<lambda>a b. lc (ms_name (displayed a)) (ms_name (displayed b))) (map g shown)"
  have "mset rows = mset (map g shown)" unfolding rows_def by simp
  then have "mset (map row_draft rows) = mset (map Some drafts)" using d by (metis mset_map)
  moreover have "set rows = g ` set shown" by (simp add: rows_def)
  moreover have "marksExact saved (g n)" if "n \<in> set shown" for n
    using that row_flags [OF dist assms(3)] by (simp add: shown_def g_def)
  ultimately show ?thesis using m by (auto simp: rows_def [symmetric] list_all_iff)
qed

theorem rows_exact_witness:
  "\<exists>rows. models (\<lambda>_ _. jint 0) exampleTexts exampleTexts = Some rows \<and> length rows = 3 \<and> list_all (\<lambda>r. \<not> isDraftNew r) rows"
proof -
  define ss where "ss = the (buildModelSnapshots exampleTexts)"
  have "\<not> Option.is_none (buildModelSnapshots exampleTexts)" by code_simp
  then have b: "buildModelSnapshots exampleTexts = Some ss" by (simp add: ss_def Option.is_none_def)
  have "length ss = 3" "list_all (\<lambda>s. list_all (\<lambda>t. list_all (\<lambda>c. 0 \<le> c \<and> c < 65536) t) (snapshotFields s)) (ss @ ss)"
    unfolding ss_def by code_simp+
  then have "list_all (\<lambda>s. list_all code_units (snapshotFields s)) (ss @ ss)" by (simp add: code_units_def list_all_iff)
  from rows_exact [OF b b this, of "\<lambda>_ _. jint 0"] obtain rows where
    r: "models (\<lambda>_ _. jint 0) exampleTexts exampleTexts = Some rows" "mset (map row_draft rows) = mset (map Some ss)"
      "list_all (\<lambda>r. isDraftNew r \<longleftrightarrow> ms_name (the (row_draft r)) \<notin> ms_name ` set ss) rows"
    by (auto simp: marksExact_def Let_def list_all_iff)
  have "row_draft ` set rows = Some ` set ss" using arg_cong [OF r(2), of set_mset] by simp
  then have "\<exists>d\<in>set ss. row_draft r = Some d" if "r \<in> set rows" for r using that by (metis image_eqI image_iff)
  then have "list_all (\<lambda>r. \<not> isDraftNew r) rows" using r(3) unfolding list_all_iff by (metis imageI option.sel)
  moreover have "length rows = 3" using arg_cong [OF r(2), of size] \<open>length ss = 3\<close> by simp
  ultimately show ?thesis using r(1) by blast
qed

end
