(* ===== verification/Tier_Expr.thy ===== *)
theory Tier_Expr
  imports Billing_Expr
begin

text \<open>
  Tiered price expressions: the variable registry and the tier reader of \<open>features/pricing/lib/billing-expr.ts\<close>, and the writer and reader of the visual editor in
  \<open>features/pricing/lib/tier-expr.ts\<close>.  A tier such as \<open>len < 200000 ? tier("base", p * 3 + c * 15)\<close> has a label, conditions and the cost of every
  priced variable; costs are functions of the variable, whose \<open>tierField\<close> names the property of the source.
\<close>

section \<open>Variables\<close>

datatype VarKey = VarP | VarC | VarLen | VarCr | VarCc | VarCc1h | VarImg | VarImgO | VarAi | VarAo

datatype VarGroup = NoGroup | CacheGroup | MediaGroup

datatype VarSide = InputSide | OutputSide | ConditionSide

record BillingVar =
  bv_key :: VarKey
  bv_label :: jstr
  bv_shortLabel :: jstr
  bv_side :: VarSide
  isBase :: bool
  isConditionOnly :: bool
  bv_group :: VarGroup

definition billingVar :: "VarKey \<Rightarrow> string \<Rightarrow> string \<Rightarrow> VarSide \<Rightarrow> bool \<Rightarrow> bool \<Rightarrow> VarGroup \<Rightarrow> BillingVar" where
  "billingVar key label short side base cond grp =
     \<lparr>bv_key = key, bv_label = lit label, bv_shortLabel = lit short, bv_side = side, isBase = base, isConditionOnly = cond, bv_group = grp\<rparr>"

definition BILLING_VARS :: "BillingVar list" where
  "BILLING_VARS =
     [billingVar VarP ''Input price'' ''Input'' InputSide True False NoGroup,
      billingVar VarC ''Completion price'' ''Output'' OutputSide True False NoGroup,
      billingVar VarLen ''Input length'' ''Length'' ConditionSide False True NoGroup,
      billingVar VarCr ''Cache read price'' ''Cache Read'' InputSide False False CacheGroup,
      billingVar VarCc ''Cache create price'' ''Cache Write'' InputSide False False CacheGroup,
      billingVar VarCc1h ''Cache create (1h) price'' ''Cache Write (1h)'' InputSide False False CacheGroup,
      billingVar VarImg ''Image input price'' ''Image In'' InputSide False False MediaGroup,
      billingVar VarImgO ''Image output price'' ''Image Out'' OutputSide False False MediaGroup,
      billingVar VarAi ''Audio input price'' ''Audio In'' InputSide False False MediaGroup,
      billingVar VarAo ''Audio output price'' ''Audio Out'' OutputSide False False MediaGroup]"

definition exprVar :: "VarKey \<Rightarrow> jstr" where
  "exprVar v = (case v of VarP \<Rightarrow> lit ''p'' | VarC \<Rightarrow> lit ''c'' | VarLen \<Rightarrow> lit ''len'' | VarCr \<Rightarrow> lit ''cr'' | VarCc \<Rightarrow> lit ''cc''
     | VarCc1h \<Rightarrow> lit ''cc1h'' | VarImg \<Rightarrow> lit ''img'' | VarImgO \<Rightarrow> lit ''img_o'' | VarAi \<Rightarrow> lit ''ai'' | VarAo \<Rightarrow> lit ''ao'')"

definition BILLING_PRICING_VARS :: "VarKey list" where
  "BILLING_PRICING_VARS = map bv_key (filter (\<lambda>v. \<not> isConditionOnly v) BILLING_VARS)"

definition BILLING_EXTRA_VARS :: "VarKey list" where
  "BILLING_EXTRA_VARS = map bv_key (filter (\<lambda>v. \<not> isBase v \<and> \<not> isConditionOnly v) BILLING_VARS)"

section \<open>Tiers\<close>

datatype CacheMode = Timed | Generic

datatype CondOp = OpLt | OpLe | OpGt | OpGe

definition opText :: "CondOp \<Rightarrow> jstr" where
  "opText op = (case op of OpLt \<Rightarrow> lit ''<'' | OpLe \<Rightarrow> lit ''<='' | OpGt \<Rightarrow> lit ''>'' | OpGe \<Rightarrow> lit ''>='')"

record TierConditionInput =
  tc_var :: VarKey
  tc_op :: CondOp
  tc_value :: jsval

record VisualTier =
  vt_label :: jstr
  vt_conditions :: "TierConditionInput list"
  vt_costs :: "VarKey \<Rightarrow> jsnum"
  vt_cache_mode :: CacheMode

record PartialTier =
  pt_label :: "jstr option"
  pt_conditions :: "TierConditionInput list option"
  pt_costs :: "VarKey \<Rightarrow> jsnum option"
  pt_cache_mode :: "CacheMode option"

record VisualConfig =
  tiers :: "VisualTier list"

text \<open>\<open>Number(x) || 0\<close> of an optional number.\<close>

definition num_or_zero :: "jsnum \<Rightarrow> jsnum" where
  "num_or_zero x = (if x = NaN then Fin 0 else x)"

definition getTierCacheMode :: "PartialTier \<Rightarrow> CacheMode" where
  "getTierCacheMode tier =
     (case pt_cache_mode tier of
        Some m \<Rightarrow> m
      | None \<Rightarrow> if js_lt (Fin 0) (opt_or (pt_costs tier VarCc1h) NaN) then Timed else Generic)"

text \<open>The properties of the argument replace the defaults before the extra costs are set, so a given input or output cost is kept even when it is no number.\<close>

definition normalizeVisualTier :: "PartialTier \<Rightarrow> VisualTier" where
  "normalizeVisualTier tier =
     \<lparr>vt_label = opt_or (pt_label tier) [], vt_conditions = opt_or (pt_conditions tier) [],
      vt_costs = (\<lambda>v. if v \<in> set BILLING_EXTRA_VARS then num_or_zero (opt_or (pt_costs tier v) NaN) else opt_or (pt_costs tier v) (Fin 0)),
      vt_cache_mode = opt_or (pt_cache_mode tier) (getTierCacheMode tier)\<rparr>"

definition fullTier :: "VisualTier \<Rightarrow> PartialTier" where
  "fullTier t = \<lparr>pt_label = Some (vt_label t), pt_conditions = Some (vt_conditions t), pt_costs = (\<lambda>v. Some (vt_costs t v)),
     pt_cache_mode = Some (vt_cache_mode t)\<rparr>"

definition createDefaultVisualConfig :: VisualConfig where
  "createDefaultVisualConfig = \<lparr>tiers = [normalizeVisualTier
     \<lparr>pt_label = Some (lit ''base''), pt_conditions = Some [], pt_costs = (\<lambda>v. if v \<in> {VarP, VarC} then Some (Fin 0) else None),
      pt_cache_mode = Some Generic\<rparr>]\<rparr>"

definition normalizeVisualConfig :: "VisualConfig option \<Rightarrow> VisualConfig" where
  "normalizeVisualConfig config =
     (case config of
        None \<Rightarrow> createDefaultVisualConfig
      | Some c \<Rightarrow> if tiers c = [] then createDefaultVisualConfig else c\<lparr>tiers := map (\<lambda>t. normalizeVisualTier (fullTier t)) (tiers c)\<rparr>)"

section \<open>Writing\<close>

definition usableCondition :: "TierConditionInput \<Rightarrow> bool" where
  "usableCondition c = (\<not> nullish (tc_value c) \<and> tc_value c \<noteq> JStr [])"

definition conditionText :: "TierConditionInput \<Rightarrow> jstr" where
  "conditionText c = exprVar (tc_var c) @ lit '' '' @ opText (tc_op c) @ lit '' '' @ to_string (tc_value c)"

definition buildConditionStr :: "TierConditionInput list \<Rightarrow> jstr" where
  "buildConditionStr conds = join (lit '' && '') (map conditionText (filter usableCondition conds))"

definition costText :: "VisualTier \<Rightarrow> VarKey \<Rightarrow> jstr" where
  "costText tier v = exprVar v @ lit '' * '' @ num_str (num_or_zero (vt_costs tier v))"

definition buildTierBodyExpr :: "VisualTier \<Rightarrow> jstr" where
  "buildTierBodyExpr tier = join (lit '' + '') (map (costText tier)
     ([VarP, VarC] @ filter (\<lambda>v. num_or_zero (vt_costs tier v) \<noteq> Fin 0) BILLING_EXTRA_VARS))"

definition tierText :: "jstr \<Rightarrow> VisualTier \<Rightarrow> jstr" where
  "tierText label tier = lit ''tier('' @ [34] @ label @ [34] @ lit '', '' @ buildTierBodyExpr tier @ lit '')''"

definition zeroExpr :: jstr where
  "zeroExpr = lit ''p * 0 + c * 0''"

definition tierPart :: "nat \<Rightarrow> nat \<Rightarrow> VisualTier \<Rightarrow> jstr" where
  "tierPart n i tier =
     (let label = (if vt_label tier \<noteq> [] then vt_label tier else lit ''tier_'' @ num_str (Fin (of_nat (Suc i))));
          body = tierText label tier; cond = buildConditionStr (vt_conditions tier)
      in if Suc i < n \<and> cond \<noteq> [] then cond @ lit '' ? '' @ body else body)"

definition generateExprFromVisualConfig :: "VisualConfig option \<Rightarrow> jstr" where
  "generateExprFromVisualConfig config =
     (case config of
        None \<Rightarrow> zeroExpr
      | Some c \<Rightarrow>
          (case tiers c of
             [] \<Rightarrow> zeroExpr
           | [tier] \<Rightarrow>
               let body = tierText (if vt_label tier \<noteq> [] then vt_label tier else lit ''default'') tier;
                   cond = buildConditionStr (vt_conditions tier)
               in if cond \<noteq> [] then cond @ lit '' ? '' @ body @ lit '' : '' @ zeroExpr else body
           | ts \<Rightarrow> join (lit '' : '') (map (\<lambda>(i, tier). tierPart (length ts) i tier) (enumerate 0 ts))))"

section \<open>Reading\<close>

text \<open>\<open>\s\<close>, \<open>\s*\<close> and \<open>[\d.eE+]\<close>.\<close>

definition ws_cls :: regex where
  "ws_cls = Cls False [(9, 13), (32, 32), (160, 160), (5760, 5760), (8192, 8202), (8232, 8232), (8233, 8233), (8239, 8239), (8287, 8287), (12288, 12288),
     (65279, 65279)]"

definition ws :: regex where
  "ws = Star ws_cls"

definition pos_cls :: regex where
  "pos_cls = Cls False [(48, 57), (46, 46), (101, 101), (69, 69), (43, 43)]"

definition priced :: "VarKey \<Rightarrow> nat \<Rightarrow> regex" where
  "priced v n = rseq [Txt (exprVar v), ws, T ''*'', ws, Grp n (Plus num_cls)]"

definition plusSign :: regex where
  "plusSign = rseq [ws, T ''+'', ws]"

text \<open>The optional parts of a body, with groups from \<open>n\<close>.\<close>

fun optCache :: "VarKey list \<Rightarrow> nat \<Rightarrow> regex" where
  "optCache [] n = Eps"
| "optCache (v # vs) n = Seq (Opt (Seq plusSign (priced v n))) (optCache vs (Suc n))"

definition bodyPat :: "nat \<Rightarrow> regex" where
  "bodyPat n = rseq [priced VarP n, plusSign, priced VarC (Suc n), optCache BILLING_EXTRA_VARS (n + 2)]"

definition tierHead :: "nat \<Rightarrow> regex" where
  "tierHead n = rseq [T ''tier('', Txt [34], Grp n (Star not_quote), Txt [34], T '','', ws]"

definition singleRe :: regex where
  "singleRe = rseq [tierHead 1, bodyPat 2, T '')'']"

definition cond_var :: regex where
  "cond_var = ralt [T ''p'', T ''c'', T ''len'']"

definition cond_op :: regex where
  "cond_op = ralt [T ''<'', T ''<='', T ''>'', T ''>='']"

definition condAtom :: regex where
  "condAtom = rseq [cond_var, ws, cond_op, ws, Plus pos_cls]"

definition condGroup :: regex where
  "condGroup = Grp 1 (Seq condAtom (Star (rseq [ws, T ''&&'', ws, condAtom])))"

definition condPrefix :: regex where
  "condPrefix = Opt (rseq [condGroup, ws, T ''?'', ws])"

definition tierRe :: regex where
  "tierRe = rseq [condPrefix, tierHead 2, bodyPat 3, T '')'']"

definition version_re :: regex where
  "version_re = rseq [T ''v'', Grp 1 (Plus digit_cls), T '':'', Grp 2 (Star any_char)]"

definition condition_re :: regex where
  "condition_re = rseq [Grp 1 cond_var, ws, Grp 2 cond_op, ws, Grp 3 (Plus pos_cls)]"

text \<open>
  \<open>while ((m = re.exec(s)) !== null)\<close> with the flag \<open>g\<close>: the captures of the successive matches, each searched from the end of the last one.  The patterns used match
  no empty text.
\<close>

function exec_all :: "regex \<Rightarrow> jstr \<Rightarrow> captures list" where
  "exec_all r [] = (case rmatch r ([], []) of [] \<Rightarrow> [] | st # _ \<Rightarrow> [snd st])"
| "exec_all r (c # s) =
     (case rmatch r (c # s, []) of
        [] \<Rightarrow> exec_all r s
      | st # _ \<Rightarrow> if length (fst st) < length (c # s) then snd st # exec_all r (fst st) else [])"
  by pat_completeness auto
termination
  by (relation "measure (\<lambda>(r, s). length s)") auto

text \<open>\<open>s.split(re)\<close> for a pattern that matches no empty text.\<close>

function split_re :: "regex \<Rightarrow> jstr \<Rightarrow> jstr \<Rightarrow> jstr list" where
  "split_re r part [] = [part]"
| "split_re r part (c # s) =
     (case rmatch r (c # s, []) of
        [] \<Rightarrow> split_re r (part @ [c]) s
      | st # _ \<Rightarrow> if length (fst st) < length (c # s) then part # split_re r [] (fst st) else split_re r (part @ [c]) s)"
  by pat_completeness auto
termination
  by (relation "measure (\<lambda>(r, part, s). length s)") auto

definition condVar :: "jstr \<Rightarrow> VarKey" where
  "condVar s = (if s = lit ''p'' then VarP else if s = lit ''c'' then VarC else VarLen)"

definition condOp :: "jstr \<Rightarrow> CondOp" where
  "condOp s = (if s = lit ''<'' then OpLt else if s = lit ''<='' then OpLe else if s = lit ''>'' then OpGt else OpGe)"

definition parseCondition :: "jstr \<Rightarrow> TierConditionInput option" where
  "parseCondition cp =
     map_option (\<lambda>cm. \<lparr>tc_var = condVar (group 1 cm), tc_op = condOp (group 2 cm), tc_value = JNum (to_number (group 3 cm))\<rparr>)
       (matches_whole condition_re (trim cp))"

definition parseTierConditions :: "jstr \<Rightarrow> TierConditionInput list" where
  "parseTierConditions condStr =
     (if condStr = [] then [] else List.map_filter parseCondition (split_re (rseq [ws, T ''&&'', ws]) [] condStr))"

text \<open>The costs captured from group \<open>n\<close> on: the two base costs and those of the extra variables that are there.\<close>

fun capturedExtra :: "VarKey list \<Rightarrow> nat \<Rightarrow> captures \<Rightarrow> VarKey \<Rightarrow> jsnum option" where
  "capturedExtra [] n m w = None"
| "capturedExtra (v # vs) n m w = (if w = v then map_option to_number (map_of m n) else capturedExtra vs (Suc n) m w)"

definition capturedCosts :: "nat \<Rightarrow> captures \<Rightarrow> VarKey \<Rightarrow> jsnum option" where
  "capturedCosts n m v =
     (if v = VarP then Some (to_number (group n m)) else if v = VarC then Some (to_number (group (Suc n) m))
      else capturedExtra BILLING_EXTRA_VARS (n + 2) m v)"

definition capturedTier :: "TierConditionInput list \<Rightarrow> nat \<Rightarrow> captures \<Rightarrow> VisualTier" where
  "capturedTier conds n m = normalizeVisualTier
     \<lparr>pt_label = Some (group n m), pt_conditions = Some conds, pt_costs = capturedCosts (Suc n) m, pt_cache_mode = None\<rparr>"

definition exprBody :: "jstr \<Rightarrow> jstr" where
  "exprBody exprStr = (case matches_whole version_re exprStr of Some m \<Rightarrow> group 2 m | None \<Rightarrow> exprStr)"

definition stripBlanks :: "jstr \<Rightarrow> jstr" where
  "stripBlanks s = filter (\<lambda>c. \<not> is_ws c) s"

definition tryParseVisualConfig :: "jstr \<Rightarrow> VisualConfig option" where
  "tryParseVisualConfig exprStr =
     (if exprStr = [] then None
      else let body = exprBody exprStr
           in case matches_whole singleRe body of
                Some simple \<Rightarrow> Some (normalizeVisualConfig (Some \<lparr>tiers = [capturedTier [] 1 simple]\<rparr>))
              | None \<Rightarrow>
                  let ts = map (\<lambda>m. capturedTier (parseTierConditions (group 1 m)) 2 m) (exec_all tierRe body)
                  in if ts = [] then None
                     else let cfg = normalizeVisualConfig (Some \<lparr>tiers = ts\<rparr>)
                          in if stripBlanks (generateExprFromVisualConfig (Some cfg)) \<noteq> stripBlanks body then None else Some cfg)"

section \<open>The reader of the price tables\<close>

record ParsedTier =
  pr_label :: jstr
  pr_conditions :: "TierConditionInput list"
  pr_prices :: "VarKey \<Rightarrow> jsnum"

definition is_word :: "int \<Rightarrow> bool" where
  "is_word c = (48 \<le> c \<and> c \<le> 57 \<or> 65 \<le> c \<and> c \<le> 90 \<or> c = 95 \<or> 97 \<le> c \<and> c \<le> 122)"

definition varRe :: regex where
  "varRe = rseq [Grp 1 (ralt (map (\<lambda>v. Txt (exprVar v)) BILLING_PRICING_VARS)), ws, T ''*'', ws, Grp 2 (Plus num_cls)]"

text \<open>The matches of \<open>varRe\<close> after \<open>\b\<close>: variables begin with a letter, so the character before them, if any, is no letter.\<close>

function exec_words :: "bool \<Rightarrow> jstr \<Rightarrow> captures list" where
  "exec_words inWord [] = []"
| "exec_words inWord (c # s) =
     (case (if inWord then [] else rmatch varRe (c # s, [])) of
        [] \<Rightarrow> exec_words (is_word c) s
      | st # _ \<Rightarrow> if length (fst st) < length (c # s)
                  then snd st # exec_words (is_word (last (take (length (c # s) - length (fst st)) (c # s)))) (fst st) else [])"
  by pat_completeness auto
termination
  by (relation "measure (\<lambda>(inWord, s). length s)") auto

definition coefficient :: "captures list \<Rightarrow> VarKey \<Rightarrow> jsnum" where
  "coefficient ms v =
     (case filter (\<lambda>m. group 1 m = exprVar v) ms of [] \<Rightarrow> Fin 0 | m # _ \<Rightarrow> num_or_zero (to_number (group 2 m)))"

definition parseTierBody :: "jstr \<Rightarrow> VarKey \<Rightarrow> jsnum" where
  "parseTierBody bodyStr v = (if v \<in> set BILLING_PRICING_VARS then coefficient (exec_words False bodyStr) v else Fin 0)"

definition displayRe :: regex where
  "displayRe = rseq [condPrefix, tierHead 2, Grp 3 (Plus (Cls True [(41, 41)])), T '')'']"

definition parseTiersFromExpr :: "jstr \<Rightarrow> ParsedTier list" where
  "parseTiersFromExpr exprStr =
     (if exprStr = [] then []
      else map (\<lambda>m. \<lparr>pr_label = group 2 m, pr_conditions = parseTierConditions (group 1 m), pr_prices = parseTierBody (group 3 m)\<rparr>)
             (exec_all displayRe (exprBody exprStr)))"

end
