(* ===== verification/Regex_First.thy ===== *)
theory Regex_First
  imports Billing_Match
begin

text \<open>
  Which match the matcher finds first.  The set of matches of a pattern does not determine the one that is returned; these rules follow the order in which the matcher
  tries alternatives and repetitions, and say when it finds nothing.
\<close>

definition first_match :: "regex \<Rightarrow> rstate \<Rightarrow> rstate \<Rightarrow> bool" where
  "first_match r st st' = (\<exists>more. rmatch r st = st' # more)"

definition fails :: "regex \<Rightarrow> rstate \<Rightarrow> bool" where
  "fails r st = (rmatch r st = [])"

lemma fails_iff: "fails r st \<longleftrightarrow> (\<nexists>st'. st' \<in> set (rmatch r st))"
  unfolding fails_def by (metis empty_iff empty_set list.set_intros(1) neq_Nil_conv)

lemma first_Eps: "first_match Eps st st"
  by (simp add: first_match_def)

lemma first_Seq: "first_match a st st' \<Longrightarrow> first_match b st' st'' \<Longrightarrow> first_match (Seq a b) st st''"
  by (auto simp: first_match_def)

lemma first_rseq: "first_match r st st' \<Longrightarrow> first_match (rseq (q # rs)) st' st'' \<Longrightarrow> first_match (rseq (r # q # rs)) st st''"
  by (simp add: first_Seq)

lemma first_Alt1: "first_match a st st' \<Longrightarrow> first_match (Alt a b) st st'"
  by (auto simp: first_match_def)

lemma first_Alt2: "fails a st \<Longrightarrow> first_match b st st' \<Longrightarrow> first_match (Alt a b) st st'"
  by (simp add: first_match_def fails_def)

lemma first_Opt: "first_match r st st' \<Longrightarrow> first_match (Opt r) st st'"
  unfolding Opt_def by (rule first_Alt1)

lemma first_Opt_skip: "fails r st \<Longrightarrow> first_match (Opt r) st st"
  unfolding Opt_def by (rule first_Alt2 [OF _ first_Eps])

lemma first_Txt: "first_match (Txt t) (t @ s, cs) (s, cs)"
  by (simp add: first_match_def starts_with_iff)

lemma first_T: "first_match (T w) (lit w @ s, cs) (s, cs)"
  unfolding T_def by (rule first_Txt)

lemma first_Grp: "first_match a (u @ s, cs) (s, ds) \<Longrightarrow> first_match (Grp n a) (u @ s, cs) (s, AList.update n u ds)"
  by (auto simp: first_match_def)

lemma fails_Seq: "fails a st \<Longrightarrow> fails (Seq a b) st"
  by (simp add: fails_def)

lemma fails_rseq: "fails r st \<Longrightarrow> fails (rseq (r # rs)) st"
  by (cases rs) (simp_all add: fails_Seq)

lemma fails_Seq2: "rmatch a st = [st'] \<Longrightarrow> fails b st' \<Longrightarrow> fails (Seq a b) st"
  by (simp add: fails_def)

lemma fails_Grp: "fails a st \<Longrightarrow> fails (Grp n a) st"
  by (simp add: fails_def)

lemma fails_Alt: "fails a st \<Longrightarrow> fails b st \<Longrightarrow> fails (Alt a b) st"
  by (simp add: fails_def)

lemma fails_Txt: "\<not> starts_with t s \<Longrightarrow> fails (Txt t) (s, cs)"
  by (simp add: fails_def)

lemma fails_T: "\<not> starts_with (lit w) s \<Longrightarrow> fails (T w) (s, cs)"
  unfolding T_def by (rule fails_Txt)

lemma Seq_assoc: "rmatch (Seq (Seq a b) c) = rmatch (Seq a (Seq b c))"
proof
  fix st
  have "concat (map f (concat (map g xs))) = concat (map (\<lambda>x. concat (map f (g x))) xs)" for f :: "rstate \<Rightarrow> rstate list" and g and xs :: "rstate list"
    by (induction xs) simp_all
  moreover have "rmatch (Seq b c) = (\<lambda>x. concat (map (rmatch c) (rmatch b x)))" by (rule ext) simp
  ultimately show "rmatch (Seq (Seq a b) c) st = rmatch (Seq a (Seq b c)) st" by simp
qed

text \<open>An alternative is tried together with what follows it.\<close>

lemma Seq_Alt: "rmatch (Seq (Alt a b) c) st = rmatch (Seq a c) st @ rmatch (Seq b c) st"
  by simp

lemma first_Seq_Alt1: "first_match (Seq a c) st st' \<Longrightarrow> first_match (Seq (Alt a b) c) st st'"
  unfolding first_match_def Seq_Alt by (auto simp del: rmatch.simps)

lemma first_Seq_Alt2: "fails (Seq a c) st \<Longrightarrow> first_match (Seq b c) st st' \<Longrightarrow> first_match (Seq (Alt a b) c) st st'"
  unfolding first_match_def fails_def Seq_Alt by (simp del: rmatch.simps)

section \<open>Repetition\<close>

lemma star_fuel: "length (fst st) \<le> n \<Longrightarrow> length (fst st) \<le> m \<Longrightarrow> star_iter n f st = star_iter m f st"
proof (induction n arbitrary: m st)
  case 0
  then show ?case by (cases m) (simp_all del: star_iter.simps(2) add: star_iter.simps(2) [of _ _ st])
next
  case (Suc n)
  show ?case
  proof (cases m)
    case 0
    with Suc.prems show ?thesis by simp
  next
    case (Suc k)
    have "star_iter n f st' = star_iter k f st'" if "length (fst st') < length (fst st)" for st'
      using that Suc.prems Suc by (intro Suc.IH) simp_all
    then show ?thesis using Suc by (auto intro!: arg_cong [of _ _ concat])
  qed
qed

lemma first_Star_step:
  assumes "first_match a st st'" "length (fst st') < length (fst st)" "first_match (Star a) st' st''"
  shows "first_match (Star a) st st''"
proof -
  obtain n where n: "length (fst st) = Suc n" using assms(2) by (cases "length (fst st)") auto
  then have "star_iter n (rmatch a) st' = star_iter (length (fst st')) (rmatch a) st'" using assms(2) by (intro star_fuel) auto
  then show ?thesis using assms by (auto simp: first_match_def n)
qed

lemma first_Star_stop: "fails a st \<Longrightarrow> first_match (Star a) st st"
  by (cases "length (fst st)") (simp_all add: first_match_def fails_def)

lemma first_Star_Cls:
  "\<forall>c\<in>set u. in_class neg rs c \<Longrightarrow> (s \<noteq> [] \<Longrightarrow> \<not> in_class neg rs (hd s)) \<Longrightarrow> first_match (Star (Cls neg rs)) (u @ s, cs) (s, cs)"
proof (induction u)
  case Nil
  then show ?case by (cases s) (auto intro!: first_Star_stop simp: fails_def)
next
  case (Cons c u)
  have "first_match (Cls neg rs) (c # u @ s, cs) (u @ s, cs)" using Cons.prems by (simp add: first_match_def)
  moreover have "first_match (Star (Cls neg rs)) (u @ s, cs) (s, cs)" using Cons.prems by (intro Cons.IH) simp_all
  ultimately show ?case using first_Star_step [of "Cls neg rs" "(c # u @ s, cs)" "(u @ s, cs)"] by simp
qed

lemma first_Plus_Cls:
  assumes "u \<noteq> []" "\<forall>c\<in>set u. in_class neg rs c" "s \<noteq> [] \<Longrightarrow> \<not> in_class neg rs (hd s)"
  shows "first_match (Plus (Cls neg rs)) (u @ s, cs) (s, cs)"
proof -
  obtain c v where u: "u = c # v" using assms(1) by (cases u) auto
  have "first_match (Cls neg rs) (u @ s, cs) (v @ s, cs)" using assms(2) by (simp add: u first_match_def)
  moreover have "first_match (Star (Cls neg rs)) (v @ s, cs) (s, cs)" using assms(2,3) by (intro first_Star_Cls) (simp_all add: u)
  ultimately show ?thesis unfolding Plus_def by (rule first_Seq)
qed

lemma first_whole: "first_match r (s, []) ([], cs) \<Longrightarrow> matches_whole r s = Some cs"
  by (auto simp: first_match_def matches_whole_def match_at_start_def)

lemma fails_whole: "fails r (s, []) \<Longrightarrow> matches_whole r s = None"
  by (simp add: fails_def matches_whole_def match_at_start_def)

end
