(* ===== verification/Tier_Reading.thy ===== *)
theory Tier_Reading
  imports Tier_Expr Regex_First
begin

text \<open>
  What the readers of tiered expressions find in the text of a tier: its condition, its label and the cost of every variable.  Costs and thresholds are any numbers whose
  texts are made of the characters the patterns expect and are read back as the numbers.
\<close>

section \<open>Blanks\<close>

lemma range_one: "a \<le> c \<and> c \<le> a \<longleftrightarrow> c = (a :: int)"
  by auto

lemma in_ws: "in_class False [(9, 13), (32, 32), (160, 160), (5760, 5760), (8192, 8202), (8232, 8232), (8233, 8233), (8239, 8239), (8287, 8287),
    (12288, 12288), (65279, 65279)] c \<longleftrightarrow> is_ws c"
  by (simp only: in_class_def is_ws_def list.set insert_iff empty_iff bex_simps fst_conv snd_conv range_one not_False_eq_True simp_thms)

lemma rmatch_ws: "(s', cs') \<in> set (rmatch ws (s, cs)) \<longleftrightarrow> (\<exists>u. s = u @ s' \<and> list_all is_ws u \<and> cs' = cs)"
  unfolding ws_def ws_cls_def rmatch_Star_Cls in_ws list_all_iff ..

lemma first_ws: "list_all is_ws u \<Longrightarrow> (s \<noteq> [] \<Longrightarrow> \<not> is_ws (hd s)) \<Longrightarrow> first_match ws (u @ s, cs) (s, cs)"
  unfolding ws_def ws_cls_def by (rule first_Star_Cls) (simp_all add: in_ws list_all_iff)

lemma first_ws_blank: "s \<noteq> [] \<Longrightarrow> \<not> is_ws (hd s) \<Longrightarrow> first_match ws (32 # s, cs) (s, cs)"
  using first_ws [of "[32]" s cs] by (simp add: is_ws_def)

lemma first_ws_none: "(s \<noteq> [] \<Longrightarrow> \<not> is_ws (hd s)) \<Longrightarrow> first_match ws (s, cs) (s, cs)"
  using first_ws [of "[]" s cs] by simp

lemma ws_split:
  assumes "a @ c # x = b @ d # y" "list_all is_ws a" "list_all is_ws b" "\<not> is_ws c" "\<not> is_ws d"
  shows "a = b \<and> c = d \<and> x = y"
proof -
  have "takeWhile is_ws (a @ c # x) = a" "takeWhile is_ws (b @ d # y) = b"
    using assms(2-5) by (simp_all add: list_all_iff takeWhile_append)
  with assms(1) show ?thesis by simp
qed

section \<open>Costs\<close>

text \<open>The text of a variable ends before the first blank or star.\<close>

lemma exprVar_plain: "c \<in> set (exprVar v) \<Longrightarrow> \<not> is_ws c \<and> c \<noteq> 42 \<and> c \<noteq> 43"
  by (cases v) (auto simp: exprVar_def lit_def is_ws_def)

lemma exprVar_inject [simp]: "exprVar v = exprVar w \<longleftrightarrow> v = w"
  by (cases v; cases w) (simp_all add: exprVar_def lit_def)

lemma exprVar_filled [simp]: "exprVar v \<noteq> []"
  by (cases v) (simp_all add: exprVar_def lit_def)

lemma exprVar_hd: "\<not> is_ws (hd (exprVar v @ s))"
  using exprVar_plain [of "hd (exprVar v)" v] by (simp add: hd_append)

definition costAt :: "VarKey \<Rightarrow> jstr \<Rightarrow> jstr" where
  "costAt v u = exprVar v @ lit '' * '' @ u"

lemma num_cls_hd: "s \<noteq> [] \<and> hd s \<in> {32, 41} \<Longrightarrow> \<not> in_class False [(48, 57), (46, 46), (101, 101), (69, 69), (43, 43), (45, 45)] (hd s)"
  by (auto simp: in_class_def)

lemma numChars_hd: "u \<noteq> [] \<Longrightarrow> numChars u \<Longrightarrow> \<not> is_ws (hd (u @ s))"
  using numChars_not [of u "hd u"] by (simp add: hd_append)

lemma first_priced:
  assumes "u \<noteq> []" "numChars u" "s \<noteq> [] \<and> hd s \<in> {32, 41}"
  shows "first_match (priced v n) (costAt v u @ s, cs) (s, AList.update n u cs)"
proof -
  have num: "first_match (Grp n (Plus num_cls)) (u @ s, cs) (s, AList.update n u cs)"
    unfolding num_cls_def using assms num_cls_hd by (intro first_Grp first_Plus_Cls) (auto simp: numChars_def)
  have "first_match (Txt (exprVar v)) (costAt v u @ s, cs) (32 # 42 # 32 # u @ s, cs)"
    using first_Txt [of "exprVar v"] by (simp add: costAt_def lit_def)
  moreover have "first_match ws (32 # 42 # 32 # u @ s, cs) (42 # 32 # u @ s, cs)" by (rule first_ws_blank) (simp_all add: is_ws_def)
  moreover have "first_match (T ''*'') (42 # 32 # u @ s, cs) (32 # u @ s, cs)" using first_T [of "''*''"] by (simp add: lit_def)
  moreover have "first_match ws (32 # u @ s, cs) (u @ s, cs)" using assms numChars_hd by (intro first_ws_blank) auto
  ultimately show ?thesis unfolding priced_def rseq.simps using num by (meson first_Seq)
qed

lemma first_plusSign: "s \<noteq> [] \<Longrightarrow> \<not> is_ws (hd s) \<Longrightarrow> first_match plusSign (lit '' + '' @ s, cs) (s, cs)"
proof -
  assume s: "s \<noteq> []" "\<not> is_ws (hd s)"
  have "first_match ws (32 # 43 # 32 # s, cs) (43 # 32 # s, cs)" by (rule first_ws_blank) (simp_all add: is_ws_def)
  moreover have "first_match (T ''+'') (43 # 32 # s, cs) (32 # s, cs)" using first_T [of "''+''"] by (simp add: lit_def)
  moreover have "first_match ws (32 # s, cs) (s, cs)" using s by (rule first_ws_blank)
  ultimately have "first_match plusSign (32 # 43 # 32 # s, cs) (s, cs)" unfolding plusSign_def rseq.simps by (meson first_Seq)
  then show ?thesis by (simp add: lit_def)
qed

lemma priced_text:
  assumes "(s', cs') \<in> set (rmatch (Seq plusSign (priced v n)) (s, cs))"
  shows "\<exists>a b d x. s = a @ 43 # b @ exprVar v @ d @ 42 # x \<and> list_all is_ws a \<and> list_all is_ws b \<and> list_all is_ws d"
proof -
  have "\<exists>a b d x. s = a @ lit ''+'' @ b @ exprVar v @ d @ lit ''*'' @ x \<and> list_all is_ws a \<and> list_all is_ws b \<and> list_all is_ws d"
    using assms unfolding plusSign_def priced_def rseq.simps rmatch_Seq_ex rmatch_ws rmatch_T rmatch_Txt by blast
  then show ?thesis by (simp add: lit_def)
qed

lemma fails_other_cost:
  assumes "v \<noteq> w"
  shows "fails (Seq plusSign (priced v n)) (lit '' + '' @ costAt w u @ s, cs)"
proof (rule ccontr)
  assume "\<not> ?thesis"
  then obtain s' cs' where "(s', cs') \<in> set (rmatch (Seq plusSign (priced v n)) (lit '' + '' @ costAt w u @ s, cs))"
    unfolding fails_iff by (metis surj_pair)
  then obtain a b d x where e: "lit '' + '' @ costAt w u @ s = a @ 43 # b @ exprVar v @ d @ 42 # x" "list_all is_ws a" "list_all is_ws b" "list_all is_ws d"
    using priced_text by blast
  have "[32] @ 43 # (32 # costAt w u @ s) = a @ 43 # b @ exprVar v @ d @ 42 # x" using e(1) by (simp add: lit_def)
  then have "32 # costAt w u @ s = b @ exprVar v @ d @ 42 # x" 
    using ws_split [of "[32]" 43 "32 # costAt w u @ s" a 43 "b @ exprVar v @ d @ 42 # x"] e(2) by (simp add: is_ws_def)
  moreover obtain h t h' t' where ht: "exprVar w = h # t" "exprVar v = h' # t'" by (metis exprVar_filled neq_Nil_conv)
  moreover have "\<not> is_ws h" "\<not> is_ws h'" using ht exprVar_plain [of h w] exprVar_plain [of h' v] by auto
  ultimately have "h # t @ lit '' * '' @ u @ s = h' # t' @ d @ 42 # x"
    using ws_split [of "[32]" h "t @ lit '' * '' @ u @ s" b h' "t' @ d @ 42 # x"] e(3) by (simp add: costAt_def is_ws_def)
  then have "costAt w u @ s = exprVar v @ d @ 42 # x" by (simp add: ht costAt_def)
  then have t: "exprVar w @ 32 # 42 # 32 # u @ s = exprVar v @ d @ 42 # x" by (simp add: costAt_def lit_def)
  define q where "q = (\<lambda>c. \<not> is_ws c \<and> c \<noteq> (42 :: int))"
  have "takeWhile q (exprVar w @ 32 # y) = exprVar w" for y using exprVar_plain by (simp add: takeWhile_append q_def is_ws_def)
  moreover have "takeWhile q (exprVar v @ d @ 42 # x) = exprVar v" using exprVar_plain e(4) by (cases d) (simp_all add: takeWhile_append q_def)
  ultimately have "exprVar w = exprVar v" using t by metis
  with assms show False by simp
qed

lemma fails_no_cost: "fails (Seq plusSign (priced v n)) (41 # s, cs)"
proof (rule ccontr)
  assume "\<not> ?thesis"
  then obtain s' cs' where "(s', cs') \<in> set (rmatch (Seq plusSign (priced v n)) (41 # s, cs))" unfolding fails_iff by (metis surj_pair)
  then obtain a b d x where "41 # s = a @ 43 # b @ exprVar v @ d @ 42 # x" "list_all is_ws a" using priced_text by blast
  then show False by (cases a) (simp_all add: is_ws_def)
qed

text \<open>The costs that are present, with their texts, bound to groups from \<open>n\<close> on.\<close>

fun bindExtra :: "(VarKey \<rightharpoonup> jstr) \<Rightarrow> VarKey list \<Rightarrow> nat \<Rightarrow> captures \<Rightarrow> captures" where
  "bindExtra f [] n cs = cs"
| "bindExtra f (v # vs) n cs = bindExtra f vs (Suc n) (case f v of None \<Rightarrow> cs | Some u \<Rightarrow> AList.update n u cs)"

definition extraText :: "(VarKey \<rightharpoonup> jstr) \<Rightarrow> VarKey list \<Rightarrow> jstr" where
  "extraText f vs = concat (map (\<lambda>v. case f v of None \<Rightarrow> [] | Some u \<Rightarrow> lit '' + '' @ costAt v u) vs)"

lemma extraText_Cons: "extraText f (v # vs) = (case f v of None \<Rightarrow> [] | Some u \<Rightarrow> lit '' + '' @ costAt v u) @ extraText f vs"
  by (simp add: extraText_def)

text \<open>What follows a cost is another cost or the end of the tier.\<close>

lemma extraText_shape: "(\<exists>w\<in>set vs. \<exists>u t. extraText f vs = lit '' + '' @ costAt w u @ t) \<or> extraText f vs = []"
  by (induction vs) (auto simp: extraText_Cons extraText_def split: option.split)

lemma extraText_hd: "extraText f vs @ 41 # s \<noteq> [] \<and> hd (extraText f vs @ 41 # s) \<in> {32, 41}"
  using extraText_shape [of vs f] by (auto simp: lit_def)

lemma fails_absent: "v \<notin> set vs \<Longrightarrow> fails (Seq plusSign (priced v n)) (extraText f vs @ 41 # s, cs)"
  using extraText_shape [of vs f] fails_other_cost [of v _ n _ "_ @ 41 # s" cs] fails_no_cost by fastforce

lemma first_optCache:
  assumes "distinct vs" "\<And>v u. v \<in> set vs \<Longrightarrow> f v = Some u \<Longrightarrow> u \<noteq> [] \<and> numChars u"
  shows "first_match (optCache vs n) (extraText f vs @ 41 # s, cs) (41 # s, bindExtra f vs n cs)"
  using assms
proof (induction vs arbitrary: n cs)
  case Nil
  then show ?case by (simp add: extraText_def first_Eps)
next
  case (Cons v vs)
  show ?case
  proof (cases "f v")
    case None
    have "first_match (Opt (Seq plusSign (priced v n))) (extraText f vs @ 41 # s, cs) (extraText f vs @ 41 # s, cs)"
      using Cons.prems(1) by (intro first_Opt_skip fails_absent) simp
    moreover have "first_match (optCache vs (Suc n)) (extraText f vs @ 41 # s, cs) (41 # s, bindExtra f vs (Suc n) cs)"
      using Cons.prems by (intro Cons.IH) auto
    ultimately have "first_match (optCache (v # vs) n) (extraText f vs @ 41 # s, cs) (41 # s, bindExtra f vs (Suc n) cs)"
      unfolding optCache.simps by (rule first_Seq)
    then show ?thesis by (simp add: extraText_Cons None)
  next
    case (Some u)
    then have u: "u \<noteq> []" "numChars u" using Cons.prems(2) by auto
    have "first_match plusSign (lit '' + '' @ costAt v u @ extraText f vs @ 41 # s, cs) (costAt v u @ extraText f vs @ 41 # s, cs)"
      using exprVar_hd [of v] by (intro first_plusSign) (simp_all add: costAt_def)
    then have "first_match (Opt (Seq plusSign (priced v n))) (lit '' + '' @ costAt v u @ extraText f vs @ 41 # s, cs)
        (extraText f vs @ 41 # s, AList.update n u cs)"
      using first_priced [OF u extraText_hd] by (intro first_Opt first_Seq)
    moreover have "first_match (optCache vs (Suc n)) (extraText f vs @ 41 # s, AList.update n u cs)
        (41 # s, bindExtra f vs (Suc n) (AList.update n u cs))"
      using Cons.prems by (intro Cons.IH) auto
    ultimately have "first_match (optCache (v # vs) n) (lit '' + '' @ costAt v u @ extraText f vs @ 41 # s, cs)
        (41 # s, bindExtra f vs (Suc n) (AList.update n u cs))"
      unfolding optCache.simps by (rule first_Seq)
    then show ?thesis by (simp add: extraText_Cons Some)
  qed
qed

lemma map_of_bindExtra: "k < n \<Longrightarrow> map_of (bindExtra f vs n cs) k = map_of cs k"
  by (induction vs arbitrary: n cs) (auto simp: update_conv' split: option.split)

lemma capturedExtra_bind:
  assumes "distinct vs" "\<And>k. n \<le> k \<Longrightarrow> map_of cs k = None"
  shows "capturedExtra vs n (bindExtra f vs n cs) w = (if w \<in> set vs then map_option to_number (f w) else None)"
  using assms
proof (induction vs arbitrary: n cs)
  case (Cons v vs)
  define ds where "ds = (case f v of None \<Rightarrow> cs | Some u \<Rightarrow> AList.update n u cs)"
  have "map_of ds k = None" if "Suc n \<le> k" for k using that Cons.prems(2) by (auto simp: ds_def update_conv' split: option.split)
  then have IH: "capturedExtra vs (Suc n) (bindExtra f vs (Suc n) ds) w = (if w \<in> set vs then map_option to_number (f w) else None)"
    using Cons by simp
  have "map_of (bindExtra f vs (Suc n) ds) n = f v"
    using map_of_bindExtra [of n "Suc n"] Cons.prems(2) by (auto simp: ds_def update_conv' split: option.split)
  then show ?case using IH Cons.prems(1) by (auto simp: ds_def [symmetric])
qed simp

section \<open>Bodies\<close>

lemma join_concat: "join sep (x # xs) = x @ concat (map (\<lambda>y. sep @ y) xs)"
  by (induction xs arbitrary: x) simp_all

definition costOf :: "VisualTier \<Rightarrow> VarKey \<Rightarrow> jsnum" where
  "costOf t v = num_or_zero (vt_costs t v)"

definition presentCosts :: "VisualTier \<Rightarrow> VarKey \<rightharpoonup> jstr" where
  "presentCosts t v = (if costOf t v = Fin 0 then None else Some (num_str (costOf t v)))"

lemma body_text: "buildTierBodyExpr t =
  costAt VarP (num_str (costOf t VarP)) @ lit '' + '' @ costAt VarC (num_str (costOf t VarC)) @ extraText (presentCosts t) BILLING_EXTRA_VARS"
proof -
  have "concat (map (\<lambda>y. lit '' + '' @ y) (map (costText t) (filter (\<lambda>v. num_or_zero (vt_costs t v) \<noteq> Fin 0) vs))) = extraText (presentCosts t) vs" for vs
    by (induction vs) (simp_all add: extraText_def presentCosts_def costOf_def costAt_def costText_def)
  then show ?thesis by (simp add: buildTierBodyExpr_def join_concat costText_def costAt_def costOf_def)
qed

text \<open>A cost whose text the patterns accept and whose number is read back.\<close>

definition readableNumber :: "jsnum \<Rightarrow> bool" where
  "readableNumber x = (num_str x \<noteq> [] \<and> numChars (num_str x) \<and> to_number (num_str x) = x)"

definition readableCosts :: "VisualTier \<Rightarrow> bool" where
  "readableCosts t = list_all (\<lambda>v. readableNumber (costOf t v)) BILLING_PRICING_VARS"

lemma extra_vars: "BILLING_EXTRA_VARS = [VarCr, VarCc, VarCc1h, VarImg, VarImgO, VarAi, VarAo]"
  "BILLING_PRICING_VARS = [VarP, VarC, VarCr, VarCc, VarCc1h, VarImg, VarImgO, VarAi, VarAo]"
  by (simp_all add: BILLING_EXTRA_VARS_def BILLING_PRICING_VARS_def BILLING_VARS_def billingVar_def)

definition bodyCaptures :: "VisualTier \<Rightarrow> nat \<Rightarrow> captures \<Rightarrow> captures" where
  "bodyCaptures t n cs = bindExtra (presentCosts t) BILLING_EXTRA_VARS (n + 2)
     (AList.update (Suc n) (num_str (costOf t VarC)) (AList.update n (num_str (costOf t VarP)) cs))"

lemma first_body:
  assumes "readableCosts t"
  shows "first_match (bodyPat n) (buildTierBodyExpr t @ 41 # s, cs) (41 # s, bodyCaptures t n cs)"
proof -
  have r: "num_str (costOf t v) \<noteq> [] \<and> numChars (num_str (costOf t v))" if "v \<in> set BILLING_PRICING_VARS" for v
    using assms that by (auto simp: readableCosts_def readableNumber_def list_all_iff)
  define e where "e = extraText (presentCosts t) BILLING_EXTRA_VARS"
  define u where "u = num_str (costOf t VarP)"
  define w where "w = num_str (costOf t VarC)"
  have uw: "u \<noteq> []" "numChars u" "w \<noteq> []" "numChars w" using r by (auto simp: u_def w_def extra_vars)
  have p: "first_match (priced VarP n) (costAt VarP u @ lit '' + '' @ costAt VarC w @ e @ 41 # s, cs) (lit '' + '' @ costAt VarC w @ e @ 41 # s, AList.update n u cs)"
    using uw by (intro first_priced) (simp_all add: lit_def)
  have q: "first_match plusSign (lit '' + '' @ costAt VarC w @ e @ 41 # s, AList.update n u cs) (costAt VarC w @ e @ 41 # s, AList.update n u cs)"
    using exprVar_hd [of VarC] by (intro first_plusSign) (simp_all add: costAt_def)
  have c: "first_match (priced VarC (Suc n)) (costAt VarC w @ e @ 41 # s, AList.update n u cs) (e @ 41 # s, AList.update (Suc n) w (AList.update n u cs))"
    using uw extraText_hd unfolding e_def by (intro first_priced)
  have o: "first_match (optCache BILLING_EXTRA_VARS (n + 2)) (e @ 41 # s, AList.update (Suc n) w (AList.update n u cs)) (41 # s, bodyCaptures t n cs)"
    unfolding e_def bodyCaptures_def u_def [symmetric] w_def [symmetric]
    by (rule first_optCache) (use r in \<open>auto simp: presentCosts_def extra_vars split: if_splits\<close>)
  show ?thesis
    using first_Seq [OF p first_Seq [OF q first_Seq [OF c o]]]
    unfolding bodyPat_def rseq.simps body_text u_def [symmetric] w_def [symmetric] e_def [symmetric] by simp
qed

text \<open>The costs that are read from the captures.\<close>

lemma captured_costs:
  assumes "readableCosts t" "\<And>k. n \<le> k \<Longrightarrow> map_of cs k = None"
  shows "capturedCosts n (bodyCaptures t n cs) v =
    (if v = VarP \<or> v = VarC then Some (costOf t v) else if v \<in> set BILLING_EXTRA_VARS \<and> costOf t v \<noteq> Fin 0 then Some (costOf t v) else None)"
proof -
  have r: "to_number (num_str (costOf t v)) = costOf t v" if "v \<in> set BILLING_PRICING_VARS" for v
    using assms that by (auto simp: readableCosts_def readableNumber_def list_all_iff)
  define ds where "ds = AList.update (Suc n) (num_str (costOf t VarC)) (AList.update n (num_str (costOf t VarP)) cs)"
  have d: "map_of ds k = None" if "n + 2 \<le> k" for k using that assms(2) by (simp add: ds_def update_conv')
  have "capturedExtra BILLING_EXTRA_VARS (n + 2) (bindExtra (presentCosts t) BILLING_EXTRA_VARS (n + 2) ds) v =
      (if v \<in> set BILLING_EXTRA_VARS then map_option to_number (presentCosts t v) else None)"
    using d by (intro capturedExtra_bind) (auto simp: extra_vars)
  moreover have "group n (bindExtra (presentCosts t) BILLING_EXTRA_VARS (n + 2) ds) = num_str (costOf t VarP)"
      "group (Suc n) (bindExtra (presentCosts t) BILLING_EXTRA_VARS (n + 2) ds) = num_str (costOf t VarC)"
    using map_of_bindExtra [of n "n + 2"] map_of_bindExtra [of "Suc n" "n + 2"] by (simp_all add: group_def ds_def update_conv')
  ultimately show ?thesis
    unfolding bodyCaptures_def capturedCosts_def ds_def [symmetric] using r
    by (auto simp: presentCosts_def extra_vars)
qed

section \<open>Labels and conditions\<close>

lemma first_head:
  assumes "34 \<notin> set label" "s \<noteq> []" "\<not> is_ws (hd s)"
  shows "first_match (tierHead n) (lit ''tier('' @ [34] @ label @ [34] @ lit '', '' @ s, cs) (s, AList.update n label cs)"
proof -
  have g: "first_match (Grp n (Star not_quote)) (label @ [34] @ lit '', '' @ s, cs) ([34] @ lit '', '' @ s, AList.update n label cs)"
    unfolding not_quote_def using assms(1) by (intro first_Grp first_Star_Cls) (auto simp: in_class_quote)
  have c: "first_match (T '','') (lit '','' @ 32 # s, AList.update n label cs) (32 # s, AList.update n label cs)" by (rule first_T)
  have b: "first_match ws (32 # s, AList.update n label cs) (s, AList.update n label cs)" using assms by (intro first_ws_blank)
  have e: "lit '', '' @ s = lit '','' @ 32 # s" by (simp add: lit_def)
  show ?thesis
    unfolding tierHead_def rseq.simps
    by (rule first_Seq [OF first_T first_Seq [OF first_Txt first_Seq [OF g first_Seq [OF first_Txt]]]])
      (unfold e, rule first_Seq [OF c b])
qed

definition condVars :: "VarKey list" where
  "condVars = [VarP, VarC, VarLen]"

lemma first_cond_var: "v \<in> set condVars \<Longrightarrow> first_match cond_var (exprVar v @ s, cs) (s, cs)"
  by (auto simp: condVars_def cond_var_def exprVar_def T_def lit_def first_match_def starts_with_def)

definition posText :: "jstr \<Rightarrow> bool" where
  "posText u = (u \<noteq> [] \<and> list_all (in_class False [(48, 57), (46, 46), (101, 101), (69, 69), (43, 43)]) u)"

lemma posText_not: "posText u \<Longrightarrow> c \<in> set u \<Longrightarrow> \<not> is_ws c \<and> c \<notin> {34, 38, 40, 41, 63}"
proof -
  assume "posText u" "c \<in> set u"
  then have "in_class False [(48, 57), (46, 46), (101, 101), (69, 69), (43, 43)] c" by (auto simp: posText_def list_all_iff)
  then show ?thesis by (auto simp: in_class_def is_ws_def)
qed

lemma first_threshold:
  assumes "posText u" "s \<noteq> [] \<Longrightarrow> hd s = 32"
  shows "first_match (Plus pos_cls) (u @ s, cs) (s, cs)"
  unfolding pos_cls_def using assms by (intro first_Plus_Cls) (auto simp: posText_def list_all_iff in_class_def)

text \<open>The shorter operator is tried first and given up when an equals sign follows it.\<close>

lemma first_op_then:
  assumes "first_match r (32 # s, cs) st" "\<And>t. fails r (61 # t, cs)"
  shows "first_match (Seq cond_op r) (opText op @ 32 # s, cs) st"
  using assms by (cases op) (auto simp: first_match_def fails_def cond_op_def T_def lit_def opText_def starts_with_def)

lemma first_grp_op_then:
  assumes "first_match r (32 # s, AList.update n (opText op) cs) st" "\<And>t ds. fails r (61 # t, ds)"
  shows "first_match (Seq (Grp n cond_op) r) (opText op @ 32 # s, cs) st"
  using assms by (cases op) (auto simp: first_match_def fails_def cond_op_def T_def lit_def opText_def starts_with_def)

text \<open>A condition the patterns accept and whose threshold is read back.\<close>

definition readableCondition :: "TierConditionInput \<Rightarrow> bool" where
  "readableCondition c = (tc_var c \<in> set condVars \<and> (case tc_value c of JNum x \<Rightarrow> posText (num_str x) \<and> to_number (num_str x) = x | _ \<Rightarrow> False))"

lemma fails_threshold: "fails (Seq ws (Plus pos_cls)) (61 # t, cs)" "fails (Seq ws (Grp n (Plus pos_cls))) (61 # t, cs)"
proof -
  have "(s', cs') \<notin> set (rmatch (Seq ws (Plus pos_cls)) (61 # t, cs))" for s' cs'
    unfolding rmatch_Seq_ex rmatch_ws pos_cls_def rmatch_Plus_Cls by (auto simp: Cons_eq_append_conv is_ws_def in_class_def)
  moreover have "(s', cs') \<notin> set (rmatch (Seq ws (Grp n (Plus pos_cls))) (61 # t, cs))" for s' cs'
    unfolding rmatch_Seq_ex rmatch_ws pos_cls_def rmatch_Grp_Plus by (auto simp: Cons_eq_append_conv is_ws_def in_class_def)
  ultimately show "fails (Seq ws (Plus pos_cls)) (61 # t, cs)" "fails (Seq ws (Grp n (Plus pos_cls))) (61 # t, cs)"
    unfolding fails_iff by (metis surj_pair)+
qed

lemma opText_hd: "opText op @ s \<noteq> []" "\<not> is_ws (hd (opText op @ s))"
  by (cases op; simp add: opText_def lit_def is_ws_def)+

lemma posText_hd: "posText u \<Longrightarrow> u @ s \<noteq> [] \<and> \<not> is_ws (hd (u @ s))"
  by (cases u) (auto simp: posText_def in_class_def is_ws_def)

lemma first_condAtom:
  assumes "readableCondition c" "s \<noteq> [] \<Longrightarrow> hd s = 32"
  shows "first_match condAtom (conditionText c @ s, cs) (s, cs)"
proof -
  obtain x where x: "tc_value c = JNum x" "posText (num_str x)" "tc_var c \<in> set condVars"
    using assms(1) by (auto simp: readableCondition_def split: jsval.splits)
  define u where "u = num_str x"
  have t: "first_match (Seq ws (Plus pos_cls)) (32 # u @ s, cs) (s, cs)"
    using first_ws_blank [of "u @ s" cs] posText_hd [of u s] x(2) first_threshold [of u s cs] assms(2) u_def by (intro first_Seq) auto
  have o: "first_match (Seq cond_op (Seq ws (Plus pos_cls))) (opText (tc_op c) @ 32 # u @ s, cs) (s, cs)"
    using t fails_threshold(1) by (rule first_op_then)
  have b: "first_match ws (32 # opText (tc_op c) @ 32 # u @ s, cs) (opText (tc_op c) @ 32 # u @ s, cs)"
    using opText_hd by (intro first_ws_blank)
  have "conditionText c @ s = exprVar (tc_var c) @ 32 # opText (tc_op c) @ 32 # u @ s" by (simp add: conditionText_def x(1) u_def lit_def)
  then show ?thesis
    unfolding condAtom_def rseq.simps using first_Seq [OF first_cond_var [OF x(3)] first_Seq [OF b o]] by simp
qed

lemma condition_ends: "readableCondition c \<Longrightarrow> conditionText c \<noteq> [] \<and> \<not> is_ws (hd (conditionText c)) \<and> \<not> is_ws (last (conditionText c))"
proof -
  assume "readableCondition c"
  then obtain x where x: "tc_value c = JNum x" "posText (num_str x)" by (auto simp: readableCondition_def split: jsval.splits)
  then have "last (num_str x) \<in> set (num_str x)" by (simp add: posText_def)
  then have "\<not> is_ws (last (num_str x))" using posText_not [OF x(2)] by blast
  moreover have "num_str x \<noteq> []" using x(2) by (simp add: posText_def)
  ultimately show ?thesis using exprVar_hd [of "tc_var c"] x(1) by (simp add: conditionText_def)
qed

lemma condition_plain: "readableCondition c \<Longrightarrow> 38 \<notin> set (conditionText c)"
proof -
  assume "readableCondition c"
  then obtain x where x: "tc_value c = JNum x" "posText (num_str x)" by (auto simp: readableCondition_def split: jsval.splits)
  have "38 \<notin> set (exprVar (tc_var c))" by (cases "tc_var c") (simp_all add: exprVar_def lit_def)
  moreover have "38 \<notin> set (opText (tc_op c))" by (cases "tc_op c") (simp_all add: opText_def lit_def)
  moreover have "38 \<notin> set (num_str x)" using posText_not [OF x(2)] by auto
  ultimately show ?thesis by (simp add: conditionText_def x(1) lit_def)
qed

lemma parse_condition:
  assumes "readableCondition c"
  shows "parseCondition (conditionText c) = Some c"
proof -
  obtain x where x: "tc_value c = JNum x" "posText (num_str x)" "tc_var c \<in> set condVars" "to_number (num_str x) = x"
    using assms(1) by (auto simp: readableCondition_def split: jsval.splits)
  define u where "u = num_str x"
  define v where "v = exprVar (tc_var c)"
  have n: "first_match (Grp 3 (Plus pos_cls)) (u @ [], cs) ([], AList.update 3 u cs)" for cs
    using first_threshold [of u "[]"] x(2) by (intro first_Grp) (simp add: u_def)
  have t: "first_match (Seq ws (Grp 3 (Plus pos_cls))) (32 # u, cs) ([], AList.update 3 u cs)" for cs
    using first_Seq [OF first_ws_blank n] posText_hd [of u "[]"] x(2) u_def by simp
  have op: "first_match (Seq (Grp 2 cond_op) (Seq ws (Grp 3 (Plus pos_cls)))) (opText (tc_op c) @ 32 # u, cs)
      ([], AList.update 3 u (AList.update 2 (opText (tc_op c)) cs))" for cs
    using t fails_threshold(2) by (rule first_grp_op_then)
  have "first_match (Grp 1 cond_var) (v @ 32 # opText (tc_op c) @ 32 # u, []) (32 # opText (tc_op c) @ 32 # u, AList.update 1 v [])"
    unfolding v_def using x(3) by (intro first_Grp first_cond_var)
  moreover have "first_match ws (32 # opText (tc_op c) @ 32 # u, cs) (opText (tc_op c) @ 32 # u, cs)" for cs
    using opText_hd [of "tc_op c" "32 # u"] by (intro first_ws_blank)
  ultimately have "first_match condition_re (v @ 32 # opText (tc_op c) @ 32 # u, []) ([], AList.update 3 u (AList.update 2 (opText (tc_op c)) (AList.update 1 v [])))"
    unfolding condition_re_def rseq.simps using op by (meson first_Seq)
  then have "matches_whole condition_re (v @ 32 # opText (tc_op c) @ 32 # u) = Some (AList.update 3 u (AList.update 2 (opText (tc_op c)) (AList.update 1 v [])))"
    by (rule first_whole)
  moreover have "condVar v = tc_var c" using x(3) by (auto simp: v_def condVars_def condVar_def exprVar_def lit_def)
  moreover have "condOp (opText (tc_op c)) = tc_op c" by (cases "tc_op c") (simp_all add: condOp_def opText_def lit_def)
  moreover have "conditionText c = v @ 32 # opText (tc_op c) @ 32 # u" by (simp add: conditionText_def x(1) u_def v_def lit_def)
  moreover have "trim (conditionText c) = conditionText c" using condition_ends [OF assms] by (intro trimmed_trim_id) (simp add: trimmed_def)
  ultimately show ?thesis using x(1,4) by (simp add: parseCondition_def group_def update_conv' u_def)
qed

section \<open>Conditions of a tier\<close>

definition condRest :: "TierConditionInput list \<Rightarrow> jstr" where
  "condRest cs = concat (map (\<lambda>c. lit '' && '' @ conditionText c) cs)"

lemma condition_str: "list_all usableCondition (c # cs) \<Longrightarrow> buildConditionStr (c # cs) = conditionText c @ condRest cs"
proof -
  assume "list_all usableCondition (c # cs)"
  then have "filter usableCondition (c # cs) = c # cs" by (intro filter_True) (simp add: list_all_iff)
  then show ?thesis unfolding buildConditionStr_def by (simp add: join_concat condRest_def comp_def del: filter.simps)
qed

lemma condRest_hd: "(s \<noteq> [] \<Longrightarrow> hd s = 32) \<Longrightarrow> condRest cs @ s \<noteq> [] \<Longrightarrow> hd (condRest cs @ s) = 32"
  by (cases cs) (simp_all add: condRest_def lit_def)

text \<open>The pattern that joins conditions, applied where something else stands.\<close>

definition andSign :: regex where
  "andSign = rseq [ws, T ''&&'', ws]"

lemma rmatch_andSign: "(s', cs') \<in> set (rmatch andSign (s, cs)) \<Longrightarrow> \<exists>a x. s = a @ 38 # x \<and> list_all is_ws a"
  unfolding andSign_def rseq.simps rmatch_Seq_ex rmatch_ws rmatch_T by (auto simp: lit_def)

lemma fails_andSign:
  assumes "list_all is_ws a" "\<not> is_ws c" "c \<noteq> 38"
  shows "fails andSign (a @ c # s, cs)"
proof (rule ccontr)
  assume "\<not> ?thesis"
  then obtain s' cs' where "(s', cs') \<in> set (rmatch andSign (a @ c # s, cs))" unfolding fails_iff by (metis surj_pair)
  then obtain b x where "a @ c # s = b @ 38 # x" "list_all is_ws b" using rmatch_andSign by blast
  then show False using ws_split [of a c s b 38 x] assms by (auto simp: is_ws_def)
qed

lemma first_andSign: "s \<noteq> [] \<Longrightarrow> \<not> is_ws (hd s) \<Longrightarrow> first_match andSign (lit '' && '' @ s, cs) (s, cs)"
proof -
  assume s: "s \<noteq> []" "\<not> is_ws (hd s)"
  have "first_match ws (32 # 38 # 38 # 32 # s, cs) (38 # 38 # 32 # s, cs)" by (rule first_ws_blank) (simp_all add: is_ws_def)
  moreover have "first_match (T ''&&'') (38 # 38 # 32 # s, cs) (32 # s, cs)" using first_T [of "''&&''"] by (simp add: lit_def)
  moreover have "first_match ws (32 # s, cs) (s, cs)" using s by (rule first_ws_blank)
  ultimately have "first_match andSign (32 # 38 # 38 # 32 # s, cs) (s, cs)" unfolding andSign_def rseq.simps by (meson first_Seq)
  then show ?thesis by (simp add: lit_def)
qed

lemma and_condition: "rmatch (rseq [ws, T ''&&'', ws, condAtom]) st = rmatch (Seq andSign condAtom) st"
proof -
  have "rmatch (Seq andSign condAtom) st = rmatch (Seq ws (Seq (Seq (T ''&&'') ws) condAtom)) st" by (simp only: andSign_def rseq.simps Seq_assoc)
  also have "\<dots> = concat (map (rmatch (Seq (Seq (T ''&&'') ws) condAtom)) (rmatch ws st))" by (simp only: rmatch.simps(5))
  also have "\<dots> = rmatch (rseq [ws, T ''&&'', ws, condAtom]) st" by (simp only: Seq_assoc rseq.simps rmatch.simps(5))
  finally show ?thesis by (rule sym)
qed

lemma star_conditions:
  assumes "list_all readableCondition cds"
  shows "first_match (Star (rseq [ws, T ''&&'', ws, condAtom])) (condRest cds @ 32 # 63 # s, cs) (32 # 63 # s, cs)"
  using assms
proof (induction cds)
  case Nil
  have "fails (rseq [ws, T ''&&'', ws, condAtom]) (32 # 63 # s, cs)"
  proof -
    have "fails (Seq andSign condAtom) ([32] @ 63 # s, cs)" by (intro fails_Seq fails_andSign) (simp_all add: is_ws_def)
    then show ?thesis by (simp only: and_condition fails_def) simp
  qed
  then show ?case by (simp add: condRest_def first_Star_stop)
next
  case (Cons c cds)
  define t where "t = condRest cds @ 32 # 63 # s"
  have t: "t \<noteq> [] \<and> hd t = 32" unfolding t_def using condRest_hd [of "32 # 63 # s" cds] by simp
  have c: "readableCondition c" using Cons.prems by simp
  have "first_match (Seq andSign condAtom) (lit '' && '' @ conditionText c @ t, cs) (t, cs)"
    using condition_ends [OF c] t by (intro first_Seq [OF first_andSign first_condAtom [OF c]]) (simp_all add: hd_append)
  then have "first_match (rseq [ws, T ''&&'', ws, condAtom]) (lit '' && '' @ conditionText c @ t, cs) (t, cs)"
    by (simp only: and_condition first_match_def)
  moreover have "first_match (Star (rseq [ws, T ''&&'', ws, condAtom])) (t, cs) (32 # 63 # s, cs)" using Cons by (simp add: t_def)
  ultimately have "first_match (Star (rseq [ws, T ''&&'', ws, condAtom])) (lit '' && '' @ conditionText c @ t, cs) (32 # 63 # s, cs)"
    by (intro first_Star_step [of _ "(lit '' && '' @ conditionText c @ t, cs)" "(t, cs)"]) (simp_all add: lit_def)
  then show ?case by (simp add: condRest_def t_def)
qed

text \<open>A usable list of conditions the patterns accept.\<close>

definition readableConditions :: "TierConditionInput list \<Rightarrow> bool" where
  "readableConditions cds = list_all readableCondition (filter usableCondition cds)"

lemma first_prefix:
  assumes "list_all readableCondition (c # cds)" "s \<noteq> []" "\<not> is_ws (hd s)"
  shows "first_match condPrefix (conditionText c @ condRest cds @ lit '' ? '' @ s, cs) (s, AList.update 1 (conditionText c @ condRest cds) cs)"
proof -
  define u where "u = conditionText c @ condRest cds"
  have e: "lit '' ? '' @ s = 32 # 63 # 32 # s" by (simp add: lit_def)
  have "first_match condAtom (conditionText c @ condRest cds @ 32 # 63 # 32 # s, cs) (condRest cds @ 32 # 63 # 32 # s, cs)"
    using assms(1) condRest_hd [of "32 # 63 # 32 # s" cds] by (intro first_condAtom) auto
  then have "first_match (Seq condAtom (Star (rseq [ws, T ''&&'', ws, condAtom]))) (u @ 32 # 63 # 32 # s, cs) (32 # 63 # 32 # s, cs)"
    using star_conditions [of cds "32 # s" cs] assms(1) unfolding u_def by (intro first_Seq) auto
  then have g: "first_match condGroup (u @ 32 # 63 # 32 # s, cs) (32 # 63 # 32 # s, AList.update 1 u cs)" unfolding condGroup_def by (rule first_Grp)
  have "first_match ws (32 # 63 # 32 # s, ds) (63 # 32 # s, ds)" "first_match (T ''?'') (63 # 32 # s, ds) (32 # s, ds)" "first_match ws (32 # s, ds) (s, ds)" for ds
    using first_ws_blank [of "63 # 32 # s" ds] first_T [of "''?''" "32 # s" ds] first_ws_blank [OF assms(2,3), of ds] by (simp_all add: is_ws_def lit_def)
  then have "first_match (rseq [condGroup, ws, T ''?'', ws]) (u @ 32 # 63 # 32 # s, cs) (s, AList.update 1 u cs)"
    unfolding rseq.simps using g by (meson first_Seq)
  then show ?thesis unfolding condPrefix_def u_def e by (intro first_Opt) simp
qed

lemma fails_cond_var: "s = [] \<or> hd s \<notin> {112, 99, 108} \<Longrightarrow> fails cond_var (s, cs)"
  by (cases s) (auto simp: cond_var_def T_def lit_def fails_def starts_with_def)

lemma skip_prefix: "s = [] \<or> hd s \<notin> {112, 99, 108} \<Longrightarrow> first_match condPrefix (s, cs) (s, cs)"
  unfolding condPrefix_def condGroup_def condAtom_def
  by (intro first_Opt_skip fails_rseq fails_Grp fails_Seq fails_cond_var)

section \<open>Splitting conditions\<close>

text \<open>Text up to the next joining sign: without ampersands, and with no blank at its end.\<close>

lemma first_of_run:
  assumes "t \<noteq> []" "\<not> is_ws (last t)"
  obtains a c b where "t = a @ c # b" "list_all is_ws a" "\<not> is_ws c"
proof -
  define a where "a = takeWhile is_ws t"
  have "dropWhile is_ws t \<noteq> []" using assms by (metis dropWhile_eq_Nil_conv last_in_set)
  then obtain c b where "dropWhile is_ws t = c # b" by (cases "dropWhile is_ws t") auto
  then have "t = a @ c # b" "\<not> is_ws c" by (metis a_def takeWhile_dropWhile_id, metis hd_dropWhile list.sel(1) list.distinct(1))
  moreover have "list_all is_ws a" by (auto simp: a_def list_all_iff dest: set_takeWhileD)
  ultimately show ?thesis using that by blast
qed

lemma split_run:
  assumes "38 \<notin> set t" "t \<noteq> [] \<Longrightarrow> \<not> is_ws (last t)"
  shows "split_re andSign part (t @ s) = split_re andSign (part @ t) s"
  using assms
proof (induction t arbitrary: part)
  case (Cons c t)
  obtain a d b where e: "c # t = a @ d # b" "list_all is_ws a" "\<not> is_ws d" using first_of_run [of "c # t"] Cons.prems(2) by blast
  have "d \<noteq> 38" using e(1) Cons.prems(1) by (metis in_set_conv_decomp)
  then have "fails andSign (a @ d # (b @ s), [])" using e(2,3) by (intro fails_andSign)
  then have "rmatch andSign (c # t @ s, []) = []" using e(1) by (metis append_Cons append_assoc fails_def)
  then have "split_re andSign part ((c # t) @ s) = split_re andSign (part @ [c]) (t @ s)" by simp
  also have "\<dots> = split_re andSign ((part @ [c]) @ t) s" using Cons.prems by (intro Cons.IH) (auto split: if_splits)
  finally show ?case by simp
qed simp

lemma split_conditions:
  assumes "list_all readableCondition (c # cds)"
  shows "split_re andSign [] (conditionText c @ condRest cds) = map conditionText (c # cds)"
  using assms
proof (induction cds arbitrary: c)
  case Nil
  then show ?case using split_run [of "conditionText c" "[]" "[]"] condition_ends [of c] condition_plain [of c] by (simp add: condRest_def)
next
  case (Cons d cds)
  define t where "t = conditionText d @ condRest cds"
  have t: "t \<noteq> []" "\<not> is_ws (hd t)" using Cons.prems condition_ends [of d] by (simp_all add: t_def)
  have "split_re andSign [] (conditionText c @ lit '' && '' @ t) = split_re andSign (conditionText c) (lit '' && '' @ t)"
    using split_run [of "conditionText c" "[]"] Cons.prems condition_ends [of c] condition_plain [of c] by simp
  also have "\<dots> = conditionText c # split_re andSign [] t"
    using first_andSign [OF t, of "[]"] by (auto simp: first_match_def lit_def)
  finally show ?case using Cons by (simp add: condRest_def t_def)
qed

lemma tier_conditions_read:
  assumes "readableConditions cds"
  shows "parseTierConditions (buildConditionStr cds) = filter usableCondition cds"
proof (cases "filter usableCondition cds")
  case Nil
  then show ?thesis by (simp add: buildConditionStr_def parseTierConditions_def)
next
  case (Cons c ds)
  have r: "list_all readableCondition (c # ds)" using assms Cons by (simp add: readableConditions_def)
  have b: "buildConditionStr cds = conditionText c @ condRest ds"
    by (simp add: buildConditionStr_def Cons join_concat condRest_def comp_def)
  have "List.map_filter parseCondition (map conditionText xs) = xs" if "list_all readableCondition xs" for xs
    using that by (induction xs) (simp_all add: parse_condition List.map_filter_simps)
  then show ?thesis
    using condition_ends [of c] r Cons
    unfolding parseTierConditions_def andSign_def [symmetric] b split_conditions [OF r] by (simp del: list.map List.map_filter_simps)
qed

end
