(* ===== verification/Tier_Roundtrip.thy ===== *)
theory Tier_Roundtrip
  imports Tier_Reading
begin

text \<open>
  Expressions written by the visual editor are read back, by the editor itself and by the price tables.  Both readers search for tiers with patterns that differ only in how they
  read the body of a tier: the locale \<open>tier_reader\<close> is what they need of that part, interpreted for the editor and for the tables.
\<close>

section \<open>Parts of an expression\<close>

record TierShape =
  sh_conds :: "TierConditionInput list"
  sh_label :: jstr
  sh_tier :: VisualTier

definition shapeOk :: "TierShape \<Rightarrow> bool" where
  "shapeOk p = (list_all readableCondition (sh_conds p) \<and> 34 \<notin> set (sh_label p) \<and> readableCosts (sh_tier p))"

definition shapeText :: "TierShape \<Rightarrow> jstr" where
  "shapeText p = (if sh_conds p = [] then [] else buildConditionStr (sh_conds p) @ lit '' ? '') @ tierText (sh_label p) (sh_tier p)"

definition condCaptures :: "TierShape \<Rightarrow> captures" where
  "condCaptures p = (if sh_conds p = [] then [] else AList.update 1 (buildConditionStr (sh_conds p)) [])"

lemma readable_usable: "list_all readableCondition cds \<Longrightarrow> list_all usableCondition cds"
  by (auto simp: list_all_iff readableCondition_def usableCondition_def nullish_def split: jsval.splits)

lemma body_hd: "buildTierBodyExpr t @ s \<noteq> []" "\<not> is_ws (hd (buildTierBodyExpr t @ s))"
  by (simp_all add: body_text costAt_def exprVar_def lit_def is_ws_def)

lemma tierText_append: "tierText label t @ s = lit ''tier('' @ [34] @ label @ [34] @ lit '', '' @ buildTierBodyExpr t @ 41 # s"
  by (simp add: tierText_def lit_def)

lemma tierText_hd: "tierText label t @ s \<noteq> [] \<and> hd (tierText label t @ s) = 116"
  by (simp add: tierText_def lit_def)

lemma first_condition:
  assumes "shapeOk p"
  shows "first_match condPrefix (shapeText p @ s, []) (tierText (sh_label p) (sh_tier p) @ s, condCaptures p)"
proof (cases "sh_conds p")
  case Nil
  then show ?thesis using tierText_hd [of "sh_label p" "sh_tier p" s] by (simp add: shapeText_def condCaptures_def skip_prefix)
next
  case (Cons c cds)
  have r: "list_all readableCondition (c # cds)" using assms Cons by (simp add: shapeOk_def)
  have b: "buildConditionStr (sh_conds p) = conditionText c @ condRest cds" using condition_str [OF readable_usable [OF r]] Cons by simp
  show ?thesis
    using first_prefix [OF r, of "tierText (sh_label p) (sh_tier p) @ s" "[]"] tierText_hd [of "sh_label p" "sh_tier p" s] b Cons
    by (simp add: shapeText_def condCaptures_def is_ws_def)
qed

section \<open>Readers\<close>

text \<open>A pattern for the body of a tier that takes everything up to the closing parenthesis.\<close>

locale tier_reader =
  fixes body :: regex and captured :: "VisualTier \<Rightarrow> captures \<Rightarrow> captures"
  assumes reads_body: "readableCosts t \<Longrightarrow> first_match body (buildTierBodyExpr t @ 41 # s, cs) (41 # s, captured t cs)"
begin

definition found :: "TierShape \<Rightarrow> captures" where
  "found p = captured (sh_tier p) (AList.update 2 (sh_label p) (condCaptures p))"

lemma first_tier:
  assumes "shapeOk p"
  shows "first_match (rseq [condPrefix, tierHead 2, body, T '')'']) (shapeText p @ s, []) (s, found p)"
proof -
  have h: "first_match (tierHead 2) (tierText (sh_label p) (sh_tier p) @ s, condCaptures p)
      (buildTierBodyExpr (sh_tier p) @ 41 # s, AList.update 2 (sh_label p) (condCaptures p))"
    unfolding tierText_append using assms body_hd by (intro first_head) (simp_all add: shapeOk_def)
  have b: "first_match body (buildTierBodyExpr (sh_tier p) @ 41 # s, AList.update 2 (sh_label p) (condCaptures p)) (lit '')'' @ s, found p)"
    using reads_body [of "sh_tier p"] assms by (simp add: shapeOk_def found_def lit_def)
  show ?thesis unfolding rseq.simps using first_condition [OF assms, of s] h b first_T [of "'')''" s] by (meson first_Seq)
qed

lemma no_tier_here:
  assumes "c \<notin> {112, 99, 108, 116}"
  shows "fails (rseq [condPrefix, tierHead 2, body, T '')'']) (c # s, cs)"
proof -
  have "fails (rseq [condGroup, ws, T ''?'', ws]) (c # s, cs)"
    unfolding condGroup_def condAtom_def using assms by (intro fails_rseq fails_Grp fails_Seq fails_cond_var) simp
  then have "rmatch condPrefix (c # s, cs) = [(c # s, cs)]" by (simp add: condPrefix_def Opt_def fails_def)
  moreover have "fails (tierHead 2) (c # s, cs)" unfolding tierHead_def using assms by (intro fails_rseq fails_T) (simp add: starts_with_def lit_def)
  then have "fails (rseq [tierHead 2, body, T '')'']) (c # s, cs)" by (rule fails_rseq)
  ultimately show ?thesis by (simp add: fails_Seq2 del: rmatch.simps)
qed

lemma no_tier:
  assumes "116 \<notin> set s"
  shows "exec_all (rseq [condPrefix, tierHead 2, body, T '')'']) s = []"
  using assms
proof (induction s)
  case Nil
  have "fails (rseq [condPrefix, tierHead 2, body, T '')'']) ([], [])"
  proof -
    have "rmatch condPrefix ([], []) = [([], [])]" by (simp add: condPrefix_def Opt_def condGroup_def condAtom_def cond_var_def T_def lit_def starts_with_def)
    moreover have "fails (rseq [tierHead 2, body, T '')'']) ([], [])" unfolding tierHead_def by (intro fails_rseq fails_T) (simp add: starts_with_def lit_def)
    ultimately show ?thesis by (simp add: fails_Seq2 del: rmatch.simps)
  qed
  then show ?case by (simp add: fails_def del: rmatch.simps rseq.simps)
next
  case (Cons c s)
  have "(s', cs') \<notin> set (rmatch (rseq [condPrefix, tierHead 2, body, T '')'']) (c # s, []))" for s' cs'
  proof
    assume "(s', cs') \<in> set (rmatch (rseq [condPrefix, tierHead 2, body, T '')'']) (c # s, []))"
    then obtain t ds t' where t: "(t, ds) \<in> set (rmatch condPrefix (c # s, []))" "t = lit ''tier('' @ t'"
      unfolding tierHead_def rseq.simps rmatch_Seq_ex rmatch_T by blast
    then obtain u where "c # s = u @ lit ''tier('' @ t'" using rmatch_suffix by blast
    then have "116 \<in> set (c # s)" by (simp add: lit_def)
    with Cons.prems show False by simp
  qed
  then have "rmatch (rseq [condPrefix, tierHead 2, body, T '')'']) (c # s, []) = []" by (metis empty_iff empty_set fails_def fails_iff surj_pair)
  then show ?case using Cons by (simp del: rmatch.simps rseq.simps)
qed

lemma exec_found: "first_match r (s, []) (s', cs) \<Longrightarrow> length s' < length s \<Longrightarrow> exec_all r s = cs # exec_all r s'"
  by (cases s) (auto simp: first_match_def)

lemma exec_parts:
  assumes "list_all shapeOk ps" "116 \<notin> set rest" "ps \<noteq> []"
  shows "exec_all (rseq [condPrefix, tierHead 2, body, T '')'']) (join (lit '' : '') (map shapeText ps) @ rest) = map found ps"
  using assms
proof (induction ps)
  case (Cons p ps)
  let ?r = "rseq [condPrefix, tierHead 2, body, T '')'']"
  have f: "exec_all ?r (shapeText p @ s) = found p # exec_all ?r s" for s
    using Cons.prems by (intro exec_found first_tier) (simp_all add: shapeText_def tierText_def)
  show ?case
  proof (cases ps)
    case Nil
    then show ?thesis using f no_tier [OF Cons.prems(2)] by simp
  next
    case (Cons q qs)
    define t where "t = join (lit '' : '') (map shapeText ps) @ rest"
    have "exec_all ?r (32 # 58 # 32 # t) = exec_all ?r t"
      using no_tier_here [of 32] no_tier_here [of 58] by (simp add: fails_def del: rmatch.simps rseq.simps)
    moreover have "exec_all ?r t = map found ps" unfolding t_def using Cons Cons.prems Cons.IH by simp
    ultimately show ?thesis using f [of "32 # 58 # 32 # t"] by (simp add: Cons t_def lit_def del: rseq.simps)
  qed
qed simp

end

text \<open>The editor reads each cost with a group of its own, the tables take the body as a whole.\<close>

interpretation editor: tier_reader "bodyPat 3" "\<lambda>t. bodyCaptures t 3"
  by unfold_locales (rule first_body)

lemma body_plain: "readableCosts t \<Longrightarrow> 41 \<notin> set (buildTierBodyExpr t)"
proof -
  assume r: "readableCosts t"
  have n: "41 \<notin> set (num_str (costOf t v))" if "v \<in> set BILLING_PRICING_VARS" for v
    using r that numChars_not [of "num_str (costOf t v)" 41] by (auto simp: readableCosts_def readableNumber_def list_all_iff)
  have x: "41 \<notin> set (exprVar v)" for v by (cases v) (simp_all add: exprVar_def lit_def)
  have "41 \<notin> set (extraText (presentCosts t) vs)" if "set vs \<subseteq> set BILLING_PRICING_VARS" for vs
    using that n x by (induction vs) (auto simp: extraText_def presentCosts_def costAt_def lit_def split: if_splits)
  then show ?thesis using n x by (simp add: body_text costAt_def lit_def extra_vars)
qed

interpretation table: tier_reader "Grp 3 (Plus (Cls True [(41, 41)]))" "\<lambda>t cs. AList.update 3 (buildTierBodyExpr t) cs"
proof
  fix t s cs
  assume "readableCosts t"
  then show "first_match (Grp 3 (Plus (Cls True [(41, 41)]))) (buildTierBodyExpr t @ 41 # s, cs) (41 # s, AList.update 3 (buildTierBodyExpr t) cs)"
    using body_plain [of t] body_hd(1) [of t "[]"] by (intro first_Grp first_Plus_Cls) (auto simp: in_class_def)
qed

section \<open>Reading a tier\<close>

text \<open>A tier as it is read: costs that are no numbers are zero, and the cache mode follows from the costs.\<close>

definition canonicalTier :: "jstr \<Rightarrow> TierConditionInput list \<Rightarrow> VisualTier \<Rightarrow> VisualTier" where
  "canonicalTier label cds t =
     \<lparr>vt_label = label, vt_conditions = cds, vt_costs = (\<lambda>v. if v \<in> set BILLING_PRICING_VARS then costOf t v else Fin 0),
      vt_cache_mode = (if js_lt (Fin 0) (costOf t VarCc1h) then Timed else Generic)\<rparr>"

lemma num_or_zero_idem [simp]: "num_or_zero (num_or_zero x) = num_or_zero x" "num_or_zero x \<noteq> NaN"
  by (simp_all add: num_or_zero_def)

lemma js_lt_zero: "\<not> js_lt (Fin 0) NaN" "\<not> js_lt (Fin 0) (Fin 0)"
  by simp_all

lemma captured_canonical:
  assumes "readableCosts t" "\<And>k. Suc n \<le> k \<Longrightarrow> map_of cs k = None" "map_of cs n = Some label"
  shows "capturedTier cds n (bodyCaptures t (Suc n) cs) = canonicalTier label cds t"
proof -
  have g: "group n (bodyCaptures t (Suc n) cs) = label"
    using assms(3) map_of_bindExtra [of n "Suc n + 2"] by (simp add: bodyCaptures_def group_def update_conv')
  have c: "capturedCosts (Suc n) (bodyCaptures t (Suc n) cs) v =
      (if v = VarP \<or> v = VarC then Some (costOf t v) else if v \<in> set BILLING_EXTRA_VARS \<and> costOf t v \<noteq> Fin 0 then Some (costOf t v) else None)" for v
    using assms(1,2) by (rule captured_costs)
  have "num_or_zero (costOf t v) = costOf t v" "num_or_zero NaN = Fin 0" for v by (simp_all add: costOf_def num_or_zero_def)
  then have "(if v \<in> set BILLING_EXTRA_VARS then num_or_zero (opt_or (capturedCosts (Suc n) (bodyCaptures t (Suc n) cs) v) NaN)
      else opt_or (capturedCosts (Suc n) (bodyCaptures t (Suc n) cs) v) (Fin 0)) = (if v \<in> set BILLING_PRICING_VARS then costOf t v else Fin 0)" for v
    by (cases v) (simp_all add: c extra_vars)
  moreover have "js_lt (Fin 0) (opt_or (capturedCosts (Suc n) (bodyCaptures t (Suc n) cs) VarCc1h) NaN) \<longleftrightarrow> js_lt (Fin 0) (costOf t VarCc1h)"
    using js_lt_zero by (simp add: c extra_vars)
  ultimately show ?thesis
    by (simp add: capturedTier_def normalizeVisualTier_def getTierCacheMode_def canonicalTier_def g cong: if_cong)
qed

lemma canonical_normal: "normalizeVisualTier (fullTier (canonicalTier label cds t)) = canonicalTier label cds t"
  by (auto simp: normalizeVisualTier_def fullTier_def canonicalTier_def extra_vars costOf_def fun_eq_iff)

lemma canonical_text: "tierText l (canonicalTier label cds t) = tierText l t"
proof -
  have "costText (canonicalTier label cds t) v = costText t v \<and> (num_or_zero (vt_costs (canonicalTier label cds t) v) = num_or_zero (vt_costs t v))"
    if "v \<in> set BILLING_PRICING_VARS" for v
    using that by (simp add: costText_def canonicalTier_def costOf_def)
  then have "buildTierBodyExpr (canonicalTier label cds t) = buildTierBodyExpr t"
    unfolding buildTierBodyExpr_def by (intro arg_cong [of _ _ "join _"]) (auto simp: extra_vars)
  then show ?thesis by (simp add: tierText_def)
qed

section \<open>Configurations\<close>

definition labelAt :: "nat \<Rightarrow> nat \<Rightarrow> VisualTier \<Rightarrow> jstr" where
  "labelAt n i t = (if vt_label t \<noteq> [] then vt_label t else if n = 1 then lit ''default'' else lit ''tier_'' @ num_str (Fin (of_nat (Suc i))))"

definition condsAt :: "nat \<Rightarrow> nat \<Rightarrow> VisualTier \<Rightarrow> TierConditionInput list" where
  "condsAt n i t = (if n = 1 \<or> Suc i < n then filter usableCondition (vt_conditions t) else [])"

definition shapes :: "VisualTier list \<Rightarrow> TierShape list" where
  "shapes ts = map (\<lambda>(i, t). \<lparr>sh_conds = condsAt (length ts) i t, sh_label = labelAt (length ts) i t, sh_tier = t\<rparr>) (enumerate 0 ts)"

text \<open>A configuration as it is read back.\<close>

definition canonicalConfig :: "VisualConfig \<Rightarrow> VisualConfig" where
  "canonicalConfig cfg = \<lparr>tiers = map (\<lambda>p. canonicalTier (sh_label p) (sh_conds p) (sh_tier p)) (shapes (tiers cfg))\<rparr>"

text \<open>Labels without quotes, numbers that are read back, and, when there are several tiers, a condition for each but the last.\<close>

definition readableConfig :: "VisualConfig \<Rightarrow> bool" where
  "readableConfig cfg =
     (tiers cfg \<noteq> [] \<and> int (length (tiers cfg)) \<le> 2 ^ 53 \<and>
      list_all (\<lambda>t. 34 \<notin> set (vt_label t) \<and> readableCosts t \<and> readableConditions (vt_conditions t)) (tiers cfg) \<and>
      list_all (\<lambda>t. filter usableCondition (vt_conditions t) \<noteq> []) (butlast (tiers cfg)))"

lemma condition_str_filter: "buildConditionStr (filter usableCondition cds) = buildConditionStr cds"
  by (simp add: buildConditionStr_def)

lemma condition_str_empty: "readableConditions cds \<Longrightarrow> buildConditionStr cds = [] \<longleftrightarrow> filter usableCondition cds = []"
  by (cases "filter usableCondition cds") (auto simp: buildConditionStr_def join_concat conditionText_def)

lemma generate_shapes:
  assumes "tiers cfg \<noteq> []" "list_all (\<lambda>t. readableConditions (vt_conditions t)) (tiers cfg)"
  shows "generateExprFromVisualConfig (Some cfg) = join (lit '' : '') (map shapeText (shapes (tiers cfg))) @
    (if length (tiers cfg) = 1 \<and> sh_conds (hd (shapes (tiers cfg))) \<noteq> [] then lit '' : '' @ zeroExpr else [])"
proof -
  have part: "tierPart n i t = shapeText \<lparr>sh_conds = condsAt n i t, sh_label = labelAt n i t, sh_tier = t\<rparr>"
    if "n \<noteq> 1" "readableConditions (vt_conditions t)" for n i t
    using that condition_str_empty [of "vt_conditions t"] condition_str_filter [of "vt_conditions t"]
    by (simp add: tierPart_def shapeText_def condsAt_def labelAt_def Let_def)
  obtain t ts where c: "tiers cfg = t # ts" using assms(1) by (cases "tiers cfg") auto
  show ?thesis
  proof (cases ts)
    case Nil
    then show ?thesis
      using assms(2) condition_str_empty [of "vt_conditions t"] condition_str_filter [of "vt_conditions t"]
      by (simp add: generateExprFromVisualConfig_def c shapes_def shapeText_def condsAt_def labelAt_def Let_def)
  next
    case (Cons t' ts')
    have "generateExprFromVisualConfig (Some cfg) = join (lit '' : '') (map (\<lambda>(i, tier). tierPart (length (tiers cfg)) i tier) (enumerate 0 (tiers cfg)))"
      by (simp add: generateExprFromVisualConfig_def c Cons)
    moreover have "map (\<lambda>(i, tier). tierPart (length (tiers cfg)) i tier) (enumerate 0 (tiers cfg)) = map shapeText (shapes (tiers cfg))"
      unfolding shapes_def using assms(2) part by (auto simp: list_all_iff c Cons dest!: in_set_enumerate_eq [THEN iffD1])
    moreover have "length (tiers cfg) \<noteq> 1" by (simp add: c Cons)
    ultimately show ?thesis by (simp only: simp_thms if_False append_Nil2)
  qed
qed

lemma shapes_ok:
  assumes "readableConfig cfg"
  shows "list_all shapeOk (shapes (tiers cfg))" "shapes (tiers cfg) \<noteq> []"
    "length (tiers cfg) \<noteq> 1 \<Longrightarrow> sh_conds (hd (shapes (tiers cfg))) \<noteq> []"
proof -
  have digits: "34 \<notin> set (num_str (Fin (of_nat (Suc i))))" if "i < length (tiers cfg)" for i
  proof -
    have "num_str (jint (int (Suc i))) = dec_int (int (Suc i))" using that assms by (intro num_str_jint) (simp add: readableConfig_def)
    moreover have "Fin (of_nat (Suc i)) = jint (int (Suc i))" by simp
    moreover have "34 \<notin> set (dec_int (int (Suc i)))" using dec_nat_digits [of "int (Suc i)" 34] by (auto simp: dec_int_def is_digit_def)
    ultimately show ?thesis by simp
  qed
  have fine: "34 \<notin> set (vt_label t) \<and> readableCosts t \<and> list_all readableCondition (filter usableCondition (vt_conditions t))" if "t \<in> set (tiers cfg)" for t
    using that assms by (auto simp: readableConfig_def list_all_iff readableConditions_def)
  have "shapeOk \<lparr>sh_conds = condsAt n i t, sh_label = labelAt n i t, sh_tier = t\<rparr>" if "t \<in> set (tiers cfg)" "i < length (tiers cfg)" for n i t
    using fine [OF that(1)] digits [OF that(2)] by (auto simp: shapeOk_def condsAt_def labelAt_def lit_def simp del: of_nat_Suc)
  then show "list_all shapeOk (shapes (tiers cfg))" unfolding shapes_def list_all_iff by (auto simp: in_set_enumerate_eq)
  show "shapes (tiers cfg) \<noteq> []" using assms by (cases "tiers cfg") (auto simp: shapes_def readableConfig_def)
  show "sh_conds (hd (shapes (tiers cfg))) \<noteq> []" if "length (tiers cfg) \<noteq> 1"
    using that assms by (cases "tiers cfg"; cases "tl (tiers cfg)") (auto simp: shapes_def condsAt_def readableConfig_def)
qed

lemma shape_first:
  "shapeOk p \<Longrightarrow> hd (shapeText p @ s) \<in> {112, 99, 108, 116} \<and> shapeText p @ s \<noteq> [] \<and> (sh_conds p \<noteq> [] \<longrightarrow> hd (shapeText p @ s) \<noteq> 116)"
proof (cases "sh_conds p")
  case (Cons c cds)
  assume "shapeOk p"
  then have "list_all readableCondition (c # cds)" by (simp add: shapeOk_def Cons)
  moreover from this have "buildConditionStr (sh_conds p) = conditionText c @ condRest cds" using condition_str [OF readable_usable] Cons by simp
  ultimately show ?thesis by (auto simp: shapeText_def Cons conditionText_def readableCondition_def condVars_def exprVar_def lit_def)
qed (simp add: shapeText_def tierText_def lit_def)

lemma single_read:
  assumes "shapeOk p"
  shows "matches_whole singleRe (tierText (sh_label p) (sh_tier p)) = Some (bodyCaptures (sh_tier p) 2 (AList.update 1 (sh_label p) []))"
proof (rule first_whole)
  define t where "t = sh_tier p"
  define cs where "cs = AList.update 1 (sh_label p) ([] :: captures)"
  have h: "first_match (tierHead 1) (tierText (sh_label p) t @ [], []) (buildTierBodyExpr t @ 41 # [], cs)"
    unfolding tierText_append cs_def using assms body_hd by (intro first_head) (simp_all add: shapeOk_def)
  have b: "first_match (bodyPat 2) (buildTierBodyExpr t @ 41 # [], cs) (lit '')'' @ [], bodyCaptures t 2 cs)"
    using first_body [of t 2 "[]" cs] assms by (simp add: shapeOk_def t_def lit_def)
  show "first_match singleRe (tierText (sh_label p) (sh_tier p), []) ([], bodyCaptures (sh_tier p) 2 (AList.update 1 (sh_label p) []))"
    unfolding singleRe_def rseq.simps t_def [symmetric] cs_def [symmetric] using first_Seq [OF h first_Seq [OF b first_T]] by simp
qed

lemma body_unversioned:
  assumes "hd s \<noteq> 118" "s \<noteq> []"
  shows "exprBody s = s"
proof -
  have "fails version_re (s, [])" unfolding version_re_def using assms by (intro fails_rseq fails_T) (cases s; simp add: starts_with_def lit_def)
  then show ?thesis by (simp add: exprBody_def fails_whole)
qed

lemma found_editor: "editor.found p = bodyCaptures (sh_tier p) 3 (AList.update 2 (sh_label p) (condCaptures p))"
  by (simp add: editor.found_def)

lemma read_conditions:
  assumes "shapeOk p" "group 1 m = (if sh_conds p = [] then [] else buildConditionStr (sh_conds p))"
  shows "parseTierConditions (group 1 m) = sh_conds p"
proof -
  have r: "list_all readableCondition (sh_conds p)" using assms(1) by (simp add: shapeOk_def)
  have "filter usableCondition (sh_conds p) = sh_conds p" using readable_usable [OF r] by (auto simp: list_all_iff intro: filter_True)
  then have "parseTierConditions (buildConditionStr (sh_conds p)) = sh_conds p"
    using tier_conditions_read [of "sh_conds p"] r by (simp add: readableConditions_def)
  moreover have "parseTierConditions [] = []" by (simp add: parseTierConditions_def)
  ultimately show ?thesis using assms(2) by (cases "sh_conds p = []") simp_all
qed

lemma tier_found:
  assumes "shapeOk p"
  shows "capturedTier (parseTierConditions (group 1 (editor.found p))) 2 (editor.found p) = canonicalTier (sh_label p) (sh_conds p) (sh_tier p)"
proof -
  have "group 1 (editor.found p) = (if sh_conds p = [] then [] else buildConditionStr (sh_conds p))"
    using map_of_bindExtra [of 1 5] by (simp add: found_editor bodyCaptures_def group_def update_conv' condCaptures_def)
  note c = read_conditions [OF assms this]
  have "capturedTier (sh_conds p) 2 (bodyCaptures (sh_tier p) (Suc 2) (AList.update 2 (sh_label p) (condCaptures p))) = canonicalTier (sh_label p) (sh_conds p) (sh_tier p)"
    using assms by (intro captured_canonical) (simp_all add: update_conv' condCaptures_def shapeOk_def)
  moreover have "Suc 2 = 3" by simp
  ultimately show ?thesis unfolding found_editor c [unfolded found_editor] by (simp only:)
qed

text \<open>The canonical configuration is written as the same text.\<close>

lemma shapes_canonical:
  "shapes (tiers (canonicalConfig cfg)) = map (\<lambda>p. p\<lparr>sh_tier := canonicalTier (sh_label p) (sh_conds p) (sh_tier p)\<rparr>) (shapes (tiers cfg))"
proof (rule nth_equalityI)
  define n where "n = length (tiers cfg)"
  show "length (shapes (tiers (canonicalConfig cfg))) = length (map (\<lambda>p. p\<lparr>sh_tier := canonicalTier (sh_label p) (sh_conds p) (sh_tier p)\<rparr>) (shapes (tiers cfg)))"
    by (simp add: shapes_def canonicalConfig_def)
  fix i
  assume "i < length (shapes (tiers (canonicalConfig cfg)))"
  then have i: "i < n" by (simp add: shapes_def canonicalConfig_def n_def)
  define t where "t = tiers cfg ! i"
  have s: "shapes (tiers cfg) ! i = \<lparr>sh_conds = condsAt n i t, sh_label = labelAt n i t, sh_tier = t\<rparr>"
    using i by (simp add: shapes_def nth_enumerate_eq n_def t_def)
  define t' where "t' = canonicalTier (labelAt n i t) (condsAt n i t) t"
  have "tiers (canonicalConfig cfg) ! i = t'" using i s by (simp add: canonicalConfig_def t'_def shapes_def n_def)
  then have s': "shapes (tiers (canonicalConfig cfg)) ! i = \<lparr>sh_conds = condsAt n i t', sh_label = labelAt n i t', sh_tier = t'\<rparr>"
    using i by (simp add: shapes_def nth_enumerate_eq n_def canonicalConfig_def)
  have "labelAt n i t' = labelAt n i t" "condsAt n i t' = condsAt n i t"
    by (auto simp: t'_def labelAt_def condsAt_def canonicalTier_def lit_def)
  then show "shapes (tiers (canonicalConfig cfg)) ! i = map (\<lambda>p. p\<lparr>sh_tier := canonicalTier (sh_label p) (sh_conds p) (sh_tier p)\<rparr>) (shapes (tiers cfg)) ! i"
    using i s s' by (simp add: t'_def shapes_def n_def)
qed

lemma generate_canonical:
  assumes "readableConfig cfg"
  shows "generateExprFromVisualConfig (Some (canonicalConfig cfg)) = generateExprFromVisualConfig (Some cfg)"
proof -
  have ok: "list_all shapeOk (shapes (tiers cfg))" "shapes (tiers cfg) \<noteq> []" using shapes_ok [OF assms] by blast+
  have c: "tiers (canonicalConfig cfg) \<noteq> []" "length (tiers (canonicalConfig cfg)) = length (tiers cfg)" using ok(2) by (auto simp: canonicalConfig_def shapes_def)
  have "list_all (\<lambda>t. readableConditions (vt_conditions t)) (tiers (canonicalConfig cfg))"
    using ok(1) by (auto simp: canonicalConfig_def list_all_iff shapeOk_def canonicalTier_def readableConditions_def)
  note g = generate_shapes [OF c(1) this]
  have "list_all (\<lambda>t. readableConditions (vt_conditions t)) (tiers cfg)" "tiers cfg \<noteq> []"
    using assms by (auto simp: readableConfig_def list_all_iff)
  note g' = generate_shapes [OF this(2,1)]
  have "map shapeText (shapes (tiers (canonicalConfig cfg))) = map shapeText (shapes (tiers cfg))"
    by (simp add: shapes_canonical shapeText_def canonical_text)
  moreover have "sh_conds (hd (shapes (tiers (canonicalConfig cfg)))) = sh_conds (hd (shapes (tiers cfg)))"
    using ok(2) by (simp add: shapes_canonical hd_map)
  ultimately show ?thesis unfolding g g' c(2) by simp
qed

lemma canonicalConfig_normal: "tiers cfg \<noteq> [] \<Longrightarrow> normalizeVisualConfig (Some (canonicalConfig cfg)) = canonicalConfig cfg"
  by (cases "tiers cfg") (auto simp: normalizeVisualConfig_def canonicalConfig_def canonical_normal shapes_def)

text \<open>The expression is the tiers' texts in order, with nothing that could be a tier after them; it has no version prefix.\<close>

lemma written_parts:
  assumes "readableConfig cfg"
  obtains rest where
    "generateExprFromVisualConfig (Some cfg) = join (lit '' : '') (map shapeText (shapes (tiers cfg))) @ rest"
    "116 \<notin> set rest"
    "length (tiers cfg) = 1 \<longrightarrow> sh_conds (hd (shapes (tiers cfg))) = [] \<longrightarrow> rest = []"
    "generateExprFromVisualConfig (Some cfg) \<noteq> []"
    "exprBody (generateExprFromVisualConfig (Some cfg)) = generateExprFromVisualConfig (Some cfg)"
proof -
  define ps where "ps = shapes (tiers cfg)"
  define rest where "rest = (if length (tiers cfg) = 1 \<and> sh_conds (hd ps) \<noteq> [] then lit '' : '' @ zeroExpr else [])"
  define e where "e = generateExprFromVisualConfig (Some cfg)"
  have ok: "list_all shapeOk ps" "ps \<noteq> []" using shapes_ok [OF assms] by (auto simp: ps_def)
  have "list_all (\<lambda>t. readableConditions (vt_conditions t)) (tiers cfg)" "tiers cfg \<noteq> []"
    using assms by (auto simp: readableConfig_def list_all_iff)
  then have e: "e = join (lit '' : '') (map shapeText ps) @ rest" using generate_shapes [of cfg] by (simp add: e_def ps_def rest_def)
  obtain p qs where p: "ps = p # qs" using ok(2) by (cases ps) auto
  have "e = shapeText p @ (concat (map (\<lambda>y. lit '' : '' @ y) (map shapeText qs)) @ rest)" by (simp add: e p join_concat)
  then have hd_e: "hd e \<in> {112, 99, 108, 116}" "e \<noteq> []" using shape_first [of p] ok(1) p by auto
  have "exprBody e = e" using hd_e by (intro body_unversioned) auto
  moreover have "116 \<notin> set rest" by (simp add: rest_def zeroExpr_def lit_def)
  ultimately show ?thesis using that e hd_e(2) by (simp add: e_def ps_def rest_def)
qed

lemma roundtrip:
  assumes "readableConfig cfg"
  shows "tryParseVisualConfig (generateExprFromVisualConfig (Some cfg)) = Some (canonicalConfig cfg)"
proof -
  define ps where "ps = shapes (tiers cfg)"
  have ok: "list_all shapeOk ps" "ps \<noteq> []" "length (tiers cfg) \<noteq> 1 \<Longrightarrow> sh_conds (hd ps) \<noteq> []" using shapes_ok [OF assms] by (auto simp: ps_def)
  have r: "tiers cfg \<noteq> []" using assms by (simp add: readableConfig_def)
  define e where "e = generateExprFromVisualConfig (Some cfg)"
  obtain rest where e: "e = join (lit '' : '') (map shapeText ps) @ rest" and rest: "116 \<notin> set rest"
      "length (tiers cfg) = 1 \<longrightarrow> sh_conds (hd ps) = [] \<longrightarrow> rest = []" and filled: "e \<noteq> []" and body: "exprBody e = e"
    unfolding ps_def e_def by (rule written_parts [OF assms])
  obtain p qs where p: "ps = p # qs" using ok(2) by (cases ps) auto
  have pok: "shapeOk p" using ok(1) by (simp add: p)
  show ?thesis
  proof (cases "sh_conds p = []")
    case True
    have "length ps = length (tiers cfg)" by (simp add: ps_def shapes_def)
    moreover have "length (tiers cfg) = 1" using ok(3) p True by fastforce
    ultimately have one: "qs = []" "rest = []" using True p rest(2) by simp_all
    have m: "matches_whole singleRe e = Some (bodyCaptures (sh_tier p) 2 (AList.update 1 (sh_label p) []))"
      using single_read [OF pok] True one by (simp add: e p shapeText_def)
    have "capturedTier [] 1 (bodyCaptures (sh_tier p) (Suc 1) (AList.update 1 (sh_label p) [])) = canonicalTier (sh_label p) [] (sh_tier p)"
      using pok by (intro captured_canonical) (simp_all add: update_conv' shapeOk_def)
    then have "\<lparr>tiers = [capturedTier [] 1 (bodyCaptures (sh_tier p) 2 (AList.update 1 (sh_label p) []))]\<rparr> = canonicalConfig cfg"
      using True p one by (simp add: canonicalConfig_def ps_def [symmetric] numeral_2_eq_2)
    then show ?thesis
      using filled body m canonicalConfig_normal [OF r] by (simp add: tryParseVisualConfig_def e_def [symmetric])
  next
    case False
    have "hd e \<noteq> 116" using shape_first [OF pok] False by (simp add: e p join_concat)
    then have "fails singleRe (e, [])"
      unfolding singleRe_def tierHead_def using filled by (intro fails_rseq fails_T) (cases e; simp add: starts_with_def lit_def)
    then have m: "matches_whole singleRe e = None" by (rule fails_whole)
    have "exec_all tierRe e = map editor.found ps"
      using editor.exec_parts [OF ok(1) rest(1) ok(2)] unfolding tierRe_def e by blast
    then have "map (\<lambda>m. capturedTier (parseTierConditions (group 1 m)) 2 m) (exec_all tierRe e) = tiers (canonicalConfig cfg)"
      using ok(1) tier_found by (auto simp: canonicalConfig_def ps_def [symmetric] list_all_iff)
    moreover have "normalizeVisualConfig (Some \<lparr>tiers = tiers (canonicalConfig cfg)\<rparr>) = canonicalConfig cfg"
      using canonicalConfig_normal [OF r] by (cases "canonicalConfig cfg") simp
    moreover have "tiers (canonicalConfig cfg) \<noteq> []" using ok(2) by (simp add: canonicalConfig_def ps_def [symmetric])
    ultimately show ?thesis
      using filled body m generate_canonical [OF assms] by (simp add: tryParseVisualConfig_def e_def [symmetric] Let_def)
  qed
qed

section \<open>The price tables\<close>

definition timesNumber :: regex where
  "timesNumber = rseq [ws, T ''*'', ws, Grp 2 (Plus num_cls)]"

lemma varRe_parts: "varRe = Seq (Grp 1 (ralt (map (\<lambda>v. Txt (exprVar v)) BILLING_PRICING_VARS))) timesNumber"
  by (simp add: varRe_def timesNumber_def)

lemma fails_timesNumber: "\<not> is_ws c \<Longrightarrow> c \<noteq> 42 \<Longrightarrow> fails timesNumber (c # s, cs)"
proof -
  assume c: "\<not> is_ws c" "c \<noteq> 42"
  have "(s', cs') \<notin> set (rmatch timesNumber (c # s, cs))" for s' cs'
    unfolding timesNumber_def rseq.simps rmatch_Seq_ex rmatch_ws rmatch_T using c by (auto simp: Cons_eq_append_conv lit_def)
  then show ?thesis unfolding fails_iff by (metis surj_pair)
qed

lemma first_timesNumber:
  assumes "u \<noteq> []" "numChars u" "s \<noteq> [] \<Longrightarrow> hd s = 32"
  shows "first_match timesNumber (lit '' * '' @ u @ s, cs) (s, AList.update 2 u cs)"
proof -
  have "first_match (Grp 2 (Plus num_cls)) (u @ s, cs) (s, AList.update 2 u cs)"
    unfolding num_cls_def using assms by (intro first_Grp first_Plus_Cls) (auto simp: numChars_def in_class_def)
  moreover have "first_match ws (32 # 42 # 32 # u @ s, cs) (42 # 32 # u @ s, cs)" by (rule first_ws_blank) (simp_all add: is_ws_def)
  moreover have "first_match (T ''*'') (42 # 32 # u @ s, cs) (32 # u @ s, cs)" using first_T [of "''*''"] by (simp add: lit_def)
  moreover have "first_match ws (32 # u @ s, cs) (u @ s, cs)" using assms numChars_hd by (intro first_ws_blank) auto
  ultimately have "first_match timesNumber (32 # 42 # 32 # u @ s, cs) (s, AList.update 2 u cs)"
    unfolding timesNumber_def rseq.simps by (meson first_Seq)
  then show ?thesis by (simp add: lit_def)
qed

text \<open>A variable whose name begins another one is given up where the other one stands.\<close>

lemma fails_other_var:
  assumes "v \<noteq> w"
  shows "fails (Seq (Grp 1 (Txt (exprVar w))) timesNumber) (exprVar v @ 32 # s, cs)"
proof (cases "starts_with (exprVar w) (exprVar v @ 32 # s)")
  case True
  then obtain z where z: "exprVar v @ 32 # s = exprVar w @ z" by (auto simp: starts_with_iff)
  then consider us where "exprVar v = exprVar w @ us" "us @ 32 # s = z" | us where "exprVar w = exprVar v @ us" "32 # s = us @ z"
    using that by (metis append_eq_append_conv2)
  then have "\<exists>c x. z = c # x \<and> \<not> is_ws c \<and> c \<noteq> 42"
  proof cases
    case 1
    then obtain c x where "us = c # x" using assms by (cases us) auto
    then show ?thesis using 1 exprVar_plain [of c v] by auto
  next
    case 2
    then obtain x where "us = 32 # x" using assms by (cases us) auto
    then show ?thesis using 2(1) exprVar_plain [of 32 w] by (simp add: is_ws_def)
  qed
  then show ?thesis using True z fails_timesNumber by (auto simp: fails_def)
qed (simp add: fails_def)

lemma first_words:
  assumes "v \<in> set vs" "first_match timesNumber (32 # s, AList.update 1 (exprVar v) cs) st"
  shows "first_match (Seq (Grp 1 (ralt (map (\<lambda>v. Txt (exprVar v)) vs))) timesNumber) (exprVar v @ 32 # s, cs) st"
proof -
  have g: "rmatch (Seq (Grp 1 (Alt a b)) timesNumber) st0 = rmatch (Seq (Grp 1 a) timesNumber) st0 @ rmatch (Seq (Grp 1 b) timesNumber) st0" for a b st0 by simp
  have h: "first_match (Seq (Grp 1 (Txt (exprVar v))) timesNumber) (exprVar v @ 32 # s, cs) st"
    using first_Seq [OF first_Grp [OF first_Txt] assms(2)] .
  show ?thesis
    using assms(1)
  proof (induction vs rule: induct_list012)
    case (2 w)
    then show ?case using h by simp
  next
    case (3 w w' vs)
    let ?rest = "Seq (Grp 1 (ralt (map (\<lambda>v. Txt (exprVar v)) (w' # vs)))) timesNumber"
    have r: "rmatch (Seq (Grp 1 (ralt (map (\<lambda>v. Txt (exprVar v)) (w # w' # vs)))) timesNumber) st0 =
        rmatch (Seq (Grp 1 (Txt (exprVar w))) timesNumber) st0 @ rmatch ?rest st0" for st0
      by (simp only: list.map ralt.simps g)
    show ?case
    proof (cases "w = v")
      case True
      then show ?thesis using h unfolding first_match_def r by (auto simp del: rmatch.simps)
    next
      case False
      then have "first_match ?rest (exprVar v @ 32 # s, cs) st" using 3 by auto
      then show ?thesis using fails_other_var [of v w s cs] False unfolding first_match_def r fails_def by (simp del: rmatch.simps)
    qed
  qed simp
qed

lemma first_var:
  assumes "v \<in> set BILLING_PRICING_VARS" "u \<noteq> []" "numChars u" "s \<noteq> [] \<Longrightarrow> hd s = 32"
  shows "first_match varRe (costAt v u @ s, []) (s, AList.update 2 u (AList.update 1 (exprVar v) []))"
  using first_words [OF assms(1), of "42 # 32 # u @ s" "[]"] first_timesNumber [OF assms(2-4)]
  by (simp add: varRe_parts costAt_def lit_def del: AList.update.simps)

lemma no_var: "c \<in> {32, 43} \<Longrightarrow> rmatch varRe (c # s, []) = []"
  by (auto simp: varRe_parts extra_vars exprVar_def lit_def starts_with_def)

lemma skip_plus: "exec_words b (lit '' + '' @ s) = exec_words False s"
  using no_var [of 32] no_var [of 43] by (simp add: lit_def is_word_def del: rmatch.simps)

definition varFound :: "VarKey \<times> jstr \<Rightarrow> captures" where
  "varFound p = AList.update 2 (snd p) (AList.update 1 (exprVar (fst p)) [])"

definition pairsText :: "(VarKey \<times> jstr) list \<Rightarrow> jstr" where
  "pairsText ps = concat (map (\<lambda>(v, u). lit '' + '' @ costAt v u) ps)"

lemma exec_pairs:
  assumes "\<forall>(v, u)\<in>set ps. v \<in> set BILLING_PRICING_VARS \<and> u \<noteq> [] \<and> numChars u"
  shows "exec_words b (pairsText ps) = map varFound ps"
  using assms
proof (induction ps arbitrary: b)
  case (Cons p ps)
  obtain v u where p: "p = (v, u)" by (cases p)
  define s where "s = pairsText ps"
  have s: "s \<noteq> [] \<Longrightarrow> hd s = 32" by (cases ps) (auto simp: s_def pairsText_def lit_def)
  have m: "first_match varRe (costAt v u @ s, []) (s, varFound (v, u))"
    using Cons.prems p s first_var [of v u s] by (simp add: varFound_def del: AList.update.simps)
  obtain c t where c: "costAt v u = c # t" by (metis append_is_Nil_conv costAt_def exprVar_filled list.exhaust)
  have "exec_words False (costAt v u @ s) = varFound (v, u) # exec_words (is_word (last (costAt v u))) s"
    using m by (auto simp: c first_match_def simp del: rmatch.simps)
  moreover have "exec_words b' s = map varFound ps" for b'
    using Cons by (simp add: s_def)
  ultimately show ?case by (simp add: p pairsText_def s_def [unfolded pairsText_def, symmetric] skip_plus)
qed (simp add: pairsText_def)

definition pairsOf :: "(VarKey \<rightharpoonup> jstr) \<Rightarrow> VarKey list \<Rightarrow> (VarKey \<times> jstr) list" where
  "pairsOf f vs = concat (map (\<lambda>v. case f v of None \<Rightarrow> [] | Some u \<Rightarrow> [(v, u)]) vs)"

lemma extraText_pairs: "extraText f vs = pairsText (pairsOf f vs)"
  by (induction vs) (auto simp: extraText_def pairsText_def pairsOf_def split: option.split)

lemma map_of_pairs: "distinct vs \<Longrightarrow> map_of (pairsOf f vs) v = (if v \<in> set vs then f v else None)"
proof (induction vs)
  case (Cons w vs)
  then show ?case by (auto simp: pairsOf_def map_add_def split: option.split)
qed (simp add: pairsOf_def)

lemma coefficient_pairs:
  "coefficient (map varFound ps) v =
     (case map_of ps v of None \<Rightarrow> Fin 0 | Some u \<Rightarrow> num_or_zero (to_number u))"
  by (induction ps) (auto simp: coefficient_def group_def update_conv' varFound_def simp del: AList.update.simps)

lemma table_prices:
  assumes "readableCosts t"
  shows "parseTierBody (buildTierBodyExpr t) v = vt_costs (canonicalTier label cds t) v"
proof -
  have r: "num_str (costOf t v) \<noteq> [] \<and> numChars (num_str (costOf t v)) \<and> to_number (num_str (costOf t v)) = costOf t v"
    if "v \<in> set BILLING_PRICING_VARS" for v
    using assms that by (auto simp: readableCosts_def readableNumber_def list_all_iff)
  define ps where "ps = (VarP, num_str (costOf t VarP)) # (VarC, num_str (costOf t VarC)) # pairsOf (presentCosts t) BILLING_EXTRA_VARS"
  have ok: "\<forall>(v, u)\<in>set ps. v \<in> set BILLING_PRICING_VARS \<and> u \<noteq> [] \<and> numChars u"
    using r by (auto simp: ps_def pairsOf_def presentCosts_def extra_vars split: if_splits)
  have "lit '' + '' @ buildTierBodyExpr t = pairsText ps" by (simp add: body_text extraText_pairs pairsText_def ps_def)
  then have "exec_words False (buildTierBodyExpr t) = map varFound ps"
    using exec_pairs [OF ok, of False] skip_plus [of False "buildTierBodyExpr t"] by simp
  moreover have "map_of ps v = (if v = VarP \<or> v = VarC then Some (num_str (costOf t v)) else if v \<in> set BILLING_EXTRA_VARS then presentCosts t v else None)"
    using map_of_pairs [of BILLING_EXTRA_VARS "presentCosts t" v] by (auto simp: ps_def extra_vars)
  ultimately have b: "parseTierBody (buildTierBodyExpr t) v = (if v \<in> set BILLING_PRICING_VARS
      then case (if v = VarP \<or> v = VarC then Some (num_str (costOf t v)) else if v \<in> set BILLING_EXTRA_VARS then presentCosts t v else None) of
             None \<Rightarrow> Fin 0 | Some u \<Rightarrow> num_or_zero (to_number u) else Fin 0)"
    by (simp only: parseTierBody_def coefficient_pairs)
  have n: "num_or_zero (costOf t w) = costOf t w" for w by (simp add: costOf_def num_or_zero_def)
  show ?thesis
    using r [of v] unfolding b canonicalTier_def presentCosts_def by (cases v) (simp_all add: extra_vars n)
qed

text \<open>A tier of the editor as the tables show it.\<close>

definition shownTier :: "VisualTier \<Rightarrow> ParsedTier" where
  "shownTier t = \<lparr>pr_label = vt_label t, pr_conditions = vt_conditions t, pr_prices = vt_costs t\<rparr>"

lemma table_tier:
  assumes "shapeOk p"
  shows "\<lparr>pr_label = group 2 (table.found p), pr_conditions = parseTierConditions (group 1 (table.found p)), pr_prices = parseTierBody (group 3 (table.found p))\<rparr>
    = shownTier (canonicalTier (sh_label p) (sh_conds p) (sh_tier p))"
proof -
  have f: "table.found p = AList.update 3 (buildTierBodyExpr (sh_tier p)) (AList.update 2 (sh_label p) (condCaptures p))" by (simp add: table.found_def)
  have g: "group 3 (table.found p) = buildTierBodyExpr (sh_tier p)" "group 2 (table.found p) = sh_label p"
      "group 1 (table.found p) = (if sh_conds p = [] then [] else buildConditionStr (sh_conds p))"
    by (simp_all add: f group_def update_conv' condCaptures_def)
  have "parseTierBody (buildTierBodyExpr (sh_tier p)) = vt_costs (canonicalTier (sh_label p) (sh_conds p) (sh_tier p))"
    using table_prices assms by (intro ext) (simp add: shapeOk_def)
  then show ?thesis
    using read_conditions [OF assms g(3)] unfolding g(1,2) shownTier_def by (simp add: canonicalTier_def)
qed

lemma tables_read:
  assumes "readableConfig cfg"
  shows "parseTiersFromExpr (generateExprFromVisualConfig (Some cfg)) = map shownTier (tiers (canonicalConfig cfg))"
proof -
  define e where "e = generateExprFromVisualConfig (Some cfg)"
  obtain rest where e: "e = join (lit '' : '') (map shapeText (shapes (tiers cfg))) @ rest" and rest: "116 \<notin> set rest"
      and "length (tiers cfg) = 1 \<longrightarrow> sh_conds (hd (shapes (tiers cfg))) = [] \<longrightarrow> rest = []" and filled: "e \<noteq> []" and body: "exprBody e = e"
    unfolding e_def by (rule written_parts [OF assms])
  have ok: "list_all shapeOk (shapes (tiers cfg))" "shapes (tiers cfg) \<noteq> []" using shapes_ok [OF assms] by blast+
  have "exec_all displayRe e = map table.found (shapes (tiers cfg))"
    using table.exec_parts [OF ok(1) rest ok(2)] unfolding displayRe_def e by blast
  moreover have "map (\<lambda>p. \<lparr>pr_label = group 2 (table.found p), pr_conditions = parseTierConditions (group 1 (table.found p)),
      pr_prices = parseTierBody (group 3 (table.found p))\<rparr>) (shapes (tiers cfg)) = map shownTier (tiers (canonicalConfig cfg))"
    unfolding canonicalConfig_def VisualConfig.select_convs map_map o_def
    by (rule map_cong [OF refl], rule table_tier) (use ok(1) in \<open>simp add: list_all_iff\<close>)
  ultimately show ?thesis
    unfolding parseTiersFromExpr_def e_def [symmetric] body using filled by (simp only: if_False map_map o_def)
qed

end
