(* ===== verification/Tier_Editor.thy ===== *)
theory Tier_Editor
  imports Tier_Roundtrip Billing_Roundtrip
begin

text \<open>
  The editor of tiered prices, \<open>features/system-settings/models/tiered-pricing-editor.tsx\<close>: number inputs, tier cards, the list of tiers, rule cards, and the editor itself,
  which keeps a visual configuration beside the text and copies one into the other in effects.
\<close>

section \<open>Number inputs\<close>

text \<open>A value of type \<open>number | string\<close>.\<close>

datatype DraftValue = DraftNum jsnum | DraftText jstr

definition unitCostToPrice :: "DraftValue \<Rightarrow> jsnum" where
  "unitCostToPrice uc = num_or_zero (case uc of DraftNum x \<Rightarrow> x | DraftText s \<Rightarrow> to_number s)"

definition priceToUnitCost :: "DraftValue \<Rightarrow> jsnum" where
  "priceToUnitCost price = num_or_zero (case price of DraftNum x \<Rightarrow> x | DraftText s \<Rightarrow> to_number s)"

definition formatNumberDraft :: "DraftValue \<Rightarrow> jstr" where
  "formatNumberDraft value = (case value of DraftNum x \<Rightarrow> if is_finite x then num_str x else lit ''0'' | DraftText s \<Rightarrow> s)"

definition parseNumberDraft :: "jstr \<Rightarrow> jsnum" where
  "parseNumberDraft value = (if trim value = [] then Fin 0 else let n = to_number value in if is_finite n then n else Fin 0)"

definition isZeroDraft :: "jstr \<Rightarrow> bool" where
  "isZeroDraft value = (trim value \<noteq> [] \<and> parseNumberDraft value = Fin 0)"

record DraftInput =
  di_draft :: jstr
  di_focused :: bool

definition mountDraft :: "DraftValue \<Rightarrow> DraftInput" where
  "mountDraft value = \<lparr>di_draft = formatNumberDraft value, di_focused = False\<rparr>"

text \<open>The effect that shows the value again once the input has lost the focus.\<close>

definition draftEffect :: "DraftValue \<Rightarrow> DraftInput \<Rightarrow> DraftInput" where
  "draftEffect value d = (if di_focused d then d else d\<lparr>di_draft := formatNumberDraft value\<rparr>)"

text \<open>Handlers give the number passed to \<open>onValueChange\<close> and the new state; for the focus, whether the text is selected.\<close>

definition draftChange :: "jstr \<Rightarrow> DraftInput \<Rightarrow> jsnum \<times> DraftInput" where
  "draftChange text d = (parseNumberDraft text, d\<lparr>di_draft := text\<rparr>)"

definition draftFocus :: "bool \<Rightarrow> DraftInput \<Rightarrow> bool \<times> DraftInput" where
  "draftFocus selectZeroOnFocus d = (selectZeroOnFocus \<and> isZeroDraft (di_draft d), d\<lparr>di_focused := True\<rparr>)"

definition draftMouseUp :: "bool \<Rightarrow> DraftInput \<Rightarrow> bool" where
  "draftMouseUp selectZeroOnFocus d = (selectZeroOnFocus \<and> isZeroDraft (di_draft d))"

definition draftBlur :: "DraftInput \<Rightarrow> jsnum \<times> DraftInput" where
  "draftBlur d = (let n = parseNumberDraft (di_draft d) in (n, d\<lparr>di_focused := False, di_draft := num_str n\<rparr>))"

section \<open>Tier cards\<close>

text \<open>Conditions, tiers and groups are addressed by the index of the row that was rendered for them.\<close>

definition without :: "nat \<Rightarrow> 'a list \<Rightarrow> 'a list" where
  "without i xs = take i xs @ drop (Suc i) xs"

definition handleConditionChange :: "nat \<Rightarrow> TierConditionInput \<Rightarrow> VisualTier \<Rightarrow> VisualTier" where
  "handleConditionChange i next tier = tier\<lparr>vt_conditions := (vt_conditions tier)[i := next]\<rparr>"

definition handleConditionRemove :: "nat \<Rightarrow> VisualTier \<Rightarrow> VisualTier" where
  "handleConditionRemove i tier = tier\<lparr>vt_conditions := without i (vt_conditions tier)\<rparr>"

definition handlePriceChange :: "VarKey \<Rightarrow> jsnum \<Rightarrow> VisualTier \<Rightarrow> VisualTier" where
  "handlePriceChange v value tier = tier\<lparr>vt_costs := (vt_costs tier)(v := value)\<rparr>"

definition handleLabelChange :: "jstr \<Rightarrow> VisualTier \<Rightarrow> VisualTier" where
  "handleLabelChange label tier = tier\<lparr>vt_label := label\<rparr>"

definition handleCacheModeChange :: "CacheMode \<Rightarrow> VisualTier \<Rightarrow> VisualTier" where
  "handleCacheModeChange mode tier =
     tier\<lparr>vt_cache_mode := mode, vt_costs := (vt_costs tier)(VarCc1h := if mode = Timed then vt_costs tier VarCc1h else Fin 0)\<rparr>"

definition CACHE_PRICE_VARS :: "VarKey list" where
  "CACHE_PRICE_VARS = map bv_key (filter (\<lambda>v. \<not> isBase v \<and> \<not> isConditionOnly v \<and> bv_group v = CacheGroup) BILLING_VARS)"

definition MEDIA_PRICE_VARS :: "VarKey list" where
  "MEDIA_PRICE_VARS = map bv_key (filter (\<lambda>v. \<not> isBase v \<and> \<not> isConditionOnly v \<and> bv_group v = MediaGroup) BILLING_VARS)"

definition hasMediaPricing :: "VisualTier \<Rightarrow> bool" where
  "hasMediaPricing tier = list_ex (\<lambda>v. js_lt (Fin 0) (unitCostToPrice (DraftNum (vt_costs tier v)))) MEDIA_PRICE_VARS"

text \<open>The price fields a card shows for the cache: the one-hour price only in the timed mode.\<close>

definition shownCacheVars :: "VisualTier \<Rightarrow> VarKey list" where
  "shownCacheVars tier = filter (\<lambda>v. \<not> (v = VarCc1h \<and> getTierCacheMode (fullTier tier) \<noteq> Timed)) CACHE_PRICE_VARS"

section \<open>The list of tiers\<close>

definition defaultCondition :: "VarKey \<Rightarrow> TierConditionInput" where
  "defaultCondition v = \<lparr>tc_var = v, tc_op = OpLt, tc_value = JNum (Fin 200000)\<rparr>"

definition handleTierChange :: "nat \<Rightarrow> VisualTier \<Rightarrow> VisualConfig \<Rightarrow> VisualConfig" where
  "handleTierChange i next config = config\<lparr>tiers := (tiers config)[i := normalizeVisualTier (fullTier next)]\<rparr>"

definition handleAddTier :: "VisualConfig \<Rightarrow> VisualConfig" where
  "handleAddTier config =
     (let ts = tiers config;
          ts' = (if ts \<noteq> [] \<and> vt_conditions (last ts) = []
                 then butlast ts @ [normalizeVisualTier (fullTier ((last ts)\<lparr>vt_conditions := [defaultCondition VarLen]\<rparr>))] else ts)
      in config\<lparr>tiers := ts' @ [normalizeVisualTier
           \<lparr>pt_label = Some (lit ''tier_'' @ num_str (Fin (of_nat (length ts' + 1)))), pt_conditions = Some [],
            pt_costs = (\<lambda>v. if v \<in> {VarP, VarC} then Some (Fin 0) else None), pt_cache_mode = None\<rparr>]\<rparr>)"

definition handleRemoveTier :: "nat \<Rightarrow> VisualConfig \<Rightarrow> VisualConfig" where
  "handleRemoveTier i config =
     (let ts = without i (tiers config) in config\<lparr>tiers := if length ts > 0 then ts else tiers config\<rparr>)"

definition handleAddCondition :: "nat \<Rightarrow> VisualConfig \<Rightarrow> VisualConfig" where
  "handleAddCondition i config =
     (let tier = tiers config ! i in
      if 2 \<le> length (vt_conditions tier) then config
      else let nextVar = (if VarLen \<in> tc_var ` set (vt_conditions tier) then VarC else VarLen)
           in config\<lparr>tiers := (tiers config)[i := tier\<lparr>vt_conditions := vt_conditions tier @ [defaultCondition nextVar]\<rparr>]\<rparr>)"

section \<open>Rule cards\<close>

datatype RuleSourceChoice = ChooseTime | ChooseParamHeader ParamSource

definition handleSourceChange :: "RuleSourceChoice \<Rightarrow> RequestCondition" where
  "handleSourceChange source =
     (case source of
        ChooseTime \<Rightarrow> createEmptyTimeCondition
      | ChooseParamHeader src \<Rightarrow> phCond src [] MATCH_EQ [])"

definition handleRuleModeChange :: "jstr \<Rightarrow> RequestCondition \<Rightarrow> RequestCondition" where
  "handleRuleModeChange mode c = (case c of Time t \<Rightarrow> Time (t\<lparr>t_mode := mode\<rparr>) | ParamHeader p \<Rightarrow> ParamHeader (p\<lparr>ph_mode := mode\<rparr>))"

definition handleRuleConditionChange :: "nat \<Rightarrow> RequestCondition \<Rightarrow> RequestRuleGroup \<Rightarrow> RequestRuleGroup" where
  "handleRuleConditionChange i next g = g\<lparr>conditions := (conditions g)[i := next]\<rparr>"

definition handleAddRuleCondition :: "bool \<Rightarrow> RequestRuleGroup \<Rightarrow> RequestRuleGroup" where
  "handleAddRuleCondition timeMode g = g\<lparr>conditions := conditions g @ [if timeMode then createEmptyTimeCondition else createEmptyCondition]\<rparr>"

definition handleMultiplierChange :: "jsnum \<Rightarrow> RequestRuleGroup \<Rightarrow> RequestRuleGroup" where
  "handleMultiplierChange value g = g\<lparr>multiplier := num_str value\<rparr>"

section \<open>The editor\<close>

datatype EditorMode = VisualMode | RawMode

text \<open>
  The properties the panel passes, which hold its own states \<open>billingExpr\<close> and \<open>requestRuleExpr\<close> that the callbacks set, the states of the editor, and the reference
  \<open>initRef\<close>.
\<close>

record TierEditor =
  te_model :: jstr
  te_expr :: jstr
  te_rules :: jstr
  te_mode :: EditorMode
  te_visual :: "VisualConfig option"
  te_raw :: jstr
  te_groups :: "RequestRuleGroup list"
  te_init :: bool

text \<open>\<open>tryParseRequestRuleExpr(\<dots>) || []\<close>; \<open>None\<close> when it throws, here and below.\<close>

definition readGroups :: "jstr \<Rightarrow> RequestRuleGroup list option" where
  "readGroups rules = map_option (\<lambda>g. opt_or g []) (tryParseRequestRuleExpr rules)"

definition mountEditor :: "jstr \<Rightarrow> jstr \<Rightarrow> jstr \<Rightarrow> TierEditor option" where
  "mountEditor model expr rules = map_option (\<lambda>gs.
     \<lparr>te_model = model, te_expr = expr, te_rules = rules, te_mode = VisualMode, te_visual = tryParseVisualConfig expr,
      te_raw = combineBillingExpr expr rules, te_groups = gs, te_init = False\<rparr>) (readGroups rules)"

definition effectiveExpr :: "TierEditor \<Rightarrow> jstr option" where
  "effectiveExpr s =
     (if te_mode s = VisualMode then Some (generateExprFromVisualConfig (te_visual s))
      else map_option billingExpr (splitBillingExprAndRequestRules (te_raw s)))"

definition canUseVisualRules :: "TierEditor \<Rightarrow> bool option" where
  "canUseVisualRules s = (if te_rules s = [] then Some True else map_option (\<lambda>g. g \<noteq> None) (tryParseRequestRuleExpr (te_rules s)))"

text \<open>The four effects: \<open>cur\<close> is the state that was rendered, \<open>s\<close> the one being updated, which has the reference as it is.\<close>

definition initEffect :: "TierEditor \<Rightarrow> TierEditor \<Rightarrow> TierEditor option" where
  "initEffect cur s =
     (if te_init s then Some s
      else map_option (\<lambda>gs. let parsedConfig = tryParseVisualConfig (te_expr cur) in
        s\<lparr>te_init := True,
          te_visual := (if parsedConfig \<noteq> None then parsedConfig else if te_expr cur \<noteq> [] then None else Some createDefaultVisualConfig),
          te_mode := (if parsedConfig \<noteq> None then VisualMode else if te_expr cur \<noteq> [] then RawMode else te_mode s),
          te_raw := combineBillingExpr (te_expr cur) (te_rules cur),
          te_groups := gs\<rparr>) (readGroups (te_rules cur)))"

definition modelEffect :: "TierEditor \<Rightarrow> TierEditor" where
  "modelEffect s = s\<lparr>te_init := False\<rparr>"

definition exprEffect :: "TierEditor \<Rightarrow> TierEditor \<Rightarrow> TierEditor option" where
  "exprEffect cur s = map_option (\<lambda>e. if e \<noteq> te_expr cur then s\<lparr>te_expr := e\<rparr> else s) (effectiveExpr cur)"

definition rulesEffect :: "TierEditor \<Rightarrow> TierEditor \<Rightarrow> TierEditor" where
  "rulesEffect cur s =
     (if te_mode cur \<noteq> VisualMode then s
      else let ruleExpr = buildRequestRuleExpr (te_groups cur) in if ruleExpr \<noteq> te_rules cur then s\<lparr>te_rules := ruleExpr\<rparr> else s)"

text \<open>An effect runs after the first rendering and after one in which its dependencies changed.\<close>

definition depsChanged :: "(TierEditor \<Rightarrow> 'a) \<Rightarrow> TierEditor option \<Rightarrow> TierEditor \<Rightarrow> bool" where
  "depsChanged deps prev cur = (case prev of None \<Rightarrow> True | Some p \<Rightarrow> deps p \<noteq> deps cur)"

definition runEffects :: "TierEditor option \<Rightarrow> TierEditor \<Rightarrow> TierEditor option" where
  "runEffects prev cur = do {
     s1 \<leftarrow> if depsChanged (\<lambda>s. (te_expr s, te_rules s)) prev cur then initEffect cur cur else Some cur;
     let s2 = (if depsChanged te_model prev cur then modelEffect s1 else s1);
     s3 \<leftarrow> if depsChanged (\<lambda>s. (effectiveExpr s, te_expr s)) prev cur then exprEffect cur s2 else Some s2;
     Some (if depsChanged (\<lambda>s. (te_mode s, te_groups s, te_rules s)) prev cur then rulesEffect cur s3 else s3)
   }"

text \<open>
  Renderings and effects until nothing changes, at most \<open>n\<close> of them; the reference alone causes no rendering.  Setting an equal but new object renders once more, with effects
  that find nothing to do.
\<close>

fun settleTiers :: "nat \<Rightarrow> TierEditor option \<Rightarrow> TierEditor \<Rightarrow> TierEditor option" where
  "settleTiers 0 prev cur = None"
| "settleTiers (Suc n) prev cur = do {
     next \<leftarrow> runEffects prev cur;
     if next\<lparr>te_init := te_init cur\<rparr> = cur then Some next else settleTiers n (Some cur) next
   }"

record TierPreset =
  tp_key :: jstr
  tp_label :: jstr
  tp_expr :: jstr
  tp_requestRules :: "RequestRuleGroup list"

definition tierPreset :: "string \<Rightarrow> string \<Rightarrow> jstr \<Rightarrow> RequestRuleGroup list \<Rightarrow> TierPreset" where
  "tierPreset key label expr rules = \<lparr>tp_key = lit key, tp_label = lit label, tp_expr = expr, tp_requestRules = rules\<rparr>"

definition PRESET_GROUPS :: "(jstr \<times> TierPreset list) list" where
  "PRESET_GROUPS =
     [(lit ''Fixed price'',
        [tierPreset ''flat'' ''Flat''
          (lit ''tier('' @ [34] @ lit ''base'' @ [34] @ lit '', p * 2 + c * 4)'')
          [],
         tierPreset ''claude-opus'' ''Claude Opus 4.6''
          (lit ''tier('' @ [34] @ lit ''base'' @ [34] @ lit '', p * 5 + c * 25 + cr * 0.5 + cc * 6.25 + cc1h * 10)'')
          [],
         tierPreset ''gpt-5.4'' ''GPT-5.4''
          (lit ''len <= 272000 ? tier('' @ [34] @ lit ''standard'' @ [34] @ lit '', p * 2.5 + c * 15 + cr * 0.25) : tier('' @ [34] @ lit ''long_context'' @ [34] @ lit '', p * 5 + c * 22.5 + cr * 0.5)'')
          []]),
      (lit ''Tiered'',
        [tierPreset ''claude-sonnet'' ''Claude Sonnet 4.5''
          (lit ''len <= 200000 ? tier('' @ [34] @ lit ''standard'' @ [34] @ lit '', p * 3 + c * 15 + cr * 0.3 + cc * 3.75 + cc1h * 6) : tier('' @ [34] @ lit ''long_context'' @ [34] @ lit '', p * 6 + c * 22.5 + cr * 0.6 + cc * 7.5 + cc1h * 12)'')
          [],
         tierPreset ''qwen3-max'' ''Qwen3 Max''
          (lit ''len <= 32000 ? tier('' @ [34] @ lit ''short'' @ [34] @ lit '', p * 1.2 + c * 6 + cr * 0.24 + cc * 1.5) : len <= 128000 ? tier('' @ [34] @ lit ''mid'' @ [34] @ lit '', p * 2.4 + c * 12 + cr * 0.48 + cc * 3) : tier('' @ [34] @ lit ''long'' @ [34] @ lit '', p * 3 + c * 15 + cr * 0.6 + cc * 3.75)'')
          [],
         tierPreset ''glm-4.5-air'' ''GLM-4.5 Air''
          (lit ''len < 32000 && c < 200 ? tier('' @ [34] @ lit ''short_output'' @ [34] @ lit '', p * 0.8 + c * 2 + cr * 0.16) : len < 32000 && c >= 200 ? tier('' @ [34] @ lit ''long_output'' @ [34] @ lit '', p * 0.8 + c * 6 + cr * 0.16) : tier('' @ [34] @ lit ''mid_context'' @ [34] @ lit '', p * 1.2 + c * 8 + cr * 0.24)'')
          [],
         tierPreset ''doubao-seed-1.8'' ''Doubao Seed 1.8''
          (lit ''len <= 32000 && c <= 200 ? tier('' @ [34] @ lit ''discount'' @ [34] @ lit '', p * 0.8 + c * 2 + cr * 0.16 + cc * 0.17) : len <= 32000 ? tier('' @ [34] @ lit ''short'' @ [34] @ lit '', p * 0.8 + c * 8 + cr * 0.16 + cc * 0.17) : len <= 128000 ? tier('' @ [34] @ lit ''mid'' @ [34] @ lit '', p * 1.2 + c * 16 + cr * 0.16 + cc * 0.17) : tier('' @ [34] @ lit ''long'' @ [34] @ lit '', p * 2.4 + c * 24 + cr * 0.16 + cc * 0.17)'')
          []]),
      (lit ''Multimodal'',
        [tierPreset ''gpt-image-1-mini'' ''GPT Image 1 Mini''
          (lit ''tier('' @ [34] @ lit ''base'' @ [34] @ lit '', p * 2 + c * 8 + img * 2.5)'')
          [],
         tierPreset ''gemini-2.5-flash'' ''Gemini 2.5 Flash''
          (lit ''tier('' @ [34] @ lit ''base'' @ [34] @ lit '', p * 0.3 + c * 2.5 + cr * 0.03 + ai * 1.0)'')
          [],
         tierPreset ''gemini-3-pro-image'' ''Gemini 3 Pro Image''
          (lit ''tier('' @ [34] @ lit ''base'' @ [34] @ lit '', p * 2 + c * 12 + img_o * 120)'')
          [],
         tierPreset ''qwen3-omni-flash'' ''Qwen3 Omni Flash''
          (lit ''tier('' @ [34] @ lit ''base'' @ [34] @ lit '', p * 0.43 + c * 3.06 + img * 0.78 + ai * 3.81 + ao * 15.11)'')
          []]),
      (lit ''Request rule'',
        [tierPreset ''claude-opus-fast'' ''Claude Opus 4.6 Fast''
          (lit ''tier('' @ [34] @ lit ''base'' @ [34] @ lit '', p * 5 + c * 25 + cr * 0.5 + cc * 6.25 + cc1h * 10)'')
          [\<lparr>conditions = [phCond SourceHeader (lit ''anthropic-beta'') MATCH_CONTAINS (lit ''fast-mode-2026-02-01'')], multiplier = lit ''6''\<rparr>],
         tierPreset ''gpt-5.4-tiers'' ''GPT-5.4 Priority/Flex''
          (lit ''len <= 272000 ? tier('' @ [34] @ lit ''standard'' @ [34] @ lit '', p * 2.5 + c * 15 + cr * 0.25) : tier('' @ [34] @ lit ''long_context'' @ [34] @ lit '', p * 5 + c * 22.5 + cr * 0.5)'')
          [\<lparr>conditions = [phCond SourceParam (lit ''service_tier'') MATCH_EQ (lit ''priority'')], multiplier = lit ''2''\<rparr>,
           \<lparr>conditions = [phCond SourceParam (lit ''service_tier'') MATCH_EQ (lit ''flex'')], multiplier = lit ''0.5''\<rparr>]]),
      (lit ''Time-based'',
        [tierPreset ''night-discount'' ''Night discount (50%)''
          (lit ''tier('' @ [34] @ lit ''base'' @ [34] @ lit '', p * 3 + c * 15)'')
          [\<lparr>conditions = [Time \<lparr>timeFunc = lit ''hour'', timezone = lit ''Asia/Shanghai'', t_mode = MATCH_RANGE, t_value = [], rangeStart = lit ''21'', rangeEnd = lit ''6''\<rparr>], multiplier = lit ''0.5''\<rparr>],
         tierPreset ''weekend-discount'' ''Weekend discount (80%)''
          (lit ''tier('' @ [34] @ lit ''base'' @ [34] @ lit '', p * 3 + c * 15)'')
          [\<lparr>conditions = [Time \<lparr>timeFunc = lit ''weekday'', timezone = lit ''Asia/Shanghai'', t_mode = MATCH_EQ, t_value = lit ''0'', rangeStart = [], rangeEnd = []\<rparr>], multiplier = lit ''0.8''\<rparr>,
           \<lparr>conditions = [Time \<lparr>timeFunc = lit ''weekday'', timezone = lit ''Asia/Shanghai'', t_mode = MATCH_EQ, t_value = lit ''6'', rangeStart = [], rangeEnd = []\<rparr>], multiplier = lit ''0.8''\<rparr>]])]"

definition handleVisualChange :: "VisualConfig \<Rightarrow> TierEditor \<Rightarrow> TierEditor" where
  "handleVisualChange next s = s\<lparr>te_visual := Some next\<rparr>"

definition handleRawChange :: "jstr \<Rightarrow> TierEditor \<Rightarrow> TierEditor option" where
  "handleRawChange value s = map_option (\<lambda>parts. s\<lparr>te_raw := value, te_rules := requestRuleExpr parts\<rparr>) (splitBillingExprAndRequestRules value)"

definition handleEditorModeChange :: "EditorMode \<Rightarrow> TierEditor \<Rightarrow> TierEditor option" where
  "handleEditorModeChange next s =
     (if next = VisualMode
      then do {
        parts \<leftarrow> splitBillingExprAndRequestRules (te_raw s);
        gs \<leftarrow> readGroups (requestRuleExpr parts);
        let parsed = tryParseVisualConfig (billingExpr parts);
        Some (s\<lparr>te_visual := (if parsed \<noteq> None then parsed else Some createDefaultVisualConfig),
                te_groups := gs, te_rules := requestRuleExpr parts, te_mode := VisualMode\<rparr>)
      }
      else let expr = generateExprFromVisualConfig (te_visual s); combined = combineBillingExpr expr (buildRequestRuleExpr (te_groups s))
           in Some (s\<lparr>te_raw := (if combined \<noteq> [] then combined else expr), te_mode := next\<rparr>))"

definition applyPreset :: "TierPreset \<Rightarrow> TierEditor \<Rightarrow> TierEditor" where
  "applyPreset preset s =
     (let ruleExpr = buildRequestRuleExpr (tp_requestRules preset);
          combined = combineBillingExpr (tp_expr preset) ruleExpr;
          parsed = tryParseVisualConfig (tp_expr preset)
      in s\<lparr>te_raw := (if combined \<noteq> [] then combined else tp_expr preset), te_visual := parsed,
           te_mode := (if parsed \<noteq> None then VisualMode else RawMode), te_groups := tp_requestRules preset, te_rules := ruleExpr\<rparr>)"

definition handleRuleGroupsChange :: "RequestRuleGroup list \<Rightarrow> TierEditor \<Rightarrow> TierEditor" where
  "handleRuleGroupsChange next s = s\<lparr>te_groups := next\<rparr>"

text \<open>Another model is selected: the panel sets its states from it.\<close>

definition selectModel :: "jstr \<Rightarrow> jstr \<Rightarrow> jstr \<Rightarrow> TierEditor \<Rightarrow> TierEditor" where
  "selectModel model expr rules s = s\<lparr>te_model := model, te_expr := expr, te_rules := rules\<rparr>"

datatype TierEvent =
    VisualChange VisualConfig | RawChange jstr | ModeChange EditorMode | ApplyPreset TierPreset | RuleGroupsChange "RequestRuleGroup list"
  | SelectModel jstr jstr jstr

fun tierStep :: "TierEvent \<Rightarrow> TierEditor \<Rightarrow> TierEditor option" where
  "tierStep (VisualChange next) s = Some (handleVisualChange next s)"
| "tierStep (RawChange value) s = handleRawChange value s"
| "tierStep (ModeChange next) s = handleEditorModeChange next s"
| "tierStep (ApplyPreset preset) s = Some (applyPreset preset s)"
| "tierStep (RuleGroupsChange next) s = Some (handleRuleGroupsChange next s)"
| "tierStep (SelectModel model expr rules) s = Some (selectModel model expr rules s)"

text \<open>Opening the editor, and an event with the renderings that follow it.\<close>

definition openTierEditor :: "nat \<Rightarrow> jstr \<Rightarrow> jstr \<Rightarrow> jstr \<Rightarrow> TierEditor option" where
  "openTierEditor n model expr rules = do { s \<leftarrow> mountEditor model expr rules; settleTiers n None s }"

definition respond :: "nat \<Rightarrow> TierEvent \<Rightarrow> TierEditor \<Rightarrow> TierEditor option" where
  "respond n ev s = do { cur \<leftarrow> tierStep ev s; settleTiers n (Some s) cur }"

end
