(* ===== verification/Tier_Editor_Laws.thy ===== *)
theory Tier_Editor_Laws
  imports Tier_Editor
begin

text \<open>
  What the editor of tiered prices keeps: with expressions the visual editor writes, opening a model changes nothing and edits reach the text; other expressions are lost when they
  are opened, and selecting another model gives it the prices of the one that was open.
\<close>

section \<open>Expressions that are read back\<close>

abbreviation exprOf :: "VisualConfig \<Rightarrow> jstr" where
  "exprOf cfg \<equiv> generateExprFromVisualConfig (Some cfg)"

abbreviation readableRules :: "RequestRuleGroup list \<Rightarrow> bool" where
  "readableRules gs \<equiv> \<forall>g\<in>set gs. readableGroup g"

lemma read_groups: "readableRules gs \<Longrightarrow> readGroups (buildRequestRuleExpr gs) = Some gs"
  by (simp add: readGroups_def rules_read)

lemma rules_eq: "readableRules gs \<Longrightarrow> readableRules gs' \<Longrightarrow> buildRequestRuleExpr gs = buildRequestRuleExpr gs' \<longleftrightarrow> gs = gs'"
  by (metis option.inject rules_read)

lemma canonical_readable:
  assumes "readableConfig cfg"
  shows "readableConfig (canonicalConfig cfg)"
proof -
  have "list_all shapeOk (shapes (tiers cfg))" using shapes_ok [OF assms] by blast
  then have "list_all (\<lambda>t. 34 \<notin> set (vt_label t) \<and> readableCosts t \<and> readableConditions (vt_conditions t)) (tiers (canonicalConfig cfg))"
    by (auto simp: canonicalConfig_def canonicalTier_def list_all_iff shapeOk_def readableCosts_def readableConditions_def costOf_def extra_vars)
  moreover have "length (tiers (canonicalConfig cfg)) = length (tiers cfg)" by (simp add: canonicalConfig_def shapes_def)
  moreover have "filter usableCondition (vt_conditions (tiers (canonicalConfig cfg) ! i)) \<noteq> []" if "Suc i < length (tiers cfg)" for i
  proof -
    have "tiers cfg ! i \<in> set (butlast (tiers cfg))" using that by (metis Suc_lessD less_diff_conv Suc_eq_plus1 length_butlast nth_butlast nth_mem)
    then have "filter usableCondition (vt_conditions (tiers cfg ! i)) \<noteq> []" using assms by (auto simp: readableConfig_def list_all_iff)
    then show ?thesis using that by (simp add: canonicalConfig_def shapes_def nth_enumerate_eq canonicalTier_def condsAt_def)
  qed
  ultimately show ?thesis
    using assms by (auto simp: readableConfig_def list_all_length nth_butlast)
qed

section \<open>Effects in the visual mode\<close>

definition visualState :: "jstr \<Rightarrow> jstr \<Rightarrow> jstr \<Rightarrow> VisualConfig \<Rightarrow> jstr \<Rightarrow> RequestRuleGroup list \<Rightarrow> bool \<Rightarrow> TierEditor" where
  "visualState m e r cfg raw gs i = \<lparr>te_model = m, te_expr = e, te_rules = r, te_mode = VisualMode, te_visual = Some cfg, te_raw = raw, te_groups = gs, te_init = i\<rparr>"

lemma visual_parts [simp]:
  "te_model (visualState m e r cfg raw gs i) = m" "te_expr (visualState m e r cfg raw gs i) = e" "te_rules (visualState m e r cfg raw gs i) = r"
  "te_mode (visualState m e r cfg raw gs i) = VisualMode" "te_visual (visualState m e r cfg raw gs i) = Some cfg" "te_groups (visualState m e r cfg raw gs i) = gs"
  "te_init (visualState m e r cfg raw gs i) = i" "effectiveExpr (visualState m e r cfg raw gs i) = Some (exprOf cfg)"
  by (simp_all add: visualState_def effectiveExpr_def)

lemma visual_same:
  "(visualState m e r cfg raw gs i)\<lparr>te_init := i'\<rparr> = visualState m e r cfg raw gs i'"
  "visualState m e r cfg raw gs i = visualState m' e' r' cfg' raw' gs' i' \<longleftrightarrow> m = m' \<and> e = e' \<and> r = r' \<and> cfg = cfg' \<and> raw = raw' \<and> gs = gs' \<and> i = i'"
  by (auto simp: visualState_def)

text \<open>One round of effects, where the expression and the rules of the panel are those written from \<open>cfg'\<close> and \<open>gs'\<close>.\<close>

lemma visual_effects:
  assumes "readableConfig cfg'" "readableRules gs'"
  shows "runEffects prev (visualState m (exprOf cfg') (buildRequestRuleExpr gs') cfg raw gs i) =
    (let cur = visualState m (exprOf cfg') (buildRequestRuleExpr gs') cfg raw gs i;
         fresh = depsChanged (\<lambda>s. (te_expr s, te_rules s)) prev cur; again = (fresh \<and> \<not> i)
     in Some (visualState m (if depsChanged (\<lambda>s. (effectiveExpr s, te_expr s)) prev cur then exprOf cfg else exprOf cfg')
       (if depsChanged (\<lambda>s. (te_mode s, te_groups s, te_rules s)) prev cur then buildRequestRuleExpr gs else buildRequestRuleExpr gs')
       (if again then canonicalConfig cfg' else cfg) (if again then combineBillingExpr (exprOf cfg') (buildRequestRuleExpr gs') else raw)
       (if again then gs' else gs) (if depsChanged te_model prev cur then False else i \<or> fresh)))"
proof -
  define cur where "cur = visualState m (exprOf cfg') (buildRequestRuleExpr gs') cfg raw gs i"
  have "initEffect cur cur = Some (visualState m (exprOf cfg') (buildRequestRuleExpr gs') (if i then cfg else canonicalConfig cfg')
      (if i then raw else combineBillingExpr (exprOf cfg') (buildRequestRuleExpr gs')) (if i then gs else gs') True)"
    using roundtrip [OF assms(1)] read_groups [OF assms(2)] by (simp add: initEffect_def cur_def visualState_def Let_def)
  then show ?thesis
    unfolding cur_def [symmetric] Let_def runEffects_def exprEffect_def rulesEffect_def modelEffect_def
    by (simp add: cur_def visualState_def effectiveExpr_def)
qed

lemmas visual_settle = visual_effects depsChanged_def visual_same Let_def ex_bool_eq

lemma canonical_expr: "readableConfig cfg \<Longrightarrow> exprOf (canonicalConfig cfg) = exprOf cfg"
  by (rule generate_canonical)

lemma open_written:
  assumes "readableConfig cfg" "readableRules gs"
  shows "openTierEditor 1 m (exprOf cfg) (buildRequestRuleExpr gs) =
    Some (visualState m (exprOf cfg) (buildRequestRuleExpr gs) (canonicalConfig cfg) (combineBillingExpr (exprOf cfg) (buildRequestRuleExpr gs)) gs False)"
proof -
  have "mountEditor m (exprOf cfg) (buildRequestRuleExpr gs) =
      Some (visualState m (exprOf cfg) (buildRequestRuleExpr gs) (canonicalConfig cfg) (combineBillingExpr (exprOf cfg) (buildRequestRuleExpr gs)) gs False)"
    using roundtrip [OF assms(1)] read_groups [OF assms(2)] by (simp add: mountEditor_def visualState_def)
  then show ?thesis using assms by (simp add: openTierEditor_def visual_settle canonical_expr)
qed

text \<open>An edit of the tiers; the first one after the model was opened is read back from the text it was written to.\<close>

lemma visual_edit:
  assumes "readableConfig cfg" "readableRules gs" "readableConfig cfg'"
  shows "\<exists>raw' v i'. respond 3 (VisualChange cfg') (visualState m (exprOf cfg) (buildRequestRuleExpr gs) cfg raw gs i) =
      Some (visualState m (exprOf cfg') (buildRequestRuleExpr gs) v raw' gs i') \<and> v \<in> {cfg', canonicalConfig cfg'}"
proof -
  have "tierStep (VisualChange cfg') (visualState m (exprOf cfg) (buildRequestRuleExpr gs) cfg raw gs i) =
      Some (visualState m (exprOf cfg) (buildRequestRuleExpr gs) cfg' raw gs i)" by (simp add: handleVisualChange_def visualState_def)
  then show ?thesis
    using assms by (cases i; cases "exprOf cfg = exprOf cfg'") (simp_all add: respond_def visual_settle numeral_3_eq_3 canonical_expr)
qed

lemma rules_edit:
  assumes "readableConfig cfg" "readableRules gs" "readableRules gs'"
  shows "\<exists>raw' v i'. respond 3 (RuleGroupsChange gs') (visualState m (exprOf cfg) (buildRequestRuleExpr gs) cfg raw gs i) =
      Some (visualState m (exprOf cfg) (buildRequestRuleExpr gs') v raw' gs' i') \<and> v \<in> {cfg, canonicalConfig cfg}"
proof -
  have "tierStep (RuleGroupsChange gs') (visualState m (exprOf cfg) (buildRequestRuleExpr gs) cfg raw gs i) =
      Some (visualState m (exprOf cfg) (buildRequestRuleExpr gs) cfg raw gs' i)" by (simp add: handleRuleGroupsChange_def visualState_def)
  then show ?thesis
    using assms by (cases i; cases "gs = gs'") (simp_all add: respond_def visual_settle numeral_3_eq_3 canonical_expr rules_eq)
qed

text \<open>Another model.\<close>

lemma select_written:
  assumes "readableConfig cfg" "readableRules gs" "readableConfig cfg'" "readableRules gs'" "m \<noteq> m'"
  shows "\<exists>s. respond 5 (SelectModel m' (exprOf cfg') (buildRequestRuleExpr gs')) (visualState m (exprOf cfg) (buildRequestRuleExpr gs) cfg raw gs i) = Some s \<and>
      te_model s = m' \<and> te_expr s = exprOf cfg \<and> te_rules s = buildRequestRuleExpr gs"
proof -
  have "tierStep (SelectModel m' (exprOf cfg') (buildRequestRuleExpr gs')) (visualState m (exprOf cfg) (buildRequestRuleExpr gs) cfg raw gs i) =
      Some (visualState m' (exprOf cfg') (buildRequestRuleExpr gs') cfg raw gs i)" by (simp add: selectModel_def visualState_def)
  then show ?thesis
    using assms by (cases i; cases "exprOf cfg = exprOf cfg'"; cases "gs = gs'")
      (simp_all add: respond_def visual_settle canonical_expr rules_eq eval_nat_numeral)
qed

text \<open>A preset: when the model has just been opened and the preset changes the rules, the configuration is read again from the old expression.\<close>

lemma preset_applied:
  assumes "readableConfig cfg" "readableRules gs" "tryParseVisualConfig (tp_expr pr) = Some cfg'" "readableConfig cfg'" "readableRules (tp_requestRules pr)"
  shows "\<exists>s. respond 4 (ApplyPreset pr) (visualState m (exprOf cfg) (buildRequestRuleExpr gs) cfg raw gs i) = Some s \<and>
      te_expr s = (if i \<or> tp_requestRules pr = gs then exprOf cfg' else exprOf cfg) \<and> te_rules s = buildRequestRuleExpr (tp_requestRules pr)"
proof -
  obtain raw' where "tierStep (ApplyPreset pr) (visualState m (exprOf cfg) (buildRequestRuleExpr gs) cfg raw gs i) =
      Some (visualState m (exprOf cfg) (buildRequestRuleExpr (tp_requestRules pr)) cfg' raw' (tp_requestRules pr) i)"
    using assms(3) by (simp add: applyPreset_def visualState_def Let_def)
  then show ?thesis
    using assms by (cases i; cases "exprOf cfg = exprOf cfg'"; cases "gs = tp_requestRules pr")
      (simp_all add: respond_def visual_settle canonical_expr rules_eq eval_nat_numeral)
qed

section \<open>Edits in sequence\<close>

fun readableEdit :: "TierEvent \<Rightarrow> bool" where
  "readableEdit (VisualChange cfg) = readableConfig cfg"
| "readableEdit (RuleGroupsChange gs) = list_all readableGroup gs"
| "readableEdit _ = False"

fun editTiers :: "TierEvent \<Rightarrow> VisualConfig \<Rightarrow> VisualConfig" where
  "editTiers (VisualChange cfg) _ = cfg"
| "editTiers _ cfg = cfg"

fun editRules :: "TierEvent \<Rightarrow> RequestRuleGroup list \<Rightarrow> RequestRuleGroup list" where
  "editRules (RuleGroupsChange gs) _ = gs"
| "editRules _ gs = gs"

fun respondAll :: "nat \<Rightarrow> TierEvent list \<Rightarrow> TierEditor \<Rightarrow> TierEditor option" where
  "respondAll n [] s = Some s"
| "respondAll n (ev # evs) s = do { s' \<leftarrow> respond n ev s; respondAll n evs s' }"

lemma edit_step:
  assumes "readableConfig cfg" "readableRules gs" "readableEdit ev" "v \<in> {cfg, canonicalConfig cfg}"
  shows "\<exists>raw' v' i'. respond 3 ev (visualState m (exprOf cfg) (buildRequestRuleExpr gs) v raw gs i) =
      Some (visualState m (exprOf (editTiers ev cfg)) (buildRequestRuleExpr (editRules ev gs)) v' raw' (editRules ev gs) i') \<and>
      v' \<in> {editTiers ev cfg, canonicalConfig (editTiers ev cfg)}"
proof -
  have v: "readableConfig v" "exprOf v = exprOf cfg" using assms canonical_readable canonical_expr by auto
  have c: "canonicalConfig v = canonicalConfig cfg"
    using roundtrip [OF v(1)] roundtrip [OF assms(1)] v(2) by simp
  show ?thesis
  proof (cases ev)
    case (VisualChange cfg')
    then show ?thesis using visual_edit [OF v(1) assms(2), of cfg' m raw i] assms(3) v(2) by simp
  next
    case (RuleGroupsChange gs')
    then have "readableRules gs'" using assms(3) by (simp add: list_all_iff)
    then show ?thesis using rules_edit [OF v(1) assms(2), of gs' m raw i] v(2) c assms(4) RuleGroupsChange by auto
  qed (use assms(3) in auto)
qed

lemma tier_edit_keeps:
  assumes "readableConfig cfg" "readableRules gs" "readableEdit ev"
  shows "readableConfig (editTiers ev cfg)" "readableRules (editRules ev gs)"
  using assms by (cases ev; simp add: list_all_iff)+

lemma edits_settle:
  assumes "readableConfig cfg" "readableRules gs" "list_all readableEdit evs" "v \<in> {cfg, canonicalConfig cfg}"
  shows "\<exists>raw' v' i'. respondAll 3 evs (visualState m (exprOf cfg) (buildRequestRuleExpr gs) v raw gs i) =
      Some (visualState m (exprOf (fold editTiers evs cfg)) (buildRequestRuleExpr (fold editRules evs gs)) v' raw' (fold editRules evs gs) i') \<and>
      v' \<in> {fold editTiers evs cfg, canonicalConfig (fold editTiers evs cfg)}"
  using assms
proof (induction evs arbitrary: cfg gs v raw i)
  case (Cons ev evs)
  then have ev: "readableEdit ev" "list_all readableEdit evs" by simp_all
  obtain raw' v' i' where s: "respond 3 ev (visualState m (exprOf cfg) (buildRequestRuleExpr gs) v raw gs i) =
      Some (visualState m (exprOf (editTiers ev cfg)) (buildRequestRuleExpr (editRules ev gs)) v' raw' (editRules ev gs) i')"
      "v' \<in> {editTiers ev cfg, canonicalConfig (editTiers ev cfg)}"
    using edit_step [OF Cons.prems(1,2) ev(1) Cons.prems(4)] by blast
  show ?case using Cons.IH [OF tier_edit_keeps [OF Cons.prems(1,2) ev(1)] ev(2) s(2)] s(1) by simp
qed auto

lemma edited_readable: "readableConfig cfg \<Longrightarrow> list_all readableEdit evs \<Longrightarrow> readableConfig (fold editTiers evs cfg)"
proof (induction evs arbitrary: cfg)
  case (Cons ev evs)
  then show ?case using tier_edit_keeps(1) [of cfg "[]" ev] by simp
qed simp

section \<open>Expressions that are not read\<close>

definition rawState :: "jstr \<Rightarrow> jstr \<Rightarrow> jstr \<Rightarrow> jstr \<Rightarrow> RequestRuleGroup list \<Rightarrow> bool \<Rightarrow> TierEditor" where
  "rawState m e r raw gs i = \<lparr>te_model = m, te_expr = e, te_rules = r, te_mode = RawMode, te_visual = None, te_raw = raw, te_groups = gs, te_init = i\<rparr>"

lemma raw_parts [simp]:
  "te_model (rawState m e r raw gs i) = m" "te_expr (rawState m e r raw gs i) = e" "te_rules (rawState m e r raw gs i) = r"
  "te_mode (rawState m e r raw gs i) = RawMode" "te_groups (rawState m e r raw gs i) = gs" "te_init (rawState m e r raw gs i) = i"
  "effectiveExpr (rawState m e r raw gs i) = map_option billingExpr (splitBillingExprAndRequestRules raw)"
  by (simp_all add: rawState_def effectiveExpr_def)

lemma raw_same:
  "(rawState m e r raw gs i)\<lparr>te_init := i'\<rparr> = rawState m e r raw gs i'"
  "rawState m e r raw gs i = rawState m' e' r' raw' gs' i' \<longleftrightarrow> m = m' \<and> e = e' \<and> r = r' \<and> raw = raw' \<and> gs = gs' \<and> i = i'"
  by (auto simp: rawState_def)

lemma raw_effects:
  assumes "tryParseVisualConfig e = None" "e \<noteq> []" "readableRules gs" "splitBillingExprAndRequestRules raw = Some parts"
  shows "runEffects prev (rawState m e (buildRequestRuleExpr gs) raw gs i) =
    (let cur = rawState m e (buildRequestRuleExpr gs) raw gs i; fresh = depsChanged (\<lambda>s. (te_expr s, te_rules s)) prev cur
     in Some (rawState m (if depsChanged (\<lambda>s. (effectiveExpr s, te_expr s)) prev cur then billingExpr parts else e) (buildRequestRuleExpr gs)
       (if fresh \<and> \<not> i then combineBillingExpr e (buildRequestRuleExpr gs) else raw) gs (if depsChanged te_model prev cur then False else i \<or> fresh)))"
proof -
  define cur where "cur = rawState m e (buildRequestRuleExpr gs) raw gs i"
  have "initEffect cur cur = Some (rawState m e (buildRequestRuleExpr gs) (if i then raw else combineBillingExpr e (buildRequestRuleExpr gs)) gs True)"
    using assms(1,2) read_groups [OF assms(3)] by (simp add: initEffect_def cur_def rawState_def Let_def)
  then show ?thesis
    unfolding cur_def [symmetric] Let_def runEffects_def exprEffect_def rulesEffect_def modelEffect_def using assms(4)
    by (simp add: cur_def rawState_def effectiveExpr_def)
qed

lemma zero_unread: "tryParseVisualConfig zeroExpr = None" "zeroExpr \<noteq> []"
  by code_simp+

lemma zero_split:
  assumes "readableRules gs"
  shows "splitBillingExprAndRequestRules (combineBillingExpr zeroExpr (buildRequestRuleExpr gs)) = Some \<lparr>billingExpr = zeroExpr, requestRuleExpr = buildRequestRuleExpr gs\<rparr>"
proof (cases "gs = []")
  case True
  have "splitBillingExprAndRequestRules (combineBillingExpr zeroExpr []) = Some \<lparr>billingExpr = zeroExpr, requestRuleExpr = []\<rparr>" by code_simp
  then show ?thesis using True by (simp add: buildRequestRuleExpr_def)
next
  case False
  have "trim zeroExpr \<noteq> []" "balanced (trim zeroExpr)" "\<not> ends_with (lit '' : 1'') (trim zeroExpr)" by code_simp+
  moreover have "unwrapOuterParens zeroExpr = zeroExpr" by code_simp
  ultimately show ?thesis using split_combined [of zeroExpr gs] False assms by simp
qed

lemma open_unread:
  assumes "tryParseVisualConfig e = None" "e \<noteq> []" "e \<noteq> zeroExpr" "readableRules gs"
    "splitBillingExprAndRequestRules (combineBillingExpr e (buildRequestRuleExpr gs)) = Some parts" "tryParseVisualConfig (billingExpr parts) = None" "billingExpr parts \<noteq> []"
  shows "openTierEditor 4 m e (buildRequestRuleExpr gs) =
    Some (rawState m zeroExpr (buildRequestRuleExpr gs) (combineBillingExpr zeroExpr (buildRequestRuleExpr gs)) gs True)"
proof -
  let ?r = "buildRequestRuleExpr gs"
  define cur where "cur = \<lparr>te_model = m, te_expr = e, te_rules = ?r, te_mode = VisualMode, te_visual = None, te_raw = combineBillingExpr e ?r, te_groups = gs, te_init = False\<rparr>"
  have m: "mountEditor m e ?r = Some cur" using assms(1) read_groups [OF assms(4)] by (simp add: mountEditor_def cur_def)
  have "effectiveExpr cur = Some zeroExpr" by (simp add: effectiveExpr_def cur_def generateExprFromVisualConfig_def)
  then have f: "runEffects None cur = Some (rawState m zeroExpr ?r (combineBillingExpr e ?r) gs False)"
    using assms(1-3) read_groups [OF assms(4)]
    by (simp add: runEffects_def depsChanged_def initEffect_def modelEffect_def exprEffect_def rulesEffect_def rawState_def cur_def Let_def)
  have n: "rawState m' e' r' raw gs' i \<noteq> cur" for m' e' r' raw gs' i by (simp add: rawState_def cur_def)
  have d: "effectiveExpr cur = Some zeroExpr" "te_expr cur = e" "te_rules cur = ?r" "te_model cur = m" by (simp_all add: effectiveExpr_def cur_def generateExprFromVisualConfig_def)
  note z = raw_effects [OF zero_unread assms(4)] raw_effects [OF assms(6,7,4)]
  show ?thesis
    using assms(3) n zero_split [OF assms(4)] unfolding openTierEditor_def m
    by (cases "billingExpr parts = zeroExpr")
      (simp_all add: f z assms(5) d raw_same depsChanged_def eval_nat_numeral Let_def)
qed

section \<open>Adding a tier\<close>

lemma zero_readable [simp]: "readableNumber (Fin 0)"
  by code_simp

lemma default_condition: "readableCondition (defaultCondition VarLen)" "usableCondition (defaultCondition VarLen)"
  by code_simp+

lemma normal_costs: "costOf (normalizeVisualTier (fullTier t)) v = costOf t v"
  by (simp add: normalizeVisualTier_def fullTier_def costOf_def)

lemma normal_parts [simp]:
  "vt_label (normalizeVisualTier (fullTier t)) = vt_label t" "vt_conditions (normalizeVisualTier (fullTier t)) = vt_conditions t"
  by (simp_all add: normalizeVisualTier_def fullTier_def)

lemma costs_upd [simp]: "costOf (t\<lparr>vt_conditions := cds\<rparr>) v = costOf t v"
  by (simp add: costOf_def)

definition newTier :: "nat \<Rightarrow> VisualTier" where
  "newTier n = normalizeVisualTier \<lparr>pt_label = Some (lit ''tier_'' @ num_str (Fin (of_nat n))), pt_conditions = Some [],
     pt_costs = (\<lambda>v. if v \<in> {VarP, VarC} then Some (Fin 0) else None), pt_cache_mode = None\<rparr>"

lemma new_tier: "vt_conditions (newTier n) = []" "vt_label (newTier n) = lit ''tier_'' @ num_str (Fin (of_nat n))" "costOf (newTier n) v = Fin 0"
  by (auto simp: newTier_def normalizeVisualTier_def costOf_def num_or_zero_def)

definition closedTiers :: "VisualTier list \<Rightarrow> VisualTier list" where
  "closedTiers ts = (if vt_conditions (last ts) = []
     then butlast ts @ [normalizeVisualTier (fullTier ((last ts)\<lparr>vt_conditions := [defaultCondition VarLen]\<rparr>))] else ts)"

lemma closed_length [simp]: "ts \<noteq> [] \<Longrightarrow> length (closedTiers ts) = length ts"
  by (simp add: closedTiers_def)

lemma added_tiers: "tiers cfg \<noteq> [] \<Longrightarrow> tiers (handleAddTier cfg) = closedTiers (tiers cfg) @ [newTier (Suc (length (tiers cfg)))]"
  by (simp add: handleAddTier_def Let_def newTier_def closedTiers_def)

lemma closed_readable:
  assumes "readableConfig cfg" "list_all usableCondition (vt_conditions (last (tiers cfg)))" "t \<in> set (closedTiers (tiers cfg))"
  shows "34 \<notin> set (vt_label t) \<and> readableCosts t \<and> readableConditions (vt_conditions t) \<and> filter usableCondition (vt_conditions t) \<noteq> []"
proof -
  define ts where "ts = tiers cfg"
  have ts: "ts = butlast ts @ [last ts]" using assms(1) by (simp add: readableConfig_def ts_def)
  have r: "34 \<notin> set (vt_label u) \<and> readableCosts u \<and> readableConditions (vt_conditions u)" if "u \<in> set ts" for u
    using that assms(1) by (auto simp: readableConfig_def list_all_iff ts_def)
  have b: "filter usableCondition (vt_conditions u) \<noteq> []" if "u \<in> set (butlast ts)" for u
    using that assms(1) by (auto simp: readableConfig_def list_all_iff ts_def)
  have l: "last ts \<in> set ts" by (metis ts in_set_conv_decomp)
  show ?thesis
  proof (cases "t \<in> set (butlast ts)")
    case True
    then show ?thesis using r b in_set_butlastD by fastforce
  next
    case False
    then have "t = (if vt_conditions (last ts) = [] then normalizeVisualTier (fullTier ((last ts)\<lparr>vt_conditions := [defaultCondition VarLen]\<rparr>)) else last ts)"
      using assms(3) ts by (auto simp: closedTiers_def ts_def [symmetric] split: if_splits) (metis UnE append_Nil2 empty_iff insertE list.set(1,2) set_append ts)
    then show ?thesis
      using r [OF l] default_condition assms(2)
      by (auto simp: readableConditions_def readableCosts_def normal_costs ts_def [symmetric] list_all_iff filter_empty_conv)
  qed
qed

lemma added_readable:
  assumes "readableConfig cfg" "list_all usableCondition (vt_conditions (last (tiers cfg)))" "int (length (tiers cfg)) < 2 ^ 53"
  shows "readableConfig (handleAddTier cfg)"
proof -
  have ne: "tiers cfg \<noteq> []" using assms(1) by (simp add: readableConfig_def)
  have "num_str (jint (int (Suc (length (tiers cfg))))) = dec_int (int (Suc (length (tiers cfg))))" using assms(3) by (intro num_str_jint) simp
  moreover have "34 \<notin> set (dec_int (int (Suc (length (tiers cfg)))))"
    using dec_nat_digits [of "int (Suc (length (tiers cfg)))" 34] by (auto simp: dec_int_def is_digit_def)
  ultimately have "34 \<notin> set (vt_label (newTier (Suc (length (tiers cfg)))))" by (simp add: new_tier lit_def)
  then show ?thesis
    using closed_readable [OF assms(1,2)] assms(3) ne
    by (auto simp: readableConfig_def added_tiers list_all_iff butlast_append readableConditions_def new_tier readableCosts_def)
qed

lemma canonical_nth: "i < length (tiers cfg) \<Longrightarrow>
    tiers (canonicalConfig cfg) ! i = canonicalTier (labelAt (length (tiers cfg)) i (tiers cfg ! i)) (condsAt (length (tiers cfg)) i (tiers cfg ! i)) (tiers cfg ! i)"
  by (simp add: canonicalConfig_def shapes_def nth_enumerate_eq)

lemma closed_costs: "ts \<noteq> [] \<Longrightarrow> i < length ts \<Longrightarrow> costOf (closedTiers ts ! i) v = costOf (ts ! i) v"
  by (cases ts rule: rev_cases) (auto simp: closedTiers_def nth_append normal_costs)

lemma added_canonical:
  assumes "readableConfig cfg" "list_all usableCondition (vt_conditions (last (tiers cfg)))" "length (tiers cfg) = n" "int n < 2 ^ 53"
  defines "c \<equiv> canonicalConfig (handleAddTier cfg)"
  shows "length (tiers c) = Suc n \<and>
    (\<forall>i<n. vt_conditions (tiers c ! i) \<noteq> [] \<and> (\<forall>v\<in>set BILLING_PRICING_VARS. vt_costs (tiers c ! i) v = costOf (tiers cfg ! i) v)) \<and>
    vt_conditions (tiers c ! n) = [] \<and> vt_label (tiers c ! n) = lit ''tier_'' @ num_str (Fin (of_nat (Suc n))) \<and> vt_costs (tiers c ! n) = (\<lambda>v. Fin 0)"
proof -
  define us where "us = closedTiers (tiers cfg)"
  have ne: "tiers cfg \<noteq> []" "0 < n" using assms(1,3) by (auto simp: readableConfig_def)
  have t: "tiers (handleAddTier cfg) = us @ [newTier (Suc n)]" "length us = n" using ne assms(3) by (simp_all add: added_tiers us_def)
  have k: "tiers c ! i = canonicalTier (labelAt (Suc n) i (us ! i)) (condsAt (Suc n) i (us ! i)) (us ! i)" if "i < n" for i
    using that canonical_nth [of i "handleAddTier cfg"] t by (simp add: c_def nth_append)
  have "filter usableCondition (vt_conditions (us ! i)) \<noteq> []" if "i < n" for i
    using closed_readable [OF assms(1,2), of "us ! i"] that t(2) by (auto simp: us_def)
  then have "\<forall>i<n. vt_conditions (tiers c ! i) \<noteq> [] \<and> (\<forall>v\<in>set BILLING_PRICING_VARS. vt_costs (tiers c ! i) v = costOf (tiers cfg ! i) v)"
    using k ne assms(3) by (auto simp: canonicalTier_def condsAt_def us_def closed_costs)
  moreover have "tiers c ! n = canonicalTier (vt_label (newTier (Suc n))) [] (newTier (Suc n))"
  proof -
    have "tiers (handleAddTier cfg) ! n = newTier (Suc n)" "length (tiers (handleAddTier cfg)) = Suc n" using t by (metis nth_append_length, simp)
    then show ?thesis using canonical_nth [of n "handleAddTier cfg"] ne by (simp add: c_def condsAt_def labelAt_def new_tier lit_def)
  qed
  moreover have "length (tiers c) = Suc n" using t by (simp add: c_def canonicalConfig_def shapes_def)
  ultimately show ?thesis by (simp add: canonicalTier_def new_tier cong: if_cong)
qed

section \<open>Presets\<close>

lemma preset_rules: "list_all (\<lambda>pr. list_all readableGroup (tp_requestRules pr)) (concat (map snd PRESET_GROUPS))"
proof -
  have "numeric (lit ''6'')" "numeric (lit ''2'')" "numeric (lit ''0.5'')" "numeric (lit ''0.8'')" "numeric (lit ''21'')" "numeric (lit ''0'')"
    unfolding numeric_def by code_simp+
  then show ?thesis
    by (simp add: PRESET_GROUPS_def tierPreset_def readableGroup_def phCond_def readableTime_def readableParamHeader_def TIME_FUNCS_def plainName_def plainValue_def trimmed_def
        is_ws_def special_def code_units_def lit_def)
qed

definition pricedTier :: "string \<Rightarrow> TierConditionInput list \<Rightarrow> (VarKey \<times> rat) list \<Rightarrow> VisualTier" where
  "pricedTier label cds costs =
     \<lparr>vt_label = lit label, vt_conditions = cds, vt_costs = (\<lambda>v. Fin (opt_or (map_of costs v) 0)), vt_cache_mode = Generic\<rparr>"

definition opusTiers :: VisualConfig where
  "opusTiers = \<lparr>tiers = [pricedTier ''base'' [] [(VarP, 5), (VarC, 25), (VarCr, 1 / 2), (VarCc, 25 / 4), (VarCc1h, 10)]]\<rparr>"

definition gptTiers :: VisualConfig where
  "gptTiers = \<lparr>tiers =
     [pricedTier ''standard'' [\<lparr>tc_var = VarLen, tc_op = OpLe, tc_value = JNum (Fin 272000)\<rparr>] [(VarP, 5 / 2), (VarC, 15), (VarCr, 1 / 4)],
      pricedTier ''long_context'' [] [(VarP, 5), (VarC, 45 / 2), (VarCr, 1 / 2)]]\<rparr>"

definition discountTiers :: VisualConfig where
  "discountTiers = \<lparr>tiers = [pricedTier ''base'' [] [(VarP, 3), (VarC, 15)]]\<rparr>"

lemma preset_configs: "readableConfig opusTiers" "readableConfig gptTiers" "readableConfig discountTiers"
  by code_simp+

lemma preset_texts:
  "tp_expr (snd (PRESET_GROUPS ! 3) ! 0) = exprOf opusTiers" "tp_expr (snd (PRESET_GROUPS ! 3) ! 1) = exprOf gptTiers"
  "tp_expr (snd (PRESET_GROUPS ! 4) ! 0) = exprOf discountTiers"
  by code_simp+

lemma rule_presets:
  assumes "preset \<in> set (concat (map snd PRESET_GROUPS))" "tp_requestRules preset \<noteq> []"
  shows "\<exists>cfg. tryParseVisualConfig (tp_expr preset) = Some cfg \<and> readableConfig cfg \<and> readableRules (tp_requestRules preset)"
proof -
  have "list_all (\<lambda>pr. tp_requestRules pr = [] \<or> tp_expr pr = tp_expr (snd (PRESET_GROUPS ! 3) ! 0) \<or> tp_expr pr = tp_expr (snd (PRESET_GROUPS ! 3) ! 1) \<or>
      tp_expr pr = tp_expr (snd (PRESET_GROUPS ! 4) ! 0)) (concat (map snd PRESET_GROUPS))"
    by (simp add: PRESET_GROUPS_def tierPreset_def)
  then have "tp_expr preset = tp_expr (snd (PRESET_GROUPS ! 3) ! 0) \<or> tp_expr preset = tp_expr (snd (PRESET_GROUPS ! 3) ! 1) \<or>
      tp_expr preset = tp_expr (snd (PRESET_GROUPS ! 4) ! 0)"
    using assms unfolding list_all_iff by blast
  moreover have "readableRules (tp_requestRules preset)" using preset_rules assms(1) unfolding list_all_iff by blast
  ultimately show ?thesis unfolding preset_texts using preset_configs roundtrip canonical_readable by metis
qed

end
