(* ===== verification/Tier_Properties.thy ===== *)
theory Tier_Properties
  imports Tier_Editor_Laws
begin

text \<open>Properties of tiered price expressions and of their editor, with an instance of each.\<close>

section \<open>Examples\<close>

definition exampleTier :: "string \<Rightarrow> TierConditionInput list \<Rightarrow> rat \<Rightarrow> rat \<Rightarrow> VisualTier" where
  "exampleTier label cds p c = \<lparr>vt_label = lit label, vt_conditions = cds, vt_costs = (\<lambda>v. if v = VarP then Fin p else if v = VarC then Fin c else Fin 0),
     vt_cache_mode = Generic\<rparr>"

definition exampleConfig :: VisualConfig where
  "exampleConfig = \<lparr>tiers = [exampleTier ''base'' [defaultCondition VarLen] 3 15, exampleTier ''long'' [] 6 (45 / 2)]\<rparr>"

definition flatConfig :: VisualConfig where
  "flatConfig = \<lparr>tiers = [exampleTier ''flat'' [] 2 4]\<rparr>"

lemma example_readable: "readableConfig exampleConfig" "readableConfig flatConfig"
  by code_simp+

definition complexExpr :: jstr where
  "complexExpr = lit ''max(p * 3, c * 15)''"

lemma complex_unread:
  "tryParseVisualConfig complexExpr = None" "complexExpr \<noteq> []" "complexExpr \<noteq> zeroExpr"
  "splitBillingExprAndRequestRules complexExpr = Some \<lparr>billingExpr = complexExpr, requestRuleExpr = []\<rparr>" "combineBillingExpr complexExpr [] = complexExpr"
  by code_simp+

lemma no_rules [simp]: "buildRequestRuleExpr [] = []"
  by (simp add: buildRequestRuleExpr_def)

section \<open>Properties\<close>

text \<open>
  C33.  Tiers written as text are read back: for a configuration whose labels have no quotes, whose numbers are read back from their text, and whose tiers all have a condition but
  the last, \<open>tryParseVisualConfig\<close> applied to \<open>generateExprFromVisualConfig\<close> gives its canonical form: the conditions of the last of several tiers are dropped, empty labels are named,
  costs that are no numbers are zero, and the cache mode follows from the one-hour cost.  The canonical form is written as the same text.
\<close>

theorem tier_roundtrip:
  assumes "readableConfig cfg"
  shows "tryParseVisualConfig (generateExprFromVisualConfig (Some cfg)) = Some (canonicalConfig cfg) \<and>
    generateExprFromVisualConfig (Some (canonicalConfig cfg)) = generateExprFromVisualConfig (Some cfg)"
  using roundtrip [OF assms] generate_canonical [OF assms] by simp

theorem tier_roundtrip_witness:
  "tryParseVisualConfig (lit ''len < 200000 ? tier('' @ [34] @ lit ''base'' @ [34] @ lit '', p * 3 + c * 15) : tier('' @ [34] @ lit ''long'' @ [34] @ lit '', p * 6 + c * 22.5)'')
     = Some (canonicalConfig exampleConfig)"
proof -
  have "generateExprFromVisualConfig (Some exampleConfig) =
      lit ''len < 200000 ? tier('' @ [34] @ lit ''base'' @ [34] @ lit '', p * 3 + c * 15) : tier('' @ [34] @ lit ''long'' @ [34] @ lit '', p * 6 + c * 22.5)''"
    by code_simp
  then show ?thesis using tier_roundtrip [OF example_readable(1)] by simp
qed

text \<open>
  C34.  The two readers agree: on the expression of such a configuration, the price tables (\<open>parseTiersFromExpr\<close>, which searches the body of a tier for coefficients) show exactly the
  tiers the visual editor (\<open>tryParseVisualConfig\<close>, which reads the whole body with one pattern) would edit, with the same labels, conditions and prices.
\<close>

theorem tables_agree:
  assumes "readableConfig cfg"
  shows "map_option (\<lambda>c. map shownTier (tiers c)) (tryParseVisualConfig (generateExprFromVisualConfig (Some cfg))) =
    Some (parseTiersFromExpr (generateExprFromVisualConfig (Some cfg)))"
  using roundtrip [OF assms] tables_read [OF assms] by simp

theorem tables_agree_witness:
  "\<exists>c. tryParseVisualConfig (generateExprFromVisualConfig (Some exampleConfig)) = Some c \<and>
     parseTiersFromExpr (generateExprFromVisualConfig (Some exampleConfig)) = map shownTier (tiers c)"
  using tables_agree [OF example_readable(1)] by (auto simp: map_option_case split: option.splits)

text \<open>
  C35.  Edits reach the text: a model whose expression and rules are written from readable tiers and rules opens in the visual mode with both unchanged, and after any sequence of
  changes of tiers and rules to readable ones, each settled after at most three renderings, the panel has the text of the last tiers and of the last rules, and the price tables show
  those tiers.
\<close>

theorem edits_reach_text:
  assumes "readableConfig cfg" "\<forall>g\<in>set gs. readableGroup g" "list_all readableEdit evs"
  shows "\<exists>s0 s. openTierEditor 1 m (generateExprFromVisualConfig (Some cfg)) (buildRequestRuleExpr gs) = Some s0 \<and>
    te_mode s0 = VisualMode \<and> te_expr s0 = generateExprFromVisualConfig (Some cfg) \<and> te_rules s0 = buildRequestRuleExpr gs \<and>
    respondAll 3 evs s0 = Some s \<and> te_mode s = VisualMode \<and>
    te_expr s = generateExprFromVisualConfig (Some (fold editTiers evs cfg)) \<and> te_rules s = buildRequestRuleExpr (fold editRules evs gs) \<and>
    parseTiersFromExpr (te_expr s) = map shownTier (tiers (canonicalConfig (fold editTiers evs cfg)))"
proof -
  obtain raw v i where "respondAll 3 evs (visualState m (exprOf cfg) (buildRequestRuleExpr gs) (canonicalConfig cfg) (combineBillingExpr (exprOf cfg) (buildRequestRuleExpr gs)) gs False) =
      Some (visualState m (exprOf (fold editTiers evs cfg)) (buildRequestRuleExpr (fold editRules evs gs)) v raw (fold editRules evs gs) i)"
    using edits_settle [OF assms, of "canonicalConfig cfg"] by blast
  then show ?thesis using open_written [OF assms(1,2), of m] tables_read [OF edited_readable [OF assms(1,3)]] by simp
qed

theorem edits_reach_text_witness:
  "\<exists>s0 s. openTierEditor 1 (lit ''m'') (generateExprFromVisualConfig (Some flatConfig)) [] = Some s0 \<and>
    respondAll 3 [VisualChange exampleConfig, RuleGroupsChange sampleRules] s0 = Some s \<and>
    te_expr s = generateExprFromVisualConfig (Some exampleConfig) \<and> te_rules s = buildRequestRuleExpr sampleRules"
  using edits_reach_text [OF example_readable(2), of "[]" "[VisualChange exampleConfig, RuleGroupsChange sampleRules]" "lit ''m''"] example_readable(1) sample_readable
  by (auto simp: list_all_iff)

text \<open>
  C38.  Selecting another model gives it the prices of the one that was open: from an editor that shows one model's readable tiers and rules, when the panel switches to another
  model's, the editor settles with the first model's expression and rules under the second model's name.
\<close>

theorem select_overwrites:
  assumes "readableConfig cfg" "\<forall>g\<in>set gs. readableGroup g" "readableConfig cfg'" "\<forall>g\<in>set gs'. readableGroup g" "m \<noteq> m'"
  shows "\<exists>s0 s. openTierEditor 1 m (generateExprFromVisualConfig (Some cfg)) (buildRequestRuleExpr gs) = Some s0 \<and>
    respond 5 (SelectModel m' (generateExprFromVisualConfig (Some cfg')) (buildRequestRuleExpr gs')) s0 = Some s \<and>
    te_model s = m' \<and> te_expr s = generateExprFromVisualConfig (Some cfg) \<and> te_rules s = buildRequestRuleExpr gs"
  using open_written [OF assms(1,2), of m] select_written [OF canonical_readable [OF assms(1)] assms(2-5)] canonical_expr [OF assms(1)] by simp

theorem select_overwrites_witness:
  "\<exists>s0 s. openTierEditor 1 (lit ''a'') (generateExprFromVisualConfig (Some exampleConfig)) [] = Some s0 \<and>
    respond 5 (SelectModel (lit ''b'') (generateExprFromVisualConfig (Some flatConfig)) []) s0 = Some s \<and>
    te_model s = lit ''b'' \<and> te_expr s = generateExprFromVisualConfig (Some exampleConfig)"
  using select_overwrites [OF example_readable(1) _ example_readable(2), of "[]" "[]" "lit ''a''" "lit ''b''"] by (auto simp: lit_def)

text \<open>
  C39.  A preset with request rules adds its rules and leaves the prices: on a model without rules that has just been opened, applying any preset of \<open>PRESET_GROUPS\<close> that has
  request rules settles with the preset's rules and with the expression the model had, not the preset's.
\<close>

theorem preset_prices_lost:
  assumes "readableConfig cfg" "preset \<in> set (concat (map snd PRESET_GROUPS))" "tp_requestRules preset \<noteq> []"
  shows "\<exists>s0 s. openTierEditor 1 m (generateExprFromVisualConfig (Some cfg)) [] = Some s0 \<and> respond 4 (ApplyPreset preset) s0 = Some s \<and>
    te_expr s = generateExprFromVisualConfig (Some cfg) \<and> te_rules s = buildRequestRuleExpr (tp_requestRules preset)"
proof -
  obtain cfg' where "tryParseVisualConfig (tp_expr preset) = Some cfg'" "readableConfig cfg'" "readableRules (tp_requestRules preset)"
    using rule_presets [OF assms(2,3)] by blast
  then show ?thesis
    using open_written [OF assms(1), of "[]" m] preset_applied [OF canonical_readable [OF assms(1)], of "[]" preset cfg' m "combineBillingExpr (exprOf cfg) []" False]
      canonical_expr [OF assms(1)] assms(3) by simp
qed

theorem preset_prices_lost_witness:
  "\<exists>preset s0 s. preset \<in> set (concat (map snd PRESET_GROUPS)) \<and> tp_key preset = lit ''night-discount'' \<and>
    openTierEditor 1 (lit ''m'') (generateExprFromVisualConfig (Some flatConfig)) [] = Some s0 \<and> respond 4 (ApplyPreset preset) s0 = Some s \<and>
    te_expr s = generateExprFromVisualConfig (Some flatConfig)"
proof -
  define preset where "preset = snd (PRESET_GROUPS ! 4) ! 0"
  have p: "preset \<in> set (concat (map snd PRESET_GROUPS))" "tp_requestRules preset \<noteq> []" "tp_key preset = lit ''night-discount''"
    by (simp_all add: preset_def PRESET_GROUPS_def tierPreset_def)
  from preset_prices_lost [OF example_readable(2) p(1,2), of "lit ''m''"] p show ?thesis by blast
qed

text \<open>
  C40.  Adding a tier keeps the expression readable: after \<open>handleAddTier\<close> on a readable configuration, the written expression is read back with one tier more; the tiers before keep
  their costs, the one that was last has a condition, and the new one is an unconditional fallback named after its position with no costs.
\<close>

theorem added_tier_read:
  assumes "readableConfig cfg" "list_all usableCondition (vt_conditions (last (tiers cfg)))" "length (tiers cfg) = n" "int n < 2 ^ 53"
  shows "\<exists>c. tryParseVisualConfig (generateExprFromVisualConfig (Some (handleAddTier cfg))) = Some c \<and> length (tiers c) = Suc n \<and>
    (\<forall>i<n. vt_conditions (tiers c ! i) \<noteq> [] \<and> (\<forall>v\<in>set BILLING_PRICING_VARS. vt_costs (tiers c ! i) v = costOf (tiers cfg ! i) v)) \<and>
    vt_conditions (tiers c ! n) = [] \<and> vt_label (tiers c ! n) = lit ''tier_'' @ num_str (Fin (of_nat (Suc n))) \<and> vt_costs (tiers c ! n) = (\<lambda>v. Fin 0)"
proof -
  have r: "readableConfig (handleAddTier cfg)" using added_readable assms by simp
  show ?thesis
    using roundtrip [OF r] added_canonical [OF assms] by blast
qed

theorem added_tier_read_witness:
  "\<exists>c. tryParseVisualConfig (generateExprFromVisualConfig (Some (handleAddTier exampleConfig))) = Some c \<and> length (tiers c) = 3 \<and> vt_costs (tiers c ! 0) VarC = Fin 15"
proof -
  have "list_all usableCondition (vt_conditions (last (tiers exampleConfig)))" "length (tiers exampleConfig) = 2"
    by (simp_all add: exampleConfig_def exampleTier_def)
  moreover have "costOf (tiers exampleConfig ! 0) VarC = Fin 15" by (simp add: exampleConfig_def exampleTier_def costOf_def num_or_zero_def)
  ultimately show ?thesis using added_tier_read [OF example_readable(1), of 2] by (auto simp: extra_vars)
qed

end
