(* ===== verification/Spec2Isabelle.thy ===== *)
theory Spec2Isabelle
  imports Status_Code_Rules Flow_Display Alipay_Checkout Wallet Playground Channel_Rules Editor_Refinement Billing_Roundtrip Sidebar_Laws
  Param_Properties Pricing_Editor Tier_Properties
begin

text \<open>
  Verification development for the web console of an API gateway, the TypeScript sources
  under \<open>src/web/default/src\<close> (paths below are relative to it).  The console lets administrators
  configure channels (upstream providers) and lets users pay, look at their usage and chat.
  Its own logic is in plain functions, reducers and hooks; those are modelled here as
  functions and step relations, in the order the code has them and with its names.

  \<^bold>\<open>The language.\<close>  \<open>Prelude\<close> holds the shared lemmas, sets and maps in insertion order and the
  interface of keyed stores (locale \<open>keyed_store\<close>, interpreted for \<open>Map\<close> and for objects).
  \<open>JS_Number\<close> is binary64 arithmetic: a number is a rational, an infinity or NaN, every operation rounds
  the exact result to nearest even (\<open>rnd\<close>), and integers up to $2^{53}$ are exact, which is the bound that
  appears in the theorems about sums; the two zeros are not distinguished.  \<open>JS_String\<close> has strings as lists of UTF-16 code
  units with \<open>trim\<close>, \<open>split\<close>, \<open>indexOf\<close> and the conversions to and from numbers.  \<open>JS_Array\<close> is the stable
  sort and the contract of comparison functions (locale \<open>js_order\<close>).  \<open>JS_Json\<close> has dynamic values, their
  conversions, operations that may throw (\<open>None\<close>), \<open>JSON.parse\<close> and \<open>JSON.stringify\<close>;
  \<open>JS_Json_Laws\<close> proves that a text written by the one is read back by the other, for values whose numbers are read back from their own texts (all integers up to $2^{53}$ are).  The parser's
  fuel is twice the length of the text plus one: a value needs at most twice the length of its own
  text, since each level of nesting costs two calls and at least two characters.

  \<^bold>\<open>Status code lists.\<close>  \<open>Status_Code_Rules\<close> models \<open>lib/http-status-code-rules.ts\<close>: parsing, merging and
  printing of lists such as 401,500-503.  Merging keeps exactly the codes and leaves separated
  ranges in order; what is printed parses back; invalid tokens are exactly those reported.

  \<^bold>\<open>Dashboard flow graph.\<close>  \<open>Tally\<close> is the contract of a table of running totals (locale \<open>tally_laws\<close>),
  interpreted for the nodes, links and ranks of the graph.  \<open>Flow_Model\<close> models
  \<open>features/dashboard/lib/flow.ts\<close> and \<open>flow-selection.ts\<close>: rows become paths through the visible stages, paths become
  nodes and links, with limits, filters, colours, highlights and masking.  \<open>Flow_Graph\<close> has the
  lemmas on its loops; \<open>Flow_Properties\<close> shows conservation at every node, equal totals of all
  stages, the shape of the graph and the bound on nodes per stage; \<open>Flow_Display\<close> shows what masking,
  highlighting, filtering and drawing keep.  The locale-dependent comparison of labels is the argument \<open>lc\<close>.

  \<^bold>\<open>Payments.\<close>  \<open>Alipay_Checkout\<close> models \<open>features/wallet/lib/alipay-desktop-payment.ts\<close> and the hook
  \<open>use-alipay-desktop-payment.ts\<close> as a transition system: user actions, timers and the answers of requests in any
  order, with requests in flight as tasks.  By rule induction over the reachable states, success is
  only shown for a confirmed order and at most one check runs; answers of old flows change nothing but an expiry that is due, and a check that was refused
  because of an old flow is resumed along every run.  \<open>Wallet\<close>
  models the recharge amount reducer, the choice of payment methods, the sanitising of the
  server's top-up configuration and the billing helpers of \<open>features/wallet\<close>.

  \<^bold>\<open>Chat.\<close>  \<open>Playground\<close> models \<open>features/playground\<close>: separation of reasoning, messages and their updates
  under streaming, errors, stop and reload, the event listeners of the stream, the request payload and the actions of the chat page.  A stream is any
  sequence of events of the \<open>sse.js\<close> source and of stops by the user, with nothing assumed about the order or the end of the events: the status of the answer is
  determined exactly, among it that a response which ends without its end marker leaves the answer streaming.  Requests carry the conversation with the visible part of the answers.

  \<^bold>\<open>Channels.\<close>  \<open>Channel_Rules\<close> models the model mapping and status code mapping checks of
  \<open>features/channels/lib\<close> and the submit handler of the channel drawer that runs them.  \<open>Advanced_Custom\<close> models
  \<open>features/channels/lib/advanced-custom.ts\<close> over dynamic values, since configurations come from
  JSON text; the URL parser of the browser is the argument \<open>parseURL\<close>, about which nothing is assumed.
  \<open>Advanced_Custom_Laws\<close> shows that validation is exact, that a configuration of the declared type never throws, that texts
  read back and that everything offered is acceptable.  \<open>Advanced_Editor\<close> models the dialog that
  edits such a configuration as a transition system and shows that only accepted configurations
  are saved; \<open>Editor_Refinement\<close> shows that its form mode implements an abstract list editor.

  \<^bold>\<open>Parameter overrides.\<close>  The dialog \<open>features/channels/components/dialogs/param-override-editor-dialog.tsx\<close> edits
  rules that rewrite requests.  \<open>Param_Override\<close> has rules, conditions and the drafts of custom errors, synchronised fields and
  pruning rules; \<open>Param_Payload\<close> validates rules, writes them as JSON and computes the opening state.  \<open>Param_Laws\<close> shows
  which value texts survive, and that complete rules open and save as the same text.  \<open>Param_Editor\<close> has the templates, the state and every handler;
  \<open>Param_Dialog\<close> the events and the invariant, with the contract of functions that make objects with fresh identifiers as locale
  \<open>allocator\<close>, interpreted for conditions and rules.  \<open>Param_Properties\<close> has the invariant over all reachable states,
  reading back, validation, reordering and the drafts, among them the edits of pruning conditions that are lost.  The clock that is part of an
  identifier is the argument \<open>clk\<close>; each identifier also has the number of a counter, which makes it unique.

  \<^bold>\<open>Billing rules.\<close>  \<open>JS_Regex\<close> is a backtracking matcher for the regular expressions of the language, with groups
  and back references: it lists the ways to match in the order they are tried.  A repetition is unrolled as often as the
  rest of the text has characters, which is enough because a turn that consumes nothing ends it.  \<open>Billing_Expr\<close> models the request
  rules of \<open>features/pricing/lib/billing-expr.ts\<close>: how a rule such as \<open>(header("x") == "y" ? 2 : 1)\<close> is written, joined to
  a base expression, split off and read by regular expressions.  \<open>Billing_Match\<close> says what each pattern
  matches, \<open>Billing_Rules\<close> reads single conditions, and \<open>Billing_Roundtrip\<close> shows that rules read back, that
  splitting inverts combining, that the loop over outer parentheses ends, and which rules are never read.

  \<^bold>\<open>Model prices.\<close>  Ten settings hold one JSON object each, from model names to prices, ratios, modes and expressions
  (\<open>features/system-settings/models\<close>).  \<open>Model_Pricing\<close> models \<open>pricing-format.ts\<close>, the snapshots and rows of
  \<open>model-pricing-snapshots.ts\<close> and the storing and deleting of models in \<open>model-ratio-visual-editor.tsx\<close>, which uses the billing rules above;
  \<open>Model_Pricing_Laws\<close> says what the settings hold afterwards.  \<open>Pricing_Panel\<close> models the panel of
  \<open>model-pricing-sheet.tsx\<close>, which shows prices and keeps ratios, with the invariant that the ratios are those of the prices shown.
  \<open>Pricing_Editor\<close> puts table and panel together and has the properties: storing and deleting touch exactly the models named, commits hold the quotients of the prices shown, the marks of the rows are exact, and a fixed price left in the form wins over token prices.

  \<^bold>\<open>Navigation.\<close>  \<open>JS_Object\<close> has the enumeration and copying of properties, shows that parsed objects have
  distinct keys, and characterises property order, which setting and deleting keep.  \<open>Nav_Modules\<close> models \<open>lib/nav-modules.ts\<close>, the header part of
  \<open>features/system-settings/maintenance/config.ts\<close>, \<open>hooks/use-top-nav-links.ts\<close> and the guards of the routes pricing and
  rankings; the contract of the two readers of the header option is the pair of locales \<open>access_reader\<close> and \<open>nav_reader\<close>,
  interpreted for the site and for the settings page.  A saved option is read back by both, and guards
  agree with links.  \<open>Sidebar_Config\<close> models \<open>hooks/use-sidebar-config.ts\<close>, the sidebar part of the settings page and the
  guard \<open>isSidebarModuleEnabled\<close>; \<open>Sidebar_Laws\<close> shows what the layers of administrator and user let through and
  that settings page, sidebar and guard agree.

  \<^bold>\<open>Tiered prices.\<close>  \<open>Tier_Expr\<close> models the variable registry and the tier reader of \<open>features/pricing/lib/billing-expr.ts\<close> and the writer and reader of
  \<open>features/pricing/lib/tier-expr.ts\<close>, regular expressions included.  \<open>Regex_First\<close> is a calculus of the first match of a pattern, with which \<open>Tier_Reading\<close> follows the
  patterns along a written tier; \<open>Tier_Roundtrip\<close> shows that written configurations are read back, once for both readers (locale \<open>tier_reader\<close>, interpreted for the editor and
  for the price tables).  \<open>Tier_Editor\<close> models \<open>features/system-settings/models/tiered-pricing-editor.tsx\<close>: number inputs, tier and rule cards, presets, and the editor with the
  four effects that copy between the visual configuration and the text of the panel; \<open>settleTiers\<close> repeats rendering and effects until nothing changes, and every theorem about it gives
  a number of renderings after which it has settled, at most five.  \<open>Tier_Editor_Laws\<close> and \<open>Tier_Properties\<close> show that edits of readable tiers reach the text, and how other
  expressions, the selection of another model and presets with rules end with the wrong prices.
  The theory at hand puts table, panel and editor together: \<open>syncTier\<close> mounts or updates the editor after an operation of the table, \<open>hostedEdit\<close> and
  \<open>hostedCommit\<close> open and save a model.  Opening and saving keeps every entry if a tiered model is written as the editor writes it, and loses an expression it cannot read.

  \<^bold>\<open>Parameters.\<close>  The translation function \<open>tr\<close>, the label comparison \<open>lc\<close>, number formatting, random
  identifiers, the current time and the URL parser are arguments of the definitions that use them.

  \<^bold>\<open>Not modelled.\<close>  The server (Go), the classic console (\<open>web/classic\<close>), the desktop shell, the
  rendering of components, requests themselves (their answers are inputs), translations, storage
  and generated code.  Of the console's own logic, the local cost estimate of an expression (it is handed to the engine as code), the remaining channel form conversions and
  the usage log formatting are not modelled yet.
\<close>

section \<open>The editor of tiered prices inside the panel\<close>

text \<open>The panel with what the editor has passed to \<open>onBillingExprChange\<close> and \<open>onRequestRuleExprChange\<close>.\<close>

definition hostedPanel :: "TierEditor \<Rightarrow> Panel \<Rightarrow> Panel" where
  "hostedPanel s p = panelStep (RulesChange (te_rules s)) (panelStep (ExprChange (te_expr s)) p)"

text \<open>
  The table, its panel and the editor of tiered prices together; \<open>None\<close> when no such editor is mounted.  After each operation the editor gets the panel's name, expression and
  rules and the panel gets what the editor makes of them: a panel that is open in the tiered mode mounts an editor if there is none and keeps the one it has, and otherwise there is
  none.  The editor settles after at most \<open>maxRenders\<close> renderings on the data of the properties below.
\<close>

definition maxRenders :: nat where
  "maxRenders = 5"

definition syncTier :: "TierEditor option \<Rightarrow> VisualEditor \<Rightarrow> (VisualEditor \<times> TierEditor option) option" where
  "syncTier ed st =
     (if \<not> editorOpen st \<or> pricingMode (ve_panel st) \<noteq> TieredExpr then Some (st, None)
      else let p = ve_panel st in
        map_option (\<lambda>s. (st\<lparr>ve_panel := hostedPanel s p\<rparr>, Some s))
          (case ed of
             None \<Rightarrow> openTierEditor maxRenders (form_name p) (panelExpr p) (panelRules p)
           | Some s \<Rightarrow> respond maxRenders (SelectModel (form_name p) (panelExpr p) (panelRules p)) s))"

definition hostedEdit :: "ModelRow \<Rightarrow> VisualEditor \<times> TierEditor option \<Rightarrow> (VisualEditor \<times> TierEditor option) option" where
  "hostedEdit row h = syncTier (snd h) (handleEdit row (fst h))"

definition hostedCommit :: "VisualEditor \<times> TierEditor option \<Rightarrow> (bool \<times> VisualEditor \<times> TierEditor option) option" where
  "hostedCommit h = do {
     (accepted, st) \<leftarrow> commitOpenEditor (fst h);
     h' \<leftarrow> syncTier (snd h) st;
     Some (accepted, h')
   }"

lemma settle_more: "settleTiers n prev cur = Some s \<Longrightarrow> n \<le> m \<Longrightarrow> settleTiers m prev cur = Some s"
proof (induction n arbitrary: prev cur m)
  case (Suc n)
  then obtain m' where "m = Suc m'" "n \<le> m'" by (cases m) auto
  with Suc show ?case by (auto split: bind_splits if_splits)
qed simp

lemma open_more: "openTierEditor n model e r = Some s \<Longrightarrow> n \<le> m \<Longrightarrow> openTierEditor m model e r = Some s"
  by (auto simp: openTierEditor_def split: bind_splits intro: settle_more)

text \<open>An editor that is given the values it has does nothing.\<close>

lemma respond_same: "0 < n \<Longrightarrow> respond n (SelectModel (te_model s) (te_expr s) (te_rules s)) s = Some s"
  by (cases n) (simp_all add: respond_def selectModel_def runEffects_def depsChanged_def)

text \<open>What the property below asks of a tiered entry: an expression and rules that the editor of tiered prices writes.\<close>

definition writtenTiers :: "ModelPricingSnapshot \<Rightarrow> bool" where
  "writtenTiers s = (\<exists>cfg gs. readableConfig cfg \<and> (\<forall>g\<in>set gs. readableGroup g) \<and>
     ms_billingExpr s = generateExprFromVisualConfig (Some cfg) \<and> ms_requestRuleExpr s = buildRequestRuleExpr gs)"

lemma panel_parts:
  "form_name (initPanel (Some d)) = md_name d" "panelExpr (initPanel (Some d)) = md_billingExpr d" "panelRules (initPanel (Some d)) = md_requestRuleExpr d"
  "pricingMode (initPanel (Some d)) = TieredExpr \<longleftrightarrow> md_billingMode d = TieredExpr"
  by (auto simp: initPanel_def Let_def)

lemma hosted_same: "te_expr s = panelExpr p \<Longrightarrow> te_rules s = panelRules p \<Longrightarrow> hostedPanel s p = p"
  by (simp add: hostedPanel_def)

lemma sync_written:
  assumes "writtenTiers s" "ms_billingMode s = TieredExpr"
  obtains te where "syncTier None (openWith (Some (editDataOf s)) st) = Some (openWith (Some (editDataOf s)) st, Some te)"
    "\<And>st'. editorOpen st' \<Longrightarrow> ve_panel st' = initPanel (Some (editDataOf s)) \<Longrightarrow> syncTier (Some te) st' = Some (st', Some te)"
proof -
  let ?p = "initPanel (Some (editDataOf s))"
  obtain te where te: "openTierEditor 1 (ms_name s) (ms_billingExpr s) (ms_requestRuleExpr s) = Some te"
      "te_model te = ms_name s" "te_expr te = ms_billingExpr s" "te_rules te = ms_requestRuleExpr s"
    using assms(1) open_written by (fastforce simp: writtenTiers_def)
  have p: "form_name ?p = ms_name s" "panelExpr ?p = ms_billingExpr s" "panelRules ?p = ms_requestRuleExpr s" "pricingMode ?p = TieredExpr"
    using assms(2) by (simp_all add: panel_parts editDataOf_def)
  have "syncTier (Some te) st' = Some (st', Some te)" if "editorOpen st'" "ve_panel st' = ?p" for st'
    using that te p respond_same [of maxRenders te] hosted_same [of te ?p] by (simp add: syncTier_def maxRenders_def)
  moreover have "syncTier None (openWith (Some (editDataOf s)) st) = Some (openWith (Some (editDataOf s)) st, Some te)"
    using te p open_more [OF te(1), of maxRenders] hosted_same [of te ?p] by (simp add: syncTier_def openWith_def maxRenders_def)
  ultimately show ?thesis using that by blast
qed

text \<open>
  C36.  Opening a model and saving at once keeps the entries of every model, whether the panel accepts or not, when its entry has no conflict, its numbers are written as they are printed and,
  for a tiered model, its expression and rules are written as the editor of tiered prices writes them and joined as they were.  The panel, with the editor it mounts, starts from no
  mounted editor: it was closed or in another mode.  The panel shows the same states afterwards, and accepts unless the name is empty or an audio output price has no audio input price.
\<close>

theorem open_save_unchanged:
  assumes "readMaps (ve_texts st) = Some maps" "plainMaps maps" "snapshotOf maps name = Some s" "row_draft row = Some s"
    and "trim name = name" "code_units name" "storable (editDataOf s)" "\<not> ms_hasConflict s"
    and "list_all (\<lambda>v. numberText v = v) (ms_price s # ms_ratio s # map (ms_lanes s) settingLanes)"
    and "ms_billingMode s = TieredExpr \<longrightarrow> writtenTiers s \<and> trim (ms_billingExpr s) \<noteq> [] \<and> exprKept (ms_billingExpr s) (ms_requestRuleExpr s)"
  shows "\<exists>h accepted st' te maps'. hostedEdit row (st, None) = Some h \<and> hostedCommit h = Some (accepted, st', te) \<and>
    readMaps (ve_texts st') = Some maps' \<and> (\<forall>n. snapshotOf maps' n = snapshotOf maps n) \<and>
    editData st' = Some (editDataOf s) \<and> ve_panel st' = initPanel (Some (editDataOf s)) \<and> (te \<noteq> None \<longleftrightarrow> ms_billingMode s = TieredExpr) \<and>
    (accepted \<longleftrightarrow> name \<noteq> [] \<and> \<not> audioMissing (initPanel (Some (editDataOf s))))"
proof -
  let ?st = "openWith (Some (editDataOf s)) st" and ?p = "initPanel (Some (editDataOf s))"
  have e: "handleEdit row st = ?st" using assms(4) by (simp add: handleEdit_def)
  have x: "ms_billingMode s = TieredExpr \<longrightarrow> trim (ms_billingExpr s) \<noteq> [] \<and> exprKept (ms_billingExpr s) (ms_requestRuleExpr s)" using assms(10) by blast
  from commit_kept [OF assms(1-9) x] obtain accepted st' maps' where c: "commitOpenEditor ?st = Some (accepted, st')" "readMaps (ve_texts st') = Some maps'"
      "\<forall>n. snapshotOf maps' n = snapshotOf maps n" "editData st' = Some (editDataOf s)" "ve_panel st' = ?p"
      "accepted \<longleftrightarrow> name \<noteq> [] \<and> \<not> audioMissing ?p"
    unfolding e by blast
  have o: "editorOpen st'" using c(1) by (auto simp: commitOpenEditor_def openWith_def split: if_splits option.splits)
  show ?thesis
  proof (cases "ms_billingMode s = TieredExpr")
    case True
    then have "writtenTiers s" using assms(10) by blast
    from sync_written [OF this True] obtain te where te: "syncTier None ?st = Some (?st, Some te)"
        "\<And>st'. editorOpen st' \<Longrightarrow> ve_panel st' = ?p \<Longrightarrow> syncTier (Some te) st' = Some (st', Some te)"
      by blast
    then show ?thesis using c te(2) [OF o c(5)] True by (simp add: hostedEdit_def hostedCommit_def e)
  next
    case False
    then have m: "pricingMode ?p \<noteq> TieredExpr" by (auto simp: panel_parts editDataOf_def)
    then have "syncTier None ?st = Some (?st, None)" "syncTier None st' = Some (st', None)"
      using c(5) by (simp_all add: syncTier_def openWith_def)
    then show ?thesis using c False by (simp add: hostedEdit_def hostedCommit_def e)
  qed
qed

text \<open>A tiered model, opened from the table and saved.\<close>

definition tieredTexts :: ModelPricingSnapshotInput where
  "tieredTexts = exampleTexts\<lparr>in_billingMode := lit ''{\"flat\": \"tiered_expr\"}'',
     in_billingExpr := lit ''{\"flat\": \"tier('' @ [92] @ lit ''\"flat'' @ [92] @ lit ''\", p * 2 + c * 4)\"}''\<rparr>"

definition tieredMaps :: PricingMaps where
  "tieredMaps = the (readMaps tieredTexts)"

definition tieredSnapshot :: ModelPricingSnapshot where
  "tieredSnapshot = the (snapshotOf tieredMaps (lit ''flat''))"

lemma tiered_reads: "readMaps tieredTexts = Some tieredMaps" "snapshotOf tieredMaps (lit ''flat'') = Some tieredSnapshot"
proof -
  have "\<not> Option.is_none (readMaps tieredTexts)" by code_simp
  then show "readMaps tieredTexts = Some tieredMaps" by (simp add: tieredMaps_def Option.is_none_def)
  have "\<not> Option.is_none (snapshotOf tieredMaps (lit ''flat''))" by code_simp
  then show "snapshotOf tieredMaps (lit ''flat'') = Some tieredSnapshot" by (simp add: tieredSnapshot_def Option.is_none_def)
qed

lemma tiered_sample:
  "plainMaps tieredMaps" "trim (lit ''flat'') = lit ''flat''" "storable (editDataOf tieredSnapshot)" "\<not> ms_hasConflict tieredSnapshot"
  "list_all (\<lambda>v. numberText v = v) (ms_price tieredSnapshot # ms_ratio tieredSnapshot # map (ms_lanes tieredSnapshot) settingLanes)"
  "ms_billingMode tieredSnapshot = TieredExpr" "ms_requestRuleExpr tieredSnapshot = []" "trim (ms_billingExpr tieredSnapshot) \<noteq> []"
  "ms_billingExpr tieredSnapshot = generateExprFromVisualConfig (Some flatConfig)"
  "lit ''flat'' \<noteq> [] \<and> \<not> audioMissing (initPanel (Some (editDataOf tieredSnapshot)))"
  by code_simp+

theorem open_save_unchanged_witness:
  "\<exists>h st' te maps'. hostedEdit \<lparr>displayed = tieredSnapshot, row_saved = None, row_draft = Some tieredSnapshot, isDraftChanged = False, isDraftDeleted = False,
       isDraftNew = False\<rparr> (\<lparr>ve_texts = tieredTexts, editorOpen = False, editData = None, ve_panel = initPanel None\<rparr>, None) = Some h \<and>
     hostedCommit h = Some (True, st', Some te) \<and> readMaps (ve_texts st') = Some maps' \<and>
     snapshotOf maps' (lit ''flat'') = snapshotOf tieredMaps (lit ''flat'')"
proof -
  let ?row = "\<lparr>displayed = tieredSnapshot, row_saved = None, row_draft = Some tieredSnapshot, isDraftChanged = False, isDraftDeleted = False, isDraftNew = False\<rparr>"
  let ?st = "\<lparr>ve_texts = tieredTexts, editorOpen = False, editData = None, ve_panel = initPanel None\<rparr>"
  have "writtenTiers tieredSnapshot"
    unfolding writtenTiers_def using example_readable(2) tiered_sample(7,9) by (intro exI [of _ flatConfig] exI [of _ "[]"]) simp
  then have x: "ms_billingMode tieredSnapshot = TieredExpr \<longrightarrow> writtenTiers tieredSnapshot \<and> trim (ms_billingExpr tieredSnapshot) \<noteq> [] \<and>
      exprKept (ms_billingExpr tieredSnapshot) (ms_requestRuleExpr tieredSnapshot)"
    using tiered_sample(7,8) by (simp add: exprKept_def)
  have t: "readMaps (ve_texts ?st) = Some tieredMaps" "row_draft ?row = Some tieredSnapshot" using tiered_reads by simp_all
  from open_save_unchanged [OF t(1) tiered_sample(1) tiered_reads(2) t(2) tiered_sample(2) lit_code_units tiered_sample(3-5) x] tiered_sample(6,10)
  show ?thesis by fastforce
qed

definition tieredModel :: "jstr \<Rightarrow> ModelRatioData" where
  "tieredModel expr = \<lparr>md_name = lit ''m'', md_price = [], md_ratio = [], md_lanes = (\<lambda>_. []), md_billingMode = TieredExpr, md_billingExpr = expr, md_requestRuleExpr = []\<rparr>"

text \<open>
  C37.  A model whose expression the visual editor cannot read loses it: when the panel opens such a model, the editor settles after four renderings with \<open>p * 0 + c * 0\<close>, and
  whatever the panel then commits has this expression, which charges nothing, in place of the one that was stored.
\<close>

theorem unread_model_lost:
  assumes "md_billingMode d = TieredExpr" "tryParseVisualConfig (md_billingExpr d) = None" "md_billingExpr d \<noteq> []" "md_billingExpr d \<noteq> zeroExpr"
    and "\<forall>g\<in>set gs. readableGroup g" "md_requestRuleExpr d = buildRequestRuleExpr gs"
    and "splitBillingExprAndRequestRules (combineBillingExpr (md_billingExpr d) (md_requestRuleExpr d)) = Some parts"
    and "tryParseVisualConfig (billingExpr parts) = None" "billingExpr parts \<noteq> []"
  shows "\<exists>s. openTierEditor 4 (md_name d) (md_billingExpr d) (md_requestRuleExpr d) = Some s \<and> te_mode s = RawMode \<and>
    effectiveExpr s = Some (lit ''p * 0 + c * 0'') \<and>
    (\<forall>d'. commitDraft (hostedPanel s (initPanel (Some d))) = Some d' \<longrightarrow> md_billingExpr d' = lit ''p * 0 + c * 0'' \<and> md_requestRuleExpr d' = md_requestRuleExpr d)"
proof -
  note r = open_unread [OF assms(2-5), of parts "md_name d"]
  have "openTierEditor 4 (md_name d) (md_billingExpr d) (md_requestRuleExpr d) =
      Some (rawState (md_name d) zeroExpr (md_requestRuleExpr d) (combineBillingExpr zeroExpr (md_requestRuleExpr d)) gs True)"
    using r assms(6-9) by simp
  then show ?thesis
    using zero_split [OF assms(5)] assms(1,6)
    by (auto simp: hostedPanel_def initPanel_def Let_def commitDraft_def buildSubmitData_def zeroExpr_def split: if_splits)
qed

theorem unread_model_lost_witness:
  "\<exists>s d'. openTierEditor 4 (lit ''m'') (lit ''max(p * 3, c * 15)'') [] = Some s \<and>
    commitDraft (hostedPanel s (initPanel (Some (tieredModel (lit ''max(p * 3, c * 15)''))))) = Some d' \<and> md_billingExpr d' = lit ''p * 0 + c * 0''"
proof -
  define d where "d = tieredModel complexExpr"
  have d: "md_name d = lit ''m''" "md_billingExpr d = complexExpr" "md_requestRuleExpr d = []" "md_billingMode d = TieredExpr" by (simp_all add: d_def tieredModel_def)
  obtain s where s: "openTierEditor 4 (lit ''m'') complexExpr [] = Some s"
      "\<forall>d'. commitDraft (hostedPanel s (initPanel (Some d))) = Some d' \<longrightarrow> md_billingExpr d' = lit ''p * 0 + c * 0''"
    using unread_model_lost [of d "[]" "\<lparr>billingExpr = complexExpr, requestRuleExpr = []\<rparr>"] complex_unread d by auto
  have "commitDraft (hostedPanel s (initPanel (Some d))) \<noteq> None"
    by (simp add: hostedPanel_def d_def tieredModel_def commitDraft_def initPanel_def Let_def validatePricingValues_def dependentMissing_def audioMissing_def createInitialLaneState_def lit_def)
  then show ?thesis using s unfolding d_def complexExpr_def by blast
qed

end
